(* ===== verification/Prelude.thy ===== *)
theory Prelude
  imports Main "HOL-Library.Word" "HOL-Library.Monad_Syntax" "HOL-Library.State_Monad"
begin

text \<open>
  Shared material: the integer types of the driver, the error numbers of its return values, the
  kernel and device interface (\<open>kcall\<close>), the world in which the driver runs (an oracle that
  answers every call, and the trace of the calls made so far) and a small calculus of triples over
  the state monad, with the collections \<open>run_simps\<close> and \<open>triple_intro\<close> that carry the proofs of
  the components.
\<close>

unbundle bit_operations_syntax

named_theorems run_simps "execution of one operation on a given state"
named_theorems triple_intro "introduction rules for triples"
named_theorems reg_defs "values of register offsets, masks and sizes"

section \<open>Integers, pointers and error numbers\<close>

type_synonym u8 = "8 word"
type_synonym u16 = "16 word"
type_synonym u32 = "32 word"
type_synonym u64 = "64 word"

text \<open>Addresses of the kernel and of the device: 0 is NULL.\<close>

type_synonym ptr = u64
type_synonym dma_addr = u64

text \<open>The error numbers of \<^verbatim>\<open><linux/errno.h>\<close> that the driver returns, negated, as a C int.\<close>

abbreviation (input) ENOENT :: int where "ENOENT \<equiv> 2"
abbreviation (input) EIO :: int where "EIO \<equiv> 5"
abbreviation (input) ENXIO :: int where "ENXIO \<equiv> 6"
abbreviation (input) ENOMEM :: int where "ENOMEM \<equiv> 12"
abbreviation (input) EBUSY :: int where "EBUSY \<equiv> 16"
abbreviation (input) ENODEV :: int where "ENODEV \<equiv> 19"
abbreviation (input) EINVAL :: int where "EINVAL \<equiv> 22"
abbreviation (input) ENOSPC :: int where "ENOSPC \<equiv> 28"
abbreviation (input) ERANGE :: int where "ERANGE \<equiv> 34"
abbreviation (input) EPROTO :: int where "EPROTO \<equiv> 71"
abbreviation (input) EOPNOTSUPP :: int where "EOPNOTSUPP \<equiv> 95"
abbreviation (input) EADDRNOTAVAIL :: int where "EADDRNOTAVAIL \<equiv> 99"
abbreviation (input) ETIMEDOUT :: int where "ETIMEDOUT \<equiv> 110"
abbreviation (input) EALREADY :: int where "EALREADY \<equiv> 114"

section \<open>The kernel and device interface\<close>

text \<open>
  Everything the driver calls outside its own sources is a \<open>kcall\<close>: one constructor per kernel
  function (or device access) with the arguments the driver chooses. Its answer is an integer: a
  register value, a pointer (0 for NULL) or an error number.
\<close>

datatype lock = Ctxt_lock | Mbox_lock | Txq_lock nat

datatype io_call =
    Ioread32 ptr u32            \<comment> \<open>base of the mapping, offset\<close>
  | Iowrite32 u32 ptr u32       \<comment> \<open>value, base, offset\<close>
  | Udelay nat
  | Mdelay nat

datatype sync_call =
    Mutex_lock lock
  | Mutex_unlock lock
  | Mutex_init lock
  | Wait_for_completion nat     \<comment> \<open>time limit in ms; the answer says how many interrupts arrive\<close>
  | Get_random_u32
  | Random_mac_byte nat

datatype obj = Obj_qdma_dev | Obj_q_vector | Obj_tx_queue | Obj_rx_queue | Obj_tx_buffer | Obj_rx_buffer

datatype mem_call =
    Kzalloc obj
  | Kcalloc obj nat
  | Vmalloc nat
  | Kfree ptr
  | Dma_alloc_coherent nat      \<comment> \<open>answer: kernel address of the region\<close>
  | Dma_handle ptr              \<comment> \<open>the DMA address the allocation stored through its out parameter\<close>
  | Dma_free_coherent nat ptr dma_addr
  | Dma_memset ptr nat
  | Dma_read64 ptr nat          \<comment> \<open>read of device-shared memory at base + byte offset\<close>
  | Dma_write64 ptr nat u64

datatype skb_call =
    Skb_queue_mapping ptr
  | Skb_put_padto ptr nat
  | Skb_len ptr
  | Dma_map_single ptr u32
  | Dma_mapping_error dma_addr
  | Dma_unmap_single dma_addr u32
  | Dma_sync_single_for_cpu dma_addr u32
  | Dma_sync_single_for_device dma_addr u32
  | Dev_kfree_skb ptr
  | Napi_build_skb ptr
  | Skb_deliver ptr nat u32     \<comment> \<open>skb, headroom reserved, length put\<close>
  | Napi_gro_receive ptr

datatype page_call =
    Page_pool_create nat
  | Page_pool_alloc ptr
  | Page_pool_put ptr ptr
  | Page_pool_recycle_direct ptr ptr
  | Page_pool_destroy ptr
  | Page_pool_get_dma_addr ptr
  | Page_address ptr

text \<open>XDP: a program and a packet are pointers; an XDP buffer is named by its page.\<close>

datatype xdp_call =
    Bpf_prog_run ptr ptr        \<comment> \<open>program, page; the answer is the verdict\<close>
  | Bpf_prog_put ptr
  | Bpf_warn_invalid_action u32
  | Trace_xdp_exception u32
  | Xdp_do_redirect ptr
  | Xdp_do_flush
  | Xdp_buff_headroom ptr | Xdp_buff_len ptr
  | Xdp_convert_buff_to_frame ptr
  | Xdp_frame_len ptr | Xdp_frame_headroom ptr | Xdp_frame_page ptr
  | Xdp_return_frame ptr | Xdp_return_frame_rx_napi ptr
  | Xdp_rxq_info_reg nat | Xdp_rxq_info_reg_mem_model nat ptr
  | Xdp_rxq_info_unreg nat
  | Xdp_features_set_redirect_target | Xdp_features_clear_redirect_target

datatype irq_owner = Irq_vf_mbox | Irq_vf_q nat | Irq_pf_q nat | Irq_pf_user | Irq_pf_error

datatype pci_call =
    Pci_enable_device_mem | Pci_disable_device
  | Dma_set_mask nat | Dma_set_coherent_mask nat
  | Pci_request_mem_regions | Pci_release_mem_regions
  | Pci_set_master
  | Pcie_capability_set_word u32 | Pci_save_state | Pcie_set_readrq nat
  | Pci_set_drvdata ptr
  | Pci_resource_len nat
  | Pci_iomap nat nat           \<comment> \<open>BAR, length (0: all of it)\<close>
  | Pci_iomap_range nat u32 u32 \<comment> \<open>BAR, start, length\<close>
  | Pci_iounmap ptr
  | Pci_alloc_irq_vectors nat nat
  | Pci_free_irq_vectors
  | Pci_irq_vector nat
  | Request_irq int irq_owner
  | Free_irq int irq_owner
  | Synchronize_irq int
  | Pci_vfs_assigned | Pci_num_vf
  | Pci_enable_sriov nat | Pci_disable_sriov

datatype net_call =
    Alloc_etherdev | Free_netdev
  | Alloc_percpu_stats | Free_percpu_stats
  | This_cpu                    \<comment> \<open>number of the running CPU\<close>
  | Register_netdev | Unregister_netdev
  | Netif_set_real_num_tx_queues nat | Netif_set_real_num_rx_queues nat
  | Netif_carrier_on | Netif_carrier_off
  | Netif_tx_start_all_queues | Netif_tx_stop_all_queues
  | Netif_running | Netif_carrier_ok | Netdev_xmit_more
  | Real_num_tx_queues | Real_num_rx_queues
  | Netif_stop_subqueue nat | Netif_wake_subqueue nat | Netif_tx_queue_stopped nat
  | Netif_napi_add nat | Netif_napi_del nat | Napi_enable nat | Napi_disable nat
  | Napi_schedule nat | Napi_complete nat | Napi_complete_done nat nat
  | Eth_hw_addr_set "u8 list" | Eth_hw_addr_random
  | Schedule_tx_clean nat | Schedule_rx_poll nat
  | Cancel_tx_clean | Cancel_rx_poll

datatype kcall = Io io_call | Sync sync_call | Mem mem_call | Skb skb_call | Page page_call
  | Xdp xdp_call | Pci pci_call | Net net_call

section \<open>The world\<close>

text \<open>
  An event is a call with its answer. The answer is chosen by \<open>ext\<close>, an arbitrary function of the
  whole history and the call: a theorem that holds for every \<open>ext\<close> holds for every behaviour of the
  kernel and of the device. The components extend the record by the driver's private data.
\<close>

type_synonym event = "kcall \<times> int"

record world =
  ext :: "event list \<Rightarrow> kcall \<Rightarrow> int"
  trace :: "event list"

type_synonym ('z, 'a) drv = "('z world_scheme, 'a) state"

abbreviation ret :: "'a \<Rightarrow> ('s, 'a) state" where "ret \<equiv> State_Monad.return"

definition get_state :: "('s, 's) state" where
  "get_state = State (\<lambda>s. (s, s))"

definition modify_state :: "('s \<Rightarrow> 's) \<Rightarrow> ('s, unit) state" where
  "modify_state f = State (\<lambda>s. ((), f s))"

definition perform :: "kcall \<Rightarrow> ('z, int) drv" where
  "perform c = State (\<lambda>s. let r = ext s (trace s) c in (r, s\<lparr>trace := trace s @ [(c, r)]\<rparr>))"

definition invoke :: "kcall \<Rightarrow> ('z, unit) drv" where
  "invoke c = do { _ \<leftarrow> perform c; ret () }"

text \<open>
  A kernel function that returns 0 or a negative error number: whatever else \<open>ext\<close> answers is read as an error.
\<close>

definition errno_of :: "int \<Rightarrow> int" where
  "errno_of r = - \<bar>r\<bar>"

definition perform_errno :: "kcall \<Rightarrow> ('z, int) drv" where
  "perform_errno c = do { r \<leftarrow> perform c; ret (errno_of r) }"

lemma errno_of_simps [simp]: "errno_of r \<le> 0" "errno_of r = 0 \<longleftrightarrow> r = 0" "errno_of r < 0 \<longleftrightarrow> r \<noteq> 0"
  by (auto simp: errno_of_def)

lemma run_get_state [simp, run_simps]: "run_state get_state s = (s, s)"
  by (simp add: get_state_def)

lemma run_modify_state [simp, run_simps]: "run_state (modify_state f) s = ((), f s)"
  by (simp add: modify_state_def)

lemma run_perform [run_simps]:
  "run_state (perform c) s =
     (ext s (trace s) c, s\<lparr>trace := trace s @ [(c, ext s (trace s) c)]\<rparr>)"
  by (simp add: perform_def Let_def)

lemma run_invoke [run_simps]:
  "run_state (invoke c) s = ((), s\<lparr>trace := trace s @ [(c, ext s (trace s) c)]\<rparr>)"
  by (simp add: perform_def invoke_def Let_def)

lemma run_perform_errno [run_simps]:
  "run_state (perform_errno c) s =
     (errno_of (ext s (trace s) c), s\<lparr>trace := trace s @ [(c, ext s (trace s) c)]\<rparr>)"
  by (simp add: perform_errno_def run_perform)

lemma run_if: "run_state (if b then m else n) s = (if b then run_state m s else run_state n s)"
  by simp

text \<open>\<open>for_each xs f\<close> is a C for loop over the indices \<open>xs\<close> whose body \<open>f\<close> never leaves it.\<close>

fun for_each :: "'i list \<Rightarrow> ('i \<Rightarrow> ('s, unit) state) \<Rightarrow> ('s, unit) state" where
  "for_each [] f = ret ()"
| "for_each (x # xs) f = do { f x; for_each xs f }"

fun for_each_acc :: "'i list \<Rightarrow> ('i \<Rightarrow> 'a \<Rightarrow> ('s, 'a) state) \<Rightarrow> 'a \<Rightarrow> ('s, 'a) state" where
  "for_each_acc [] f a = ret a"
| "for_each_acc (x # xs) f a = do { a' \<leftarrow> f x a; for_each_acc xs f a' }"

text \<open>
  \<open>for_until xs f\<close> is a for loop that stops at the first index whose body returns a nonzero
  code: the code, and the indices not reached (\<open>[]\<close> with code 0 when the loop ran to its end).
\<close>

fun for_until :: "'i list \<Rightarrow> ('i \<Rightarrow> ('s, int) state) \<Rightarrow> ('s, int \<times> 'i list) state" where
  "for_until [] f = ret (0, [])"
| "for_until (x # xs) f = do {
     r \<leftarrow> f x;
     if r \<noteq> 0 then ret (r, x # xs) else for_until xs f }"

text \<open>\<open>try_all ms\<close>: the steps in order, up to the first negative return code (the C pattern
  \<^verbatim>\<open>rv = step(); if (rv < 0) goto out;\<close>).\<close>

fun try_all :: "('s, int) state list \<Rightarrow> ('s, int) state" where
  "try_all [] = ret 0"
| "try_all (m # ms) = do { rv \<leftarrow> m; if rv < 0 then ret rv else try_all ms }"

section \<open>Triples\<close>

text \<open>
  \<open>triple A P m B\<close>: from a state with \<open>A\<close>, \<open>m\<close> ends in a state related to its result by
  \<open>B\<close>, only appends to the trace, and every event it appends satisfies \<open>P\<close>.
\<close>

definition triple ::
  "('z world_scheme \<Rightarrow> bool) \<Rightarrow> (event \<Rightarrow> bool) \<Rightarrow> ('z, 'a) drv \<Rightarrow> ('a \<Rightarrow> 'z world_scheme \<Rightarrow> bool) \<Rightarrow> bool"
  where
  "triple A P m B \<longleftrightarrow>
     (\<forall>s. A s \<longrightarrow>
        (case run_state m s of (a, s') \<Rightarrow>
           B a s' \<and> (\<exists>evs. trace s' = trace s @ evs \<and> list_all P evs)))"

abbreviation top1 :: "'a \<Rightarrow> bool" where "top1 \<equiv> (\<lambda>_. True)"
abbreviation top2 :: "'a \<Rightarrow> 'b \<Rightarrow> bool" where "top2 \<equiv> (\<lambda>_ _. True)"

text \<open>\<open>emits P m\<close>: whatever the state, every event of \<open>m\<close> satisfies \<open>P\<close>.\<close>

abbreviation emits :: "(event \<Rightarrow> bool) \<Rightarrow> ('z, 'a) drv \<Rightarrow> bool" where
  "emits P m \<equiv> triple top1 P m top2"

lemma tripleI:
  assumes "\<And>s a s'. A s \<Longrightarrow> run_state m s = (a, s') \<Longrightarrow>
             B a s' \<and> (\<exists>evs. trace s' = trace s @ evs \<and> list_all P evs)"
  shows "triple A P m B"
  unfolding triple_def using assms by (auto split: prod.split)

lemma tripleD:
  assumes "triple A P m B" "A s" "run_state m s = (a, s')"
  shows "B a s'" "\<exists>evs. trace s' = trace s @ evs \<and> list_all P evs"
  using assms unfolding triple_def by (auto split: prod.splits)

lemma triple_bind:
  assumes "triple A P m B" "\<And>a. triple (B a) P (f a) C"
  shows "triple A P (State_Monad.bind m f) C"
proof (rule tripleI)
  fix s c s2
  assume A: "A s" and run: "run_state (State_Monad.bind m f) s = (c, s2)"
  obtain a s1 where m: "run_state m s = (a, s1)" by (cases "run_state m s")
  with run have f: "run_state (f a) s1 = (c, s2)" by simp
  from tripleD [OF assms(1) A m] obtain e1
    where B: "B a s1" and e1: "trace s1 = trace s @ e1" "list_all P e1" by blast
  from tripleD [OF assms(2) B f] obtain e2
    where C: "C c s2" and e2: "trace s2 = trace s1 @ e2" "list_all P e2" by blast
  from e1 e2 have "trace s2 = trace s @ (e1 @ e2)" "list_all P (e1 @ e2)" by auto
  with C show "C c s2 \<and> (\<exists>evs. trace s2 = trace s @ evs \<and> list_all P evs)" by blast
qed

lemma triple_conseq:
  assumes "triple A P m B" "\<And>s. A' s \<Longrightarrow> A s" "\<And>e. P e \<Longrightarrow> P' e" "\<And>a s. B a s \<Longrightarrow> B' a s"
  shows "triple A' P' m B'"
proof (rule tripleI)
  fix s a s'
  assume "A' s" and run: "run_state m s = (a, s')"
  from tripleD [OF assms(1) assms(2) [OF \<open>A' s\<close>] run] obtain evs
    where "B a s'" "trace s' = trace s @ evs" "list_all P evs" by blast
  then show "B' a s' \<and> (\<exists>evs. trace s' = trace s @ evs \<and> list_all P' evs)"
    using assms(3,4) by (auto simp: list_all_iff)
qed

lemma emits_bind [triple_intro]:
  "emits P m \<Longrightarrow> (\<And>a. emits P (f a)) \<Longrightarrow> emits P (State_Monad.bind m f)"
  by (rule triple_bind)

lemma triple_ret [triple_intro]: "(\<And>s. A s \<Longrightarrow> B a s) \<Longrightarrow> triple A P (ret a) B"
  by (rule tripleI) simp

lemma triple_if [triple_intro]:
  "(b \<Longrightarrow> triple A P m B) \<Longrightarrow> (\<not> b \<Longrightarrow> triple A P n B) \<Longrightarrow> triple A P (if b then m else n) B"
  by simp

lemma triple_case_option [triple_intro]:
  "(x = None \<Longrightarrow> triple A P m B) \<Longrightarrow> (\<And>y. x = Some y \<Longrightarrow> triple A P (f y) B) \<Longrightarrow>
     triple A P (case x of None \<Rightarrow> m | Some y \<Rightarrow> f y) B"
  by (cases x) auto

lemma triple_case_prod [triple_intro]:
  "(\<And>a b. x = (a, b) \<Longrightarrow> triple A P (f a b) B) \<Longrightarrow> triple A P (case x of (a, b) \<Rightarrow> f a b) B"
  by (cases x) auto

lemma triple_let [triple_intro]:
  "(\<And>y. y = x \<Longrightarrow> triple A P (f y) B) \<Longrightarrow> triple A P (let y = x in f y) B"
  by simp

lemma triple_get_state: "triple A P get_state (\<lambda>a s. a = s \<and> A s)"
  by (rule tripleI) simp

lemma emits_get_state [triple_intro]: "triple top1 P get_state top2"
  by (rule tripleI) simp

lemma emits_modify_state [triple_intro]:
  "(\<And>s. trace (f s) = trace s) \<Longrightarrow> triple top1 P (modify_state f) top2"
  by (rule tripleI) auto

lemma triple_perform:
  assumes "\<And>s. A s \<Longrightarrow> P (c, ext s (trace s) c)"
  shows "triple A P (perform c)
     (\<lambda>r s'. \<exists>s. A s \<and> r = ext s (trace s) c \<and> s' = s\<lparr>trace := trace s @ [(c, r)]\<rparr>)"
  by (rule tripleI) (auto simp: run_perform assms)

lemma emits_perform [triple_intro]: "(\<And>r. P (c, r)) \<Longrightarrow> emits P (perform c)"
  by (rule tripleI) (auto simp: run_perform)

lemma emits_perform_errno [triple_intro]: "(\<And>r. P (c, r)) \<Longrightarrow> emits P (perform_errno c)"
  by (rule tripleI) (auto simp: perform_errno_def run_perform)

lemma emits_invoke [triple_intro]: "(\<And>r. P (c, r)) \<Longrightarrow> emits P (invoke c)"
  by (rule tripleI) (auto simp: run_invoke)

lemma emits_mono: "emits P m \<Longrightarrow> (\<And>e. P e \<Longrightarrow> P' e) \<Longrightarrow> emits P' m"
  by (erule triple_conseq) auto

lemma emitsD:
  "emits P m \<Longrightarrow> \<exists>evs. trace (snd (run_state m s)) = trace s @ evs \<and> list_all P evs"
  using tripleD(2) [of top1 P m top2 s] by (metis prod.collapse)

lemma emits_for_each [triple_intro]:
  "(\<And>x. x \<in> set xs \<Longrightarrow> emits P (f x)) \<Longrightarrow> emits P (for_each xs f)"
  by (induction xs) (auto intro!: triple_ret intro: triple_bind)

lemma emits_for_each_acc [triple_intro]:
  "(\<And>x a. x \<in> set xs \<Longrightarrow> emits P (f x a)) \<Longrightarrow> emits P (for_each_acc xs f a)"
  by (induction xs arbitrary: a) (auto intro!: triple_ret intro: triple_bind)

lemma emits_for_until [triple_intro]:
  "(\<And>x. x \<in> set xs \<Longrightarrow> emits P (f x)) \<Longrightarrow> emits P (for_until xs f)"
  by (induction xs) (auto intro!: triple_ret triple_if intro: triple_bind)

lemma emits_try_all [triple_intro]: "list_all (emits P) ms \<Longrightarrow> emits P (try_all ms)"
  by (induction ms) (auto intro!: triple_ret emits_bind triple_if)

section \<open>Operations that only act on the outside\<close>

text \<open>
  \<open>io_only m\<close>: \<open>m\<close> appends to the trace and leaves every other part of the state alone, the
  private data of the driver included.
\<close>

named_theorems io_intro "operations that only append to the trace"

definition io_only :: "('z, 'a) drv \<Rightarrow> bool" where
  "io_only m \<longleftrightarrow> (\<forall>s. \<exists>evs. snd (run_state m s) = s\<lparr>trace := trace s @ evs\<rparr>)"

lemma io_onlyD:
  assumes "io_only m" "run_state m s = (a, s')"
  obtains evs where "s' = s\<lparr>trace := trace s @ evs\<rparr>"
  using assms unfolding io_only_def by (metis snd_conv)

lemma io_only_frame:
  assumes "io_only m" "run_state m s = (a, s')"
  shows "s' = s\<lparr>trace := trace s'\<rparr>" "ext s' = ext s"
  by (rule io_onlyD [OF assms], simp)+

lemma io_only_perform [io_intro]: "io_only (perform c)"
  by (auto simp: io_only_def run_perform)

lemma io_only_invoke [io_intro]: "io_only (invoke c)"
  by (auto simp: io_only_def run_invoke)

lemma io_only_perform_errno [io_intro]: "io_only (perform_errno c)"
  by (auto simp: io_only_def perform_errno_def run_perform)

lemma io_only_ret [io_intro]: "io_only (ret a)"
  by (auto simp: io_only_def intro: exI [of _ "[]"])

lemma io_only_bind [io_intro]:
  assumes "io_only m" "\<And>a. io_only (f a)"
  shows "io_only (State_Monad.bind m f)"
  unfolding io_only_def
proof
  fix s
  obtain a s1 where 1: "run_state m s = (a, s1)" by (cases "run_state m s")
  obtain b s2 where 2: "run_state (f a) s1 = (b, s2)" by (cases "run_state (f a) s1")
  from io_onlyD [OF assms(1) 1] obtain e1 where "s1 = s\<lparr>trace := trace s @ e1\<rparr>" .
  moreover from io_onlyD [OF assms(2) 2] obtain e2 where "s2 = s1\<lparr>trace := trace s1 @ e2\<rparr>" .
  ultimately have "s2 = s\<lparr>trace := trace s @ (e1 @ e2)\<rparr>" by simp
  then show "\<exists>evs. snd (run_state (State_Monad.bind m f) s) = s\<lparr>trace := trace s @ evs\<rparr>"
    using 1 2 by auto
qed

lemma io_only_if [io_intro]: "(b \<Longrightarrow> io_only m) \<Longrightarrow> (\<not> b \<Longrightarrow> io_only n) \<Longrightarrow> io_only (if b then m else n)"
  by simp

lemma io_only_case_option [io_intro]:
  "(x = None \<Longrightarrow> io_only m) \<Longrightarrow> (\<And>y. x = Some y \<Longrightarrow> io_only (f y)) \<Longrightarrow>
     io_only (case x of None \<Rightarrow> m | Some y \<Rightarrow> f y)"
  by (cases x) auto

lemma io_only_case_prod [io_intro]:
  "(\<And>a b. x = (a, b) \<Longrightarrow> io_only (f a b)) \<Longrightarrow> io_only (case x of (a, b) \<Rightarrow> f a b)"
  by (cases x) auto

lemma io_only_let [io_intro]: "(\<And>y. y = x \<Longrightarrow> io_only (f y)) \<Longrightarrow> io_only (let y = x in f y)"
  by simp

lemma io_only_for_each [io_intro]:
  "(\<And>x. x \<in> set xs \<Longrightarrow> io_only (f x)) \<Longrightarrow> io_only (for_each xs f)"
  by (induction xs) (auto intro: io_intro)

lemma io_only_for_each_acc [io_intro]:
  "(\<And>x a. x \<in> set xs \<Longrightarrow> io_only (f x a)) \<Longrightarrow> io_only (for_each_acc xs f a)"
  by (induction xs arbitrary: a) (auto intro: io_intro)

lemma io_only_try_all [io_intro]: "list_all io_only ms \<Longrightarrow> io_only (try_all ms)"
  by (induction ms) (auto intro!: io_intro)

lemma io_only_for_until [io_intro]:
  "(\<And>x. x \<in> set xs \<Longrightarrow> io_only (f x)) \<Longrightarrow> io_only (for_until xs f)"
  by (induction xs) (auto intro!: io_intro)

lemma io_emitsD:
  assumes "io_only m" "emits P m" "run_state m s = (a, s')"
  obtains evs where "s' = s\<lparr>trace := trace s @ evs\<rparr>" "list_all P evs"
proof -
  from io_onlyD [OF assms(1,3)] obtain evs where e: "s' = s\<lparr>trace := trace s @ evs\<rparr>" .
  moreover have "\<exists>evs. trace s' = trace s @ evs \<and> list_all P evs"
    using emitsD [OF assms(2), of s] assms(3) by simp
  ultimately have "list_all P evs" by auto
  with e show thesis by (rule that)
qed

text \<open>An invariant of the accumulator of a loop.\<close>

lemma for_each_acc_result:
  assumes "\<And>x a s. x \<in> set xs \<Longrightarrow> P a \<Longrightarrow> P (fst (run_state (f x a) s))" "P a"
  shows "P (fst (run_state (for_each_acc xs f a) s))"
  using assms
proof (induction xs arbitrary: a s)
  case (Cons x xs)
  obtain a' s' where a: "run_state (f x a) s = (a', s')" by (cases "run_state (f x a) s")
  with Cons.prems(1) [of x a s] Cons.prems(2) have "P a'" by simp
  with Cons.IH [of a' s'] Cons.prems(1) a show ?case by simp
qed simp

section \<open>Fixed sequences of calls\<close>

text \<open>\<open>scripted m cs\<close>: \<open>m\<close> makes exactly the calls \<open>cs\<close>, in this order, whatever they answer.\<close>

named_theorems script_intro "operations that make a fixed sequence of calls"

definition scripted :: "('z, unit) drv \<Rightarrow> kcall list \<Rightarrow> bool" where
  "scripted m cs \<longleftrightarrow>
     (\<forall>s. \<exists>evs. run_state m s = ((), s\<lparr>trace := trace s @ evs\<rparr>) \<and> map fst evs = cs)"

lemma scriptedD:
  assumes "scripted m cs"
  obtains evs where "run_state m s = ((), s\<lparr>trace := trace s @ evs\<rparr>)" "map fst evs = cs"
  using assms unfolding scripted_def by blast

lemma scripted_invoke [script_intro]: "scripted (invoke c) [c]"
  by (auto simp: scripted_def run_invoke)

lemma scripted_ret [script_intro]: "scripted (ret ()) []"
  by (auto simp: scripted_def intro: exI [of _ "[]"])

lemma scripted_bind [script_intro]:
  assumes "scripted m cs" "scripted n ds"
  shows "scripted (State_Monad.bind m (\<lambda>_. n)) (cs @ ds)"
  unfolding scripted_def
proof
  fix s
  from scriptedD [OF assms(1)] obtain e1
    where 1: "run_state m s = ((), s\<lparr>trace := trace s @ e1\<rparr>)" "map fst e1 = cs" .
  from scriptedD [OF assms(2)] obtain e2 where 2: "run_state n (s\<lparr>trace := trace s @ e1\<rparr>) =
    ((), s\<lparr>trace := trace s @ e1, trace := trace (s\<lparr>trace := trace s @ e1\<rparr>) @ e2\<rparr>)" "map fst e2 = ds" .
  from 1 2 show "\<exists>evs. run_state (State_Monad.bind m (\<lambda>_. n)) s = ((), s\<lparr>trace := trace s @ evs\<rparr>) \<and>
      map fst evs = cs @ ds"
    by (intro exI [of _ "e1 @ e2"]) simp
qed

lemma scripted_if [script_intro]:
  "(b \<Longrightarrow> scripted m cs) \<Longrightarrow> (\<not> b \<Longrightarrow> scripted n ds) \<Longrightarrow>
     scripted (if b then m else n) (if b then cs else ds)"
  by simp

lemma scripted_for_each [script_intro]:
  assumes "\<And>x. x \<in> set xs \<Longrightarrow> scripted (f x) (g x)"
  shows "scripted (for_each xs f) (concat (map g xs))"
  using assms by (induction xs) (auto intro: scripted_ret scripted_bind)

lemma scripted_eq: "scripted m cs \<Longrightarrow> cs = ds \<Longrightarrow> scripted m ds"
  by simp

section \<open>Views of the trace\<close>

text \<open>
  A view replays the trace into the state of one part of the outside (registers of the card, the
  resources the kernel has handed out). The interface of a view: its step, its initial state, and
  the events that leave it alone.
\<close>

locale trace_view =
  fixes step :: "event \<Rightarrow> 'd \<Rightarrow> 'd"
    and init :: 'd
    and view :: "event list \<Rightarrow> 'd"
    and quiet :: "event \<Rightarrow> bool"
  assumes view_fold: "view tr = fold step tr init"
    and step_quiet: "quiet e \<Longrightarrow> step e d = d"
begin

lemma view_append: "view (tr @ evs) = fold step evs (view tr)"
  by (simp add: view_fold)

lemma fold_quiet: "list_all quiet evs \<Longrightarrow> fold step evs d = d"
  by (induction evs arbitrary: d) (auto simp: step_quiet)

lemma view_quiet: "list_all quiet evs \<Longrightarrow> view (tr @ evs) = view tr"
  by (simp add: view_append fold_quiet)

lemma view_emits:
  assumes "emits quiet m" "run_state m s = (a, s')"
  shows "view (trace s') = view (trace s)"
  using emitsD [OF assms(1), of s] assms(2) by (auto simp: view_quiet)

end

section \<open>Lists and words\<close>

lemma unset_set_bit_0: "\<not> bit (w :: u32) 0 \<Longrightarrow> unset_bit 0 (set_bit 0 w) = w"
  by (rule bit_eqI) (auto simp: bit_simps intro!: gr0I)

lemma unat_of_nat_16 [simp]: "n < 65536 \<Longrightarrow> unat (of_nat n :: u16) = n"
  by (simp add: unat_of_nat take_bit_eq_mod)

lemma of_nat_unat_16 [simp]: "of_nat (unat (w :: u16)) = w"
  by simp

lemma unat_u16_less [simp]: "unat (w :: u16) < 65536"
  using unsigned_less [of w] by simp

end
