(* ===== verification/Common.thy ===== *)
theory Common
  imports Prelude
begin

text \<open>
  \<^verbatim>\<open>onic_common.h\<close>: the bit-field macros on which every register, context and descriptor of the
  driver is built. \<open>get_trailing_zeros\<close> is the portable branch of the C function (the driver never
  defines \<^verbatim>\<open>GCC_COMPILER\<close>), a binary search over halving masks. The lemmas show that it counts
  trailing zeros, hence that \<open>FIELD_SET\<close> and \<open>BITFIELD_GET\<close> are mutually inverse on
  contiguous masks and independent on disjoint ones.
\<close>

section \<open>Masks of the kernel\<close>

text \<open>\<^verbatim>\<open>GENMASK(h, l)\<close>, \<^verbatim>\<open>GENMASK_ULL(h, l)\<close> and \<^verbatim>\<open>BIT(n)\<close> of \<^verbatim>\<open><linux/bits.h>\<close>, all of type unsigned long.\<close>

definition GENMASK :: "nat \<Rightarrow> nat \<Rightarrow> u64" where
  "GENMASK h l = push_bit l (mask (Suc h - l))"

abbreviation (input) BIT :: "nat \<Rightarrow> u64" where
  "BIT n \<equiv> GENMASK n n"

section \<open>get_trailing_zeros and the field macros\<close>

definition gtz_step :: "nat \<Rightarrow> u64 \<Rightarrow> u8 \<times> u64 \<Rightarrow> u8 \<times> u64" where
  "gtz_step k m = (\<lambda>(n, x). if x AND m = 0 then (n + of_nat k, drop_bit k x) else (n, x))"

definition get_trailing_zeros :: "u64 \<Rightarrow> u8" where
  "get_trailing_zeros x =
     (let nx = (1, x);
          nx = gtz_step 32 0xFFFFFFFF nx;
          nx = gtz_step 16 0x0000FFFF nx;
          nx = gtz_step 8 0x000000FF nx;
          nx = gtz_step 4 0x0000000F nx;
          nx = gtz_step 2 0x00000003 nx
      in fst nx - ucast (snd nx AND 1))"

definition FIELD_SHIFT :: "u64 \<Rightarrow> nat" where
  "FIELD_SHIFT m = unat (get_trailing_zeros m)"

definition FIELD_SET :: "u64 \<Rightarrow> u64 \<Rightarrow> u64" where
  "FIELD_SET m v = push_bit (FIELD_SHIFT m) v AND m"

definition BITFIELD_GET :: "u64 \<Rightarrow> u64 \<Rightarrow> u64" where
  "BITFIELD_GET m r = drop_bit (FIELD_SHIFT m) (r AND m)"

section \<open>Correctness of get_trailing_zeros\<close>

text \<open>\<open>lsb_at x k\<close>: the lowest set bit of \<open>x\<close> is bit \<open>k\<close>.\<close>

definition lsb_at :: "u64 \<Rightarrow> nat \<Rightarrow> bool" where
  "lsb_at x k \<longleftrightarrow> bit x k \<and> (\<forall>i<k. \<not> bit x i)"

lemma lsb_at_less: "lsb_at x k \<Longrightarrow> k < 64"
  using bit_imp_le_length [of x k] by (simp add: lsb_at_def)

lemma lsb_at_exists:
  assumes "x \<noteq> 0"
  obtains k where "lsb_at x k"
proof -
  from assms obtain n where "bit x n" by (auto simp: bit_eq_iff)
  then have "bit x (LEAST n. bit x n)" by (rule LeastI)
  moreover have "\<forall>i<(LEAST n. bit x n). \<not> bit x i" using not_less_Least by blast
  ultimately show thesis using that unfolding lsb_at_def by blast
qed

lemma and_mask_zero_iff:
  "(x :: u64) AND mask k = 0 \<longleftrightarrow> (\<forall>i<k. \<not> bit x i)"
proof
  assume "x AND mask k = 0"
  then have "\<not> bit (x AND mask k) i" for i by simp
  then show "\<forall>i<k. \<not> bit x i"
    using bit_imp_le_length [of x] by (fastforce simp: bit_simps)
next
  assume "\<forall>i<k. \<not> bit x i"
  then show "x AND mask k = 0" by (intro bit_eqI) (auto simp: bit_simps)
qed

lemma gtz_step_lsb:
  assumes "lsb_at x k" "m = mask w" "k < 2 * w"
  shows "\<exists>k'. lsb_at (snd (gtz_step w m (n, x))) k' \<and> k' < w \<and>
              fst (gtz_step w m (n, x)) + of_nat k' = n + of_nat k"
proof (cases "x AND m = 0")
  case True
  then have "\<forall>i<w. \<not> bit x i" by (simp add: assms(2) and_mask_zero_iff)
  moreover have "bit x k" using assms(1) by (simp add: lsb_at_def)
  ultimately have "w \<le> k" by (meson not_le)
  then have "lsb_at (drop_bit w x) (k - w)"
    using assms(1) by (auto simp: lsb_at_def bit_simps)
  moreover have "(n + of_nat w) + of_nat (k - w) = n + (of_nat k :: u8)"
    using \<open>w \<le> k\<close> by (simp add: of_nat_diff)
  ultimately show ?thesis
    using True assms(3) \<open>w \<le> k\<close> by (intro exI [of _ "k - w"]) (auto simp: gtz_step_def)
next
  case False
  then have "\<exists>i<w. bit x i" by (simp add: assms(2) and_mask_zero_iff)
  moreover have "\<forall>i<k. \<not> bit x i" using assms(1) by (simp add: lsb_at_def)
  ultimately have "k < w" by (meson not_le order_less_le_trans)
  with False assms(1) show ?thesis by (auto simp: gtz_step_def)
qed

lemma get_trailing_zeros_lsb:
  assumes "lsb_at x k"
  shows "get_trailing_zeros x = of_nat k"
proof -
  obtain p1 where p1: "p1 = gtz_step 32 0xFFFFFFFF (1, x)" by simp
  obtain p2 where p2: "p2 = gtz_step 16 0x0000FFFF p1" by simp
  obtain p3 where p3: "p3 = gtz_step 8 0x000000FF p2" by simp
  obtain p4 where p4: "p4 = gtz_step 4 0x0000000F p3" by simp
  obtain p5 where p5: "p5 = gtz_step 2 0x00000003 p4" by simp
  have k: "k < 2 * 32" using lsb_at_less [OF assms] by simp
  obtain k1 where k1: "lsb_at (snd p1) k1" "k1 < 2 * 16" "fst p1 + of_nat k1 = 1 + of_nat k"
    using gtz_step_lsb [OF assms, of "0xFFFFFFFF" 32 1] k unfolding p1
    by (auto simp: mask_eq_exp_minus_1)
  obtain k2 where k2: "lsb_at (snd p2) k2" "k2 < 2 * 8" "fst p2 + of_nat k2 = 1 + of_nat k"
    using gtz_step_lsb [OF k1(1), of "0xFFFF" 16 "fst p1"] k1 unfolding p2
    by (auto simp: mask_eq_exp_minus_1)
  obtain k3 where k3: "lsb_at (snd p3) k3" "k3 < 2 * 4" "fst p3 + of_nat k3 = 1 + of_nat k"
    using gtz_step_lsb [OF k2(1), of "0xFF" 8 "fst p2"] k2 unfolding p3
    by (auto simp: mask_eq_exp_minus_1)
  obtain k4 where k4: "lsb_at (snd p4) k4" "k4 < 2 * 2" "fst p4 + of_nat k4 = 1 + of_nat k"
    using gtz_step_lsb [OF k3(1), of "0xF" 4 "fst p3"] k3 unfolding p4
    by (auto simp: mask_eq_exp_minus_1)
  obtain k5 where k5: "lsb_at (snd p5) k5" "k5 < 2" "fst p5 + of_nat k5 = 1 + of_nat k"
    using gtz_step_lsb [OF k4(1), of "0x3" 2 "fst p4"] k4 unfolding p5
    by (auto simp: mask_eq_exp_minus_1)
  have last: "snd p5 AND 1 = (if k5 = 0 then 1 else 0)"
    using k5(1,2) by (cases k5) (auto simp: lsb_at_def and_one_eq bit_0 odd_iff_mod_2_eq_one
        even_iff_mod_2_eq_zero)
  have "fst p5 = 1 + of_nat k - of_nat k5"
    using k5(3) by (simp add: eq_diff_eq)
  then have "fst p5 - ucast (snd p5 AND 1) = (of_nat k :: u8)"
    using k5(2) last by (cases k5) auto
  then show ?thesis
    by (simp add: get_trailing_zeros_def Let_def p1 p2 p3 p4 p5)
qed

section \<open>Fields of contiguous masks\<close>

named_theorems bitfield "reading back fields of words built from FIELD_SET"

lemma bit_GENMASK [bit_simps]: "bit (GENMASK h l) i \<longleftrightarrow> l \<le> i \<and> i \<le> h \<and> i < 64"
  by (auto simp: GENMASK_def bit_simps)

lemma lsb_at_GENMASK: "l \<le> h \<Longrightarrow> h < 64 \<Longrightarrow> lsb_at (GENMASK h l) l"
  by (auto simp: lsb_at_def bit_simps)

lemma FIELD_SHIFT_GENMASK:
  assumes "l \<le> h" "h < 64"
  shows "FIELD_SHIFT (GENMASK h l) = l"
proof -
  have "get_trailing_zeros (GENMASK h l) = of_nat l"
    using lsb_at_GENMASK [OF assms] by (rule get_trailing_zeros_lsb)
  then show ?thesis using assms by (simp add: FIELD_SHIFT_def unat_of_nat take_bit_eq_mod)
qed

lemma bit_FIELD_SET:
  "l \<le> h \<Longrightarrow> h < 64 \<Longrightarrow>
     bit (FIELD_SET (GENMASK h l) v) i \<longleftrightarrow> l \<le> i \<and> i \<le> h \<and> bit v (i - l)"
  by (auto simp: FIELD_SET_def FIELD_SHIFT_GENMASK bit_simps)

lemma bit_BITFIELD_GET:
  "l \<le> h \<Longrightarrow> h < 64 \<Longrightarrow> bit (BITFIELD_GET (GENMASK h l) r) i \<longleftrightarrow> l + i \<le> h \<and> bit r (l + i)"
  by (auto simp: BITFIELD_GET_def FIELD_SHIFT_GENMASK bit_simps)

lemma BITFIELD_GET_or [bitfield]:
  "BITFIELD_GET m (a OR b) = BITFIELD_GET m a OR BITFIELD_GET m b"
  by (simp add: BITFIELD_GET_def bit_eq_iff bit_simps, blast)

lemma BITFIELD_GET_0 [bitfield]: "BITFIELD_GET m 0 = 0"
  by (simp add: BITFIELD_GET_def)

lemma BITFIELD_GET_FIELD_SET [bitfield]:
  "l \<le> h \<Longrightarrow> h < 64 \<Longrightarrow>
     BITFIELD_GET (GENMASK h l) (FIELD_SET (GENMASK h l) v) = take_bit (Suc h - l) v"
  by (rule bit_eqI) (auto simp: bit_BITFIELD_GET bit_FIELD_SET bit_simps)

lemma BITFIELD_GET_FIELD_SET_disjoint [bitfield]:
  "l \<le> h \<Longrightarrow> h < 64 \<Longrightarrow> l' \<le> h' \<Longrightarrow> h' < 64 \<Longrightarrow> h < l' \<or> h' < l \<Longrightarrow>
     BITFIELD_GET (GENMASK h l) (FIELD_SET (GENMASK h' l') v) = 0"
  by (rule bit_eqI) (auto simp: bit_BITFIELD_GET bit_FIELD_SET)

lemma BITFIELD_GET_ucast32 [bitfield]:
  "l \<le> h \<Longrightarrow> h < 32 \<Longrightarrow>
     BITFIELD_GET (GENMASK h l) (ucast (ucast x :: u32)) = BITFIELD_GET (GENMASK h l) x"
  by (rule bit_eqI) (auto simp: bit_BITFIELD_GET bit_simps)

lemma take_bit_ucast [bitfield]:
  "LENGTH('a) \<le> n \<Longrightarrow> take_bit n (ucast (w :: 'a::len word) :: u64) = ucast w"
  by (rule bit_eqI) (auto simp: bit_simps dest: bit_imp_le_length)

lemma ucast_ucast_id [bitfield]:
  "LENGTH('a) \<le> 64 \<Longrightarrow> (ucast (ucast (w :: 'a::len word) :: u64) :: 'a word) = w"
  by (rule bit_eqI) (auto simp: bit_simps dest: bit_imp_le_length)

lemma FIELD_SET_0 [simp]: "FIELD_SET m 0 = 0"
  by (simp add: FIELD_SET_def)

lemma FIELD_SET_small:
  assumes "l \<le> h" "h < 64" "take_bit (Suc h - l) v = v"
  shows "FIELD_SET (GENMASK h l) v = push_bit l v"
proof (rule bit_eqI)
  fix n assume "possible_bit TYPE(64 word) n"
  have "bit v (n - l) \<Longrightarrow> n - l < Suc h - l"
    using assms(3) by (metis bit_take_bit_iff)
  then show "bit (FIELD_SET (GENMASK h l) v) n = bit (push_bit l v) n"
    using \<open>possible_bit TYPE(64 word) n\<close> assms(1,2) by (auto simp: bit_FIELD_SET bit_simps)
qed

end
