(* ===== verification/Regs.thy ===== *)
theory Regs
  imports Common
begin

text \<open>
  The register offsets, field masks and sizes of \<^verbatim>\<open>qdma_export.h\<close>, \<^verbatim>\<open>qdma_register.h\<close>,
  \<^verbatim>\<open>qdma_context.h\<close> and \<^verbatim>\<open>onic_register.h\<close> that the modelled functions use, one abbreviation
  per macro, under the macro's name: offsets and words as \<open>u32\<close>, masks as \<open>u64\<close> (the kernel's
  unsigned long), counts and sizes as \<open>nat\<close>.
\<close>

section \<open>Descriptor and pool sizes (qdma_export.h)\<close>

abbreviation (input) QDMA_NUM_DESC_RNGCNT :: "nat" where "QDMA_NUM_DESC_RNGCNT \<equiv> 16"
abbreviation (input) QDMA_NUM_C2H_BUFSZ :: "nat" where "QDMA_NUM_C2H_BUFSZ \<equiv> 16"
abbreviation (input) QDMA_NUM_C2H_TIMERS :: "nat" where "QDMA_NUM_C2H_TIMERS \<equiv> 16"
abbreviation (input) QDMA_NUM_C2H_COUNTERS :: "nat" where "QDMA_NUM_C2H_COUNTERS \<equiv> 16"
abbreviation (input) QDMA_H2C_ST_DESC_SIZE :: "nat" where "QDMA_H2C_ST_DESC_SIZE \<equiv> 16"
abbreviation (input) QDMA_H2C_ST_DESC_DW0_METADATA_MASK :: "u64" where "QDMA_H2C_ST_DESC_DW0_METADATA_MASK \<equiv> GENMASK 31 0"
abbreviation (input) QDMA_H2C_ST_DESC_DW0_LEN_MASK :: "u64" where "QDMA_H2C_ST_DESC_DW0_LEN_MASK \<equiv> GENMASK 47 32"
abbreviation (input) QDMA_C2H_ST_DESC_SIZE :: "nat" where "QDMA_C2H_ST_DESC_SIZE \<equiv> 8"
abbreviation (input) QDMA_WB_STAT_SIZE :: "nat" where "QDMA_WB_STAT_SIZE \<equiv> 8"
abbreviation (input) QDMA_WB_STAT_DW_PIDX_MASK :: "u64" where "QDMA_WB_STAT_DW_PIDX_MASK \<equiv> GENMASK 15 0"
abbreviation (input) QDMA_WB_STAT_DW_CIDX_MASK :: "u64" where "QDMA_WB_STAT_DW_CIDX_MASK \<equiv> GENMASK 31 16"
abbreviation (input) QDMA_C2H_CMPL_SIZE :: "nat" where "QDMA_C2H_CMPL_SIZE \<equiv> 8"
abbreviation (input) QDMA_C2H_CMPL_DW_COLOR_MASK :: "u64" where "QDMA_C2H_CMPL_DW_COLOR_MASK \<equiv> GENMASK 1 1"
abbreviation (input) QDMA_C2H_CMPL_DW_ERR_MASK :: "u64" where "QDMA_C2H_CMPL_DW_ERR_MASK \<equiv> GENMASK 2 2"
abbreviation (input) QDMA_C2H_CMPL_DW_PKT_LEN_MASK :: "u64" where "QDMA_C2H_CMPL_DW_PKT_LEN_MASK \<equiv> GENMASK 47 32"
abbreviation (input) QDMA_C2H_CMPL_DW_PKT_ID_MASK :: "u64" where "QDMA_C2H_CMPL_DW_PKT_ID_MASK \<equiv> GENMASK 63 48"
abbreviation (input) QDMA_C2H_CMPL_STAT_SIZE :: "nat" where "QDMA_C2H_CMPL_STAT_SIZE \<equiv> 8"
abbreviation (input) QDMA_C2H_CMPL_STAT_DW_PIDX_MASK :: "u64" where "QDMA_C2H_CMPL_STAT_DW_PIDX_MASK \<equiv> GENMASK 15 0"
abbreviation (input) QDMA_C2H_CMPL_STAT_DW_CIDX_MASK :: "u64" where "QDMA_C2H_CMPL_STAT_DW_CIDX_MASK \<equiv> GENMASK 31 16"
abbreviation (input) QDMA_C2H_CMPL_STAT_DW_COLOR_MASK :: "u64" where "QDMA_C2H_CMPL_STAT_DW_COLOR_MASK \<equiv> GENMASK 32 32"
abbreviation (input) QDMA_C2H_CMPL_STAT_DW_INTR_STATE_MASK :: "u64" where "QDMA_C2H_CMPL_STAT_DW_INTR_STATE_MASK \<equiv> GENMASK 34 33"

section \<open>QDMA registers (qdma_register.h)\<close>

abbreviation (input) QDMA_OFFSET_IND_CTXT_DATA :: "u32" where "QDMA_OFFSET_IND_CTXT_DATA \<equiv> 0x804"
abbreviation (input) QDMA_OFFSET_IND_CTXT_MASK :: "u32" where "QDMA_OFFSET_IND_CTXT_MASK \<equiv> 0x824"
abbreviation (input) QDMA_OFFSET_IND_CTXT_CMD :: "u32" where "QDMA_OFFSET_IND_CTXT_CMD \<equiv> 0x844"
abbreviation (input) QDMA_IND_CTXT_CMD_BUSY_MASK :: "u32" where "QDMA_IND_CTXT_CMD_BUSY_MASK \<equiv> 0x1"
abbreviation (input) QDMA_OFFSET_GLBL_RNG_SZ :: "u32" where "QDMA_OFFSET_GLBL_RNG_SZ \<equiv> 0x204"
abbreviation (input) QDMA_OFFSET_GLBL_ERR_MASK :: "u32" where "QDMA_OFFSET_GLBL_ERR_MASK \<equiv> 0x24C"
abbreviation (input) QDMA_OFFSET_GLBL_DSC_CFG :: "u32" where "QDMA_OFFSET_GLBL_DSC_CFG \<equiv> 0x250"
abbreviation (input) QDMA_GLBL_DSC_CFG_WB_ACC_INT_MASK :: "u64" where "QDMA_GLBL_DSC_CFG_WB_ACC_INT_MASK \<equiv> GENMASK 2 0"
abbreviation (input) QDMA_GLBL_DSC_CFG_MAX_DSC_FETCH_MASK :: "u64" where "QDMA_GLBL_DSC_CFG_MAX_DSC_FETCH_MASK \<equiv> GENMASK 5 3"
abbreviation (input) QDMA_OFFSET_C2H_TIMER_CNT :: "u32" where "QDMA_OFFSET_C2H_TIMER_CNT \<equiv> 0xA00"
abbreviation (input) QDMA_OFFSET_C2H_CNT_TH :: "u32" where "QDMA_OFFSET_C2H_CNT_TH \<equiv> 0xA40"
abbreviation (input) QDMA_OFFSET_C2H_BUF_SZ :: "u32" where "QDMA_OFFSET_C2H_BUF_SZ \<equiv> 0xAB0"
abbreviation (input) QDMA_OFFSET_C2H_ERR_STAT :: "u32" where "QDMA_OFFSET_C2H_ERR_STAT \<equiv> 0xAF0"
abbreviation (input) QDMA_OFFSET_C2H_ERR_MASK :: "u32" where "QDMA_OFFSET_C2H_ERR_MASK \<equiv> 0xAF4"
abbreviation (input) QDMA_OFFSET_C2H_FATAL_ERR_STAT :: "u32" where "QDMA_OFFSET_C2H_FATAL_ERR_STAT \<equiv> 0xAF8"
abbreviation (input) QDMA_OFFSET_C2H_FATAL_ERR_MASK :: "u32" where "QDMA_OFFSET_C2H_FATAL_ERR_MASK \<equiv> 0xAFC"
abbreviation (input) QDMA_OFFSET_C2H_PFCH_CFG :: "u32" where "QDMA_OFFSET_C2H_PFCH_CFG \<equiv> 0xB08"
abbreviation (input) QDMA_C2H_EVT_QCNT_TH_MASK :: "u64" where "QDMA_C2H_EVT_QCNT_TH_MASK \<equiv> GENMASK 31 25"
abbreviation (input) QDMA_C2H_PFCH_QCNT_MASK :: "u64" where "QDMA_C2H_PFCH_QCNT_MASK \<equiv> GENMASK 24 18"
abbreviation (input) QDMA_C2H_NUM_PFCH_MASK :: "u64" where "QDMA_C2H_NUM_PFCH_MASK \<equiv> GENMASK 17 9"
abbreviation (input) QDMA_C2H_PFCH_FL_TH_MASK :: "u64" where "QDMA_C2H_PFCH_FL_TH_MASK \<equiv> GENMASK 8 0"
abbreviation (input) QDMA_OFFSET_C2H_INT_TIMER_TICK :: "u32" where "QDMA_OFFSET_C2H_INT_TIMER_TICK \<equiv> 0xB0C"
abbreviation (input) QDMA_OFFSET_C2H_WB_COAL_CFG :: "u32" where "QDMA_OFFSET_C2H_WB_COAL_CFG \<equiv> 0xB50"
abbreviation (input) QDMA_C2H_MAX_BUF_SZ_MASK :: "u64" where "QDMA_C2H_MAX_BUF_SZ_MASK \<equiv> GENMASK 31 26"
abbreviation (input) QDMA_C2H_TICK_VAL_MASK :: "u64" where "QDMA_C2H_TICK_VAL_MASK \<equiv> GENMASK 25 14"
abbreviation (input) QDMA_C2H_TICK_CNT_MASK :: "u64" where "QDMA_C2H_TICK_CNT_MASK \<equiv> GENMASK 13 2"
abbreviation (input) QDMA_OFFSET_C2H_PFCH_CACHE_DEPTH :: "u32" where "QDMA_OFFSET_C2H_PFCH_CACHE_DEPTH \<equiv> 0xBE0"
abbreviation (input) QDMA_OFFSET_C2H_CMPL_COAL_BUF_DEPTH :: "u32" where "QDMA_OFFSET_C2H_CMPL_COAL_BUF_DEPTH \<equiv> 0xBE4"
abbreviation (input) QDMA_OFFSET_H2C_ERR_STAT :: "u32" where "QDMA_OFFSET_H2C_ERR_STAT \<equiv> 0xE00"
abbreviation (input) QDMA_OFFSET_H2C_ERR_MASK :: "u32" where "QDMA_OFFSET_H2C_ERR_MASK \<equiv> 0xE04"
abbreviation (input) QDMA_OFFSET_H2C_REQ_THROT :: "u32" where "QDMA_OFFSET_H2C_REQ_THROT \<equiv> 0xE24"
abbreviation (input) QDMA_H2C_REQ_THROT_EN_REQ_MASK :: "u64" where "QDMA_H2C_REQ_THROT_EN_REQ_MASK \<equiv> BIT 31"
abbreviation (input) QDMA_H2C_REQ_THRESH_MASK :: "u64" where "QDMA_H2C_REQ_THRESH_MASK \<equiv> GENMASK 25 17"
abbreviation (input) QDMA_H2C_REQ_THROT_EN_DATA_MASK :: "u64" where "QDMA_H2C_REQ_THROT_EN_DATA_MASK \<equiv> BIT 16"
abbreviation (input) QDMA_H2C_DATA_THRESH_MASK :: "u64" where "QDMA_H2C_DATA_THRESH_MASK \<equiv> GENMASK 15 0"
abbreviation (input) QDMA_OFFSET_DMAP_SEL_H2C_DESC_PIDX :: "u32" where "QDMA_OFFSET_DMAP_SEL_H2C_DESC_PIDX \<equiv> 0x18004"
abbreviation (input) QDMA_OFFSET_DMAP_SEL_C2H_DESC_PIDX :: "u32" where "QDMA_OFFSET_DMAP_SEL_C2H_DESC_PIDX \<equiv> 0x18008"
abbreviation (input) QDMA_OFFSET_DMAP_SEL_CMPL_CIDX :: "u32" where "QDMA_OFFSET_DMAP_SEL_CMPL_CIDX \<equiv> 0x1800C"
abbreviation (input) QDMA_OFFSET_VF_DMAP_SEL_H2C_DESC_PIDX :: "u32" where "QDMA_OFFSET_VF_DMAP_SEL_H2C_DESC_PIDX \<equiv> 0x3004"
abbreviation (input) QDMA_OFFSET_VF_DMAP_SEL_C2H_DESC_PIDX :: "u32" where "QDMA_OFFSET_VF_DMAP_SEL_C2H_DESC_PIDX \<equiv> 0x3008"
abbreviation (input) QDMA_OFFSET_VF_DMAP_SEL_CMPL_CIDX :: "u32" where "QDMA_OFFSET_VF_DMAP_SEL_CMPL_CIDX \<equiv> 0x300C"
abbreviation (input) QDMA_DMAP_SEL_DESC_PIDX_MASK :: "u64" where "QDMA_DMAP_SEL_DESC_PIDX_MASK \<equiv> GENMASK 15 0"
abbreviation (input) QDMA_DMAP_SEL_DESC_IRQ_ARM_MASK :: "u64" where "QDMA_DMAP_SEL_DESC_IRQ_ARM_MASK \<equiv> BIT 16"
abbreviation (input) QDMA_DMAP_SEL_CMPL_IRQ_ARM_MASK :: "u64" where "QDMA_DMAP_SEL_CMPL_IRQ_ARM_MASK \<equiv> BIT 28"
abbreviation (input) QDMA_DMAP_SEL_CMPL_STAT_EN_MASK :: "u64" where "QDMA_DMAP_SEL_CMPL_STAT_EN_MASK \<equiv> BIT 27"
abbreviation (input) QDMA_DMAP_SEL_CMPL_TRIG_MODE_MASK :: "u64" where "QDMA_DMAP_SEL_CMPL_TRIG_MODE_MASK \<equiv> GENMASK 26 24"
abbreviation (input) QDMA_DMAP_SEL_CMPL_TIMER_IDX_MASK :: "u64" where "QDMA_DMAP_SEL_CMPL_TIMER_IDX_MASK \<equiv> GENMASK 23 20"
abbreviation (input) QDMA_DMAP_SEL_CMPL_COUNTER_IDX_MASK :: "u64" where "QDMA_DMAP_SEL_CMPL_COUNTER_IDX_MASK \<equiv> GENMASK 19 16"
abbreviation (input) QDMA_DMAP_SEL_CMPL_CIDX_MASK :: "u64" where "QDMA_DMAP_SEL_CMPL_CIDX_MASK \<equiv> GENMASK 15 0"
abbreviation (input) QDMA_OFFSET_GLBL_ERR_INT :: "u32" where "QDMA_OFFSET_GLBL_ERR_INT \<equiv> 0xB04"
abbreviation (input) QDMA_GLBL_ERR_FUNC_MASK :: "u64" where "QDMA_GLBL_ERR_FUNC_MASK \<equiv> GENMASK 7 0"
abbreviation (input) QDMA_GLBL_ERR_VEC_MASK :: "u64" where "QDMA_GLBL_ERR_VEC_MASK \<equiv> GENMASK 22 12"
abbreviation (input) QDMA_GLBL_ERR_ARM_MASK :: "u64" where "QDMA_GLBL_ERR_ARM_MASK \<equiv> BIT 24"
abbreviation (input) QDMA_GLBL_ERR_RAM_SBE_MASK :: "u64" where "QDMA_GLBL_ERR_RAM_SBE_MASK \<equiv> BIT 0"
abbreviation (input) QDMA_GLBL_ERR_RAM_DBE_MASK :: "u64" where "QDMA_GLBL_ERR_RAM_DBE_MASK \<equiv> BIT 1"
abbreviation (input) QDMA_GLBL_ERR_DSC_MASK :: "u64" where "QDMA_GLBL_ERR_DSC_MASK \<equiv> BIT 2"
abbreviation (input) QDMA_GLBL_ERR_TRQ_MASK :: "u64" where "QDMA_GLBL_ERR_TRQ_MASK \<equiv> BIT 3"
abbreviation (input) QDMA_GLBL_ERR_ST_C2H_MASK :: "u64" where "QDMA_GLBL_ERR_ST_C2H_MASK \<equiv> BIT 8"
abbreviation (input) QDMA_GLBL_ERR_ST_H2C_MASK :: "u64" where "QDMA_GLBL_ERR_ST_H2C_MASK \<equiv> BIT 11"
abbreviation (input) QDMA_C2H_ERR_MTY_MISMATCH_MASK :: "u64" where "QDMA_C2H_ERR_MTY_MISMATCH_MASK \<equiv> BIT 0"
abbreviation (input) QDMA_C2H_ERR_LEN_MISMATCH_MASK :: "u64" where "QDMA_C2H_ERR_LEN_MISMATCH_MASK \<equiv> BIT 1"
abbreviation (input) QDMA_C2H_ERR_QID_MISMATCH_MASK :: "u64" where "QDMA_C2H_ERR_QID_MISMATCH_MASK \<equiv> BIT 3"
abbreviation (input) QDMA_C2H_ERR_DESC_RSP_ERR_MASK :: "u64" where "QDMA_C2H_ERR_DESC_RSP_ERR_MASK \<equiv> BIT 4"
abbreviation (input) QDMA_C2H_ERR_ENG_WPL_DATA_PAR_ERR_MASK :: "u64" where "QDMA_C2H_ERR_ENG_WPL_DATA_PAR_ERR_MASK \<equiv> BIT 6"
abbreviation (input) QDMA_C2H_ERR_MSI_INT_FAIL_MASK :: "u64" where "QDMA_C2H_ERR_MSI_INT_FAIL_MASK \<equiv> BIT 7"
abbreviation (input) QDMA_C2H_ERR_ERR_DESC_CNT_MASK :: "u64" where "QDMA_C2H_ERR_ERR_DESC_CNT_MASK \<equiv> BIT 9"
abbreviation (input) QDMA_C2H_ERR_PORTID_CTXT_MISMATCH_MASK :: "u64" where "QDMA_C2H_ERR_PORTID_CTXT_MISMATCH_MASK \<equiv> BIT 10"
abbreviation (input) QDMA_C2H_ERR_PORTID_BYP_IN_MISMATCH_MASK :: "u64" where "QDMA_C2H_ERR_PORTID_BYP_IN_MISMATCH_MASK \<equiv> BIT 11"
abbreviation (input) QDMA_C2H_ERR_CMPL_INV_Q_ERR_MASK :: "u64" where "QDMA_C2H_ERR_CMPL_INV_Q_ERR_MASK \<equiv> BIT 12"
abbreviation (input) QDMA_C2H_ERR_CMPL_QFULL_ERR_MASK :: "u64" where "QDMA_C2H_ERR_CMPL_QFULL_ERR_MASK \<equiv> BIT 13"
abbreviation (input) QDMA_C2H_ERR_CMPL_CIDX_ERR_MASK :: "u64" where "QDMA_C2H_ERR_CMPL_CIDX_ERR_MASK \<equiv> BIT 14"
abbreviation (input) QDMA_C2H_ERR_CMPL_PRTY_ERR_MASK :: "u64" where "QDMA_C2H_ERR_CMPL_PRTY_ERR_MASK \<equiv> BIT 15"
abbreviation (input) QDMA_C2H_ERR_ALL_MASK :: "u32" where "QDMA_C2H_ERR_ALL_MASK \<equiv> 0xFEDB"
abbreviation (input) QDMA_C2H_FATAL_ERR_MTY_MISMATCH_MASK :: "u64" where "QDMA_C2H_FATAL_ERR_MTY_MISMATCH_MASK \<equiv> BIT 0"
abbreviation (input) QDMA_C2H_FATAL_ERR_LEN_MISMATCH_MASK :: "u64" where "QDMA_C2H_FATAL_ERR_LEN_MISMATCH_MASK \<equiv> BIT 1"
abbreviation (input) QDMA_C2H_FATAL_ERR_QID_MISMATCH_MASK :: "u64" where "QDMA_C2H_FATAL_ERR_QID_MISMATCH_MASK \<equiv> BIT 3"
abbreviation (input) QDMA_C2H_FATAL_ERR_TIMER_FIFO_RAM_RDBE_MASK :: "u64" where "QDMA_C2H_FATAL_ERR_TIMER_FIFO_RAM_RDBE_MASK \<equiv> BIT 4"
abbreviation (input) QDMA_C2H_FATAL_ERR_PFCH_II_RAM_RDBE_MASK :: "u64" where "QDMA_C2H_FATAL_ERR_PFCH_II_RAM_RDBE_MASK \<equiv> BIT 8"
abbreviation (input) QDMA_C2H_FATAL_ERR_CMPL_CTXT_RAM_RDBE_MASK :: "u64" where "QDMA_C2H_FATAL_ERR_CMPL_CTXT_RAM_RDBE_MASK \<equiv> BIT 9"
abbreviation (input) QDMA_C2H_FATAL_ERR_PFCH_CTXT_RAM_RDBE_MASK :: "u64" where "QDMA_C2H_FATAL_ERR_PFCH_CTXT_RAM_RDBE_MASK \<equiv> BIT 10"
abbreviation (input) QDMA_C2H_FATAL_ERR_DESC_REQ_FIFO_RAM_RDBE_MASK :: "u64" where "QDMA_C2H_FATAL_ERR_DESC_REQ_FIFO_RAM_RDBE_MASK \<equiv> BIT 11"
abbreviation (input) QDMA_C2H_FATAL_ERR_INT_CTXT_RAM_RDBE_MASK :: "u64" where "QDMA_C2H_FATAL_ERR_INT_CTXT_RAM_RDBE_MASK \<equiv> BIT 12"
abbreviation (input) QDMA_C2H_FATAL_ERR_CMPL_COAL_DATA_RAM_RDBE_MASK :: "u64" where "QDMA_C2H_FATAL_ERR_CMPL_COAL_DATA_RAM_RDBE_MASK \<equiv> BIT 14"
abbreviation (input) QDMA_C2H_FATAL_ERR_TUSER_FIFO_RAM_RDBE_MASK :: "u64" where "QDMA_C2H_FATAL_ERR_TUSER_FIFO_RAM_RDBE_MASK \<equiv> BIT 15"
abbreviation (input) QDMA_C2H_FATAL_ERR_QID_FIFO_RAM_RDBE_MASK :: "u64" where "QDMA_C2H_FATAL_ERR_QID_FIFO_RAM_RDBE_MASK \<equiv> BIT 16"
abbreviation (input) QDMA_C2H_FATAL_ERR_PAYLOAD_FIFO_RAM_RDBE_MASK :: "u64" where "QDMA_C2H_FATAL_ERR_PAYLOAD_FIFO_RAM_RDBE_MASK \<equiv> BIT 17"
abbreviation (input) QDMA_C2H_FATAL_ERR_WPL_DATA_PAR_MASK :: "u64" where "QDMA_C2H_FATAL_ERR_WPL_DATA_PAR_MASK \<equiv> BIT 18"
abbreviation (input) QDMA_C2H_FATAL_ERR_ALL_MASK :: "u32" where "QDMA_C2H_FATAL_ERR_ALL_MASK \<equiv> 0x7DF1B"
abbreviation (input) QDMA_H2C_ERR_ZERO_LEN_DESC_MASK :: "u64" where "QDMA_H2C_ERR_ZERO_LEN_DESC_MASK \<equiv> BIT 0"
abbreviation (input) QDMA_H2C_ERR_CSI_MOP_MASK :: "u64" where "QDMA_H2C_ERR_CSI_MOP_MASK \<equiv> BIT 1"
abbreviation (input) QDMA_H2C_ERR_NO_DMA_DSC_MASK :: "u64" where "QDMA_H2C_ERR_NO_DMA_DSC_MASK \<equiv> BIT 2"
abbreviation (input) QDMA_H2C_ERR_SBE_MASK :: "u64" where "QDMA_H2C_ERR_SBE_MASK \<equiv> BIT 3"
abbreviation (input) QDMA_H2C_ERR_DBE_MASK :: "u64" where "QDMA_H2C_ERR_DBE_MASK \<equiv> BIT 4"
abbreviation (input) QDMA_H2C_ERR_ALL_MASK :: "u32" where "QDMA_H2C_ERR_ALL_MASK \<equiv> 0x1F"
abbreviation (input) QDMA_OFFSET_GLBL_DSC_ERR_STAT :: "u32" where "QDMA_OFFSET_GLBL_DSC_ERR_STAT \<equiv> 0x254"
abbreviation (input) QDMA_OFFSET_GLBL_DSC_ERR_MASK :: "u32" where "QDMA_OFFSET_GLBL_DSC_ERR_MASK \<equiv> 0x258"
abbreviation (input) QDMA_GLBL_DSC_ERR_POISON_MASK :: "u64" where "QDMA_GLBL_DSC_ERR_POISON_MASK \<equiv> BIT 0"
abbreviation (input) QDMA_GLBL_DSC_ERR_UR_CA_MASK :: "u64" where "QDMA_GLBL_DSC_ERR_UR_CA_MASK \<equiv> BIT 1"
abbreviation (input) QDMA_GLBL_DSC_ERR_PARAM_MASK :: "u64" where "QDMA_GLBL_DSC_ERR_PARAM_MASK \<equiv> BIT 2"
abbreviation (input) QDMA_GLBL_DSC_ERR_ADDR_MASK :: "u64" where "QDMA_GLBL_DSC_ERR_ADDR_MASK \<equiv> BIT 3"
abbreviation (input) QDMA_GLBL_DSC_ERR_TAG_MASK :: "u64" where "QDMA_GLBL_DSC_ERR_TAG_MASK \<equiv> BIT 4"
abbreviation (input) QDMA_GLBL_DSC_ERR_FLR_MASK :: "u64" where "QDMA_GLBL_DSC_ERR_FLR_MASK \<equiv> BIT 5"
abbreviation (input) QDMA_GLBL_DSC_ERR_TIMEOUT_MASK :: "u64" where "QDMA_GLBL_DSC_ERR_TIMEOUT_MASK \<equiv> BIT 9"
abbreviation (input) QDMA_GLBL_DSC_ERR_DAT_POISON_MASK :: "u64" where "QDMA_GLBL_DSC_ERR_DAT_POISON_MASK \<equiv> BIT 16"
abbreviation (input) QDMA_GLBL_DSC_ERR_FLR_CANCEL_MASK :: "u64" where "QDMA_GLBL_DSC_ERR_FLR_CANCEL_MASK \<equiv> BIT 19"
abbreviation (input) QDMA_GLBL_DSC_ERR_DMA_MASK :: "u64" where "QDMA_GLBL_DSC_ERR_DMA_MASK \<equiv> BIT 20"
abbreviation (input) QDMA_GLBL_DSC_ERR_DSC_MASK :: "u64" where "QDMA_GLBL_DSC_ERR_DSC_MASK \<equiv> BIT 21"
abbreviation (input) QDMA_GLBL_DSC_ERR_RQ_CANCEL_MASK :: "u64" where "QDMA_GLBL_DSC_ERR_RQ_CANCEL_MASK \<equiv> BIT 22"
abbreviation (input) QDMA_GLBL_DSC_ERR_DBE_MASK :: "u64" where "QDMA_GLBL_DSC_ERR_DBE_MASK \<equiv> BIT 23"
abbreviation (input) QDMA_GLBL_DSC_ERR_SBE_MASK :: "u64" where "QDMA_GLBL_DSC_ERR_SBE_MASK \<equiv> BIT 24"
abbreviation (input) QDMA_GLBL_DSC_ERR_ALL_MASK :: "u32" where "QDMA_GLBL_DSC_ERR_ALL_MASK \<equiv> 0x1F9023F"
abbreviation (input) QDMA_OFFSET_GLBL_TRQ_ERR_STAT :: "u32" where "QDMA_OFFSET_GLBL_TRQ_ERR_STAT \<equiv> 0x264"
abbreviation (input) QDMA_OFFSET_GLBL_TRQ_ERR_MASK :: "u32" where "QDMA_OFFSET_GLBL_TRQ_ERR_MASK \<equiv> 0x268"
abbreviation (input) QDMA_GLBL_TRQ_ERR_UNMAPPED_MASK :: "u64" where "QDMA_GLBL_TRQ_ERR_UNMAPPED_MASK \<equiv> BIT 0"
abbreviation (input) QDMA_GLBL_TRQ_ERR_QID_RANGE_MASK :: "u64" where "QDMA_GLBL_TRQ_ERR_QID_RANGE_MASK \<equiv> BIT 1"
abbreviation (input) QDMA_GLBL_TRQ_ERR_VF_ACCESS_MASK :: "u64" where "QDMA_GLBL_TRQ_ERR_VF_ACCESS_MASK \<equiv> BIT 2"
abbreviation (input) QDMA_GLBL_TRQ_ERR_TCP_TIMEOUT_MASK :: "u64" where "QDMA_GLBL_TRQ_ERR_TCP_TIMEOUT_MASK \<equiv> BIT 3"
abbreviation (input) QDMA_GLBL_TRQ_ERR_ALL_MASK :: "u32" where "QDMA_GLBL_TRQ_ERR_ALL_MASK \<equiv> 0xF"
abbreviation (input) QDMA_OFFSET_RAM_SBE_STAT :: "u32" where "QDMA_OFFSET_RAM_SBE_STAT \<equiv> 0xF4"
abbreviation (input) QDMA_OFFSET_RAM_SBE_MASK :: "u32" where "QDMA_OFFSET_RAM_SBE_MASK \<equiv> 0xF0"
abbreviation (input) QDMA_SBE_ERR_MI_H2C0_DAT_MASK :: "u64" where "QDMA_SBE_ERR_MI_H2C0_DAT_MASK \<equiv> BIT 0"
abbreviation (input) QDMA_SBE_ERR_MI_C2H0_DAT_MASK :: "u64" where "QDMA_SBE_ERR_MI_C2H0_DAT_MASK \<equiv> BIT 4"
abbreviation (input) QDMA_SBE_ERR_H2C_RD_BRG_DAT_MASK :: "u64" where "QDMA_SBE_ERR_H2C_RD_BRG_DAT_MASK \<equiv> BIT 9"
abbreviation (input) QDMA_SBE_ERR_H2C_WR_BRG_DAT_MASK :: "u64" where "QDMA_SBE_ERR_H2C_WR_BRG_DAT_MASK \<equiv> BIT 10"
abbreviation (input) QDMA_SBE_ERR_C2H_RD_BRG_DAT_MASK :: "u64" where "QDMA_SBE_ERR_C2H_RD_BRG_DAT_MASK \<equiv> BIT 11"
abbreviation (input) QDMA_SBE_ERR_C2H_WR_BRG_DAT_MASK :: "u64" where "QDMA_SBE_ERR_C2H_WR_BRG_DAT_MASK \<equiv> BIT 12"
abbreviation (input) QDMA_SBE_ERR_FUNC_MAP_MASK :: "u64" where "QDMA_SBE_ERR_FUNC_MAP_MASK \<equiv> BIT 13"
abbreviation (input) QDMA_SBE_ERR_DSC_HW_CTXT_MASK :: "u64" where "QDMA_SBE_ERR_DSC_HW_CTXT_MASK \<equiv> BIT 14"
abbreviation (input) QDMA_SBE_ERR_DSC_CRD_RCV_MASK :: "u64" where "QDMA_SBE_ERR_DSC_CRD_RCV_MASK \<equiv> BIT 15"
abbreviation (input) QDMA_SBE_ERR_DSC_SW_CTXT_MASK :: "u64" where "QDMA_SBE_ERR_DSC_SW_CTXT_MASK \<equiv> BIT 16"
abbreviation (input) QDMA_SBE_ERR_DSC_CPLI_MASK :: "u64" where "QDMA_SBE_ERR_DSC_CPLI_MASK \<equiv> BIT 17"
abbreviation (input) QDMA_SBE_ERR_DSC_CPLD_MASK :: "u64" where "QDMA_SBE_ERR_DSC_CPLD_MASK \<equiv> BIT 18"
abbreviation (input) QDMA_SBE_ERR_PASID_CTXT_RAM_MASK :: "u64" where "QDMA_SBE_ERR_PASID_CTXT_RAM_MASK \<equiv> BIT 19"
abbreviation (input) QDMA_SBE_ERR_TIMER_FIFO_RAM_MASK :: "u64" where "QDMA_SBE_ERR_TIMER_FIFO_RAM_MASK \<equiv> BIT 20"
abbreviation (input) QDMA_SBE_ERR_PAYLOAD_FIFO_RAM_MASK :: "u64" where "QDMA_SBE_ERR_PAYLOAD_FIFO_RAM_MASK \<equiv> BIT 21"
abbreviation (input) QDMA_SBE_ERR_QID_FIFO_RAM_MASK :: "u64" where "QDMA_SBE_ERR_QID_FIFO_RAM_MASK \<equiv> BIT 22"
abbreviation (input) QDMA_SBE_ERR_TUSER_FIFO_RAM_MASK :: "u64" where "QDMA_SBE_ERR_TUSER_FIFO_RAM_MASK \<equiv> BIT 23"
abbreviation (input) QDMA_SBE_ERR_WB_COAL_DATA_RAM_MASK :: "u64" where "QDMA_SBE_ERR_WB_COAL_DATA_RAM_MASK \<equiv> BIT 24"
abbreviation (input) QDMA_SBE_ERR_INT_QID2VEC_RAM_MASK :: "u64" where "QDMA_SBE_ERR_INT_QID2VEC_RAM_MASK \<equiv> BIT 25"
abbreviation (input) QDMA_SBE_ERR_INT_CTXT_RAM_MASK :: "u64" where "QDMA_SBE_ERR_INT_CTXT_RAM_MASK \<equiv> BIT 26"
abbreviation (input) QDMA_SBE_ERR_DESC_REQ_FIFO_RAM_MASK :: "u64" where "QDMA_SBE_ERR_DESC_REQ_FIFO_RAM_MASK \<equiv> BIT 27"
abbreviation (input) QDMA_SBE_ERR_PFCH_CTXT_RAM_MASK :: "u64" where "QDMA_SBE_ERR_PFCH_CTXT_RAM_MASK \<equiv> BIT 28"
abbreviation (input) QDMA_SBE_ERR_WB_CTXT_RAM_MASK :: "u64" where "QDMA_SBE_ERR_WB_CTXT_RAM_MASK \<equiv> BIT 29"
abbreviation (input) QDMA_SBE_ERR_PFCH_LL_RAM_MASK :: "u64" where "QDMA_SBE_ERR_PFCH_LL_RAM_MASK \<equiv> BIT 30"
abbreviation (input) QDMA_SBE_ERR_H2C_PEND_FIFO_MASK :: "u64" where "QDMA_SBE_ERR_H2C_PEND_FIFO_MASK \<equiv> BIT 31"
abbreviation (input) QDMA_SBE_ERR_ALL_MASK :: "u32" where "QDMA_SBE_ERR_ALL_MASK \<equiv> 0xFFFFFF11"
abbreviation (input) QDMA_OFFSET_RAM_DBE_STAT :: "u32" where "QDMA_OFFSET_RAM_DBE_STAT \<equiv> 0xFC"
abbreviation (input) QDMA_OFFSET_RAM_DBE_MASK :: "u32" where "QDMA_OFFSET_RAM_DBE_MASK \<equiv> 0xF8"
abbreviation (input) QDMA_DBE_ERR_MI_H2C0_DAT_MASK :: "u64" where "QDMA_DBE_ERR_MI_H2C0_DAT_MASK \<equiv> BIT 0"
abbreviation (input) QDMA_DBE_ERR_MI_C2H0_DAT_MASK :: "u64" where "QDMA_DBE_ERR_MI_C2H0_DAT_MASK \<equiv> BIT 4"
abbreviation (input) QDMA_DBE_ERR_H2C_RD_BRG_DAT_MASK :: "u64" where "QDMA_DBE_ERR_H2C_RD_BRG_DAT_MASK \<equiv> BIT 9"
abbreviation (input) QDMA_DBE_ERR_H2C_WR_BRG_DAT_MASK :: "u64" where "QDMA_DBE_ERR_H2C_WR_BRG_DAT_MASK \<equiv> BIT 10"
abbreviation (input) QDMA_DBE_ERR_C2H_RD_BRG_DAT_MASK :: "u64" where "QDMA_DBE_ERR_C2H_RD_BRG_DAT_MASK \<equiv> BIT 11"
abbreviation (input) QDMA_DBE_ERR_C2H_WR_BRG_DAT_MASK :: "u64" where "QDMA_DBE_ERR_C2H_WR_BRG_DAT_MASK \<equiv> BIT 12"
abbreviation (input) QDMA_DBE_ERR_FUNC_MAP_MASK :: "u64" where "QDMA_DBE_ERR_FUNC_MAP_MASK \<equiv> BIT 13"
abbreviation (input) QDMA_DBE_ERR_DSC_HW_CTXT_MASK :: "u64" where "QDMA_DBE_ERR_DSC_HW_CTXT_MASK \<equiv> BIT 14"
abbreviation (input) QDMA_DBE_ERR_DSC_CRD_RCV_MASK :: "u64" where "QDMA_DBE_ERR_DSC_CRD_RCV_MASK \<equiv> BIT 15"
abbreviation (input) QDMA_DBE_ERR_DSC_SW_CTXT_MASK :: "u64" where "QDMA_DBE_ERR_DSC_SW_CTXT_MASK \<equiv> BIT 16"
abbreviation (input) QDMA_DBE_ERR_DSC_CPLI_MASK :: "u64" where "QDMA_DBE_ERR_DSC_CPLI_MASK \<equiv> BIT 17"
abbreviation (input) QDMA_DBE_ERR_DSC_CPLD_MASK :: "u64" where "QDMA_DBE_ERR_DSC_CPLD_MASK \<equiv> BIT 18"
abbreviation (input) QDMA_DBE_ERR_PASID_CTXT_RAM_MASK :: "u64" where "QDMA_DBE_ERR_PASID_CTXT_RAM_MASK \<equiv> BIT 19"
abbreviation (input) QDMA_DBE_ERR_TIMER_FIFO_RAM_MASK :: "u64" where "QDMA_DBE_ERR_TIMER_FIFO_RAM_MASK \<equiv> BIT 20"
abbreviation (input) QDMA_DBE_ERR_PAYLOAD_FIFO_RAM_MASK :: "u64" where "QDMA_DBE_ERR_PAYLOAD_FIFO_RAM_MASK \<equiv> BIT 21"
abbreviation (input) QDMA_DBE_ERR_QID_FIFO_RAM_MASK :: "u64" where "QDMA_DBE_ERR_QID_FIFO_RAM_MASK \<equiv> BIT 22"
abbreviation (input) QDMA_DBE_ERR_TUSER_FIFO_RAM_MASK :: "u64" where "QDMA_DBE_ERR_TUSER_FIFO_RAM_MASK \<equiv> BIT 23"
abbreviation (input) QDMA_DBE_ERR_WB_COAL_DATA_RAM_MASK :: "u64" where "QDMA_DBE_ERR_WB_COAL_DATA_RAM_MASK \<equiv> BIT 24"
abbreviation (input) QDMA_DBE_ERR_INT_QID2VEC_RAM_MASK :: "u64" where "QDMA_DBE_ERR_INT_QID2VEC_RAM_MASK \<equiv> BIT 25"
abbreviation (input) QDMA_DBE_ERR_INT_CTXT_RAM_MASK :: "u64" where "QDMA_DBE_ERR_INT_CTXT_RAM_MASK \<equiv> BIT 26"
abbreviation (input) QDMA_DBE_ERR_DESC_REQ_FIFO_RAM_MASK :: "u64" where "QDMA_DBE_ERR_DESC_REQ_FIFO_RAM_MASK \<equiv> BIT 27"
abbreviation (input) QDMA_DBE_ERR_PFCH_CTXT_RAM_MASK :: "u64" where "QDMA_DBE_ERR_PFCH_CTXT_RAM_MASK \<equiv> BIT 28"
abbreviation (input) QDMA_DBE_ERR_WB_CTXT_RAM_MASK :: "u64" where "QDMA_DBE_ERR_WB_CTXT_RAM_MASK \<equiv> BIT 29"
abbreviation (input) QDMA_DBE_ERR_PFCH_LL_RAM_MASK :: "u64" where "QDMA_DBE_ERR_PFCH_LL_RAM_MASK \<equiv> BIT 30"
abbreviation (input) QDMA_DBE_ERR_H2C_PEND_FIFO_MASK :: "u64" where "QDMA_DBE_ERR_H2C_PEND_FIFO_MASK \<equiv> BIT 31"
abbreviation (input) QDMA_DBE_ERR_ALL_MASK :: "u32" where "QDMA_DBE_ERR_ALL_MASK \<equiv> 0xFFFFFF11"
abbreviation (input) QDMA_MBOX_STS_I_MSG_MASK :: "u64" where "QDMA_MBOX_STS_I_MSG_MASK \<equiv> BIT 0"
abbreviation (input) QDMA_MBOX_STS_O_MSG_MASK :: "u64" where "QDMA_MBOX_STS_O_MSG_MASK \<equiv> BIT 1"
abbreviation (input) QDMA_MBOX_STS_ACK_MASK :: "u64" where "QDMA_MBOX_STS_ACK_MASK \<equiv> BIT 2"
abbreviation (input) QDMA_MBOX_STS_CUR_SRC_FN_MASK :: "u64" where "QDMA_MBOX_STS_CUR_SRC_FN_MASK \<equiv> GENMASK 11 4"
abbreviation (input) QDMA_MBOX_CMD_SEND :: "u64" where "QDMA_MBOX_CMD_SEND \<equiv> BIT 0"
abbreviation (input) QDMA_MBOX_CMD_RCV :: "u64" where "QDMA_MBOX_CMD_RCV \<equiv> BIT 1"
abbreviation (input) QDMA_MBOX_INTR_CTRL_EN :: "u64" where "QDMA_MBOX_INTR_CTRL_EN \<equiv> BIT 0"
abbreviation (input) QDMA_PF_MBOX_STS :: "u32" where "QDMA_PF_MBOX_STS \<equiv> 0x22400"
abbreviation (input) QDMA_PF_MBOX_CMD :: "u32" where "QDMA_PF_MBOX_CMD \<equiv> 0x22404"
abbreviation (input) QDMA_PF_MBOX_INTR_VEC :: "u32" where "QDMA_PF_MBOX_INTR_VEC \<equiv> 0x22408"
abbreviation (input) QDMA_PF_MBOX_TARGET_FN :: "u32" where "QDMA_PF_MBOX_TARGET_FN \<equiv> 0x2240C"
abbreviation (input) QDMA_PF_MBOX_INTR_CTRL :: "u32" where "QDMA_PF_MBOX_INTR_CTRL \<equiv> 0x22410"
abbreviation (input) QDMA_PF_MBOX_ACK_BASE :: "u32" where "QDMA_PF_MBOX_ACK_BASE \<equiv> 0x22420"
abbreviation (input) QDMA_PF_MBOX_ACK_REGS :: "nat" where "QDMA_PF_MBOX_ACK_REGS \<equiv> 8"
abbreviation (input) QDMA_PF_MBOX_ACK :: "u32 \<Rightarrow> u32" where "QDMA_PF_MBOX_ACK i \<equiv> QDMA_PF_MBOX_ACK_BASE + (i * 4)"
abbreviation (input) QDMA_PF_MBOX_IN_MSG :: "u32" where "QDMA_PF_MBOX_IN_MSG \<equiv> 0x22C00"
abbreviation (input) QDMA_PF_MBOX_OUT_MSG :: "u32" where "QDMA_PF_MBOX_OUT_MSG \<equiv> 0x23000"
abbreviation (input) QDMA_VF_MBOX_STS :: "u32" where "QDMA_VF_MBOX_STS \<equiv> 0x5000"
abbreviation (input) QDMA_VF_MBOX_CMD :: "u32" where "QDMA_VF_MBOX_CMD \<equiv> 0x5004"
abbreviation (input) QDMA_VF_MBOX_INTR_VEC :: "u32" where "QDMA_VF_MBOX_INTR_VEC \<equiv> 0x5008"
abbreviation (input) QDMA_VF_MBOX_INTR_CTRL :: "u32" where "QDMA_VF_MBOX_INTR_CTRL \<equiv> 0x5010"
abbreviation (input) QDMA_VF_MBOX_IN_MSG :: "u32" where "QDMA_VF_MBOX_IN_MSG \<equiv> 0x5800"
abbreviation (input) QDMA_VF_MBOX_OUT_MSG :: "u32" where "QDMA_VF_MBOX_OUT_MSG \<equiv> 0x5C00"

section \<open>Context layouts (qdma_context.h)\<close>

abbreviation (input) QDMA_CTXT_PROG_TIMEOUT_US :: "nat" where "QDMA_CTXT_PROG_TIMEOUT_US \<equiv> 500 * 1000"
abbreviation (input) QDMA_CTXT_PROG_POLL_INTERVAL_US :: "nat" where "QDMA_CTXT_PROG_POLL_INTERVAL_US \<equiv> 100"
abbreviation (input) QDMA_CTXT_PROG_NUM_DATA_REGS :: "nat" where "QDMA_CTXT_PROG_NUM_DATA_REGS \<equiv> 8"
abbreviation (input) QDMA_SW_CTXT_NUM_WORDS :: "nat" where "QDMA_SW_CTXT_NUM_WORDS \<equiv> 5"
abbreviation (input) QDMA_SW_CTXT_DESC_BASE_GET_L_MASK :: "u64" where "QDMA_SW_CTXT_DESC_BASE_GET_L_MASK \<equiv> GENMASK 31 0"
abbreviation (input) QDMA_SW_CTXT_DESC_BASE_GET_H_MASK :: "u64" where "QDMA_SW_CTXT_DESC_BASE_GET_H_MASK \<equiv> GENMASK 63 32"
abbreviation (input) QDMA_SW_CTXT_W4_INTR_AGGR_MASK :: "u64" where "QDMA_SW_CTXT_W4_INTR_AGGR_MASK \<equiv> BIT 11"
abbreviation (input) QDMA_SW_CTXT_W4_VEC_MASK :: "u64" where "QDMA_SW_CTXT_W4_VEC_MASK \<equiv> GENMASK 10 0"
abbreviation (input) QDMA_SW_CTXT_W3_DESC_BASE_H_MASK :: "u64" where "QDMA_SW_CTXT_W3_DESC_BASE_H_MASK \<equiv> GENMASK 31 0"
abbreviation (input) QDMA_SW_CTXT_W2_DESC_BASE_L_MASK :: "u64" where "QDMA_SW_CTXT_W2_DESC_BASE_L_MASK \<equiv> GENMASK 31 0"
abbreviation (input) QDMA_SW_CTXT_W1_IS_MM_MASK :: "u64" where "QDMA_SW_CTXT_W1_IS_MM_MASK \<equiv> BIT 31"
abbreviation (input) QDMA_SW_CTXT_W1_MRKR_DIS_MASK :: "u64" where "QDMA_SW_CTXT_W1_MRKR_DIS_MASK \<equiv> BIT 30"
abbreviation (input) QDMA_SW_CTXT_W1_IRQ_REQ_MASK :: "u64" where "QDMA_SW_CTXT_W1_IRQ_REQ_MASK \<equiv> BIT 29"
abbreviation (input) QDMA_SW_CTXT_W1_ERR_WB_SENT_MASK :: "u64" where "QDMA_SW_CTXT_W1_ERR_WB_SENT_MASK \<equiv> BIT 28"
abbreviation (input) QDMA_SW_CTXT_W1_ERR_MASK :: "u64" where "QDMA_SW_CTXT_W1_ERR_MASK \<equiv> GENMASK 27 26"
abbreviation (input) QDMA_SW_CTXT_W1_IRQ_NO_LAST_MASK :: "u64" where "QDMA_SW_CTXT_W1_IRQ_NO_LAST_MASK \<equiv> BIT 25"
abbreviation (input) QDMA_SW_CTXT_W1_PORT_ID_MASK :: "u64" where "QDMA_SW_CTXT_W1_PORT_ID_MASK \<equiv> GENMASK 24 22"
abbreviation (input) QDMA_SW_CTXT_W1_IRQ_EN_MASK :: "u64" where "QDMA_SW_CTXT_W1_IRQ_EN_MASK \<equiv> BIT 21"
abbreviation (input) QDMA_SW_CTXT_W1_WBK_EN_MASK :: "u64" where "QDMA_SW_CTXT_W1_WBK_EN_MASK \<equiv> BIT 20"
abbreviation (input) QDMA_SW_CTXT_W1_MM_CHN_MASK :: "u64" where "QDMA_SW_CTXT_W1_MM_CHN_MASK \<equiv> BIT 19"
abbreviation (input) QDMA_SW_CTXT_W1_BYPASS_MASK :: "u64" where "QDMA_SW_CTXT_W1_BYPASS_MASK \<equiv> BIT 18"
abbreviation (input) QDMA_SW_CTXT_W1_DESC_SZ_MASK :: "u64" where "QDMA_SW_CTXT_W1_DESC_SZ_MASK \<equiv> GENMASK 17 16"
abbreviation (input) QDMA_SW_CTXT_W1_RNG_SZ_MASK :: "u64" where "QDMA_SW_CTXT_W1_RNG_SZ_MASK \<equiv> GENMASK 15 12"
abbreviation (input) QDMA_SW_CTXT_W1_FETCH_MAX_MASK :: "u64" where "QDMA_SW_CTXT_W1_FETCH_MAX_MASK \<equiv> GENMASK 7 5"
abbreviation (input) QDMA_SW_CTXT_W1_AT_MASK :: "u64" where "QDMA_SW_CTXT_W1_AT_MASK \<equiv> BIT 4"
abbreviation (input) QDMA_SW_CTXT_W1_WBI_INTVL_EN_MASK :: "u64" where "QDMA_SW_CTXT_W1_WBI_INTVL_EN_MASK \<equiv> BIT 3"
abbreviation (input) QDMA_SW_CTXT_W1_WBI_CHK_MASK :: "u64" where "QDMA_SW_CTXT_W1_WBI_CHK_MASK \<equiv> BIT 2"
abbreviation (input) QDMA_SW_CTXT_W1_FCRD_EN_MASK :: "u64" where "QDMA_SW_CTXT_W1_FCRD_EN_MASK \<equiv> BIT 1"
abbreviation (input) QDMA_SW_CTXT_W1_QEN_MASK :: "u64" where "QDMA_SW_CTXT_W1_QEN_MASK \<equiv> BIT 0"
abbreviation (input) QDMA_SW_CTXT_W0_FUNC_ID_MASK :: "u64" where "QDMA_SW_CTXT_W0_FUNC_ID_MASK \<equiv> GENMASK 24 17"
abbreviation (input) QDMA_SW_CTXT_W0_IRQ_ARM_MASK :: "u64" where "QDMA_SW_CTXT_W0_IRQ_ARM_MASK \<equiv> BIT 16"
abbreviation (input) QDMA_SW_CTXT_W0_PIDX_MASK :: "u64" where "QDMA_SW_CTXT_W0_PIDX_MASK \<equiv> GENMASK 15 0"
abbreviation (input) QDMA_PFCH_CTXT_NUM_WORDS :: "nat" where "QDMA_PFCH_CTXT_NUM_WORDS \<equiv> 2"
abbreviation (input) QDMA_PFCH_CTXT_SW_CRDT_GET_H_MASK :: "u64" where "QDMA_PFCH_CTXT_SW_CRDT_GET_H_MASK \<equiv> GENMASK 15 3"
abbreviation (input) QDMA_PFCH_CTXT_SW_CRDT_GET_L_MASK :: "u64" where "QDMA_PFCH_CTXT_SW_CRDT_GET_L_MASK \<equiv> GENMASK 2 0"
abbreviation (input) QDMA_PFCH_CTXT_W1_VALID_MASK :: "u64" where "QDMA_PFCH_CTXT_W1_VALID_MASK \<equiv> BIT 13"
abbreviation (input) QDMA_PFCH_CTXT_W1_SW_CRDT_H_MASK :: "u64" where "QDMA_PFCH_CTXT_W1_SW_CRDT_H_MASK \<equiv> GENMASK 12 0"
abbreviation (input) QDMA_PFCH_CTXT_W0_SW_CRDT_L_MASK :: "u64" where "QDMA_PFCH_CTXT_W0_SW_CRDT_L_MASK \<equiv> GENMASK 31 29"
abbreviation (input) QDMA_PFCH_CTXT_W0_IN_PFCH_MASK :: "u64" where "QDMA_PFCH_CTXT_W0_IN_PFCH_MASK \<equiv> BIT 28"
abbreviation (input) QDMA_PFCH_CTXT_W0_PFCH_EN_MASK :: "u64" where "QDMA_PFCH_CTXT_W0_PFCH_EN_MASK \<equiv> BIT 27"
abbreviation (input) QDMA_PFCH_CTXT_W0_ERR_MASK :: "u64" where "QDMA_PFCH_CTXT_W0_ERR_MASK \<equiv> BIT 26"
abbreviation (input) QDMA_PFCH_CTXT_W0_PORT_ID_MASK :: "u64" where "QDMA_PFCH_CTXT_W0_PORT_ID_MASK \<equiv> GENMASK 7 5"
abbreviation (input) QDMA_PFCH_CTXT_W0_BUFSZ_IDX_MASK :: "u64" where "QDMA_PFCH_CTXT_W0_BUFSZ_IDX_MASK \<equiv> GENMASK 4 1"
abbreviation (input) QDMA_PFCH_CTXT_W0_BYPASS_MASK :: "u64" where "QDMA_PFCH_CTXT_W0_BYPASS_MASK \<equiv> BIT 0"
abbreviation (input) QDMA_CMPL_CTXT_NUM_WORDS :: "nat" where "QDMA_CMPL_CTXT_NUM_WORDS \<equiv> 5"
abbreviation (input) QDMA_CMPL_CTXT_BADDR_GET_H_MASK :: "u64" where "QDMA_CMPL_CTXT_BADDR_GET_H_MASK \<equiv> GENMASK 63 38"
abbreviation (input) QDMA_CMPL_CTXT_BADDR_GET_L_MASK :: "u64" where "QDMA_CMPL_CTXT_BADDR_GET_L_MASK \<equiv> GENMASK 37 12"
abbreviation (input) QDMA_CMPL_CTXT_PIDX_GET_H_MASK :: "u64" where "QDMA_CMPL_CTXT_PIDX_GET_H_MASK \<equiv> GENMASK 15 4"
abbreviation (input) QDMA_CMPL_CTXT_PIDX_GET_L_MASK :: "u64" where "QDMA_CMPL_CTXT_PIDX_GET_L_MASK \<equiv> GENMASK 3 0"
abbreviation (input) QDMA_CMPL_CTXT_W4_INTR_AGGR_MASK :: "u64" where "QDMA_CMPL_CTXT_W4_INTR_AGGR_MASK \<equiv> BIT 15"
abbreviation (input) QDMA_CMPL_CTXT_W4_VEC_MASK :: "u64" where "QDMA_CMPL_CTXT_W4_VEC_MASK \<equiv> GENMASK 14 4"
abbreviation (input) QDMA_CMPL_CTXT_W4_AT_MASK :: "u64" where "QDMA_CMPL_CTXT_W4_AT_MASK \<equiv> BIT 3"
abbreviation (input) QDMA_CMPL_CTXT_W4_OVF_CHK_DIS_MASK :: "u64" where "QDMA_CMPL_CTXT_W4_OVF_CHK_DIS_MASK \<equiv> BIT 2"
abbreviation (input) QDMA_CMPL_CTXT_W4_FULL_UPD_MASK :: "u64" where "QDMA_CMPL_CTXT_W4_FULL_UPD_MASK \<equiv> BIT 1"
abbreviation (input) QDMA_CMPL_CTXT_W4_TIMER_RUNNING_MASK :: "u64" where "QDMA_CMPL_CTXT_W4_TIMER_RUNNING_MASK \<equiv> BIT 0"
abbreviation (input) QDMA_CMPL_CTXT_W3_USER_TRIG_PEND_MASK :: "u64" where "QDMA_CMPL_CTXT_W3_USER_TRIG_PEND_MASK \<equiv> BIT 31"
abbreviation (input) QDMA_CMPL_CTXT_W3_ERR_MASK :: "u64" where "QDMA_CMPL_CTXT_W3_ERR_MASK \<equiv> GENMASK 30 29"
abbreviation (input) QDMA_CMPL_CTXT_W3_VALID_MASK :: "u64" where "QDMA_CMPL_CTXT_W3_VALID_MASK \<equiv> BIT 28"
abbreviation (input) QDMA_CMPL_CTXT_W3_CIDX_MASK :: "u64" where "QDMA_CMPL_CTXT_W3_CIDX_MASK \<equiv> GENMASK 27 12"
abbreviation (input) QDMA_CMPL_CTXT_W3_PIDX_H_MASK :: "u64" where "QDMA_CMPL_CTXT_W3_PIDX_H_MASK \<equiv> GENMASK 11 0"
abbreviation (input) QDMA_CMPL_CTXT_W2_PIDX_L_MASK :: "u64" where "QDMA_CMPL_CTXT_W2_PIDX_L_MASK \<equiv> GENMASK 31 28"
abbreviation (input) QDMA_CMPL_CTXT_W2_DESC_SZ_MASK :: "u64" where "QDMA_CMPL_CTXT_W2_DESC_SZ_MASK \<equiv> GENMASK 27 26"
abbreviation (input) QDMA_CMPL_CTXT_W2_BADDR_H_MASK :: "u64" where "QDMA_CMPL_CTXT_W2_BADDR_H_MASK \<equiv> GENMASK 25 0"
abbreviation (input) QDMA_CMPL_CTXT_W1_BADDR_L_MASK :: "u64" where "QDMA_CMPL_CTXT_W1_BADDR_L_MASK \<equiv> GENMASK 31 6"
abbreviation (input) QDMA_CMPL_CTXT_W0_RNGSZ_IDX_MASK :: "u64" where "QDMA_CMPL_CTXT_W0_RNGSZ_IDX_MASK \<equiv> GENMASK 31 28"
abbreviation (input) QDMA_CMPL_CTXT_W0_COLOR_MASK :: "u64" where "QDMA_CMPL_CTXT_W0_COLOR_MASK \<equiv> BIT 27"
abbreviation (input) QDMA_CMPL_CTXT_W0_INTR_ST_MASK :: "u64" where "QDMA_CMPL_CTXT_W0_INTR_ST_MASK \<equiv> GENMASK 26 25"
abbreviation (input) QDMA_CMPL_CTXT_W0_TIMER_IDX_MASK :: "u64" where "QDMA_CMPL_CTXT_W0_TIMER_IDX_MASK \<equiv> GENMASK 24 21"
abbreviation (input) QDMA_CMPL_CTXT_W0_COUNTER_IDX_MASK :: "u64" where "QDMA_CMPL_CTXT_W0_COUNTER_IDX_MASK \<equiv> GENMASK 20 17"
abbreviation (input) QDMA_CMPL_CTXT_W0_FUNC_ID_MASK :: "u64" where "QDMA_CMPL_CTXT_W0_FUNC_ID_MASK \<equiv> GENMASK 12 5"
abbreviation (input) QDMA_CMPL_CTXT_W0_TRIG_MODE_MASK :: "u64" where "QDMA_CMPL_CTXT_W0_TRIG_MODE_MASK \<equiv> GENMASK 4 2"
abbreviation (input) QDMA_CMPL_CTXT_W0_INTR_EN_MASK :: "u64" where "QDMA_CMPL_CTXT_W0_INTR_EN_MASK \<equiv> BIT 1"
abbreviation (input) QDMA_CMPL_CTXT_W0_STAT_EN_MASK :: "u64" where "QDMA_CMPL_CTXT_W0_STAT_EN_MASK \<equiv> BIT 0"
abbreviation (input) QDMA_FMAP_CTXT_NUM_WORDS :: "nat" where "QDMA_FMAP_CTXT_NUM_WORDS \<equiv> 2"
abbreviation (input) QDMA_FMAP_CTXT_W1_QMAX_MASK :: "u64" where "QDMA_FMAP_CTXT_W1_QMAX_MASK \<equiv> GENMASK 11 0"
abbreviation (input) QDMA_FMAP_CTXT_W0_QBASE_MASK :: "u64" where "QDMA_FMAP_CTXT_W0_QBASE_MASK \<equiv> GENMASK 10 0"

section \<open>Shell registers (onic_register.h)\<close>

abbreviation (input) SHELL_START :: "u32" where "SHELL_START \<equiv> 0x0"
abbreviation (input) SHELL_END :: "u32" where "SHELL_END \<equiv> 0x400000"
abbreviation (input) SHELL_MAXLEN :: "u32" where "SHELL_MAXLEN \<equiv> SHELL_END - SHELL_START"
abbreviation (input) SYSCFG_OFFSET :: "u32" where "SYSCFG_OFFSET \<equiv> 0x0"
abbreviation (input) SYSCFG_OFFSET_SHELL_RESET :: "u32" where "SYSCFG_OFFSET_SHELL_RESET \<equiv> SYSCFG_OFFSET + 0xC"
abbreviation (input) SYSCFG_OFFSET_SHELL_STATUS :: "u32" where "SYSCFG_OFFSET_SHELL_STATUS \<equiv> SYSCFG_OFFSET + 0x10"
abbreviation (input) QDMA_SUBSYSTEM_OFFSET :: "u32" where "QDMA_SUBSYSTEM_OFFSET \<equiv> 0x1000"
abbreviation (input) QDMA_FUNC_OFFSET :: "u32 \<Rightarrow> u32" where "QDMA_FUNC_OFFSET i \<equiv> QDMA_SUBSYSTEM_OFFSET + (0x1000 * i)"
abbreviation (input) QDMA_FUNC_OFFSET_QCONF :: "u32 \<Rightarrow> u32" where "QDMA_FUNC_OFFSET_QCONF i \<equiv> (QDMA_FUNC_OFFSET i) + 0x0"
abbreviation (input) QDMA_FUNC_QCONF_QBASE_MASK :: "u64" where "QDMA_FUNC_QCONF_QBASE_MASK \<equiv> GENMASK 31 16"
abbreviation (input) QDMA_FUNC_QCONF_NUMQ_MASK :: "u64" where "QDMA_FUNC_QCONF_NUMQ_MASK \<equiv> GENMASK 15 0"
abbreviation (input) QDMA_FUNC_OFFSET_INDIR_TABLE :: "u32 \<Rightarrow> u32 \<Rightarrow> u32" where "QDMA_FUNC_OFFSET_INDIR_TABLE i k \<equiv> (QDMA_FUNC_OFFSET i) + 0x400 + (k * 4)"
abbreviation (input) CMAC_SUBSYSTEM_0_OFFSET :: "u32" where "CMAC_SUBSYSTEM_0_OFFSET \<equiv> 0x8000"
abbreviation (input) CMAC_SUBSYSTEM_1_OFFSET :: "u32" where "CMAC_SUBSYSTEM_1_OFFSET \<equiv> 0xC000"
abbreviation (input) CMAC_SUBSYSTEM_OFFSET :: "u32 \<Rightarrow> u32" where "CMAC_SUBSYSTEM_OFFSET i \<equiv> (if i = 0 then CMAC_SUBSYSTEM_0_OFFSET else CMAC_SUBSYSTEM_1_OFFSET)"
abbreviation (input) CMAC_OFFSET :: "u32 \<Rightarrow> u32" where "CMAC_OFFSET i \<equiv> (CMAC_SUBSYSTEM_OFFSET i) + 0x0"
abbreviation (input) CMAC_OFFSET_CONF_TX_1 :: "u32 \<Rightarrow> u32" where "CMAC_OFFSET_CONF_TX_1 i \<equiv> (CMAC_OFFSET i) + 0x000C"
abbreviation (input) CMAC_OFFSET_CONF_RX_1 :: "u32 \<Rightarrow> u32" where "CMAC_OFFSET_CONF_RX_1 i \<equiv> (CMAC_OFFSET i) + 0x0014"
abbreviation (input) CMAC_OFFSET_CORE_VERSION :: "u32 \<Rightarrow> u32" where "CMAC_OFFSET_CORE_VERSION i \<equiv> (CMAC_OFFSET i) + 0x0024"
abbreviation (input) CMAC_OFFSET_CONF_TX_FC_CTRL_1 :: "u32 \<Rightarrow> u32" where "CMAC_OFFSET_CONF_TX_FC_CTRL_1 i \<equiv> (CMAC_OFFSET i) + 0x0030"
abbreviation (input) CMAC_OFFSET_CONF_TX_FC_RFRH_1 :: "u32 \<Rightarrow> u32" where "CMAC_OFFSET_CONF_TX_FC_RFRH_1 i \<equiv> (CMAC_OFFSET i) + 0x0034"
abbreviation (input) CMAC_OFFSET_CONF_TX_FC_RFRH_2 :: "u32 \<Rightarrow> u32" where "CMAC_OFFSET_CONF_TX_FC_RFRH_2 i \<equiv> (CMAC_OFFSET i) + 0x0038"
abbreviation (input) CMAC_OFFSET_CONF_TX_FC_RFRH_3 :: "u32 \<Rightarrow> u32" where "CMAC_OFFSET_CONF_TX_FC_RFRH_3 i \<equiv> (CMAC_OFFSET i) + 0x003C"
abbreviation (input) CMAC_OFFSET_CONF_TX_FC_RFRH_4 :: "u32 \<Rightarrow> u32" where "CMAC_OFFSET_CONF_TX_FC_RFRH_4 i \<equiv> (CMAC_OFFSET i) + 0x0040"
abbreviation (input) CMAC_OFFSET_CONF_TX_FC_RFRH_5 :: "u32 \<Rightarrow> u32" where "CMAC_OFFSET_CONF_TX_FC_RFRH_5 i \<equiv> (CMAC_OFFSET i) + 0x0044"
abbreviation (input) CMAC_OFFSET_CONF_TX_FC_QNTA_1 :: "u32 \<Rightarrow> u32" where "CMAC_OFFSET_CONF_TX_FC_QNTA_1 i \<equiv> (CMAC_OFFSET i) + 0x0048"
abbreviation (input) CMAC_OFFSET_CONF_TX_FC_QNTA_2 :: "u32 \<Rightarrow> u32" where "CMAC_OFFSET_CONF_TX_FC_QNTA_2 i \<equiv> (CMAC_OFFSET i) + 0x004C"
abbreviation (input) CMAC_OFFSET_CONF_TX_FC_QNTA_3 :: "u32 \<Rightarrow> u32" where "CMAC_OFFSET_CONF_TX_FC_QNTA_3 i \<equiv> (CMAC_OFFSET i) + 0x0050"
abbreviation (input) CMAC_OFFSET_CONF_TX_FC_QNTA_4 :: "u32 \<Rightarrow> u32" where "CMAC_OFFSET_CONF_TX_FC_QNTA_4 i \<equiv> (CMAC_OFFSET i) + 0x0054"
abbreviation (input) CMAC_OFFSET_CONF_TX_FC_QNTA_5 :: "u32 \<Rightarrow> u32" where "CMAC_OFFSET_CONF_TX_FC_QNTA_5 i \<equiv> (CMAC_OFFSET i) + 0x0058"
abbreviation (input) CMAC_OFFSET_CONF_RX_FC_CTRL_1 :: "u32 \<Rightarrow> u32" where "CMAC_OFFSET_CONF_RX_FC_CTRL_1 i \<equiv> (CMAC_OFFSET i) + 0x0084"
abbreviation (input) CMAC_OFFSET_CONF_RX_FC_CTRL_2 :: "u32 \<Rightarrow> u32" where "CMAC_OFFSET_CONF_RX_FC_CTRL_2 i \<equiv> (CMAC_OFFSET i) + 0x0088"
abbreviation (input) CMAC_OFFSET_RSFEC_CONF_IND_CORRECTION :: "u32 \<Rightarrow> u32" where "CMAC_OFFSET_RSFEC_CONF_IND_CORRECTION i \<equiv> (CMAC_OFFSET i) + 0x1000"
abbreviation (input) CMAC_OFFSET_RSFEC_CONF_ENABLE :: "u32 \<Rightarrow> u32" where "CMAC_OFFSET_RSFEC_CONF_ENABLE i \<equiv> (CMAC_OFFSET i) + 0x107C"

end
