(* ===== verification/Error_Info.thy ===== *)
theory Error_Info
  imports Regs
begin

text \<open>
  \<^verbatim>\<open>qdma_error_info.h\<close> and the error numbering of \<^verbatim>\<open>qdma_export.h\<close>: the table the driver consults to
  unmask the error interrupt of the card, one entry per error, one summary entry (\<^verbatim>\<open>*_ERR_ALL\<close>) per
  error register. The enumeration is its C values.
\<close>

section \<open>Error numbers\<close>

abbreviation (input) QDMA_DSC_ERR_POISON :: nat where "QDMA_DSC_ERR_POISON \<equiv> 0"
abbreviation (input) QDMA_DSC_ERR_UR_CA :: nat where "QDMA_DSC_ERR_UR_CA \<equiv> 1"
abbreviation (input) QDMA_DSC_ERR_PARAM :: nat where "QDMA_DSC_ERR_PARAM \<equiv> 2"
abbreviation (input) QDMA_DSC_ERR_ADDR :: nat where "QDMA_DSC_ERR_ADDR \<equiv> 3"
abbreviation (input) QDMA_DSC_ERR_TAG :: nat where "QDMA_DSC_ERR_TAG \<equiv> 4"
abbreviation (input) QDMA_DSC_ERR_FLR :: nat where "QDMA_DSC_ERR_FLR \<equiv> 5"
abbreviation (input) QDMA_DSC_ERR_TIMEOUT :: nat where "QDMA_DSC_ERR_TIMEOUT \<equiv> 6"
abbreviation (input) QDMA_DSC_ERR_DAT_POISON :: nat where "QDMA_DSC_ERR_DAT_POISON \<equiv> 7"
abbreviation (input) QDMA_DSC_ERR_FLR_CANCEL :: nat where "QDMA_DSC_ERR_FLR_CANCEL \<equiv> 8"
abbreviation (input) QDMA_DSC_ERR_DMA :: nat where "QDMA_DSC_ERR_DMA \<equiv> 9"
abbreviation (input) QDMA_DSC_ERR_DSC :: nat where "QDMA_DSC_ERR_DSC \<equiv> 10"
abbreviation (input) QDMA_DSC_ERR_RQ_CANCEL :: nat where "QDMA_DSC_ERR_RQ_CANCEL \<equiv> 11"
abbreviation (input) QDMA_DSC_ERR_DBE :: nat where "QDMA_DSC_ERR_DBE \<equiv> 12"
abbreviation (input) QDMA_DSC_ERR_SBE :: nat where "QDMA_DSC_ERR_SBE \<equiv> 13"
abbreviation (input) QDMA_DSC_ERR_ALL :: nat where "QDMA_DSC_ERR_ALL \<equiv> 14"
abbreviation (input) QDMA_TRQ_ERR_UNMAPPED :: nat where "QDMA_TRQ_ERR_UNMAPPED \<equiv> 15"
abbreviation (input) QDMA_TRQ_ERR_QID_RANGE :: nat where "QDMA_TRQ_ERR_QID_RANGE \<equiv> 16"
abbreviation (input) QDMA_TRQ_ERR_VF_ACCESS :: nat where "QDMA_TRQ_ERR_VF_ACCESS \<equiv> 17"
abbreviation (input) QDMA_TRQ_ERR_TCP_TIMEOUT :: nat where "QDMA_TRQ_ERR_TCP_TIMEOUT \<equiv> 18"
abbreviation (input) QDMA_TRQ_ERR_ALL :: nat where "QDMA_TRQ_ERR_ALL \<equiv> 19"
abbreviation (input) QDMA_ST_C2H_ERR_MTY_MISMATCH :: nat where "QDMA_ST_C2H_ERR_MTY_MISMATCH \<equiv> 20"
abbreviation (input) QDMA_ST_C2H_ERR_LEN_MISMATCH :: nat where "QDMA_ST_C2H_ERR_LEN_MISMATCH \<equiv> 21"
abbreviation (input) QDMA_ST_C2H_ERR_QID_MISMATCH :: nat where "QDMA_ST_C2H_ERR_QID_MISMATCH \<equiv> 22"
abbreviation (input) QDMA_ST_C2H_ERR_DESC_RSP_ERR :: nat where "QDMA_ST_C2H_ERR_DESC_RSP_ERR \<equiv> 23"
abbreviation (input) QDMA_ST_C2H_ERR_ENG_WPL_DATA_PAR_ERR :: nat where "QDMA_ST_C2H_ERR_ENG_WPL_DATA_PAR_ERR \<equiv> 24"
abbreviation (input) QDMA_ST_C2H_ERR_MSI_INT_FAIL :: nat where "QDMA_ST_C2H_ERR_MSI_INT_FAIL \<equiv> 25"
abbreviation (input) QDMA_ST_C2H_ERR_ERR_DESC_CNT :: nat where "QDMA_ST_C2H_ERR_ERR_DESC_CNT \<equiv> 26"
abbreviation (input) QDMA_ST_C2H_ERR_PORTID_CTXT_MISMATCH :: nat where "QDMA_ST_C2H_ERR_PORTID_CTXT_MISMATCH \<equiv> 27"
abbreviation (input) QDMA_ST_C2H_ERR_PORTID_BYP_IN_MISMATCH :: nat where "QDMA_ST_C2H_ERR_PORTID_BYP_IN_MISMATCH \<equiv> 28"
abbreviation (input) QDMA_ST_C2H_ERR_CMPL_INV_Q_ERR :: nat where "QDMA_ST_C2H_ERR_CMPL_INV_Q_ERR \<equiv> 29"
abbreviation (input) QDMA_ST_C2H_ERR_CMPL_QFULL_ERR :: nat where "QDMA_ST_C2H_ERR_CMPL_QFULL_ERR \<equiv> 30"
abbreviation (input) QDMA_ST_C2H_ERR_CMPL_CIDX_ERR :: nat where "QDMA_ST_C2H_ERR_CMPL_CIDX_ERR \<equiv> 31"
abbreviation (input) QDMA_ST_C2H_ERR_CMPL_PRTY_ERR :: nat where "QDMA_ST_C2H_ERR_CMPL_PRTY_ERR \<equiv> 32"
abbreviation (input) QDMA_ST_C2H_ERR_ALL :: nat where "QDMA_ST_C2H_ERR_ALL \<equiv> 33"
abbreviation (input) QDMA_ST_FATAL_ERR_MTY_MISMATCH :: nat where "QDMA_ST_FATAL_ERR_MTY_MISMATCH \<equiv> 34"
abbreviation (input) QDMA_ST_FATAL_ERR_LEN_MISMATCH :: nat where "QDMA_ST_FATAL_ERR_LEN_MISMATCH \<equiv> 35"
abbreviation (input) QDMA_ST_FATAL_ERR_QID_MISMATCH :: nat where "QDMA_ST_FATAL_ERR_QID_MISMATCH \<equiv> 36"
abbreviation (input) QDMA_ST_FATAL_ERR_TIMER_FIFO_RAM_RDBE :: nat where "QDMA_ST_FATAL_ERR_TIMER_FIFO_RAM_RDBE \<equiv> 37"
abbreviation (input) QDMA_ST_FATAL_ERR_PFCH_II_RAM_RDBE :: nat where "QDMA_ST_FATAL_ERR_PFCH_II_RAM_RDBE \<equiv> 38"
abbreviation (input) QDMA_ST_FATAL_ERR_CMPL_CTXT_RAM_RDBE :: nat where "QDMA_ST_FATAL_ERR_CMPL_CTXT_RAM_RDBE \<equiv> 39"
abbreviation (input) QDMA_ST_FATAL_ERR_PFCH_CTXT_RAM_RDBE :: nat where "QDMA_ST_FATAL_ERR_PFCH_CTXT_RAM_RDBE \<equiv> 40"
abbreviation (input) QDMA_ST_FATAL_ERR_DESC_REQ_FIFO_RAM_RDBE :: nat where "QDMA_ST_FATAL_ERR_DESC_REQ_FIFO_RAM_RDBE \<equiv> 41"
abbreviation (input) QDMA_ST_FATAL_ERR_INT_CTXT_RAM_RDBE :: nat where "QDMA_ST_FATAL_ERR_INT_CTXT_RAM_RDBE \<equiv> 42"
abbreviation (input) QDMA_ST_FATAL_ERR_CMPL_COAL_DATA_RAM_RDBE :: nat where "QDMA_ST_FATAL_ERR_CMPL_COAL_DATA_RAM_RDBE \<equiv> 43"
abbreviation (input) QDMA_ST_FATAL_ERR_TUSER_FIFO_RAM_RDBE :: nat where "QDMA_ST_FATAL_ERR_TUSER_FIFO_RAM_RDBE \<equiv> 44"
abbreviation (input) QDMA_ST_FATAL_ERR_QID_FIFO_RAM_RDBE :: nat where "QDMA_ST_FATAL_ERR_QID_FIFO_RAM_RDBE \<equiv> 45"
abbreviation (input) QDMA_ST_FATAL_ERR_PAYLOAD_FIFO_RAM_RDBE :: nat where "QDMA_ST_FATAL_ERR_PAYLOAD_FIFO_RAM_RDBE \<equiv> 46"
abbreviation (input) QDMA_ST_FATAL_ERR_WPL_DATA_PAR :: nat where "QDMA_ST_FATAL_ERR_WPL_DATA_PAR \<equiv> 47"
abbreviation (input) QDMA_ST_FATAL_ERR_ALL :: nat where "QDMA_ST_FATAL_ERR_ALL \<equiv> 48"
abbreviation (input) QDMA_ST_H2C_ERR_ZERO_LEN_DESC :: nat where "QDMA_ST_H2C_ERR_ZERO_LEN_DESC \<equiv> 49"
abbreviation (input) QDMA_ST_H2C_ERR_CSI_MOP :: nat where "QDMA_ST_H2C_ERR_CSI_MOP \<equiv> 50"
abbreviation (input) QDMA_ST_H2C_ERR_NO_DMA_DSC :: nat where "QDMA_ST_H2C_ERR_NO_DMA_DSC \<equiv> 51"
abbreviation (input) QDMA_ST_H2C_ERR_SBE :: nat where "QDMA_ST_H2C_ERR_SBE \<equiv> 52"
abbreviation (input) QDMA_ST_H2C_ERR_DBE :: nat where "QDMA_ST_H2C_ERR_DBE \<equiv> 53"
abbreviation (input) QDMA_ST_H2C_ERR_ALL :: nat where "QDMA_ST_H2C_ERR_ALL \<equiv> 54"
abbreviation (input) QDMA_SBE_ERR_MI_H2C0_DAT :: nat where "QDMA_SBE_ERR_MI_H2C0_DAT \<equiv> 55"
abbreviation (input) QDMA_SBE_ERR_MI_C2H0_DAT :: nat where "QDMA_SBE_ERR_MI_C2H0_DAT \<equiv> 56"
abbreviation (input) QDMA_SBE_ERR_H2C_RD_BRG_DAT :: nat where "QDMA_SBE_ERR_H2C_RD_BRG_DAT \<equiv> 57"
abbreviation (input) QDMA_SBE_ERR_H2C_WR_BRG_DAT :: nat where "QDMA_SBE_ERR_H2C_WR_BRG_DAT \<equiv> 58"
abbreviation (input) QDMA_SBE_ERR_C2H_RD_BRG_DAT :: nat where "QDMA_SBE_ERR_C2H_RD_BRG_DAT \<equiv> 59"
abbreviation (input) QDMA_SBE_ERR_C2H_WR_BRG_DAT :: nat where "QDMA_SBE_ERR_C2H_WR_BRG_DAT \<equiv> 60"
abbreviation (input) QDMA_SBE_ERR_FUNC_MAP :: nat where "QDMA_SBE_ERR_FUNC_MAP \<equiv> 61"
abbreviation (input) QDMA_SBE_ERR_DSC_HW_CTXT :: nat where "QDMA_SBE_ERR_DSC_HW_CTXT \<equiv> 62"
abbreviation (input) QDMA_SBE_ERR_DSC_CRD_RCV :: nat where "QDMA_SBE_ERR_DSC_CRD_RCV \<equiv> 63"
abbreviation (input) QDMA_SBE_ERR_DSC_SW_CTXT :: nat where "QDMA_SBE_ERR_DSC_SW_CTXT \<equiv> 64"
abbreviation (input) QDMA_SBE_ERR_DSC_CPLI :: nat where "QDMA_SBE_ERR_DSC_CPLI \<equiv> 65"
abbreviation (input) QDMA_SBE_ERR_DSC_CPLD :: nat where "QDMA_SBE_ERR_DSC_CPLD \<equiv> 66"
abbreviation (input) QDMA_SBE_ERR_PASID_CTXT_RAM :: nat where "QDMA_SBE_ERR_PASID_CTXT_RAM \<equiv> 67"
abbreviation (input) QDMA_SBE_ERR_TIMER_FIFO_RAM :: nat where "QDMA_SBE_ERR_TIMER_FIFO_RAM \<equiv> 68"
abbreviation (input) QDMA_SBE_ERR_PAYLOAD_FIFO_RAM :: nat where "QDMA_SBE_ERR_PAYLOAD_FIFO_RAM \<equiv> 69"
abbreviation (input) QDMA_SBE_ERR_QID_FIFO_RAM :: nat where "QDMA_SBE_ERR_QID_FIFO_RAM \<equiv> 70"
abbreviation (input) QDMA_SBE_ERR_TUSER_FIFO_RAM :: nat where "QDMA_SBE_ERR_TUSER_FIFO_RAM \<equiv> 71"
abbreviation (input) QDMA_SBE_ERR_WB_COAL_DATA_RAM :: nat where "QDMA_SBE_ERR_WB_COAL_DATA_RAM \<equiv> 72"
abbreviation (input) QDMA_SBE_ERR_INT_QID2VEC_RAM :: nat where "QDMA_SBE_ERR_INT_QID2VEC_RAM \<equiv> 73"
abbreviation (input) QDMA_SBE_ERR_INT_CTXT_RAM :: nat where "QDMA_SBE_ERR_INT_CTXT_RAM \<equiv> 74"
abbreviation (input) QDMA_SBE_ERR_DESC_REQ_FIFO_RAM :: nat where "QDMA_SBE_ERR_DESC_REQ_FIFO_RAM \<equiv> 75"
abbreviation (input) QDMA_SBE_ERR_PFCH_CTXT_RAM :: nat where "QDMA_SBE_ERR_PFCH_CTXT_RAM \<equiv> 76"
abbreviation (input) QDMA_SBE_ERR_WB_CTXT_RAM :: nat where "QDMA_SBE_ERR_WB_CTXT_RAM \<equiv> 77"
abbreviation (input) QDMA_SBE_ERR_PFCH_LL_RAM :: nat where "QDMA_SBE_ERR_PFCH_LL_RAM \<equiv> 78"
abbreviation (input) QDMA_SBE_ERR_H2C_PEND_FIFO :: nat where "QDMA_SBE_ERR_H2C_PEND_FIFO \<equiv> 79"
abbreviation (input) QDMA_SBE_ERR_ALL :: nat where "QDMA_SBE_ERR_ALL \<equiv> 80"
abbreviation (input) QDMA_DBE_ERR_MI_H2C0_DAT :: nat where "QDMA_DBE_ERR_MI_H2C0_DAT \<equiv> 81"
abbreviation (input) QDMA_DBE_ERR_MI_C2H0_DAT :: nat where "QDMA_DBE_ERR_MI_C2H0_DAT \<equiv> 82"
abbreviation (input) QDMA_DBE_ERR_H2C_RD_BRG_DAT :: nat where "QDMA_DBE_ERR_H2C_RD_BRG_DAT \<equiv> 83"
abbreviation (input) QDMA_DBE_ERR_H2C_WR_BRG_DAT :: nat where "QDMA_DBE_ERR_H2C_WR_BRG_DAT \<equiv> 84"
abbreviation (input) QDMA_DBE_ERR_C2H_RD_BRG_DAT :: nat where "QDMA_DBE_ERR_C2H_RD_BRG_DAT \<equiv> 85"
abbreviation (input) QDMA_DBE_ERR_C2H_WR_BRG_DAT :: nat where "QDMA_DBE_ERR_C2H_WR_BRG_DAT \<equiv> 86"
abbreviation (input) QDMA_DBE_ERR_FUNC_MAP :: nat where "QDMA_DBE_ERR_FUNC_MAP \<equiv> 87"
abbreviation (input) QDMA_DBE_ERR_DSC_HW_CTXT :: nat where "QDMA_DBE_ERR_DSC_HW_CTXT \<equiv> 88"
abbreviation (input) QDMA_DBE_ERR_DSC_CRD_RCV :: nat where "QDMA_DBE_ERR_DSC_CRD_RCV \<equiv> 89"
abbreviation (input) QDMA_DBE_ERR_DSC_SW_CTXT :: nat where "QDMA_DBE_ERR_DSC_SW_CTXT \<equiv> 90"
abbreviation (input) QDMA_DBE_ERR_DSC_CPLI :: nat where "QDMA_DBE_ERR_DSC_CPLI \<equiv> 91"
abbreviation (input) QDMA_DBE_ERR_DSC_CPLD :: nat where "QDMA_DBE_ERR_DSC_CPLD \<equiv> 92"
abbreviation (input) QDMA_DBE_ERR_PASID_CTXT_RAM :: nat where "QDMA_DBE_ERR_PASID_CTXT_RAM \<equiv> 93"
abbreviation (input) QDMA_DBE_ERR_TIMER_FIFO_RAM :: nat where "QDMA_DBE_ERR_TIMER_FIFO_RAM \<equiv> 94"
abbreviation (input) QDMA_DBE_ERR_PAYLOAD_FIFO_RAM :: nat where "QDMA_DBE_ERR_PAYLOAD_FIFO_RAM \<equiv> 95"
abbreviation (input) QDMA_DBE_ERR_QID_FIFO_RAM :: nat where "QDMA_DBE_ERR_QID_FIFO_RAM \<equiv> 96"
abbreviation (input) QDMA_DBE_ERR_TUSER_FIFO_RAM :: nat where "QDMA_DBE_ERR_TUSER_FIFO_RAM \<equiv> 97"
abbreviation (input) QDMA_DBE_ERR_WB_COAL_DATA_RAM :: nat where "QDMA_DBE_ERR_WB_COAL_DATA_RAM \<equiv> 98"
abbreviation (input) QDMA_DBE_ERR_INT_QID2VEC_RAM :: nat where "QDMA_DBE_ERR_INT_QID2VEC_RAM \<equiv> 99"
abbreviation (input) QDMA_DBE_ERR_INT_CTXT_RAM :: nat where "QDMA_DBE_ERR_INT_CTXT_RAM \<equiv> 100"
abbreviation (input) QDMA_DBE_ERR_DESC_REQ_FIFO_RAM :: nat where "QDMA_DBE_ERR_DESC_REQ_FIFO_RAM \<equiv> 101"
abbreviation (input) QDMA_DBE_ERR_PFCH_CTXT_RAM :: nat where "QDMA_DBE_ERR_PFCH_CTXT_RAM \<equiv> 102"
abbreviation (input) QDMA_DBE_ERR_WB_CTXT_RAM :: nat where "QDMA_DBE_ERR_WB_CTXT_RAM \<equiv> 103"
abbreviation (input) QDMA_DBE_ERR_PFCH_LL_RAM :: nat where "QDMA_DBE_ERR_PFCH_LL_RAM \<equiv> 104"
abbreviation (input) QDMA_DBE_ERR_H2C_PEND_FIFO :: nat where "QDMA_DBE_ERR_H2C_PEND_FIFO \<equiv> 105"
abbreviation (input) QDMA_DBE_ERR_ALL :: nat where "QDMA_DBE_ERR_ALL \<equiv> 106"
abbreviation (input) QDMA_ERR_ALL :: nat where "QDMA_ERR_ALL \<equiv> 107"

section \<open>The table\<close>

record qdma_error_info =
  err_idx :: nat
  err_name :: string
  err_mask_reg_addr :: u32
  err_stat_reg_addr :: u32
  err_leaf_err_mask :: u32
  err_glbl_err_mask :: u32

abbreviation (input) error_entry :: "nat \<Rightarrow> string \<Rightarrow> u32 \<Rightarrow> u32 \<Rightarrow> u32 \<Rightarrow> u32 \<Rightarrow> qdma_error_info" where
  "error_entry i n m st l g \<equiv> \<lparr>err_idx = i, err_name = n, err_mask_reg_addr = m, err_stat_reg_addr = st,
     err_leaf_err_mask = l, err_glbl_err_mask = g\<rparr>"

definition dsc_errors :: "qdma_error_info list" where
  "dsc_errors = [
    error_entry QDMA_DSC_ERR_POISON ''Poison error'' QDMA_OFFSET_GLBL_DSC_ERR_MASK QDMA_OFFSET_GLBL_DSC_ERR_STAT
     (ucast QDMA_GLBL_DSC_ERR_POISON_MASK) (ucast QDMA_GLBL_ERR_DSC_MASK),
    error_entry QDMA_DSC_ERR_UR_CA ''Unsupported request or completer aborted error'' QDMA_OFFSET_GLBL_DSC_ERR_MASK QDMA_OFFSET_GLBL_DSC_ERR_STAT
     (ucast QDMA_GLBL_DSC_ERR_UR_CA_MASK) (ucast QDMA_GLBL_ERR_DSC_MASK),
    error_entry QDMA_DSC_ERR_PARAM ''Parameter mismatch error'' QDMA_OFFSET_GLBL_DSC_ERR_MASK QDMA_OFFSET_GLBL_DSC_ERR_STAT
     (ucast QDMA_GLBL_DSC_ERR_PARAM_MASK) (ucast QDMA_GLBL_ERR_DSC_MASK),
    error_entry QDMA_DSC_ERR_ADDR ''Address mismatch error'' QDMA_OFFSET_GLBL_DSC_ERR_MASK QDMA_OFFSET_GLBL_DSC_ERR_STAT
     (ucast QDMA_GLBL_DSC_ERR_ADDR_MASK) (ucast QDMA_GLBL_ERR_DSC_MASK),
    error_entry QDMA_DSC_ERR_TAG ''Unexpected tag error'' QDMA_OFFSET_GLBL_DSC_ERR_MASK QDMA_OFFSET_GLBL_DSC_ERR_STAT
     (ucast QDMA_GLBL_DSC_ERR_TAG_MASK) (ucast QDMA_GLBL_ERR_DSC_MASK),
    error_entry QDMA_DSC_ERR_FLR ''FLR error'' QDMA_OFFSET_GLBL_DSC_ERR_MASK QDMA_OFFSET_GLBL_DSC_ERR_STAT
     (ucast QDMA_GLBL_DSC_ERR_FLR_MASK) (ucast QDMA_GLBL_ERR_DSC_MASK),
    error_entry QDMA_DSC_ERR_TIMEOUT ''Timed out error'' QDMA_OFFSET_GLBL_DSC_ERR_MASK QDMA_OFFSET_GLBL_DSC_ERR_STAT
     (ucast QDMA_GLBL_DSC_ERR_TIMEOUT_MASK) (ucast QDMA_GLBL_ERR_DSC_MASK),
    error_entry QDMA_DSC_ERR_DAT_POISON ''Poison data error'' QDMA_OFFSET_GLBL_DSC_ERR_MASK QDMA_OFFSET_GLBL_DSC_ERR_STAT
     (ucast QDMA_GLBL_DSC_ERR_DAT_POISON_MASK) (ucast QDMA_GLBL_ERR_DSC_MASK),
    error_entry QDMA_DSC_ERR_FLR_CANCEL ''Descriptor fetch cancelled due to FLR error'' QDMA_OFFSET_GLBL_DSC_ERR_MASK QDMA_OFFSET_GLBL_DSC_ERR_STAT
     (ucast QDMA_GLBL_DSC_ERR_FLR_CANCEL_MASK) (ucast QDMA_GLBL_ERR_DSC_MASK),
    error_entry QDMA_DSC_ERR_DMA ''DMA engine error'' QDMA_OFFSET_GLBL_DSC_ERR_MASK QDMA_OFFSET_GLBL_DSC_ERR_STAT
     (ucast QDMA_GLBL_DSC_ERR_DMA_MASK) (ucast QDMA_GLBL_ERR_DSC_MASK),
    error_entry QDMA_DSC_ERR_DSC ''Invalid PIDX update error'' QDMA_OFFSET_GLBL_DSC_ERR_MASK QDMA_OFFSET_GLBL_DSC_ERR_STAT
     (ucast QDMA_GLBL_DSC_ERR_DSC_MASK) (ucast QDMA_GLBL_ERR_DSC_MASK),
    error_entry QDMA_DSC_ERR_RQ_CANCEL ''Descriptor fetch cancelled due to disable register status error'' QDMA_OFFSET_GLBL_DSC_ERR_MASK QDMA_OFFSET_GLBL_DSC_ERR_STAT
     (ucast QDMA_GLBL_DSC_ERR_RQ_CANCEL_MASK) (ucast QDMA_GLBL_ERR_DSC_MASK),
    error_entry QDMA_DSC_ERR_DBE ''UNC_ERR_RAM_DBE error'' QDMA_OFFSET_GLBL_DSC_ERR_MASK QDMA_OFFSET_GLBL_DSC_ERR_STAT
     (ucast QDMA_GLBL_DSC_ERR_DBE_MASK) (ucast QDMA_GLBL_ERR_DSC_MASK),
    error_entry QDMA_DSC_ERR_SBE ''UNC_ERR_RAM_SBE error'' QDMA_OFFSET_GLBL_DSC_ERR_MASK QDMA_OFFSET_GLBL_DSC_ERR_STAT
     (ucast QDMA_GLBL_DSC_ERR_SBE_MASK) (ucast QDMA_GLBL_ERR_DSC_MASK),
    error_entry QDMA_DSC_ERR_ALL ''All Descriptor errors'' QDMA_OFFSET_GLBL_DSC_ERR_MASK QDMA_OFFSET_GLBL_DSC_ERR_STAT
     (QDMA_GLBL_DSC_ERR_ALL_MASK) (ucast QDMA_GLBL_ERR_DSC_MASK)]"

definition trq_errors :: "qdma_error_info list" where
  "trq_errors = [
    error_entry QDMA_TRQ_ERR_UNMAPPED ''Access targeted unmapped register space error'' QDMA_OFFSET_GLBL_TRQ_ERR_MASK QDMA_OFFSET_GLBL_TRQ_ERR_STAT
     (ucast QDMA_GLBL_TRQ_ERR_UNMAPPED_MASK) (ucast QDMA_GLBL_ERR_TRQ_MASK),
    error_entry QDMA_TRQ_ERR_QID_RANGE ''Qid range error'' QDMA_OFFSET_GLBL_TRQ_ERR_MASK QDMA_OFFSET_GLBL_TRQ_ERR_STAT
     (ucast QDMA_GLBL_TRQ_ERR_QID_RANGE_MASK) (ucast QDMA_GLBL_ERR_TRQ_MASK),
    error_entry QDMA_TRQ_ERR_VF_ACCESS ''Invalid VF access error'' QDMA_OFFSET_GLBL_TRQ_ERR_MASK QDMA_OFFSET_GLBL_TRQ_ERR_STAT
     (ucast QDMA_GLBL_TRQ_ERR_VF_ACCESS_MASK) (ucast QDMA_GLBL_ERR_TRQ_MASK),
    error_entry QDMA_TRQ_ERR_TCP_TIMEOUT ''Timeout on request error'' QDMA_OFFSET_GLBL_TRQ_ERR_MASK QDMA_OFFSET_GLBL_TRQ_ERR_STAT
     (ucast QDMA_GLBL_TRQ_ERR_TCP_TIMEOUT_MASK) (ucast QDMA_GLBL_ERR_TRQ_MASK),
    error_entry QDMA_TRQ_ERR_ALL ''All TRQ errors'' QDMA_OFFSET_GLBL_TRQ_ERR_MASK QDMA_OFFSET_GLBL_TRQ_ERR_STAT
     (QDMA_GLBL_TRQ_ERR_ALL_MASK) (ucast QDMA_GLBL_ERR_TRQ_MASK)]"

definition st_c2h_errors :: "qdma_error_info list" where
  "st_c2h_errors = [
    error_entry QDMA_ST_C2H_ERR_MTY_MISMATCH ''MTY mismatch error'' QDMA_OFFSET_C2H_ERR_MASK QDMA_OFFSET_C2H_ERR_STAT
     (ucast QDMA_C2H_ERR_MTY_MISMATCH_MASK) (ucast QDMA_GLBL_ERR_ST_C2H_MASK),
    error_entry QDMA_ST_C2H_ERR_LEN_MISMATCH ''Packet length mismatch error'' QDMA_OFFSET_C2H_ERR_MASK QDMA_OFFSET_C2H_ERR_STAT
     (ucast QDMA_C2H_ERR_LEN_MISMATCH_MASK) (ucast QDMA_GLBL_ERR_ST_C2H_MASK),
    error_entry QDMA_ST_C2H_ERR_QID_MISMATCH ''Qid mismatch error'' QDMA_OFFSET_C2H_ERR_MASK QDMA_OFFSET_C2H_ERR_STAT
     (ucast QDMA_C2H_ERR_QID_MISMATCH_MASK) (ucast QDMA_GLBL_ERR_ST_C2H_MASK),
    error_entry QDMA_ST_C2H_ERR_DESC_RSP_ERR ''Descriptor error bit set'' QDMA_OFFSET_C2H_ERR_MASK QDMA_OFFSET_C2H_ERR_STAT
     (ucast QDMA_C2H_ERR_DESC_RSP_ERR_MASK) (ucast QDMA_GLBL_ERR_ST_C2H_MASK),
    error_entry QDMA_ST_C2H_ERR_ENG_WPL_DATA_PAR_ERR ''Data parity error'' QDMA_OFFSET_C2H_ERR_MASK QDMA_OFFSET_C2H_ERR_STAT
     (ucast QDMA_C2H_ERR_ENG_WPL_DATA_PAR_ERR_MASK) (ucast QDMA_GLBL_ERR_ST_C2H_MASK),
    error_entry QDMA_ST_C2H_ERR_MSI_INT_FAIL ''MSI got a fail response error'' QDMA_OFFSET_C2H_ERR_MASK QDMA_OFFSET_C2H_ERR_STAT
     (ucast QDMA_C2H_ERR_MSI_INT_FAIL_MASK) (ucast QDMA_GLBL_ERR_ST_C2H_MASK),
    error_entry QDMA_ST_C2H_ERR_ERR_DESC_CNT ''Descriptor count error'' QDMA_OFFSET_C2H_ERR_MASK QDMA_OFFSET_C2H_ERR_STAT
     (ucast QDMA_C2H_ERR_ERR_DESC_CNT_MASK) (ucast QDMA_GLBL_ERR_ST_C2H_MASK),
    error_entry QDMA_ST_C2H_ERR_PORTID_CTXT_MISMATCH ''Port id in packet and pfetch ctxt mismatch error'' QDMA_OFFSET_C2H_ERR_MASK QDMA_OFFSET_C2H_ERR_STAT
     (ucast QDMA_C2H_ERR_PORTID_CTXT_MISMATCH_MASK) (ucast QDMA_GLBL_ERR_ST_C2H_MASK),
    error_entry QDMA_ST_C2H_ERR_PORTID_BYP_IN_MISMATCH ''Port id in packet and bypass interface mismatch error'' QDMA_OFFSET_C2H_ERR_MASK QDMA_OFFSET_C2H_ERR_STAT
     (ucast QDMA_C2H_ERR_PORTID_BYP_IN_MISMATCH_MASK) (ucast QDMA_GLBL_ERR_ST_C2H_MASK),
    error_entry QDMA_ST_C2H_ERR_CMPL_INV_Q_ERR ''Writeback on invalid queue error'' QDMA_OFFSET_C2H_ERR_MASK QDMA_OFFSET_C2H_ERR_STAT
     (ucast QDMA_C2H_ERR_CMPL_INV_Q_ERR_MASK) (ucast QDMA_GLBL_ERR_ST_C2H_MASK),
    error_entry QDMA_ST_C2H_ERR_CMPL_QFULL_ERR ''Completion queue gets full error'' QDMA_OFFSET_C2H_ERR_MASK QDMA_OFFSET_C2H_ERR_STAT
     (ucast QDMA_C2H_ERR_CMPL_QFULL_ERR_MASK) (ucast QDMA_GLBL_ERR_ST_C2H_MASK),
    error_entry QDMA_ST_C2H_ERR_CMPL_CIDX_ERR ''Bad CIDX update by the software error'' QDMA_OFFSET_C2H_ERR_MASK QDMA_OFFSET_C2H_ERR_STAT
     (ucast QDMA_C2H_ERR_CMPL_CIDX_ERR_MASK) (ucast QDMA_GLBL_ERR_ST_C2H_MASK),
    error_entry QDMA_ST_C2H_ERR_CMPL_PRTY_ERR ''C2H completion Parity error'' QDMA_OFFSET_C2H_ERR_MASK QDMA_OFFSET_C2H_ERR_STAT
     (ucast QDMA_C2H_ERR_CMPL_PRTY_ERR_MASK) (ucast QDMA_GLBL_ERR_ST_C2H_MASK),
    error_entry QDMA_ST_C2H_ERR_ALL ''All C2h errors'' QDMA_OFFSET_C2H_ERR_MASK QDMA_OFFSET_C2H_ERR_STAT
     (QDMA_C2H_ERR_ALL_MASK) (ucast QDMA_GLBL_ERR_ST_C2H_MASK)]"

definition st_fatal_errors :: "qdma_error_info list" where
  "st_fatal_errors = [
    error_entry QDMA_ST_FATAL_ERR_MTY_MISMATCH ''Fatal MTY mismatch error'' QDMA_OFFSET_C2H_FATAL_ERR_MASK QDMA_OFFSET_C2H_FATAL_ERR_STAT
     (ucast QDMA_C2H_FATAL_ERR_MTY_MISMATCH_MASK) (ucast QDMA_GLBL_ERR_ST_C2H_MASK),
    error_entry QDMA_ST_FATAL_ERR_LEN_MISMATCH ''Fatal Len mismatch error'' QDMA_OFFSET_C2H_FATAL_ERR_MASK QDMA_OFFSET_C2H_FATAL_ERR_STAT
     (ucast QDMA_C2H_FATAL_ERR_LEN_MISMATCH_MASK) (ucast QDMA_GLBL_ERR_ST_C2H_MASK),
    error_entry QDMA_ST_FATAL_ERR_QID_MISMATCH ''Fatal Qid mismatch error'' QDMA_OFFSET_C2H_FATAL_ERR_MASK QDMA_OFFSET_C2H_FATAL_ERR_STAT
     (ucast QDMA_C2H_FATAL_ERR_QID_MISMATCH_MASK) (ucast QDMA_GLBL_ERR_ST_C2H_MASK),
    error_entry QDMA_ST_FATAL_ERR_TIMER_FIFO_RAM_RDBE ''RAM double bit fatal error'' QDMA_OFFSET_C2H_FATAL_ERR_MASK QDMA_OFFSET_C2H_FATAL_ERR_STAT
     (ucast QDMA_C2H_FATAL_ERR_TIMER_FIFO_RAM_RDBE_MASK) (ucast QDMA_GLBL_ERR_ST_C2H_MASK),
    error_entry QDMA_ST_FATAL_ERR_PFCH_II_RAM_RDBE ''RAM double bit fatal error'' QDMA_OFFSET_C2H_FATAL_ERR_MASK QDMA_OFFSET_C2H_FATAL_ERR_STAT
     (ucast QDMA_C2H_FATAL_ERR_PFCH_II_RAM_RDBE_MASK) (ucast QDMA_GLBL_ERR_ST_C2H_MASK),
    error_entry QDMA_ST_FATAL_ERR_CMPL_CTXT_RAM_RDBE ''RAM double bit fatal error'' QDMA_OFFSET_C2H_FATAL_ERR_MASK QDMA_OFFSET_C2H_FATAL_ERR_STAT
     (ucast QDMA_C2H_FATAL_ERR_CMPL_CTXT_RAM_RDBE_MASK) (ucast QDMA_GLBL_ERR_ST_C2H_MASK),
    error_entry QDMA_ST_FATAL_ERR_PFCH_CTXT_RAM_RDBE ''RAM double bit fatal error'' QDMA_OFFSET_C2H_FATAL_ERR_MASK QDMA_OFFSET_C2H_FATAL_ERR_STAT
     (ucast QDMA_C2H_FATAL_ERR_PFCH_CTXT_RAM_RDBE_MASK) (ucast QDMA_GLBL_ERR_ST_C2H_MASK),
    error_entry QDMA_ST_FATAL_ERR_DESC_REQ_FIFO_RAM_RDBE ''RAM double bit fatal error'' QDMA_OFFSET_C2H_FATAL_ERR_MASK QDMA_OFFSET_C2H_FATAL_ERR_STAT
     (ucast QDMA_C2H_FATAL_ERR_DESC_REQ_FIFO_RAM_RDBE_MASK) (ucast QDMA_GLBL_ERR_ST_C2H_MASK),
    error_entry QDMA_ST_FATAL_ERR_INT_CTXT_RAM_RDBE ''RAM double bit fatal error'' QDMA_OFFSET_C2H_FATAL_ERR_MASK QDMA_OFFSET_C2H_FATAL_ERR_STAT
     (ucast QDMA_C2H_FATAL_ERR_INT_CTXT_RAM_RDBE_MASK) (ucast QDMA_GLBL_ERR_ST_C2H_MASK),
    error_entry QDMA_ST_FATAL_ERR_CMPL_COAL_DATA_RAM_RDBE ''RAM double bit fatal error'' QDMA_OFFSET_C2H_FATAL_ERR_MASK QDMA_OFFSET_C2H_FATAL_ERR_STAT
     (ucast QDMA_C2H_FATAL_ERR_CMPL_COAL_DATA_RAM_RDBE_MASK) (ucast QDMA_GLBL_ERR_ST_C2H_MASK),
    error_entry QDMA_ST_FATAL_ERR_TUSER_FIFO_RAM_RDBE ''RAM double bit fatal error'' QDMA_OFFSET_C2H_FATAL_ERR_MASK QDMA_OFFSET_C2H_FATAL_ERR_STAT
     (ucast QDMA_C2H_FATAL_ERR_TUSER_FIFO_RAM_RDBE_MASK) (ucast QDMA_GLBL_ERR_ST_C2H_MASK),
    error_entry QDMA_ST_FATAL_ERR_QID_FIFO_RAM_RDBE ''RAM double bit fatal error'' QDMA_OFFSET_C2H_FATAL_ERR_MASK QDMA_OFFSET_C2H_FATAL_ERR_STAT
     (ucast QDMA_C2H_FATAL_ERR_QID_FIFO_RAM_RDBE_MASK) (ucast QDMA_GLBL_ERR_ST_C2H_MASK),
    error_entry QDMA_ST_FATAL_ERR_PAYLOAD_FIFO_RAM_RDBE ''RAM double bit fatal error'' QDMA_OFFSET_C2H_FATAL_ERR_MASK QDMA_OFFSET_C2H_FATAL_ERR_STAT
     (ucast QDMA_C2H_FATAL_ERR_PAYLOAD_FIFO_RAM_RDBE_MASK) (ucast QDMA_GLBL_ERR_ST_C2H_MASK),
    error_entry QDMA_ST_FATAL_ERR_WPL_DATA_PAR ''RAM double bit fatal error'' QDMA_OFFSET_C2H_FATAL_ERR_MASK QDMA_OFFSET_C2H_FATAL_ERR_STAT
     (ucast QDMA_C2H_FATAL_ERR_WPL_DATA_PAR_MASK) (ucast QDMA_GLBL_ERR_ST_C2H_MASK),
    error_entry QDMA_ST_FATAL_ERR_ALL ''All fatal errors'' QDMA_OFFSET_C2H_FATAL_ERR_MASK QDMA_OFFSET_C2H_FATAL_ERR_STAT
     (QDMA_C2H_FATAL_ERR_ALL_MASK) (ucast QDMA_GLBL_ERR_ST_C2H_MASK)]"

definition st_h2c_errors :: "qdma_error_info list" where
  "st_h2c_errors = [
    error_entry QDMA_ST_H2C_ERR_ZERO_LEN_DESC ''Zero length descriptor error'' QDMA_OFFSET_H2C_ERR_MASK QDMA_OFFSET_H2C_ERR_STAT
     (ucast QDMA_H2C_ERR_ZERO_LEN_DESC_MASK) (ucast QDMA_GLBL_ERR_ST_H2C_MASK),
    error_entry QDMA_ST_H2C_ERR_CSI_MOP ''Non EOP descriptor received error'' QDMA_OFFSET_H2C_ERR_MASK QDMA_OFFSET_H2C_ERR_STAT
     (ucast QDMA_H2C_ERR_CSI_MOP_MASK) (ucast QDMA_GLBL_ERR_ST_H2C_MASK),
    error_entry QDMA_ST_H2C_ERR_NO_DMA_DSC ''No DMA descriptor received error'' QDMA_OFFSET_H2C_ERR_MASK QDMA_OFFSET_H2C_ERR_STAT
     (ucast QDMA_H2C_ERR_NO_DMA_DSC_MASK) (ucast QDMA_GLBL_ERR_ST_H2C_MASK),
    error_entry QDMA_ST_H2C_ERR_SBE ''Single bit error detected on H2C-ST data error'' QDMA_OFFSET_H2C_ERR_MASK QDMA_OFFSET_H2C_ERR_STAT
     (ucast QDMA_H2C_ERR_SBE_MASK) (ucast QDMA_GLBL_ERR_ST_H2C_MASK),
    error_entry QDMA_ST_H2C_ERR_DBE ''Double bit error detected on H2C-ST data error'' QDMA_OFFSET_H2C_ERR_MASK QDMA_OFFSET_H2C_ERR_STAT
     (ucast QDMA_H2C_ERR_DBE_MASK) (ucast QDMA_GLBL_ERR_ST_H2C_MASK),
    error_entry QDMA_ST_H2C_ERR_ALL ''All H2C errors'' QDMA_OFFSET_H2C_ERR_MASK QDMA_OFFSET_H2C_ERR_STAT
     (QDMA_H2C_ERR_ALL_MASK) (ucast QDMA_GLBL_ERR_ST_H2C_MASK)]"

definition sbe_errors_lo :: "qdma_error_info list" where
  "sbe_errors_lo = [
    error_entry QDMA_SBE_ERR_MI_H2C0_DAT ''H2C MM data buffer single bit ECC error'' QDMA_OFFSET_RAM_SBE_MASK QDMA_OFFSET_RAM_SBE_STAT
     (ucast QDMA_SBE_ERR_MI_H2C0_DAT_MASK) (ucast QDMA_GLBL_ERR_RAM_SBE_MASK),
    error_entry QDMA_SBE_ERR_MI_C2H0_DAT ''C2H MM data buffer single bit ECC error'' QDMA_OFFSET_RAM_SBE_MASK QDMA_OFFSET_RAM_SBE_STAT
     (ucast QDMA_SBE_ERR_MI_C2H0_DAT_MASK) (ucast QDMA_GLBL_ERR_RAM_SBE_MASK),
    error_entry QDMA_SBE_ERR_H2C_RD_BRG_DAT ''Bridge master read single bit ECC error'' QDMA_OFFSET_RAM_SBE_MASK QDMA_OFFSET_RAM_SBE_STAT
     (ucast QDMA_SBE_ERR_H2C_RD_BRG_DAT_MASK) (ucast QDMA_GLBL_ERR_RAM_SBE_MASK),
    error_entry QDMA_SBE_ERR_H2C_WR_BRG_DAT ''Bridge master write single bit ECC error'' QDMA_OFFSET_RAM_SBE_MASK QDMA_OFFSET_RAM_SBE_STAT
     (ucast QDMA_SBE_ERR_H2C_WR_BRG_DAT_MASK) (ucast QDMA_GLBL_ERR_RAM_SBE_MASK),
    error_entry QDMA_SBE_ERR_C2H_RD_BRG_DAT ''Bridge slave read data buffer single bit ECC error'' QDMA_OFFSET_RAM_SBE_MASK QDMA_OFFSET_RAM_SBE_STAT
     (ucast QDMA_SBE_ERR_C2H_RD_BRG_DAT_MASK) (ucast QDMA_GLBL_ERR_RAM_SBE_MASK),
    error_entry QDMA_SBE_ERR_C2H_WR_BRG_DAT ''Bridge slave write data buffer single bit ECC error'' QDMA_OFFSET_RAM_SBE_MASK QDMA_OFFSET_RAM_SBE_STAT
     (ucast QDMA_SBE_ERR_C2H_WR_BRG_DAT_MASK) (ucast QDMA_GLBL_ERR_RAM_SBE_MASK),
    error_entry QDMA_SBE_ERR_FUNC_MAP ''Function map RAM single bit ECC error'' QDMA_OFFSET_RAM_SBE_MASK QDMA_OFFSET_RAM_SBE_STAT
     (ucast QDMA_SBE_ERR_FUNC_MAP_MASK) (ucast QDMA_GLBL_ERR_RAM_SBE_MASK),
    error_entry QDMA_SBE_ERR_DSC_HW_CTXT ''Descriptor engine hardware context RAM single bit ECC error'' QDMA_OFFSET_RAM_SBE_MASK QDMA_OFFSET_RAM_SBE_STAT
     (ucast QDMA_SBE_ERR_DSC_HW_CTXT_MASK) (ucast QDMA_GLBL_ERR_RAM_SBE_MASK),
    error_entry QDMA_SBE_ERR_DSC_CRD_RCV ''Descriptor engine receive credit context RAM single bit ECC error'' QDMA_OFFSET_RAM_SBE_MASK QDMA_OFFSET_RAM_SBE_STAT
     (ucast QDMA_SBE_ERR_DSC_CRD_RCV_MASK) (ucast QDMA_GLBL_ERR_RAM_SBE_MASK),
    error_entry QDMA_SBE_ERR_DSC_SW_CTXT ''Descriptor engine software context RAM single bit ECC error'' QDMA_OFFSET_RAM_SBE_MASK QDMA_OFFSET_RAM_SBE_STAT
     (ucast QDMA_SBE_ERR_DSC_SW_CTXT_MASK) (ucast QDMA_GLBL_ERR_RAM_SBE_MASK),
    error_entry QDMA_SBE_ERR_DSC_CPLI ''Descriptor engine fetch completion information RAM single bit ECC error'' QDMA_OFFSET_RAM_SBE_MASK QDMA_OFFSET_RAM_SBE_STAT
     (ucast QDMA_SBE_ERR_DSC_CPLI_MASK) (ucast QDMA_GLBL_ERR_RAM_SBE_MASK),
    error_entry QDMA_SBE_ERR_DSC_CPLD ''Descriptor engine fetch completion data RAM single bit ECC error'' QDMA_OFFSET_RAM_SBE_MASK QDMA_OFFSET_RAM_SBE_STAT
     (ucast QDMA_SBE_ERR_DSC_CPLD_MASK) (ucast QDMA_GLBL_ERR_RAM_SBE_MASK),
    error_entry QDMA_SBE_ERR_PASID_CTXT_RAM ''PASID configuration RAM single bit ECC error'' QDMA_OFFSET_RAM_SBE_MASK QDMA_OFFSET_RAM_SBE_STAT
     (ucast QDMA_SBE_ERR_PASID_CTXT_RAM_MASK) (ucast QDMA_GLBL_ERR_RAM_SBE_MASK)]"

definition sbe_errors_hi :: "qdma_error_info list" where
  "sbe_errors_hi = [
    error_entry QDMA_SBE_ERR_TIMER_FIFO_RAM ''Timer fifo RAM single bit ECC error'' QDMA_OFFSET_RAM_SBE_MASK QDMA_OFFSET_RAM_SBE_STAT
     (ucast QDMA_SBE_ERR_TIMER_FIFO_RAM_MASK) (ucast QDMA_GLBL_ERR_RAM_SBE_MASK),
    error_entry QDMA_SBE_ERR_PAYLOAD_FIFO_RAM ''C2H ST payload RAM single bit ECC error'' QDMA_OFFSET_RAM_SBE_MASK QDMA_OFFSET_RAM_SBE_STAT
     (ucast QDMA_SBE_ERR_PAYLOAD_FIFO_RAM_MASK) (ucast QDMA_GLBL_ERR_RAM_SBE_MASK),
    error_entry QDMA_SBE_ERR_QID_FIFO_RAM ''C2H ST QID FIFO RAM single bit ECC error'' QDMA_OFFSET_RAM_SBE_MASK QDMA_OFFSET_RAM_SBE_STAT
     (ucast QDMA_SBE_ERR_QID_FIFO_RAM_MASK) (ucast QDMA_GLBL_ERR_RAM_SBE_MASK),
    error_entry QDMA_SBE_ERR_TUSER_FIFO_RAM ''C2H ST TUSER RAM single bit ECC error'' QDMA_OFFSET_RAM_SBE_MASK QDMA_OFFSET_RAM_SBE_STAT
     (ucast QDMA_SBE_ERR_TUSER_FIFO_RAM_MASK) (ucast QDMA_GLBL_ERR_RAM_SBE_MASK),
    error_entry QDMA_SBE_ERR_WB_COAL_DATA_RAM ''Completion Coalescing RAM single bit ECC error'' QDMA_OFFSET_RAM_SBE_MASK QDMA_OFFSET_RAM_SBE_STAT
     (ucast QDMA_SBE_ERR_WB_COAL_DATA_RAM_MASK) (ucast QDMA_GLBL_ERR_RAM_SBE_MASK),
    error_entry QDMA_SBE_ERR_INT_QID2VEC_RAM ''Interrupt QID2VEC RAM single bit ECC error'' QDMA_OFFSET_RAM_SBE_MASK QDMA_OFFSET_RAM_SBE_STAT
     (ucast QDMA_SBE_ERR_INT_QID2VEC_RAM_MASK) (ucast QDMA_GLBL_ERR_RAM_SBE_MASK),
    error_entry QDMA_SBE_ERR_INT_CTXT_RAM ''Interrupt context RAM single bit ECC error'' QDMA_OFFSET_RAM_SBE_MASK QDMA_OFFSET_RAM_SBE_STAT
     (ucast QDMA_SBE_ERR_INT_CTXT_RAM_MASK) (ucast QDMA_GLBL_ERR_RAM_SBE_MASK),
    error_entry QDMA_SBE_ERR_DESC_REQ_FIFO_RAM ''C2H ST descriptor request RAM single bit ECC error'' QDMA_OFFSET_RAM_SBE_MASK QDMA_OFFSET_RAM_SBE_STAT
     (ucast QDMA_SBE_ERR_DESC_REQ_FIFO_RAM_MASK) (ucast QDMA_GLBL_ERR_RAM_SBE_MASK),
    error_entry QDMA_SBE_ERR_PFCH_CTXT_RAM ''C2H ST prefetch RAM single bit ECC error'' QDMA_OFFSET_RAM_SBE_MASK QDMA_OFFSET_RAM_SBE_STAT
     (ucast QDMA_SBE_ERR_PFCH_CTXT_RAM_MASK) (ucast QDMA_GLBL_ERR_RAM_SBE_MASK),
    error_entry QDMA_SBE_ERR_WB_CTXT_RAM ''C2H ST completion context RAM single bit ECC error'' QDMA_OFFSET_RAM_SBE_MASK QDMA_OFFSET_RAM_SBE_STAT
     (ucast QDMA_SBE_ERR_WB_CTXT_RAM_MASK) (ucast QDMA_GLBL_ERR_RAM_SBE_MASK),
    error_entry QDMA_SBE_ERR_PFCH_LL_RAM ''C2H ST prefetch list RAM single bit ECC error'' QDMA_OFFSET_RAM_SBE_MASK QDMA_OFFSET_RAM_SBE_STAT
     (ucast QDMA_SBE_ERR_PFCH_LL_RAM_MASK) (ucast QDMA_GLBL_ERR_RAM_SBE_MASK),
    error_entry QDMA_SBE_ERR_H2C_PEND_FIFO ''H2C ST pending fifo RAM single bit ECC error'' QDMA_OFFSET_RAM_SBE_MASK QDMA_OFFSET_RAM_SBE_STAT
     (ucast QDMA_SBE_ERR_H2C_PEND_FIFO_MASK) (ucast QDMA_GLBL_ERR_RAM_SBE_MASK),
    error_entry QDMA_SBE_ERR_ALL ''All SBE errors'' QDMA_OFFSET_RAM_SBE_MASK QDMA_OFFSET_RAM_SBE_STAT
     (QDMA_SBE_ERR_ALL_MASK) (ucast QDMA_GLBL_ERR_RAM_SBE_MASK)]"

definition dbe_errors_lo :: "qdma_error_info list" where
  "dbe_errors_lo = [
    error_entry QDMA_DBE_ERR_MI_H2C0_DAT ''H2C MM data buffer double bit ECC error'' QDMA_OFFSET_RAM_DBE_MASK QDMA_OFFSET_RAM_DBE_STAT
     (ucast QDMA_DBE_ERR_MI_H2C0_DAT_MASK) (ucast QDMA_GLBL_ERR_RAM_DBE_MASK),
    error_entry QDMA_DBE_ERR_MI_C2H0_DAT ''C2H MM data buffer double bit ECC error'' QDMA_OFFSET_RAM_DBE_MASK QDMA_OFFSET_RAM_DBE_STAT
     (ucast QDMA_DBE_ERR_MI_C2H0_DAT_MASK) (ucast QDMA_GLBL_ERR_RAM_DBE_MASK),
    error_entry QDMA_DBE_ERR_H2C_RD_BRG_DAT ''Bridge master read double bit ECC error'' QDMA_OFFSET_RAM_DBE_MASK QDMA_OFFSET_RAM_DBE_STAT
     (ucast QDMA_DBE_ERR_H2C_RD_BRG_DAT_MASK) (ucast QDMA_GLBL_ERR_RAM_DBE_MASK),
    error_entry QDMA_DBE_ERR_H2C_WR_BRG_DAT ''Bridge master write double bit ECC error'' QDMA_OFFSET_RAM_DBE_MASK QDMA_OFFSET_RAM_DBE_STAT
     (ucast QDMA_DBE_ERR_H2C_WR_BRG_DAT_MASK) (ucast QDMA_GLBL_ERR_RAM_DBE_MASK),
    error_entry QDMA_DBE_ERR_C2H_RD_BRG_DAT ''Bridge slave read data buffer double bit ECC error'' QDMA_OFFSET_RAM_DBE_MASK QDMA_OFFSET_RAM_DBE_STAT
     (ucast QDMA_DBE_ERR_C2H_RD_BRG_DAT_MASK) (ucast QDMA_GLBL_ERR_RAM_DBE_MASK),
    error_entry QDMA_DBE_ERR_C2H_WR_BRG_DAT ''Bridge slave write data buffer double bit ECC error'' QDMA_OFFSET_RAM_DBE_MASK QDMA_OFFSET_RAM_DBE_STAT
     (ucast QDMA_DBE_ERR_C2H_WR_BRG_DAT_MASK) (ucast QDMA_GLBL_ERR_RAM_DBE_MASK),
    error_entry QDMA_DBE_ERR_FUNC_MAP ''Function map RAM double bit ECC error'' QDMA_OFFSET_RAM_DBE_MASK QDMA_OFFSET_RAM_DBE_STAT
     (ucast QDMA_DBE_ERR_FUNC_MAP_MASK) (ucast QDMA_GLBL_ERR_RAM_DBE_MASK),
    error_entry QDMA_DBE_ERR_DSC_HW_CTXT ''Descriptor engine hardware context RAM double bit ECC error'' QDMA_OFFSET_RAM_DBE_MASK QDMA_OFFSET_RAM_DBE_STAT
     (ucast QDMA_DBE_ERR_DSC_HW_CTXT_MASK) (ucast QDMA_GLBL_ERR_RAM_DBE_MASK),
    error_entry QDMA_DBE_ERR_DSC_CRD_RCV ''Descriptor engine receive credit context RAM double bit ECC error'' QDMA_OFFSET_RAM_DBE_MASK QDMA_OFFSET_RAM_DBE_STAT
     (ucast QDMA_DBE_ERR_DSC_CRD_RCV_MASK) (ucast QDMA_GLBL_ERR_RAM_DBE_MASK),
    error_entry QDMA_DBE_ERR_DSC_SW_CTXT ''Descriptor engine software context RAM double bit ECC error'' QDMA_OFFSET_RAM_DBE_MASK QDMA_OFFSET_RAM_DBE_STAT
     (ucast QDMA_DBE_ERR_DSC_SW_CTXT_MASK) (ucast QDMA_GLBL_ERR_RAM_DBE_MASK),
    error_entry QDMA_DBE_ERR_DSC_CPLI ''Descriptor engine fetch completion information RAM double bit ECC error'' QDMA_OFFSET_RAM_DBE_MASK QDMA_OFFSET_RAM_DBE_STAT
     (ucast QDMA_DBE_ERR_DSC_CPLI_MASK) (ucast QDMA_GLBL_ERR_RAM_DBE_MASK),
    error_entry QDMA_DBE_ERR_DSC_CPLD ''Descriptor engine fetch completion data RAM double bit ECC error'' QDMA_OFFSET_RAM_DBE_MASK QDMA_OFFSET_RAM_DBE_STAT
     (ucast QDMA_DBE_ERR_DSC_CPLD_MASK) (ucast QDMA_GLBL_ERR_RAM_DBE_MASK),
    error_entry QDMA_DBE_ERR_PASID_CTXT_RAM ''PASID configuration RAM double bit ECC error'' QDMA_OFFSET_RAM_DBE_MASK QDMA_OFFSET_RAM_DBE_STAT
     (ucast QDMA_DBE_ERR_PASID_CTXT_RAM_MASK) (ucast QDMA_GLBL_ERR_RAM_DBE_MASK)]"

definition dbe_errors_hi :: "qdma_error_info list" where
  "dbe_errors_hi = [
    error_entry QDMA_DBE_ERR_TIMER_FIFO_RAM ''Timer fifo RAM double bit ECC error'' QDMA_OFFSET_RAM_DBE_MASK QDMA_OFFSET_RAM_DBE_STAT
     (ucast QDMA_DBE_ERR_TIMER_FIFO_RAM_MASK) (ucast QDMA_GLBL_ERR_RAM_DBE_MASK),
    error_entry QDMA_DBE_ERR_PAYLOAD_FIFO_RAM ''C2H ST payload RAM double bit ECC error'' QDMA_OFFSET_RAM_DBE_MASK QDMA_OFFSET_RAM_DBE_STAT
     (ucast QDMA_DBE_ERR_PAYLOAD_FIFO_RAM_MASK) (ucast QDMA_GLBL_ERR_RAM_DBE_MASK),
    error_entry QDMA_DBE_ERR_QID_FIFO_RAM ''C2H ST QID FIFO RAM double bit ECC error'' QDMA_OFFSET_RAM_DBE_MASK QDMA_OFFSET_RAM_DBE_STAT
     (ucast QDMA_DBE_ERR_QID_FIFO_RAM_MASK) (ucast QDMA_GLBL_ERR_RAM_DBE_MASK),
    error_entry QDMA_DBE_ERR_TUSER_FIFO_RAM ''C2H ST TUSER RAM double bit ECC error'' QDMA_OFFSET_RAM_DBE_MASK QDMA_OFFSET_RAM_DBE_STAT
     (ucast QDMA_DBE_ERR_TUSER_FIFO_RAM_MASK) (ucast QDMA_GLBL_ERR_RAM_DBE_MASK),
    error_entry QDMA_DBE_ERR_WB_COAL_DATA_RAM ''Completion Coalescing RAM double bit ECC error'' QDMA_OFFSET_RAM_DBE_MASK QDMA_OFFSET_RAM_DBE_STAT
     (ucast QDMA_DBE_ERR_WB_COAL_DATA_RAM_MASK) (ucast QDMA_GLBL_ERR_RAM_DBE_MASK),
    error_entry QDMA_DBE_ERR_INT_QID2VEC_RAM ''Interrupt QID2VEC RAM double bit ECC error'' QDMA_OFFSET_RAM_DBE_MASK QDMA_OFFSET_RAM_DBE_STAT
     (ucast QDMA_DBE_ERR_INT_QID2VEC_RAM_MASK) (ucast QDMA_GLBL_ERR_RAM_DBE_MASK),
    error_entry QDMA_DBE_ERR_INT_CTXT_RAM ''Interrupt context RAM double bit ECC error'' QDMA_OFFSET_RAM_DBE_MASK QDMA_OFFSET_RAM_DBE_STAT
     (ucast QDMA_DBE_ERR_INT_CTXT_RAM_MASK) (ucast QDMA_GLBL_ERR_RAM_DBE_MASK),
    error_entry QDMA_DBE_ERR_DESC_REQ_FIFO_RAM ''C2H ST descriptor request RAM double bit ECC error'' QDMA_OFFSET_RAM_DBE_MASK QDMA_OFFSET_RAM_DBE_STAT
     (ucast QDMA_DBE_ERR_DESC_REQ_FIFO_RAM_MASK) (ucast QDMA_GLBL_ERR_RAM_DBE_MASK),
    error_entry QDMA_DBE_ERR_PFCH_CTXT_RAM ''C2H ST prefetch RAM double bit ECC error'' QDMA_OFFSET_RAM_DBE_MASK QDMA_OFFSET_RAM_DBE_STAT
     (ucast QDMA_DBE_ERR_PFCH_CTXT_RAM_MASK) (ucast QDMA_GLBL_ERR_RAM_DBE_MASK),
    error_entry QDMA_DBE_ERR_WB_CTXT_RAM ''C2H ST completion context RAM double bit ECC error'' QDMA_OFFSET_RAM_DBE_MASK QDMA_OFFSET_RAM_DBE_STAT
     (ucast QDMA_DBE_ERR_WB_CTXT_RAM_MASK) (ucast QDMA_GLBL_ERR_RAM_DBE_MASK),
    error_entry QDMA_DBE_ERR_PFCH_LL_RAM ''C2H ST prefetch list RAM double bit ECC error'' QDMA_OFFSET_RAM_DBE_MASK QDMA_OFFSET_RAM_DBE_STAT
     (ucast QDMA_DBE_ERR_PFCH_LL_RAM_MASK) (ucast QDMA_GLBL_ERR_RAM_DBE_MASK),
    error_entry QDMA_DBE_ERR_H2C_PEND_FIFO ''H2C pending fifo RAM double bit ECC error'' QDMA_OFFSET_RAM_DBE_MASK QDMA_OFFSET_RAM_DBE_STAT
     (ucast QDMA_DBE_ERR_H2C_PEND_FIFO_MASK) (ucast QDMA_GLBL_ERR_RAM_DBE_MASK),
    error_entry QDMA_DBE_ERR_ALL ''All DBE errors'' QDMA_OFFSET_RAM_DBE_MASK QDMA_OFFSET_RAM_DBE_STAT
     (QDMA_DBE_ERR_ALL_MASK) (ucast QDMA_GLBL_ERR_RAM_DBE_MASK)]"

definition qdma_error_info_table :: "qdma_error_info list" where
  "qdma_error_info_table =
     dsc_errors @ trq_errors @ st_c2h_errors @ st_fatal_errors @ st_h2c_errors @ sbe_errors_lo @ sbe_errors_hi @ dbe_errors_lo @ dbe_errors_hi"

definition leaf_error_aggregators :: "nat list" where
  "leaf_error_aggregators = [QDMA_DSC_ERR_ALL, QDMA_TRQ_ERR_ALL, QDMA_ST_C2H_ERR_ALL, QDMA_ST_FATAL_ERR_ALL, QDMA_ST_H2C_ERR_ALL, QDMA_SBE_ERR_ALL, QDMA_DBE_ERR_ALL]"

text \<open>The leaf bits a register group defines: every entry of the table with the registers of
  \<open>a\<close>, the summary entry aside.\<close>

definition leaf_bits :: "qdma_error_info \<Rightarrow> u32" where
  "leaf_bits a = fold (OR) (map err_leaf_err_mask
     (filter (\<lambda>e. err_mask_reg_addr e = err_mask_reg_addr a \<and> err_idx e \<noteq> err_idx a) qdma_error_info_table)) 0"

section \<open>The table is consistent\<close>

lemmas error_sections = dsc_errors_def trq_errors_def st_c2h_errors_def st_fatal_errors_def
  st_h2c_errors_def sbe_errors_lo_def sbe_errors_hi_def dbe_errors_lo_def dbe_errors_hi_def

lemma map_err_idx: "map err_idx qdma_error_info_table = [0..<107]"
  by (simp add: qdma_error_info_table_def error_sections upt_rec)

lemma length_error_table [simp]: "length qdma_error_info_table = 107"
  using map_err_idx by (metis length_map length_upt diff_zero)

definition summary_entries :: "qdma_error_info list" where
  "summary_entries = [last dsc_errors, last trq_errors, last st_c2h_errors, last st_fatal_errors,
     last st_h2c_errors, last sbe_errors_hi, last dbe_errors_hi]"

lemma aggregator_entries: "map ((!) qdma_error_info_table) leaf_error_aggregators = summary_entries"
  by (simp add: summary_entries_def leaf_error_aggregators_def qdma_error_info_table_def error_sections)

text \<open>The columns of the table that matter for the registers.\<close>

definition columns :: "qdma_error_info \<Rightarrow> u32 \<times> nat \<times> u32" where
  "columns e = (err_mask_reg_addr e, err_idx e, err_leaf_err_mask e)"

definition leaf_bits_of :: "(u32 \<times> nat \<times> u32) list \<Rightarrow> u32 \<times> nat \<times> u32 \<Rightarrow> u32" where
  "leaf_bits_of cs = (\<lambda>(r, i, _). fold (OR) (map (snd \<circ> snd) (filter (\<lambda>(r', i', _). r' = r \<and> i' \<noteq> i) cs)) 0)"

lemma leaf_bits_columns: "leaf_bits a = leaf_bits_of (map columns qdma_error_info_table) (columns a)"
  by (simp add: leaf_bits_def leaf_bits_of_def columns_def filter_map comp_def)

lemma ucast_BIT: "n < 32 \<Longrightarrow> ucast (GENMASK n n) = (2 ^ n :: u32)"
  by (rule bit_eqI) (auto simp: bit_simps)

lemma summary_columns:
  "map columns summary_entries =
     [(0x258, 14, 0x1F9023F), (0x268, 19, 0xF), (0xAF4, 33, 0xFEDB), (0xAFC, 48, 0x7DF1B), (0xE04, 54, 0x1F),
      (0xF0, 80, 0xFFFFFF11), (0xF8, 106, 0xFFFFFF11)]"
  by (simp add: summary_entries_def error_sections columns_def)


lemma section_columns:
  "map columns dsc_errors = [
     (0x258, 0, 0x1), (0x258, 1, 0x2), (0x258, 2, 0x4), (0x258, 3, 0x8), (0x258, 4, 0x10),
     (0x258, 5, 0x20), (0x258, 6, 0x200), (0x258, 7, 0x10000), (0x258, 8, 0x80000),
     (0x258, 9, 0x100000), (0x258, 10, 0x200000), (0x258, 11, 0x400000), (0x258, 12, 0x800000),
     (0x258, 13, 0x1000000), (0x258, 14, 0x1F9023F)]"
  "map columns trq_errors = [
     (0x268, 15, 0x1), (0x268, 16, 0x2), (0x268, 17, 0x4), (0x268, 18, 0x8), (0x268, 19, 0xF)]"
  "map columns st_c2h_errors = [
     (0xAF4, 20, 0x1), (0xAF4, 21, 0x2), (0xAF4, 22, 0x8), (0xAF4, 23, 0x10), (0xAF4, 24, 0x40),
     (0xAF4, 25, 0x80), (0xAF4, 26, 0x200), (0xAF4, 27, 0x400), (0xAF4, 28, 0x800),
     (0xAF4, 29, 0x1000), (0xAF4, 30, 0x2000), (0xAF4, 31, 0x4000), (0xAF4, 32, 0x8000),
     (0xAF4, 33, 0xFEDB)]"
  "map columns st_fatal_errors = [
     (0xAFC, 34, 0x1), (0xAFC, 35, 0x2), (0xAFC, 36, 0x8), (0xAFC, 37, 0x10), (0xAFC, 38, 0x100),
     (0xAFC, 39, 0x200), (0xAFC, 40, 0x400), (0xAFC, 41, 0x800), (0xAFC, 42, 0x1000),
     (0xAFC, 43, 0x4000), (0xAFC, 44, 0x8000), (0xAFC, 45, 0x10000), (0xAFC, 46, 0x20000),
     (0xAFC, 47, 0x40000), (0xAFC, 48, 0x7DF1B)]"
  "map columns st_h2c_errors = [
     (0xE04, 49, 0x1), (0xE04, 50, 0x2), (0xE04, 51, 0x4), (0xE04, 52, 0x8), (0xE04, 53, 0x10),
     (0xE04, 54, 0x1F)]"
  "map columns sbe_errors_lo = [
     (0xF0, 55, 0x1), (0xF0, 56, 0x10), (0xF0, 57, 0x200), (0xF0, 58, 0x400), (0xF0, 59, 0x800),
     (0xF0, 60, 0x1000), (0xF0, 61, 0x2000), (0xF0, 62, 0x4000), (0xF0, 63, 0x8000),
     (0xF0, 64, 0x10000), (0xF0, 65, 0x20000), (0xF0, 66, 0x40000), (0xF0, 67, 0x80000)]"
  "map columns sbe_errors_hi = [
     (0xF0, 68, 0x100000), (0xF0, 69, 0x200000), (0xF0, 70, 0x400000), (0xF0, 71, 0x800000),
     (0xF0, 72, 0x1000000), (0xF0, 73, 0x2000000), (0xF0, 74, 0x4000000), (0xF0, 75, 0x8000000),
     (0xF0, 76, 0x10000000), (0xF0, 77, 0x20000000), (0xF0, 78, 0x40000000),
     (0xF0, 79, 0x80000000), (0xF0, 80, 0xFFFFFF11)]"
  "map columns dbe_errors_lo = [
     (0xF8, 81, 0x1), (0xF8, 82, 0x10), (0xF8, 83, 0x200), (0xF8, 84, 0x400), (0xF8, 85, 0x800),
     (0xF8, 86, 0x1000), (0xF8, 87, 0x2000), (0xF8, 88, 0x4000), (0xF8, 89, 0x8000),
     (0xF8, 90, 0x10000), (0xF8, 91, 0x20000), (0xF8, 92, 0x40000), (0xF8, 93, 0x80000)]"
  "map columns dbe_errors_hi = [
     (0xF8, 94, 0x100000), (0xF8, 95, 0x200000), (0xF8, 96, 0x400000), (0xF8, 97, 0x800000),
     (0xF8, 98, 0x1000000), (0xF8, 99, 0x2000000), (0xF8, 100, 0x4000000),
     (0xF8, 101, 0x8000000), (0xF8, 102, 0x10000000), (0xF8, 103, 0x20000000),
     (0xF8, 104, 0x40000000), (0xF8, 105, 0x80000000), (0xF8, 106, 0xFFFFFF11)]"
  by (simp_all add: error_sections columns_def ucast_BIT)

lemma table_columns: "map columns qdma_error_info_table =
   map columns dsc_errors @ map columns trq_errors @ map columns st_c2h_errors @
   map columns st_fatal_errors @ map columns st_h2c_errors @ map columns sbe_errors_lo @
   map columns sbe_errors_hi @ map columns dbe_errors_lo @ map columns dbe_errors_hi"
  by (simp add: qdma_error_info_table_def)

lemma summary_leaf_bits:
  "map leaf_bits summary_entries =
     [0x1F9023F, 0xF, 0xFEDB, 0x7DF1B, 0x1F, 0xFFFFFE11, 0xFFFFFE11]"
proof -
  have "map leaf_bits summary_entries =
    map (leaf_bits_of (map columns qdma_error_info_table)) (map columns summary_entries)"
    by (simp add: leaf_bits_columns)
  also have "\<dots> = [0x1F9023F, 0xF, 0xFEDB, 0x7DF1B, 0x1F, 0xFFFFFE11, 0xFFFFFE11]"
    unfolding summary_columns table_columns section_columns by (simp add: leaf_bits_of_def)
  finally show ?thesis .
qed

lemma summary_mask_column: "map err_leaf_err_mask summary_entries =
  [0x1F9023F, 0xF, 0xFEDB, 0x7DF1B, 0x1F, 0xFFFFFF11, 0xFFFFFF11]"
proof -
  have "map err_leaf_err_mask summary_entries = map (snd \<circ> snd) (map columns summary_entries)"
    by (simp add: columns_def)
  then show ?thesis unfolding summary_columns by simp
qed

text \<open>C24. The error table is consistent: entry \<open>i\<close> describes error \<open>i\<close>, and the mask of every summary
  entry the driver programs is the union of the bits its leaf entries define, except that both
  ECC masks also unmask bit 8, which no entry describes.\<close>
theorem error_table_consistent:
  "map err_idx qdma_error_info_table = [0..<107] \<and>
   (let summaries = map ((!) qdma_error_info_table) leaf_error_aggregators
    in map err_leaf_err_mask summaries = map2 (OR) (map leaf_bits summaries) [0, 0, 0, 0, 0, 0x100, 0x100])"
  unfolding aggregator_entries Let_def summary_leaf_bits summary_mask_column
  by (simp add: map_err_idx)

end
