(* ===== verification/Qdma_Device.thy ===== *)
theory Qdma_Device
  imports Regs
begin

text \<open>
  \<^verbatim>\<open>qdma_device.c\<close>, \<^verbatim>\<open>qdma_device.h\<close> and the register accessors of \<^verbatim>\<open>qdma_register.h\<close>: the QDMA
  device object, its creation and destruction. The C object is allocated by kzalloc; the record
  carries its own address, which \<^verbatim>\<open>kfree\<close> takes back.
\<close>

record qdma_dev =
  qdev_self :: ptr
  qdev_func_id :: u16
  qdev_q_base :: u16
  qdev_num_queues :: u16
  qdev_addr :: ptr

definition qdma_read_reg :: "qdma_dev \<Rightarrow> u32 \<Rightarrow> ('z, u32) drv" where
  "qdma_read_reg qdev offset = do {
     r \<leftarrow> perform (Io (Ioread32 (qdev_addr qdev) offset));
     ret (of_int r) }"

definition qdma_write_reg :: "qdma_dev \<Rightarrow> u32 \<Rightarrow> u32 \<Rightarrow> ('z, unit) drv" where
  "qdma_write_reg qdev offset val = invoke (Io (Iowrite32 val (qdev_addr qdev) offset))"

text \<open>\<open>devfn\<close> is \<^verbatim>\<open>pdev->devfn\<close>; \<^verbatim>\<open>PCI_FUNC\<close> takes its three low bits.\<close>

definition PCI_FUNC :: "u32 \<Rightarrow> u16" where
  "PCI_FUNC devfn = ucast (devfn AND 0x07)"

definition qdma_create_dev :: "u32 \<Rightarrow> u8 \<Rightarrow> ('z, qdma_dev option) drv" where
  "qdma_create_dev devfn bar =
     (if bar > 6 then ret None
      else do {
        p \<leftarrow> perform (Mem (Kzalloc Obj_qdma_dev));
        let qdev = of_int p;
        if qdev = (0 :: ptr) then ret None
        else do {
          n \<leftarrow> perform (Pci (Pci_resource_len (unat bar)));
          m \<leftarrow> perform (Pci (Pci_iomap (unat bar) (nat n)));
          let addr = of_int m;
          if addr = (0 :: ptr) then do {
            invoke (Mem (Kfree qdev));
            ret None }
          else ret (Some \<lparr>qdev_self = qdev, qdev_func_id = PCI_FUNC devfn, qdev_q_base = 0,
                          qdev_num_queues = 0, qdev_addr = addr\<rparr>) } })"

definition qdma_destroy_dev :: "qdma_dev option \<Rightarrow> ('z, unit) drv" where
  "qdma_destroy_dev qd =
     (case qd of None \<Rightarrow> ret ()
      | Some qdev \<Rightarrow> do {
          invoke (Pci (Pci_iounmap (qdev_addr qdev)));
          invoke (Mem (Kfree (qdev_self qdev))) })"

lemma run_qdma_read_reg [run_simps]:
  "run_state (qdma_read_reg qdev off) s =
     (of_int (ext s (trace s) (Io (Ioread32 (qdev_addr qdev) off))),
      s\<lparr>trace := trace s @ [(Io (Ioread32 (qdev_addr qdev) off),
         ext s (trace s) (Io (Ioread32 (qdev_addr qdev) off)))]\<rparr>)"
  by (simp add: qdma_read_reg_def run_simps)

lemma run_qdma_write_reg [run_simps]:
  "run_state (qdma_write_reg qdev off val) s =
     ((), s\<lparr>trace := trace s @ [(Io (Iowrite32 val (qdev_addr qdev) off),
         ext s (trace s) (Io (Iowrite32 val (qdev_addr qdev) off)))]\<rparr>)"
  by (simp add: qdma_write_reg_def run_simps)

lemma emits_qdma_read_reg [triple_intro]:
  "(\<And>r. P (Io (Ioread32 (qdev_addr qdev) off), r)) \<Longrightarrow> emits P (qdma_read_reg qdev off)"
  unfolding qdma_read_reg_def by (intro triple_intro) auto

lemma emits_qdma_write_reg [triple_intro]:
  "(\<And>r. P (Io (Iowrite32 v (qdev_addr qdev) off), r)) \<Longrightarrow> emits P (qdma_write_reg qdev off v)"
  unfolding qdma_write_reg_def by (intro triple_intro) auto

lemma io_only_qdma_regs [io_intro]:
  "io_only (qdma_read_reg qdev off)" "io_only (qdma_write_reg qdev off v)"
  unfolding qdma_read_reg_def qdma_write_reg_def by (intro io_intro)+

lemma scripted_qdma_write_reg [script_intro]:
  "scripted (qdma_write_reg qdev off v) [Io (Iowrite32 v (qdev_addr qdev) off)]"
  unfolding qdma_write_reg_def by (rule script_intro)

lemma io_only_qdma_dev [io_intro]:
  "io_only (qdma_create_dev devfn bar)" "io_only (qdma_destroy_dev qd)"
  unfolding qdma_create_dev_def qdma_destroy_dev_def by (intro io_intro)+

end
