(* ===== verification/Qdma_Ctxt_Layout.thy ===== *)
theory Qdma_Ctxt_Layout
  imports Regs
begin

text \<open>
  The queue contexts of \<^verbatim>\<open>qdma_context.h\<close> and their encoding into the indirect context data
  registers, as the \<^verbatim>\<open>qdma_write_*_ctxt\<close> functions of \<^verbatim>\<open>qdma_context.c\<close> assemble them. A C bit-field
  of n bits is an n-bit word; reserved fields, which the driver never touches, are left out. The
  decoders are specifications: what the card reads out of the words. The encodings are shown to be
  decodable, so no field overwrites another one and no value is truncated.
\<close>

section \<open>Contexts\<close>

record qdma_sw_ctxt =
  sw_pidx :: u16
  sw_irq_arm :: "1 word"
  sw_func_id :: u8
  sw_qen :: "1 word"
  sw_fcrd_en :: "1 word"
  sw_wbi_chk :: "1 word"
  sw_wbi_intvl_en :: "1 word"
  sw_at :: "1 word"
  sw_fetch_max :: "3 word"
  sw_rngsz_idx :: "4 word"
  sw_desc_sz :: "2 word"
  sw_bypass :: "1 word"
  sw_mm_chn :: "1 word"
  sw_wbk_en :: "1 word"
  sw_irq_en :: "1 word"
  sw_port_id :: "3 word"
  sw_irq_no_last :: "1 word"
  sw_err :: "2 word"
  sw_err_wb_sent :: "1 word"
  sw_irq_req :: "1 word"
  sw_mrkr_dis :: "1 word"
  sw_is_mm :: "1 word"
  sw_desc_base :: u64
  sw_vec :: "11 word"
  sw_intr_aggr :: "1 word"

record qdma_pfch_ctxt =
  pfch_bypass :: "1 word"
  pfch_bufsz_idx :: "4 word"
  pfch_port_id :: "3 word"
  pfch_err :: "1 word"
  pfch_pfch_en :: "1 word"
  pfch_in_pfch :: "1 word"
  pfch_sw_crdt :: u16
  pfch_valid :: "1 word"

record qdma_cmpl_ctxt =
  cc_stat_en :: "1 word"
  cc_intr_en :: "1 word"
  cc_trig_mode :: "3 word"
  cc_func_id :: u8
  cc_counter_idx :: "4 word"
  cc_timer_idx :: "4 word"
  cc_intr_st :: "2 word"
  cc_color :: "1 word"
  cc_rngsz_idx :: "4 word"
  cc_baddr :: u64
  cc_desc_sz :: "2 word"
  cc_pidx :: u16
  cc_cidx :: u16
  cc_valid :: "1 word"
  cc_err :: "2 word"
  cc_user_trig_pend :: "1 word"
  cc_timer_running :: "1 word"
  cc_full_upd :: "1 word"
  cc_ovf_chk_dis :: "1 word"
  cc_at :: "1 word"
  cc_vec :: "11 word"
  cc_intr_aggr :: "1 word"

record qdma_fmap_ctxt =
  fmap_qbase :: "11 word"
  fmap_qmax :: "12 word"

section \<open>Encoding into data words\<close>

definition sw_ctxt_words :: "qdma_sw_ctxt \<Rightarrow> u32 list" where
  "sw_ctxt_words ctxt =
     (let
        desc_base_l = (ucast (BITFIELD_GET QDMA_SW_CTXT_DESC_BASE_GET_L_MASK (sw_desc_base ctxt)) :: u32);
        desc_base_h = (ucast (BITFIELD_GET QDMA_SW_CTXT_DESC_BASE_GET_H_MASK (sw_desc_base ctxt)) :: u32)
      in
      [ucast (FIELD_SET QDMA_SW_CTXT_W0_PIDX_MASK (ucast (sw_pidx ctxt)) OR
          FIELD_SET QDMA_SW_CTXT_W0_IRQ_ARM_MASK (ucast (sw_irq_arm ctxt)) OR
          FIELD_SET QDMA_SW_CTXT_W0_FUNC_ID_MASK (ucast (sw_func_id ctxt))),
       ucast (FIELD_SET QDMA_SW_CTXT_W1_QEN_MASK (ucast (sw_qen ctxt)) OR
          FIELD_SET QDMA_SW_CTXT_W1_FCRD_EN_MASK (ucast (sw_fcrd_en ctxt)) OR
          FIELD_SET QDMA_SW_CTXT_W1_WBI_CHK_MASK (ucast (sw_wbi_chk ctxt)) OR
          FIELD_SET QDMA_SW_CTXT_W1_WBI_INTVL_EN_MASK (ucast (sw_wbi_intvl_en ctxt)) OR
          FIELD_SET QDMA_SW_CTXT_W1_AT_MASK (ucast (sw_at ctxt)) OR
          FIELD_SET QDMA_SW_CTXT_W1_FETCH_MAX_MASK (ucast (sw_fetch_max ctxt)) OR
          FIELD_SET QDMA_SW_CTXT_W1_RNG_SZ_MASK (ucast (sw_rngsz_idx ctxt)) OR
          FIELD_SET QDMA_SW_CTXT_W1_DESC_SZ_MASK (ucast (sw_desc_sz ctxt)) OR
          FIELD_SET QDMA_SW_CTXT_W1_BYPASS_MASK (ucast (sw_bypass ctxt)) OR
          FIELD_SET QDMA_SW_CTXT_W1_MM_CHN_MASK (ucast (sw_mm_chn ctxt)) OR
          FIELD_SET QDMA_SW_CTXT_W1_WBK_EN_MASK (ucast (sw_wbk_en ctxt)) OR
          FIELD_SET QDMA_SW_CTXT_W1_IRQ_EN_MASK (ucast (sw_irq_en ctxt)) OR
          FIELD_SET QDMA_SW_CTXT_W1_PORT_ID_MASK (ucast (sw_port_id ctxt)) OR
          FIELD_SET QDMA_SW_CTXT_W1_IRQ_NO_LAST_MASK (ucast (sw_irq_no_last ctxt)) OR
          FIELD_SET QDMA_SW_CTXT_W1_ERR_MASK (ucast (sw_err ctxt)) OR
          FIELD_SET QDMA_SW_CTXT_W1_ERR_WB_SENT_MASK (ucast (sw_err_wb_sent ctxt)) OR
          FIELD_SET QDMA_SW_CTXT_W1_IRQ_REQ_MASK (ucast (sw_irq_req ctxt)) OR
          FIELD_SET QDMA_SW_CTXT_W1_MRKR_DIS_MASK (ucast (sw_mrkr_dis ctxt)) OR
          FIELD_SET QDMA_SW_CTXT_W1_IS_MM_MASK (ucast (sw_is_mm ctxt))),
       ucast (FIELD_SET QDMA_SW_CTXT_W2_DESC_BASE_L_MASK (ucast desc_base_l)),
       ucast (FIELD_SET QDMA_SW_CTXT_W3_DESC_BASE_H_MASK (ucast desc_base_h)),
       ucast (FIELD_SET QDMA_SW_CTXT_W4_VEC_MASK (ucast (sw_vec ctxt)) OR
          FIELD_SET QDMA_SW_CTXT_W4_INTR_AGGR_MASK (ucast (sw_intr_aggr ctxt)))])"

definition pfch_ctxt_words :: "qdma_pfch_ctxt \<Rightarrow> u32 list" where
  "pfch_ctxt_words ctxt =
     (let
        sw_crdt_l = (ucast (BITFIELD_GET QDMA_PFCH_CTXT_SW_CRDT_GET_L_MASK (ucast (pfch_sw_crdt ctxt))) :: u32);
        sw_crdt_h = (ucast (BITFIELD_GET QDMA_PFCH_CTXT_SW_CRDT_GET_H_MASK (ucast (pfch_sw_crdt ctxt))) :: u32)
      in
      [ucast (FIELD_SET QDMA_PFCH_CTXT_W0_BYPASS_MASK (ucast (pfch_bypass ctxt)) OR
          FIELD_SET QDMA_PFCH_CTXT_W0_BUFSZ_IDX_MASK (ucast (pfch_bufsz_idx ctxt)) OR
          FIELD_SET QDMA_PFCH_CTXT_W0_PORT_ID_MASK (ucast (pfch_port_id ctxt)) OR
          FIELD_SET QDMA_PFCH_CTXT_W0_ERR_MASK (ucast (pfch_err ctxt)) OR
          FIELD_SET QDMA_PFCH_CTXT_W0_PFCH_EN_MASK (ucast (pfch_pfch_en ctxt)) OR
          FIELD_SET QDMA_PFCH_CTXT_W0_IN_PFCH_MASK (ucast (pfch_in_pfch ctxt)) OR
          FIELD_SET QDMA_PFCH_CTXT_W0_SW_CRDT_L_MASK (ucast sw_crdt_l)),
       ucast (FIELD_SET QDMA_PFCH_CTXT_W1_SW_CRDT_H_MASK (ucast sw_crdt_h) OR
          FIELD_SET QDMA_PFCH_CTXT_W1_VALID_MASK (ucast (pfch_valid ctxt)))])"

definition cmpl_ctxt_words :: "qdma_cmpl_ctxt \<Rightarrow> u32 list" where
  "cmpl_ctxt_words ctxt =
     (let
        baddr_l = (ucast (BITFIELD_GET QDMA_CMPL_CTXT_BADDR_GET_L_MASK (cc_baddr ctxt)) :: u32);
        baddr_h = (ucast (BITFIELD_GET QDMA_CMPL_CTXT_BADDR_GET_H_MASK (cc_baddr ctxt)) :: u32);
        pidx_l = (ucast (BITFIELD_GET QDMA_CMPL_CTXT_PIDX_GET_L_MASK (ucast (cc_pidx ctxt))) :: u32);
        pidx_h = (ucast (BITFIELD_GET QDMA_CMPL_CTXT_PIDX_GET_H_MASK (ucast (cc_pidx ctxt))) :: u32)
      in
      [ucast (FIELD_SET QDMA_CMPL_CTXT_W0_STAT_EN_MASK (ucast (cc_stat_en ctxt)) OR
          FIELD_SET QDMA_CMPL_CTXT_W0_INTR_EN_MASK (ucast (cc_intr_en ctxt)) OR
          FIELD_SET QDMA_CMPL_CTXT_W0_TRIG_MODE_MASK (ucast (cc_trig_mode ctxt)) OR
          FIELD_SET QDMA_CMPL_CTXT_W0_FUNC_ID_MASK (ucast (cc_func_id ctxt)) OR
          FIELD_SET QDMA_CMPL_CTXT_W0_COUNTER_IDX_MASK (ucast (cc_counter_idx ctxt)) OR
          FIELD_SET QDMA_CMPL_CTXT_W0_TIMER_IDX_MASK (ucast (cc_timer_idx ctxt)) OR
          FIELD_SET QDMA_CMPL_CTXT_W0_INTR_ST_MASK (ucast (cc_intr_st ctxt)) OR
          FIELD_SET QDMA_CMPL_CTXT_W0_COLOR_MASK (ucast (cc_color ctxt)) OR
          FIELD_SET QDMA_CMPL_CTXT_W0_RNGSZ_IDX_MASK (ucast (cc_rngsz_idx ctxt))),
       ucast (FIELD_SET QDMA_CMPL_CTXT_W1_BADDR_L_MASK (ucast baddr_l)),
       ucast (FIELD_SET QDMA_CMPL_CTXT_W2_BADDR_H_MASK (ucast baddr_h) OR
          FIELD_SET QDMA_CMPL_CTXT_W2_DESC_SZ_MASK (ucast (cc_desc_sz ctxt)) OR
          FIELD_SET QDMA_CMPL_CTXT_W2_PIDX_L_MASK (ucast pidx_l)),
       ucast (FIELD_SET QDMA_CMPL_CTXT_W3_PIDX_H_MASK (ucast pidx_h) OR
          FIELD_SET QDMA_CMPL_CTXT_W3_CIDX_MASK (ucast (cc_cidx ctxt)) OR
          FIELD_SET QDMA_CMPL_CTXT_W3_VALID_MASK (ucast (cc_valid ctxt)) OR
          FIELD_SET QDMA_CMPL_CTXT_W3_ERR_MASK (ucast (cc_err ctxt)) OR
          FIELD_SET QDMA_CMPL_CTXT_W3_USER_TRIG_PEND_MASK (ucast (cc_user_trig_pend ctxt))),
       ucast (FIELD_SET QDMA_CMPL_CTXT_W4_TIMER_RUNNING_MASK (ucast (cc_timer_running ctxt)) OR
          FIELD_SET QDMA_CMPL_CTXT_W4_FULL_UPD_MASK (ucast (cc_full_upd ctxt)) OR
          FIELD_SET QDMA_CMPL_CTXT_W4_OVF_CHK_DIS_MASK (ucast (cc_ovf_chk_dis ctxt)) OR
          FIELD_SET QDMA_CMPL_CTXT_W4_AT_MASK (ucast (cc_at ctxt)) OR
          FIELD_SET QDMA_CMPL_CTXT_W4_VEC_MASK (ucast (cc_vec ctxt)) OR
          FIELD_SET QDMA_CMPL_CTXT_W4_INTR_AGGR_MASK (ucast (cc_intr_aggr ctxt)))])"

definition fmap_ctxt_words :: "qdma_fmap_ctxt \<Rightarrow> u32 list" where
  "fmap_ctxt_words ctxt =
     ([ucast (FIELD_SET QDMA_FMAP_CTXT_W0_QBASE_MASK (ucast (fmap_qbase ctxt))),
       ucast (FIELD_SET QDMA_FMAP_CTXT_W1_QMAX_MASK (ucast (fmap_qmax ctxt)))])"

section \<open>Decoding\<close>

definition sw_ctxt_of_words :: "u32 list \<Rightarrow> qdma_sw_ctxt" where
  "sw_ctxt_of_words ws = \<lparr>
     sw_pidx = ucast (BITFIELD_GET QDMA_SW_CTXT_W0_PIDX_MASK (ucast (ws ! 0))),
     sw_irq_arm = ucast (BITFIELD_GET QDMA_SW_CTXT_W0_IRQ_ARM_MASK (ucast (ws ! 0))),
     sw_func_id = ucast (BITFIELD_GET QDMA_SW_CTXT_W0_FUNC_ID_MASK (ucast (ws ! 0))),
     sw_qen = ucast (BITFIELD_GET QDMA_SW_CTXT_W1_QEN_MASK (ucast (ws ! 1))),
     sw_fcrd_en = ucast (BITFIELD_GET QDMA_SW_CTXT_W1_FCRD_EN_MASK (ucast (ws ! 1))),
     sw_wbi_chk = ucast (BITFIELD_GET QDMA_SW_CTXT_W1_WBI_CHK_MASK (ucast (ws ! 1))),
     sw_wbi_intvl_en = ucast (BITFIELD_GET QDMA_SW_CTXT_W1_WBI_INTVL_EN_MASK (ucast (ws ! 1))),
     sw_at = ucast (BITFIELD_GET QDMA_SW_CTXT_W1_AT_MASK (ucast (ws ! 1))),
     sw_fetch_max = ucast (BITFIELD_GET QDMA_SW_CTXT_W1_FETCH_MAX_MASK (ucast (ws ! 1))),
     sw_rngsz_idx = ucast (BITFIELD_GET QDMA_SW_CTXT_W1_RNG_SZ_MASK (ucast (ws ! 1))),
     sw_desc_sz = ucast (BITFIELD_GET QDMA_SW_CTXT_W1_DESC_SZ_MASK (ucast (ws ! 1))),
     sw_bypass = ucast (BITFIELD_GET QDMA_SW_CTXT_W1_BYPASS_MASK (ucast (ws ! 1))),
     sw_mm_chn = ucast (BITFIELD_GET QDMA_SW_CTXT_W1_MM_CHN_MASK (ucast (ws ! 1))),
     sw_wbk_en = ucast (BITFIELD_GET QDMA_SW_CTXT_W1_WBK_EN_MASK (ucast (ws ! 1))),
     sw_irq_en = ucast (BITFIELD_GET QDMA_SW_CTXT_W1_IRQ_EN_MASK (ucast (ws ! 1))),
     sw_port_id = ucast (BITFIELD_GET QDMA_SW_CTXT_W1_PORT_ID_MASK (ucast (ws ! 1))),
     sw_irq_no_last = ucast (BITFIELD_GET QDMA_SW_CTXT_W1_IRQ_NO_LAST_MASK (ucast (ws ! 1))),
     sw_err = ucast (BITFIELD_GET QDMA_SW_CTXT_W1_ERR_MASK (ucast (ws ! 1))),
     sw_err_wb_sent = ucast (BITFIELD_GET QDMA_SW_CTXT_W1_ERR_WB_SENT_MASK (ucast (ws ! 1))),
     sw_irq_req = ucast (BITFIELD_GET QDMA_SW_CTXT_W1_IRQ_REQ_MASK (ucast (ws ! 1))),
     sw_mrkr_dis = ucast (BITFIELD_GET QDMA_SW_CTXT_W1_MRKR_DIS_MASK (ucast (ws ! 1))),
     sw_is_mm = ucast (BITFIELD_GET QDMA_SW_CTXT_W1_IS_MM_MASK (ucast (ws ! 1))),
     sw_desc_base = ucast (FIELD_SET QDMA_SW_CTXT_DESC_BASE_GET_L_MASK (BITFIELD_GET QDMA_SW_CTXT_W2_DESC_BASE_L_MASK (ucast (ws ! 2))) OR
       FIELD_SET QDMA_SW_CTXT_DESC_BASE_GET_H_MASK (BITFIELD_GET QDMA_SW_CTXT_W3_DESC_BASE_H_MASK (ucast (ws ! 3)))),
     sw_vec = ucast (BITFIELD_GET QDMA_SW_CTXT_W4_VEC_MASK (ucast (ws ! 4))),
     sw_intr_aggr = ucast (BITFIELD_GET QDMA_SW_CTXT_W4_INTR_AGGR_MASK (ucast (ws ! 4)))\<rparr>"

definition pfch_ctxt_of_words :: "u32 list \<Rightarrow> qdma_pfch_ctxt" where
  "pfch_ctxt_of_words ws = \<lparr>
     pfch_bypass = ucast (BITFIELD_GET QDMA_PFCH_CTXT_W0_BYPASS_MASK (ucast (ws ! 0))),
     pfch_bufsz_idx = ucast (BITFIELD_GET QDMA_PFCH_CTXT_W0_BUFSZ_IDX_MASK (ucast (ws ! 0))),
     pfch_port_id = ucast (BITFIELD_GET QDMA_PFCH_CTXT_W0_PORT_ID_MASK (ucast (ws ! 0))),
     pfch_err = ucast (BITFIELD_GET QDMA_PFCH_CTXT_W0_ERR_MASK (ucast (ws ! 0))),
     pfch_pfch_en = ucast (BITFIELD_GET QDMA_PFCH_CTXT_W0_PFCH_EN_MASK (ucast (ws ! 0))),
     pfch_in_pfch = ucast (BITFIELD_GET QDMA_PFCH_CTXT_W0_IN_PFCH_MASK (ucast (ws ! 0))),
     pfch_sw_crdt = ucast (FIELD_SET QDMA_PFCH_CTXT_SW_CRDT_GET_L_MASK (BITFIELD_GET QDMA_PFCH_CTXT_W0_SW_CRDT_L_MASK (ucast (ws ! 0))) OR
       FIELD_SET QDMA_PFCH_CTXT_SW_CRDT_GET_H_MASK (BITFIELD_GET QDMA_PFCH_CTXT_W1_SW_CRDT_H_MASK (ucast (ws ! 1)))),
     pfch_valid = ucast (BITFIELD_GET QDMA_PFCH_CTXT_W1_VALID_MASK (ucast (ws ! 1)))\<rparr>"

definition cmpl_ctxt_of_words :: "u32 list \<Rightarrow> qdma_cmpl_ctxt" where
  "cmpl_ctxt_of_words ws = \<lparr>
     cc_stat_en = ucast (BITFIELD_GET QDMA_CMPL_CTXT_W0_STAT_EN_MASK (ucast (ws ! 0))),
     cc_intr_en = ucast (BITFIELD_GET QDMA_CMPL_CTXT_W0_INTR_EN_MASK (ucast (ws ! 0))),
     cc_trig_mode = ucast (BITFIELD_GET QDMA_CMPL_CTXT_W0_TRIG_MODE_MASK (ucast (ws ! 0))),
     cc_func_id = ucast (BITFIELD_GET QDMA_CMPL_CTXT_W0_FUNC_ID_MASK (ucast (ws ! 0))),
     cc_counter_idx = ucast (BITFIELD_GET QDMA_CMPL_CTXT_W0_COUNTER_IDX_MASK (ucast (ws ! 0))),
     cc_timer_idx = ucast (BITFIELD_GET QDMA_CMPL_CTXT_W0_TIMER_IDX_MASK (ucast (ws ! 0))),
     cc_intr_st = ucast (BITFIELD_GET QDMA_CMPL_CTXT_W0_INTR_ST_MASK (ucast (ws ! 0))),
     cc_color = ucast (BITFIELD_GET QDMA_CMPL_CTXT_W0_COLOR_MASK (ucast (ws ! 0))),
     cc_rngsz_idx = ucast (BITFIELD_GET QDMA_CMPL_CTXT_W0_RNGSZ_IDX_MASK (ucast (ws ! 0))),
     cc_baddr = ucast (FIELD_SET QDMA_CMPL_CTXT_BADDR_GET_L_MASK (BITFIELD_GET QDMA_CMPL_CTXT_W1_BADDR_L_MASK (ucast (ws ! 1))) OR
       FIELD_SET QDMA_CMPL_CTXT_BADDR_GET_H_MASK (BITFIELD_GET QDMA_CMPL_CTXT_W2_BADDR_H_MASK (ucast (ws ! 2)))),
     cc_desc_sz = ucast (BITFIELD_GET QDMA_CMPL_CTXT_W2_DESC_SZ_MASK (ucast (ws ! 2))),
     cc_pidx = ucast (FIELD_SET QDMA_CMPL_CTXT_PIDX_GET_L_MASK (BITFIELD_GET QDMA_CMPL_CTXT_W2_PIDX_L_MASK (ucast (ws ! 2))) OR
       FIELD_SET QDMA_CMPL_CTXT_PIDX_GET_H_MASK (BITFIELD_GET QDMA_CMPL_CTXT_W3_PIDX_H_MASK (ucast (ws ! 3)))),
     cc_cidx = ucast (BITFIELD_GET QDMA_CMPL_CTXT_W3_CIDX_MASK (ucast (ws ! 3))),
     cc_valid = ucast (BITFIELD_GET QDMA_CMPL_CTXT_W3_VALID_MASK (ucast (ws ! 3))),
     cc_err = ucast (BITFIELD_GET QDMA_CMPL_CTXT_W3_ERR_MASK (ucast (ws ! 3))),
     cc_user_trig_pend = ucast (BITFIELD_GET QDMA_CMPL_CTXT_W3_USER_TRIG_PEND_MASK (ucast (ws ! 3))),
     cc_timer_running = ucast (BITFIELD_GET QDMA_CMPL_CTXT_W4_TIMER_RUNNING_MASK (ucast (ws ! 4))),
     cc_full_upd = ucast (BITFIELD_GET QDMA_CMPL_CTXT_W4_FULL_UPD_MASK (ucast (ws ! 4))),
     cc_ovf_chk_dis = ucast (BITFIELD_GET QDMA_CMPL_CTXT_W4_OVF_CHK_DIS_MASK (ucast (ws ! 4))),
     cc_at = ucast (BITFIELD_GET QDMA_CMPL_CTXT_W4_AT_MASK (ucast (ws ! 4))),
     cc_vec = ucast (BITFIELD_GET QDMA_CMPL_CTXT_W4_VEC_MASK (ucast (ws ! 4))),
     cc_intr_aggr = ucast (BITFIELD_GET QDMA_CMPL_CTXT_W4_INTR_AGGR_MASK (ucast (ws ! 4)))\<rparr>"

definition fmap_ctxt_of_words :: "u32 list \<Rightarrow> qdma_fmap_ctxt" where
  "fmap_ctxt_of_words ws = \<lparr>
     fmap_qbase = ucast (BITFIELD_GET QDMA_FMAP_CTXT_W0_QBASE_MASK (ucast (ws ! 0))),
     fmap_qmax = ucast (BITFIELD_GET QDMA_FMAP_CTXT_W1_QMAX_MASK (ucast (ws ! 1)))\<rparr>"

section \<open>Round trips\<close>

lemma take_bit_BITFIELD_GET [bitfield]:
  "l \<le> h \<Longrightarrow> h < 64 \<Longrightarrow> Suc h - l \<le> n \<Longrightarrow>
     take_bit n (BITFIELD_GET (GENMASK h l) x) = BITFIELD_GET (GENMASK h l) x"
  by (rule bit_eqI) (auto simp: bit_BITFIELD_GET bit_simps)

lemma ucast32_BITFIELD_GET [bitfield]:
  "l \<le> h \<Longrightarrow> h < 64 \<Longrightarrow> h - l < 32 \<Longrightarrow>
     ucast (ucast (BITFIELD_GET (GENMASK h l) x) :: u32) = BITFIELD_GET (GENMASK h l) x"
  by (rule bit_eqI) (auto simp: bit_BITFIELD_GET bit_simps)

lemma FIELD_SET_BITFIELD_GET [bitfield]:
  "l \<le> h \<Longrightarrow> h < 64 \<Longrightarrow>
     FIELD_SET (GENMASK h l) (BITFIELD_GET (GENMASK h l) x) = x AND GENMASK h l"
  by (rule bit_eqI) (auto simp: bit_BITFIELD_GET bit_FIELD_SET bit_simps)

lemma ucast_mod_2 [bitfield]: "ucast (ucast (b :: 1 word) mod 2 :: u64) = b"
proof -
  have "ucast b mod 2 = (ucast b :: u64)"
    using take_bit_ucast [where n = 1 and w = b] by (simp add: take_bit_eq_mod)
  then show ?thesis by (simp add: ucast_ucast_id)
qed

lemma GENMASK_join:
  "l \<le> k \<Longrightarrow> k \<le> h \<Longrightarrow> h < 64 \<Longrightarrow>
     x AND GENMASK k l OR x AND GENMASK h (Suc k) = x AND GENMASK h l"
  by (rule bit_eqI) (auto simp: bit_simps)

lemma GENMASK_full [simp]: "(x :: u64) AND GENMASK 63 0 = x"
  by (rule bit_eqI) (auto simp: bit_simps)

lemma ucast_and_GENMASK [simp]: "(ucast (ucast (w :: u16) AND GENMASK 15 0) :: u16) = w"
  by (rule bit_eqI) (auto simp: bit_simps)

text \<open>The splits of the driver: descriptor ring address, prefetch credit, completion index.\<close>

lemmas GENMASK_splits [bitfield] =
  GENMASK_join [of 0 31 63, simplified] GENMASK_join [of 0 2 15, simplified]
  GENMASK_join [of 0 3 15, simplified] GENMASK_join [of 12 37 63, simplified]

text \<open>The card only takes the address of a completion ring in units of 4 KiB.\<close>

lemma and_GENMASK_aligned: "take_bit 12 x = 0 \<Longrightarrow> (x :: u64) AND GENMASK 63 12 = x"
proof (rule bit_eqI)
  fix n assume a: "take_bit 12 x = 0" and "possible_bit TYPE(64 word) n"
  have "\<not> bit x n" if "n < 12"
    using a that by (metis bit_0_eq bit_take_bit_iff bot_apply bot_bool_def)
  then have "bit x n \<Longrightarrow> 12 \<le> n" by (meson not_le)
  then show "bit (x AND GENMASK 63 12) n = bit x n"
    using \<open>possible_bit TYPE(64 word) n\<close> by (auto simp: bit_simps)
qed

lemma length_sw_ctxt_words [simp]: "length (sw_ctxt_words c) = QDMA_SW_CTXT_NUM_WORDS"
  by (simp add: sw_ctxt_words_def Let_def)

lemma length_pfch_ctxt_words [simp]: "length (pfch_ctxt_words c) = QDMA_PFCH_CTXT_NUM_WORDS"
  by (simp add: pfch_ctxt_words_def Let_def)

lemma length_cmpl_ctxt_words [simp]: "length (cmpl_ctxt_words c) = QDMA_CMPL_CTXT_NUM_WORDS"
  by (simp add: cmpl_ctxt_words_def Let_def)

lemma length_fmap_ctxt_words [simp]: "length (fmap_ctxt_words c) = QDMA_FMAP_CTXT_NUM_WORDS"
  by (simp add: fmap_ctxt_words_def Let_def)

lemma sw_ctxt_decode: "sw_ctxt_of_words (sw_ctxt_words c) = c"
  by (cases c) (simp add: sw_ctxt_of_words_def sw_ctxt_words_def Let_def bitfield)

lemma pfch_ctxt_decode: "pfch_ctxt_of_words (pfch_ctxt_words c) = c"
  by (cases c) (simp add: pfch_ctxt_of_words_def pfch_ctxt_words_def Let_def bitfield)

lemma cmpl_ctxt_decode:
  "cmpl_ctxt_of_words (cmpl_ctxt_words c) = c\<lparr>cc_baddr := cc_baddr c AND GENMASK 63 12\<rparr>"
  by (cases c) (simp add: cmpl_ctxt_of_words_def cmpl_ctxt_words_def Let_def bitfield)

lemma fmap_ctxt_decode: "fmap_ctxt_of_words (fmap_ctxt_words c) = c"
  by (cases c) (simp add: fmap_ctxt_of_words_def fmap_ctxt_words_def Let_def bitfield)

end
