(* ===== verification/Qdma_Export.thy ===== *)
theory Qdma_Export
  imports Regs
begin

text \<open>
  \<^verbatim>\<open>qdma_export.c\<close> and \<^verbatim>\<open>qdma_export.h\<close>: the descriptors the driver writes into memory shared
  with the card and the status entries it reads back. A pointer \<^verbatim>\<open>u8 *data\<close> is a region and a
  byte offset in it; a 64-bit store or load through it is a call \<open>Dma_write64\<close> or \<open>Dma_read64\<close>.
  Each dereference of the C code is one load, since the card may write in between.
\<close>

datatype qdma_dir = QDMA_H2C | QDMA_C2H

section \<open>Descriptors and status entries\<close>

record qdma_h2c_st_desc =
  h2c_metadata :: u32
  h2c_len :: u16
  h2c_src_addr :: u64

record qdma_c2h_st_desc =
  c2h_dst_addr :: u64

record qdma_wb_stat =
  wb_pidx :: u16
  wb_cidx :: u16

record qdma_c2h_cmpl =
  cmpl_color :: u8
  cmpl_err :: u8
  cmpl_pkt_len :: u16
  cmpl_pkt_id :: u16

record qdma_c2h_cmpl_stat =
  cstat_pidx :: u16
  cstat_cidx :: u16
  cstat_color :: u8
  cstat_intr_state :: u8

section \<open>Packing and unpacking\<close>

abbreviation is_null :: "ptr \<Rightarrow> nat \<Rightarrow> bool" where
  "is_null base off \<equiv> base + of_nat off = 0"

definition dma_read64 :: "ptr \<Rightarrow> nat \<Rightarrow> ('z, u64) drv" where
  "dma_read64 base off = do { r \<leftarrow> perform (Mem (Dma_read64 base off)); ret (of_int r) }"

definition dma_write64 :: "ptr \<Rightarrow> nat \<Rightarrow> u64 \<Rightarrow> ('z, unit) drv" where
  "dma_write64 base off v = invoke (Mem (Dma_write64 base off v))"

definition h2c_st_desc_dw0 :: "qdma_h2c_st_desc \<Rightarrow> u64" where
  "h2c_st_desc_dw0 desc =
     FIELD_SET QDMA_H2C_ST_DESC_DW0_METADATA_MASK (ucast (h2c_metadata desc)) OR
     FIELD_SET QDMA_H2C_ST_DESC_DW0_LEN_MASK (ucast (h2c_len desc))"

definition qdma_pack_h2c_st_desc :: "ptr \<Rightarrow> nat \<Rightarrow> qdma_h2c_st_desc \<Rightarrow> ('z, unit) drv" where
  "qdma_pack_h2c_st_desc base off desc =
     (if is_null base off then ret ()
      else do {
        dma_write64 base off 0;
        dma_write64 base off (h2c_st_desc_dw0 desc);
        dma_write64 base (off + 8) (h2c_src_addr desc)
      })"

definition qdma_pack_c2h_st_desc :: "ptr \<Rightarrow> nat \<Rightarrow> qdma_c2h_st_desc \<Rightarrow> ('z, unit) drv" where
  "qdma_pack_c2h_st_desc base off desc =
     (if is_null base off then ret ()
      else dma_write64 base off (c2h_dst_addr desc))"

definition qdma_unpack_wb_stat :: "qdma_wb_stat \<Rightarrow> ptr \<Rightarrow> nat \<Rightarrow> ('z, qdma_wb_stat) drv" where
  "qdma_unpack_wb_stat stat base off =
     (if is_null base off then ret stat
      else do {
        dw \<leftarrow> dma_read64 base off;
        let pidx = ucast (BITFIELD_GET QDMA_WB_STAT_DW_PIDX_MASK dw);
        dw \<leftarrow> dma_read64 base off;
        let cidx = ucast (BITFIELD_GET QDMA_WB_STAT_DW_CIDX_MASK dw);
        ret (stat\<lparr>wb_pidx := pidx, wb_cidx := cidx\<rparr>)
      })"

definition qdma_unpack_c2h_cmpl :: "qdma_c2h_cmpl \<Rightarrow> ptr \<Rightarrow> nat \<Rightarrow> ('z, qdma_c2h_cmpl) drv" where
  "qdma_unpack_c2h_cmpl cmpl base off =
     (if is_null base off then ret cmpl
      else do {
        dw \<leftarrow> dma_read64 base off;
        let color = ucast (BITFIELD_GET QDMA_C2H_CMPL_DW_COLOR_MASK dw);
        dw \<leftarrow> dma_read64 base off;
        let err = ucast (BITFIELD_GET QDMA_C2H_CMPL_DW_ERR_MASK dw);
        dw \<leftarrow> dma_read64 base off;
        let pkt_len = ucast (BITFIELD_GET QDMA_C2H_CMPL_DW_PKT_LEN_MASK dw);
        dw \<leftarrow> dma_read64 base off;
        let pkt_id = ucast (BITFIELD_GET QDMA_C2H_CMPL_DW_PKT_ID_MASK dw);
        ret (cmpl\<lparr>cmpl_color := color, cmpl_err := err, cmpl_pkt_len := pkt_len, cmpl_pkt_id := pkt_id\<rparr>)
      })"

definition qdma_unpack_c2h_cmpl_stat ::
  "qdma_c2h_cmpl_stat \<Rightarrow> ptr \<Rightarrow> nat \<Rightarrow> ('z, qdma_c2h_cmpl_stat) drv" where
  "qdma_unpack_c2h_cmpl_stat stat base off =
     (if is_null base off then ret stat
      else do {
        dw \<leftarrow> dma_read64 base off;
        let pidx = ucast (BITFIELD_GET QDMA_C2H_CMPL_STAT_DW_PIDX_MASK dw);
        dw \<leftarrow> dma_read64 base off;
        let cidx = ucast (BITFIELD_GET QDMA_C2H_CMPL_STAT_DW_CIDX_MASK dw);
        dw \<leftarrow> dma_read64 base off;
        let color = ucast (BITFIELD_GET QDMA_C2H_CMPL_STAT_DW_COLOR_MASK dw);
        dw \<leftarrow> dma_read64 base off;
        let intr = ucast (BITFIELD_GET QDMA_C2H_CMPL_STAT_DW_INTR_STATE_MASK dw);
        ret (stat\<lparr>cstat_pidx := pidx, cstat_cidx := cidx, cstat_color := color,
               cstat_intr_state := intr\<rparr>)
      })"

section \<open>Descriptor layout\<close>

text \<open>What the card reads out of the first word of an H2C descriptor.\<close>

lemma h2c_dw0_metadata:
  "ucast (BITFIELD_GET QDMA_H2C_ST_DESC_DW0_METADATA_MASK (h2c_st_desc_dw0 d)) = h2c_metadata d"
  by (simp add: h2c_st_desc_dw0_def bitfield)

lemma h2c_dw0_len:
  "ucast (BITFIELD_GET QDMA_H2C_ST_DESC_DW0_LEN_MASK (h2c_st_desc_dw0 d)) = h2c_len d"
  by (simp add: h2c_st_desc_dw0_def bitfield)

lemma run_dma_write64 [run_simps]:
  "run_state (dma_write64 base off v) s =
     ((), s\<lparr>trace := trace s @ [(Mem (Dma_write64 base off v), ext s (trace s) (Mem (Dma_write64 base off v)))]\<rparr>)"
  by (simp add: dma_write64_def run_simps)

lemma emits_dma_read64 [triple_intro]:
  "(\<And>r. P (Mem (Dma_read64 base off), r)) \<Longrightarrow> emits P (dma_read64 base off)"
  unfolding dma_read64_def by (intro triple_intro) auto

lemma emits_dma_write64 [triple_intro]:
  "(\<And>r. P (Mem (Dma_write64 base off v), r)) \<Longrightarrow> emits P (dma_write64 base off v)"
  unfolding dma_write64_def by (intro triple_intro) auto

lemma io_only_unpack_wb [io_intro]: "io_only (qdma_unpack_wb_stat st b off)"
  unfolding qdma_unpack_wb_stat_def dma_read64_def by (auto intro!: io_intro)

lemma emits_unpack_wb: "(\<And>b off r. P (Mem (Dma_read64 b off), r)) \<Longrightarrow> emits P (qdma_unpack_wb_stat st b off)"
  unfolding qdma_unpack_wb_stat_def by (auto intro!: triple_intro)

lemma io_only_unpack [io_intro]:
  "io_only (qdma_unpack_c2h_cmpl c b off)" "io_only (qdma_unpack_c2h_cmpl_stat st b off)"
  "io_only (qdma_pack_c2h_st_desc b off d)" "io_only (qdma_pack_h2c_st_desc b off e)"
  unfolding qdma_unpack_c2h_cmpl_def qdma_unpack_c2h_cmpl_stat_def qdma_pack_c2h_st_desc_def qdma_pack_h2c_st_desc_def
    dma_read64_def dma_write64_def
  by (auto intro!: io_intro)

lemma emits_unpack:
  assumes "\<And>b off r. P (Mem (Dma_read64 b off), r)" "\<And>b off v r. P (Mem (Dma_write64 b off v), r)"
  shows "emits P (qdma_unpack_c2h_cmpl c b off)" "emits P (qdma_unpack_c2h_cmpl_stat st b off)"
    "emits P (qdma_pack_c2h_st_desc b off d)" "emits P (qdma_pack_h2c_st_desc b off e)"
  unfolding qdma_unpack_c2h_cmpl_def qdma_unpack_c2h_cmpl_stat_def qdma_pack_c2h_st_desc_def qdma_pack_h2c_st_desc_def
  by (auto intro!: triple_intro simp: assms)

end
