(* ===== verification/Qdma_Context.thy ===== *)
theory Qdma_Context
  imports Qdma_Device Qdma_Ctxt_Layout Qdma_Export
begin

text \<open>
  \<^verbatim>\<open>qdma_context.c\<close>: queue contexts are written, cleared and invalidated through one set of
  indirect registers (eight data words, eight mask words, a command word), under \<^verbatim>\<open>ctxt_lock\<close>, with
  a bounded poll of the busy bit. The abstract specification is the context store the card keeps:
  \<open>ctxt_view\<close> replays the register writes of a trace into it, and every operation is shown to act
  on it as exactly one command on exactly one context.
\<close>

section \<open>Commands\<close>

datatype qdma_ctxt_cmd_op =
    QDMA_CTXT_CMD_OP_CLR | QDMA_CTXT_CMD_OP_WR | QDMA_CTXT_CMD_OP_RD | QDMA_CTXT_CMD_OP_INV

datatype qdma_ctxt_cmd_sel =
    QDMA_CTXT_CMD_SEL_SW_C2H | QDMA_CTXT_CMD_SEL_SW_H2C | QDMA_CTXT_CMD_SEL_HW_C2H
  | QDMA_CTXT_CMD_SEL_HW_H2C | QDMA_CTXT_CMD_SEL_CR_C2H | QDMA_CTXT_CMD_SEL_CR_H2C
  | QDMA_CTXT_CMD_SEL_CMPL | QDMA_CTXT_CMD_SEL_PFCH | QDMA_CTXT_CMD_SEL_INTR_COAL
  | QDMA_CTXT_CMD_SEL_PASID_RAM_LOW | QDMA_CTXT_CMD_SEL_PASID_RAM_HIGH
  | QDMA_CTXT_CMD_SEL_TIMER | QDMA_CTXT_CMD_SEL_FMAP

primrec op_code :: "qdma_ctxt_cmd_op \<Rightarrow> 2 word" where
  "op_code QDMA_CTXT_CMD_OP_CLR = 0"
| "op_code QDMA_CTXT_CMD_OP_WR = 1"
| "op_code QDMA_CTXT_CMD_OP_RD = 2"
| "op_code QDMA_CTXT_CMD_OP_INV = 3"

primrec sel_code :: "qdma_ctxt_cmd_sel \<Rightarrow> 4 word" where
  "sel_code QDMA_CTXT_CMD_SEL_SW_C2H = 0"
| "sel_code QDMA_CTXT_CMD_SEL_SW_H2C = 1"
| "sel_code QDMA_CTXT_CMD_SEL_HW_C2H = 2"
| "sel_code QDMA_CTXT_CMD_SEL_HW_H2C = 3"
| "sel_code QDMA_CTXT_CMD_SEL_CR_C2H = 4"
| "sel_code QDMA_CTXT_CMD_SEL_CR_H2C = 5"
| "sel_code QDMA_CTXT_CMD_SEL_CMPL = 6"
| "sel_code QDMA_CTXT_CMD_SEL_PFCH = 7"
| "sel_code QDMA_CTXT_CMD_SEL_INTR_COAL = 8"
| "sel_code QDMA_CTXT_CMD_SEL_PASID_RAM_LOW = 9"
| "sel_code QDMA_CTXT_CMD_SEL_PASID_RAM_HIGH = 10"
| "sel_code QDMA_CTXT_CMD_SEL_TIMER = 11"
| "sel_code QDMA_CTXT_CMD_SEL_FMAP = 12"

text \<open>The union \<^verbatim>\<open>qdma_ctxt_cmd\<close>: bit 0 busy, bits 1-4 sel, bits 5-6 op, bits 7-17 qid.\<close>

record qdma_ctxt_cmd =
  cmd_sel :: qdma_ctxt_cmd_sel
  cmd_op :: qdma_ctxt_cmd_op
  cmd_qid :: "11 word"

definition cmd_word :: "qdma_ctxt_cmd \<Rightarrow> u32" where
  "cmd_word cmd =
     push_bit 1 (ucast (sel_code (cmd_sel cmd))) OR
     push_bit 5 (ucast (op_code (cmd_op cmd))) OR
     push_bit 7 (ucast (cmd_qid cmd))"

definition qdma_get_real_qid :: "qdma_dev \<Rightarrow> u16 \<Rightarrow> u16" where
  "qdma_get_real_qid qdev qid = qid + qdev_q_base qdev"

section \<open>Programming a context\<close>

definition write_ctxt_data :: "qdma_dev \<Rightarrow> u32 list \<Rightarrow> ('z, unit) drv" where
  "write_ctxt_data qdev data =
     for_each [0..<QDMA_CTXT_PROG_NUM_DATA_REGS] (\<lambda>i. do {
       (if i < length data
        then qdma_write_reg qdev (QDMA_OFFSET_IND_CTXT_DATA + 4 * of_nat i) (data ! i)
        else qdma_write_reg qdev (QDMA_OFFSET_IND_CTXT_DATA + 4 * of_nat i) 0);
       qdma_write_reg qdev (QDMA_OFFSET_IND_CTXT_MASK + 4 * of_nat i) 0xFFFFFFFF })"

text \<open>\<open>ctxt_poll qdev n\<close>: at most \<open>n\<close> reads of the command register, 100 us apart; false when the
  last one is still busy (the jump to \<^verbatim>\<open>ctxt_prog_timeout\<close>).\<close>

fun ctxt_poll :: "qdma_dev \<Rightarrow> nat \<Rightarrow> ('z, bool) drv" where
  "ctxt_poll qdev 0 = ret True"
| "ctxt_poll qdev (Suc n) = do {
     val \<leftarrow> qdma_read_reg qdev QDMA_OFFSET_IND_CTXT_CMD;
     if val AND QDMA_IND_CTXT_CMD_BUSY_MASK = 0 then ret True
     else if n = 0 then ret False
     else do {
       invoke (Io (Udelay QDMA_CTXT_PROG_POLL_INTERVAL_US));
       ctxt_poll qdev n } }"

definition read_ctxt_data :: "qdma_dev \<Rightarrow> u32 list \<Rightarrow> ('z, u32 list) drv" where
  "read_ctxt_data qdev data =
     for_each_acc [0..<QDMA_CTXT_PROG_NUM_DATA_REGS] (\<lambda>i d.
       if i < length data then do {
         v \<leftarrow> qdma_read_reg qdev (QDMA_OFFSET_IND_CTXT_DATA + 4 * of_nat i);
         ret (d[i := v]) }
       else ret d) data"

definition qdma_program_ctxt :: "qdma_dev \<Rightarrow> qdma_ctxt_cmd \<Rightarrow> u32 list \<Rightarrow> ('z, int \<times> u32 list) drv" where
  "qdma_program_ctxt qdev cmd data = do {
     invoke (Sync (Mutex_lock Ctxt_lock));
     (if cmd_op cmd = QDMA_CTXT_CMD_OP_WR then write_ctxt_data qdev data else ret ());
     qdma_write_reg qdev QDMA_OFFSET_IND_CTXT_CMD (cmd_word cmd);
     idle \<leftarrow> ctxt_poll qdev (QDMA_CTXT_PROG_TIMEOUT_US div QDMA_CTXT_PROG_POLL_INTERVAL_US);
     if \<not> idle then do {
       invoke (Sync (Mutex_unlock Ctxt_lock));
       ret (- EBUSY, data) }
     else do {
       data' \<leftarrow> (if cmd_op cmd = QDMA_CTXT_CMD_OP_RD then read_ctxt_data qdev data else ret data);
       invoke (Sync (Mutex_unlock Ctxt_lock));
       ret (0, data') } }"

text \<open>The callers of the file only keep the return code.\<close>

definition program_rc :: "qdma_dev \<Rightarrow> qdma_ctxt_cmd \<Rightarrow> u32 list \<Rightarrow> ('z, int) drv" where
  "program_rc qdev cmd data = do { rd \<leftarrow> qdma_program_ctxt qdev cmd data; ret (fst rd) }"

section \<open>The operations\<close>

definition sw_sel :: "qdma_dir \<Rightarrow> qdma_ctxt_cmd_sel" where
  "sw_sel dir = (if dir = QDMA_C2H then QDMA_CTXT_CMD_SEL_SW_C2H else QDMA_CTXT_CMD_SEL_SW_H2C)"

definition hw_sel :: "qdma_dir \<Rightarrow> qdma_ctxt_cmd_sel" where
  "hw_sel dir = (if dir = QDMA_C2H then QDMA_CTXT_CMD_SEL_HW_C2H else QDMA_CTXT_CMD_SEL_HW_H2C)"

definition cr_sel :: "qdma_dir \<Rightarrow> qdma_ctxt_cmd_sel" where
  "cr_sel dir = (if dir = QDMA_C2H then QDMA_CTXT_CMD_SEL_CR_C2H else QDMA_CTXT_CMD_SEL_CR_H2C)"

definition queue_cmd :: "qdma_dev \<Rightarrow> u16 \<Rightarrow> qdma_ctxt_cmd_sel \<Rightarrow> qdma_ctxt_cmd_op \<Rightarrow> qdma_ctxt_cmd" where
  "queue_cmd qdev qid sel op = \<lparr>cmd_sel = sel, cmd_op = op, cmd_qid = ucast (qdma_get_real_qid qdev qid)\<rparr>"

definition fmap_cmd :: "qdma_dev \<Rightarrow> qdma_ctxt_cmd_op \<Rightarrow> qdma_ctxt_cmd" where
  "fmap_cmd qdev op = \<lparr>cmd_sel = QDMA_CTXT_CMD_SEL_FMAP, cmd_op = op, cmd_qid = ucast (qdev_func_id qdev)\<rparr>"

definition qdma_write_sw_ctxt :: "qdma_dev \<Rightarrow> u16 \<Rightarrow> qdma_dir \<Rightarrow> qdma_sw_ctxt \<Rightarrow> ('z, int) drv" where
  "qdma_write_sw_ctxt qdev qid dir ctxt =
     program_rc qdev (queue_cmd qdev qid (sw_sel dir) QDMA_CTXT_CMD_OP_WR) (sw_ctxt_words ctxt)"

definition qdma_clear_sw_ctxt :: "qdma_dev \<Rightarrow> u16 \<Rightarrow> qdma_dir \<Rightarrow> ('z, int) drv" where
  "qdma_clear_sw_ctxt qdev qid dir =
     program_rc qdev (queue_cmd qdev qid (sw_sel dir) QDMA_CTXT_CMD_OP_CLR) []"

definition qdma_invalidate_sw_ctxt :: "qdma_dev \<Rightarrow> u16 \<Rightarrow> qdma_dir \<Rightarrow> ('z, int) drv" where
  "qdma_invalidate_sw_ctxt qdev qid dir =
     program_rc qdev (queue_cmd qdev qid (sw_sel dir) QDMA_CTXT_CMD_OP_INV) []"

definition qdma_clear_hw_ctxt :: "qdma_dev \<Rightarrow> u16 \<Rightarrow> qdma_dir \<Rightarrow> ('z, int) drv" where
  "qdma_clear_hw_ctxt qdev qid dir =
     program_rc qdev (queue_cmd qdev qid (hw_sel dir) QDMA_CTXT_CMD_OP_CLR) []"

definition qdma_invalidate_hw_ctxt :: "qdma_dev \<Rightarrow> u16 \<Rightarrow> qdma_dir \<Rightarrow> ('z, int) drv" where
  "qdma_invalidate_hw_ctxt qdev qid dir =
     program_rc qdev (queue_cmd qdev qid (hw_sel dir) QDMA_CTXT_CMD_OP_INV) []"

definition qdma_clear_cr_ctxt :: "qdma_dev \<Rightarrow> u16 \<Rightarrow> qdma_dir \<Rightarrow> ('z, int) drv" where
  "qdma_clear_cr_ctxt qdev qid dir =
     program_rc qdev (queue_cmd qdev qid (cr_sel dir) QDMA_CTXT_CMD_OP_CLR) []"

definition qdma_invalidate_cr_ctxt :: "qdma_dev \<Rightarrow> u16 \<Rightarrow> qdma_dir \<Rightarrow> ('z, int) drv" where
  "qdma_invalidate_cr_ctxt qdev qid dir =
     program_rc qdev (queue_cmd qdev qid (cr_sel dir) QDMA_CTXT_CMD_OP_INV) []"

definition qdma_write_pfch_ctxt :: "qdma_dev \<Rightarrow> u16 \<Rightarrow> qdma_pfch_ctxt \<Rightarrow> ('z, int) drv" where
  "qdma_write_pfch_ctxt qdev qid ctxt =
     program_rc qdev (queue_cmd qdev qid QDMA_CTXT_CMD_SEL_PFCH QDMA_CTXT_CMD_OP_WR) (pfch_ctxt_words ctxt)"

definition qdma_clear_pfch_ctxt :: "qdma_dev \<Rightarrow> u16 \<Rightarrow> ('z, int) drv" where
  "qdma_clear_pfch_ctxt qdev qid =
     program_rc qdev (queue_cmd qdev qid QDMA_CTXT_CMD_SEL_PFCH QDMA_CTXT_CMD_OP_CLR) []"

definition qdma_invalidate_pfch_ctxt :: "qdma_dev \<Rightarrow> u16 \<Rightarrow> ('z, int) drv" where
  "qdma_invalidate_pfch_ctxt qdev qid =
     program_rc qdev (queue_cmd qdev qid QDMA_CTXT_CMD_SEL_PFCH QDMA_CTXT_CMD_OP_INV) []"

definition qdma_write_cmpl_ctxt :: "qdma_dev \<Rightarrow> u16 \<Rightarrow> qdma_cmpl_ctxt \<Rightarrow> ('z, int) drv" where
  "qdma_write_cmpl_ctxt qdev qid ctxt =
     program_rc qdev (queue_cmd qdev qid QDMA_CTXT_CMD_SEL_CMPL QDMA_CTXT_CMD_OP_WR) (cmpl_ctxt_words ctxt)"

definition qdma_clear_cmpl_ctxt :: "qdma_dev \<Rightarrow> u16 \<Rightarrow> ('z, int) drv" where
  "qdma_clear_cmpl_ctxt qdev qid =
     program_rc qdev (queue_cmd qdev qid QDMA_CTXT_CMD_SEL_CMPL QDMA_CTXT_CMD_OP_CLR) []"

definition qdma_invalidate_cmpl_ctxt :: "qdma_dev \<Rightarrow> u16 \<Rightarrow> ('z, int) drv" where
  "qdma_invalidate_cmpl_ctxt qdev qid =
     program_rc qdev (queue_cmd qdev qid QDMA_CTXT_CMD_SEL_CMPL QDMA_CTXT_CMD_OP_INV) []"

text \<open>The function map operations also change the device object, which they return. Its
  invalidation issues a clear command, as the C function does.\<close>

definition qdma_write_fmap_ctxt :: "qdma_dev \<Rightarrow> qdma_fmap_ctxt \<Rightarrow> ('z, int \<times> qdma_dev) drv" where
  "qdma_write_fmap_ctxt qdev ctxt = do {
     rv \<leftarrow> program_rc qdev (fmap_cmd qdev QDMA_CTXT_CMD_OP_WR) (fmap_ctxt_words ctxt);
     if rv < 0 then ret (rv, qdev\<lparr>qdev_q_base := 0, qdev_num_queues := 0\<rparr>)
     else ret (0, qdev\<lparr>qdev_q_base := ucast (fmap_qbase ctxt), qdev_num_queues := ucast (fmap_qmax ctxt)\<rparr>) }"

definition qdma_clear_fmap_ctxt :: "qdma_dev \<Rightarrow> ('z, int \<times> qdma_dev) drv" where
  "qdma_clear_fmap_ctxt qdev = do {
     let qdev' = qdev\<lparr>qdev_q_base := 0, qdev_num_queues := 0\<rparr>;
     rv \<leftarrow> program_rc qdev' (fmap_cmd qdev QDMA_CTXT_CMD_OP_CLR) [];
     ret (rv, qdev') }"

definition qdma_invalidate_fmap_ctxt :: "qdma_dev \<Rightarrow> ('z, int \<times> qdma_dev) drv" where
  "qdma_invalidate_fmap_ctxt qdev = do {
     let qdev' = qdev\<lparr>qdev_q_base := 0, qdev_num_queues := 0\<rparr>;
     rv \<leftarrow> program_rc qdev' (fmap_cmd qdev QDMA_CTXT_CMD_OP_CLR) [];
     ret (rv, qdev') }"

section \<open>What the card sees\<close>

text \<open>
  The registers behind the indirect window, and the contexts. A write command stores the data words
  under their masks, clear and invalidate leave no context behind, a read changes nothing.
\<close>

record ctxt_regs =
  cr_data :: "u32 list"
  cr_mask :: "u32 list"
  cr_store :: "4 word \<times> 11 word \<rightharpoonup> u32 list"

definition ctxt_init :: ctxt_regs where
  "ctxt_init = \<lparr>cr_data = replicate 8 0, cr_mask = replicate 8 0, cr_store = Map.empty\<rparr>"

definition reg_index :: "u32 \<Rightarrow> u32 \<Rightarrow> nat option" where
  "reg_index base off = (if base \<le> off \<and> off < base + 32 then Some (unat ((off - base) div 4)) else None)"

definition ctxt_exec :: "u32 \<Rightarrow> ctxt_regs \<Rightarrow> ctxt_regs" where
  "ctxt_exec w r =
     (let sel = ucast (drop_bit 1 w); op = ucast (drop_bit 5 w) :: 2 word; qid = ucast (drop_bit 7 w)
      in if op = 1 then r\<lparr>cr_store := (cr_store r)((sel, qid) \<mapsto> map2 (AND) (cr_data r) (cr_mask r))\<rparr>
         else if op = 2 then r
         else r\<lparr>cr_store := (cr_store r)((sel, qid) := None)\<rparr>)"

definition ctxt_write :: "u32 \<Rightarrow> u32 \<Rightarrow> ctxt_regs \<Rightarrow> ctxt_regs" where
  "ctxt_write off v r =
     (if off = QDMA_OFFSET_IND_CTXT_CMD then ctxt_exec v r
      else case reg_index QDMA_OFFSET_IND_CTXT_DATA off of
        Some i \<Rightarrow> r\<lparr>cr_data := (cr_data r)[i := v]\<rparr>
      | None \<Rightarrow> (case reg_index QDMA_OFFSET_IND_CTXT_MASK off of
          Some i \<Rightarrow> r\<lparr>cr_mask := (cr_mask r)[i := v]\<rparr>
        | None \<Rightarrow> r))"

fun ctxt_step :: "ptr \<Rightarrow> kcall \<Rightarrow> ctxt_regs \<Rightarrow> ctxt_regs" where
  "ctxt_step b (Io (Iowrite32 v base off)) r = (if base = b then ctxt_write off v r else r)"
| "ctxt_step b _ r = r"

definition ctxt_view :: "ptr \<Rightarrow> event list \<Rightarrow> ctxt_regs" where
  "ctxt_view b tr = fold (ctxt_step b) (map fst tr) ctxt_init"

text \<open>The abstract effect of one command on the store; data is padded to eight words.\<close>

definition pad8 :: "u32 list \<Rightarrow> u32 list" where
  "pad8 data = data @ replicate (8 - length data) 0"

definition store_cmd ::
  "qdma_ctxt_cmd \<Rightarrow> u32 list \<Rightarrow> (4 word \<times> 11 word \<rightharpoonup> u32 list) \<Rightarrow> (4 word \<times> 11 word \<rightharpoonup> u32 list)" where
  "store_cmd cmd data st =
     (case cmd_op cmd of
        QDMA_CTXT_CMD_OP_WR \<Rightarrow> st((sel_code (cmd_sel cmd), cmd_qid cmd) \<mapsto> pad8 data)
      | QDMA_CTXT_CMD_OP_RD \<Rightarrow> st
      | _ \<Rightarrow> st((sel_code (cmd_sel cmd), cmd_qid cmd) := None))"

section \<open>Command words\<close>

lemma bit_cmd_word:
  "bit (cmd_word cmd) n \<longleftrightarrow> n < 32 \<and>
     (1 \<le> n \<and> bit (sel_code (cmd_sel cmd)) (n - 1) \<or>
      5 \<le> n \<and> bit (op_code (cmd_op cmd)) (n - 5) \<or> 7 \<le> n \<and> bit (cmd_qid cmd) (n - 7))"
  unfolding cmd_word_def bit_or_iff bit_push_bit_iff bit_ucast_iff possible_bit_word
  by (auto dest: bit_imp_le_length)

lemma cmd_word_sel: "ucast (drop_bit 1 (cmd_word cmd)) = sel_code (cmd_sel cmd)"
  by (rule bit_eqI)
    (auto simp: bit_cmd_word bit_ucast_iff bit_drop_bit_eq simp del: One_nat_def
      dest: bit_imp_le_length)

lemma cmd_word_op: "ucast (drop_bit 5 (cmd_word cmd)) = op_code (cmd_op cmd)"
  by (rule bit_eqI) (auto simp: bit_cmd_word bit_simps dest: bit_imp_le_length)

lemma cmd_word_qid: "ucast (drop_bit 7 (cmd_word cmd)) = cmd_qid cmd"
  by (rule bit_eqI) (auto simp: bit_cmd_word bit_simps dest: bit_imp_le_length)

lemma ctxt_exec_cmd_word:
  "ctxt_exec (cmd_word cmd) r =
     (case cmd_op cmd of
        QDMA_CTXT_CMD_OP_WR \<Rightarrow>
          r\<lparr>cr_store := (cr_store r)((sel_code (cmd_sel cmd), cmd_qid cmd) \<mapsto> map2 (AND) (cr_data r) (cr_mask r))\<rparr>
      | QDMA_CTXT_CMD_OP_RD \<Rightarrow> r
      | _ \<Rightarrow> r\<lparr>cr_store := (cr_store r)((sel_code (cmd_sel cmd), cmd_qid cmd) := None)\<rparr>)"
  by (cases "cmd_op cmd") (simp_all add: ctxt_exec_def Let_def cmd_word_sel cmd_word_op cmd_word_qid
        del: One_nat_def)

lemma sel_code_inj [simp]: "sel_code a = sel_code b \<longleftrightarrow> a = b"
  by (cases a; cases b) simp_all

section \<open>Events of the indirect window\<close>

definition in_ctxt_window :: "u32 \<Rightarrow> bool" where
  "in_ctxt_window off \<longleftrightarrow> QDMA_OFFSET_IND_CTXT_DATA \<le> off \<and> off \<le> QDMA_OFFSET_IND_CTXT_CMD"

text \<open>Events that leave the context registers alone.\<close>

fun ctxt_quiet :: "ptr \<Rightarrow> event \<Rightarrow> bool" where
  "ctxt_quiet b (Io (Iowrite32 v base off), _) = (base \<noteq> b \<or> \<not> in_ctxt_window off)"
| "ctxt_quiet b _ = True"

text \<open>Events the body of \<open>qdma_program_ctxt\<close> may produce.\<close>

fun ctxt_access :: "ptr \<Rightarrow> event \<Rightarrow> bool" where
  "ctxt_access b (Io (Iowrite32 v base off), _) = (base = b \<and> in_ctxt_window off)"
| "ctxt_access b (Io (Ioread32 base off), _) = (base = b \<and> in_ctxt_window off)"
| "ctxt_access b (Io (Udelay n), _) = True"
| "ctxt_access b _ = False"

lemma reg_index_outside:
  "\<not> in_ctxt_window off \<Longrightarrow>
     off \<noteq> QDMA_OFFSET_IND_CTXT_CMD \<and> reg_index QDMA_OFFSET_IND_CTXT_DATA off = None \<and>
     reg_index QDMA_OFFSET_IND_CTXT_MASK off = None"
  by (auto simp: in_ctxt_window_def reg_index_def word_le_nat_alt word_less_nat_alt not_le)

lemma ctxt_step_quiet: "ctxt_quiet b e \<Longrightarrow> ctxt_step b (fst e) r = r"
  by (induction b e rule: ctxt_quiet.induct) (auto simp: ctxt_write_def reg_index_outside)

interpretation ctxt: trace_view "\<lambda>e. ctxt_step b (fst e)" ctxt_init "ctxt_view b" "ctxt_quiet b" for b
  by unfold_locales (auto simp: ctxt_view_def fold_map comp_def ctxt_step_quiet)

lemma fold_ctxt_step: "fold (\<lambda>e. ctxt_step b (fst e)) evs r = fold (ctxt_step b) (map fst evs) r"
  by (simp add: fold_map comp_def)

lemma length_ctxt_step:
  "length (cr_data r) = 8 \<and> length (cr_mask r) = 8 \<Longrightarrow>
     length (cr_data (ctxt_step b c r)) = 8 \<and> length (cr_mask (ctxt_step b c r)) = 8"
  by (induction b c r rule: ctxt_step.induct)
    (auto simp: ctxt_write_def ctxt_exec_def Let_def split: option.splits)

lemma length_ctxt_view: "length (cr_data (ctxt_view b tr)) = 8 \<and> length (cr_mask (ctxt_view b tr)) = 8"
proof -
  have "length (cr_data (fold (ctxt_step b) cs r)) = 8 \<and> length (cr_mask (fold (ctxt_step b) cs r)) = 8"
    if "length (cr_data r) = 8 \<and> length (cr_mask r) = 8" for r cs
    using that by (induction cs arbitrary: r) (auto simp: length_ctxt_step)
  then show ?thesis by (simp add: ctxt_view_def ctxt_init_def)
qed

section \<open>The poll\<close>

text \<open>The values the command register was read with.\<close>

fun cmd_reads :: "ptr \<Rightarrow> event list \<Rightarrow> u32 list" where
  "cmd_reads b [] = []"
| "cmd_reads b ((Io (Ioread32 base off), r) # evs) =
     (if base = b \<and> off = QDMA_OFFSET_IND_CTXT_CMD then of_int r # cmd_reads b evs else cmd_reads b evs)"
| "cmd_reads b (e # evs) = cmd_reads b evs"

abbreviation ctxt_busy :: "u32 \<Rightarrow> bool" where
  "ctxt_busy v \<equiv> v AND QDMA_IND_CTXT_CMD_BUSY_MASK \<noteq> 0"

lemma cmd_reads_append [simp]: "cmd_reads b (xs @ ys) = cmd_reads b xs @ cmd_reads b ys"
  by (induction b xs rule: cmd_reads.induct) auto

fun poll_event :: "ptr \<Rightarrow> event \<Rightarrow> bool" where
  "poll_event b (Io (Ioread32 base off), _) = (base = b \<and> off = QDMA_OFFSET_IND_CTXT_CMD)"
| "poll_event b (Io (Udelay n), _) = (n = QDMA_CTXT_PROG_POLL_INTERVAL_US)"
| "poll_event b _ = False"

lemma poll_event_access: "poll_event b e \<Longrightarrow> ctxt_access b e \<and> ctxt_quiet b e"
  by (induction b e rule: poll_event.induct) (auto simp: in_ctxt_window_def)

text \<open>A poll of \<open>n\<close> attempts ends idle after at most \<open>n\<close> reads, or busy after exactly \<open>n\<close>.\<close>

lemma ctxt_poll_run:
  assumes "run_state (ctxt_poll qdev n) s = (idle, s')" "0 < n"
  obtains evs vs v where
    "s' = s\<lparr>trace := trace s @ evs\<rparr>" "list_all (poll_event (qdev_addr qdev)) evs"
    "cmd_reads (qdev_addr qdev) evs = vs @ [v]" "list_all ctxt_busy vs" "idle = (\<not> ctxt_busy v)"
    "length vs < n" "\<not> idle \<Longrightarrow> length vs = n - 1"
  using assms
proof (induction n arbitrary: s s' thesis)
  case (Suc n)
  define c where "c = Io (Ioread32 (qdev_addr qdev) QDMA_OFFSET_IND_CTXT_CMD)"
  define r where "r = ext s (trace s) c"
  define s1 where "s1 = s\<lparr>trace := trace s @ [(c, r)]\<rparr>"
  have read: "run_state (qdma_read_reg qdev QDMA_OFFSET_IND_CTXT_CMD) s = (of_int r, s1)"
    by (simp add: run_simps c_def r_def s1_def)
  consider "\<not> ctxt_busy (of_int r)" | "ctxt_busy (of_int r)" "n = 0" | "ctxt_busy (of_int r)" "0 < n"
    by blast
  then show thesis
  proof cases
    case 1
    with Suc.prems read have "idle \<and> s' = s1" by auto
    with 1 show ?thesis
      by (intro Suc.prems(1) [of "[(c, r)]" "[]" "of_int r"]) (auto simp: c_def s1_def)
  next
    case 2
    with Suc.prems read have "\<not> idle \<and> s' = s1" by auto
    with 2 show ?thesis
      by (intro Suc.prems(1) [of "[(c, r)]" "[]" "of_int r"]) (auto simp: c_def s1_def)
  next
    case 3
    define d where "d = Io (Udelay QDMA_CTXT_PROG_POLL_INTERVAL_US)"
    define s2 where "s2 = s1\<lparr>trace := trace s1 @ [(d, ext s1 (trace s1) d)]\<rparr>"
    have rest: "run_state (ctxt_poll qdev n) s2 = (idle, s')"
      using Suc.prems(2) 3 read by (simp add: run_simps d_def s2_def)
    obtain evs vs v where e:
      "s' = s2\<lparr>trace := trace s2 @ evs\<rparr>" "list_all (poll_event (qdev_addr qdev)) evs"
      "cmd_reads (qdev_addr qdev) evs = vs @ [v]" "list_all ctxt_busy vs" "idle = (\<not> ctxt_busy v)"
      "length vs < n" "\<not> idle \<Longrightarrow> length vs = n - 1"
      using Suc.IH [OF _ rest 3(2)] by blast
    show ?thesis
      using e 3 by (intro Suc.prems(1)
          [of "(c, r) # (d, ext s1 (trace s1) d) # evs" "of_int r # vs" v])
        (auto simp: c_def d_def s1_def s2_def)
  qed
qed simp

section \<open>Programming a context refines one command on the store\<close>

lemma upt_8: "[0..<8] = [0, 1, 2, 3, 4, 5, 6, 7 :: nat]"
  by (simp add: upt_rec)

lemma list_update_8:
  "length xs = 8 \<Longrightarrow>
     xs[0 := a0, Suc 0 := a1, 2 := a2, 3 := a3, 4 := a4, 5 := a5, 6 := a6, 7 := a7] =
     [a0, a1, a2, a3, a4, a5, a6, a7]"
  by (auto simp: numeral_eq_Suc length_Suc_conv)

lemma and_ones32 [simp]: "x AND (0xFFFFFFFF :: u32) = x"
proof -
  have "(0xFFFFFFFF :: u32) = - 1" by simp
  then show ?thesis by (simp only: and.right_neutral)
qed

lemma map2_and_ones: "length xs = n \<Longrightarrow> map2 (AND) xs (replicate n (0xFFFFFFFF :: u32)) = xs"
  by (induction xs arbitrary: n) auto

lemma nth_pad8:
  "i < 8 \<Longrightarrow> pad8 data ! i = (if i < length data then data ! i else 0)"
  by (auto simp: pad8_def nth_append)

lemma pad8_list:
  assumes "length data \<le> 8"
  shows "pad8 data = [pad8 data ! 0, pad8 data ! 1, pad8 data ! 2, pad8 data ! 3,
    pad8 data ! 4, pad8 data ! 5, pad8 data ! 6, pad8 data ! 7]"
proof -
  have "length (pad8 data) = 8" using assms by (simp add: pad8_def)
  then show ?thesis by (intro nth_equalityI) (auto simp: numeral_eq_Suc less_Suc_eq_le le_Suc_eq)
qed

text \<open>The sixteen writes that load a context, as data.\<close>

definition data_writes :: "ptr \<Rightarrow> u32 list \<Rightarrow> kcall list" where
  "data_writes b data =
     concat (map (\<lambda>i. [Io (Iowrite32 (pad8 data ! i) b (QDMA_OFFSET_IND_CTXT_DATA + 4 * of_nat i)),
                       Io (Iowrite32 0xFFFFFFFF b (QDMA_OFFSET_IND_CTXT_MASK + 4 * of_nat i))]) [0..<8])"

lemma scripted_write_ctxt_data [script_intro]:
  "scripted (write_ctxt_data qdev data) (data_writes (qdev_addr qdev) data)"
  unfolding write_ctxt_data_def data_writes_def
proof (rule scripted_for_each)
  fix i assume "i \<in> set [0..<8]"
  then have "i < 8" by simp
  show "scripted (do {
       (if i < length data
        then qdma_write_reg qdev (QDMA_OFFSET_IND_CTXT_DATA + 4 * of_nat i) (data ! i)
        else qdma_write_reg qdev (QDMA_OFFSET_IND_CTXT_DATA + 4 * of_nat i) 0);
       qdma_write_reg qdev (QDMA_OFFSET_IND_CTXT_MASK + 4 * of_nat i) 0xFFFFFFFF })
     [Io (Iowrite32 (pad8 data ! i) (qdev_addr qdev) (QDMA_OFFSET_IND_CTXT_DATA + 4 * of_nat i)),
      Io (Iowrite32 0xFFFFFFFF (qdev_addr qdev) (QDMA_OFFSET_IND_CTXT_MASK + 4 * of_nat i))]"
    by (rule scripted_eq, (rule script_intro)+) (simp add: nth_pad8 \<open>i < 8\<close>)
qed

lemma data_writes_access:
  "map fst evs = data_writes b data \<Longrightarrow> list_all (ctxt_access b) evs"
  by (auto simp: data_writes_def upt_8 list_all_iff in_ctxt_window_def)

lemma data_writes_load:
  assumes "length data \<le> 8" "length (cr_data r) = 8" "length (cr_mask r) = 8"
  shows "fold (ctxt_step b) (data_writes b data) r = r\<lparr>cr_data := pad8 data, cr_mask := replicate 8 0xFFFFFFFF\<rparr>"
proof -
  have "fold (ctxt_step b) (data_writes b data) r =
    r\<lparr>cr_data := (cr_data r)[0 := pad8 data ! 0, Suc 0 := pad8 data ! 1, 2 := pad8 data ! 2, 3 := pad8 data ! 3,
        4 := pad8 data ! 4, 5 := pad8 data ! 5, 6 := pad8 data ! 6, 7 := pad8 data ! 7],
      cr_mask := (cr_mask r)[0 := 0xFFFFFFFF, Suc 0 := 0xFFFFFFFF, 2 := 0xFFFFFFFF, 3 := 0xFFFFFFFF, 4 := 0xFFFFFFFF, 5 := 0xFFFFFFFF, 6 := 0xFFFFFFFF, 7 := 0xFFFFFFFF]\<rparr>"
    unfolding data_writes_def upt_8 by (simp add: ctxt_write_def reg_index_def)
  also have "\<dots> = r\<lparr>cr_data := pad8 data, cr_mask := replicate 8 0xFFFFFFFF\<rparr>"
    unfolding list_update_8 [OF assms(2)] list_update_8 [OF assms(3)]
    using pad8_list [OF assms(1)] by (simp add: numeral_eq_Suc)
  finally show ?thesis .
qed

lemma cmd_reads_no_read:
  "list_all (\<lambda>c. \<forall>b off. c \<noteq> Io (Ioread32 b off)) (map fst evs) \<Longrightarrow> cmd_reads b evs = []"
  by (induction b evs rule: cmd_reads.induct) auto

lemma data_writes_no_read:
  "list_all (\<lambda>c. \<forall>b off. c \<noteq> Io (Ioread32 b off)) (data_writes b data)"
  by (simp add: data_writes_def upt_8)

text \<open>Shape of one run: lock, loads, command, poll, unlock.\<close>

definition ctxt_loads :: "ptr \<Rightarrow> qdma_ctxt_cmd \<Rightarrow> u32 list \<Rightarrow> kcall list" where
  "ctxt_loads b cmd data = (if cmd_op cmd = QDMA_CTXT_CMD_OP_WR then data_writes b data else [])"

lemma scripted_ctxt_loads:
  "scripted (if cmd_op cmd = QDMA_CTXT_CMD_OP_WR then write_ctxt_data qdev data else ret ())
     (ctxt_loads (qdev_addr qdev) cmd data)"
  unfolding ctxt_loads_def by (rule script_intro)+

fun data_read :: "ptr \<Rightarrow> event \<Rightarrow> bool" where
  "data_read b (Io (Ioread32 base off), _) =
     (base = b \<and> QDMA_OFFSET_IND_CTXT_DATA \<le> off \<and> off < QDMA_OFFSET_IND_CTXT_MASK)"
| "data_read b _ = False"

lemma data_read_access: "data_read b e \<Longrightarrow> ctxt_access b e \<and> ctxt_quiet b e"
  by (induction b e rule: data_read.induct) (auto simp: in_ctxt_window_def word_le_nat_alt word_less_nat_alt)

lemma data_read_no_poll: "list_all (data_read b) evs \<Longrightarrow> cmd_reads b evs = []"
  by (induction b evs rule: cmd_reads.induct) auto

lemma emits_read_ctxt_data: "emits (data_read (qdev_addr qdev)) (read_ctxt_data qdev data)"
  unfolding read_ctxt_data_def by (intro triple_intro) (auto simp: upt_8)

lemma io_only_read_ctxt_data: "io_only (read_ctxt_data qdev data)"
  unfolding read_ctxt_data_def by (intro io_intro)

lemma qdma_program_ctxt_shape:
  fixes s :: "'z world_scheme"
  assumes run: "run_state (qdma_program_ctxt qdev cmd data) s = ((r, d), s')"
  obtains l pre c polls post u vs v where
    "s' = s\<lparr>trace := trace s @ (Sync (Mutex_lock Ctxt_lock), l) # pre @
        (Io (Iowrite32 (cmd_word cmd) (qdev_addr qdev) QDMA_OFFSET_IND_CTXT_CMD), c) #
        polls @ post @ [(Sync (Mutex_unlock Ctxt_lock), u)]\<rparr>"
    "map fst pre = ctxt_loads (qdev_addr qdev) cmd data"
    "list_all (poll_event (qdev_addr qdev)) polls"
    "cmd_reads (qdev_addr qdev) polls = vs @ [v]" "list_all ctxt_busy vs" "length vs < 5000"
    "r = (if ctxt_busy v then - EBUSY else 0)" "ctxt_busy v \<longrightarrow> length vs = 4999"
    "list_all (data_read (qdev_addr qdev)) post"
proof -
  define lk where "lk = Sync (Mutex_lock Ctxt_lock)"
  define ul where "ul = Sync (Mutex_unlock Ctxt_lock)"
  define w where "w = Io (Iowrite32 (cmd_word cmd) (qdev_addr qdev) QDMA_OFFSET_IND_CTXT_CMD)"
  define s1 where "s1 = s\<lparr>trace := trace s @ [(lk, ext s (trace s) lk)]\<rparr>"
  obtain pre where pre:
    "run_state (if cmd_op cmd = QDMA_CTXT_CMD_OP_WR then write_ctxt_data qdev data else ret ()) s1 =
       ((), s1\<lparr>trace := trace s1 @ pre\<rparr>)" "map fst pre = ctxt_loads (qdev_addr qdev) cmd data"
    using scriptedD [OF scripted_ctxt_loads] by blast
  define s2 where "s2 = s1\<lparr>trace := trace s1 @ pre\<rparr>"
  define s3 where "s3 = s2\<lparr>trace := trace s2 @ [(w, ext s2 (trace s2) w)]\<rparr>"
  obtain idle s4 where poll: "run_state (ctxt_poll qdev 5000) s3 = (idle, s4)"
    by (cases "run_state (ctxt_poll qdev 5000) s3")
  obtain polls vs v where p: "s4 = s3\<lparr>trace := trace s3 @ polls\<rparr>"
    "list_all (poll_event (qdev_addr qdev)) polls"
    "cmd_reads (qdev_addr qdev) polls = vs @ [v]" "list_all ctxt_busy vs" "idle = (\<not> ctxt_busy v)"
    "length vs < 5000" "\<not> idle \<Longrightarrow> length vs = 5000 - 1"
    by (rule ctxt_poll_run [OF poll]) auto
  define rd :: "('z, u32 list) drv" where
    "rd = (if idle \<and> cmd_op cmd = QDMA_CTXT_CMD_OP_RD then read_ctxt_data qdev data else ret data)"
  obtain d' s5 where post: "run_state rd s4 = (d', s5)" by (cases "run_state rd s4")
  have "io_only rd" "emits (data_read (qdev_addr qdev)) rd"
    unfolding rd_def by (auto intro!: io_intro triple_ret io_only_read_ctxt_data emits_read_ctxt_data)
  from io_emitsD [OF this post] obtain post where q:
    "s5 = s4\<lparr>trace := trace s4 @ post\<rparr>" "list_all (data_read (qdev_addr qdev)) post" .
  define s6 where "s6 = s5\<lparr>trace := trace s5 @ [(ul, ext s5 (trace s5) ul)]\<rparr>"
  have steps: "run_state (invoke lk) s = ((), s1)"
    "run_state (qdma_write_reg qdev QDMA_OFFSET_IND_CTXT_CMD (cmd_word cmd)) s2 = ((), s3)"
    "run_state (invoke ul) s5 = ((), s6)"
    by (simp_all add: run_simps s1_def s3_def s6_def w_def)
  have "(r, s') = (if idle then 0 else - EBUSY, s6)"
    using run pre(1) poll post steps
    by (simp add: qdma_program_ctxt_def run_if rd_def flip: lk_def ul_def s2_def split: if_splits)
  then show thesis
    using p q pre(2) by (intro that [of "ext s (trace s) lk" pre "ext s2 (trace s2) w" polls post
          "ext s5 (trace s5) ul" vs v]) (auto simp: s1_def s2_def s3_def s6_def lk_def ul_def w_def)
qed

lemma ctxt_loads_access:
  "map fst pre = ctxt_loads b cmd data \<Longrightarrow> list_all (ctxt_access b) pre"
  by (auto simp: ctxt_loads_def data_writes_access split: if_splits)

lemma ctxt_view_program:
  assumes "map fst pre = ctxt_loads b cmd data" "list_all (poll_event b) polls"
    and "list_all (data_read b) post" "length data \<le> 8"
  shows "cr_store (ctxt_view b (tr @ (Sync (Mutex_lock Ctxt_lock), l) # pre @
      (Io (Iowrite32 (cmd_word cmd) b QDMA_OFFSET_IND_CTXT_CMD), c) #
      polls @ post @ [(Sync (Mutex_unlock Ctxt_lock), u)])) = store_cmd cmd data (cr_store (ctxt_view b tr))"
proof -
  have quiet: "fold (ctxt_step b) (map fst polls) r = r" "fold (ctxt_step b) (map fst post) r = r" for r
    using ctxt.fold_quiet [of b polls r] ctxt.fold_quiet [of b post r] assms(2,3)
      poll_event_access [of b] data_read_access [of b]
    by (auto simp: list_all_iff fold_ctxt_step)
  have len: "length (pad8 data) = 8" using assms(4) by (simp add: pad8_def)
  show ?thesis
    using length_ctxt_view [of b tr]
    by (cases "cmd_op cmd")
      (auto simp: ctxt.view_append fold_ctxt_step quiet assms(1) ctxt_loads_def ctxt_write_def store_cmd_def
        ctxt_exec_cmd_word data_writes_load [OF assms(4)] map2_and_ones [OF len])
qed

text \<open>
  \<open>ctxt_op b f m\<close>: \<open>m\<close> returns 0 or -EBUSY, only accesses the indirect window of the device at
  \<open>b\<close> (and its lock), and changes the contexts of the card by \<open>f\<close>.
\<close>

type_synonym ctxt_store = "4 word \<times> 11 word \<rightharpoonup> u32 list"

fun ctxt_event :: "ptr \<Rightarrow> event \<Rightarrow> bool" where
  "ctxt_event b (Sync (Mutex_lock l), _) = (l = Ctxt_lock)"
| "ctxt_event b (Sync (Mutex_unlock l), _) = (l = Ctxt_lock)"
| "ctxt_event b e = ctxt_access b e"

definition ctxt_op :: "ptr \<Rightarrow> (ctxt_store \<Rightarrow> ctxt_store) \<Rightarrow> ('z, int) drv \<Rightarrow> bool" where
  "ctxt_op b f m \<longleftrightarrow>
     (\<forall>s. \<exists>evs r. run_state m s = (r, s\<lparr>trace := trace s @ evs\<rparr>) \<and> (r = 0 \<or> r = - EBUSY) \<and>
        list_all (ctxt_event b) evs \<and>
        cr_store (ctxt_view b (trace s @ evs)) = f (cr_store (ctxt_view b (trace s))))"

lemma ctxt_opD:
  assumes "ctxt_op b f m" "run_state m s = (r, s')"
  obtains evs where "s' = s\<lparr>trace := trace s @ evs\<rparr>" "r = 0 \<or> r = - EBUSY"
    "list_all (ctxt_event b) evs"
    "cr_store (ctxt_view b (trace s @ evs)) = f (cr_store (ctxt_view b (trace s)))"
proof -
  from assms(1) obtain evs r' where "run_state m s = (r', s\<lparr>trace := trace s @ evs\<rparr>)"
    "r' = 0 \<or> r' = - EBUSY" "list_all (ctxt_event b) evs"
    "cr_store (ctxt_view b (trace s @ evs)) = f (cr_store (ctxt_view b (trace s)))"
    unfolding ctxt_op_def by metis
  with assms(2) show thesis by (intro that [of evs]) auto
qed

lemma ctxt_op_io_only: "ctxt_op b f m \<Longrightarrow> io_only m"
  unfolding ctxt_op_def io_only_def by (metis snd_conv)

text \<open>
  Compositions of such operations: \<open>ctxt_rel b R m\<close> relates the result and the stores before and
  after by \<open>R\<close>.
\<close>

definition ctxt_rel :: "ptr \<Rightarrow> ('a \<Rightarrow> ctxt_store \<Rightarrow> ctxt_store \<Rightarrow> bool) \<Rightarrow> ('z, 'a) drv \<Rightarrow> bool" where
  "ctxt_rel b R m \<longleftrightarrow>
     (\<forall>s. \<exists>evs a. run_state m s = (a, s\<lparr>trace := trace s @ evs\<rparr>) \<and> list_all (ctxt_event b) evs \<and>
        R a (cr_store (ctxt_view b (trace s))) (cr_store (ctxt_view b (trace s @ evs))))"

named_theorems ctxt_rel_intro "composition of operations on the context store"

lemma ctxt_relD:
  assumes "ctxt_rel b R m" "run_state m s = (a, s')"
  obtains evs where "s' = s\<lparr>trace := trace s @ evs\<rparr>" "list_all (ctxt_event b) evs"
    "R a (cr_store (ctxt_view b (trace s))) (cr_store (ctxt_view b (trace s @ evs)))"
proof -
  from assms(1) obtain evs a' where "run_state m s = (a', s\<lparr>trace := trace s @ evs\<rparr>)"
    "list_all (ctxt_event b) evs"
    "R a' (cr_store (ctxt_view b (trace s))) (cr_store (ctxt_view b (trace s @ evs)))"
    unfolding ctxt_rel_def by metis
  with assms(2) show thesis by (intro that [of evs]) auto
qed

lemma ctxt_rel_op: "ctxt_op b f m \<Longrightarrow> ctxt_rel b (\<lambda>r st st'. (r = 0 \<or> r = - EBUSY) \<and> st' = f st) m"
  unfolding ctxt_op_def ctxt_rel_def by metis

lemma ctxt_rel_conseq:
  assumes "ctxt_rel b R m" "\<And>a st st'. R a st st' \<Longrightarrow> S a st st'"
  shows "ctxt_rel b S m"
  using assms unfolding ctxt_rel_def by meson

lemma ctxt_rel_ret [ctxt_rel_intro]: "ctxt_rel b (\<lambda>r st st'. r = a \<and> st' = st) (ret a)"
  by (auto simp: ctxt_rel_def intro: exI [of _ "[]"])

lemma ctxt_rel_bind [ctxt_rel_intro]:
  assumes "ctxt_rel b R m" "\<And>a. ctxt_rel b (S a) (f a)"
  shows "ctxt_rel b (\<lambda>c st st'. \<exists>a st1. R a st st1 \<and> S a c st1 st') (State_Monad.bind m f)"
  unfolding ctxt_rel_def
proof
  fix s
  obtain a s1 where 1: "run_state m s = (a, s1)" by (cases "run_state m s")
  obtain c s2 where 2: "run_state (f a) s1 = (c, s2)" by (cases "run_state (f a) s1")
  from ctxt_relD [OF assms(1) 1] obtain e1 where e1: "s1 = s\<lparr>trace := trace s @ e1\<rparr>"
    "list_all (ctxt_event b) e1" "R a (cr_store (ctxt_view b (trace s))) (cr_store (ctxt_view b (trace s @ e1)))" .
  from ctxt_relD [OF assms(2) 2] obtain e2 where e2: "s2 = s1\<lparr>trace := trace s1 @ e2\<rparr>"
    "list_all (ctxt_event b) e2" "S a c (cr_store (ctxt_view b (trace s1))) (cr_store (ctxt_view b (trace s1 @ e2)))" .
  show "\<exists>evs c. run_state (State_Monad.bind m f) s = (c, s\<lparr>trace := trace s @ evs\<rparr>) \<and>
      list_all (ctxt_event b) evs \<and>
      (\<exists>a st1. R a (cr_store (ctxt_view b (trace s))) st1 \<and> S a c st1 (cr_store (ctxt_view b (trace s @ evs))))"
    using 1 2 e1 e2 by (intro exI [of _ "e1 @ e2"] exI [of _ c]) auto
qed

lemma ctxt_rel_if [ctxt_rel_intro]:
  "(c \<Longrightarrow> ctxt_rel b R m) \<Longrightarrow> (\<not> c \<Longrightarrow> ctxt_rel b S n) \<Longrightarrow>
     ctxt_rel b (\<lambda>a st st'. if c then R a st st' else S a st st') (if c then m else n)"
  by simp

text \<open>The steps of \<open>try_all\<close> up to the first failure.\<close>

fun tried :: "(ctxt_store \<Rightarrow> ctxt_store) list \<Rightarrow> int \<Rightarrow> ctxt_store \<Rightarrow> ctxt_store \<Rightarrow> bool" where
  "tried [] r st st' = (r = 0 \<and> st' = st)"
| "tried (f # fs) r st st' = (r = - EBUSY \<and> st' = f st \<or> tried fs r (f st) st')"

lemma ctxt_rel_try_all:
  "list_all2 (ctxt_op b) fs ms \<Longrightarrow> ctxt_rel b (tried fs) (try_all ms)"
proof (induction fs ms rule: list_all2_induct)
  case Nil
  then show ?case using ctxt_rel_ret [of b 0] by (simp add: ctxt_rel_def)
next
  case (Cons f fs m ms)
  have "ctxt_rel b (\<lambda>c st st'. \<exists>a st1. ((a = 0 \<or> a = - EBUSY) \<and> st1 = f st) \<and>
      (if a < 0 then c = a \<and> st' = st1 else tried fs c st1 st')) (try_all (m # ms))"
    unfolding try_all.simps
    by (intro ctxt_rel_intro ctxt_rel_op Cons)
  then show ?case by (rule ctxt_rel_conseq) (auto split: if_splits)
qed

lemma access_is_event: "ctxt_access b e \<Longrightarrow> ctxt_event b e"
  by (induction b e rule: ctxt_event.induct) auto

lemma program_rc_ctxt_op:
  assumes "length data \<le> 8"
  shows "ctxt_op (qdev_addr qdev) (store_cmd cmd data) (program_rc qdev cmd data)"
  unfolding ctxt_op_def
proof
  fix s
  obtain r d s' where run: "run_state (qdma_program_ctxt qdev cmd data) s = ((r, d), s')"
    by (metis prod.collapse)
  let ?b = "qdev_addr qdev"
  obtain l pre c polls post u vs v where e:
    "s' = s\<lparr>trace := trace s @ (Sync (Mutex_lock Ctxt_lock), l) # pre @
        (Io (Iowrite32 (cmd_word cmd) ?b QDMA_OFFSET_IND_CTXT_CMD), c) #
        polls @ post @ [(Sync (Mutex_unlock Ctxt_lock), u)]\<rparr>"
    "map fst pre = ctxt_loads ?b cmd data" "list_all (poll_event ?b) polls"
    "cmd_reads ?b polls = vs @ [v]" "list_all ctxt_busy vs" "length vs < 5000"
    "r = (if ctxt_busy v then - EBUSY else 0)" "ctxt_busy v \<longrightarrow> length vs = 4999"
    "list_all (data_read ?b) post" by (rule qdma_program_ctxt_shape [OF run])
  have "list_all (ctxt_event ?b) ((Sync (Mutex_lock Ctxt_lock), l) # pre @
        (Io (Iowrite32 (cmd_word cmd) ?b QDMA_OFFSET_IND_CTXT_CMD), c) #
        polls @ post @ [(Sync (Mutex_unlock Ctxt_lock), u)])"
    using ctxt_loads_access [OF e(2)] e(3,9) poll_event_access [of ?b] data_read_access [of ?b]
    by (auto simp: list_all_iff access_is_event in_ctxt_window_def)
  with e ctxt_view_program [OF e(2,3,9) assms]
  show "\<exists>evs r. run_state (program_rc qdev cmd data) s = (r, s\<lparr>trace := trace s @ evs\<rparr>) \<and>
      (r = 0 \<or> r = - EBUSY) \<and> list_all (ctxt_event ?b) evs \<and>
      cr_store (ctxt_view ?b (trace s @ evs)) = store_cmd cmd data (cr_store (ctxt_view ?b (trace s)))"
    using run by (auto simp: program_rc_def)
qed

section \<open>The operations on the store\<close>

named_theorems ctxt_ops "operations on one context of the card"

abbreviation ctxt_key :: "qdma_dev \<Rightarrow> u16 \<Rightarrow> qdma_ctxt_cmd_sel \<Rightarrow> 4 word \<times> 11 word" where
  "ctxt_key qdev qid sel \<equiv> (sel_code sel, ucast (qdma_get_real_qid qdev qid))"

abbreviation fmap_key :: "qdma_dev \<Rightarrow> 4 word \<times> 11 word" where
  "fmap_key qdev \<equiv> (sel_code QDMA_CTXT_CMD_SEL_FMAP, ucast (qdev_func_id qdev))"

lemma program_rc_write:
  "length data \<le> 8 \<Longrightarrow>
     ctxt_op (qdev_addr qdev) (\<lambda>st. st(ctxt_key qdev qid sel \<mapsto> pad8 data))
       (program_rc qdev (queue_cmd qdev qid sel QDMA_CTXT_CMD_OP_WR) data)"
  using program_rc_ctxt_op [of data qdev "queue_cmd qdev qid sel QDMA_CTXT_CMD_OP_WR"]
  by (simp add: store_cmd_def [abs_def] queue_cmd_def)

lemma program_rc_delete:
  "op = QDMA_CTXT_CMD_OP_CLR \<or> op = QDMA_CTXT_CMD_OP_INV \<Longrightarrow>
     ctxt_op (qdev_addr qdev) (\<lambda>st. st(ctxt_key qdev qid sel := None))
       (program_rc qdev (queue_cmd qdev qid sel op) [])"
  using program_rc_ctxt_op [of "[]" qdev "queue_cmd qdev qid sel op"]
  by (auto simp: store_cmd_def [abs_def] queue_cmd_def)

lemma ctxt_op_writes [ctxt_ops]:
  "ctxt_op (qdev_addr qdev) (\<lambda>st. st(ctxt_key qdev qid (sw_sel dir) \<mapsto> pad8 (sw_ctxt_words sw)))
     (qdma_write_sw_ctxt qdev qid dir sw)"
  "ctxt_op (qdev_addr qdev) (\<lambda>st. st(ctxt_key qdev qid QDMA_CTXT_CMD_SEL_PFCH \<mapsto> pad8 (pfch_ctxt_words pf)))
     (qdma_write_pfch_ctxt qdev qid pf)"
  "ctxt_op (qdev_addr qdev) (\<lambda>st. st(ctxt_key qdev qid QDMA_CTXT_CMD_SEL_CMPL \<mapsto> pad8 (cmpl_ctxt_words cc)))
     (qdma_write_cmpl_ctxt qdev qid cc)"
  unfolding qdma_write_sw_ctxt_def qdma_write_pfch_ctxt_def qdma_write_cmpl_ctxt_def
  by (rule program_rc_write, simp)+

lemma ctxt_op_deletes [ctxt_ops]:
  "ctxt_op (qdev_addr qdev) (\<lambda>st. st(ctxt_key qdev qid (sw_sel dir) := None)) (qdma_clear_sw_ctxt qdev qid dir)"
  "ctxt_op (qdev_addr qdev) (\<lambda>st. st(ctxt_key qdev qid (sw_sel dir) := None)) (qdma_invalidate_sw_ctxt qdev qid dir)"
  "ctxt_op (qdev_addr qdev) (\<lambda>st. st(ctxt_key qdev qid (hw_sel dir) := None)) (qdma_clear_hw_ctxt qdev qid dir)"
  "ctxt_op (qdev_addr qdev) (\<lambda>st. st(ctxt_key qdev qid (hw_sel dir) := None)) (qdma_invalidate_hw_ctxt qdev qid dir)"
  "ctxt_op (qdev_addr qdev) (\<lambda>st. st(ctxt_key qdev qid (cr_sel dir) := None)) (qdma_clear_cr_ctxt qdev qid dir)"
  "ctxt_op (qdev_addr qdev) (\<lambda>st. st(ctxt_key qdev qid (cr_sel dir) := None)) (qdma_invalidate_cr_ctxt qdev qid dir)"
  "ctxt_op (qdev_addr qdev) (\<lambda>st. st(ctxt_key qdev qid QDMA_CTXT_CMD_SEL_PFCH := None)) (qdma_clear_pfch_ctxt qdev qid)"
  "ctxt_op (qdev_addr qdev) (\<lambda>st. st(ctxt_key qdev qid QDMA_CTXT_CMD_SEL_PFCH := None)) (qdma_invalidate_pfch_ctxt qdev qid)"
  "ctxt_op (qdev_addr qdev) (\<lambda>st. st(ctxt_key qdev qid QDMA_CTXT_CMD_SEL_CMPL := None)) (qdma_clear_cmpl_ctxt qdev qid)"
  "ctxt_op (qdev_addr qdev) (\<lambda>st. st(ctxt_key qdev qid QDMA_CTXT_CMD_SEL_CMPL := None)) (qdma_invalidate_cmpl_ctxt qdev qid)"
  unfolding qdma_clear_sw_ctxt_def qdma_invalidate_sw_ctxt_def qdma_clear_hw_ctxt_def
    qdma_invalidate_hw_ctxt_def qdma_clear_cr_ctxt_def qdma_invalidate_cr_ctxt_def
    qdma_clear_pfch_ctxt_def qdma_invalidate_pfch_ctxt_def qdma_clear_cmpl_ctxt_def
    qdma_invalidate_cmpl_ctxt_def
  by (rule program_rc_delete, simp)+

lemma program_rc_fmap:
  "ctxt_op (qdev_addr qdev) (\<lambda>st. st(fmap_key qdev \<mapsto> pad8 (fmap_ctxt_words fm)))
     (program_rc qdev (fmap_cmd qdev QDMA_CTXT_CMD_OP_WR) (fmap_ctxt_words fm))"
  using program_rc_ctxt_op [of "fmap_ctxt_words fm" qdev "fmap_cmd qdev QDMA_CTXT_CMD_OP_WR"]
  by (simp add: store_cmd_def [abs_def] fmap_cmd_def)

lemma program_rc_fmap_clear:
  "ctxt_op (qdev_addr qdev) (\<lambda>st. st(fmap_key qdev := None))
     (program_rc qdev (fmap_cmd qdev QDMA_CTXT_CMD_OP_CLR) [])"
  using program_rc_ctxt_op [of "[]" qdev "fmap_cmd qdev QDMA_CTXT_CMD_OP_CLR"]
  by (simp add: store_cmd_def [abs_def] fmap_cmd_def)

lemma decode_pad8 [simp]:
  "sw_ctxt_of_words (pad8 (sw_ctxt_words sw)) = sw"
  "pfch_ctxt_of_words (pad8 (pfch_ctxt_words pf)) = pf"
  "fmap_ctxt_of_words (pad8 (fmap_ctxt_words fm)) = fm"
  "cmpl_ctxt_of_words (pad8 (cmpl_ctxt_words cc)) = cc\<lparr>cc_baddr := cc_baddr cc AND GENMASK 63 12\<rparr>"
  using sw_ctxt_decode [of sw] pfch_ctxt_decode [of pf] fmap_ctxt_decode [of fm] cmpl_ctxt_decode [of cc]
  by (simp_all add: sw_ctxt_of_words_def pfch_ctxt_of_words_def fmap_ctxt_of_words_def
      cmpl_ctxt_of_words_def nth_pad8)

lemma qdma_write_fmap_ctxt_run:
  obtains evs r where
    "run_state (qdma_write_fmap_ctxt qdev fm) s =
       ((r, qdev\<lparr>qdev_q_base := (if r = 0 then ucast (fmap_qbase fm) else 0),
                 qdev_num_queues := (if r = 0 then ucast (fmap_qmax fm) else 0)\<rparr>),
        s\<lparr>trace := trace s @ evs\<rparr>)"
    "r = 0 \<or> r = - EBUSY" "list_all (ctxt_event (qdev_addr qdev)) evs"
    "cr_store (ctxt_view (qdev_addr qdev) (trace s @ evs)) =
       (cr_store (ctxt_view (qdev_addr qdev) (trace s)))(fmap_key qdev \<mapsto> pad8 (fmap_ctxt_words fm))"
proof -
  obtain r s' where run: "run_state (program_rc qdev (fmap_cmd qdev QDMA_CTXT_CMD_OP_WR) (fmap_ctxt_words fm)) s = (r, s')"
    by (metis prod.collapse)
  show thesis
    by (rule ctxt_opD [OF program_rc_fmap run], rule that)
      (use run in \<open>auto simp: qdma_write_fmap_ctxt_def\<close>)
qed

lemma qdma_clear_fmap_ctxt_run:
  obtains evs r where
    "run_state (qdma_clear_fmap_ctxt qdev) s =
       ((r, qdev\<lparr>qdev_q_base := 0, qdev_num_queues := 0\<rparr>), s\<lparr>trace := trace s @ evs\<rparr>)"
    "r = 0 \<or> r = - EBUSY" "list_all (ctxt_event (qdev_addr qdev)) evs"
    "cr_store (ctxt_view (qdev_addr qdev) (trace s @ evs)) =
       (cr_store (ctxt_view (qdev_addr qdev) (trace s)))(fmap_key qdev := None)"
proof -
  let ?q = "qdev\<lparr>qdev_q_base := 0, qdev_num_queues := 0\<rparr>"
  have cmd: "fmap_cmd ?q = fmap_cmd qdev" by (simp add: fun_eq_iff fmap_cmd_def)
  obtain r s' where run: "run_state (program_rc ?q (fmap_cmd ?q QDMA_CTXT_CMD_OP_CLR) []) s = (r, s')"
    by (metis prod.collapse)
  show thesis
    by (rule ctxt_opD [OF program_rc_fmap_clear run], rule that)
      (use run in \<open>auto simp: qdma_clear_fmap_ctxt_def cmd Let_def\<close>)
qed

lemma qdma_invalidate_is_clear: "qdma_invalidate_fmap_ctxt qdev = qdma_clear_fmap_ctxt qdev"
  by (simp add: qdma_invalidate_fmap_ctxt_def qdma_clear_fmap_ctxt_def)

section \<open>Properties\<close>

text \<open>C22. \<open>qdma_program_ctxt\<close> returns 0 or -EBUSY after at most 5000 reads of the command register, and
  times out exactly when it made 5000 reads that were all busy.\<close>
theorem program_ctxt_timeout:
  "case run_state (qdma_program_ctxt qdev cmd data) s of ((r, d), s') \<Rightarrow>
    \<exists>evs. trace s' = trace s @ evs \<and>
      (let vs = cmd_reads (qdev_addr qdev) evs in
        1 \<le> length vs \<and> length vs \<le> 5000 \<and> list_all ctxt_busy (butlast vs) \<and>
        (r = 0 \<and> \<not> ctxt_busy (last vs) \<or>
         r = - EBUSY \<and> length vs = 5000 \<and> ctxt_busy (last vs)))"
proof -
  obtain r d s' where run: "run_state (qdma_program_ctxt qdev cmd data) s = ((r, d), s')"
    by (metis prod.collapse)
  let ?b = "qdev_addr qdev"
  obtain l pre c polls post u vs v where e:
    "s' = s\<lparr>trace := trace s @ (Sync (Mutex_lock Ctxt_lock), l) # pre @
        (Io (Iowrite32 (cmd_word cmd) ?b QDMA_OFFSET_IND_CTXT_CMD), c) #
        polls @ post @ [(Sync (Mutex_unlock Ctxt_lock), u)]\<rparr>"
    "map fst pre = ctxt_loads ?b cmd data" "list_all (poll_event ?b) polls"
    "cmd_reads ?b polls = vs @ [v]" "list_all ctxt_busy vs" "length vs < 5000"
    "r = (if ctxt_busy v then - EBUSY else 0)" "ctxt_busy v \<longrightarrow> length vs = 4999"
    "list_all (data_read ?b) post" by (rule qdma_program_ctxt_shape [OF run])
  have "cmd_reads ?b pre = []"
    by (rule cmd_reads_no_read) (use e(2) data_writes_no_read [of ?b data] in \<open>auto simp: ctxt_loads_def\<close>)
  then show ?thesis using run e data_read_no_poll [OF e(9)] by (auto simp: Let_def)
qed

text \<open>C21. Mutual exclusion: every call of \<open>qdma_program_ctxt\<close>, timeout included, takes
  \<^verbatim>\<open>ctxt_lock\<close> first, releases it last, and in between only accesses the indirect window of its device.\<close>
theorem program_ctxt_locked:
  "case run_state (qdma_program_ctxt qdev cmd data) s of ((r, d), s') \<Rightarrow>
     \<exists>l body u. trace s' = trace s @ (Sync (Mutex_lock Ctxt_lock), l) # body @ [(Sync (Mutex_unlock Ctxt_lock), u)] \<and>
       list_all (ctxt_access (qdev_addr qdev)) body"
proof -
  obtain r d s' where run: "run_state (qdma_program_ctxt qdev cmd data) s = ((r, d), s')"
    by (metis prod.collapse)
  let ?b = "qdev_addr qdev"
  obtain l pre c polls post u vs v where e:
    "s' = s\<lparr>trace := trace s @ (Sync (Mutex_lock Ctxt_lock), l) # pre @
        (Io (Iowrite32 (cmd_word cmd) ?b QDMA_OFFSET_IND_CTXT_CMD), c) #
        polls @ post @ [(Sync (Mutex_unlock Ctxt_lock), u)]\<rparr>"
    "map fst pre = ctxt_loads ?b cmd data" "list_all (poll_event ?b) polls"
    "cmd_reads ?b polls = vs @ [v]" "list_all ctxt_busy vs" "length vs < 5000"
    "r = (if ctxt_busy v then - EBUSY else 0)" "ctxt_busy v \<longrightarrow> length vs = 4999"
    "list_all (data_read ?b) post" by (rule qdma_program_ctxt_shape [OF run])
  have "list_all (ctxt_access ?b) (pre @
      (Io (Iowrite32 (cmd_word cmd) ?b QDMA_OFFSET_IND_CTXT_CMD), c) # polls @ post)"
    using ctxt_loads_access [OF e(2)] e(3,9) poll_event_access [of ?b] data_read_access [of ?b]
    by (auto simp: list_all_iff in_ctxt_window_def)
  then show ?thesis unfolding run e(1) by fastforce
qed

text \<open>C23. A software context written through \<open>qdma_write_sw_ctxt\<close> is, on the card, exactly the context the
  caller passed, under the physical number of the queue and its direction; no other context changes.\<close>
theorem sw_ctxt_programmed:
  "case run_state (qdma_write_sw_ctxt qdev qid dir ctxt) s of (r, s') \<Rightarrow>
     (let b = qdev_addr qdev; k = ctxt_key qdev qid (sw_sel dir);
          old = cr_store (ctxt_view b (trace s)); new = cr_store (ctxt_view b (trace s'))
      in (r = 0 \<or> r = - EBUSY) \<and> map_option sw_ctxt_of_words (new k) = Some ctxt \<and>
         new(k := None) = old(k := None))"
proof -
  obtain r s' where run: "run_state (qdma_write_sw_ctxt qdev qid dir ctxt) s = (r, s')"
    by (metis prod.collapse)
  show ?thesis
    by (rule ctxt_opD [OF ctxt_op_writes(1) run]) (use run in \<open>auto simp: Let_def\<close>)
qed

end
