(* ===== verification/Onic.thy ===== *)
theory Onic
  imports Qdma_Context
begin

text \<open>
  \<^verbatim>\<open>onic.h\<close>, \<^verbatim>\<open>onic_hardware.h\<close>, \<^verbatim>\<open>onic_vf.h\<close>, \<^verbatim>\<open>onic_vf_hw.h\<close> and \<^verbatim>\<open>onic_mbox.h\<close>: the data of the
  driver. Every struct is a record, in the order of its fields; an object from the heap carries the
  address \<^verbatim>\<open>kfree\<close> takes. Back pointers to the device, kernel objects and the XDP fields of the PF
  queues are left out. The private data of a device lives in the state next to the world: an
  operation that takes \<^verbatim>\<open>priv\<close> is a state transformer on \<open>drv_state\<close>.
\<close>

abbreviation (input) ONIC_MAX_QUEUES :: nat where "ONIC_MAX_QUEUES \<equiv> 64"
abbreviation (input) ONIC_MAX_VFS :: nat where "ONIC_MAX_VFS \<equiv> 4"
abbreviation (input) ONIC_FLAG_MASTER_PF :: nat where "ONIC_FLAG_MASTER_PF \<equiv> 0"
abbreviation (input) ETH_ALEN :: nat where "ETH_ALEN \<equiv> 6"
abbreviation (input) ETH_ZLEN :: nat where "ETH_ZLEN \<equiv> 60"
abbreviation (input) PAGE_SIZE :: nat where "PAGE_SIZE \<equiv> 4096"
abbreviation (input) XDP_PACKET_HEADROOM :: nat where "XDP_PACKET_HEADROOM \<equiv> 256"

text \<open>\<^verbatim>\<open>is_valid_ether_addr\<close>: not multicast (bit 0 of the first byte), not zero.\<close>

definition is_valid_ether_addr :: "u8 list \<Rightarrow> bool" where
  "is_valid_ether_addr a \<longleftrightarrow> \<not> bit (a ! 0) 0 \<and> \<not> list_all (\<lambda>b. b = 0) (take ETH_ALEN a)"

text \<open>The bytes \<^verbatim>\<open>eth_random_addr\<close> stores are chosen outside.\<close>

definition eth_random_addr :: "('z, u8 list) drv" where
  "eth_random_addr = for_each_acc [0..<ETH_ALEN] (\<lambda>k mac. do {
     r \<leftarrow> perform (Sync (Random_mac_byte k));
     ret (mac @ [of_int r]) }) []"

section \<open>Rings, buffers and queues (onic.h)\<close>

text \<open>The buffer types are the single bits \<^verbatim>\<open>ONIC_TX_SKB\<close>, \<^verbatim>\<open>ONIC_TX_XDPF\<close>, \<^verbatim>\<open>ONIC_TX_XDPF_XMIT\<close>; 0 is a free entry.\<close>

abbreviation (input) ONIC_TX_SKB :: u32 where "ONIC_TX_SKB \<equiv> 1"
abbreviation (input) ONIC_TX_XDPF :: u32 where "ONIC_TX_XDPF \<equiv> 2"
abbreviation (input) ONIC_TX_XDPF_XMIT :: u32 where "ONIC_TX_XDPF_XMIT \<equiv> 4"

record onic_tx_buffer =
  tb_type :: u32
  tb_skb :: ptr
  tb_dma_addr :: dma_addr
  tb_len :: u32
  tb_time_stamp :: u64

record onic_rx_buffer =
  rb_pg :: ptr
  rb_offset :: u32
  rb_time_stamp :: u64

record onic_ring =
  ring_count :: u16
  ring_desc :: ptr
  ring_wb :: ptr
  ring_dma_addr :: dma_addr
  ring_next_to_use :: u16
  ring_next_to_clean :: u16
  ring_color :: u8

record onic_q_vector =
  qv_self :: ptr
  qv_vid :: u16

record onic_tx_queue =
  tq_self :: ptr
  tq_qid :: u16
  tq_state :: u32
  tq_buffer_ptr :: ptr
  tq_buffer :: "onic_tx_buffer list"
  tq_ring :: onic_ring
  tq_vector :: "onic_q_vector option"
  tq_xdp_xmit :: u64
  tq_xdp_xmit_err :: u64

record xdp_rx_stats =
  xs_redirect :: u64
  xs_pass :: u64
  xs_drop :: u64
  xs_tx :: u64
  xs_tx_err :: u64

definition zero_xdp_stats :: xdp_rx_stats where
  "zero_xdp_stats = \<lparr>xs_redirect = 0, xs_pass = 0, xs_drop = 0, xs_tx = 0, xs_tx_err = 0\<rparr>"

record onic_rx_queue =
  rq_self :: ptr
  rq_qid :: u16
  rq_state :: u32
  rq_buffer_ptr :: ptr
  rq_buffer :: "onic_rx_buffer list"
  rq_desc_ring :: onic_ring
  rq_cmpl_ring :: onic_ring
  rq_vector :: "onic_q_vector option"
  rq_xdp_prog :: ptr
  rq_xdp_rxq :: bool             \<comment> \<open>whether the info is registered\<close>
  rq_page_pool :: ptr
  rq_xdp_stats :: xdp_rx_stats

section \<open>Mailbox messages (onic_mbox.h)\<close>

abbreviation (input) ONIC_MBOX_MSG_SIZE :: nat where "ONIC_MBOX_MSG_SIZE \<equiv> 128"
abbreviation (input) ONIC_MBOX_MAX_PAYLOAD :: nat where "ONIC_MBOX_MAX_PAYLOAD \<equiv> 112"
abbreviation (input) ONIC_MBOX_OP_GET_QUEUE_RES :: u32 where "ONIC_MBOX_OP_GET_QUEUE_RES \<equiv> 0x01"
abbreviation (input) ONIC_MBOX_OP_QUEUE_RES_RESP :: u32 where "ONIC_MBOX_OP_QUEUE_RES_RESP \<equiv> 0x02"
abbreviation (input) ONIC_MBOX_OP_CONFIG_QUEUE :: u32 where "ONIC_MBOX_OP_CONFIG_QUEUE \<equiv> 0x03"
abbreviation (input) ONIC_MBOX_OP_CONFIG_QUEUE_RESP :: u32 where "ONIC_MBOX_OP_CONFIG_QUEUE_RESP \<equiv> 0x04"
abbreviation (input) ONIC_MBOX_OP_CLEAR_QUEUE :: u32 where "ONIC_MBOX_OP_CLEAR_QUEUE \<equiv> 0x05"
abbreviation (input) ONIC_MBOX_OP_CLEAR_QUEUE_RESP :: u32 where "ONIC_MBOX_OP_CLEAR_QUEUE_RESP \<equiv> 0x06"
abbreviation (input) ONIC_MBOX_QUEUE_DIR_TX :: u32 where "ONIC_MBOX_QUEUE_DIR_TX \<equiv> 0"
abbreviation (input) ONIC_MBOX_QUEUE_DIR_RX :: u32 where "ONIC_MBOX_QUEUE_DIR_RX \<equiv> 1"
abbreviation (input) ONIC_MBOX_STS_OK :: u32 where "ONIC_MBOX_STS_OK \<equiv> 0x00"
abbreviation (input) ONIC_MBOX_STS_ERR :: u32 where "ONIC_MBOX_STS_ERR \<equiv> 0x01"

record onic_mbox_hdr =
  mh_opcode :: u32
  mh_status :: u32
  mh_seq :: u32
  mh_len :: u32

record onic_mbox_queue_res =
  qr_func_id :: u32
  qr_qbase :: u32
  qr_qmax :: u32
  qr_mac :: "u8 list"

record onic_mbox_queue_cfg =
  qc_qid :: u32
  qc_dir :: u32
  qc_vector :: u32
  qc_rngcnt_idx :: u32
  qc_bufsz_idx :: u32
  qc_cmpl_rngcnt_idx :: u32
  qc_cmpl_desc_sz :: u32
  qc_reserved :: u32
  qc_desc_dma_lo :: u32
  qc_desc_dma_hi :: u32
  qc_cmpl_dma_lo :: u32
  qc_cmpl_dma_hi :: u32

record onic_mbox_queue_clear =
  ql_qid :: u32
  ql_dir :: u32

record onic_mbox_queue_cmd_resp =
  qp_qid :: u32
  qp_dir :: u32

text \<open>The payload union is its 28 words; the members are views of it.\<close>

record onic_mbox_msg =
  mb_hdr :: onic_mbox_hdr
  mb_data :: "u32 list"

text \<open>The sizes of the union's members, in bytes.\<close>

abbreviation (input) sizeof_queue_res :: u32 where "sizeof_queue_res \<equiv> 20"
abbreviation (input) sizeof_queue_cfg :: u32 where "sizeof_queue_cfg \<equiv> 48"
abbreviation (input) sizeof_queue_clear :: u32 where "sizeof_queue_clear \<equiv> 8"
abbreviation (input) sizeof_queue_cmd_resp :: u32 where "sizeof_queue_cmd_resp \<equiv> 8"

definition zero_hdr :: onic_mbox_hdr where
  "zero_hdr = \<lparr>mh_opcode = 0, mh_status = 0, mh_seq = 0, mh_len = 0\<rparr>"

definition zero_msg :: onic_mbox_msg where
  "zero_msg = \<lparr>mb_hdr = zero_hdr, mb_data = replicate 28 0\<rparr>"

text \<open>\<open>put_words ws data\<close>: \<open>ws\<close> stored over the front of the union.\<close>

definition put_words :: "u32 list \<Rightarrow> u32 list \<Rightarrow> u32 list" where
  "put_words ws data = ws @ drop (length ws) data"

definition qres_words :: "onic_mbox_queue_res \<Rightarrow> u32 list" where
  "qres_words r =
     [qr_func_id r, qr_qbase r, qr_qmax r,
      ucast (qr_mac r ! 0) OR push_bit 8 (ucast (qr_mac r ! 1)) OR
      push_bit 16 (ucast (qr_mac r ! 2)) OR push_bit 24 (ucast (qr_mac r ! 3)),
      ucast (qr_mac r ! 4) OR push_bit 8 (ucast (qr_mac r ! 5))]"

definition qres_of_words :: "u32 list \<Rightarrow> onic_mbox_queue_res" where
  "qres_of_words ws = \<lparr>qr_func_id = ws ! 0, qr_qbase = ws ! 1, qr_qmax = ws ! 2,
     qr_mac = [ucast (ws ! 3), ucast (drop_bit 8 (ws ! 3)), ucast (drop_bit 16 (ws ! 3)),
               ucast (drop_bit 24 (ws ! 3)), ucast (ws ! 4), ucast (drop_bit 8 (ws ! 4))]\<rparr>"

definition qcfg_words :: "onic_mbox_queue_cfg \<Rightarrow> u32 list" where
  "qcfg_words c =
     [qc_qid c, qc_dir c, qc_vector c, qc_rngcnt_idx c, qc_bufsz_idx c, qc_cmpl_rngcnt_idx c,
      qc_cmpl_desc_sz c, qc_reserved c, qc_desc_dma_lo c, qc_desc_dma_hi c, qc_cmpl_dma_lo c, qc_cmpl_dma_hi c]"

definition qcfg_of_words :: "u32 list \<Rightarrow> onic_mbox_queue_cfg" where
  "qcfg_of_words ws = \<lparr>qc_qid = ws ! 0, qc_dir = ws ! 1, qc_vector = ws ! 2, qc_rngcnt_idx = ws ! 3,
     qc_bufsz_idx = ws ! 4, qc_cmpl_rngcnt_idx = ws ! 5, qc_cmpl_desc_sz = ws ! 6, qc_reserved = ws ! 7,
     qc_desc_dma_lo = ws ! 8, qc_desc_dma_hi = ws ! 9, qc_cmpl_dma_lo = ws ! 10, qc_cmpl_dma_hi = ws ! 11\<rparr>"

definition qclear_words :: "onic_mbox_queue_clear \<Rightarrow> u32 list" where
  "qclear_words c = [ql_qid c, ql_dir c]"

definition qclear_of_words :: "u32 list \<Rightarrow> onic_mbox_queue_clear" where
  "qclear_of_words ws = \<lparr>ql_qid = ws ! 0, ql_dir = ws ! 1\<rparr>"

definition qcmd_resp_words :: "onic_mbox_queue_cmd_resp \<Rightarrow> u32 list" where
  "qcmd_resp_words c = [qp_qid c, qp_dir c]"

definition qcmd_resp_of_words :: "u32 list \<Rightarrow> onic_mbox_queue_cmd_resp" where
  "qcmd_resp_of_words ws = \<lparr>qp_qid = ws ! 0, qp_dir = ws ! 1\<rparr>"

text \<open>A message as the 32 words of its memory, and back.\<close>

definition msg_words :: "onic_mbox_msg \<Rightarrow> u32 list" where
  "msg_words m = [mh_opcode (mb_hdr m), mh_status (mb_hdr m), mh_seq (mb_hdr m), mh_len (mb_hdr m)] @ mb_data m"

definition msg_of_words :: "u32 list \<Rightarrow> onic_mbox_msg" where
  "msg_of_words ws = \<lparr>mb_hdr = \<lparr>mh_opcode = ws ! 0, mh_status = ws ! 1, mh_seq = ws ! 2, mh_len = ws ! 3\<rparr>,
     mb_data = drop 4 ws\<rparr>"

section \<open>Devices (onic_hardware.h, onic_vf.h, onic_vf_hw.h)\<close>

record onic_hardware =
  hw_RS_FEC :: bool
  hw_qdma :: "qdma_dev option"
  hw_num_cmacs :: u8
  hw_addr :: ptr

definition zero_hardware :: onic_hardware where
  "zero_hardware = \<lparr>hw_RS_FEC = False, hw_qdma = None, hw_num_cmacs = 0, hw_addr = 0\<rparr>"

record onic_vf_resource =
  vr_vf_id :: u16
  vr_func_id :: u16
  vr_qbase :: u16
  vr_qmax :: u16
  vr_num_tx_queues :: u16
  vr_num_rx_queues :: u16
  vr_mac :: "u8 list"
  vr_enabled :: bool

definition zero_vf_resource :: onic_vf_resource where
  "zero_vf_resource = \<lparr>vr_vf_id = 0, vr_func_id = 0, vr_qbase = 0, vr_qmax = 0,
     vr_num_tx_queues = 0, vr_num_rx_queues = 0, vr_mac = replicate 6 0, vr_enabled = False\<rparr>"

text \<open>\<open>vf_mbox_done\<close> is the count of the completion: \<^verbatim>\<open>complete\<close> adds one, a successful wait takes one.\<close>

record onic_vf_hardware =
  vf_qdev :: "qdma_dev option"
  vf_mbox_seq :: u32
  vf_mbox_done :: nat
  vf_mbox_resp :: onic_mbox_msg
  vf_mbox_irq_allocated :: bool
  vf_mbox_vector :: u16
  vf_func_id :: u16
  vf_qbase :: u16
  vf_qmax :: u16
  vf_num_tx_queues :: u16
  vf_num_rx_queues :: u16
  vf_mac :: "u8 list"
  vf_resource_valid :: bool
  vf_bar0 :: ptr
  vf_bar2 :: ptr
  vf_bar0_len :: u64
  vf_bar2_len :: u64

record link_stats =
  st_rx_packets :: u64
  st_rx_bytes :: u64
  st_rx_errors :: u64
  st_rx_dropped :: u64
  st_tx_packets :: u64
  st_tx_bytes :: u64
  st_tx_errors :: u64
  st_tx_dropped :: u64

record onic_netdev =
  nd_mtu :: int
  nd_min_mtu :: int
  nd_max_mtu :: int
  nd_dev_addr :: "u8 list"

record onic_private =
  pr_devfn :: u32
  pr_state :: u32
  pr_flags :: u32
  pr_RS_FEC :: bool
  pr_num_q_vectors :: u16
  pr_num_tx_queues :: u16
  pr_num_rx_queues :: u16
  pr_netdev :: "onic_netdev option"
  pr_xdp_prog :: ptr
  pr_netdev_stats :: "link_stats list option"
  pr_q_vector :: "nat \<Rightarrow> onic_q_vector option"
  pr_tx_queue :: "nat \<Rightarrow> onic_tx_queue option"
  pr_rx_queue :: "nat \<Rightarrow> onic_rx_queue option"
  pr_hw :: onic_hardware
  pr_vf_hw :: onic_vf_hardware
  pr_vf_res :: "onic_vf_resource list"
  pr_num_vfs :: u16

text \<open>The private data as \<^verbatim>\<open>alloc_etherdev_mq\<close> leaves it: zero.\<close>

definition zero_vf_hardware :: onic_vf_hardware where
  "zero_vf_hardware = \<lparr>vf_qdev = None, vf_mbox_seq = 0, vf_mbox_done = 0, vf_mbox_resp = zero_msg,
     vf_mbox_irq_allocated = False, vf_mbox_vector = 0, vf_func_id = 0, vf_qbase = 0, vf_qmax = 0,
     vf_num_tx_queues = 0, vf_num_rx_queues = 0, vf_mac = replicate 6 0, vf_resource_valid = False,
     vf_bar0 = 0, vf_bar2 = 0, vf_bar0_len = 0, vf_bar2_len = 0\<rparr>"

definition zero_private :: onic_private where
  "zero_private = \<lparr>pr_devfn = 0, pr_state = 0, pr_flags = 0, pr_RS_FEC = False, pr_num_q_vectors = 0, pr_num_tx_queues = 0,
     pr_num_rx_queues = 0, pr_netdev = None, pr_xdp_prog = 0, pr_netdev_stats = None, pr_q_vector = (\<lambda>_. None),
     pr_tx_queue = (\<lambda>_. None), pr_rx_queue = (\<lambda>_. None), pr_hw = zero_hardware, pr_vf_hw = zero_vf_hardware,
     pr_vf_res = replicate ONIC_MAX_VFS zero_vf_resource, pr_num_vfs = 0\<rparr>"

section \<open>The state of the driver\<close>

record drv_state = world +
  priv :: onic_private

type_synonym 'a onic = "(drv_state, 'a) state"

definition get_priv :: "onic_private onic" where
  "get_priv = do { s \<leftarrow> get_state; ret (priv s) }"

definition upd_priv :: "(onic_private \<Rightarrow> onic_private) \<Rightarrow> unit onic" where
  "upd_priv f = modify_state (priv_update f)"

definition upd_hw :: "(onic_hardware \<Rightarrow> onic_hardware) \<Rightarrow> unit onic" where
  "upd_hw f = upd_priv (pr_hw_update f)"

definition upd_vf_hw :: "(onic_vf_hardware \<Rightarrow> onic_vf_hardware) \<Rightarrow> unit onic" where
  "upd_vf_hw f = upd_priv (pr_vf_hw_update f)"

lemma run_get_priv [run_simps]: "run_state get_priv s = (priv s, s)"
  by (simp add: get_priv_def)

lemma run_upd_priv [run_simps]: "run_state (upd_priv f) s = ((), s\<lparr>priv := f (priv s)\<rparr>)"
  by (simp add: upd_priv_def)

lemma run_upd_hw [run_simps]: "run_state (upd_hw f) s = ((), s\<lparr>priv := pr_hw_update f (priv s)\<rparr>)"
  by (simp add: upd_hw_def run_simps)

lemma run_upd_vf_hw [run_simps]: "run_state (upd_vf_hw f) s = ((), s\<lparr>priv := pr_vf_hw_update f (priv s)\<rparr>)"
  by (simp add: upd_vf_hw_def run_simps)

lemma emits_priv [triple_intro]:
  "emits P get_priv" "emits P (upd_priv f)" "emits P (upd_hw g)" "emits P (upd_vf_hw h)"
  by (rule tripleI, auto simp: run_simps)+

lemma io_only_get_priv [io_intro]: "io_only get_priv"
  by (auto simp: io_only_def run_simps intro: exI [of _ "[]"])

lemma io_only_priv:
  assumes "io_only m" "run_state m s = (a, s')"
  shows "priv s' = priv s"
  using io_onlyD [OF assms] by (metis drv_state.select_convs(1) drv_state.surjective drv_state.update_convs(1) world.update_convs(2))

section \<open>Relations on the private data and a view of the outside\<close>

text \<open>
  \<open>onic_rel V R m\<close>: \<open>m\<close> changes nothing but the trace and the private data, and relates by \<open>R\<close> its
  result, the private data and the view \<open>V\<close> of the trace before and after. \<open>after s evs p\<close> is the state of
  such a run.
\<close>

abbreviation after :: "drv_state \<Rightarrow> event list \<Rightarrow> onic_private \<Rightarrow> drv_state" where
  "after s evs p \<equiv> s\<lparr>trace := trace s @ evs, priv := p\<rparr>"

definition onic_rel ::
  "(event list \<Rightarrow> 'd) \<Rightarrow> ('a \<Rightarrow> onic_private \<times> 'd \<Rightarrow> onic_private \<times> 'd \<Rightarrow> bool) \<Rightarrow> 'a onic \<Rightarrow> bool" where
  "onic_rel V R m \<longleftrightarrow>
     (\<forall>s. \<exists>evs p' a. run_state m s = (a, after s evs p') \<and> R a (priv s, V (trace s)) (p', V (trace s @ evs)))"

named_theorems onic_rel_intro "composition of operations on the private data and a view"

lemma onic_relD:
  assumes "onic_rel V R m" "run_state m s = (a, s')"
  obtains evs p' where "s' = after s evs p'" "R a (priv s, V (trace s)) (p', V (trace s @ evs))"
proof -
  from assms(1) obtain evs p' a' where "run_state m s = (a', after s evs p')"
    "R a' (priv s, V (trace s)) (p', V (trace s @ evs))"
    unfolding onic_rel_def by metis
  with assms(2) show thesis by (intro that) auto
qed

lemma onic_relI:
  assumes "\<And>s a s'. run_state m s = (a, s') \<Longrightarrow>
    \<exists>evs p'. s' = after s evs p' \<and> R a (priv s, V (trace s)) (p', V (trace s @ evs))"
  shows "onic_rel V R m"
  unfolding onic_rel_def by (metis assms prod.collapse)

lemma onic_rel_conseq: "onic_rel V R m \<Longrightarrow> (\<And>a x y. R a x y \<Longrightarrow> S a x y) \<Longrightarrow> onic_rel V S m"
  unfolding onic_rel_def by meson

lemma onic_rel_ret [onic_rel_intro]: "onic_rel V (\<lambda>a x y. a = c \<and> y = x) (ret c)"
  unfolding onic_rel_def by (auto intro!: exI [of _ "[]"])

lemma onic_rel_get_priv [onic_rel_intro]: "onic_rel V (\<lambda>a x y. a = fst x \<and> y = x) get_priv"
  unfolding onic_rel_def by (auto simp: run_simps intro!: exI [of _ "[]"])

lemma onic_rel_upd [onic_rel_intro]:
  "onic_rel V (\<lambda>a x y. y = (f (fst x), snd x)) (upd_priv f)"
  "onic_rel V (\<lambda>a x y. y = (pr_hw_update g (fst x), snd x)) (upd_hw g)"
  "onic_rel V (\<lambda>a x y. y = (pr_vf_hw_update h (fst x), snd x)) (upd_vf_hw h)"
  unfolding onic_rel_def by (auto simp: run_simps intro!: exI [of _ "[]"])

lemma onic_rel_bind [onic_rel_intro]:
  assumes "onic_rel V R m" "\<And>a. onic_rel V (S a) (f a)"
  shows "onic_rel V (\<lambda>c x z. \<exists>a y. R a x y \<and> S a c y z) (State_Monad.bind m f)"
  unfolding onic_rel_def
proof
  fix s
  obtain a s1 where 1: "run_state m s = (a, s1)" by (cases "run_state m s")
  obtain c s2 where 2: "run_state (f a) s1 = (c, s2)" by (cases "run_state (f a) s1")
  from onic_relD [OF assms(1) 1] obtain e1 p1 where e1: "s1 = after s e1 p1"
    "R a (priv s, V (trace s)) (p1, V (trace s @ e1))" .
  from onic_relD [OF assms(2) 2] obtain e2 p2 where e2: "s2 = after s1 e2 p2"
    "S a c (priv s1, V (trace s1)) (p2, V (trace s1 @ e2))" .
  have "run_state (State_Monad.bind m f) s = (c, after s (e1 @ e2) p2)"
    using 1 2 by (simp add: e1(1) e2(1))
  moreover have "S a c (p1, V (trace s @ e1)) (p2, V (trace s @ (e1 @ e2)))"
    using e2(2) by (simp add: e1(1))
  ultimately show "\<exists>evs p' c. run_state (State_Monad.bind m f) s = (c, after s evs p') \<and>
      (\<exists>a y. R a (priv s, V (trace s)) y \<and> S a c y (p', V (trace s @ evs)))"
    using e1(2) by blast
qed

lemma onic_rel_if [onic_rel_intro]:
  "(c \<Longrightarrow> onic_rel V R m) \<Longrightarrow> (\<not> c \<Longrightarrow> onic_rel V S n) \<Longrightarrow>
     onic_rel V (\<lambda>a x y. if c then R a x y else S a x y) (if c then m else n)"
  by simp

lemma onic_rel_option [onic_rel_intro]:
  "onic_rel V R m \<Longrightarrow> (\<And>z. onic_rel V (S z) (f z)) \<Longrightarrow>
     onic_rel V (\<lambda>a x y. case o' of None \<Rightarrow> R a x y | Some z \<Rightarrow> S z a x y) (case o' of None \<Rightarrow> m | Some z \<Rightarrow> f z)"
  by (cases o') auto

lemma onic_rel_let [onic_rel_intro]:
  "(\<And>z. onic_rel V (R z) (f z)) \<Longrightarrow> onic_rel V (R c) (let z = c in f z)"
  by simp

context trace_view
begin

lemma rel_perform: "onic_rel view (\<lambda>a x y. y = (fst x, step (c, a) (snd x))) (perform c)"
  by (rule onic_relI) (auto simp: run_perform view_append intro!: exI)

lemma rel_invoke: "onic_rel view (\<lambda>a x y. \<exists>r. y = (fst x, step (c, r) (snd x))) (invoke c)"
  by (rule onic_relI) (auto simp: run_invoke view_append intro!: exI)

lemma rel_quiet:
  assumes "io_only m" "emits quiet m"
  shows "onic_rel view (\<lambda>a x y. y = x) m"
proof (rule onic_relI)
  fix s :: drv_state and a s'
  assume "run_state m s = (a, s')"
  from io_emitsD [OF assms this] obtain evs where "s' = s\<lparr>trace := trace s @ evs\<rparr>" "list_all quiet evs" .
  then show "\<exists>evs p'. s' = after s evs p' \<and> (p', view (trace s @ evs)) = (priv s, view (trace s))"
    by (intro exI [of _ evs] exI [of _ "priv s"]) (simp add: view_quiet)
qed

end

section \<open>Message layout\<close>

lemma length_put_words [simp]: "length ws \<le> length data \<Longrightarrow> length (put_words ws data) = length data"
  by (simp add: put_words_def)

lemma nth_put_words: "i < length ws \<Longrightarrow> put_words ws data ! i = ws ! i"
  by (simp add: put_words_def nth_append)

lemma qcfg_round: "qcfg_of_words (put_words (qcfg_words c) data) = c"
  by (simp add: qcfg_of_words_def qcfg_words_def put_words_def)

lemma qclear_round: "qclear_of_words (put_words (qclear_words c) data) = c"
  by (simp add: qclear_of_words_def qclear_words_def put_words_def)

lemma qcmd_resp_round: "qcmd_resp_of_words (put_words (qcmd_resp_words c) data) = c"
  by (simp add: qcmd_resp_of_words_def qcmd_resp_words_def put_words_def)

lemma ucast_or: "ucast (a OR b) = ucast a OR (ucast b :: 'b::len word)"
  by (rule bit_eqI) (auto simp: bit_simps)

lemma byte_fields:
  fixes a b c d :: u8
  defines "w \<equiv> ucast a OR push_bit 8 (ucast b) OR push_bit 16 (ucast c) OR push_bit 24 (ucast d) :: u32"
  shows "ucast w = a" "ucast (drop_bit 8 w) = b" "ucast (drop_bit 16 w) = c" "ucast (drop_bit 24 w) = d"
  unfolding w_def by (rule bit_eqI, auto simp: bit_simps dest: bit_imp_le_length)+

lemma qres_round:
  assumes "length (qr_mac r) = 6"
  shows "qres_of_words (put_words (qres_words r) data) = r"
proof -
  obtain a b c d e f where "qr_mac r = [a, b, c, d, e, f]"
    using assms by (auto simp: numeral_eq_Suc length_Suc_conv)
  then show ?thesis
    using byte_fields [of a b c d] byte_fields(1,2) [of e f 0 0]
    by (cases r) (simp add: qres_of_words_def qres_words_def put_words_def)
qed

lemma length_msg_words [simp]: "length (msg_words m) = 4 + length (mb_data m)"
  by (simp add: msg_words_def)

lemma msg_round: "msg_of_words (msg_words m) = m"
  by (cases m) (simp add: msg_of_words_def msg_words_def)

lemma msg_words_of_words: "4 \<le> length ws \<Longrightarrow> msg_words (msg_of_words ws) = ws"
  by (cases ws rule: remdups_adj.cases)
    (auto simp: msg_of_words_def msg_words_def numeral_eq_Suc Suc_le_length_iff)

end
