(* ===== verification/Hardware.thy ===== *)
theory Hardware
  imports Onic Error_Info
begin

text \<open>
  \<^verbatim>\<open>onic_hardware.c\<close>: the default configuration of the QDMA registers, the start and shutdown of the
  card, the contexts of a transmit and of a receive queue, and the doorbells of the PF. Waiting for
  the reset of a CMAC has no bound in the code: the model takes fuel, and \<open>None\<close> says that the
  function has not returned.
\<close>

section \<open>Parameters\<close>

record onic_qdma_h2c_param =
  hp_rngcnt_idx :: u8
  hp_dma_addr :: dma_addr
  hp_vid :: u16

record onic_qdma_c2h_param =
  cp_bufsz_idx :: u8
  cp_desc_rngcnt_idx :: u8
  cp_cmpl_rngcnt_idx :: u8
  cp_cmpl_desc_sz :: u8
  cp_desc_dma_addr :: dma_addr
  cp_cmpl_dma_addr :: dma_addr
  cp_vid :: u16

abbreviation (input) DEFAULT_MAX_DESC_FETCH :: u64 where "DEFAULT_MAX_DESC_FETCH \<equiv> 6"
abbreviation (input) DEFAULT_WB_INTVL :: u64 where "DEFAULT_WB_INTVL \<equiv> 0"
abbreviation (input) DEFAULT_PFCH_STOP_THRES :: u64 where "DEFAULT_PFCH_STOP_THRES \<equiv> 256"
abbreviation (input) DEFAULT_PFCH_NUM_ENTRIES_PER_Q :: u64 where "DEFAULT_PFCH_NUM_ENTRIES_PER_Q \<equiv> 8"
abbreviation (input) DEFAULT_C2H_INTR_TIMER_TICK :: u32 where "DEFAULT_C2H_INTR_TIMER_TICK \<equiv> 25"
abbreviation (input) DEFAULT_CMPL_COAL_TIMER_CNT :: u64 where "DEFAULT_CMPL_COAL_TIMER_CNT \<equiv> 5"
abbreviation (input) DEFAULT_CMPL_COAL_TIMER_TICK :: u64 where "DEFAULT_CMPL_COAL_TIMER_TICK \<equiv> 25"
abbreviation (input) DEFAULT_H2C_THROT_DATA_THRES :: u64 where "DEFAULT_H2C_THROT_DATA_THRES \<equiv> 0x4000"
abbreviation (input) DEFAULT_THROT_EN_DATA :: u64 where "DEFAULT_THROT_EN_DATA \<equiv> 1"
abbreviation (input) DEFAULT_THROT_EN_REQ :: u64 where "DEFAULT_THROT_EN_REQ \<equiv> 0"
abbreviation (input) DEFAULT_H2C_THROT_REQ_THRES :: u64 where "DEFAULT_H2C_THROT_REQ_THRES \<equiv> 0x60"
abbreviation (input) CMAC_RESET_WAIT_MS :: nat where "CMAC_RESET_WAIT_MS \<equiv> 1"
abbreviation (input) ONIC_MAX_CMACS :: nat where "ONIC_MAX_CMACS \<equiv> 2"
abbreviation (input) ONIC_CMAC_CORE_VERSION :: u32 where "ONIC_CMAC_CORE_VERSION \<equiv> 0x00000301"

definition rngcnt_pool :: "u16 list" where
  "rngcnt_pool = [4096, 64, 128, 192, 256, 384, 512, 768,
     1024, 1536, 3072, 4096, 6144, 8192, 12288, 16384]"

definition c2h_bufsz_pool :: "u16 list" where
  "c2h_bufsz_pool = [4096, 256, 512, 1024, 2048, 3968, 4096, 4096,
     4096, 4096, 4096, 4096, 4096, 8192, 9018, 16384]"

definition c2h_timer_pool :: "u16 list" where
  "c2h_timer_pool = [10, 2, 4, 5, 8, 10, 15, 20, 25,
     30, 50, 75, 100, 125, 150, 200]"

definition c2h_thres_pool :: "u16 list" where
  "c2h_thres_pool = [64, 2, 4, 8, 16, 24, 32, 48,
     80, 96, 112, 128, 144, 160, 176, 192]"

definition onic_ring_count :: "u8 \<Rightarrow> u16" where
  "onic_ring_count idx = (if unat idx < QDMA_NUM_DESC_RNGCNT then rngcnt_pool ! unat idx else 0)"

section \<open>Configuration registers\<close>

definition write_pool :: "qdma_dev \<Rightarrow> u32 \<Rightarrow> u16 list \<Rightarrow> nat \<Rightarrow> ('z, unit) drv" where
  "write_pool qdev base pool n =
     for_each [0..<n] (\<lambda>i. qdma_write_reg qdev (base + of_nat i * 4) (ucast (pool ! i)))"

definition onic_qdma_init_csr :: "qdma_dev \<Rightarrow> ('z, unit) drv" where
  "onic_qdma_init_csr qdev = do {
     write_pool qdev QDMA_OFFSET_GLBL_RNG_SZ rngcnt_pool QDMA_NUM_DESC_RNGCNT;
     write_pool qdev QDMA_OFFSET_C2H_BUF_SZ c2h_bufsz_pool QDMA_NUM_C2H_BUFSZ;
     qdma_write_reg qdev QDMA_OFFSET_C2H_INT_TIMER_TICK DEFAULT_C2H_INTR_TIMER_TICK;
     write_pool qdev QDMA_OFFSET_C2H_TIMER_CNT c2h_timer_pool QDMA_NUM_C2H_TIMERS;
     write_pool qdev QDMA_OFFSET_C2H_CNT_TH c2h_thres_pool QDMA_NUM_C2H_COUNTERS;
     qdma_write_reg qdev QDMA_OFFSET_GLBL_DSC_CFG (ucast
       (FIELD_SET QDMA_GLBL_DSC_CFG_MAX_DSC_FETCH_MASK DEFAULT_MAX_DESC_FETCH OR
        FIELD_SET QDMA_GLBL_DSC_CFG_WB_ACC_INT_MASK DEFAULT_WB_INTVL));
     val \<leftarrow> qdma_read_reg qdev QDMA_OFFSET_C2H_PFCH_CACHE_DEPTH;
     qdma_write_reg qdev QDMA_OFFSET_C2H_PFCH_CFG (ucast
       (FIELD_SET QDMA_C2H_PFCH_FL_TH_MASK DEFAULT_PFCH_STOP_THRES OR
        FIELD_SET QDMA_C2H_NUM_PFCH_MASK DEFAULT_PFCH_NUM_ENTRIES_PER_Q OR
        FIELD_SET QDMA_C2H_PFCH_QCNT_MASK (ucast (drop_bit 1 val)) OR
        FIELD_SET QDMA_C2H_EVT_QCNT_TH_MASK (ucast (drop_bit 1 val - 2))));
     val \<leftarrow> qdma_read_reg qdev QDMA_OFFSET_C2H_CMPL_COAL_BUF_DEPTH;
     qdma_write_reg qdev QDMA_OFFSET_C2H_WB_COAL_CFG (ucast
       (FIELD_SET QDMA_C2H_TICK_CNT_MASK DEFAULT_CMPL_COAL_TIMER_CNT OR
        FIELD_SET QDMA_C2H_TICK_VAL_MASK DEFAULT_CMPL_COAL_TIMER_TICK OR
        FIELD_SET QDMA_C2H_MAX_BUF_SZ_MASK (ucast val)));
     qdma_write_reg qdev QDMA_OFFSET_H2C_REQ_THROT (ucast
       (FIELD_SET QDMA_H2C_DATA_THRESH_MASK DEFAULT_H2C_THROT_DATA_THRES OR
        FIELD_SET QDMA_H2C_REQ_THROT_EN_DATA_MASK DEFAULT_THROT_EN_DATA OR
        FIELD_SET QDMA_H2C_REQ_THRESH_MASK DEFAULT_H2C_THROT_REQ_THRES OR
        FIELD_SET QDMA_H2C_REQ_THROT_EN_REQ_MASK DEFAULT_THROT_EN_REQ)) }"

section \<open>Shell registers and the CMACs\<close>

definition onic_read_reg :: "onic_hardware \<Rightarrow> u32 \<Rightarrow> ('z, u32) drv" where
  "onic_read_reg hw offset = do {
     r \<leftarrow> perform (Io (Ioread32 (hw_addr hw) offset));
     ret (of_int r) }"

definition onic_write_reg :: "onic_hardware \<Rightarrow> u32 \<Rightarrow> u32 \<Rightarrow> ('z, unit) drv" where
  "onic_write_reg hw offset val = invoke (Io (Iowrite32 val (hw_addr hw) offset))"

text \<open>\<open>wait_shell_status n hw m\<close>: the wait for the bits \<open>m\<close>; false when the fuel is spent.\<close>

fun wait_shell_status :: "nat \<Rightarrow> onic_hardware \<Rightarrow> u32 \<Rightarrow> ('z, bool) drv" where
  "wait_shell_status 0 hw m = ret False"
| "wait_shell_status (Suc n) hw m = do {
     st \<leftarrow> onic_read_reg hw SYSCFG_OFFSET_SHELL_STATUS;
     if st AND m \<noteq> m then do {
       invoke (Io (Mdelay CMAC_RESET_WAIT_MS));
       wait_shell_status n hw m }
     else ret True }"

definition cmac_setup :: "onic_hardware \<Rightarrow> u32 \<Rightarrow> ('z, unit) drv" where
  "cmac_setup hw cmac_id = do {
     (if hw_RS_FEC hw then do {
        onic_write_reg hw (CMAC_OFFSET_RSFEC_CONF_ENABLE cmac_id) 0x3;
        onic_write_reg hw (CMAC_OFFSET_RSFEC_CONF_IND_CORRECTION cmac_id) 0x7 }
      else ret ());
     onic_write_reg hw (CMAC_OFFSET_CONF_RX_1 cmac_id) 0x1;
     onic_write_reg hw (CMAC_OFFSET_CONF_TX_1 cmac_id) 0x10;
     onic_write_reg hw (CMAC_OFFSET_CONF_TX_1 cmac_id) 0x1;
     onic_write_reg hw (CMAC_OFFSET_CONF_RX_FC_CTRL_1 cmac_id) 0x00003DFF;
     onic_write_reg hw (CMAC_OFFSET_CONF_RX_FC_CTRL_2 cmac_id) 0x0001C631;
     onic_write_reg hw (CMAC_OFFSET_CONF_TX_FC_QNTA_1 cmac_id) 0xFFFFFFFF;
     onic_write_reg hw (CMAC_OFFSET_CONF_TX_FC_QNTA_2 cmac_id) 0xFFFFFFFF;
     onic_write_reg hw (CMAC_OFFSET_CONF_TX_FC_QNTA_3 cmac_id) 0xFFFFFFFF;
     onic_write_reg hw (CMAC_OFFSET_CONF_TX_FC_QNTA_4 cmac_id) 0xFFFFFFFF;
     onic_write_reg hw (CMAC_OFFSET_CONF_TX_FC_QNTA_5 cmac_id) 0x0000FFFF;
     onic_write_reg hw (CMAC_OFFSET_CONF_TX_FC_RFRH_1 cmac_id) 0xFFFFFFFF;
     onic_write_reg hw (CMAC_OFFSET_CONF_TX_FC_RFRH_2 cmac_id) 0xFFFFFFFF;
     onic_write_reg hw (CMAC_OFFSET_CONF_TX_FC_RFRH_3 cmac_id) 0xFFFFFFFF;
     onic_write_reg hw (CMAC_OFFSET_CONF_TX_FC_RFRH_4 cmac_id) 0xFFFFFFFF;
     onic_write_reg hw (CMAC_OFFSET_CONF_TX_FC_RFRH_5 cmac_id) 0x0000FFFF;
     onic_write_reg hw (CMAC_OFFSET_CONF_TX_FC_CTRL_1 cmac_id) 0x000001FF }"

definition onic_enable_cmac :: "nat \<Rightarrow> onic_hardware \<Rightarrow> u8 \<Rightarrow> ('z, int option) drv" where
  "onic_enable_cmac fuel hw cmac_id =
     (if cmac_id \<noteq> 0 \<and> cmac_id \<noteq> 1 then ret (Some (- EINVAL))
      else do {
        ready \<leftarrow> (if cmac_id = 0 then do {
                    onic_write_reg hw SYSCFG_OFFSET_SHELL_RESET 0x10;
                    wait_shell_status fuel hw 0x10 }
                  else do {
                    onic_write_reg hw SYSCFG_OFFSET_SHELL_RESET 0x100;
                    wait_shell_status fuel hw 0x100 });
        if \<not> ready then ret None
        else do { cmac_setup hw (ucast cmac_id); ret (Some 0) } })"

section \<open>Contexts of one queue\<close>

definition zero_sw_ctxt :: qdma_sw_ctxt where
  "zero_sw_ctxt = \<lparr>sw_pidx = 0, sw_irq_arm = 0, sw_func_id = 0, sw_qen = 0, sw_fcrd_en = 0, sw_wbi_chk = 0,
     sw_wbi_intvl_en = 0, sw_at = 0, sw_fetch_max = 0, sw_rngsz_idx = 0, sw_desc_sz = 0, sw_bypass = 0,
     sw_mm_chn = 0, sw_wbk_en = 0, sw_irq_en = 0, sw_port_id = 0, sw_irq_no_last = 0, sw_err = 0,
     sw_err_wb_sent = 0, sw_irq_req = 0, sw_mrkr_dis = 0, sw_is_mm = 0, sw_desc_base = 0, sw_vec = 0,
     sw_intr_aggr = 0\<rparr>"

definition zero_pfch_ctxt :: qdma_pfch_ctxt where
  "zero_pfch_ctxt = \<lparr>pfch_bypass = 0, pfch_bufsz_idx = 0, pfch_port_id = 0, pfch_err = 0, pfch_pfch_en = 0,
     pfch_in_pfch = 0, pfch_sw_crdt = 0, pfch_valid = 0\<rparr>"

definition zero_cmpl_ctxt :: qdma_cmpl_ctxt where
  "zero_cmpl_ctxt = \<lparr>cc_stat_en = 0, cc_intr_en = 0, cc_trig_mode = 0, cc_func_id = 0, cc_counter_idx = 0,
     cc_timer_idx = 0, cc_intr_st = 0, cc_color = 0, cc_rngsz_idx = 0, cc_baddr = 0, cc_desc_sz = 0,
     cc_pidx = 0, cc_cidx = 0, cc_valid = 0, cc_err = 0, cc_user_trig_pend = 0, cc_timer_running = 0,
     cc_full_upd = 0, cc_ovf_chk_dis = 0, cc_at = 0, cc_vec = 0, cc_intr_aggr = 0\<rparr>"

definition h2c_sw_ctxt :: "qdma_dev \<Rightarrow> onic_qdma_h2c_param \<Rightarrow> qdma_sw_ctxt" where
  "h2c_sw_ctxt qdev param = zero_sw_ctxt\<lparr>
     sw_func_id := ucast (qdev_func_id qdev), sw_qen := 1, sw_wbk_en := 1, sw_is_mm := 0, sw_irq_arm := 0,
     sw_irq_en := 0, sw_desc_sz := 1, sw_fcrd_en := 0, sw_wbi_chk := 1, sw_wbi_intvl_en := 1, sw_at := 0,
     sw_rngsz_idx := ucast (hp_rngcnt_idx param), sw_desc_base := hp_dma_addr param,
     sw_vec := ucast (hp_vid param), sw_intr_aggr := 0\<rparr>"

definition c2h_sw_ctxt :: "qdma_dev \<Rightarrow> onic_qdma_c2h_param \<Rightarrow> qdma_sw_ctxt" where
  "c2h_sw_ctxt qdev param = zero_sw_ctxt\<lparr>
     sw_func_id := ucast (qdev_func_id qdev), sw_qen := 1, sw_wbk_en := 1, sw_is_mm := 0, sw_desc_sz := 0,
     sw_fcrd_en := 1, sw_rngsz_idx := ucast (cp_desc_rngcnt_idx param), sw_desc_base := cp_desc_dma_addr param\<rparr>"

definition c2h_pfch_ctxt :: "onic_qdma_c2h_param \<Rightarrow> qdma_pfch_ctxt" where
  "c2h_pfch_ctxt param = zero_pfch_ctxt\<lparr>
     pfch_bufsz_idx := ucast (cp_bufsz_idx param), pfch_pfch_en := 1, pfch_valid := 1\<rparr>"

definition c2h_cmpl_ctxt :: "qdma_dev \<Rightarrow> onic_qdma_c2h_param \<Rightarrow> qdma_cmpl_ctxt" where
  "c2h_cmpl_ctxt qdev param = zero_cmpl_ctxt\<lparr>
     cc_stat_en := 1, cc_intr_en := 1, cc_trig_mode := 0x5, cc_func_id := ucast (qdev_func_id qdev),
     cc_counter_idx := 0, cc_timer_idx := 0, cc_color := 1, cc_rngsz_idx := ucast (cp_cmpl_rngcnt_idx param),
     cc_baddr := cp_cmpl_dma_addr param, cc_desc_sz := ucast (cp_cmpl_desc_sz param), cc_valid := 1,
     cc_full_upd := 0, cc_ovf_chk_dis := 0, cc_vec := ucast (cp_vid param), cc_intr_aggr := 0\<rparr>"

definition onic_qdma_clear_tx_queue :: "qdma_dev \<Rightarrow> u16 \<Rightarrow> ('z, unit) drv" where
  "onic_qdma_clear_tx_queue qdev qid = do {
     _ \<leftarrow> qdma_invalidate_sw_ctxt qdev qid QDMA_H2C;
     _ \<leftarrow> qdma_invalidate_hw_ctxt qdev qid QDMA_H2C;
     _ \<leftarrow> qdma_invalidate_cr_ctxt qdev qid QDMA_H2C;
     ret () }"

definition onic_qdma_clear_rx_queue :: "qdma_dev \<Rightarrow> u16 \<Rightarrow> ('z, unit) drv" where
  "onic_qdma_clear_rx_queue qdev qid = do {
     _ \<leftarrow> qdma_invalidate_sw_ctxt qdev qid QDMA_C2H;
     _ \<leftarrow> qdma_invalidate_hw_ctxt qdev qid QDMA_C2H;
     _ \<leftarrow> qdma_invalidate_cr_ctxt qdev qid QDMA_C2H;
     _ \<leftarrow> qdma_invalidate_pfch_ctxt qdev qid;
     _ \<leftarrow> qdma_invalidate_cmpl_ctxt qdev qid;
     ret () }"

definition onic_qdma_init_tx_queue :: "qdma_dev \<Rightarrow> u16 \<Rightarrow> onic_qdma_h2c_param \<Rightarrow> ('z, int) drv" where
  "onic_qdma_init_tx_queue qdev qid param = do {
     rv \<leftarrow> try_all
       [qdma_clear_sw_ctxt qdev qid QDMA_H2C,
        qdma_write_sw_ctxt qdev qid QDMA_H2C (h2c_sw_ctxt qdev param),
        qdma_clear_hw_ctxt qdev qid QDMA_H2C,
        qdma_clear_cr_ctxt qdev qid QDMA_H2C];
     if rv < 0 then do { onic_qdma_clear_tx_queue qdev qid; ret rv } else ret 0 }"

definition onic_qdma_init_rx_queue :: "qdma_dev \<Rightarrow> u16 \<Rightarrow> onic_qdma_c2h_param \<Rightarrow> ('z, int) drv" where
  "onic_qdma_init_rx_queue qdev qid param = do {
     rv \<leftarrow> try_all
       [qdma_clear_sw_ctxt qdev qid QDMA_C2H,
        qdma_write_sw_ctxt qdev qid QDMA_C2H (c2h_sw_ctxt qdev param),
        qdma_clear_hw_ctxt qdev qid QDMA_C2H,
        qdma_clear_cr_ctxt qdev qid QDMA_C2H,
        qdma_clear_pfch_ctxt qdev qid,
        qdma_write_pfch_ctxt qdev qid (c2h_pfch_ctxt param),
        qdma_clear_cmpl_ctxt qdev qid,
        qdma_write_cmpl_ctxt qdev qid (c2h_cmpl_ctxt qdev param)];
     if rv < 0 then do { onic_qdma_clear_rx_queue qdev qid; ret rv } else ret 0 }"

section \<open>Doorbells\<close>

definition onic_qdma_set_q_pidx :: "qdma_dev \<Rightarrow> u16 \<Rightarrow> qdma_dir \<Rightarrow> u16 \<Rightarrow> u8 \<Rightarrow> ('z, unit) drv" where
  "onic_qdma_set_q_pidx qdev qid dir pidx irq_arm =
     qdma_write_reg qdev
       ((if dir = QDMA_C2H then QDMA_OFFSET_DMAP_SEL_C2H_DESC_PIDX else QDMA_OFFSET_DMAP_SEL_H2C_DESC_PIDX)
          + ucast qid * 16)
       (ucast (FIELD_SET QDMA_DMAP_SEL_DESC_PIDX_MASK (ucast pidx) OR
               FIELD_SET QDMA_DMAP_SEL_DESC_IRQ_ARM_MASK (ucast irq_arm)))"

definition onic_set_tx_head :: "qdma_dev \<Rightarrow> u16 \<Rightarrow> u16 \<Rightarrow> ('z, unit) drv" where
  "onic_set_tx_head qdev qid head = onic_qdma_set_q_pidx qdev qid QDMA_H2C head 0"

definition onic_set_rx_head :: "qdma_dev \<Rightarrow> u16 \<Rightarrow> u16 \<Rightarrow> ('z, unit) drv" where
  "onic_set_rx_head qdev qid head = onic_qdma_set_q_pidx qdev qid QDMA_C2H head 0"

definition onic_qdma_set_cmpl_cidx ::
  "qdma_dev \<Rightarrow> u16 \<Rightarrow> u16 \<Rightarrow> u8 \<Rightarrow> u8 \<Rightarrow> u8 \<Rightarrow> u8 \<Rightarrow> u8 \<Rightarrow> ('z, unit) drv" where
  "onic_qdma_set_cmpl_cidx qdev qid cidx counter_idx timer_idx trig_mode stat_en irq_arm =
     qdma_write_reg qdev (QDMA_OFFSET_DMAP_SEL_CMPL_CIDX + ucast qid * 16)
       (ucast (FIELD_SET QDMA_DMAP_SEL_CMPL_CIDX_MASK (ucast cidx) OR
               FIELD_SET QDMA_DMAP_SEL_CMPL_COUNTER_IDX_MASK (ucast counter_idx) OR
               FIELD_SET QDMA_DMAP_SEL_CMPL_TIMER_IDX_MASK (ucast timer_idx) OR
               FIELD_SET QDMA_DMAP_SEL_CMPL_TRIG_MODE_MASK (ucast trig_mode) OR
               FIELD_SET QDMA_DMAP_SEL_CMPL_STAT_EN_MASK (ucast stat_en) OR
               FIELD_SET QDMA_DMAP_SEL_CMPL_IRQ_ARM_MASK (ucast irq_arm)))"

definition onic_set_completion_tail :: "qdma_dev \<Rightarrow> u16 \<Rightarrow> u16 \<Rightarrow> u8 \<Rightarrow> ('z, unit) drv" where
  "onic_set_completion_tail qdev qid tail irq_arm = onic_qdma_set_cmpl_cidx qdev qid tail 0 0 5 1 irq_arm"

section \<open>The error interrupt\<close>

definition glbl_err_int :: "qdma_dev \<Rightarrow> u16 \<Rightarrow> u64 \<Rightarrow> u32" where
  "glbl_err_int qdev vid arm = ucast
     (FIELD_SET QDMA_GLBL_ERR_FUNC_MASK (ucast (qdev_func_id qdev)) OR
      FIELD_SET QDMA_GLBL_ERR_VEC_MASK (ucast vid) OR
      FIELD_SET QDMA_GLBL_ERR_ARM_MASK arm)"

definition onic_qdma_init_error_interrupt :: "qdma_dev \<Rightarrow> u16 \<Rightarrow> ('z, unit) drv" where
  "onic_qdma_init_error_interrupt qdev vid = do {
     qdma_write_reg qdev QDMA_OFFSET_GLBL_ERR_INT (glbl_err_int qdev vid 0);
     for_each leaf_error_aggregators (\<lambda>err_idx. do {
       let info = qdma_error_info_table ! err_idx;
       qdma_write_reg qdev (err_mask_reg_addr info) (err_leaf_err_mask info);
       val \<leftarrow> qdma_read_reg qdev QDMA_OFFSET_GLBL_ERR_MASK;
       qdma_write_reg qdev QDMA_OFFSET_GLBL_ERR_MASK
         (val OR ucast (FIELD_SET (ucast (err_glbl_err_mask info)) 1)) });
     qdma_write_reg qdev QDMA_OFFSET_GLBL_ERR_INT (glbl_err_int qdev vid 1) }"

definition onic_qdma_clear_error_interrupt :: "qdma_dev \<Rightarrow> ('z, unit) drv" where
  "onic_qdma_clear_error_interrupt qdev = qdma_write_reg qdev QDMA_OFFSET_GLBL_ERR_INT 0"

section \<open>Start and shutdown of the card\<close>

definition onic_clear_hardware :: "unit onic" where
  "onic_clear_hardware = do {
     p \<leftarrow> get_priv;
     let hw = pr_hw p;
     (if hw_addr hw \<noteq> 0
      then onic_write_reg hw (QDMA_FUNC_OFFSET_QCONF (ucast (PCI_FUNC (pr_devfn p)))) 0
      else ret ());
     (case hw_qdma hw of
        None \<Rightarrow> ret ()
      | Some qdev \<Rightarrow> do {
          (_, qdev') \<leftarrow> qdma_invalidate_fmap_ctxt qdev;
          qdma_destroy_dev (Some qdev') });
     (if hw_addr hw \<noteq> 0 then invoke (Pci (Pci_iounmap (hw_addr hw))) else ret ());
     upd_hw (\<lambda>_. zero_hardware) }"

text \<open>The CMACs from \<open>i\<close> on: their number, or \<open>None\<close> when one never leaves its reset.\<close>

fun init_cmacs :: "nat \<Rightarrow> bool \<Rightarrow> onic_hardware \<Rightarrow> nat list \<Rightarrow> nat \<Rightarrow> ('z, nat option) drv" where
  "init_cmacs fuel master_pf hw [] n = ret (Some n)"
| "init_cmacs fuel master_pf hw (i # is) n = do {
     val \<leftarrow> onic_read_reg hw (CMAC_OFFSET_CORE_VERSION (of_nat i));
     if val \<noteq> ONIC_CMAC_CORE_VERSION then ret (Some i)
     else do {
       done \<leftarrow> (if master_pf then onic_enable_cmac fuel hw (of_nat i) else ret (Some 0));
       if done = None then ret None else init_cmacs fuel master_pf hw is n } }"

text \<open>The remainder by \<^verbatim>\<open>qmax\<close> is undefined in C for 0; the model then does not return.\<close>

definition onic_init_hardware :: "nat \<Rightarrow> int option onic" where
  "onic_init_hardware fuel = do {
     p \<leftarrow> get_priv;
     let master_pf = bit (pr_flags p) ONIC_FLAG_MASTER_PF;
     upd_hw (hw_RS_FEC_update (\<lambda>_. pr_RS_FEC p));
     a \<leftarrow> perform (Pci (Pci_iomap_range 2 SHELL_START SHELL_MAXLEN));
     upd_hw (hw_addr_update (\<lambda>_. of_int a));
     if (of_int a :: ptr) = 0 then ret (Some (- EINVAL))
     else do {
       created \<leftarrow> qdma_create_dev (pr_devfn p) 0;
       case created of
         None \<Rightarrow> do { onic_clear_hardware; ret (Some (- ENOMEM)) }
       | Some qdev \<Rightarrow> do {
           upd_hw (hw_qdma_update (\<lambda>_. Some qdev));
           let func_id = PCI_FUNC (pr_devfn p);
           let qbase = func_id * of_nat ONIC_MAX_QUEUES;
           let qmax = max (pr_num_tx_queues p) (pr_num_rx_queues p);
           let fmap_ctxt = \<lparr>fmap_qbase = ucast qbase, fmap_qmax = ucast qmax\<rparr>;
           (rv, qdev) \<leftarrow> qdma_clear_fmap_ctxt qdev;
           upd_hw (hw_qdma_update (\<lambda>_. Some qdev));
           if rv < 0 then do { onic_clear_hardware; ret (Some rv) }
           else do {
             (rv, qdev) \<leftarrow> qdma_write_fmap_ctxt qdev fmap_ctxt;
             upd_hw (hw_qdma_update (\<lambda>_. Some qdev));
             if rv < 0 then do { onic_clear_hardware; ret (Some rv) }
             else do {
               q \<leftarrow> get_priv;
               let hw = pr_hw q;
               onic_write_reg hw (QDMA_FUNC_OFFSET_QCONF (ucast func_id)) (ucast
                 (FIELD_SET QDMA_FUNC_QCONF_QBASE_MASK (ucast qbase) OR
                  FIELD_SET QDMA_FUNC_QCONF_NUMQ_MASK (ucast qmax)));
               if qmax = 0 then ret None
               else do {
                 for_each [0..<128] (\<lambda>i.
                   onic_write_reg hw (QDMA_FUNC_OFFSET_INDIR_TABLE (ucast func_id) (of_nat i))
                     (of_nat (i mod unat qmax) AND 0x0000FFFF));
                 (if master_pf then onic_qdma_init_csr qdev else ret ());
                 n \<leftarrow> init_cmacs fuel master_pf hw [0..<ONIC_MAX_CMACS] ONIC_MAX_CMACS;
                 case n of
                   None \<Rightarrow> ret None
                 | Some i \<Rightarrow> do {
                     upd_hw (hw_num_cmacs_update (\<lambda>_. of_nat i));
                     ret (Some 0) } } } } } } }"

section \<open>Execution and events\<close>

lemma io_only_shell [io_intro]:
  "io_only (onic_read_reg hw off)" "io_only (onic_write_reg hw off v)" "io_only (cmac_setup hw c)"
  unfolding cmac_setup_def onic_read_reg_def onic_write_reg_def by (intro io_intro)+

lemma io_only_wait_shell_status [io_intro]: "io_only (wait_shell_status n hw m)"
  by (induction n) (auto intro!: io_intro)

lemma io_only_enable_cmac [io_intro]: "io_only (onic_enable_cmac fuel hw c)"
  unfolding onic_enable_cmac_def by (intro io_intro)

lemma io_only_init_cmacs [io_intro]: "io_only (init_cmacs fuel b hw is n)"
  by (induction "is") (auto intro!: io_intro)

section \<open>The contexts of a queue on the card\<close>

text \<open>The contexts that make up a transmit and a receive queue.\<close>

definition tx_keys :: "qdma_dev \<Rightarrow> u16 \<Rightarrow> (4 word \<times> 11 word) set" where
  "tx_keys qdev qid =
     {ctxt_key qdev qid (cr_sel QDMA_H2C), ctxt_key qdev qid (hw_sel QDMA_H2C), ctxt_key qdev qid (sw_sel QDMA_H2C)}"

definition rx_keys :: "qdma_dev \<Rightarrow> u16 \<Rightarrow> (4 word \<times> 11 word) set" where
  "rx_keys qdev qid =
     {ctxt_key qdev qid QDMA_CTXT_CMD_SEL_CMPL, ctxt_key qdev qid QDMA_CTXT_CMD_SEL_PFCH,
      ctxt_key qdev qid (cr_sel QDMA_C2H), ctxt_key qdev qid (hw_sel QDMA_C2H), ctxt_key qdev qid (sw_sel QDMA_C2H)}"

lemmas queue_sels = sw_sel_def hw_sel_def cr_sel_def

lemma restrict_compl_insert: "st |` (- insert k A) = (st |` (- A))(k := None)"
  by (auto simp: restrict_map_def)

lemma restrict_compl_empty: "st |` (- {}) = st"
  by (auto simp: restrict_map_def)

lemma restrict_upd_in: "k \<in> A \<Longrightarrow> (st(k := v)) |` (- A) = st |` (- A)"
  by (auto simp: restrict_map_def)

lemma tx_keys_mem:
  "ctxt_key qdev qid (sw_sel QDMA_H2C) \<in> tx_keys qdev qid"
  "ctxt_key qdev qid (hw_sel QDMA_H2C) \<in> tx_keys qdev qid"
  "ctxt_key qdev qid (cr_sel QDMA_H2C) \<in> tx_keys qdev qid"
  by (simp_all add: tx_keys_def)

lemma rx_keys_mem:
  "ctxt_key qdev qid (sw_sel QDMA_C2H) \<in> rx_keys qdev qid"
  "ctxt_key qdev qid (hw_sel QDMA_C2H) \<in> rx_keys qdev qid"
  "ctxt_key qdev qid (cr_sel QDMA_C2H) \<in> rx_keys qdev qid"
  "ctxt_key qdev qid QDMA_CTXT_CMD_SEL_PFCH \<in> rx_keys qdev qid"
  "ctxt_key qdev qid QDMA_CTXT_CMD_SEL_CMPL \<in> rx_keys qdev qid"
  by (simp_all add: rx_keys_def)

lemma clear_tx_queue_rel:
  "ctxt_rel (qdev_addr qdev) (\<lambda>_ st st'. st' = st |` (- tx_keys qdev qid)) (onic_qdma_clear_tx_queue qdev qid)"
  unfolding onic_qdma_clear_tx_queue_def tx_keys_def restrict_compl_insert restrict_compl_empty
  apply (rule ctxt_rel_conseq)
   apply ((rule ctxt_rel_intro ctxt_ops [THEN ctxt_rel_op])+)[1]
  apply blast
  done

lemma clear_rx_queue_rel:
  "ctxt_rel (qdev_addr qdev) (\<lambda>_ st st'. st' = st |` (- rx_keys qdev qid)) (onic_qdma_clear_rx_queue qdev qid)"
  unfolding onic_qdma_clear_rx_queue_def rx_keys_def restrict_compl_insert restrict_compl_empty
  apply (rule ctxt_rel_conseq)
   apply ((rule ctxt_rel_intro ctxt_ops [THEN ctxt_rel_op])+)[1]
  apply blast
  done

text \<open>What a successful initialisation leaves: the contexts of the queue, nothing else changed.\<close>

definition tx_contexts :: "qdma_dev \<Rightarrow> u16 \<Rightarrow> onic_qdma_h2c_param \<Rightarrow> ctxt_store \<Rightarrow> ctxt_store" where
  "tx_contexts qdev qid param st =
     (st |` (- tx_keys qdev qid))
       (ctxt_key qdev qid (sw_sel QDMA_H2C) \<mapsto> pad8 (sw_ctxt_words (h2c_sw_ctxt qdev param)))"

definition rx_contexts :: "qdma_dev \<Rightarrow> u16 \<Rightarrow> onic_qdma_c2h_param \<Rightarrow> ctxt_store \<Rightarrow> ctxt_store" where
  "rx_contexts qdev qid param st =
     (st |` (- rx_keys qdev qid))
       (ctxt_key qdev qid (sw_sel QDMA_C2H) \<mapsto> pad8 (sw_ctxt_words (c2h_sw_ctxt qdev param)),
        ctxt_key qdev qid QDMA_CTXT_CMD_SEL_PFCH \<mapsto> pad8 (pfch_ctxt_words (c2h_pfch_ctxt param)),
        ctxt_key qdev qid QDMA_CTXT_CMD_SEL_CMPL \<mapsto> pad8 (cmpl_ctxt_words (c2h_cmpl_ctxt qdev param)))"

lemma tx_update_order:
  "a \<noteq> b \<Longrightarrow> a \<noteq> c \<Longrightarrow>
     st(a \<mapsto> w, b := None, c := None) = (st(a := None, b := None, c := None))(a \<mapsto> w)"
  by (rule ext) auto

lemma rx_update_order:
  "distinct [a, b, c, d, e] \<Longrightarrow>
     st(a \<mapsto> u, b := None, c := None, d \<mapsto> v, e \<mapsto> w) =
     (st(a := None, b := None, c := None, d := None, e := None))(a \<mapsto> u, d \<mapsto> v, e \<mapsto> w)"
  by (rule ext) auto

lemma tx_contexts_chain:
  "tx_contexts qdev qid param st =
     st(ctxt_key qdev qid (sw_sel QDMA_H2C) \<mapsto> pad8 (sw_ctxt_words (h2c_sw_ctxt qdev param)),
        ctxt_key qdev qid (hw_sel QDMA_H2C) := None, ctxt_key qdev qid (cr_sel QDMA_H2C) := None)"
  unfolding tx_contexts_def tx_keys_def restrict_compl_insert restrict_compl_empty
  by (rule tx_update_order [symmetric]) (simp_all add: queue_sels)

lemma rx_contexts_chain:
  "rx_contexts qdev qid param st =
     st(ctxt_key qdev qid (sw_sel QDMA_C2H) \<mapsto> pad8 (sw_ctxt_words (c2h_sw_ctxt qdev param)),
        ctxt_key qdev qid (hw_sel QDMA_C2H) := None, ctxt_key qdev qid (cr_sel QDMA_C2H) := None,
        ctxt_key qdev qid QDMA_CTXT_CMD_SEL_PFCH \<mapsto> pad8 (pfch_ctxt_words (c2h_pfch_ctxt param)),
        ctxt_key qdev qid QDMA_CTXT_CMD_SEL_CMPL \<mapsto> pad8 (cmpl_ctxt_words (c2h_cmpl_ctxt qdev param)))"
  unfolding rx_contexts_def rx_keys_def restrict_compl_insert restrict_compl_empty
  by (rule rx_update_order [symmetric]) (simp add: queue_sels)

lemmas list_all2_rules = list.rel_intros

lemma init_tx_queue_rel:
  "ctxt_rel (qdev_addr qdev)
     (\<lambda>r st st'. r = 0 \<and> st' = tx_contexts qdev qid param st \<or>
                 r = - EBUSY \<and> st' = st |` (- tx_keys qdev qid))
     (onic_qdma_init_tx_queue qdev qid param)"
  unfolding onic_qdma_init_tx_queue_def
  apply (rule ctxt_rel_conseq)
   apply ((rule ctxt_rel_intro ctxt_rel_try_all list_all2_rules ctxt_ops clear_tx_queue_rel)+)[1]
  apply (elim exE conjE, simp split: if_splits)
   apply (elim exE conjE disjE; simp add: restrict_upd_in tx_keys_mem)
  apply (simp add: tx_contexts_chain)
  done

lemma init_rx_queue_rel:
  "ctxt_rel (qdev_addr qdev)
     (\<lambda>r st st'. r = 0 \<and> st' = rx_contexts qdev qid param st \<or>
                 r = - EBUSY \<and> st' = st |` (- rx_keys qdev qid))
     (onic_qdma_init_rx_queue qdev qid param)"
  unfolding onic_qdma_init_rx_queue_def
  apply (rule ctxt_rel_conseq)
   apply ((rule ctxt_rel_intro ctxt_rel_try_all list_all2_rules ctxt_ops clear_rx_queue_rel)+)[1]
  apply (elim exE conjE, simp split: if_splits)
   apply (elim exE conjE disjE; simp add: restrict_upd_in rx_keys_mem rx_keys_mem [simplified])
  apply (simp add: rx_contexts_chain)
  done

section \<open>Waiting for a CMAC\<close>

fun shell_status_reads :: "ptr \<Rightarrow> event list \<Rightarrow> u32 list" where
  "shell_status_reads b [] = []"
| "shell_status_reads b ((Io (Ioread32 base off), r) # evs) =
     (if base = b \<and> off = SYSCFG_OFFSET_SHELL_STATUS then of_int r # shell_status_reads b evs
      else shell_status_reads b evs)"
| "shell_status_reads b (e # evs) = shell_status_reads b evs"

lemma shell_status_reads_append [simp]:
  "shell_status_reads b (xs @ ys) = shell_status_reads b xs @ shell_status_reads b ys"
  by (induction b xs rule: shell_status_reads.induct) auto

lemma run_onic_reg [run_simps]:
  "run_state (onic_read_reg hw off) s =
     (of_int (ext s (trace s) (Io (Ioread32 (hw_addr hw) off))),
      s\<lparr>trace := trace s @ [(Io (Ioread32 (hw_addr hw) off), ext s (trace s) (Io (Ioread32 (hw_addr hw) off)))]\<rparr>)"
  "run_state (onic_write_reg hw off v) s =
     ((), s\<lparr>trace := trace s @ [(Io (Iowrite32 v (hw_addr hw) off), ext s (trace s) (Io (Iowrite32 v (hw_addr hw) off)))]\<rparr>)"
  by (simp_all add: onic_read_reg_def onic_write_reg_def run_simps)

lemma wait_shell_status_run:
  assumes "run_state (wait_shell_status n hw m) s = (ready, s')"
  shows "\<exists>evs vs. trace s' = trace s @ evs \<and> shell_status_reads (hw_addr hw) evs = vs \<and>
    (if ready then vs \<noteq> [] \<and> last vs AND m = m \<and> length vs \<le> n
     else length vs = n \<and> list_all (\<lambda>v. v AND m \<noteq> m) vs)"
  using assms
proof (induction n arbitrary: s s')
  case (Suc n)
  define c where "c = Io (Ioread32 (hw_addr hw) SYSCFG_OFFSET_SHELL_STATUS)"
  define r where "r = ext s (trace s) c"
  define s1 where "s1 = s\<lparr>trace := trace s @ [(c, r)]\<rparr>"
  have read: "run_state (onic_read_reg hw SYSCFG_OFFSET_SHELL_STATUS) s = (of_int r, s1)"
    by (simp add: run_simps c_def r_def s1_def)
  show ?case
  proof (cases "of_int r AND m = m")
    case True
    with Suc.prems read have "ready \<and> s' = s1" by simp
    with True show ?thesis by (intro exI [of _ "[(c, r)]"]) (simp add: c_def s1_def)
  next
    case False
    define d where "d = Io (Mdelay CMAC_RESET_WAIT_MS)"
    define s2 where "s2 = s1\<lparr>trace := trace s1 @ [(d, ext s1 (trace s1) d)]\<rparr>"
    have "run_state (wait_shell_status n hw m) s2 = (ready, s')"
      using Suc.prems False read by (simp add: run_simps d_def s2_def)
    from Suc.IH [OF this] obtain evs vs where e:
      "trace s' = trace s2 @ evs" "shell_status_reads (hw_addr hw) evs = vs"
      "if ready then vs \<noteq> [] \<and> last vs AND m = m \<and> length vs \<le> n
       else length vs = n \<and> list_all (\<lambda>v. v AND m \<noteq> m) vs" by blast
    then show ?thesis using False
      by (intro exI [of _ "(c, r) # (d, ext s1 (trace s1) d) # evs"] exI [of _ "of_int r # vs"])
        (auto simp: s1_def s2_def c_def d_def)
  qed
qed simp

section \<open>Properties\<close>

lemma tx_contexts_lookup:
  "tx_contexts qdev qid param st (ctxt_key qdev qid QDMA_CTXT_CMD_SEL_SW_H2C) =
     Some (pad8 (sw_ctxt_words (h2c_sw_ctxt qdev param)))"
  "tx_contexts qdev qid param st (ctxt_key qdev qid QDMA_CTXT_CMD_SEL_HW_H2C) = None"
  "tx_contexts qdev qid param st (ctxt_key qdev qid QDMA_CTXT_CMD_SEL_CR_H2C) = None"
  by (simp_all add: tx_contexts_chain queue_sels)

lemma rx_contexts_lookup:
  "rx_contexts qdev qid param st (ctxt_key qdev qid QDMA_CTXT_CMD_SEL_SW_C2H) =
     Some (pad8 (sw_ctxt_words (c2h_sw_ctxt qdev param)))"
  "rx_contexts qdev qid param st (ctxt_key qdev qid QDMA_CTXT_CMD_SEL_PFCH) =
     Some (pad8 (pfch_ctxt_words (c2h_pfch_ctxt param)))"
  "rx_contexts qdev qid param st (ctxt_key qdev qid QDMA_CTXT_CMD_SEL_CMPL) =
     Some (pad8 (cmpl_ctxt_words (c2h_cmpl_ctxt qdev param)))"
  "rx_contexts qdev qid param st (ctxt_key qdev qid QDMA_CTXT_CMD_SEL_HW_C2H) = None"
  "rx_contexts qdev qid param st (ctxt_key qdev qid QDMA_CTXT_CMD_SEL_CR_C2H) = None"
  by (simp_all add: rx_contexts_chain queue_sels)

lemma contexts_frame:
  "tx_contexts qdev qid hp st |` (- tx_keys qdev qid) = st |` (- tx_keys qdev qid)"
  "rx_contexts qdev qid cp st |` (- rx_keys qdev qid) = st |` (- rx_keys qdev qid)"
  unfolding tx_contexts_def rx_contexts_def
  by (simp_all add: restrict_upd_in tx_keys_mem rx_keys_mem rx_keys_mem [simplified])

text \<open>C13. Setting up a transmit queue is all or nothing on the card: on success the software context of the
  queue is the one the parameters describe and its hardware and credit contexts are clear; on a
  timeout (-EBUSY) none of its three contexts is left. No other context changes.\<close>
theorem init_tx_queue_contexts:
  "case run_state (onic_qdma_init_tx_queue qdev qid param) s of (r, s') \<Rightarrow>
     (let b = qdev_addr qdev; k = ctxt_key qdev qid; keys = tx_keys qdev qid;
          old = cr_store (ctxt_view b (trace s)); new = cr_store (ctxt_view b (trace s'))
      in (r = 0 \<and> map_option sw_ctxt_of_words (new (k QDMA_CTXT_CMD_SEL_SW_H2C)) = Some (h2c_sw_ctxt qdev param) \<and>
            new (k QDMA_CTXT_CMD_SEL_HW_H2C) = None \<and> new (k QDMA_CTXT_CMD_SEL_CR_H2C) = None \<or>
          r = - EBUSY \<and> new |` keys = Map.empty) \<and>
         new |` (- keys) = old |` (- keys))"
proof -
  obtain r s' where run: "run_state (onic_qdma_init_tx_queue qdev qid param) s = (r, s')"
    by (metis prod.collapse)
  show ?thesis unfolding run Let_def prod.case
    by (rule ctxt_relD [OF init_tx_queue_rel run], elim disjE conjE)
      (simp_all add: tx_contexts_lookup [simplified] contexts_frame)
qed

text \<open>C12. Setting up a receive queue is all or nothing: on success the card holds the software, prefetch and
  completion contexts the parameters describe, the completion ring at its address rounded down to
  4 KiB; on a timeout none of the five contexts of the queue is left. No other context changes.\<close>
theorem init_rx_queue_contexts:
  "case run_state (onic_qdma_init_rx_queue qdev qid param) s of (r, s') \<Rightarrow>
     (let b = qdev_addr qdev; k = ctxt_key qdev qid; keys = rx_keys qdev qid;
          old = cr_store (ctxt_view b (trace s)); new = cr_store (ctxt_view b (trace s'));
          cc = c2h_cmpl_ctxt qdev param
      in (r = 0 \<and> map_option sw_ctxt_of_words (new (k QDMA_CTXT_CMD_SEL_SW_C2H)) = Some (c2h_sw_ctxt qdev param) \<and>
            map_option pfch_ctxt_of_words (new (k QDMA_CTXT_CMD_SEL_PFCH)) = Some (c2h_pfch_ctxt param) \<and>
            map_option cmpl_ctxt_of_words (new (k QDMA_CTXT_CMD_SEL_CMPL)) =
              Some (cc\<lparr>cc_baddr := cc_baddr cc AND GENMASK 63 12\<rparr>) \<and>
            new (k QDMA_CTXT_CMD_SEL_HW_C2H) = None \<and> new (k QDMA_CTXT_CMD_SEL_CR_C2H) = None \<or>
          r = - EBUSY \<and> new |` keys = Map.empty) \<and>
         new |` (- keys) = old |` (- keys))"
proof -
  obtain r s' where run: "run_state (onic_qdma_init_rx_queue qdev qid param) s = (r, s')"
    by (metis prod.collapse)
  show ?thesis unfolding run Let_def prod.case
    by (rule ctxt_relD [OF init_rx_queue_rel run], elim disjE conjE)
      (simp_all add: rx_contexts_lookup [simplified] contexts_frame)
qed

end
