(* ===== verification/Mbox_Transport.thy ===== *)
theory Mbox_Transport
  imports Onic
begin

text \<open>
  The transfer of a mailbox message through the registers of the card, shared by the two drivers
  (\<^verbatim>\<open>onic_pf_mbox_read_msg\<close>, \<^verbatim>\<open>onic_pf_mbox_write_msg\<close> of \<^verbatim>\<open>onic_mbox.c\<close> and their VF counterparts in
  \<^verbatim>\<open>onic_vf_mbox.c\<close>): 32 words at consecutive offsets. The interface to the registers is the locale
  \<open>mbox_regs\<close>; the PF reaches them through its QDMA device, the VF through its BAR 0.
\<close>

definition read_words :: "(u32 \<Rightarrow> ('s, u32) state) \<Rightarrow> u32 \<Rightarrow> ('s, u32 list) state" where
  "read_words rd offset =
     for_each_acc [0..<32] (\<lambda>i ws. do { v \<leftarrow> rd (offset + of_nat i * 4); ret (ws[i := v]) }) (replicate 32 0)"

definition write_words :: "(u32 \<Rightarrow> u32 \<Rightarrow> ('s, unit) state) \<Rightarrow> u32 \<Rightarrow> u32 list \<Rightarrow> ('s, unit) state" where
  "write_words wr offset ws = for_each [0..<32] (\<lambda>i. wr (offset + of_nat i * 4) (ws ! i))"

definition msg_offsets :: "u32 \<Rightarrow> u32 list" where
  "msg_offsets offset = map (\<lambda>i. offset + of_nat i * 4) [0..<32]"

definition msg_writes :: "ptr \<Rightarrow> u32 \<Rightarrow> u32 list \<Rightarrow> kcall list" where
  "msg_writes b offset ws = map (\<lambda>i. Io (Iowrite32 (ws ! i) b (offset + of_nat i * 4))) [0..<32]"

definition msg_reads :: "ptr \<Rightarrow> u32 \<Rightarrow> kcall list" where
  "msg_reads b offset = map (\<lambda>i. Io (Ioread32 b (offset + of_nat i * 4))) [0..<32]"

section \<open>The interface to the registers\<close>

text \<open>
  \<open>ok s off\<close>: offset \<open>off\<close> can be accessed in state \<open>s\<close>; \<open>base s\<close>: the mapping it belongs to. An
  access in range is one event on that mapping and changes nothing else.
\<close>

locale mbox_regs =
  fixes rd :: "u32 \<Rightarrow> ('z world_scheme, u32) state"
    and wr :: "u32 \<Rightarrow> u32 \<Rightarrow> ('z world_scheme, unit) state"
    and ok :: "'z world_scheme \<Rightarrow> u32 \<Rightarrow> bool"
    and base :: "'z world_scheme \<Rightarrow> ptr"
  assumes wr_run: "ok s off \<Longrightarrow> run_state (wr off v) s =
      ((), s\<lparr>trace := trace s @ [(Io (Iowrite32 v (base s) off), ext s (trace s) (Io (Iowrite32 v (base s) off)))]\<rparr>)"
    and rd_run: "ok s off \<Longrightarrow> run_state (rd off) s =
      (of_int (ext s (trace s) (Io (Ioread32 (base s) off))),
       s\<lparr>trace := trace s @ [(Io (Ioread32 (base s) off), ext s (trace s) (Io (Ioread32 (base s) off)))]\<rparr>)"
    and ok_trace: "ok (s\<lparr>trace := tr\<rparr>) off = ok s off"
    and base_trace: "base (s\<lparr>trace := tr\<rparr>) = base s"
begin

lemma wr_loop:
  assumes "list_all (\<lambda>i. ok s (offset + of_nat i * 4)) xs"
  shows "\<exists>evs. run_state (for_each xs (\<lambda>i. wr (offset + of_nat i * 4) (ws ! i))) s = ((), s\<lparr>trace := trace s @ evs\<rparr>) \<and>
    map fst evs = map (\<lambda>i. Io (Iowrite32 (ws ! i) (base s) (offset + of_nat i * 4))) xs"
  using assms
proof (induction xs arbitrary: s)
  case (Cons i xs)
  define c where "c = Io (Iowrite32 (ws ! i) (base s) (offset + of_nat i * 4))"
  define s1 where "s1 = s\<lparr>trace := trace s @ [(c, ext s (trace s) c)]\<rparr>"
  have "list_all (\<lambda>i. ok s1 (offset + of_nat i * 4)) xs"
    using Cons.prems by (simp add: s1_def ok_trace)
  from Cons.IH [OF this] obtain evs where
    "run_state (for_each xs (\<lambda>i. wr (offset + of_nat i * 4) (ws ! i))) s1 = ((), s1\<lparr>trace := trace s1 @ evs\<rparr>)"
    "map fst evs = map (\<lambda>i. Io (Iowrite32 (ws ! i) (base s1) (offset + of_nat i * 4))) xs" by blast
  then show ?case
    using Cons.prems wr_run [of s "offset + of_nat i * 4" "ws ! i"]
    by (intro exI [of _ "(c, ext s (trace s) c) # evs"]) (simp add: s1_def c_def base_trace)
qed simp

lemma write_words_run:
  assumes "list_all (ok s) (msg_offsets offset)"
  obtains evs where "run_state (write_words wr offset ws) s = ((), s\<lparr>trace := trace s @ evs\<rparr>)"
    "map fst evs = msg_writes (base s) offset ws"
  using wr_loop [where s = s and offset = offset and xs = "[0..<32]" and ws = ws] assms that
  unfolding write_words_def msg_writes_def msg_offsets_def by (auto simp: list_all_iff)

lemma rd_loop:
  assumes "list_all (\<lambda>i. ok s (offset + of_nat i * 4)) [k..<32]" "length ws = 32" "k \<le> 32"
  shows "\<exists>evs ws'. run_state (for_each_acc [k..<32] (\<lambda>i ws. do { v \<leftarrow> rd (offset + of_nat i * 4); ret (ws[i := v]) }) ws) s =
      (ws', s\<lparr>trace := trace s @ evs\<rparr>) \<and>
    map fst evs = map (\<lambda>i. Io (Ioread32 (base s) (offset + of_nat i * 4))) [k..<32] \<and>
    ws' = take k ws @ map (of_int \<circ> snd) evs"
  using assms
proof (induction "32 - k" arbitrary: k s ws)
  case 0
  then show ?case by simp
next
  case (Suc n)
  then have k: "k < 32" "[k..<32] = k # [Suc k..<32]" by (auto simp: upt_conv_Cons)
  define c where "c = Io (Ioread32 (base s) (offset + of_nat k * 4))"
  define r where "r = ext s (trace s) c"
  define s1 where "s1 = s\<lparr>trace := trace s @ [(c, r)]\<rparr>"
  have rd: "run_state (rd (offset + of_nat k * 4)) s = (of_int r, s1)"
    using Suc.prems(1) k rd_run by (simp add: s1_def r_def c_def)
  have "list_all (\<lambda>i. ok s1 (offset + of_nat i * 4)) [Suc k..<32]"
    using Suc.prems(1) k by (simp add: s1_def ok_trace)
  moreover have "n = 32 - Suc k" "length (ws[k := of_int r]) = 32" "Suc k \<le> 32"
    using Suc.hyps(2) Suc.prems k by simp_all
  ultimately obtain evs ws' where e:
    "run_state (for_each_acc [Suc k..<32] (\<lambda>i ws. do { v \<leftarrow> rd (offset + of_nat i * 4); ret (ws[i := v]) })
       (ws[k := of_int r])) s1 = (ws', s1\<lparr>trace := trace s1 @ evs\<rparr>)"
    "map fst evs = map (\<lambda>i. Io (Ioread32 (base s1) (offset + of_nat i * 4))) [Suc k..<32]"
    "ws' = take (Suc k) (ws[k := of_int r]) @ map (of_int \<circ> snd) evs"
    using Suc.hyps(1) by blast
  then show ?case
    using rd k Suc.prems
    by (intro exI [of _ "(c, r) # evs"])
      (simp add: s1_def c_def base_trace take_Suc_conv_app_nth)
qed

lemma read_words_run:
  assumes "list_all (ok s) (msg_offsets offset)"
  obtains evs where
    "run_state (read_words rd offset) s = (map (of_int \<circ> snd) evs, s\<lparr>trace := trace s @ evs\<rparr>)"
    "map fst evs = msg_reads (base s) offset"
  using rd_loop [where k = 0 and ws = "replicate 32 0" and s = s and offset = offset] assms that
  unfolding read_words_def msg_offsets_def msg_reads_def by (auto simp: list_all_iff)

text \<open>If every register of the window answers with the word the other side wrote there, the message
  that is read is the message that was sent.\<close>

lemma read_back:
  assumes "list_all (ok s) (msg_offsets offset)" "length (mb_data msg) = 28"
    and "run_state (read_words rd offset) s = (ws, s')"
    and "\<And>i r. i < 32 \<Longrightarrow> (Io (Ioread32 (base s) (offset + of_nat i * 4)), r) \<in> set (drop (length (trace s)) (trace s')) \<Longrightarrow>
           of_int r = msg_words msg ! i"
  shows "msg_of_words ws = msg"
proof -
  obtain evs where e: "run_state (read_words rd offset) s = (map (of_int \<circ> snd) evs, s\<lparr>trace := trace s @ evs\<rparr>)"
    "map fst evs = msg_reads (base s) offset"
    by (rule read_words_run [OF assms(1)])
  have len: "length evs = 32" using arg_cong [OF e(2), of length] by (simp add: msg_reads_def)
  have "ws = msg_words msg"
  proof (rule nth_equalityI)
    show "length ws = length (msg_words msg)" using e(1) assms(2,3) len by auto
  next
    fix i assume "i < length ws"
    then have i: "i < 32" using e(1) assms(3) len by auto
    have "fst (evs ! i) = map fst evs ! i" using i len by simp
    also have "\<dots> = Io (Ioread32 (base s) (offset + of_nat i * 4))" unfolding e(2) msg_reads_def using i by simp
    finally have "evs ! i = (Io (Ioread32 (base s) (offset + of_nat i * 4)), snd (evs ! i))"
      by (metis prod.collapse)
    moreover have "evs ! i \<in> set evs" using i len by simp
    ultimately show "ws ! i = msg_words msg ! i"
      using assms(3) assms(4) [of i "snd (evs ! i)"] e(1) i len by auto
  qed
  then show ?thesis by (simp add: msg_round)
qed

end

section \<open>What the card has been told\<close>

text \<open>
  One side of a mailbox on the card, replayed from the writes of its driver: the target function, the
  words of the outgoing message, the messages sent so far (with the target they went to), and how
  many incoming messages were taken. The registers of the two sides are a \<open>mbox_map\<close>; a VF has no
  target register.
\<close>

record mbox_map =
  mm_base :: ptr
  mm_cmd :: u32
  mm_target :: "u32 option"
  mm_out :: u32

record mbox_state =
  mx_target :: u32
  mx_out :: "u32 list"
  mx_sent :: "(u32 \<times> u32 list) list"
  mx_received :: nat

definition mbox_init :: mbox_state where
  "mbox_init = \<lparr>mx_target = 0, mx_out = replicate 32 0, mx_sent = [], mx_received = 0\<rparr>"

definition in_out_window :: "mbox_map \<Rightarrow> u32 \<Rightarrow> bool" where
  "in_out_window m off \<longleftrightarrow> off - mm_out m < 128"

definition mbox_write :: "mbox_map \<Rightarrow> u32 \<Rightarrow> u32 \<Rightarrow> mbox_state \<Rightarrow> mbox_state" where
  "mbox_write m off v st =
     (if off = mm_cmd m then
        (let st = (if bit v 1 then st\<lparr>mx_received := Suc (mx_received st)\<rparr> else st)
         in if bit v 0 then st\<lparr>mx_sent := mx_sent st @ [(mx_target st, mx_out st)]\<rparr> else st)
      else if mm_target m = Some off then st\<lparr>mx_target := v\<rparr>
      else if in_out_window m off then st\<lparr>mx_out := (mx_out st)[unat (off - mm_out m) div 4 := v]\<rparr>
      else st)"

fun mbox_step :: "mbox_map \<Rightarrow> event \<Rightarrow> mbox_state \<Rightarrow> mbox_state" where
  "mbox_step m (Io (Iowrite32 v base off), _) st = (if base = mm_base m then mbox_write m off v st else st)"
| "mbox_step m _ st = st"

definition mbox_view :: "mbox_map \<Rightarrow> event list \<Rightarrow> mbox_state" where
  "mbox_view m tr = fold (mbox_step m) tr mbox_init"

fun mbox_quiet :: "mbox_map \<Rightarrow> event \<Rightarrow> bool" where
  "mbox_quiet m (Io (Iowrite32 v base off), _) \<longleftrightarrow>
     base \<noteq> mm_base m \<or> off \<noteq> mm_cmd m \<and> mm_target m \<noteq> Some off \<and> \<not> in_out_window m off"
| "mbox_quiet m _ \<longleftrightarrow> True"

interpretation mboxv: trace_view "mbox_step m" mbox_init "mbox_view m" "mbox_quiet m" for m
proof
  show "mbox_quiet m e \<Longrightarrow> mbox_step m e d = d" for e d
    by (induction m e rule: mbox_quiet.induct) (auto simp: mbox_write_def)
qed (rule mbox_view_def)

text \<open>The registers do not overlap.\<close>

definition mbox_map_ok :: "mbox_map \<Rightarrow> bool" where
  "mbox_map_ok m \<longleftrightarrow> \<not> in_out_window m (mm_cmd m) \<and>
     (\<forall>t. mm_target m = Some t \<longrightarrow> t \<noteq> mm_cmd m \<and> \<not> in_out_window m t)"

lemma out_word:
  assumes "mbox_map_ok m" "i < 32"
  shows "mbox_write m (mm_out m + of_nat i * 4) v st = st\<lparr>mx_out := (mx_out st)[i := v]\<rparr>"
proof -
  have u: "unat (of_nat i * 4 :: u32) = i * 4"
    using assms(2) by (simp add: unat_word_ariths unat_of_nat take_bit_eq_mod)
  then have "in_out_window m (mm_out m + of_nat i * 4)"
    using assms(2) by (simp add: in_out_window_def word_less_nat_alt)
  with assms(1) u show ?thesis
    by (auto simp: mbox_write_def mbox_map_ok_def)
qed

lemma load_words:
  assumes "mbox_map_ok m" "length (mx_out st) = 32" "k \<le> 32"
    "map fst evs = map (\<lambda>i. Io (Iowrite32 (ws ! i) (mm_base m) (mm_out m + of_nat i * 4))) [0..<k]"
  shows "fold (mbox_step m) evs st = st\<lparr>mx_out := map ((!) ws) [0..<k] @ drop k (mx_out st)\<rparr>"
  using assms(3,4)
proof (induction k arbitrary: evs)
  case (Suc k)
  then obtain es e where e: "evs = es @ [e]"
    "map fst es = map (\<lambda>i. Io (Iowrite32 (ws ! i) (mm_base m) (mm_out m + of_nat i * 4))) [0..<k]"
    "fst e = Io (Iowrite32 (ws ! k) (mm_base m) (mm_out m + of_nat k * 4))"
    by (auto simp: map_eq_append_conv)
  have "mbox_step m e d = mbox_write m (mm_out m + of_nat k * 4) (ws ! k) d" for d
    using e(3) by (cases e) simp
  with e Suc show ?case
    by (simp add: out_word [OF assms(1)] assms(2) list_update_append Cons_nth_drop_Suc [symmetric])
qed simp

lemma load_msg:
  assumes "mbox_map_ok m" "length (mx_out st) = 32" "length ws = 32"
    "map fst evs = msg_writes (mm_base m) (mm_out m) ws"
  shows "fold (mbox_step m) evs st = st\<lparr>mx_out := ws\<rparr>"
proof -
  have "map ((!) ws) [0..<32] = ws" using assms(3) by (metis map_nth)
  then show ?thesis
    using load_words [OF assms(1,2), of 32 evs ws] assms(2,4) by (simp add: msg_writes_def)
qed

lemma length_mbox_step: "length (mx_out (mbox_step m e st)) = length (mx_out st)"
  by (induction m e st rule: mbox_step.induct) (auto simp: mbox_write_def Let_def)

lemma length_mbox_fold: "length (mx_out (fold (mbox_step m) evs st)) = length (mx_out st)"
  by (induction evs arbitrary: st) (simp_all add: length_mbox_step)

lemma length_mbox_view [simp]: "length (mx_out (mbox_view m tr)) = 32"
  by (simp add: mbox_view_def length_mbox_fold mbox_init_def)

section \<open>Values read\<close>

text \<open>\<open>reg_reads b off evs\<close>: what reads of one register answered; \<open>msg_in b off evs\<close>: what reads of the
  32 words from \<open>off\<close> on answered, in order, as a message.\<close>

fun reg_reads :: "ptr \<Rightarrow> u32 \<Rightarrow> event list \<Rightarrow> u32 list" where
  "reg_reads b off [] = []"
| "reg_reads b off ((Io (Ioread32 base o'), r) # evs) =
     (if base = b \<and> o' = off then of_int r # reg_reads b off evs else reg_reads b off evs)"
| "reg_reads b off (e # evs) = reg_reads b off evs"

fun window_reads :: "ptr \<Rightarrow> u32 \<Rightarrow> event list \<Rightarrow> u32 list" where
  "window_reads b off [] = []"
| "window_reads b off ((Io (Ioread32 base o'), r) # evs) =
     (if base = b \<and> o' - off < 128 then of_int r # window_reads b off evs else window_reads b off evs)"
| "window_reads b off (e # evs) = window_reads b off evs"

definition msg_in :: "ptr \<Rightarrow> u32 \<Rightarrow> event list \<Rightarrow> onic_mbox_msg" where
  "msg_in b off evs = msg_of_words (window_reads b off evs)"

lemma reg_reads_append [simp]: "reg_reads b off (xs @ ys) = reg_reads b off xs @ reg_reads b off ys"
  by (induction b off xs rule: reg_reads.induct) auto

lemma window_reads_append [simp]: "window_reads b off (xs @ ys) = window_reads b off xs @ window_reads b off ys"
  by (induction b off xs rule: window_reads.induct) auto

fun not_read :: "ptr \<Rightarrow> u32 \<Rightarrow> event \<Rightarrow> bool" where
  "not_read b off (Io (Ioread32 base o'), _) \<longleftrightarrow> \<not> (base = b \<and> o' - off < 128)"
| "not_read b off _ \<longleftrightarrow> True"

lemma window_reads_quiet: "list_all (not_read b off) evs \<Longrightarrow> window_reads b off evs = []"
  by (induction b off evs rule: window_reads.induct) auto

lemma window_reads_msg:
  assumes "map fst evs = map (\<lambda>i. Io (Ioread32 b (off + of_nat i * 4))) xs" "list_all (\<lambda>i. i < 32) xs"
  shows "window_reads b off evs = map (of_int \<circ> snd) evs"
  using assms
proof (induction xs arbitrary: evs)
  case (Cons i xs)
  then obtain r es where e: "evs = (Io (Ioread32 b (off + of_nat i * 4)), r) # es"
    "map fst es = map (\<lambda>i. Io (Ioread32 b (off + of_nat i * 4))) xs" by auto
  have "(of_nat i * 4 :: u32) < 128"
    using Cons.prems(2) by (simp add: word_less_nat_alt unat_word_ariths unat_of_nat take_bit_eq_mod)
  with e Cons show ?case by simp
qed simp

lemma window_reads_msg_reads:
  "map fst evs = msg_reads b off \<Longrightarrow> window_reads b off evs = map (of_int \<circ> snd) evs"
  unfolding msg_reads_def by (rule window_reads_msg) (auto simp: list_all_iff)

lemma msg_reads_quiet: "map fst evs = msg_reads b off \<Longrightarrow> list_all (mbox_quiet m) evs"
  unfolding msg_reads_def list_all_iff
proof
  fix e assume "map fst evs = map (\<lambda>i. Io (Ioread32 b (off + of_nat i * 4))) [0..<32]" "e \<in> set evs"
  then have "fst e \<in> set (map (\<lambda>i. Io (Ioread32 b (off + of_nat i * 4))) [0..<32])"
    by (metis image_eqI set_map)
  then show "mbox_quiet m e" by (cases e) auto
qed

lemma msg_writes_no_read: "map fst evs = msg_writes b off ws \<Longrightarrow> list_all (not_read c o') evs"
  unfolding msg_writes_def list_all_iff
proof
  fix e assume "map fst evs = map (\<lambda>i. Io (Iowrite32 (ws ! i) b (off + of_nat i * 4))) [0..<32]" "e \<in> set evs"
  then have "fst e \<in> set (map (\<lambda>i. Io (Iowrite32 (ws ! i) b (off + of_nat i * 4))) [0..<32])"
    by (metis image_eqI set_map)
  then show "not_read c o' e" by (cases e) auto
qed

end
