(* ===== verification/Mbox.thy ===== *)
theory Mbox
  imports Hardware Mbox_Transport
begin

text \<open>
  \<^verbatim>\<open>onic_mbox.c\<close>: the PF side of the mailbox. A VF asks for its queue window, for the
  programming of the contexts of one of its queues, or for their removal; the PF checks the request
  against the resources of the sender and answers every request it takes.
\<close>

section \<open>Messages\<close>

definition onic_pf_mbox_write_msg :: "qdma_dev \<Rightarrow> u32 \<Rightarrow> onic_mbox_msg \<Rightarrow> ('z, unit) drv" where
  "onic_pf_mbox_write_msg qdev offset msg = write_words (qdma_write_reg qdev) offset (msg_words msg)"

definition onic_pf_mbox_read_msg :: "qdma_dev \<Rightarrow> u32 \<Rightarrow> ('z, onic_mbox_msg) drv" where
  "onic_pf_mbox_read_msg qdev offset = do {
     words \<leftarrow> read_words (qdma_read_reg qdev) offset;
     ret (msg_of_words words) }"

interpretation pf_regs: mbox_regs "qdma_read_reg qdev" "qdma_write_reg qdev" "\<lambda>_ _. True" "\<lambda>_. qdev_addr qdev"
  for qdev
  by unfold_locales (simp_all add: run_simps)

text \<open>The table entries that are looked at are those below \<^verbatim>\<open>num_vfs\<close>, at most \<^verbatim>\<open>ONIC_MAX_VFS\<close>.\<close>

definition onic_pf_mbox_find_vf_resource :: "onic_private \<Rightarrow> u16 \<Rightarrow> onic_vf_resource option" where
  "onic_pf_mbox_find_vf_resource p func_id =
     find (\<lambda>res. vr_enabled res \<and> vr_func_id res = func_id) (take (unat (pr_num_vfs p)) (pr_vf_res p))"

definition onic_pf_mbox_make_queue_res_resp :: "onic_private \<Rightarrow> u16 \<Rightarrow> u32 \<Rightarrow> int \<times> onic_mbox_msg" where
  "onic_pf_mbox_make_queue_res_resp p src_func_id seq =
     (let resp = zero_msg\<lparr>mb_hdr := \<lparr>mh_opcode = ONIC_MBOX_OP_QUEUE_RES_RESP, mh_status = ONIC_MBOX_STS_ERR,
                             mh_seq = seq, mh_len = 0\<rparr>\<rparr>
      in case onic_pf_mbox_find_vf_resource p src_func_id of
           None \<Rightarrow> (- ENOENT, resp)
         | Some res \<Rightarrow>
             (0, resp\<lparr>mb_hdr := (mb_hdr resp)\<lparr>mh_status := ONIC_MBOX_STS_OK, mh_len := sizeof_queue_res\<rparr>,
                   mb_data := put_words (qres_words
                     \<lparr>qr_func_id = ucast (vr_func_id res), qr_qbase = ucast (vr_qbase res),
                      qr_qmax = ucast (vr_qmax res), qr_mac = vr_mac res\<rparr>) (mb_data resp)\<rparr>))"

definition onic_pf_mbox_init_queue_cmd_resp :: "u32 \<Rightarrow> u32 \<Rightarrow> u32 \<Rightarrow> u32 \<Rightarrow> onic_mbox_msg" where
  "onic_pf_mbox_init_queue_cmd_resp opcode seq qid dir =
     \<lparr>mb_hdr = \<lparr>mh_opcode = opcode, mh_status = ONIC_MBOX_STS_ERR, mh_seq = seq, mh_len = sizeof_queue_cmd_resp\<rparr>,
      mb_data = put_words (qcmd_resp_words \<lparr>qp_qid = qid, qp_dir = dir\<rparr>) (replicate 28 0)\<rparr>"

definition onic_pf_mbox_dma_addr :: "u32 \<Rightarrow> u32 \<Rightarrow> dma_addr" where
  "onic_pf_mbox_dma_addr lo hi = push_bit 32 (ucast hi) OR ucast lo"

definition onic_pf_mbox_get_vf_qdev :: "onic_private \<Rightarrow> u16 \<Rightarrow> u32 \<Rightarrow> int + qdma_dev" where
  "onic_pf_mbox_get_vf_qdev p src_func_id qid =
     (case hw_qdma (pr_hw p) of
        None \<Rightarrow> Inl (- ENODEV)
      | Some pf_qdev \<Rightarrow>
          if qdev_addr pf_qdev = 0 then Inl (- ENODEV)
          else case onic_pf_mbox_find_vf_resource p src_func_id of
            None \<Rightarrow> Inl (- ENOENT)
          | Some res \<Rightarrow>
              if qid \<ge> ucast (vr_qmax res) then Inl (- ERANGE)
              else Inr \<lparr>qdev_self = 0, qdev_func_id = vr_func_id res, qdev_q_base = vr_qbase res,
                        qdev_num_queues = vr_qmax res, qdev_addr = qdev_addr pf_qdev\<rparr>)"

definition is_aligned64 :: "dma_addr \<Rightarrow> bool" where
  "is_aligned64 a \<longleftrightarrow> a AND 63 = 0"

definition status_ok :: "int \<Rightarrow> onic_mbox_msg \<Rightarrow> onic_mbox_msg" where
  "status_ok err resp =
     (if err = 0 then resp\<lparr>mb_hdr := (mb_hdr resp)\<lparr>mh_status := ONIC_MBOX_STS_OK\<rparr>\<rparr> else resp)"

definition onic_pf_mbox_config_queue ::
  "onic_private \<Rightarrow> u16 \<Rightarrow> onic_mbox_msg \<Rightarrow> ('z, int \<times> onic_mbox_msg) drv" where
  "onic_pf_mbox_config_queue p src_func_id req =
     (let cfg = qcfg_of_words (mb_data req);
          resp = onic_pf_mbox_init_queue_cmd_resp ONIC_MBOX_OP_CONFIG_QUEUE_RESP (mh_seq (mb_hdr req))
                   (qc_qid cfg) (qc_dir cfg)
      in if mh_len (mb_hdr req) \<noteq> sizeof_queue_cfg \<or> qc_reserved cfg \<noteq> 0 then ret (- EINVAL, resp)
         else case onic_pf_mbox_get_vf_qdev p src_func_id (qc_qid cfg) of
           Inl err \<Rightarrow> ret (err, resp)
         | Inr vfq \<Rightarrow>
             if qc_vector cfg \<ge> ucast (qdev_num_queues vfq) \<or>
                qc_rngcnt_idx cfg \<ge> of_nat QDMA_NUM_DESC_RNGCNT then ret (- ERANGE, resp)
             else let desc_dma = onic_pf_mbox_dma_addr (qc_desc_dma_lo cfg) (qc_desc_dma_hi cfg)
             in if desc_dma = 0 \<or> \<not> is_aligned64 desc_dma then ret (- EINVAL, resp)
             else if qc_dir cfg = ONIC_MBOX_QUEUE_DIR_TX then do {
               err \<leftarrow> onic_qdma_init_tx_queue vfq (ucast (qc_qid cfg))
                 \<lparr>hp_rngcnt_idx = ucast (qc_rngcnt_idx cfg), hp_dma_addr = desc_dma, hp_vid = ucast (qc_vector cfg)\<rparr>;
               ret (err, status_ok err resp) }
             else if qc_dir cfg = ONIC_MBOX_QUEUE_DIR_RX then
               if qc_bufsz_idx cfg \<ge> of_nat QDMA_NUM_C2H_BUFSZ \<or>
                  qc_cmpl_rngcnt_idx cfg \<ge> of_nat QDMA_NUM_DESC_RNGCNT \<or>
                  qc_cmpl_desc_sz cfg > 3 then ret (- ERANGE, resp)
               else let cmpl_dma = onic_pf_mbox_dma_addr (qc_cmpl_dma_lo cfg) (qc_cmpl_dma_hi cfg)
               in if cmpl_dma = 0 \<or> \<not> is_aligned64 cmpl_dma then ret (- EINVAL, resp)
               else do {
                 err \<leftarrow> onic_qdma_init_rx_queue vfq (ucast (qc_qid cfg))
                   \<lparr>cp_bufsz_idx = ucast (qc_bufsz_idx cfg), cp_desc_rngcnt_idx = ucast (qc_rngcnt_idx cfg),
                    cp_cmpl_rngcnt_idx = ucast (qc_cmpl_rngcnt_idx cfg), cp_cmpl_desc_sz = ucast (qc_cmpl_desc_sz cfg),
                    cp_desc_dma_addr = desc_dma, cp_cmpl_dma_addr = cmpl_dma, cp_vid = ucast (qc_vector cfg)\<rparr>;
                 ret (err, status_ok err resp) }
             else ret (- EINVAL, resp))"

definition onic_pf_mbox_clear_queue ::
  "onic_private \<Rightarrow> u16 \<Rightarrow> onic_mbox_msg \<Rightarrow> ('z, int \<times> onic_mbox_msg) drv" where
  "onic_pf_mbox_clear_queue p src_func_id req =
     (let clear = qclear_of_words (mb_data req);
          resp = onic_pf_mbox_init_queue_cmd_resp ONIC_MBOX_OP_CLEAR_QUEUE_RESP (mh_seq (mb_hdr req))
                   (ql_qid clear) (ql_dir clear)
      in if mh_len (mb_hdr req) \<noteq> sizeof_queue_clear then ret (- EINVAL, resp)
         else case onic_pf_mbox_get_vf_qdev p src_func_id (ql_qid clear) of
           Inl err \<Rightarrow> ret (err, resp)
         | Inr vfq \<Rightarrow>
             if ql_dir clear = ONIC_MBOX_QUEUE_DIR_TX then do {
               onic_qdma_clear_tx_queue vfq (ucast (ql_qid clear));
               ret (0, status_ok 0 resp) }
             else if ql_dir clear = ONIC_MBOX_QUEUE_DIR_RX then do {
               onic_qdma_clear_rx_queue vfq (ucast (ql_qid clear));
               ret (0, status_ok 0 resp) }
             else ret (- EINVAL, resp))"

section \<open>Requests\<close>

text \<open>The answer to one request: the switch of \<^verbatim>\<open>onic_pf_mbox_process_one\<close>.\<close>

definition pf_mbox_answer :: "onic_private \<Rightarrow> u16 \<Rightarrow> onic_mbox_msg \<Rightarrow> ('z, int \<times> onic_mbox_msg) drv" where
  "pf_mbox_answer p src_func_id req =
     (let op = mh_opcode (mb_hdr req);
          resp = zero_msg\<lparr>mb_hdr := \<lparr>mh_opcode = ONIC_MBOX_OP_QUEUE_RES_RESP, mh_status = ONIC_MBOX_STS_ERR,
                                     mh_seq = mh_seq (mb_hdr req), mh_len = 0\<rparr>\<rparr>
      in if op = ONIC_MBOX_OP_GET_QUEUE_RES then
           (if mh_len (mb_hdr req) \<noteq> 0 then ret (- EINVAL, resp)
            else ret (onic_pf_mbox_make_queue_res_resp p src_func_id (mh_seq (mb_hdr req))))
         else if op = ONIC_MBOX_OP_CONFIG_QUEUE then onic_pf_mbox_config_queue p src_func_id req
         else if op = ONIC_MBOX_OP_CLEAR_QUEUE then onic_pf_mbox_clear_queue p src_func_id req
         else ret (- EOPNOTSUPP, resp))"

definition sts_has :: "u32 \<Rightarrow> u64 \<Rightarrow> bool" where
  "sts_has status m \<longleftrightarrow> ucast status AND m \<noteq> 0"

definition sts_src :: "u32 \<Rightarrow> u16" where
  "sts_src status = ucast (BITFIELD_GET QDMA_MBOX_STS_CUR_SRC_FN_MASK (ucast status))"

text \<open>The device of the PF, when it exists and is mapped: the first check of every function below.\<close>

definition pf_qdev :: "onic_private \<Rightarrow> qdma_dev option" where
  "pf_qdev p = (case hw_qdma (pr_hw p) of
     None \<Rightarrow> None | Some qdev \<Rightarrow> if qdev_addr qdev = 0 then None else Some qdev)"

definition onic_pf_mbox_process_one :: "int onic" where
  "onic_pf_mbox_process_one = do {
     p \<leftarrow> get_priv;
     case pf_qdev p of
       None \<Rightarrow> ret (- ENODEV)
     | Some qdev \<Rightarrow> do {
         status \<leftarrow> qdma_read_reg qdev QDMA_PF_MBOX_STS;
         if \<not> sts_has status QDMA_MBOX_STS_I_MSG_MASK then ret 0
         else do {
           let src_func_id = sts_src status;
           qdma_write_reg qdev QDMA_PF_MBOX_TARGET_FN (ucast src_func_id);
           status \<leftarrow> qdma_read_reg qdev QDMA_PF_MBOX_STS;
           if sts_has status QDMA_MBOX_STS_O_MSG_MASK then ret (- EBUSY)
           else do {
             req \<leftarrow> onic_pf_mbox_read_msg qdev QDMA_PF_MBOX_IN_MSG;
             (err, resp) \<leftarrow> pf_mbox_answer p src_func_id req;
             qdma_write_reg qdev QDMA_PF_MBOX_CMD (ucast QDMA_MBOX_CMD_RCV);
             onic_pf_mbox_write_msg qdev QDMA_PF_MBOX_OUT_MSG resp;
             qdma_write_reg qdev QDMA_PF_MBOX_CMD (ucast QDMA_MBOX_CMD_SEND);
             ret 1 } } } }"

definition hweight32 :: "u32 \<Rightarrow> int" where
  "hweight32 w = int (length (filter (bit w) [0..<32]))"

definition onic_pf_mbox_process_acks :: "int onic" where
  "onic_pf_mbox_process_acks = do {
     p \<leftarrow> get_priv;
     case pf_qdev p of
       None \<Rightarrow> ret (- ENODEV)
     | Some qdev \<Rightarrow> do {
         status \<leftarrow> qdma_read_reg qdev QDMA_PF_MBOX_STS;
         if \<not> sts_has status QDMA_MBOX_STS_ACK_MASK then ret 0
         else for_each_acc [0..<QDMA_PF_MBOX_ACK_REGS] (\<lambda>i processed. do {
           ack \<leftarrow> qdma_read_reg qdev (QDMA_PF_MBOX_ACK (of_nat i));
           if ack = 0 then ret processed
           else do {
             qdma_write_reg qdev (QDMA_PF_MBOX_ACK (of_nat i)) ack;
             ret (processed + hweight32 ack) } }) 0 } }"

text \<open>\<open>drop_stale n qdev d\<close>: at most \<open>n\<close> more requests, \<open>d\<close> dropped so far.\<close>

fun drop_stale :: "nat \<Rightarrow> qdma_dev \<Rightarrow> int \<Rightarrow> ('z, int) drv" where
  "drop_stale 0 qdev dropped = ret (- EIO)"
| "drop_stale (Suc n) qdev dropped = do {
     status \<leftarrow> qdma_read_reg qdev QDMA_PF_MBOX_STS;
     if \<not> sts_has status QDMA_MBOX_STS_I_MSG_MASK then ret dropped
     else do {
       qdma_write_reg qdev QDMA_PF_MBOX_TARGET_FN (ucast (sts_src status));
       qdma_write_reg qdev QDMA_PF_MBOX_CMD (ucast QDMA_MBOX_CMD_RCV);
       drop_stale n qdev (dropped + 1) } }"

definition onic_pf_mbox_drop_stale_requests :: "int onic" where
  "onic_pf_mbox_drop_stale_requests = do {
     p \<leftarrow> get_priv;
     case pf_qdev p of
       None \<Rightarrow> ret (- ENODEV)
     | Some qdev \<Rightarrow> drop_stale 256 qdev 0 }"

text \<open>The loop of \<^verbatim>\<open>onic_pf_mbox_process_pending\<close> runs as long as requests arrive: \<open>None\<close> when the fuel
  is spent.\<close>

fun pf_mbox_pending :: "nat \<Rightarrow> int \<Rightarrow> int option onic" where
  "pf_mbox_pending 0 processed = ret None"
| "pf_mbox_pending (Suc n) processed = do {
     err \<leftarrow> onic_pf_mbox_process_acks;
     if err < 0 then ret (Some err)
     else do {
       let processed = processed + err;
       err \<leftarrow> onic_pf_mbox_process_one;
       if err < 0 then ret (Some err)
       else if err = 0 then ret (Some processed)
       else pf_mbox_pending n (processed + 1) } }"

definition onic_pf_mbox_process_pending :: "nat \<Rightarrow> int option onic" where
  "onic_pf_mbox_process_pending fuel = pf_mbox_pending fuel 0"

section \<open>Interrupts\<close>

definition onic_pf_mbox_irq_disable :: "unit onic" where
  "onic_pf_mbox_irq_disable = do {
     p \<leftarrow> get_priv;
     case pf_qdev p of
       None \<Rightarrow> ret ()
     | Some qdev \<Rightarrow> qdma_write_reg qdev QDMA_PF_MBOX_INTR_CTRL 0 }"

definition onic_pf_mbox_irq_enable :: "unit onic" where
  "onic_pf_mbox_irq_enable = do {
     p \<leftarrow> get_priv;
     case pf_qdev p of
       None \<Rightarrow> ret ()
     | Some qdev \<Rightarrow> qdma_write_reg qdev QDMA_PF_MBOX_INTR_CTRL (ucast QDMA_MBOX_INTR_CTRL_EN) }"

definition onic_pf_mbox_irq_init :: "u16 \<Rightarrow> int onic" where
  "onic_pf_mbox_irq_init vector = do {
     p \<leftarrow> get_priv;
     case pf_qdev p of
       None \<Rightarrow> ret (- ENODEV)
     | Some qdev \<Rightarrow> do {
         onic_pf_mbox_irq_disable;
         dropped \<leftarrow> onic_pf_mbox_drop_stale_requests;
         if dropped < 0 then ret dropped
         else do {
           qdma_write_reg qdev QDMA_PF_MBOX_INTR_VEC (ucast vector);
           onic_pf_mbox_irq_enable;
           ret 0 } } }"

section \<open>What an answer may touch\<close>

text \<open>The contexts of the queues that belong to the VF with function number \<open>src\<close>.\<close>

definition vf_window :: "onic_private \<Rightarrow> u16 \<Rightarrow> (4 word \<times> 11 word) set" where
  "vf_window p src = {(sel, q). sel \<noteq> sel_code QDMA_CTXT_CMD_SEL_FMAP \<and>
     (\<exists>res qid. onic_pf_mbox_find_vf_resource p src = Some res \<and> qid < vr_qmax res \<and>
        q = ucast (vr_qbase res + qid))}"

text \<open>An answer echoes the sequence number and reports success exactly when nothing failed.\<close>

definition answers :: "onic_mbox_msg \<Rightarrow> int \<Rightarrow> onic_mbox_msg \<Rightarrow> bool" where
  "answers req err resp \<longleftrightarrow>
     mh_seq (mb_hdr resp) = mh_seq (mb_hdr req) \<and> length (mb_data resp) = 28 \<and>
     mh_status (mb_hdr resp) = (if err = 0 then ONIC_MBOX_STS_OK else ONIC_MBOX_STS_ERR)"

lemma get_vf_qdev_Inr:
  assumes "onic_pf_mbox_get_vf_qdev p src qid = Inr v"
  obtains q res where "pf_qdev p = Some q" "onic_pf_mbox_find_vf_resource p src = Some res"
    "qid < ucast (vr_qmax res)"
    "v = \<lparr>qdev_self = 0, qdev_func_id = vr_func_id res, qdev_q_base = vr_qbase res,
          qdev_num_queues = vr_qmax res, qdev_addr = qdev_addr q\<rparr>"
  using assms
  by (auto simp: onic_pf_mbox_get_vf_qdev_def pf_qdev_def split: option.splits if_splits)

lemma get_vf_qdev_Inl: "onic_pf_mbox_get_vf_qdev p src qid = Inl e \<Longrightarrow> e \<noteq> 0"
  by (auto simp: onic_pf_mbox_get_vf_qdev_def split: option.splits if_splits)

lemma ucast_less_u16:
  assumes "(qid :: u32) < ucast (n :: u16)"
  shows "(ucast qid :: u16) < n"
proof -
  have n: "unat (ucast n :: u32) = unat n"
    using unat_u16_less [of n] by (simp add: unsigned_ucast_eq take_bit_nat_eq_self_iff del: unat_u16_less)
  with assms have "unat qid < unat n" by (simp add: word_less_nat_alt)
  moreover from this have "unat (ucast qid :: u16) = unat qid"
    using unat_u16_less [of n] by (simp add: unsigned_ucast_eq take_bit_nat_eq_self_iff del: unat_u16_less)
  ultimately show ?thesis by (simp add: word_less_nat_alt)
qed

lemma queue_keys_window:
  assumes "onic_pf_mbox_get_vf_qdev p src qid = Inr v"
  shows "tx_keys v (ucast qid) \<subseteq> vf_window p src" "rx_keys v (ucast qid) \<subseteq> vf_window p src"
proof -
  obtain q res where v: "onic_pf_mbox_find_vf_resource p src = Some res" "qid < ucast (vr_qmax res)"
    "qdev_q_base v = vr_qbase res"
    using get_vf_qdev_Inr [OF assms] by (metis qdma_dev.select_convs(3))
  have "ctxt_key v (ucast qid) sel \<in> vf_window p src" if "sel \<noteq> QDMA_CTXT_CMD_SEL_FMAP" for sel
    using v that ucast_less_u16 [OF v(2)]
    by (auto simp: vf_window_def qdma_get_real_qid_def add.commute simp flip: sel_code.simps)
  then show "tx_keys v (ucast qid) \<subseteq> vf_window p src" "rx_keys v (ucast qid) \<subseteq> vf_window p src"
    by (auto simp: tx_keys_def rx_keys_def queue_sels simp del: sel_code.simps)
qed

text \<open>What the answer to a request does to the contexts of the card.\<close>

definition answer_frame ::
  "onic_private \<Rightarrow> u16 \<Rightarrow> onic_mbox_msg \<Rightarrow> int \<times> onic_mbox_msg \<Rightarrow> ctxt_store \<Rightarrow> ctxt_store \<Rightarrow> bool" where
  "answer_frame p src req a st st' \<longleftrightarrow>
     answers req (fst a) (snd a) \<and> st' |` (- vf_window p src) = st |` (- vf_window p src)"

lemma answer_frame_same [intro]: "answers req e resp \<Longrightarrow> answer_frame p src req (e, resp) st st"
  by (simp add: answer_frame_def)

lemma restrict_mono_eq: "st' |` (- A) = st |` (- A) \<Longrightarrow> A \<subseteq> B \<Longrightarrow> st' |` (- B) = st |` (- B)"
  unfolding restrict_map_def fun_eq_iff by (metis ComplD ComplI subsetD)

lemma ctxt_rel_const: "R a st st \<Longrightarrow> (\<And>st. R a st st) \<Longrightarrow> ctxt_rel b R (ret a)"
  by (rule ctxt_rel_conseq, rule ctxt_rel_ret) blast

lemma answers_cmd_resp:
  "answers req err (status_ok err (onic_pf_mbox_init_queue_cmd_resp op (mh_seq (mb_hdr req)) qid dir))"
  "err \<noteq> 0 \<Longrightarrow> answers req err (onic_pf_mbox_init_queue_cmd_resp op (mh_seq (mb_hdr req)) qid dir)"
  by (auto simp: answers_def status_ok_def onic_pf_mbox_init_queue_cmd_resp_def qcmd_resp_words_def)

lemma answers_queue_res:
  "answers req (fst (onic_pf_mbox_make_queue_res_resp p src (mh_seq (mb_hdr req))))
     (snd (onic_pf_mbox_make_queue_res_resp p src (mh_seq (mb_hdr req))))"
  by (auto simp: answers_def onic_pf_mbox_make_queue_res_resp_def Let_def zero_msg_def qres_words_def
      split: option.split)

lemma get_vf_qdev_addr:
  "onic_pf_mbox_get_vf_qdev p src qid = Inr v \<Longrightarrow> pf_qdev p = Some q \<Longrightarrow> qdev_addr v = qdev_addr q"
  by (auto elim!: get_vf_qdev_Inr)

definition keeps :: "(4 word \<times> 11 word) set \<Rightarrow> 'a \<Rightarrow> ctxt_store \<Rightarrow> ctxt_store \<Rightarrow> bool" where
  "keeps K _ st st' \<longleftrightarrow> st' |` (- K) = st |` (- K)"

lemma queue_ops_keep:
  "qdev_addr v = b \<Longrightarrow> ctxt_rel b (keeps (tx_keys v qid)) (onic_qdma_init_tx_queue v qid hp)"
  "qdev_addr v = b \<Longrightarrow> ctxt_rel b (keeps (rx_keys v qid)) (onic_qdma_init_rx_queue v qid cp)"
  "qdev_addr v = b \<Longrightarrow> ctxt_rel b (keeps (tx_keys v qid)) (onic_qdma_clear_tx_queue v qid)"
  "qdev_addr v = b \<Longrightarrow> ctxt_rel b (keeps (rx_keys v qid)) (onic_qdma_clear_rx_queue v qid)"
  by (auto simp: keeps_def contexts_frame intro: ctxt_rel_conseq [OF init_tx_queue_rel]
      ctxt_rel_conseq [OF init_rx_queue_rel] ctxt_rel_conseq [OF clear_tx_queue_rel]
      ctxt_rel_conseq [OF clear_rx_queue_rel])

lemma answer_after:
  assumes "ctxt_rel b (keeps K) m" "K \<subseteq> vf_window p src" "\<And>r. answers req (fst (f r)) (snd (f r))"
  shows "ctxt_rel b (answer_frame p src req) (State_Monad.bind m (\<lambda>r. ret (f r)))"
proof (rule ctxt_rel_conseq [OF ctxt_rel_bind [OF assms(1) ctxt_rel_ret]])
  fix a st st'
  assume "\<exists>r st1. keeps K r st st1 \<and> a = f r \<and> st' = st1"
  then obtain r where "keeps K r st st'" "a = f r" by blast
  then show "answer_frame p src req a st st'"
    using restrict_mono_eq [OF _ assms(2)] assms(3) by (simp add: keeps_def answer_frame_def)
qed

lemma answer_now: "answers req (fst a) (snd a) \<Longrightarrow> ctxt_rel b (answer_frame p src req) (ret a)"
  by (rule ctxt_rel_conseq, rule ctxt_rel_ret) (auto simp: answer_frame_def)

lemma same_rel_if:
  "(c \<Longrightarrow> ctxt_rel b R m) \<Longrightarrow> (\<not> c \<Longrightarrow> ctxt_rel b R n) \<Longrightarrow> ctxt_rel b R (if c then m else n)"
  by simp

lemma same_rel_sum:
  "(\<And>e. x = Inl e \<Longrightarrow> ctxt_rel b R (f e)) \<Longrightarrow> (\<And>v. x = Inr v \<Longrightarrow> ctxt_rel b R (g v)) \<Longrightarrow>
     ctxt_rel b R (case x of Inl e \<Rightarrow> f e | Inr v \<Rightarrow> g v)"
  by (cases x) simp_all

lemma vf_queue_answers:
  assumes "onic_pf_mbox_get_vf_qdev p src qid = Inr v" "pf_qdev p = Some q"
    and "\<And>r. answers req (fst (f r)) (snd (f r))"
  shows "ctxt_rel (qdev_addr q) (answer_frame p src req)
      (State_Monad.bind (onic_qdma_init_tx_queue v (ucast qid) hp) (\<lambda>r. ret (f r)))"
    "ctxt_rel (qdev_addr q) (answer_frame p src req)
      (State_Monad.bind (onic_qdma_init_rx_queue v (ucast qid) cp) (\<lambda>r. ret (f r)))"
  using get_vf_qdev_addr [OF assms(1,2)] queue_keys_window [OF assms(1)]
  by (auto intro!: answer_after queue_ops_keep assms(3) del: subsetI)

lemma vf_queue_cleared:
  assumes "onic_pf_mbox_get_vf_qdev p src qid = Inr v" "pf_qdev p = Some q"
    and "answers req (fst a) (snd a)"
  shows "ctxt_rel (qdev_addr q) (answer_frame p src req)
      (State_Monad.bind (onic_qdma_clear_tx_queue v (ucast qid)) (\<lambda>_. ret a))"
    "ctxt_rel (qdev_addr q) (answer_frame p src req)
      (State_Monad.bind (onic_qdma_clear_rx_queue v (ucast qid)) (\<lambda>_. ret a))"
  using get_vf_qdev_addr [OF assms(1,2)] queue_keys_window [OF assms(1)]
  by (auto intro!: answer_after queue_ops_keep assms(3) del: subsetI)

lemma config_queue_frame:
  assumes "pf_qdev p = Some q"
  shows "ctxt_rel (qdev_addr q) (answer_frame p src req) (onic_pf_mbox_config_queue p src req)"
  unfolding onic_pf_mbox_config_queue_def Let_def
  by (intro same_rel_if same_rel_sum answer_now vf_queue_answers assms)
    (assumption | simp add: answers_cmd_resp get_vf_qdev_Inl)+

lemma clear_queue_frame:
  assumes "pf_qdev p = Some q"
  shows "ctxt_rel (qdev_addr q) (answer_frame p src req) (onic_pf_mbox_clear_queue p src req)"
  unfolding onic_pf_mbox_clear_queue_def Let_def
  by (intro same_rel_if same_rel_sum answer_now vf_queue_cleared assms)
    (assumption | simp add: answers_cmd_resp get_vf_qdev_Inl)+

lemma answer_frame_all:
  assumes "pf_qdev p = Some q"
  shows "ctxt_rel (qdev_addr q) (answer_frame p src req) (pf_mbox_answer p src req)"
  unfolding pf_mbox_answer_def Let_def
  by (intro same_rel_if answer_now config_queue_frame [OF assms] clear_queue_frame [OF assms])
    (simp_all add: answers_queue_res, simp_all add: answers_def zero_msg_def)

section \<open>One request\<close>

definition pf_map :: "ptr \<Rightarrow> mbox_map" where
  "pf_map b = \<lparr>mm_base = b, mm_cmd = QDMA_PF_MBOX_CMD, mm_target = Some QDMA_PF_MBOX_TARGET_FN,
     mm_out = QDMA_PF_MBOX_OUT_MSG\<rparr>"

lemma pf_map_ok: "mbox_map_ok (pf_map b)"
  by (simp add: mbox_map_ok_def pf_map_def in_out_window_def word_less_nat_alt)

lemma pf_map_sel [simp]:
  "mm_base (pf_map b) = b" "mm_cmd (pf_map b) = QDMA_PF_MBOX_CMD"
  "mm_target (pf_map b) = Some QDMA_PF_MBOX_TARGET_FN" "mm_out (pf_map b) = QDMA_PF_MBOX_OUT_MSG"
  by (simp_all add: pf_map_def)

text \<open>The contexts and the mailbox do not share registers.\<close>

lemma ctxt_window_cases:
  "in_ctxt_window off \<Longrightarrow> \<not> in_out_window (pf_map b) off \<and> off \<noteq> QDMA_PF_MBOX_CMD \<and>
     off \<noteq> QDMA_PF_MBOX_TARGET_FN \<and> \<not> off - QDMA_PF_MBOX_IN_MSG < 128 \<and> off \<noteq> QDMA_PF_MBOX_STS"
  by (auto simp: in_ctxt_window_def in_out_window_def word_le_nat_alt word_less_nat_alt unat_sub_if')

lemma ctxt_event_mbox:
  "ctxt_event b e \<Longrightarrow> mbox_quiet (pf_map b) e \<and> not_read b QDMA_PF_MBOX_IN_MSG e"
  by (cases "(b, e)" rule: ctxt_event.cases; cases "(b, e)" rule: ctxt_access.cases)
    (auto dest: ctxt_window_cases)

lemma mbox_window_not_ctxt:
  "i < 32 \<Longrightarrow> \<not> in_ctxt_window (QDMA_PF_MBOX_OUT_MSG + of_nat i * 4)"
  "i < 32 \<Longrightarrow> \<not> in_ctxt_window (QDMA_PF_MBOX_IN_MSG + of_nat i * 4)"
  by (simp_all add: in_ctxt_window_def word_less_nat_alt word_le_nat_alt unat_word_ariths unat_of_nat take_bit_eq_mod)

lemma out_writes_ctxt_quiet:
  assumes "map fst evs = msg_writes b QDMA_PF_MBOX_OUT_MSG ws"
  shows "list_all (ctxt_quiet b) evs"
  unfolding list_all_iff
proof
  fix e assume "e \<in> set evs"
  then have "fst e \<in> set (msg_writes b QDMA_PF_MBOX_OUT_MSG ws)" by (metis assms image_eqI set_map)
  then show "ctxt_quiet b e"
    using mbox_window_not_ctxt(1) by (cases e) (auto simp: msg_writes_def)
qed

lemma in_reads_ctxt_quiet:
  assumes "map fst evs = msg_reads b QDMA_PF_MBOX_IN_MSG"
  shows "list_all (ctxt_quiet b) evs"
  unfolding list_all_iff
proof
  fix e assume "e \<in> set evs"
  then have "fst e \<in> set (msg_reads b QDMA_PF_MBOX_IN_MSG)" by (metis assms image_eqI set_map)
  then show "ctxt_quiet b e" by (cases e) (auto simp: msg_reads_def)
qed

lemma msg_words_length: "length (mb_data resp) = 28 \<Longrightarrow> length (msg_words resp) = 32"
  by simp

text \<open>One answered request, as the card sees it: the events after the two status reads.\<close>

lemma answered_views:
  assumes "map fst ins = msg_reads b QDMA_PF_MBOX_IN_MSG" "list_all (ctxt_event b) work"
    and "map fst outs = msg_writes b QDMA_PF_MBOX_OUT_MSG (msg_words resp)" "length (mb_data resp) = 28"
    and "evs = [(Io (Ioread32 b QDMA_PF_MBOX_STS), r1), (Io (Iowrite32 (ucast src) b QDMA_PF_MBOX_TARGET_FN), r2),
             (Io (Ioread32 b QDMA_PF_MBOX_STS), r3)] @ ins @ work @
           [(Io (Iowrite32 2 b QDMA_PF_MBOX_CMD), r4)] @ outs @ [(Io (Iowrite32 1 b QDMA_PF_MBOX_CMD), r5)]"
  shows "mx_sent (mbox_view (pf_map b) (tr @ evs)) = mx_sent (mbox_view (pf_map b) tr) @ [(ucast src, msg_words resp)]"
    "mx_received (mbox_view (pf_map b) (tr @ evs)) = Suc (mx_received (mbox_view (pf_map b) tr))"
    "msg_in b QDMA_PF_MBOX_IN_MSG evs = msg_of_words (map (of_int \<circ> snd) ins)"
    "ctxt_view b (tr @ evs) = ctxt_view b (tr @ work)"
proof -
  let ?m = "pf_map b"
  have quiet: "fold (mbox_step ?m) ins d = d" "fold (mbox_step ?m) work d = d" for d
    using mboxv.fold_quiet [of ?m ins d] mboxv.fold_quiet [of ?m work d] msg_reads_quiet [OF assms(1)]
      ctxt_event_mbox [of b] assms(2) by (auto simp: list_all_iff)
  have load: "fold (mbox_step ?m) outs d = d\<lparr>mx_out := msg_words resp\<rparr>" if "length (mx_out d) = 32" for d
    using load_msg [OF pf_map_ok that msg_words_length [OF assms(4)], of outs] assms(3) by simp
  have cmd: "mbox_write ?m QDMA_PF_MBOX_CMD 2 d = d\<lparr>mx_received := Suc (mx_received d)\<rparr>"
    "mbox_write ?m QDMA_PF_MBOX_CMD 1 d = d\<lparr>mx_sent := mx_sent d @ [(mx_target d, mx_out d)]\<rparr>"
    "mbox_write ?m QDMA_PF_MBOX_TARGET_FN w d = d\<lparr>mx_target := w\<rparr>" for d w
    by (simp_all add: mbox_write_def bit_numeral_rec bit_1_iff)
  show "mx_sent (mbox_view ?m (tr @ evs)) = mx_sent (mbox_view ?m tr) @ [(ucast src, msg_words resp)]"
    "mx_received (mbox_view ?m (tr @ evs)) = Suc (mx_received (mbox_view ?m tr))"
    unfolding assms(5) mboxv.view_append by (simp_all add: quiet load cmd)
  have "list_all (not_read b QDMA_PF_MBOX_IN_MSG) work" "list_all (not_read b QDMA_PF_MBOX_IN_MSG) outs"
    using ctxt_event_mbox [of b] assms(2) msg_writes_no_read [OF assms(3)] by (auto simp: list_all_iff)
  then show "msg_in b QDMA_PF_MBOX_IN_MSG evs = msg_of_words (map (of_int \<circ> snd) ins)"
    using window_reads_msg_reads [OF assms(1)] unfolding assms(5) msg_in_def
    by (simp add: window_reads_quiet word_less_nat_alt)
  have cq: "fold (\<lambda>e. ctxt_step b (fst e)) ins d = d" "fold (\<lambda>e. ctxt_step b (fst e)) outs d = d" for d
    using ctxt.fold_quiet [OF in_reads_ctxt_quiet [OF assms(1)]] ctxt.fold_quiet [OF out_writes_ctxt_quiet [OF assms(3)]]
    by blast+
  have "ctxt_write QDMA_PF_MBOX_CMD w d = d" "ctxt_write QDMA_PF_MBOX_TARGET_FN w d = d" for w d
    using ctxt_step_quiet [of b "(Io (Iowrite32 w b QDMA_PF_MBOX_CMD), 0)" d]
      ctxt_step_quiet [of b "(Io (Iowrite32 w b QDMA_PF_MBOX_TARGET_FN), 0)" d]
    by (simp_all add: in_ctxt_window_def word_le_nat_alt)
  then show "ctxt_view b (tr @ evs) = ctxt_view b (tr @ work)"
    unfolding assms(5) ctxt.view_append by (simp add: cq)
qed

lemma mbox_cmds: "ucast (BIT (Suc 0)) = (2 :: u32)" "ucast QDMA_MBOX_CMD_SEND = (1 :: u32)"
  by (simp_all add: GENMASK_def)

text \<open>The outcome of \<^verbatim>\<open>onic_pf_mbox_process_one\<close> on a mapped device: nothing taken, or one request taken
  from the function the status register names, answered to that function.\<close>

definition request_step :: "onic_private \<Rightarrow> ptr \<Rightarrow> event list \<Rightarrow> event list \<Rightarrow> bool" where
  "request_step p b tr evs \<longleftrightarrow>
     (let src = sts_src (hd (reg_reads b QDMA_PF_MBOX_STS evs));
          req = msg_in b QDMA_PF_MBOX_IN_MSG evs;
          old = mbox_view (pf_map b) tr; new = mbox_view (pf_map b) (tr @ evs)
      in \<exists>err resp. answers req err resp \<and>
           mx_sent new = mx_sent old @ [(ucast src, msg_words resp)] \<and> mx_received new = Suc (mx_received old) \<and>
           cr_store (ctxt_view b (tr @ evs)) |` (- vf_window p src) = cr_store (ctxt_view b tr) |` (- vf_window p src))"

definition no_request_step :: "ptr \<Rightarrow> event list \<Rightarrow> event list \<Rightarrow> bool" where
  "no_request_step b tr evs \<longleftrightarrow>
     (let old = mbox_view (pf_map b) tr; new = mbox_view (pf_map b) (tr @ evs)
      in mx_sent new = mx_sent old \<and> mx_received new = mx_received old \<and>
         ctxt_view b (tr @ evs) = ctxt_view b tr)"

lemma no_request_views:
  assumes "evs = [(Io (Ioread32 b QDMA_PF_MBOX_STS), r1)] \<or>
    evs = [(Io (Ioread32 b QDMA_PF_MBOX_STS), r1), (Io (Iowrite32 w b QDMA_PF_MBOX_TARGET_FN), r2),
           (Io (Ioread32 b QDMA_PF_MBOX_STS), r3)]"
  shows "no_request_step b tr evs"
proof -
  have "ctxt_write QDMA_PF_MBOX_TARGET_FN w d = d" for d
    using ctxt_step_quiet [of b "(Io (Iowrite32 w b QDMA_PF_MBOX_TARGET_FN), 0)" d]
    by (simp add: in_ctxt_window_def word_le_nat_alt)
  moreover have "mbox_write (pf_map b) QDMA_PF_MBOX_TARGET_FN w d = d\<lparr>mx_target := w\<rparr>" for d
    by (simp add: mbox_write_def)
  ultimately show ?thesis
    using assms by (auto simp: no_request_step_def Let_def mboxv.view_append ctxt.view_append)
qed

lemma process_one_run:
  assumes q: "pf_qdev (priv s) = Some q" and run: "run_state onic_pf_mbox_process_one s = (r, s')"
  obtains evs where "s' = s\<lparr>trace := trace s @ evs\<rparr>"
    "r = 1 \<and> request_step (priv s) (qdev_addr q) (trace s) evs \<or>
     (r = 0 \<or> r = - EBUSY) \<and> no_request_step (qdev_addr q) (trace s) evs"
proof -
  define b where "b = qdev_addr q"
  define ev where "ev t c = (c, ext s t c)" for t c
  define rd where "rd = Io (Ioread32 b QDMA_PF_MBOX_STS)"
  define t1 where "t1 = trace s @ [ev (trace s) rd]"
  define sts where "sts = (of_int (snd (ev (trace s) rd)) :: u32)"
  define src where "src = sts_src sts"
  define tg where "tg = Io (Iowrite32 (ucast src) b QDMA_PF_MBOX_TARGET_FN)"
  define t2 where "t2 = t1 @ [ev t1 tg]"
  define t3 where "t3 = t2 @ [ev t2 rd]"
  define sts2 where "sts2 = (of_int (snd (ev t2 rd)) :: u32)"
  note defs = ev_def rd_def t1_def sts_def src_def tg_def t2_def t3_def sts2_def
  have reads: "run_state (qdma_read_reg q QDMA_PF_MBOX_STS) s = (sts, s\<lparr>trace := t1\<rparr>)"
    "run_state (qdma_write_reg q QDMA_PF_MBOX_TARGET_FN (ucast src)) (s\<lparr>trace := t1\<rparr>) = ((), s\<lparr>trace := t2\<rparr>)"
    "run_state (qdma_read_reg q QDMA_PF_MBOX_STS) (s\<lparr>trace := t2\<rparr>) = (sts2, s\<lparr>trace := t3\<rparr>)"
    by (simp_all add: run_simps defs flip: b_def)
  consider (none) "\<not> sts_has sts QDMA_MBOX_STS_I_MSG_MASK"
    | (busy) "sts_has sts QDMA_MBOX_STS_I_MSG_MASK" "sts_has sts2 QDMA_MBOX_STS_O_MSG_MASK"
    | (go) "sts_has sts QDMA_MBOX_STS_I_MSG_MASK" "\<not> sts_has sts2 QDMA_MBOX_STS_O_MSG_MASK" by blast
  then show thesis
  proof cases
    case none
    then have "r = 0" "s' = s\<lparr>trace := trace s @ [ev (trace s) rd]\<rparr>"
      using run reads q by (simp_all add: onic_pf_mbox_process_one_def run_simps t1_def)
    then show thesis using no_request_views by (intro that) (auto simp: defs simp flip: b_def)
  next
    case busy
    then have "r = - EBUSY" "s' = s\<lparr>trace := trace s @ [ev (trace s) rd, ev t1 tg, ev t2 rd]\<rparr>"
      using run reads q by (simp_all add: onic_pf_mbox_process_one_def run_simps src_def [symmetric] t1_def t2_def t3_def)
    then show thesis using no_request_views by (intro that) (auto simp: ev_def rd_def tg_def simp flip: b_def)
  next
    case go
    have "list_all (\<lambda>_. True) (msg_offsets QDMA_PF_MBOX_IN_MSG)" by (simp add: list_all_iff)
    then obtain ins where ins:
      "run_state (read_words (qdma_read_reg q) QDMA_PF_MBOX_IN_MSG) (s\<lparr>trace := t3\<rparr>) =
         (map (of_int \<circ> snd) ins, s\<lparr>trace := t3 @ ins\<rparr>)"
      "map fst ins = msg_reads b QDMA_PF_MBOX_IN_MSG"
      using pf_regs.read_words_run [where s = "s\<lparr>trace := t3\<rparr>" and offset = QDMA_PF_MBOX_IN_MSG and qdev = q]
      by (auto simp: b_def)
    define req where "req = msg_of_words (map (of_int \<circ> snd) ins)"
    obtain err resp s4 where ans: "run_state (pf_mbox_answer (priv s) src req) (s\<lparr>trace := t3 @ ins\<rparr>) = ((err, resp), s4)"
      by (metis prod.collapse)
    obtain work where work: "s4 = s\<lparr>trace := t3 @ ins @ work\<rparr>" "list_all (ctxt_event b) work"
      "answer_frame (priv s) src req (err, resp) (cr_store (ctxt_view b (t3 @ ins)))
         (cr_store (ctxt_view b (t3 @ ins @ work)))"
      by (rule ctxt_relD [OF answer_frame_all [OF q] ans]) (auto simp: b_def)
    define rc where "rc = Io (Iowrite32 2 b QDMA_PF_MBOX_CMD)"
    define t5 where "t5 = t3 @ ins @ work @ [ev (t3 @ ins @ work) rc]"
    obtain outs where outs:
      "run_state (write_words (qdma_write_reg q) QDMA_PF_MBOX_OUT_MSG (msg_words resp)) (s\<lparr>trace := t5\<rparr>) =
         ((), s\<lparr>trace := t5 @ outs\<rparr>)"
      "map fst outs = msg_writes b QDMA_PF_MBOX_OUT_MSG (msg_words resp)"
      using pf_regs.write_words_run [where s = "s\<lparr>trace := t5\<rparr>" and offset = QDMA_PF_MBOX_OUT_MSG and qdev = q
          and ws = "msg_words resp"]
      by (auto simp: b_def list_all_iff)
    define sd where "sd = Io (Iowrite32 1 b QDMA_PF_MBOX_CMD)"
    define evs where "evs = [ev (trace s) rd, ev t1 tg, ev t2 rd] @ ins @ work @ [ev (t3 @ ins @ work) rc] @
      outs @ [ev (t5 @ outs) sd]"
    have cmds: "run_state (qdma_write_reg q QDMA_PF_MBOX_CMD (ucast QDMA_MBOX_CMD_RCV)) (s\<lparr>trace := t3 @ ins @ work\<rparr>) =
        ((), s\<lparr>trace := t5\<rparr>)"
      "run_state (qdma_write_reg q QDMA_PF_MBOX_CMD (ucast QDMA_MBOX_CMD_SEND)) (s\<lparr>trace := t5 @ outs\<rparr>) =
        ((), s\<lparr>trace := t5 @ outs @ [ev (t5 @ outs) sd]\<rparr>)"
      by (simp_all add: run_simps mbox_cmds t5_def rc_def sd_def ev_def flip: b_def)
    have "r = 1 \<and> s' = s\<lparr>trace := t5 @ outs @ [ev (t5 @ outs) sd]\<rparr>"
      using run reads q go ins(1) ans work(1) outs(1) cmds
      by (simp add: onic_pf_mbox_process_one_def onic_pf_mbox_read_msg_def onic_pf_mbox_write_msg_def run_get_priv
          req_def [symmetric] src_def [symmetric])
    then have "r = 1 \<and> s' = s\<lparr>trace := trace s @ evs\<rparr>"
      by (simp add: evs_def t5_def t3_def t2_def t1_def)
    moreover have "request_step (priv s) b (trace s) evs"
    proof -
      have "length (mb_data resp) = 28" using work(3) by (simp add: answer_frame_def answers_def)
      note views = answered_views [OF ins(2) work(2) outs(2) this]
      have "evs = [(rd, snd (ev (trace s) rd)), (tg, snd (ev t1 tg)), (rd, snd (ev t2 rd))] @ ins @ work @
          [(rc, snd (ev (t3 @ ins @ work) rc))] @ outs @ [(sd, snd (ev (t5 @ outs) sd))]"
        by (simp add: evs_def ev_def)
      note views = views [OF this [unfolded rd_def tg_def rc_def sd_def]]
      have "hd (reg_reads b QDMA_PF_MBOX_STS evs) = sts"
        by (simp add: evs_def ev_def rd_def sts_def)
      moreover have "ctxt_view b (t3 @ ins) = ctxt_view b (trace s)"
      proof -
        have "list_all (ctxt_quiet b) ([ev (trace s) rd, ev t1 tg, ev t2 rd] @ ins)"
          using in_reads_ctxt_quiet [OF ins(2)]
          by (simp add: ev_def rd_def tg_def in_ctxt_window_def word_le_nat_alt)
        from ctxt.view_quiet [OF this] show ?thesis by (simp add: t3_def t2_def t1_def)
      qed
      moreover from this have "ctxt_view b (t3 @ ins @ work) = ctxt_view b (trace s @ work)"
        using ctxt.view_append [of b "t3 @ ins" work] by (simp add: ctxt.view_append)
      ultimately show ?thesis
        using work(3) views by (auto simp: request_step_def Let_def src_def req_def answer_frame_def)
    qed
    ultimately show thesis by (intro that [of evs]) (auto simp: b_def)
  qed
qed

section \<open>Configuring a queue\<close>

text \<open>The parameters a configure request of a VF asks for.\<close>

definition requested_h2c :: "onic_mbox_queue_cfg \<Rightarrow> onic_qdma_h2c_param" where
  "requested_h2c cfg =
     \<lparr>hp_rngcnt_idx = ucast (qc_rngcnt_idx cfg),
      hp_dma_addr = onic_pf_mbox_dma_addr (qc_desc_dma_lo cfg) (qc_desc_dma_hi cfg), hp_vid = ucast (qc_vector cfg)\<rparr>"

definition requested_c2h :: "onic_mbox_queue_cfg \<Rightarrow> onic_qdma_c2h_param" where
  "requested_c2h cfg =
     \<lparr>cp_bufsz_idx = ucast (qc_bufsz_idx cfg), cp_desc_rngcnt_idx = ucast (qc_rngcnt_idx cfg),
      cp_cmpl_rngcnt_idx = ucast (qc_cmpl_rngcnt_idx cfg), cp_cmpl_desc_sz = ucast (qc_cmpl_desc_sz cfg),
      cp_desc_dma_addr = onic_pf_mbox_dma_addr (qc_desc_dma_lo cfg) (qc_desc_dma_hi cfg),
      cp_cmpl_dma_addr = onic_pf_mbox_dma_addr (qc_cmpl_dma_lo cfg) (qc_cmpl_dma_hi cfg), cp_vid = ucast (qc_vector cfg)\<rparr>"

definition config_effect ::
  "onic_private \<Rightarrow> u16 \<Rightarrow> onic_mbox_queue_cfg \<Rightarrow> int \<Rightarrow> ctxt_store \<Rightarrow> ctxt_store \<Rightarrow> bool" where
  "config_effect p src cfg err st st' \<longleftrightarrow>
     (\<exists>v. onic_pf_mbox_get_vf_qdev p src (qc_qid cfg) = Inr v \<and>
        (let qid = ucast (qc_qid cfg) in
         qc_dir cfg = ONIC_MBOX_QUEUE_DIR_TX \<and>
           (err = 0 \<and> st' = tx_contexts v qid (requested_h2c cfg) st \<or> err = - EBUSY \<and> st' = st |` (- tx_keys v qid)) \<or>
         qc_dir cfg = ONIC_MBOX_QUEUE_DIR_RX \<and>
           (err = 0 \<and> st' = rx_contexts v qid (requested_c2h cfg) st \<or> err = - EBUSY \<and> st' = st |` (- rx_keys v qid))))"

definition config_accepted :: "onic_private \<Rightarrow> u16 \<Rightarrow> onic_mbox_msg \<Rightarrow> bool" where
  "config_accepted p src req \<longleftrightarrow>
     (let cfg = qcfg_of_words (mb_data req);
          addr_ok = (\<lambda>lo hi. onic_pf_mbox_dma_addr lo hi \<noteq> 0 \<and> is_aligned64 (onic_pf_mbox_dma_addr lo hi))
      in mh_len (mb_hdr req) = sizeof_queue_cfg \<and> qc_reserved cfg = 0 \<and> pf_qdev p \<noteq> None \<and>
         (case onic_pf_mbox_find_vf_resource p src of
            None \<Rightarrow> False
          | Some res \<Rightarrow> qc_qid cfg < ucast (vr_qmax res) \<and> qc_vector cfg < ucast (vr_qmax res)) \<and>
         qc_rngcnt_idx cfg < 16 \<and> addr_ok (qc_desc_dma_lo cfg) (qc_desc_dma_hi cfg) \<and>
         (qc_dir cfg = ONIC_MBOX_QUEUE_DIR_TX \<or>
          qc_dir cfg = ONIC_MBOX_QUEUE_DIR_RX \<and> qc_bufsz_idx cfg < 16 \<and> qc_cmpl_rngcnt_idx cfg < 16 \<and>
            \<not> qc_cmpl_desc_sz cfg > 3 \<and> addr_ok (qc_cmpl_dma_lo cfg) (qc_cmpl_dma_hi cfg)))"

lemma ctxt_rel_then_ret:
  assumes "ctxt_rel b R m" "\<And>r st st'. R r st st' \<Longrightarrow> S (f r) st st'"
  shows "ctxt_rel b S (State_Monad.bind m (\<lambda>r. ret (f r)))"
  by (rule ctxt_rel_conseq [OF ctxt_rel_bind [OF assms(1) ctxt_rel_ret]]) (use assms(2) in blast)

lemma config_queue_accepted_eq:
  assumes "pf_qdev p = Some q" "config_accepted p src req"
  obtains v where "onic_pf_mbox_get_vf_qdev p src (qc_qid (qcfg_of_words (mb_data req))) = Inr v"
    "qdev_addr v = qdev_addr q"
    "let cfg = qcfg_of_words (mb_data req); qid = ucast (qc_qid cfg);
         reply = (\<lambda>err. ret (err, status_ok err (onic_pf_mbox_init_queue_cmd_resp ONIC_MBOX_OP_CONFIG_QUEUE_RESP
           (mh_seq (mb_hdr req)) (qc_qid cfg) (qc_dir cfg))))
     in qc_dir cfg = ONIC_MBOX_QUEUE_DIR_TX \<and> onic_pf_mbox_config_queue p src req =
          (State_Monad.bind (onic_qdma_init_tx_queue v qid (requested_h2c cfg)) reply :: ('z, _) drv) \<or>
        qc_dir cfg = ONIC_MBOX_QUEUE_DIR_RX \<and> onic_pf_mbox_config_queue p src req =
          State_Monad.bind (onic_qdma_init_rx_queue v qid (requested_c2h cfg)) reply"
proof -
  let ?cfg = "qcfg_of_words (mb_data req)"
  from assms(2) obtain res where res: "onic_pf_mbox_find_vf_resource p src = Some res"
    "qc_qid ?cfg < ucast (vr_qmax res)" "qc_vector ?cfg < ucast (vr_qmax res)"
    by (auto simp: config_accepted_def Let_def split: option.splits)
  define v where "v = \<lparr>qdev_self = 0, qdev_func_id = vr_func_id res, qdev_q_base = vr_qbase res,
    qdev_num_queues = vr_qmax res, qdev_addr = qdev_addr q\<rparr>"
  have v: "onic_pf_mbox_get_vf_qdev p src (qc_qid ?cfg) = Inr v" "qdev_addr v = qdev_addr q"
    using res assms(1) by (auto simp: onic_pf_mbox_get_vf_qdev_def pf_qdev_def v_def split: option.splits if_splits)
  have num: "qdev_num_queues v = vr_qmax res" by (simp add: v_def)
  note acc = assms(2) [unfolded config_accepted_def Let_def]
  consider (tx) "qc_dir ?cfg = 0" | (rx) "qc_dir ?cfg = 1" using acc by auto
  then show thesis
    using acc v num res
    by (cases; intro that [of v]) (simp_all add: onic_pf_mbox_config_queue_def Let_def requested_h2c_def
        requested_c2h_def not_le [symmetric] del: not_le not_less)
qed

lemma config_queue_accepted:
  assumes "pf_qdev p = Some q" "config_accepted p src req"
  shows "ctxt_rel (qdev_addr q)
    (\<lambda>a st st'. config_effect p src (qcfg_of_words (mb_data req)) (fst a) st st' \<and> answers req (fst a) (snd a))
    (onic_pf_mbox_config_queue p src req)"
proof (rule config_queue_accepted_eq [OF assms])
  let ?cfg = "qcfg_of_words (mb_data req)"
  fix v
  assume v: "onic_pf_mbox_get_vf_qdev p src (qc_qid ?cfg) = Inr v" "qdev_addr v = qdev_addr q"
    and eq: "let cfg = ?cfg; qid = ucast (qc_qid cfg);
         reply = (\<lambda>err. ret (err, status_ok err (onic_pf_mbox_init_queue_cmd_resp ONIC_MBOX_OP_CONFIG_QUEUE_RESP
           (mh_seq (mb_hdr req)) (qc_qid cfg) (qc_dir cfg))))
     in qc_dir cfg = ONIC_MBOX_QUEUE_DIR_TX \<and> onic_pf_mbox_config_queue p src req =
          (State_Monad.bind (onic_qdma_init_tx_queue v qid (requested_h2c cfg)) reply :: ('z, _) drv) \<or>
        qc_dir cfg = ONIC_MBOX_QUEUE_DIR_RX \<and> onic_pf_mbox_config_queue p src req =
          State_Monad.bind (onic_qdma_init_rx_queue v qid (requested_c2h cfg)) reply"
  show "ctxt_rel (qdev_addr q)
    (\<lambda>a st st'. config_effect p src ?cfg (fst a) st st' \<and> answers req (fst a) (snd a))
    (onic_pf_mbox_config_queue p src req :: ('z, _) drv)"
    using eq unfolding Let_def v(2) [symmetric]
    apply (elim disjE conjE)
     apply (erule ssubst, rule ctxt_rel_then_ret, rule init_tx_queue_rel)
     apply (simp add: config_effect_def Let_def answers_cmd_resp v(1))
    apply (erule ssubst, rule ctxt_rel_then_ret, rule init_rx_queue_rel)
    apply (simp add: config_effect_def Let_def answers_cmd_resp v(1))
    done
qed

definition refuses :: "onic_mbox_msg \<Rightarrow> ('z, int \<times> onic_mbox_msg) drv \<Rightarrow> bool" where
  "refuses req m \<longleftrightarrow> (\<exists>err resp. m = ret (err, resp) \<and> err < 0 \<and> answers req err resp)"

lemma refuses_if: "(c \<Longrightarrow> refuses req m) \<Longrightarrow> (\<not> c \<Longrightarrow> refuses req n) \<Longrightarrow> refuses req (if c then m else n)"
  by simp

lemma refuses_sum:
  "(\<And>e. x = Inl e \<Longrightarrow> refuses req (f e)) \<Longrightarrow> (\<And>v. x = Inr v \<Longrightarrow> refuses req (g v)) \<Longrightarrow>
     refuses req (case x of Inl e \<Rightarrow> f e | Inr v \<Rightarrow> g v)"
  by (cases x) simp_all

lemma refuses_ret: "err < 0 \<Longrightarrow> answers req err resp \<Longrightarrow> refuses req (ret (err, resp))"
  by (auto simp: refuses_def)

lemma refuses_run: "refuses req m \<Longrightarrow> run_state m s = ((e, resp), s') \<Longrightarrow> answers req e resp \<and> e < 0 \<and> s' = s"
  by (auto simp: refuses_def)

lemma get_vf_qdev_neg: "onic_pf_mbox_get_vf_qdev p src qid = Inl e \<Longrightarrow> e < 0"
  by (auto simp: onic_pf_mbox_get_vf_qdev_def split: option.splits if_splits)

lemma config_queue_refused:
  assumes "\<not> config_accepted p src req"
  shows "refuses req (onic_pf_mbox_config_queue p src req)"
proof -
  have acc: "refuses req m"
    if "onic_pf_mbox_get_vf_qdev p src (qc_qid (qcfg_of_words (mb_data req))) = Inr v"
      "\<And>res. onic_pf_mbox_find_vf_resource p src = Some res \<Longrightarrow>
         qc_qid (qcfg_of_words (mb_data req)) < ucast (vr_qmax res) \<Longrightarrow> qdev_num_queues v = vr_qmax res \<Longrightarrow>
         pf_qdev p \<noteq> None \<Longrightarrow> config_accepted p src req" for v and m :: "('z, int \<times> onic_mbox_msg) drv"
    using get_vf_qdev_Inr [OF that(1)] that(2) assms
    by (metis option.distinct(1) qdma_dev.select_convs(4))
  show ?thesis
    unfolding onic_pf_mbox_config_queue_def Let_def
    apply (intro refuses_if refuses_sum refuses_ret)
                  apply (simp_all add: answers_cmd_resp get_vf_qdev_neg get_vf_qdev_Inl)
     apply (erule acc, simp add: config_accepted_def Let_def not_le not_less)+
    done
qed

section \<open>Draining the inbox\<close>

lemma ack_register:
  assumes "i < 8"
  shows "\<not> in_out_window (pf_map b) (QDMA_PF_MBOX_ACK (of_nat i)) \<and> QDMA_PF_MBOX_ACK (of_nat i) \<noteq> QDMA_PF_MBOX_CMD \<and>
    QDMA_PF_MBOX_ACK (of_nat i) \<noteq> QDMA_PF_MBOX_TARGET_FN"
proof -
  consider "i = 0" | "i = 1" | "i = 2" | "i = 3" | "i = 4" | "i = 5" | "i = 6" | "i = 7"
    using assms by linarith
  then show ?thesis
    by cases (simp_all add: in_out_window_def word_less_nat_alt)
qed

lemma process_acks_io: "io_only onic_pf_mbox_process_acks"
  unfolding onic_pf_mbox_process_acks_def by (intro io_intro)

lemma process_acks_run:
  assumes "run_state onic_pf_mbox_process_acks s = (r, s')"
  shows "priv s' = priv s"
    "pf_qdev (priv s) = Some q \<Longrightarrow> 0 \<le> r \<and>
       mbox_view (pf_map (qdev_addr q)) (trace s') = mbox_view (pf_map (qdev_addr q)) (trace s)"
    "pf_qdev (priv s) = None \<Longrightarrow> r = - ENODEV \<and> s' = s"
proof -
  show "priv s' = priv s" by (rule io_only_priv [OF process_acks_io assms])
  show "pf_qdev (priv s) = None \<Longrightarrow> r = - ENODEV \<and> s' = s"
    using assms by (auto simp: onic_pf_mbox_process_acks_def run_simps)
  assume q: "pf_qdev (priv s) = Some q"
  define body :: "nat \<Rightarrow> int \<Rightarrow> int onic" where "body = (\<lambda>i processed. do {
           ack \<leftarrow> qdma_read_reg q (QDMA_PF_MBOX_ACK (of_nat i));
           if ack = 0 then ret processed
           else do {
             qdma_write_reg q (QDMA_PF_MBOX_ACK (of_nat i)) ack;
             ret (processed + hweight32 ack) } })"
  define m where "m = (do {
         status \<leftarrow> qdma_read_reg q QDMA_PF_MBOX_STS;
         if \<not> sts_has status QDMA_MBOX_STS_ACK_MASK then ret 0
         else for_each_acc [0..<QDMA_PF_MBOX_ACK_REGS] body 0 })"
  have run: "run_state m s = (r, s')"
    using assms q unfolding m_def body_def by (simp add: onic_pf_mbox_process_acks_def run_get_priv)
  have "emits (mbox_quiet (pf_map (qdev_addr q))) m"
    unfolding m_def body_def using ack_register
    by (intro triple_intro) (auto simp: qdma_read_reg_def qdma_write_reg_def intro!: triple_intro)
  from mboxv.view_emits [OF this run]
  have view: "mbox_view (pf_map (qdev_addr q)) (trace s') = mbox_view (pf_map (qdev_addr q)) (trace s)" .
  have "0 \<le> fst (run_state (for_each_acc [0..<8] body 0) t)" for t
    by (rule for_each_acc_result) (auto simp: body_def run_simps hweight32_def Let_def)
  then have "0 \<le> fst (run_state m s)" by (simp add: m_def run_simps)
  then have "0 \<le> r" by (simp add: run)
  with view show "0 \<le> r \<and>
       mbox_view (pf_map (qdev_addr q)) (trace s') = mbox_view (pf_map (qdev_addr q)) (trace s)" by simp
qed

lemma process_one_priv:
  assumes "run_state onic_pf_mbox_process_one s = (r, s')"
  shows "priv s' = priv s" "pf_qdev (priv s) = None \<Longrightarrow> r = - ENODEV \<and> s' = s"
proof -
  show none: "pf_qdev (priv s) = None \<Longrightarrow> r = - ENODEV \<and> s' = s"
    using assms by (auto simp: onic_pf_mbox_process_one_def run_simps)
  show "priv s' = priv s"
  proof (cases "pf_qdev (priv s)")
    case (Some q)
    then show ?thesis by (rule process_one_run [OF _ assms]) simp
  qed (use none in simp)
qed

text \<open>The requests answered in one run of the loop, against its fuel and its result.\<close>

definition drained :: "ptr \<Rightarrow> nat \<Rightarrow> int \<Rightarrow> int option \<Rightarrow> event list \<Rightarrow> event list \<Rightarrow> bool" where
  "drained b fuel cnt res tr tr' \<longleftrightarrow>
     (let old = mbox_view (pf_map b) tr; new = mbox_view (pf_map b) tr'; k = length (mx_sent new) - length (mx_sent old)
      in length (mx_sent old) \<le> length (mx_sent new) \<and> mx_received new = mx_received old + k \<and>
         (case res of None \<Rightarrow> k = fuel | Some r \<Rightarrow> k < fuel \<and> (r = - EBUSY \<or> cnt + int k \<le> r)))"

lemma pf_mbox_pending_run:
  assumes "run_state (pf_mbox_pending fuel cnt) s = (res, s')"
  shows "priv s' = priv s \<and>
    (case pf_qdev (priv s) of
       None \<Rightarrow> s' = s \<and> (res = (if fuel = 0 then None else Some (- ENODEV)))
     | Some q \<Rightarrow> drained (qdev_addr q) fuel cnt res (trace s) (trace s'))"
  using assms
proof (induction fuel arbitrary: cnt s)
  case 0
  then show ?case by (auto simp: drained_def split: option.split)
next
  case (Suc fuel)
  obtain a s1 where acks: "run_state onic_pf_mbox_process_acks s = (a, s1)"
    by (cases "run_state onic_pf_mbox_process_acks s")
  obtain r s2 where one: "run_state onic_pf_mbox_process_one s1 = (r, s2)"
    by (cases "run_state onic_pf_mbox_process_one s1")
  show ?case
  proof (cases "pf_qdev (priv s)")
    case None
    then show ?thesis using Suc.prems acks process_acks_run(3) [OF acks] by simp
  next
    case (Some q)
    let ?v = "\<lambda>t. mbox_view (pf_map (qdev_addr q)) (trace t)"
    have p1: "priv s1 = priv s" "0 \<le> a" "?v s1 = ?v s"
      using process_acks_run [OF acks] Some by auto
    obtain evs where e: "s2 = s1\<lparr>trace := trace s1 @ evs\<rparr>"
      "r = 1 \<and> request_step (priv s1) (qdev_addr q) (trace s1) evs \<or>
       (r = 0 \<or> r = - EBUSY) \<and> no_request_step (qdev_addr q) (trace s1) evs"
      by (rule process_one_run [OF _ one]) (use Some p1 in auto)
    show ?thesis
    proof (cases "r = 1")
      case True
      then have v2: "length (mx_sent (?v s2)) = Suc (length (mx_sent (?v s)))"
        "mx_received (?v s2) = Suc (mx_received (?v s))" "priv s2 = priv s"
        using e p1 by (auto simp: request_step_def Let_def)
      have "run_state (pf_mbox_pending fuel (cnt + a + 1)) s2 = (res, s')"
        using Suc.prems acks one p1(2) True by (simp add: Let_def)
      from Suc.IH [OF this] v2 Some p1(2) show ?thesis
        by (auto simp: drained_def Let_def Suc_diff_le split: option.splits)
    next
      case False
      then have v2: "?v s2 = ?v s \<or> mx_sent (?v s2) = mx_sent (?v s) \<and> mx_received (?v s2) = mx_received (?v s)"
        "priv s2 = priv s" "r = 0 \<or> r = - EBUSY"
        using e p1 by (auto simp: no_request_step_def Let_def)
      then show ?thesis
        using Suc.prems acks one p1(2) Some by (auto simp: drained_def Let_def split: if_splits)
    qed
  qed
qed

section \<open>Properties\<close>

text \<open>C1. One run of the PF's mailbox handler touches the contexts of one VF at most: whatever the request
  says, only contexts of queues inside the window of the function that the hardware names as sender
  change, and none at all when no request is taken. The driver's own data does not change.\<close>
theorem pf_mbox_isolation:
  "case run_state onic_pf_mbox_process_one s of (r, s') \<Rightarrow>
     priv s' = priv s \<and>
     (case pf_qdev (priv s) of
        None \<Rightarrow> r = - ENODEV \<and> s' = s
      | Some q \<Rightarrow>
          (let b = qdev_addr q; evs = drop (length (trace s)) (trace s');
               window = vf_window (priv s) (sts_src (hd (reg_reads b QDMA_PF_MBOX_STS evs)));
               old = cr_store (ctxt_view b (trace s)); new = cr_store (ctxt_view b (trace s'))
           in r = 1 \<and> new |` (- window) = old |` (- window) \<or> (r = 0 \<or> r = - EBUSY) \<and> new = old))"
proof -
  obtain r s' where run: "run_state onic_pf_mbox_process_one s = (r, s')" by (metis prod.collapse)
  show ?thesis
  proof (cases "pf_qdev (priv s)")
    case None
    then show ?thesis using process_one_priv [OF run] run by simp
  next
    case (Some q)
    show ?thesis
      by (rule process_one_run [OF Some run])
        (use Some run in \<open>auto simp: request_step_def no_request_step_def Let_def\<close>)
  qed
qed

text \<open>C18. Every request the PF takes is answered exactly once and to its sender: one message is sent, to the
  function the status register named, it echoes the sequence number of the request that was read from
  the inbox and says OK or ERR, and the inbox is released once. Nothing is sent otherwise.\<close>
theorem pf_mbox_reply:
  "case run_state onic_pf_mbox_process_one s of (r, s') \<Rightarrow>
     (case pf_qdev (priv s) of
        None \<Rightarrow> s' = s
      | Some q \<Rightarrow>
          (let b = qdev_addr q; evs = drop (length (trace s)) (trace s');
               src = sts_src (hd (reg_reads b QDMA_PF_MBOX_STS evs)); req = msg_in b QDMA_PF_MBOX_IN_MSG evs;
               old = mbox_view (pf_map b) (trace s); new = mbox_view (pf_map b) (trace s')
           in r = 1 \<and> mx_received new = Suc (mx_received old) \<and>
                (\<exists>resp. mx_sent new = mx_sent old @ [(ucast src, msg_words resp)] \<and>
                   mh_seq (mb_hdr resp) = mh_seq (mb_hdr req) \<and> length (msg_words resp) = 32 \<and>
                   mh_status (mb_hdr resp) \<in> {ONIC_MBOX_STS_OK, ONIC_MBOX_STS_ERR}) \<or>
              r \<noteq> 1 \<and> mx_received new = mx_received old \<and> mx_sent new = mx_sent old))"
proof -
  obtain r s' where run: "run_state onic_pf_mbox_process_one s = (r, s')" by (metis prod.collapse)
  show ?thesis
  proof (cases "pf_qdev (priv s)")
    case None
    then show ?thesis using process_one_priv [OF run] run by simp
  next
    case (Some q)
    show ?thesis
    proof (rule process_one_run [OF Some run], elim disjE conjE)
      fix evs
      assume s': "s' = s\<lparr>trace := trace s @ evs\<rparr>" "r = 1" and step: "request_step (priv s) (qdev_addr q) (trace s) evs"
      from step obtain err resp where "answers (msg_in (qdev_addr q) QDMA_PF_MBOX_IN_MSG evs) err resp"
        "mx_sent (mbox_view (pf_map (qdev_addr q)) (trace s @ evs)) = mx_sent (mbox_view (pf_map (qdev_addr q)) (trace s)) @
           [(ucast (sts_src (hd (reg_reads (qdev_addr q) QDMA_PF_MBOX_STS evs))), msg_words resp)]"
        "mx_received (mbox_view (pf_map (qdev_addr q)) (trace s @ evs)) =
           Suc (mx_received (mbox_view (pf_map (qdev_addr q)) (trace s)))"
        unfolding request_step_def Let_def by blast
      then show ?thesis
        by (simp add: Some run s' answers_def) (rule exI [of _ resp], simp)
    qed (use Some run in \<open>simp_all add: no_request_step_def Let_def\<close>)
  qed
qed

text \<open>C3. A configure request is either accepted or refused. Accepted (the queue and vector are inside the
  window of the sender, the indices in range, the ring addresses nonzero and aligned): the PF programs
  exactly the contexts the request describes, for the absolute queue number, and says OK; or, on a
  timeout of the card, it leaves none of the contexts of that queue and says ERR. Refused: an error
  answer, and not a single access to the card.\<close>
theorem pf_config_queue:
  "case run_state (onic_pf_mbox_config_queue p src req) s of ((err, resp), s') \<Rightarrow>
     answers req err resp \<and>
     (if config_accepted p src req
      then (case pf_qdev p of None \<Rightarrow> False | Some q \<Rightarrow>
              (let b = qdev_addr q in
               config_effect p src (qcfg_of_words (mb_data req)) err
                 (cr_store (ctxt_view b (trace s))) (cr_store (ctxt_view b (trace s')))))
      else err < 0 \<and> s' = s)"
proof -
  obtain err resp s' where run: "run_state (onic_pf_mbox_config_queue p src req) s = ((err, resp), s')"
    by (metis prod.collapse)
  show ?thesis
  proof (cases "config_accepted p src req")
    case True
    then obtain q where q: "pf_qdev p = Some q" by (auto simp: config_accepted_def Let_def)
    show ?thesis
      by (rule ctxt_relD [OF config_queue_accepted [OF q True] run]) (use True q run in simp)
  next
    case False
    from refuses_run [OF config_queue_refused [OF this] run] False run show ?thesis by simp
  qed
qed

text \<open>C19. Draining the inbox: every request taken is answered and released once, and the loop stops by itself
  as soon as the inbox is empty. It runs out of fuel only after answering as many requests as it had
  fuel, so it returns whenever fewer requests than that arrive; the count it returns covers them.\<close>
theorem pf_mbox_drains:
  "case run_state (onic_pf_mbox_process_pending fuel) s of (res, s') \<Rightarrow>
     priv s' = priv s \<and>
     (case pf_qdev (priv s) of
        None \<Rightarrow> s' = s \<and> res = (if fuel = 0 then None else Some (- ENODEV))
      | Some q \<Rightarrow>
          (let old = mbox_view (pf_map (qdev_addr q)) (trace s); new = mbox_view (pf_map (qdev_addr q)) (trace s');
               k = length (mx_sent new) - length (mx_sent old)
           in length (mx_sent old) \<le> length (mx_sent new) \<and> mx_received new = mx_received old + k \<and>
              (case res of
                 None \<Rightarrow> k = fuel
               | Some r \<Rightarrow> k < fuel \<and> (r = - EBUSY \<or> int k \<le> r))))"
proof -
  obtain res s' where run: "run_state (pf_mbox_pending fuel 0) s = (res, s')"
    by (cases "run_state (pf_mbox_pending fuel 0) s")
  from pf_mbox_pending_run [OF run] run show ?thesis
    by (cases "pf_qdev (priv s)"; cases res)
      (simp_all add: onic_pf_mbox_process_pending_def drained_def Let_def)
qed

end
