(* ===== verification/Sriov.thy ===== *)
theory Sriov
  imports Mbox
begin

text \<open>
  \<^verbatim>\<open>onic_sriov.c\<close>: enabling and disabling the virtual functions of the PF. Each VF gets a window of four
  queues behind those of the PF, written to the function map of the card and to the table
  \<^verbatim>\<open>vf_res\<close> that the mailbox checks requests against.
\<close>

section \<open>Operations\<close>

abbreviation (input) queues_per_vf :: nat where "queues_per_vf \<equiv> 4"

text \<open>\<^verbatim>\<open>struct qdma_dev vf_qdev = {0}\<close> with the fields that are set; the other fields are 0.\<close>

definition vf_dev :: "qdma_dev \<Rightarrow> u16 \<Rightarrow> u16 \<Rightarrow> u16 \<Rightarrow> qdma_dev" where
  "vf_dev pf func_id q_base num_queues = \<lparr>qdev_self = 0, qdev_func_id = func_id, qdev_q_base = q_base,
     qdev_num_queues = num_queues, qdev_addr = qdev_addr pf\<rparr>"

definition free_vf :: "qdma_dev \<Rightarrow> nat \<Rightarrow> unit onic" where
  "free_vf pf i = do {
     p \<leftarrow> get_priv;
     let res = pr_vf_res p ! i;
     if \<not> vr_enabled res then ret ()
     else do {
       let vf = vf_dev pf (vr_func_id res) (vr_qbase res) (vr_qmax res);
       for_each [0..<unat (vr_qmax res)] (\<lambda>qid. do {
         onic_qdma_clear_rx_queue vf (of_nat qid);
         onic_qdma_clear_tx_queue vf (of_nat qid) });
       _ \<leftarrow> qdma_clear_fmap_ctxt vf;
       upd_priv (pr_vf_res_update (\<lambda>t. t[i := zero_vf_resource])) } }"

definition onic_free_vf_resources :: "int \<Rightarrow> unit onic" where
  "onic_free_vf_resources num_vfs = do {
     p \<leftarrow> get_priv;
     case hw_qdma (pr_hw p) of
       None \<Rightarrow> ret ()
     | Some pf \<Rightarrow> do {
         for_each [0..<nat (min num_vfs (int ONIC_MAX_VFS))] (free_vf pf);
         upd_priv (pr_num_vfs_update (\<lambda>_. 0)) } }"

fun config_vfs :: "qdma_dev \<Rightarrow> nat list \<Rightarrow> int \<Rightarrow> int onic" where
  "config_vfs pf [] current_base_queue = ret 0"
| "config_vfs pf (i # rest) current_base_queue = do {
     let vf_func_id = 4 + of_nat i;
     (err, vf) \<leftarrow> qdma_write_fmap_ctxt (vf_dev pf vf_func_id 0 0)
       \<lparr>fmap_qbase = of_int current_base_queue, fmap_qmax = of_nat queues_per_vf\<rparr>;
     if err \<noteq> 0 then do {
       _ \<leftarrow> qdma_clear_fmap_ctxt vf;
       onic_free_vf_resources (int i);
       ret err }
     else do {
       mac \<leftarrow> eth_random_addr;
       upd_priv (pr_vf_res_update (\<lambda>t. t[i :=
         \<lparr>vr_vf_id = of_nat i, vr_func_id = vf_func_id, vr_qbase = of_int current_base_queue,
          vr_qmax = of_nat queues_per_vf, vr_num_tx_queues = of_nat queues_per_vf,
          vr_num_rx_queues = of_nat queues_per_vf, vr_mac = mac, vr_enabled = True\<rparr>]));
       config_vfs pf rest (current_base_queue + int queues_per_vf) } }"

definition onic_config_vf_resources :: "int \<Rightarrow> int onic" where
  "onic_config_vf_resources num_vfs = do {
     p \<leftarrow> get_priv;
     case hw_qdma (pr_hw p) of
       None \<Rightarrow> ret (- ENODEV)
     | Some pf \<Rightarrow> do {
         rv \<leftarrow> config_vfs pf [0..<nat num_vfs] (uint (qdev_q_base pf) + uint (qdev_num_queues pf));
         if rv \<noteq> 0 then ret rv
         else do {
           upd_priv (pr_num_vfs_update (\<lambda>_. of_int num_vfs));
           ret 0 } } }"

definition onic_sriov_configure :: "int \<Rightarrow> int onic" where
  "onic_sriov_configure num_vfs =
     (if num_vfs = 0 then do {
        assigned \<leftarrow> perform (Pci Pci_vfs_assigned);
        if assigned \<noteq> 0 then ret (- EBUSY)
        else do {
          enabled_vfs \<leftarrow> perform (Pci Pci_num_vf);
          invoke (Pci Pci_disable_sriov);
          onic_free_vf_resources enabled_vfs;
          ret 0 } }
      else do {
        p \<leftarrow> get_priv;
        if \<not> bit (pr_flags p) ONIC_FLAG_MASTER_PF then ret (- EINVAL)
        else if num_vfs < 0 \<or> num_vfs > int ONIC_MAX_VFS then ret (- EINVAL)
        else do {
          rv \<leftarrow> onic_config_vf_resources num_vfs;
          if rv < 0 then ret rv
          else do {
            rv \<leftarrow> perform (Pci (Pci_enable_sriov (nat num_vfs)));
            if rv < 0 then do {
              onic_free_vf_resources num_vfs;
              ret rv }
            else ret num_vfs } } })"

section \<open>Operations on the card and the private data\<close>

text \<open>The contexts of the card of \<open>pf\<close>.\<close>

abbreviation store :: "qdma_dev \<Rightarrow> event list \<Rightarrow> ctxt_store" where
  "store pf tr \<equiv> cr_store (ctxt_view (qdev_addr pf) tr)"

lemma onic_rel_card:
  assumes "ctxt_rel b R m"
  shows "onic_rel (\<lambda>tr. cr_store (ctxt_view b tr)) (\<lambda>a x y. fst y = fst x \<and> R a (snd x) (snd y)) m"
  unfolding onic_rel_def
proof
  fix s
  obtain a s' where run: "run_state m s = (a, s')" by (cases "run_state m s")
  show "\<exists>evs p' a. run_state m s = (a, after s evs p') \<and>
      fst (p', cr_store (ctxt_view b (trace s @ evs))) = fst (priv s, cr_store (ctxt_view b (trace s))) \<and>
      R a (snd (priv s, cr_store (ctxt_view b (trace s)))) (snd (p', cr_store (ctxt_view b (trace s @ evs))))"
    by (rule ctxt_relD [OF assms run]) (use run in \<open>auto intro!: exI [of _ "priv s"]\<close>)
qed

section \<open>Releasing the resources\<close>

lemma restrict_UNIV [simp]: "st |` UNIV = st"
  by (simp add: restrict_map_def)

lemma ctxt_rel_delete_each:
  assumes "\<And>x. x \<in> set xs \<Longrightarrow> ctxt_rel b (\<lambda>_ st st'. st' = st |` (- K x)) (f x)"
  shows "ctxt_rel b (\<lambda>_ st st'. st' = st |` (- (\<Union>x\<in>set xs. K x))) (for_each xs f)"
  using assms
proof (induction xs)
  case Nil
  have "ctxt_rel b (\<lambda>_ st st'. st' = st |` (- {})) (ret ())"
    by (rule ctxt_rel_conseq [OF ctxt_rel_ret]) simp
  then show ?case by simp
next
  case (Cons x xs)
  then have "ctxt_rel b (\<lambda>_ st st'. st' = st |` (- K x)) (f x)"
    "ctxt_rel b (\<lambda>_ st st'. st' = st |` (- (\<Union>x\<in>set xs. K x))) (for_each xs f)" by simp_all
  from ctxt_rel_bind [OF this] show ?case
    unfolding for_each.simps by (rule ctxt_rel_conseq) (auto simp: Int_commute)
qed

text \<open>The contexts that belong to one entry of the table: the function map and those of its queues.\<close>

definition queue_keys :: "qdma_dev \<Rightarrow> nat \<Rightarrow> (4 word \<times> 11 word) set" where
  "queue_keys v qid = rx_keys v (of_nat qid) \<union> tx_keys v (of_nat qid)"

definition vf_keys :: "qdma_dev \<Rightarrow> onic_vf_resource \<Rightarrow> (4 word \<times> 11 word) set" where
  "vf_keys pf res = (let v = vf_dev pf (vr_func_id res) (vr_qbase res) (vr_qmax res) in
     insert (fmap_key v) (\<Union>qid\<in>{0..<unat (vr_qmax res)}. queue_keys v qid))"

definition freed :: "nat \<Rightarrow> onic_vf_resource list \<Rightarrow> onic_vf_resource list" where
  "freed n t = map (\<lambda>i. if i < n \<and> vr_enabled (t ! i) then zero_vf_resource else t ! i) [0..<length t]"

definition freed_keys :: "qdma_dev \<Rightarrow> nat \<Rightarrow> onic_vf_resource list \<Rightarrow> (4 word \<times> 11 word) set" where
  "freed_keys pf n t = (\<Union>i\<in>{i. i < n \<and> vr_enabled (t ! i)}. vf_keys pf (t ! i))"

lemma clear_fmap_rel:
  "ctxt_rel (qdev_addr v) (\<lambda>a st st'. st' = st(fmap_key v := None)) (qdma_clear_fmap_ctxt v)"
  unfolding ctxt_rel_def by (metis qdma_clear_fmap_ctxt_run)

lemma restrict_twice: "(st |` (- A)) |` (- B) = st |` (- (A \<union> B))"
  by (auto simp: restrict_map_def)

lemma clear_queue_rel:
  assumes "qdev_addr v = b"
  shows "ctxt_rel b (\<lambda>_ st st'. st' = st |` (- queue_keys v qid))
     (do { onic_qdma_clear_rx_queue v (of_nat qid); onic_qdma_clear_tx_queue v (of_nat qid) })"
  unfolding queue_keys_def restrict_twice [symmetric] assms [symmetric]
  by (rule ctxt_rel_conseq [OF ctxt_rel_bind [OF clear_rx_queue_rel clear_tx_queue_rel]]) blast

lemma vf_dev_sel [simp]: "qdev_addr (vf_dev pf f q n) = qdev_addr pf"
  by (simp add: vf_dev_def)

definition free_step :: "qdma_dev \<Rightarrow> nat \<Rightarrow> onic_private \<times> ctxt_store \<Rightarrow> onic_private \<times> ctxt_store" where
  "free_step pf i x =
     (let res = pr_vf_res (fst x) ! i in
      if vr_enabled res
      then ((fst x)\<lparr>pr_vf_res := (pr_vf_res (fst x))[i := zero_vf_resource]\<rparr>, snd x |` (- vf_keys pf res))
      else x)"

lemma free_vf_rel: "onic_rel (store pf) (\<lambda>_ x y. y = free_step pf i x) (free_vf pf i)"
proof -
  define cards :: "onic_vf_resource \<Rightarrow> unit onic" where
    "cards res = (let v = vf_dev pf (vr_func_id res) (vr_qbase res) (vr_qmax res) in do {
       for_each [0..<unat (vr_qmax res)] (\<lambda>qid. do {
         onic_qdma_clear_rx_queue v (of_nat qid); onic_qdma_clear_tx_queue v (of_nat qid) });
       _ \<leftarrow> qdma_clear_fmap_ctxt v;
       ret () })" for res
  have cards: "ctxt_rel (qdev_addr pf) (\<lambda>_ st st'. st' = st |` (- vf_keys pf res)) (cards res)" for res
  proof -
    define v where "v = vf_dev pf (vr_func_id res) (vr_qbase res) (vr_qmax res)"
    have fm: "ctxt_rel (qdev_addr pf) (\<lambda>a st st'. st' = st(fmap_key v := None)) (qdma_clear_fmap_ctxt v)"
      using clear_fmap_rel [of v] by (simp add: v_def)
    show ?thesis
      unfolding cards_def Let_def v_def [symmetric]
      by (rule ctxt_rel_conseq [OF ctxt_rel_bind [OF ctxt_rel_delete_each ctxt_rel_bind [OF fm ctxt_rel_ret]]],
          rule clear_queue_rel) (auto simp: v_def vf_keys_def Let_def restrict_compl_insert)
  qed
  have "free_vf pf i = do {
     p \<leftarrow> get_priv;
     if \<not> vr_enabled (pr_vf_res p ! i) then ret ()
     else do { cards (pr_vf_res p ! i); upd_priv (pr_vf_res_update (\<lambda>t. t[i := zero_vf_resource])) } }"
    unfolding free_vf_def cards_def Let_def by (simp add: State_Monad.bind_assoc cong del: if_weak_cong)
  then show ?thesis
    apply (simp only:)
    apply (rule onic_rel_conseq)
     apply (rule onic_rel_intro onic_rel_card [OF cards])+
    apply (auto simp: free_step_def Let_def split: if_splits)
    done
qed

lemma free_loop_rel:
  "onic_rel (store pf) (\<lambda>_ x y. y = fold (free_step pf) xs x) (for_each xs (free_vf pf))"
proof (induction xs)
  case Nil
  then show ?case by (simp, rule onic_rel_conseq [OF onic_rel_ret]) auto
next
  case (Cons i xs)
  show ?case
    unfolding for_each.simps by (rule onic_rel_conseq [OF onic_rel_bind [OF free_vf_rel Cons]]) auto
qed

lemma length_freed [simp]: "length (freed n t) = length t"
  by (simp add: freed_def)

lemma fold_free_step:
  "n \<le> length (pr_vf_res p) \<Longrightarrow>
     fold (free_step pf) [0..<n] (p, st) =
       (p\<lparr>pr_vf_res := freed n (pr_vf_res p)\<rparr>, st |` (- freed_keys pf n (pr_vf_res p)))"
proof (induction n)
  case 0
  then show ?case
    by (simp add: freed_def freed_keys_def map_nth)
next
  case (Suc n)
  let ?t = "pr_vf_res p"
  have nth: "freed n ?t ! n = ?t ! n" using Suc.prems by (simp add: freed_def)
  have "freed (Suc n) ?t = (if vr_enabled (?t ! n) then (freed n ?t)[n := zero_vf_resource] else freed n ?t)"
    by (rule nth_equalityI) (use Suc.prems in \<open>auto simp: freed_def nth_list_update less_Suc_eq\<close>)
  moreover have "freed_keys pf (Suc n) ?t =
      (if vr_enabled (?t ! n) then freed_keys pf n ?t \<union> vf_keys pf (?t ! n) else freed_keys pf n ?t)"
    by (auto simp: freed_keys_def less_Suc_eq)
  ultimately show ?case
    using Suc nth by (simp add: free_step_def Let_def restrict_twice)
qed

lemma free_resources_run:
  assumes "hw_qdma (pr_hw (priv s)) = Some pf" "length (pr_vf_res (priv s)) = 4" "k = nat (min n 4)"
  obtains evs where
    "run_state (onic_free_vf_resources n) s =
       ((), after s evs ((priv s)\<lparr>pr_vf_res := freed k (pr_vf_res (priv s)), pr_num_vfs := 0\<rparr>))"
    "store pf (trace s @ evs) = store pf (trace s) |` (- freed_keys pf k (pr_vf_res (priv s)))"
proof -
  obtain s1 where run: "run_state (for_each [0..<k] (free_vf pf)) s = ((), s1)"
    by (metis old.unit.exhaust surj_pair)
  have k: "k \<le> length (pr_vf_res (priv s))" using assms by simp
  show thesis
    by (rule onic_relD [OF free_loop_rel run], rule that)
      (use assms(1) run in \<open>simp_all add: onic_free_vf_resources_def run_simps fold_free_step [OF k] flip: assms(3)\<close>)
qed

section \<open>Handing out the windows\<close>

text \<open>The entry of VF \<open>i\<close> when the windows start at \<open>base\<close>.\<close>

definition vf_slot :: "int \<Rightarrow> nat \<Rightarrow> onic_vf_resource \<Rightarrow> bool" where
  "vf_slot base i res \<longleftrightarrow>
     vr_enabled res \<and> vr_vf_id res = of_nat i \<and> vr_func_id res = 4 + of_nat i \<and>
     vr_qbase res = of_int (base + 4 * int i) \<and> vr_qmax res = 4 \<and> vr_num_tx_queues res = 4 \<and>
     vr_num_rx_queues res = 4 \<and> length (vr_mac res) = 6"

definition vf_fmap :: "int \<Rightarrow> nat \<Rightarrow> qdma_fmap_ctxt" where
  "vf_fmap base i = \<lparr>fmap_qbase = of_int (base + 4 * int i), fmap_qmax = 4\<rparr>"

definition vf_fmap_key :: "nat \<Rightarrow> 4 word \<times> 11 word" where
  "vf_fmap_key i = (sel_code QDMA_CTXT_CMD_SEL_FMAP, 4 + of_nat i)"

text \<open>The table with the VFs below \<open>n\<close> set up, from the table \<open>t\<close>.\<close>

definition vf_table :: "int \<Rightarrow> nat \<Rightarrow> onic_vf_resource list \<Rightarrow> onic_vf_resource list \<Rightarrow> bool" where
  "vf_table base n t t' \<longleftrightarrow> length t' = length t \<and>
     (\<forall>i<length t. if i < n then vf_slot base i (t' ! i) else t' ! i = t ! i)"

definition fmaps :: "int \<Rightarrow> nat \<Rightarrow> ctxt_store \<Rightarrow> ctxt_store" where
  "fmaps base n st = fold (\<lambda>i st. st(vf_fmap_key i \<mapsto> pad8 (fmap_ctxt_words (vf_fmap base i)))) [0..<n] st"

lemma random_addr_run:
  obtains evs mac where "run_state eth_random_addr s = (mac, s\<lparr>trace := trace s @ evs\<rparr>)" "length mac = 6"
    "list_all (ctxt_quiet b) evs"
proof -
  obtain mac s' where run: "run_state eth_random_addr s = (mac, s')" by (cases "run_state eth_random_addr s")
  have "io_only (eth_random_addr :: ('a, u8 list) drv)" "emits (ctxt_quiet b) (eth_random_addr :: ('a, u8 list) drv)"
    unfolding eth_random_addr_def by (intro io_intro) (intro triple_intro, simp)
  from io_emitsD [OF this run] obtain evs where "s' = s\<lparr>trace := trace s @ evs\<rparr>" "list_all (ctxt_quiet b) evs" .
  moreover have "length mac = 6"
    using run by (auto simp: eth_random_addr_def upt_rec run_simps)
  ultimately show thesis using run that by simp
qed

lemma ucast_of_nat_11: "(ucast (of_nat k :: u16) :: 11 word) = of_nat k"
proof -
  have "(ucast (of_nat k :: u16) :: 11 word) = of_nat (unat (of_nat k :: u16))"
    by (simp only: of_nat_unat)
  then show ?thesis by (simp add: unsigned_of_nat word_of_nat_eq_iff)
qed

lemma ucast_func_id: "(ucast (4 + of_nat i :: u16) :: 11 word) = 4 + of_nat i"
  using ucast_of_nat_11 [of "4 + i"] by (simp add: of_nat_add)

definition configured ::
  "qdma_dev \<Rightarrow> int \<Rightarrow> nat \<Rightarrow> onic_vf_resource list \<Rightarrow> ctxt_store \<Rightarrow> int \<Rightarrow> drv_state \<Rightarrow> drv_state \<Rightarrow> bool" where
  "configured pf base n t st r s s' \<longleftrightarrow>
     (\<exists>evs t'. r = 0 \<and> s' = after s evs ((priv s)\<lparr>pr_vf_res := t'\<rparr>) \<and> vf_table base n t t' \<and>
        store pf (trace s') = fmaps base n st) \<or>
     (\<exists>evs j t'. r = - EBUSY \<and> j < n \<and> vf_table base j t t' \<and>
        s' = after s evs ((priv s)\<lparr>pr_vf_res := freed j t', pr_num_vfs := 0\<rparr>) \<and>
        store pf (trace s') = (fmaps base j st)(vf_fmap_key j := None) |` (- freed_keys pf j t'))"

lemma vf_table_step:
  assumes "vf_table base i t t'" "i < length t" "vf_slot base i res"
  shows "vf_table base (Suc i) t (t'[i := res])"
  using assms by (auto simp: vf_table_def nth_list_update less_Suc_eq)

lemma config_vfs_run:
  assumes "hw_qdma (pr_hw (priv s)) = Some pf" "i \<le> n" "n \<le> 4"
    and "vf_table base i t (pr_vf_res (priv s))" "length t = 4"
    and "store pf (trace s) = fmaps base i st"
    and "run_state (config_vfs pf [i..<n] (base + 4 * int i)) s = (r, s')"
  shows "configured pf base n t st r s s'"
  using assms
proof (induction "n - i" arbitrary: i s)
  case 0
  then show ?case by (auto simp: configured_def intro!: exI [of _ "[]"] exI [of _ "pr_vf_res (priv s)"])
next
  case (Suc k)
  then have i: "i < n" "[i..<n] = i # [Suc i..<n]" "i < length t" by (auto simp: upt_conv_Cons)
  define v where "v = vf_dev pf (4 + of_nat i) 0 0"
  obtain e1 c where w: "run_state (qdma_write_fmap_ctxt v (vf_fmap base i)) s =
       ((c, v\<lparr>qdev_q_base := (if c = 0 then ucast (fmap_qbase (vf_fmap base i)) else 0),
              qdev_num_queues := (if c = 0 then ucast (fmap_qmax (vf_fmap base i)) else 0)\<rparr>), s\<lparr>trace := trace s @ e1\<rparr>)"
    "c = 0 \<or> c = - EBUSY"
    "store v (trace s @ e1) = (store v (trace s))(fmap_key v \<mapsto> pad8 (fmap_ctxt_words (vf_fmap base i)))"
    by (rule qdma_write_fmap_ctxt_run)
  have key: "fmap_key v = vf_fmap_key i" "qdev_addr v = qdev_addr pf"
    by (simp_all add: v_def vf_dev_def vf_fmap_key_def ucast_func_id)
  have st1: "store pf (trace s @ e1) = fmaps base (Suc i) st"
    using w(3) Suc.prems(6) key by (simp add: fmaps_def)
  have fm: "\<lparr>fmap_qbase = of_int (base + 4 * int i), fmap_qmax = of_nat queues_per_vf\<rparr> = vf_fmap base i"
    by (simp add: vf_fmap_def)
  show ?case
  proof (cases "c = 0")
    case True
    obtain e2 mac where mac: "run_state eth_random_addr (s\<lparr>trace := trace s @ e1\<rparr>) =
        (mac, s\<lparr>trace := trace s @ e1 @ e2\<rparr>)" "length mac = 6" "list_all (ctxt_quiet (qdev_addr pf)) e2"
      by (rule random_addr_run [of "s\<lparr>trace := trace s @ e1\<rparr>" "qdev_addr pf"]) auto
    define res where "res = \<lparr>vr_vf_id = of_nat i, vr_func_id = 4 + of_nat i, vr_qbase = of_int (base + 4 * int i),
          vr_qmax = of_nat queues_per_vf, vr_num_tx_queues = of_nat queues_per_vf,
          vr_num_rx_queues = of_nat queues_per_vf, vr_mac = mac, vr_enabled = True\<rparr>"
    define p1 where "p1 = pr_vf_res_update (\<lambda>t. t[i := res]) (priv s)"
    define s1 where "s1 = after s (e1 @ e2) p1"
    have slot: "vf_slot base i res" using mac(2) by (simp add: vf_slot_def res_def)
    have base: "base + 4 * int i + 4 = base + 4 * int (Suc i)" by simp
    have rest: "run_state (config_vfs pf [Suc i..<n] (base + 4 * int (Suc i))) s1 = (r, s')"
      using Suc.prems(7) w(1) mac(1) True unfolding i(2) config_vfs.simps Let_def fm v_def [symmetric] s1_def p1_def res_def base [symmetric]
      by (simp add: run_upd_priv cong del: if_weak_cong)
    have "configured pf base n t st r s1 s'"
      by (rule Suc.hyps(1) [OF _ _ _ _ _ Suc.prems(5) _ rest])
        (use Suc.hyps(2) Suc.prems i vf_table_step [OF Suc.prems(4) i(3) slot] st1 mac(3)
          in \<open>auto simp: s1_def p1_def ctxt.view_quiet simp flip: append_assoc\<close>)
    moreover have "after s1 evs q = after s ((e1 @ e2) @ evs) q" for evs q
      by (simp add: s1_def)
    moreover have "(priv s1)\<lparr>pr_vf_res := t'\<rparr> = (priv s)\<lparr>pr_vf_res := t'\<rparr>" for t'
      by (simp add: s1_def p1_def)
    ultimately show ?thesis unfolding configured_def by metis
  next
    case False
    define s1 where "s1 = s\<lparr>trace := trace s @ e1\<rparr>"
    let ?v = "v\<lparr>qdev_q_base := 0, qdev_num_queues := 0\<rparr>"
    obtain e2 d where c: "run_state (qdma_clear_fmap_ctxt ?v) s1 = ((d, ?v\<lparr>qdev_q_base := 0, qdev_num_queues := 0\<rparr>),
         s1\<lparr>trace := trace s1 @ e2\<rparr>)"
      "store ?v (trace s1 @ e2) = (store ?v (trace s1))(fmap_key ?v := None)"
      by (rule qdma_clear_fmap_ctxt_run)
    define s2 where "s2 = s1\<lparr>trace := trace s1 @ e2\<rparr>"
    obtain e3 where f: "run_state (onic_free_vf_resources (int i)) s2 =
         ((), after s2 e3 ((priv s2)\<lparr>pr_vf_res := freed i (pr_vf_res (priv s2)), pr_num_vfs := 0\<rparr>))"
      "store pf (trace s2 @ e3) = store pf (trace s2) |` (- freed_keys pf i (pr_vf_res (priv s2)))"
      by (rule free_resources_run [of s2 pf i "int i"])
        (use Suc.prems i in \<open>auto simp: s2_def s1_def vf_table_def\<close>)
    have "r = - EBUSY \<and> s' = after s2 e3 ((priv s2)\<lparr>pr_vf_res := freed i (pr_vf_res (priv s2)), pr_num_vfs := 0\<rparr>)"
      using Suc.prems(7) w(1,2) False c(1) f(1) unfolding i(2) config_vfs.simps Let_def fm v_def [symmetric]
      by (simp add: s1_def [symmetric] s2_def [symmetric] cong del: if_weak_cong)
    moreover have "store pf (trace s2) = (fmaps base i st)(vf_fmap_key i := None)"
      using c(2) st1 key by (simp add: s2_def s1_def fmaps_def)
    ultimately have "r = - EBUSY" "s' = after s (e1 @ e2 @ e3)
        ((priv s)\<lparr>pr_vf_res := freed i (pr_vf_res (priv s)), pr_num_vfs := 0\<rparr>)"
      "store pf (trace s') = (fmaps base i st)(vf_fmap_key i := None) |` (- freed_keys pf i (pr_vf_res (priv s)))"
      using f(2) by (simp_all add: s2_def s1_def)
    with i(1) Suc.prems(4) show ?thesis unfolding configured_def by blast
  qed
qed

section \<open>SR-IOV off and on\<close>

definition off_table :: "onic_vf_resource list" where
  "off_table = replicate ONIC_MAX_VFS zero_vf_resource"

definition sriov_off :: "onic_private \<Rightarrow> bool" where
  "sriov_off p \<longleftrightarrow> pr_vf_res p = off_table \<and> pr_num_vfs p = 0"

definition sriov_on :: "nat \<Rightarrow> nat \<Rightarrow> onic_private \<Rightarrow> bool" where
  "sriov_on base n p \<longleftrightarrow> n \<le> ONIC_MAX_VFS \<and> vf_table (int base) n off_table (pr_vf_res p) \<and> pr_num_vfs p = of_nat n"

definition first_vf_queue :: "qdma_dev \<Rightarrow> nat" where
  "first_vf_queue pf = unat (qdev_q_base pf) + unat (qdev_num_queues pf)"

lemma zero_disabled [simp]: "\<not> vr_enabled zero_vf_resource"
  by (simp add: zero_vf_resource_def)

lemma off_table_simps [simp]: "length off_table = 4" "i < 4 \<Longrightarrow> off_table ! i = zero_vf_resource"
  by (simp_all add: off_table_def)

lemma freed_off:
  assumes "vf_table base j off_table t"
  shows "freed j t = off_table"
proof (rule nth_equalityI)
  show "length (freed j t) = length off_table" using assms by (simp add: vf_table_def)
  fix i assume "i < length (freed j t)"
  then have i: "i < 4" "i < length t" using assms by (simp_all add: vf_table_def)
  with assms have "if i < j then vf_slot base i (t ! i) else t ! i = zero_vf_resource"
    by (simp add: vf_table_def split: if_splits)
  with i show "freed j t ! i = off_table ! i"
    by (auto simp: freed_def vf_slot_def split: if_splits)
qed

lemma fmaps_other: "k \<notin> vf_fmap_key ` {0..<n} \<Longrightarrow> fmaps base n st k = st k"
  unfolding fmaps_def by (induction n) (auto simp: image_iff less_Suc_eq)

lemma slot_fmap_key:
  assumes "vf_slot base i res"
  shows "vf_fmap_key i \<in> vf_keys pf res"
  using assms ucast_func_id [of i] by (simp add: vf_keys_def Let_def vf_slot_def vf_fmap_key_def vf_dev_def)

lemma rolled_back:
  assumes "vf_table base j off_table t" "j \<le> 4"
  shows "fmaps base j st |` (- freed_keys pf j t) \<subseteq>\<^sub>m st"
    "(fmaps base j st)(k := None) |` (- freed_keys pf j t) \<subseteq>\<^sub>m st"
proof -
  have "vf_fmap_key i \<in> freed_keys pf j t" if "i < j" for i
  proof -
    have "vf_slot base i (t ! i)" using assms that by (simp add: vf_table_def)
    with that show ?thesis using slot_fmap_key by (auto simp: freed_keys_def vf_slot_def)
  qed
  then have "fmaps base j st x = st x" if "x \<notin> freed_keys pf j t" for x
    using that by (intro fmaps_other) auto
  then show "fmaps base j st |` (- freed_keys pf j t) \<subseteq>\<^sub>m st"
    "(fmaps base j st)(k := None) |` (- freed_keys pf j t) \<subseteq>\<^sub>m st"
    by (auto simp: map_le_def restrict_map_def split: if_splits)
qed

lemma config_resources_run:
  assumes q: "hw_qdma (pr_hw (priv s)) = Some pf" and off: "sriov_off (priv s)" and n: "0 < n" "n \<le> 4"
    and run: "run_state (onic_config_vf_resources (int n)) s = (r, s')"
  shows "\<exists>evs p'. s' = after s evs p' \<and>
     (r = 0 \<and> sriov_on (first_vf_queue pf) n p' \<and> p' = (priv s)\<lparr>pr_vf_res := pr_vf_res p', pr_num_vfs := of_nat n\<rparr> \<and>
        store pf (trace s') = fmaps (int (first_vf_queue pf)) n (store pf (trace s)) \<or>
      r = - EBUSY \<and> p' = priv s \<and> store pf (trace s') \<subseteq>\<^sub>m store pf (trace s))"
proof -
  let ?b = "int (first_vf_queue pf)"
  obtain c s1 where c: "run_state (config_vfs pf [0..<n] (?b + 4 * int 0)) s = (c, s1)"
    by (cases "run_state (config_vfs pf [0..<n] (?b + 4 * int 0)) s")
  have base: "uint (qdev_q_base pf) + uint (qdev_num_queues pf) = ?b" by (simp add: first_vf_queue_def)
  have res: "(r, s') = (if c \<noteq> 0 then (c, s1) else (0, s1\<lparr>priv := (priv s1)\<lparr>pr_num_vfs := of_nat n\<rparr>\<rparr>))"
    using run q c by (cases "c = 0") (simp_all add: onic_config_vf_resources_def run_simps base)
  have "vf_table ?b 0 off_table (pr_vf_res (priv s))" "length off_table = 4"
    using off by (auto simp: sriov_off_def vf_table_def)
  from config_vfs_run [OF q _ n(2) this _ c, of "store pf (trace s)"]
  have "configured pf ?b n off_table (store pf (trace s)) c s s1" by (simp add: fmaps_def)
  then show ?thesis
    unfolding configured_def
  proof (elim disjE exE conjE)
    fix evs t'
    assume a: "c = 0" "s1 = after s evs ((priv s)\<lparr>pr_vf_res := t'\<rparr>)" "vf_table ?b n off_table t'"
      "store pf (trace s1) = fmaps ?b n (store pf (trace s))"
    let ?p = "(priv s)\<lparr>pr_vf_res := t', pr_num_vfs := of_nat n\<rparr>"
    have "s' = after s evs ?p" "r = 0" using res a(1,2) by simp_all
    moreover have "sriov_on (first_vf_queue pf) n ?p" using a(3) n by (simp add: sriov_on_def)
    ultimately show ?thesis using a(2,4) by (intro exI [of _ evs] exI [of _ ?p]) simp
  next
    fix evs j t'
    assume a: "c = - EBUSY" "j < n" "vf_table ?b j off_table t'"
      "s1 = after s evs ((priv s)\<lparr>pr_vf_res := freed j t', pr_num_vfs := 0\<rparr>)"
      "store pf (trace s1) = (fmaps ?b j (store pf (trace s)))(vf_fmap_key j := None) |` (- freed_keys pf j t')"
    have "(priv s)\<lparr>pr_vf_res := freed j t', pr_num_vfs := 0\<rparr> = priv s"
      using off freed_off [OF a(3)] by (simp add: sriov_off_def)
    then have "s' = after s evs (priv s)" "r = - EBUSY" using res a(1,4) by simp_all
    moreover have "store pf (trace s') \<subseteq>\<^sub>m store pf (trace s)"
      using res a(1,2,5) n rolled_back(2) [OF a(3)] by simp
    ultimately show ?thesis by (intro exI [of _ evs] exI [of _ "priv s"]) simp
  qed
qed

section \<open>Disjoint windows\<close>

lemma window_queue:
  assumes "sriov_on base n p" "(sel, q) \<in> vf_window p f" "base + 16 \<le> 2048"
  obtains i where "i < n" "f = 4 + of_nat i" "base + 4 * i \<le> unat q" "unat q < base + 4 * i + 4"
proof -
  from assms(2) obtain res qid where res: "onic_pf_mbox_find_vf_resource p f = Some res" "qid < vr_qmax res"
    "q = ucast (vr_qbase res + qid)"
    by (auto simp: vf_window_def)
  have len: "unat (pr_num_vfs p) = n" "length (pr_vf_res p) = 4" "n \<le> 4"
    using assms(1) by (auto simp: sriov_on_def vf_table_def)
  from res(1) obtain i where i: "i < n" "pr_vf_res p ! i = res" "vr_func_id res = f"
    using len by (auto simp: onic_pf_mbox_find_vf_resource_def find_Some_iff)
  then have slot: "vf_slot (int base) i res" using assms(1) len by (auto simp: sriov_on_def vf_table_def)
  have qb: "vr_qbase res = of_nat (base + 4 * i)" "unat qid < 4" "4 + of_nat i = f"
    using slot res(2) i by (auto simp: vf_slot_def word_less_nat_alt)
  have "q = ucast (of_nat (base + 4 * i + unat qid) :: u16)"
    using res(3) qb(1) by (simp add: of_nat_add)
  then have "q = of_nat (base + 4 * i + unat qid)" by (simp only: ucast_of_nat_11)
  then have "unat q = base + 4 * i + unat qid"
    using assms(3) i(1) len(3) qb(2) by (simp add: unat_of_nat take_bit_eq_mod del: of_nat_add)
  with i(1) qb show thesis by (intro that [of i]) auto
qed

lemma windows_disjoint:
  assumes "sriov_on base n p" "base + 16 \<le> 2048" "f \<noteq> g"
  shows "vf_window p f \<inter> vf_window p g = {}"
proof (rule equals0I)
  fix k assume "k \<in> vf_window p f \<inter> vf_window p g"
  then obtain sel q where k: "(sel, q) \<in> vf_window p f" "(sel, q) \<in> vf_window p g" by (cases k) auto
  obtain i where i: "f = 4 + of_nat i" "base + 4 * i \<le> unat q" "unat q < base + 4 * i + 4"
    by (rule window_queue [OF assms(1) k(1) assms(2)])
  obtain j where j: "g = 4 + of_nat j" "base + 4 * j \<le> unat q" "unat q < base + 4 * j + 4"
    by (rule window_queue [OF assms(1) k(2) assms(2)])
  have "i = j" using i(2,3) j(2,3) by linarith
  with i(1) j(1) assms(3) show False by simp
qed

lemma find_vf_slot:
  assumes "sriov_on base n p" "i < n"
  obtains res where "onic_pf_mbox_find_vf_resource p (4 + of_nat i) = Some res" "vf_slot (int base) i res"
proof -
  have len: "unat (pr_num_vfs p) = n" "length (pr_vf_res p) = 4" "n \<le> 4"
    using assms(1) by (auto simp: sriov_on_def vf_table_def)
  have slot: "vf_slot (int base) j (pr_vf_res p ! j)" if "j < n" for j
    using assms(1) len that by (auto simp: sriov_on_def vf_table_def)
  have "(4 + of_nat j :: u16) \<noteq> 4 + of_nat i" if "j < i" for j
  proof -
    have "unat (of_nat j :: u16) \<noteq> unat (of_nat i :: u16)" using that assms(2) len(3) by simp
    then show ?thesis by auto
  qed
  then have "onic_pf_mbox_find_vf_resource p (4 + of_nat i) = Some (pr_vf_res p ! i)"
    using assms(2) len slot
    by (auto simp: onic_pf_mbox_find_vf_resource_def find_Some_iff vf_slot_def intro!: exI [of _ i])
  then show thesis by (rule that) (rule slot [OF assms(2)])
qed

section \<open>Properties\<close>

text \<open>The state of the examples: PF 0 with 16 queues, the card mapped at 0x1000, every call answered by 0.\<close>

definition quiet_pf :: drv_state where
  "quiet_pf = \<lparr>ext = (\<lambda>_ _. 0), trace = [], priv = zero_private
     \<lparr>pr_flags := 1, pr_hw := zero_hardware\<lparr>hw_qdma := Some \<lparr>qdev_self = 1, qdev_func_id = 0, qdev_q_base = 0,
        qdev_num_queues = 16, qdev_addr = 0x1000\<rparr>\<rparr>\<rparr>\<rparr>"

text \<open>The private data with two VFs enabled, and the same on a quiet card that has two VFs enabled.\<close>

definition slot_of :: "nat \<Rightarrow> nat \<Rightarrow> onic_vf_resource" where
  "slot_of base i = \<lparr>vr_vf_id = of_nat i, vr_func_id = 4 + of_nat i, vr_qbase = of_nat (base + 4 * i), vr_qmax = 4,
     vr_num_tx_queues = 4, vr_num_rx_queues = 4, vr_mac = replicate 6 0, vr_enabled = True\<rparr>"

definition two_vfs :: "nat \<Rightarrow> onic_private" where
  "two_vfs base = (priv quiet_pf)
     \<lparr>pr_vf_res := [slot_of base 0, slot_of base 1, zero_vf_resource, zero_vf_resource], pr_num_vfs := 2\<rparr>"

definition quiet_pf_two :: drv_state where
  "quiet_pf_two = \<lparr>ext = (\<lambda>_ c. if c = Pci Pci_num_vf then 2 else 0), trace = [], priv = two_vfs 16\<rparr>"

lemma all_less_4: "(\<forall>i<4. P i) \<longleftrightarrow> P 0 \<and> P 1 \<and> P 2 \<and> P (3 :: nat)"
  by (auto simp: numeral_eq_Suc less_Suc_eq)

lemma two_vfs_on: "sriov_on base 2 (two_vfs base)"
  by (simp add: sriov_on_def vf_table_def all_less_4 two_vfs_def slot_of_def vf_slot_def)

text \<open>What \<^verbatim>\<open>onic_config_vf_resources\<close> set up is undone when the kernel refuses the VFs.\<close>

lemma refused_vfs_undone:
  assumes "hw_qdma (pr_hw (priv s)) = Some pf" "sriov_off (priv s)" "m \<le> 4" "sriov_on (first_vf_queue pf) m (priv s2)"
    "priv s2 = (priv s)\<lparr>pr_vf_res := pr_vf_res (priv s2), pr_num_vfs := of_nat m\<rparr>"
    "store pf (trace s2) = fmaps (int (first_vf_queue pf)) m (store pf (trace s))"
  obtains evs where "run_state (onic_free_vf_resources (int m)) s2 = ((), after s2 evs (priv s))"
    "store pf (trace s2 @ evs) \<subseteq>\<^sub>m store pf (trace s)"
proof -
  have tab: "vf_table (int (first_vf_queue pf)) m off_table (pr_vf_res (priv s2))" using assms(4) by (simp add: sriov_on_def)
  have hw: "pr_hw (priv s2) = pr_hw (priv s)" using arg_cong [OF assms(5), of pr_hw] by simp
  obtain evs where f: "run_state (onic_free_vf_resources (int m)) s2 =
       ((), after s2 evs ((priv s2)\<lparr>pr_vf_res := freed m (pr_vf_res (priv s2)), pr_num_vfs := 0\<rparr>))"
    "store pf (trace s2 @ evs) = store pf (trace s2) |` (- freed_keys pf m (pr_vf_res (priv s2)))"
    by (rule free_resources_run [of s2 pf m "int m"]) (use assms(1,3) tab hw in \<open>auto simp: vf_table_def\<close>)
  have "(priv s2)\<lparr>pr_vf_res := freed m (pr_vf_res (priv s2)), pr_num_vfs := 0\<rparr> = priv s"
    by (subst assms(5)) (use assms(2) freed_off [OF tab] in \<open>simp add: sriov_off_def\<close>)
  moreover have "store pf (trace s2 @ evs) \<subseteq>\<^sub>m store pf (trace s)"
    using rolled_back(1) [OF tab assms(3)] by (simp add: f(2) assms(6))
  ultimately show thesis using that f(1) by simp
qed

lemma sriov_enable_allowed:
  assumes "hw_qdma (pr_hw (priv s)) = Some pf" "sriov_off (priv s)" "bit (pr_flags (priv s)) ONIC_FLAG_MASTER_PF \<and> 0 < n \<and> n \<le> 4"
  shows "case run_state (onic_sriov_configure n) s of (r, s') \<Rightarrow>
     (let base = first_vf_queue pf; old = store pf (trace s); new = store pf (trace s') in
      r = n \<and> 0 < n \<and> n \<le> 4 \<and> bit (pr_flags (priv s)) ONIC_FLAG_MASTER_PF \<and>
        sriov_on base (nat n) (priv s') \<and> new = fmaps (int base) (nat n) old \<and>
        priv s' = (priv s)\<lparr>pr_vf_res := pr_vf_res (priv s'), pr_num_vfs := of_int n\<rparr> \<or>
      r < 0 \<and> priv s' = priv s \<and> new \<subseteq>\<^sub>m old)"
proof -
  note True = assms(3)
  obtain r s' where run: "run_state (onic_sriov_configure n) s = (r, s')" by (metis prod.collapse)
  define m where "m = nat n"
  have m: "0 < m" "m \<le> 4" "n = int m" using True by (auto simp: m_def)
  obtain c s1 where c: "run_state (onic_config_vf_resources (int m)) s = (c, s1)"
    by (cases "run_state (onic_config_vf_resources (int m)) s")
  obtain e1 p1 where s1: "s1 = after s e1 p1"
    "c = 0 \<and> sriov_on (first_vf_queue pf) m p1 \<and> p1 = (priv s)\<lparr>pr_vf_res := pr_vf_res p1, pr_num_vfs := of_nat m\<rparr> \<and>
       store pf (trace s1) = fmaps (int (first_vf_queue pf)) m (store pf (trace s)) \<or>
     c = - EBUSY \<and> p1 = priv s \<and> store pf (trace s1) \<subseteq>\<^sub>m store pf (trace s)"
    using config_resources_run [OF assms(1,2) m(1,2) c] by blast
  define e where "e = Pci (Pci_enable_sriov m)"
  define a where "a = ext s1 (trace s1) e"
  define s2 where "s2 = s1\<lparr>trace := trace s1 @ [(e, a)]\<rparr>"
  have quiet: "store pf (trace s2) = store pf (trace s1)" by (simp add: s2_def e_def ctxt.view_append)
  have enable: "run_state (perform (Pci (Pci_enable_sriov (nat n)))) s1 = (a, s2)"
    by (simp add: run_simps s2_def a_def e_def m_def)
  note c = c [folded m(3)]
  consider (config) "c < 0" | (enable) "\<not> c < 0" "a < 0" | (ok) "\<not> c < 0" "\<not> a < 0" by blast
  then show ?thesis
  proof cases
    case config
    then have "r = c" "s' = s1" using run True c by (simp_all add: onic_sriov_configure_def run_simps)
    moreover have "c \<noteq> 0" using config by simp
    then have "p1 = priv s" "store pf (trace s1) \<subseteq>\<^sub>m store pf (trace s)" using s1(2) by blast+
    ultimately show ?thesis using config by (simp add: run s1(1))
  next
    case enable
    then have "c \<noteq> - EBUSY" by auto
    then have on: "sriov_on (first_vf_queue pf) m p1" "p1 = (priv s)\<lparr>pr_vf_res := pr_vf_res p1, pr_num_vfs := of_nat m\<rparr>"
      "store pf (trace s1) = fmaps (int (first_vf_queue pf)) m (store pf (trace s))"
      using s1(2) by blast+
    have p2: "priv s2 = p1" by (simp add: s2_def s1(1))
    obtain e3 where f: "run_state (onic_free_vf_resources n) s2 = ((), after s2 e3 (priv s))"
      "store pf (trace s2 @ e3) \<subseteq>\<^sub>m store pf (trace s)"
      using refused_vfs_undone [OF assms(1,2) m(2), of s2, folded m(3)] on unfolding p2 quiet by blast
    have "r = a" "s' = after s2 e3 (priv s)"
      using run True c enable f(1) by (simp_all add: onic_sriov_configure_def run_get_priv \<open>run_state (perform _) s1 = _\<close>)
    with f(2) show ?thesis using enable by (simp add: run)
  next
    case ok
    then have "c \<noteq> - EBUSY" by auto
    from ok have "r = n" "s' = s2"
      using run True c by (simp_all add: onic_sriov_configure_def run_get_priv \<open>run_state (perform _) s1 = _\<close>)
    have on: "sriov_on (first_vf_queue pf) m p1" "store pf (trace s2) = fmaps (int (first_vf_queue pf)) m (store pf (trace s))"
      and p1: "p1 = (priv s)\<lparr>pr_vf_res := pr_vf_res p1, pr_num_vfs := of_nat m\<rparr>"
      using s1(2) \<open>c \<noteq> - EBUSY\<close> unfolding quiet by blast+
    have "priv s2 = p1" by (simp add: s2_def s1(1))
    with \<open>r = n\<close> \<open>s' = s2\<close> show ?thesis
      using True m(3) on by (simp add: run [unfolded m(3)] Let_def) (rule p1)
  qed
qed

text \<open>C2. Enabling \<open>n\<close> VFs is all or nothing. Either it returns \<open>n\<close>, at most four on the master PF, and then the
  table gives VF \<open>i\<close> the function \<open>4 + i\<close> and the four queues from \<open>base + 4 * i\<close>, behind those of the PF,
  and the function map of the card says the same; or it returns an error, the private data is as before
  and no context is left on the card that was not there.\<close>
theorem sriov_enable:
  assumes "hw_qdma (pr_hw (priv s)) = Some pf" "sriov_off (priv s)" "n \<noteq> 0"
  shows "case run_state (onic_sriov_configure n) s of (r, s') \<Rightarrow>
     (let base = first_vf_queue pf; old = store pf (trace s); new = store pf (trace s') in
      r = n \<and> 0 < n \<and> n \<le> 4 \<and> bit (pr_flags (priv s)) ONIC_FLAG_MASTER_PF \<and>
        sriov_on base (nat n) (priv s') \<and> new = fmaps (int base) (nat n) old \<and>
        priv s' = (priv s)\<lparr>pr_vf_res := pr_vf_res (priv s'), pr_num_vfs := of_int n\<rparr> \<or>
      r < 0 \<and> priv s' = priv s \<and> new \<subseteq>\<^sub>m old)"
proof -
  obtain r s' where run: "run_state (onic_sriov_configure n) s = (r, s')" by (metis prod.collapse)
  show ?thesis
  proof (cases "bit (pr_flags (priv s)) ONIC_FLAG_MASTER_PF \<and> 0 < n \<and> n \<le> 4")
    case False
    then have "r < 0 \<and> s' = s"
      using run assms(3) by (auto simp: onic_sriov_configure_def run_simps split: if_splits)
    then show ?thesis by (simp add: run)
  next
    case True
    then show ?thesis by (rule sriov_enable_allowed [OF assms(1,2)])
  qed
qed

theorem sriov_enable_witness:
  "hw_qdma (pr_hw (priv quiet_pf)) \<noteq> None \<and> sriov_off (priv quiet_pf) \<and>
   (case run_state (onic_sriov_configure 4) quiet_pf of (r, s') \<Rightarrow>
      r = 4 \<and> sriov_on 16 4 (priv s') \<or> r < 0 \<and> priv s' = priv quiet_pf)"
proof -
  have pre: "hw_qdma (pr_hw (priv quiet_pf)) = Some \<lparr>qdev_self = 1, qdev_func_id = 0, qdev_q_base = 0,
      qdev_num_queues = 16, qdev_addr = 0x1000\<rparr>" "sriov_off (priv quiet_pf)"
    by (simp_all add: quiet_pf_def zero_private_def sriov_off_def off_table_def)
  from sriov_enable [OF pre, of 4] pre show ?thesis
    by (auto simp: Let_def first_vf_queue_def split: prod.splits)
qed







end
