(* ===== verification/Ledger.thy ===== *)
theory Ledger
  imports Onic "HOL-Library.Multiset"
begin

text \<open>
  The resources the kernel has handed to the driver and not taken back: a view of the trace. It counts
  releases of something that is not held, so that double frees and frees of foreign objects show. An
  interrupt is named by its owner, the cookie of \<^verbatim>\<open>request_irq\<close>: its number is asked from
  \<^verbatim>\<open>pci_irq_vector\<close> on both occasions, which answers the same for the same vector.
\<close>

datatype resource =
    R_heap ptr
  | R_dma nat ptr
  | R_pool ptr
  | R_map ptr
  | R_device
  | R_regions
  | R_vectors
  | R_irq irq_owner
  | R_netdev
  | R_percpu
  | R_registered
  | R_napi nat
  | R_vmem ptr
  | R_rxq nat

text \<open>What a call acquires, given its answer, and what it gives back.\<close>

fun acquires :: "kcall \<Rightarrow> int \<Rightarrow> resource option" where
  "acquires (Mem (Kzalloc k)) r = (if (of_int r :: ptr) = 0 then None else Some (R_heap (of_int r)))"
| "acquires (Mem (Kcalloc k n)) r = (if (of_int r :: ptr) = 0 then None else Some (R_heap (of_int r)))"
| "acquires (Mem (Vmalloc n)) r = (if (of_int r :: ptr) = 0 then None else Some (R_vmem (of_int r)))"
| "acquires (Mem (Dma_alloc_coherent n)) r = (if (of_int r :: ptr) = 0 then None else Some (R_dma n (of_int r)))"
| "acquires (Page (Page_pool_create n)) r = (if r < 0 \<or> (of_int r :: ptr) = 0 then None else Some (R_pool (of_int r)))"
| "acquires (Pci (Pci_iomap b n)) r = (if (of_int r :: ptr) = 0 then None else Some (R_map (of_int r)))"
| "acquires (Pci (Pci_iomap_range b n k)) r = (if (of_int r :: ptr) = 0 then None else Some (R_map (of_int r)))"
| "acquires (Pci Pci_enable_device_mem) r = (if r = 0 then Some R_device else None)"
| "acquires (Pci Pci_request_mem_regions) r = (if r = 0 then Some R_regions else None)"
| "acquires (Pci (Pci_alloc_irq_vectors a b)) r = (if r < 0 then None else Some R_vectors)"
| "acquires (Pci (Request_irq irq own)) r = (if r = 0 then Some (R_irq own) else None)"
| "acquires (Net Alloc_etherdev) r = (if (of_int r :: ptr) = 0 then None else Some R_netdev)"
| "acquires (Net Alloc_percpu_stats) r = (if (of_int r :: ptr) = 0 then None else Some R_percpu)"
| "acquires (Net Register_netdev) r = (if r = 0 then Some R_registered else None)"
| "acquires (Net (Netif_napi_add q)) r = Some (R_napi q)"
| "acquires (Xdp (Xdp_rxq_info_reg q)) r = (if r = 0 then Some (R_rxq q) else None)"
| "acquires _ r = None"

fun releases :: "kcall \<Rightarrow> resource option" where
  "releases (Mem (Kfree p)) = (if p = 0 then None else Some (R_heap p))"
| "releases (Mem (Dma_free_coherent n p h)) = Some (R_dma n p)"
| "releases (Page (Page_pool_destroy p)) = (if p = 0 then None else Some (R_pool p))"
| "releases (Pci (Pci_iounmap p)) = Some (R_map p)"
| "releases (Pci Pci_disable_device) = Some R_device"
| "releases (Pci Pci_release_mem_regions) = Some R_regions"
| "releases (Pci Pci_free_irq_vectors) = Some R_vectors"
| "releases (Pci (Free_irq irq own)) = Some (R_irq own)"
| "releases (Net Free_netdev) = Some R_netdev"
| "releases (Net Free_percpu_stats) = Some R_percpu"
| "releases (Net Unregister_netdev) = Some R_registered"
| "releases (Net (Netif_napi_del q)) = Some (R_napi q)"
| "releases (Xdp (Xdp_rxq_info_unreg q)) = Some (R_rxq q)"
| "releases _ = None"

record ledger =
  held :: "resource multiset"
  faults :: nat

definition ledger_init :: ledger where
  "ledger_init = \<lparr>held = {#}, faults = 0\<rparr>"

definition acquire :: "resource \<Rightarrow> ledger \<Rightarrow> ledger" where
  "acquire x l = l\<lparr>held := add_mset x (held l)\<rparr>"

definition release :: "resource \<Rightarrow> ledger \<Rightarrow> ledger" where
  "release x l = (if x \<in># held l then l\<lparr>held := held l - {#x#}\<rparr> else l\<lparr>faults := Suc (faults l)\<rparr>)"

definition ledger_step :: "event \<Rightarrow> ledger \<Rightarrow> ledger" where
  "ledger_step e l =
     (case acquires (fst e) (snd e) of
        Some x \<Rightarrow> acquire x l
      | None \<Rightarrow> (case releases (fst e) of Some x \<Rightarrow> release x l | None \<Rightarrow> l))"

definition ledger :: "event list \<Rightarrow> ledger" where
  "ledger tr = fold ledger_step tr ledger_init"

definition ledger_quiet :: "event \<Rightarrow> bool" where
  "ledger_quiet e \<longleftrightarrow> acquires (fst e) (snd e) = None \<and> releases (fst e) = None"

interpretation led: trace_view ledger_step ledger_init ledger ledger_quiet
  by unfold_locales (auto simp: ledger_def ledger_quiet_def ledger_step_def)

lemma release_acquire [simp]: "release x (acquire x l) = l"
  by (simp add: release_def acquire_def)

lemma release_acquire_other:
  "x \<noteq> y \<Longrightarrow> x \<in># held l \<Longrightarrow> release x (acquire y l) = acquire y (release x l)"
  by (simp add: release_def acquire_def)

lemma acquire_swap: "acquire x (acquire y l) = acquire y (acquire x l)"
  by (simp add: acquire_def add_mset_commute)

lemma ledger_step_simps [simp]:
  "acquires c r = Some x \<Longrightarrow> ledger_step (c, r) l = acquire x l"
  "acquires c r = None \<Longrightarrow> releases c = Some x \<Longrightarrow> ledger_step (c, r) l = release x l"
  "acquires c r = None \<Longrightarrow> releases c = None \<Longrightarrow> ledger_step (c, r) l = l"
  by (simp_all add: ledger_step_def)

lemma ledger_append: "ledger (tr @ [e]) = ledger_step e (ledger tr)"
  by (simp add: led.view_append)

lemma ledger_io [simp]: "ledger_quiet (Io c, r)" "ledger_quiet (Sync d, r)" "ledger_quiet (Skb k, r)"
  by (simp_all add: ledger_quiet_def)

end
