(* ===== verification/Vf_Hw.thy ===== *)
theory Vf_Hw
  imports Ledger
begin

text \<open>
  \<^verbatim>\<open>onic_vf_hw.c\<close>: the BARs of a VF. BAR 0 (queue and mailbox registers) must be there, BAR 2 may be
  missing; every access is checked against the length of its BAR, and an access that fails the check
  reads all ones or writes nothing.
\<close>

abbreviation (input) ONIC_VF_QDMA_BAR :: nat where "ONIC_VF_QDMA_BAR \<equiv> 0"
abbreviation (input) ONIC_VF_SHELL_BAR :: nat where "ONIC_VF_SHELL_BAR \<equiv> 2"

definition onic_vf_map_bars :: "int onic" where
  "onic_vf_map_bars = do {
     l0 \<leftarrow> perform (Pci (Pci_resource_len ONIC_VF_QDMA_BAR));
     upd_vf_hw (vf_bar0_len_update (\<lambda>_. of_int l0));
     l2 \<leftarrow> perform (Pci (Pci_resource_len ONIC_VF_SHELL_BAR));
     upd_vf_hw (vf_bar2_len_update (\<lambda>_. of_int l2));
     if (of_int l0 :: u64) = 0 then ret (- ENODEV)
     else do {
       a0 \<leftarrow> perform (Pci (Pci_iomap ONIC_VF_QDMA_BAR 0));
       upd_vf_hw (vf_bar0_update (\<lambda>_. of_int a0));
       if (of_int a0 :: ptr) = 0 then ret (- ENOMEM)
       else if (of_int l2 :: u64) \<noteq> 0 then do {
         a2 \<leftarrow> perform (Pci (Pci_iomap ONIC_VF_SHELL_BAR 0));
         upd_vf_hw (vf_bar2_update (\<lambda>_. of_int a2));
         if (of_int a2 :: ptr) = 0 then do {
           invoke (Pci (Pci_iounmap (of_int a0)));
           upd_vf_hw (vf_bar0_update (\<lambda>_. 0));
           ret (- ENOMEM) }
         else ret 0 }
       else ret 0 } }"

definition onic_vf_unmap_bars :: "unit onic" where
  "onic_vf_unmap_bars = do {
     p \<leftarrow> get_priv;
     (if vf_bar2 (pr_vf_hw p) \<noteq> 0 then do {
        invoke (Pci (Pci_iounmap (vf_bar2 (pr_vf_hw p))));
        upd_vf_hw (\<lambda>hw. hw\<lparr>vf_bar2 := 0, vf_bar2_len := 0\<rparr>) }
      else ret ());
     if vf_bar0 (pr_vf_hw p) \<noteq> 0 then do {
       invoke (Pci (Pci_iounmap (vf_bar0 (pr_vf_hw p))));
       upd_vf_hw (\<lambda>hw. hw\<lparr>vf_bar0 := 0, vf_bar0_len := 0\<rparr>) }
     else ret () }"

definition onic_vf_bar_range_ok :: "u64 \<Rightarrow> u32 \<Rightarrow> bool" where
  "onic_vf_bar_range_ok len offset \<longleftrightarrow> len \<noteq> 0 \<and> \<not> ucast offset > len - 4"

definition onic_vf_read_bar0 :: "u32 \<Rightarrow> u32 onic" where
  "onic_vf_read_bar0 offset = do {
     p \<leftarrow> get_priv;
     if vf_bar0 (pr_vf_hw p) = 0 then ret 0xFFFFFFFF
     else if \<not> onic_vf_bar_range_ok (vf_bar0_len (pr_vf_hw p)) offset then ret 0xFFFFFFFF
     else do {
       r \<leftarrow> perform (Io (Ioread32 (vf_bar0 (pr_vf_hw p)) offset));
       ret (of_int r) } }"

definition onic_vf_write_bar0 :: "u32 \<Rightarrow> u32 \<Rightarrow> unit onic" where
  "onic_vf_write_bar0 offset val = do {
     p \<leftarrow> get_priv;
     if vf_bar0 (pr_vf_hw p) = 0 then ret ()
     else if \<not> onic_vf_bar_range_ok (vf_bar0_len (pr_vf_hw p)) offset then ret ()
     else invoke (Io (Iowrite32 val (vf_bar0 (pr_vf_hw p)) offset)) }"

definition onic_vf_read_bar2 :: "u32 \<Rightarrow> u32 onic" where
  "onic_vf_read_bar2 offset = do {
     p \<leftarrow> get_priv;
     if vf_bar2 (pr_vf_hw p) = 0 then ret 0xFFFFFFFF
     else if \<not> onic_vf_bar_range_ok (vf_bar2_len (pr_vf_hw p)) offset then ret 0xFFFFFFFF
     else do {
       r \<leftarrow> perform (Io (Ioread32 (vf_bar2 (pr_vf_hw p)) offset));
       ret (of_int r) } }"

definition onic_vf_write_bar2 :: "u32 \<Rightarrow> u32 \<Rightarrow> unit onic" where
  "onic_vf_write_bar2 offset val = do {
     p \<leftarrow> get_priv;
     if vf_bar2 (pr_vf_hw p) = 0 then ret ()
     else if \<not> onic_vf_bar_range_ok (vf_bar2_len (pr_vf_hw p)) offset then ret ()
     else invoke (Io (Iowrite32 val (vf_bar2 (pr_vf_hw p)) offset)) }"

section \<open>Accesses\<close>

lemma range_ok_iff:
  assumes "4 \<le> unat len"
  shows "onic_vf_bar_range_ok len off \<longleftrightarrow> unat off + 4 \<le> unat len"
proof -
  have "unat (len - 4) = unat len - 4" using assms by (simp add: unat_sub word_le_nat_alt)
  moreover have "unat (ucast off :: u64) = unat off"
  proof -
    have "unat off < 2 ^ 32" by (rule order_less_le_trans [OF unsigned_less]) simp
    then show ?thesis by (simp add: unsigned_ucast_eq take_bit_nat_eq_self_iff)
  qed
  ultimately show ?thesis
    using assms by (auto simp: onic_vf_bar_range_ok_def word_less_nat_alt)
qed

text \<open>BAR 0 answers at \<open>off\<close>.\<close>

definition bar0_ok :: "drv_state \<Rightarrow> u32 \<Rightarrow> bool" where
  "bar0_ok s off \<longleftrightarrow> vf_bar0 (pr_vf_hw (priv s)) \<noteq> 0 \<and>
     onic_vf_bar_range_ok (vf_bar0_len (pr_vf_hw (priv s))) off"

lemma run_read_bar0:
  "run_state (onic_vf_read_bar0 off) s =
     (if bar0_ok s off
      then (of_int (ext s (trace s) (Io (Ioread32 (vf_bar0 (pr_vf_hw (priv s))) off))),
            s\<lparr>trace := trace s @ [(Io (Ioread32 (vf_bar0 (pr_vf_hw (priv s))) off),
                                 ext s (trace s) (Io (Ioread32 (vf_bar0 (pr_vf_hw (priv s))) off)))]\<rparr>)
      else (0xFFFFFFFF, s))"
  by (simp add: onic_vf_read_bar0_def bar0_ok_def run_simps)

lemma run_write_bar0:
  "run_state (onic_vf_write_bar0 off v) s =
     ((), if bar0_ok s off
          then s\<lparr>trace := trace s @ [(Io (Iowrite32 v (vf_bar0 (pr_vf_hw (priv s))) off),
                 ext s (trace s) (Io (Iowrite32 v (vf_bar0 (pr_vf_hw (priv s))) off)))]\<rparr>
          else s)"
  by (simp add: onic_vf_write_bar0_def bar0_ok_def run_simps)

lemma io_only_bar0 [io_intro]: "io_only (onic_vf_read_bar0 off)" "io_only (onic_vf_write_bar0 off v)"
  unfolding onic_vf_read_bar0_def onic_vf_write_bar0_def by (intro io_intro)+

lemma emits_bar0 [triple_intro]:
  "(\<And>b r. P (Io (Ioread32 b off), r)) \<Longrightarrow> emits P (onic_vf_read_bar0 off)"
  "(\<And>b r. P (Io (Iowrite32 v b off), r)) \<Longrightarrow> emits P (onic_vf_write_bar0 off v)"
  unfolding onic_vf_read_bar0_def onic_vf_write_bar0_def
  by (auto intro!: triple_intro)

section \<open>Mapping\<close>

definition bars_mapped :: "onic_private \<times> ledger \<Rightarrow> onic_private \<times> ledger \<Rightarrow> bool" where
  "bars_mapped x y \<longleftrightarrow> (\<exists>b0 l0 b2 l2. b0 \<noteq> 0 \<and> l0 \<noteq> 0 \<and>
     (l2 = 0 \<and> y = (pr_vf_hw_update (\<lambda>hw. hw\<lparr>vf_bar0_len := l0, vf_bar2_len := l2, vf_bar0 := b0\<rparr>) (fst x),
                   acquire (R_map b0) (snd x)) \<or>
      l2 \<noteq> 0 \<and> b2 \<noteq> 0 \<and>
        y = (pr_vf_hw_update (\<lambda>hw. hw\<lparr>vf_bar0_len := l0, vf_bar2_len := l2, vf_bar0 := b0, vf_bar2 := b2\<rparr>) (fst x),
             acquire (R_map b2) (acquire (R_map b0) (snd x)))))"

definition bars_not_mapped :: "onic_private \<times> ledger \<Rightarrow> onic_private \<times> ledger \<Rightarrow> bool" where
  "bars_not_mapped x y \<longleftrightarrow> (\<exists>l0 l2. 
     y = (pr_vf_hw_update (\<lambda>hw. hw\<lparr>vf_bar0_len := l0, vf_bar2_len := l2\<rparr>) (fst x), snd x) \<or>
     y = (pr_vf_hw_update (\<lambda>hw. hw\<lparr>vf_bar0_len := l0, vf_bar2_len := l2, vf_bar0 := 0\<rparr>) (fst x), snd x) \<or>
     y = (pr_vf_hw_update (\<lambda>hw. hw\<lparr>vf_bar0_len := l0, vf_bar2_len := l2, vf_bar2 := 0, vf_bar0 := 0\<rparr>) (fst x), snd x))"

lemma map_bars_rel:
  "onic_rel ledger (\<lambda>r x y. r = 0 \<and> bars_mapped x y \<or> (r = - ENODEV \<or> r = - ENOMEM) \<and> bars_not_mapped x y)
   onic_vf_map_bars"
proof (rule onic_relI)
  fix s r s'
  assume run: "run_state onic_vf_map_bars s = (r, s')"
  define ev where "ev t c = (c, ext s t c)" for t c
  define t1 where "t1 = trace s @ [ev (trace s) (Pci (Pci_resource_len 0))]"
  define t2 where "t2 = t1 @ [ev t1 (Pci (Pci_resource_len 2))]"
  define t3 where "t3 = t2 @ [ev t2 (Pci (Pci_iomap 0 0))]"
  define t4 where "t4 = t3 @ [ev t3 (Pci (Pci_iomap 2 0))]"
  define a0 where "a0 = (of_int (ext s t2 (Pci (Pci_iomap 0 0))) :: ptr)"
  define a2 where "a2 = (of_int (ext s t3 (Pci (Pci_iomap 2 0))) :: ptr)"
  define t5 where "t5 = t4 @ [ev t4 (Pci (Pci_iounmap a0))]"
  define l0 where "l0 = (of_int (ext s (trace s) (Pci (Pci_resource_len 0))) :: u64)"
  define l2 where "l2 = (of_int (ext s t1 (Pci (Pci_resource_len 2))) :: u64)"
  define f :: "onic_vf_hardware \<Rightarrow> onic_vf_hardware" where "f = (\<lambda>hw. hw\<lparr>vf_bar0_len := l0, vf_bar2_len := l2\<rparr>)"
  note defs = ev_def t1_def t2_def t3_def t4_def t5_def a0_def a2_def l0_def l2_def f_def
  consider "l0 = 0" | "l0 \<noteq> 0" "a0 = 0" | "l0 \<noteq> 0" "a0 \<noteq> 0" "l2 = 0" | "l0 \<noteq> 0" "a0 \<noteq> 0" "l2 \<noteq> 0" "a2 = 0"
    | "l0 \<noteq> 0" "a0 \<noteq> 0" "l2 \<noteq> 0" "a2 \<noteq> 0" by blast
  then have "(r, s') =
    (if l0 = 0 then (- ENODEV, s\<lparr>trace := t2, priv := pr_vf_hw_update f (priv s)\<rparr>)
     else if a0 = 0 then (- ENOMEM, s\<lparr>trace := t3, priv := pr_vf_hw_update (\<lambda>hw. (f hw)\<lparr>vf_bar0 := 0\<rparr>) (priv s)\<rparr>)
     else if l2 = 0 then (0, s\<lparr>trace := t3, priv := pr_vf_hw_update (\<lambda>hw. (f hw)\<lparr>vf_bar0 := a0\<rparr>) (priv s)\<rparr>)
     else if a2 = 0 then (- ENOMEM, s\<lparr>trace := t5, priv := pr_vf_hw_update (\<lambda>hw. (f hw)\<lparr>vf_bar2 := 0, vf_bar0 := 0\<rparr>) (priv s)\<rparr>)
     else (0, s\<lparr>trace := t4, priv := pr_vf_hw_update (\<lambda>hw. (f hw)\<lparr>vf_bar0 := a0, vf_bar2 := a2\<rparr>) (priv s)\<rparr>))"
    using run unfolding defs by cases (simp_all add: onic_vf_map_bars_def run_simps comp_def)
  then show "\<exists>evs p'. s' = after s evs p' \<and>
    (r = 0 \<and> bars_mapped (priv s, ledger (trace s)) (p', ledger (trace s @ evs)) \<or>
     (r = - ENODEV \<or> r = - ENOMEM) \<and> bars_not_mapped (priv s, ledger (trace s)) (p', ledger (trace s @ evs)))"
  proof -
    have l: "ledger t2 = ledger (trace s)"
      "ledger t3 = (if a0 = 0 then ledger (trace s) else acquire (R_map a0) (ledger (trace s)))"
      "ledger t4 = (if a2 = 0 then ledger t3 else acquire (R_map a2) (ledger t3))"
      "ledger t5 = release (R_map a0) (ledger t4)"
      by (simp_all add: t2_def t1_def t3_def t4_def t5_def ev_def led.view_append a0_def a2_def ledger_step_def)
    have t: "\<exists>evs. t2 = trace s @ evs" "\<exists>evs. t3 = trace s @ evs" "\<exists>evs. t4 = trace s @ evs" "\<exists>evs. t5 = trace s @ evs"
      by (simp_all add: t2_def t1_def t3_def t4_def t5_def)
    show ?thesis
    proof (cases "r = 0")
      case True
      then have "l0 \<noteq> 0 \<and> a0 \<noteq> 0 \<and> (l2 = 0 \<and> s' = s\<lparr>trace := t3, priv := pr_vf_hw_update (\<lambda>hw. (f hw)\<lparr>vf_bar0 := a0\<rparr>) (priv s)\<rparr> \<or>
          l2 \<noteq> 0 \<and> a2 \<noteq> 0 \<and> s' = s\<lparr>trace := t4, priv := pr_vf_hw_update (\<lambda>hw. (f hw)\<lparr>vf_bar0 := a0, vf_bar2 := a2\<rparr>) (priv s)\<rparr>)"
        using \<open>(r, s') = _\<close> by (simp split: if_splits)
      then show ?thesis
        using True t l unfolding bars_mapped_def f_def by (elim conjE disjE) (simp, metis)+
    next
      case False
      then show ?thesis
        using \<open>(r, s') = _\<close> t l unfolding bars_not_mapped_def f_def by (simp split: if_splits, metis+)
    qed
  qed
qed

section \<open>Properties\<close>

text \<open>An access to BAR 0 reaches the card only while the BAR is mapped and the four bytes lie inside it, at
  exactly the requested offset; otherwise a read answers all ones and a write does nothing. (The check
  computes \<^verbatim>\<open>len - 4\<close> without sign, so a BAR of one to three bytes would pass every offset.)\<close>
theorem vf_bar0_access:
  "case run_state (onic_vf_read_bar0 off) s of (v, s1) \<Rightarrow> case run_state (onic_vf_write_bar0 off w) s of (u, s2) \<Rightarrow>
     (let b = vf_bar0 (pr_vf_hw (priv s)); len = vf_bar0_len (pr_vf_hw (priv s)) in
      b \<noteq> 0 \<and> (unat off + 4 \<le> unat len \<or> unat len \<in> {1, 2, 3}) \<and>
        (\<exists>r. v = of_int r \<and> s1 = s\<lparr>trace := trace s @ [(Io (Ioread32 b off), r)]\<rparr>) \<and>
        (\<exists>r. s2 = s\<lparr>trace := trace s @ [(Io (Iowrite32 w b off), r)]\<rparr>) \<or>
      (b = 0 \<or> unat len < unat off + 4) \<and> v = 0xFFFFFFFF \<and> s1 = s \<and> s2 = s)"
proof -
  let ?len = "vf_bar0_len (pr_vf_hw (priv s))"
  have small: "?len \<noteq> 0 \<Longrightarrow> unat ?len < 4 \<Longrightarrow> unat ?len \<in> {1, 2, 3}"
    using unat_eq_zero [of ?len] by force
  show ?thesis
  proof (cases "bar0_ok s off")
    case True
    then have "?len \<noteq> 0" "vf_bar0 (pr_vf_hw (priv s)) \<noteq> 0" by (simp_all add: bar0_ok_def onic_vf_bar_range_ok_def)
    then have "unat off + 4 \<le> unat ?len \<or> unat ?len \<in> {1, 2, 3}"
      using True range_ok_iff [of ?len off] small by (cases "4 \<le> unat ?len") (auto simp: bar0_ok_def)
    with True \<open>vf_bar0 _ \<noteq> 0\<close> show ?thesis
      by (simp add: run_read_bar0 run_write_bar0 Let_def)
        (intro disjI1 conjI exI; rule refl)
  next
    case False
    then have "vf_bar0 (pr_vf_hw (priv s)) = 0 \<or> unat ?len < unat off + 4"
      using range_ok_iff [of ?len off] by (cases "4 \<le> unat ?len") (auto simp: bar0_ok_def)
    with False show ?thesis by (simp add: run_read_bar0 run_write_bar0 Let_def)
  qed
qed

text \<open>Mapping the BARs is all or nothing, and unmapping undoes it: an error (-ENODEV or -ENOMEM) leaves no
  mapping behind, and after a success, unmapping returns every mapping to the kernel, once each.\<close>
theorem vf_map_bars_balanced:
  assumes "vf_bar2 (pr_vf_hw (priv s)) = 0"
  shows "case run_state onic_vf_map_bars s of (r, s1) \<Rightarrow> case run_state onic_vf_unmap_bars s1 of (u, s2) \<Rightarrow>
     (r = - ENODEV \<or> r = - ENOMEM) \<and> ledger (trace s1) = ledger (trace s) \<or>
     r = 0 \<and> vf_bar0 (pr_vf_hw (priv s1)) \<noteq> 0 \<and>
       vf_bar0 (pr_vf_hw (priv s2)) = 0 \<and> vf_bar2 (pr_vf_hw (priv s2)) = 0 \<and>
       ledger (trace s2) = ledger (trace s)"
proof -
  obtain r s1 where run: "run_state onic_vf_map_bars s = (r, s1)" by (metis prod.collapse)
  obtain evs p where s1: "s1 = after s evs p"
    "r = 0 \<and> bars_mapped (priv s, ledger (trace s)) (p, ledger (trace s @ evs)) \<or>
     (r = - ENODEV \<or> r = - ENOMEM) \<and> bars_not_mapped (priv s, ledger (trace s)) (p, ledger (trace s @ evs))"
    by (rule onic_relD [OF map_bars_rel run])
  show ?thesis
  proof (cases "r = 0")
    case False
    then show ?thesis
      using s1 run by (auto simp: bars_not_mapped_def split: prod.splits)
  next
    case True
    then have m: "bars_mapped (priv s, ledger (trace s)) (p, ledger (trace s @ evs))" using s1(2) by auto
    then show ?thesis
      using assms True unfolding bars_mapped_def
      by (elim exE conjE disjE)
        (simp_all add: run s1(1) onic_vf_unmap_bars_def run_simps led.view_append)
  qed
qed

theorem vf_map_bars_balanced_witness:
  "vf_bar2 (pr_vf_hw zero_private) = 0 \<and>
   (case run_state onic_vf_map_bars \<lparr>ext = (\<lambda>_ _. 0x1000), trace = [], priv = zero_private\<rparr> of (r, s1) \<Rightarrow>
      case run_state onic_vf_unmap_bars s1 of (u, s2) \<Rightarrow> r < 0 \<or> ledger (trace s2) = ledger_init)"
proof -
  define s where "s = \<lparr>ext = (\<lambda>_ _. 0x1000), trace = [], priv = zero_private\<rparr>"
  have s: "priv s = zero_private" "ledger (trace s) = ledger_init" by (simp_all add: s_def ledger_def)
  have b: "vf_bar2 (pr_vf_hw zero_private) = 0" by (simp add: zero_private_def zero_vf_hardware_def)
  obtain r s1 where 1: "run_state onic_vf_map_bars s = (r, s1)" by (metis prod.collapse)
  obtain u s2 where 2: "run_state onic_vf_unmap_bars s1 = (u, s2)" by (metis prod.collapse)
  have "r < 0 \<or> ledger (trace s2) = ledger_init"
    using vf_map_bars_balanced [of s] b s 1 2 by auto
  with b 1 2 show ?thesis by (simp flip: s_def)
qed

end
