(* ===== verification/Vf_Mbox.thy ===== *)
theory Vf_Mbox
  imports Vf_Hw Mbox_Transport
begin

text \<open>
  \<^verbatim>\<open>onic_vf_mbox.c\<close>: the VF side of the mailbox. One request at a time is sent under the mailbox mutex;
  its response arrives through the mailbox interrupt, or is fetched by a last look at the status
  register when the interrupt did not come within a second.
\<close>

section \<open>Messages\<close>

definition onic_vf_mbox_read_msg :: "u32 \<Rightarrow> onic_mbox_msg onic" where
  "onic_vf_mbox_read_msg offset = do {
     words \<leftarrow> read_words onic_vf_read_bar0 offset;
     ret (msg_of_words words) }"

definition onic_vf_mbox_write_msg :: "u32 \<Rightarrow> onic_mbox_msg \<Rightarrow> unit onic" where
  "onic_vf_mbox_write_msg offset msg = write_words onic_vf_write_bar0 offset (msg_words msg)"

abbreviation vf_base :: "drv_state \<Rightarrow> ptr" where
  "vf_base s \<equiv> vf_bar0 (pr_vf_hw (priv s))"

interpretation vf_regs: mbox_regs onic_vf_read_bar0 onic_vf_write_bar0 bar0_ok vf_base
  by unfold_locales (simp_all add: run_read_bar0 run_write_bar0, simp_all add: bar0_ok_def)

definition vf_sts_has :: "u32 \<Rightarrow> u64 \<Rightarrow> bool" where
  "vf_sts_has status m \<longleftrightarrow> ucast status AND m \<noteq> 0"

section \<open>Interrupts\<close>

text \<open>\<^verbatim>\<open>complete\<close> adds one to the count of the completion.\<close>

definition onic_vf_mbox_process_one :: "int onic" where
  "onic_vf_mbox_process_one = do {
     status \<leftarrow> onic_vf_read_bar0 QDMA_VF_MBOX_STS;
     if \<not> vf_sts_has status QDMA_MBOX_STS_I_MSG_MASK then ret 0
     else do {
       msg \<leftarrow> onic_vf_mbox_read_msg QDMA_VF_MBOX_IN_MSG;
       upd_vf_hw (vf_mbox_resp_update (\<lambda>_. msg));
       onic_vf_write_bar0 QDMA_VF_MBOX_CMD (ucast QDMA_MBOX_CMD_RCV);
       upd_vf_hw (vf_mbox_done_update Suc);
       ret 1 } }"

definition onic_vf_mbox_irq_handler :: "unit onic" where
  "onic_vf_mbox_irq_handler = onic_vf_write_bar0 QDMA_VF_MBOX_INTR_CTRL 0"

definition onic_vf_mbox_irq_thread :: "unit onic" where
  "onic_vf_mbox_irq_thread = do {
     _ \<leftarrow> onic_vf_mbox_process_one;
     onic_vf_write_bar0 QDMA_VF_MBOX_INTR_CTRL (ucast QDMA_MBOX_INTR_CTRL_EN) }"

definition onic_vf_mbox_irq_init :: "u16 \<Rightarrow> int onic" where
  "onic_vf_mbox_irq_init vector = do {
     upd_vf_hw (vf_mbox_done_update (\<lambda>_. 0));
     invoke (Sync (Mutex_init Mbox_lock));
     seq \<leftarrow> perform (Sync Get_random_u32);
     upd_vf_hw (vf_mbox_seq_update (\<lambda>_. of_int seq));
     irq \<leftarrow> perform (Pci (Pci_irq_vector (unat vector)));
     err \<leftarrow> perform (Pci (Request_irq irq Irq_vf_mbox));
     if err \<noteq> 0 then ret err
     else do {
       upd_vf_hw (\<lambda>hw. hw\<lparr>vf_mbox_vector := vector, vf_mbox_irq_allocated := True\<rparr>);
       onic_vf_write_bar0 QDMA_VF_MBOX_INTR_VEC (ucast vector);
       onic_vf_write_bar0 QDMA_VF_MBOX_INTR_CTRL (ucast QDMA_MBOX_INTR_CTRL_EN);
       ret 0 } }"

definition onic_vf_mbox_irq_clear :: "unit onic" where
  "onic_vf_mbox_irq_clear = do {
     p \<leftarrow> get_priv;
     if \<not> vf_mbox_irq_allocated (pr_vf_hw p) then ret ()
     else do {
       onic_vf_write_bar0 QDMA_VF_MBOX_INTR_CTRL 0;
       irq \<leftarrow> perform (Pci (Pci_irq_vector (unat (vf_mbox_vector (pr_vf_hw p)))));
       invoke (Pci (Free_irq irq Irq_vf_mbox));
       upd_vf_hw (vf_mbox_irq_allocated_update (\<lambda>_. False)) } }"

text \<open>
  \<^verbatim>\<open>wait_for_completion_timeout\<close>: the answer of the call is the number of mailbox interrupts that
  arrive within the time limit; each runs the handler and its thread, until the completion is counted.
  A wait that succeeds takes one count.
\<close>

fun mbox_interrupts :: "nat \<Rightarrow> unit onic" where
  "mbox_interrupts 0 = ret ()"
| "mbox_interrupts (Suc n) = do {
     p \<leftarrow> get_priv;
     if vf_mbox_done (pr_vf_hw p) \<noteq> 0 then ret ()
     else do {
       onic_vf_mbox_irq_handler;
       onic_vf_mbox_irq_thread;
       mbox_interrupts n } }"

definition wait_mbox_done :: "nat \<Rightarrow> bool onic" where
  "wait_mbox_done ms = do {
     n \<leftarrow> perform (Sync (Wait_for_completion ms));
     mbox_interrupts (nat n);
     p \<leftarrow> get_priv;
     if vf_mbox_done (pr_vf_hw p) \<noteq> 0 then do {
       upd_vf_hw (vf_mbox_done_update (\<lambda>d. d - 1));
       ret True }
     else ret False }"

section \<open>Requests\<close>

text \<open>\<open>vf_drop_stale n d\<close>: at most \<open>n\<close> more responses, \<open>d\<close> dropped so far.\<close>

fun vf_drop_stale :: "nat \<Rightarrow> int \<Rightarrow> int onic" where
  "vf_drop_stale 0 dropped = ret (- EIO)"
| "vf_drop_stale (Suc n) dropped = do {
     status \<leftarrow> onic_vf_read_bar0 QDMA_VF_MBOX_STS;
     if \<not> vf_sts_has status QDMA_MBOX_STS_I_MSG_MASK then ret dropped
     else do {
       _ \<leftarrow> onic_vf_mbox_read_msg QDMA_VF_MBOX_IN_MSG;
       onic_vf_write_bar0 QDMA_VF_MBOX_CMD (ucast QDMA_MBOX_CMD_RCV);
       vf_drop_stale n (dropped + 1) } }"

definition onic_vf_mbox_drop_stale_responses :: "int onic" where
  "onic_vf_mbox_drop_stale_responses = vf_drop_stale 16 0"

text \<open>The checks at \<^verbatim>\<open>validate_response\<close>: 0, or the error.\<close>

definition check_cmd_resp :: "u32 \<Rightarrow> u32 \<Rightarrow> u32 \<Rightarrow> u32 \<Rightarrow> onic_mbox_msg \<Rightarrow> int" where
  "check_cmd_resp seq response_opcode qid dir resp =
     (let q = qcmd_resp_of_words (mb_data resp) in
      if mh_opcode (mb_hdr resp) \<noteq> response_opcode \<or> mh_seq (mb_hdr resp) \<noteq> seq \<or>
         mh_len (mb_hdr resp) \<noteq> sizeof_queue_cmd_resp \<or> qp_qid q \<noteq> qid \<or> qp_dir q \<noteq> dir then - EPROTO
      else if mh_status (mb_hdr resp) \<noteq> ONIC_MBOX_STS_OK then - EIO
      else 0)"

definition validate_cmd :: "u32 \<Rightarrow> u32 \<Rightarrow> u32 \<Rightarrow> u32 \<Rightarrow> int \<Rightarrow> int onic" where
  "validate_cmd seq response_opcode qid dir err = do {
     p \<leftarrow> get_priv;
     let e = check_cmd_resp seq response_opcode qid dir (vf_mbox_resp (pr_vf_hw p));
     ret (if e \<noteq> 0 then e else err) }"

text \<open>A request on its way: sequence number, reset of the completion, the message and the send command;
  the result is the sequence number.\<close>

definition send_request :: "onic_mbox_msg \<Rightarrow> u32 onic" where
  "send_request request = do {
     upd_vf_hw (vf_mbox_seq_update (\<lambda>q. q + 1));
     p \<leftarrow> get_priv;
     let seq = vf_mbox_seq (pr_vf_hw p);
     upd_vf_hw (vf_mbox_done_update (\<lambda>_. 0));
     upd_vf_hw (vf_mbox_resp_update (\<lambda>_. zero_msg));
     onic_vf_mbox_write_msg QDMA_VF_MBOX_OUT_MSG (request\<lparr>mb_hdr := (mb_hdr request)\<lparr>mh_seq := seq\<rparr>\<rparr>);
     onic_vf_write_bar0 QDMA_VF_MBOX_CMD (ucast QDMA_MBOX_CMD_SEND);
     ret seq }"

definition onic_vf_mbox_send_queue_cmd :: "onic_mbox_msg \<Rightarrow> u32 \<Rightarrow> u32 \<Rightarrow> u32 \<Rightarrow> int onic" where
  "onic_vf_mbox_send_queue_cmd request response_opcode qid dir = do {
     invoke (Sync (Mutex_lock Mbox_lock));
     err \<leftarrow> onic_vf_mbox_drop_stale_responses;
     err \<leftarrow> (if err < 0 then ret err
       else do {
         status \<leftarrow> onic_vf_read_bar0 QDMA_VF_MBOX_STS;
         if vf_sts_has status QDMA_MBOX_STS_O_MSG_MASK then ret (- EBUSY)
         else do {
           seq \<leftarrow> send_request request;
           completed \<leftarrow> wait_mbox_done 1000;
           if \<not> completed then do {
             status \<leftarrow> onic_vf_read_bar0 QDMA_VF_MBOX_STS;
             if vf_sts_has status QDMA_MBOX_STS_I_MSG_MASK then do {
               err \<leftarrow> onic_vf_mbox_process_one;
               if err > 0 then validate_cmd seq response_opcode qid dir 0
               else if err < 0 then ret err
               else ret (- ETIMEDOUT) }
             else ret (- ETIMEDOUT) }
           else validate_cmd seq response_opcode qid dir err } });
     invoke (Sync (Mutex_unlock Mbox_lock));
     ret err }"

definition config_request :: "onic_mbox_queue_cfg \<Rightarrow> onic_mbox_msg" where
  "config_request cfg = zero_msg\<lparr>mb_hdr := zero_hdr\<lparr>mh_opcode := ONIC_MBOX_OP_CONFIG_QUEUE, mh_len := sizeof_queue_cfg\<rparr>,
     mb_data := put_words (qcfg_words cfg) (replicate 28 0)\<rparr>"

definition onic_vf_mbox_config_queue :: "onic_mbox_queue_cfg option \<Rightarrow> int onic" where
  "onic_vf_mbox_config_queue cfg =
     (case cfg of
        None \<Rightarrow> ret (- EINVAL)
      | Some cfg \<Rightarrow> onic_vf_mbox_send_queue_cmd (config_request cfg) ONIC_MBOX_OP_CONFIG_QUEUE_RESP (qc_qid cfg) (qc_dir cfg))"

definition clear_request :: "u16 \<Rightarrow> u32 \<Rightarrow> onic_mbox_msg" where
  "clear_request qid dir = zero_msg\<lparr>mb_hdr := zero_hdr\<lparr>mh_opcode := ONIC_MBOX_OP_CLEAR_QUEUE, mh_len := sizeof_queue_clear\<rparr>,
     mb_data := put_words (qclear_words \<lparr>ql_qid = ucast qid, ql_dir = dir\<rparr>) (replicate 28 0)\<rparr>"

definition onic_vf_mbox_clear_queue :: "u16 \<Rightarrow> u32 \<Rightarrow> int onic" where
  "onic_vf_mbox_clear_queue qid dir =
     onic_vf_mbox_send_queue_cmd (clear_request qid dir) ONIC_MBOX_OP_CLEAR_QUEUE_RESP (ucast qid) dir"

definition resource_request :: onic_mbox_msg where
  "resource_request = zero_msg\<lparr>mb_hdr := zero_hdr\<lparr>mh_opcode := ONIC_MBOX_OP_GET_QUEUE_RES, mh_len := 0\<rparr>\<rparr>"

definition check_res_resp :: "u32 \<Rightarrow> onic_mbox_msg \<Rightarrow> int" where
  "check_res_resp seq resp =
     (if mh_opcode (mb_hdr resp) \<noteq> ONIC_MBOX_OP_QUEUE_RES_RESP \<or> mh_seq (mb_hdr resp) \<noteq> seq \<or>
         mh_status (mb_hdr resp) \<noteq> ONIC_MBOX_STS_OK \<or> mh_len (mb_hdr resp) \<noteq> sizeof_queue_res then - EPROTO
      else if qr_qmax (qres_of_words (mb_data resp)) = 0 \<or>
              qr_qmax (qres_of_words (mb_data resp)) > of_nat ONIC_MAX_QUEUES then - ERANGE
      else 0)"

definition validate_res :: "u32 \<Rightarrow> int \<Rightarrow> int onic" where
  "validate_res seq err = do {
     p \<leftarrow> get_priv;
     let resp = vf_mbox_resp (pr_vf_hw p);
     let e = check_res_resp seq resp;
     if e \<noteq> 0 then ret e
     else do {
       let r = qres_of_words (mb_data resp);
       upd_vf_hw (\<lambda>hw. hw\<lparr>vf_func_id := ucast (qr_func_id r), vf_qbase := ucast (qr_qbase r),
         vf_qmax := ucast (qr_qmax r), vf_mac := qr_mac r, vf_resource_valid := True\<rparr>);
       ret err } }"

definition onic_vf_mbox_get_queue_resource :: "int onic" where
  "onic_vf_mbox_get_queue_resource = do {
     invoke (Sync (Mutex_lock Mbox_lock));
     err \<leftarrow> onic_vf_mbox_drop_stale_responses;
     err \<leftarrow> (if err < 0 then ret err
       else do {
         status \<leftarrow> onic_vf_read_bar0 QDMA_VF_MBOX_STS;
         if vf_sts_has status QDMA_MBOX_STS_O_MSG_MASK then ret (- EBUSY)
         else do {
           seq \<leftarrow> send_request resource_request;
           completed \<leftarrow> wait_mbox_done 1000;
           if \<not> completed then do {
             status \<leftarrow> onic_vf_read_bar0 QDMA_VF_MBOX_STS;
             _ \<leftarrow> onic_vf_read_bar0 QDMA_VF_MBOX_INTR_VEC;
             _ \<leftarrow> onic_vf_read_bar0 QDMA_VF_MBOX_INTR_CTRL;
             if vf_sts_has status QDMA_MBOX_STS_I_MSG_MASK then do {
               err \<leftarrow> onic_vf_mbox_process_one;
               if err > 0 then validate_res seq 0 else ret (- ETIMEDOUT) }
             else ret (- ETIMEDOUT) }
           else validate_res seq err } });
     invoke (Sync (Mutex_unlock Mbox_lock));
     ret err }"

section \<open>What the operations do to the mailbox\<close>

definition vf_map :: "ptr \<Rightarrow> mbox_map" where
  "vf_map b = \<lparr>mm_base = b, mm_cmd = QDMA_VF_MBOX_CMD, mm_target = None, mm_out = QDMA_VF_MBOX_OUT_MSG\<rparr>"

lemma vf_map_sel [simp]:
  "mm_base (vf_map b) = b" "mm_cmd (vf_map b) = QDMA_VF_MBOX_CMD"
  "mm_target (vf_map b) = None" "mm_out (vf_map b) = QDMA_VF_MBOX_OUT_MSG"
  by (simp_all add: vf_map_def)

lemma vf_map_ok: "mbox_map_ok (vf_map b)"
  by (simp add: mbox_map_ok_def in_out_window_def word_less_nat_alt)

text \<open>BAR 0 is mapped at \<open>b\<close> and covers the mailbox.\<close>

definition covers :: "ptr \<Rightarrow> onic_private \<Rightarrow> bool" where
  "covers b p \<longleftrightarrow> b \<noteq> 0 \<and> vf_bar0 (pr_vf_hw p) = b \<and> 0x6000 \<le> unat (vf_bar0_len (pr_vf_hw p))"

lemma covers_ok: "covers b (priv s) \<Longrightarrow> unat off + 4 \<le> 0x6000 \<Longrightarrow> bar0_ok s off"
  using range_ok_iff [of "vf_bar0_len (pr_vf_hw (priv s))" off] by (simp add: covers_def bar0_ok_def)

lemma covers_upd:
  "(\<And>hw. vf_bar0 (f hw) = vf_bar0 hw \<and> vf_bar0_len (f hw) = vf_bar0_len hw) \<Longrightarrow>
     covers b (pr_vf_hw_update f p) = covers b p"
  by (simp add: covers_def)

text \<open>Everything of the private data but the mailbox fields.\<close>

definition but_mbox :: "onic_private \<Rightarrow> onic_private" where
  "but_mbox p = pr_vf_hw_update (\<lambda>hw. hw\<lparr>vf_mbox_seq := 0, vf_mbox_done := 0, vf_mbox_resp := zero_msg\<rparr>) p"

lemma but_mbox_upd [simp]:
  "(\<And>hw. (f hw)\<lparr>vf_mbox_seq := 0, vf_mbox_done := 0, vf_mbox_resp := zero_msg\<rparr> =
      hw\<lparr>vf_mbox_seq := 0, vf_mbox_done := 0, vf_mbox_resp := zero_msg\<rparr>) \<Longrightarrow>
     but_mbox (pr_vf_hw_update f p) = but_mbox p"
  by (simp add: but_mbox_def comp_def)

abbreviation mseq :: "onic_private \<Rightarrow> u32" where "mseq p \<equiv> vf_mbox_seq (pr_vf_hw p)"
abbreviation mdone :: "onic_private \<Rightarrow> nat" where "mdone p \<equiv> vf_mbox_done (pr_vf_hw p)"
abbreviation mresp :: "onic_private \<Rightarrow> onic_mbox_msg" where "mresp p \<equiv> vf_mbox_resp (pr_vf_hw p)"

text \<open>
  \<open>mrel b R m\<close>: with the mailbox at \<open>b\<close> reachable, \<open>m\<close> keeps it so and relates its result, the private
  data and the mailbox registers before and after by \<open>R\<close>.
\<close>

definition mrel ::
  "ptr \<Rightarrow> ('a \<Rightarrow> onic_private \<times> mbox_state \<Rightarrow> onic_private \<times> mbox_state \<Rightarrow> bool) \<Rightarrow> 'a onic \<Rightarrow> bool" where
  "mrel b R m \<longleftrightarrow> onic_rel (mbox_view (vf_map b)) (\<lambda>a x y. covers b (fst x) \<longrightarrow> covers b (fst y) \<and> R a x y) m"

named_theorems mrel_intro "composition of mailbox operations"

lemma mrel_conseq: "mrel b R m \<Longrightarrow> (\<And>a x y. R a x y \<Longrightarrow> S a x y) \<Longrightarrow> mrel b S m"
  unfolding mrel_def by (erule onic_rel_conseq) blast

lemma mrel_bind [mrel_intro]:
  "mrel b R m \<Longrightarrow> (\<And>a. mrel b (S a) (f a)) \<Longrightarrow>
     mrel b (\<lambda>c x z. \<exists>a y. R a x y \<and> S a c y z) (State_Monad.bind m f)"
  unfolding mrel_def by (rule onic_rel_conseq, erule onic_rel_bind, assumption) blast

lemma mrel_ret [mrel_intro]: "mrel b (\<lambda>a x y. a = c \<and> y = x) (ret c)"
  unfolding mrel_def by (rule onic_rel_conseq, rule onic_rel_ret) simp

lemma mrel_get_priv [mrel_intro]: "mrel b (\<lambda>a x y. a = fst x \<and> y = x) get_priv"
  unfolding mrel_def by (rule onic_rel_conseq, rule onic_rel_get_priv) simp

lemma mrel_if [mrel_intro]:
  "(c \<Longrightarrow> mrel b R m) \<Longrightarrow> (\<not> c \<Longrightarrow> mrel b S n) \<Longrightarrow>
     mrel b (\<lambda>a x y. if c then R a x y else S a x y) (if c then m else n)"
  by simp

lemma mrel_let [mrel_intro]: "(\<And>z. mrel b (R z) (f z)) \<Longrightarrow> mrel b (R c) (let z = c in f z)"
  by simp

lemma mrel_upd:
  "(\<And>hw. vf_bar0 (f hw) = vf_bar0 hw \<and> vf_bar0_len (f hw) = vf_bar0_len hw) \<Longrightarrow>
     mrel b (\<lambda>a x y. y = (pr_vf_hw_update f (fst x), snd x)) (upd_vf_hw f)"
  unfolding mrel_def by (rule onic_rel_conseq, rule onic_rel_upd) (auto simp: covers_upd)

lemma mrel_mbox_upd [mrel_intro]:
  "mrel b (\<lambda>a x y. y = (pr_vf_hw_update (vf_mbox_seq_update f) (fst x), snd x)) (upd_vf_hw (vf_mbox_seq_update f))"
  "mrel b (\<lambda>a x y. y = (pr_vf_hw_update (vf_mbox_done_update g) (fst x), snd x)) (upd_vf_hw (vf_mbox_done_update g))"
  "mrel b (\<lambda>a x y. y = (pr_vf_hw_update (vf_mbox_resp_update h) (fst x), snd x)) (upd_vf_hw (vf_mbox_resp_update h))"
  by (rule mrel_upd, simp)+

lemma mrel_quiet: "(\<And>r. mbox_quiet (vf_map b) (c, r)) \<Longrightarrow> mrel b (\<lambda>a x y. y = x) (perform c)"
  unfolding mrel_def
  by (rule onic_rel_conseq, rule mboxv.rel_perform) (auto simp: mboxv.step_quiet)

lemma mrel_invoke_quiet: "(\<And>r. mbox_quiet (vf_map b) (c, r)) \<Longrightarrow> mrel b (\<lambda>a x y. y = x) (invoke c)"
  unfolding mrel_def
  by (rule onic_rel_conseq, rule mboxv.rel_invoke) (auto simp: mboxv.step_quiet)

lemma mrel_kernel [mrel_intro]:
  "mrel b (\<lambda>a x y. y = x) (perform (Sync c))" "mrel b (\<lambda>a x y. y = x) (invoke (Sync c))"
  "mrel b (\<lambda>a x y. y = x) (perform (Pci d))" "mrel b (\<lambda>a x y. y = x) (invoke (Pci d))"
  by (rule mrel_quiet mrel_invoke_quiet, simp)+

lemma mrel_read [mrel_intro]: "mrel b (\<lambda>a x y. y = x) (onic_vf_read_bar0 off)"
  unfolding mrel_def
  by (rule onic_rel_conseq, rule mboxv.rel_quiet) (auto intro: io_intro triple_intro)

lemma mrel_write:
  assumes "unat off + 4 \<le> 0x6000"
  shows "mrel b (\<lambda>a x y. y = (fst x, mbox_write (vf_map b) off v (snd x))) (onic_vf_write_bar0 off v)"
  unfolding mrel_def
proof (rule onic_relI, intro exI conjI impI)
  fix s a s'
  assume run: "run_state (onic_vf_write_bar0 off v) s = (a, s')"
  let ?c = "Io (Iowrite32 v (vf_bar0 (pr_vf_hw (priv s))) off)"
  let ?e = "if bar0_ok s off then [(?c, ext s (trace s) ?c)] else []"
  show "s' = after s ?e (priv s)" using run by (auto simp: run_write_bar0)
  assume c: "covers b (fst (priv s, mbox_view (vf_map b) (trace s)))"
  then show "covers b (fst (priv s, mbox_view (vf_map b) (trace s @ ?e)))" by simp
  from c have "bar0_ok s off" "vf_bar0 (pr_vf_hw (priv s)) = b"
    using covers_ok [OF _ assms] by (simp_all add: covers_def)
  then show "(priv s, mbox_view (vf_map b) (trace s @ ?e)) =
      (fst (priv s, mbox_view (vf_map b) (trace s)),
       mbox_write (vf_map b) off v (snd (priv s, mbox_view (vf_map b) (trace s))))"
    by (simp add: mboxv.view_append)
qed

lemma vf_writes [mrel_intro]:
  "mrel b (\<lambda>a x y. y = (fst x, (snd x)\<lparr>mx_received := Suc (mx_received (snd x))\<rparr>))
     (onic_vf_write_bar0 QDMA_VF_MBOX_CMD (ucast QDMA_MBOX_CMD_RCV))"
  "mrel b (\<lambda>a x y. y = (fst x, (snd x)\<lparr>mx_sent := mx_sent (snd x) @ [(mx_target (snd x), mx_out (snd x))]\<rparr>))
     (onic_vf_write_bar0 QDMA_VF_MBOX_CMD (ucast QDMA_MBOX_CMD_SEND))"
  "mrel b (\<lambda>a x y. y = x) (onic_vf_write_bar0 QDMA_VF_MBOX_INTR_CTRL v)"
  "mrel b (\<lambda>a x y. y = x) (onic_vf_write_bar0 QDMA_VF_MBOX_INTR_VEC v)"
proof -
  have c: "ucast QDMA_MBOX_CMD_RCV = (2 :: u32)" "ucast QDMA_MBOX_CMD_SEND = (1 :: u32)"
    by (simp_all add: GENMASK_def)
  show "mrel b (\<lambda>a x y. y = (fst x, (snd x)\<lparr>mx_received := Suc (mx_received (snd x))\<rparr>))
     (onic_vf_write_bar0 QDMA_VF_MBOX_CMD (ucast QDMA_MBOX_CMD_RCV))"
    unfolding c by (rule mrel_conseq, rule mrel_write) (simp_all add: mbox_write_def bit_numeral_rec)
  show "mrel b (\<lambda>a x y. y = (fst x, (snd x)\<lparr>mx_sent := mx_sent (snd x) @ [(mx_target (snd x), mx_out (snd x))]\<rparr>))
     (onic_vf_write_bar0 QDMA_VF_MBOX_CMD (ucast QDMA_MBOX_CMD_SEND))"
    unfolding c by (rule mrel_conseq, rule mrel_write) (simp_all add: mbox_write_def bit_1_iff Let_def)
  show "mrel b (\<lambda>a x y. y = x) (onic_vf_write_bar0 QDMA_VF_MBOX_INTR_CTRL v)"
    "mrel b (\<lambda>a x y. y = x) (onic_vf_write_bar0 QDMA_VF_MBOX_INTR_VEC v)"
    by (rule mrel_conseq, rule mrel_write; simp add: mbox_write_def in_out_window_def word_less_nat_alt)+
qed

lemma mbox_offset:
  "i < 32 \<Longrightarrow> unat (QDMA_VF_MBOX_OUT_MSG + of_nat i * 4) = 0x5C00 + i * 4"
  "i < 32 \<Longrightarrow> unat (QDMA_VF_MBOX_IN_MSG + of_nat i * 4) = 0x5800 + i * 4"
  by (simp_all add: unat_word_ariths unat_of_nat take_bit_eq_mod)

lemma mrel_read_msg [mrel_intro]: "mrel b (\<lambda>a x y. y = x) (onic_vf_mbox_read_msg off)"
  unfolding mrel_def onic_vf_mbox_read_msg_def read_words_def
  by (rule onic_rel_conseq, rule mboxv.rel_quiet) (auto intro!: io_intro triple_intro)

lemma mrel_write_msg [mrel_intro]:
  "mrel b (\<lambda>a x y. length (mb_data msg) = 28 \<and> length (mx_out (snd x)) = 32 \<longrightarrow>
      y = (fst x, (snd x)\<lparr>mx_out := msg_words msg\<rparr>)) (onic_vf_mbox_write_msg QDMA_VF_MBOX_OUT_MSG msg)"
  unfolding mrel_def
proof (rule onic_relI)
  fix s a s'
  assume run: "run_state (onic_vf_mbox_write_msg QDMA_VF_MBOX_OUT_MSG msg) s = (a, s')"
  let ?V = "mbox_view (vf_map b)"
  have "io_only (onic_vf_mbox_write_msg QDMA_VF_MBOX_OUT_MSG msg)"
    unfolding onic_vf_mbox_write_msg_def write_words_def by (intro io_intro)
  from io_onlyD [OF this run] obtain evs where evs: "s' = s\<lparr>trace := trace s @ evs\<rparr>" .
  have "?V (trace s @ evs) = (?V (trace s))\<lparr>mx_out := msg_words msg\<rparr>"
    if c: "covers b (priv s)" "length (mb_data msg) = 28" "length (mx_out (?V (trace s))) = 32"
  proof -
    have "list_all (bar0_ok s) (msg_offsets QDMA_VF_MBOX_OUT_MSG)"
      unfolding msg_offsets_def list_all_iff
      by (auto intro!: covers_ok [OF c(1)] simp: mbox_offset)
    then obtain out where out: "run_state (onic_vf_mbox_write_msg QDMA_VF_MBOX_OUT_MSG msg) s = ((), s\<lparr>trace := trace s @ out\<rparr>)"
      "map fst out = msg_writes (vf_base s) QDMA_VF_MBOX_OUT_MSG (msg_words msg)"
      unfolding onic_vf_mbox_write_msg_def by (rule vf_regs.write_words_run)
    have "evs = out" using arg_cong [OF evs, of trace] out(1) run by simp
    moreover have "fold (mbox_step (vf_map b)) out (?V (trace s)) = (?V (trace s))\<lparr>mx_out := msg_words msg\<rparr>"
      using load_msg [OF vf_map_ok c(3), of "msg_words msg" out b] c(1,2) out(2) by (simp add: covers_def)
    ultimately show ?thesis by (simp add: mboxv.view_append)
  qed
  then show "\<exists>evs p'. s' = after s evs p' \<and> (covers b (fst (priv s, ?V (trace s))) \<longrightarrow>
      covers b (fst (p', ?V (trace s @ evs))) \<and>
      (length (mb_data msg) = 28 \<and> length (mx_out (snd (priv s, ?V (trace s)))) = 32 \<longrightarrow>
       (p', ?V (trace s @ evs)) = (fst (priv s, ?V (trace s)),
          snd (priv s, ?V (trace s))\<lparr>mx_out := msg_words msg\<rparr>)))"
    using evs by (intro exI [of _ evs] exI [of _ "priv s"]) simp
qed

text \<open>Taking a response: the fields of the mailbox change, everything else stays.\<close>

definition mbox_only :: "onic_private \<times> mbox_state \<Rightarrow> onic_private \<times> mbox_state \<Rightarrow> bool" where
  "mbox_only x y \<longleftrightarrow> but_mbox (fst y) = but_mbox (fst x) \<and> mseq (fst y) = mseq (fst x) \<and>
     mx_sent (snd y) = mx_sent (snd x) \<and> mx_target (snd y) = mx_target (snd x) \<and> mx_out (snd y) = mx_out (snd x) \<and>
     mx_received (snd x) \<le> mx_received (snd y)"

lemma mbox_only_trans: "mbox_only x y \<Longrightarrow> mbox_only y z \<Longrightarrow> mbox_only x z"
  by (auto simp: mbox_only_def)

lemma mbox_only_refl [simp]: "mbox_only x x"
  by (simp add: mbox_only_def)

lemma mrel_process_one [mrel_intro]:
  "mrel b (\<lambda>a x y. a = 0 \<and> y = x \<or>
     a = 1 \<and> mbox_only x y \<and> mdone (fst y) = Suc (mdone (fst x)) \<and> mx_received (snd y) = Suc (mx_received (snd x)))
   onic_vf_mbox_process_one"
  unfolding onic_vf_mbox_process_one_def
  apply (rule mrel_conseq)
   apply ((rule mrel_intro)+)[1]
  apply (auto simp: mbox_only_def split: if_splits)
  done

lemma mrel_irq [mrel_intro]:
  "mrel b (\<lambda>a x y. y = x) onic_vf_mbox_irq_handler"
  "mrel b (\<lambda>a x y. mbox_only x y) onic_vf_mbox_irq_thread"
  unfolding onic_vf_mbox_irq_handler_def onic_vf_mbox_irq_thread_def
   apply (rule mrel_intro)
  apply (rule mrel_conseq)
   apply ((rule mrel_intro)+)[1]
  apply auto
  done

lemma mrel_interrupts [mrel_intro]: "mrel b (\<lambda>a x y. mbox_only x y) (mbox_interrupts n)"
proof (induction n)
  case 0
  then show ?case by (simp, rule mrel_conseq [OF mrel_ret]) simp
next
  case (Suc n)
  show ?case
    unfolding mbox_interrupts.simps
    apply (rule mrel_conseq)
     apply ((rule mrel_intro Suc)+)[1]
    apply (auto intro: mbox_only_trans split: if_splits)
    done
qed

lemma mrel_wait [mrel_intro]: "mrel b (\<lambda>a x y. mbox_only x y) (wait_mbox_done ms)"
  unfolding wait_mbox_done_def
  apply (rule mrel_conseq)
   apply ((rule mrel_intro)+)[1]
  apply (auto simp: mbox_only_def split: if_splits)
  done

text \<open>Dropping stale responses counts them.\<close>

lemma mrel_drop_stale:
  "mrel b (\<lambda>a x y. mbox_only x y \<and> (a < 0 \<or> d \<le> a \<and> a < d + int n \<and>
      mx_received (snd y) = mx_received (snd x) + nat (a - d))) (vf_drop_stale n d)"
proof (induction n arbitrary: d)
  case 0
  then show ?case by (simp, rule mrel_conseq [OF mrel_ret]) simp
next
  case (Suc n)
  show ?case
    unfolding vf_drop_stale.simps
    apply (rule mrel_conseq)
     apply ((rule mrel_intro Suc)+)[1]
    apply (auto simp: mbox_only_def split: if_splits)
    done
qed

definition request_sent :: "onic_mbox_msg \<Rightarrow> onic_private \<times> mbox_state \<Rightarrow> onic_private \<times> mbox_state \<Rightarrow> bool" where
  "request_sent request x y \<longleftrightarrow>
     but_mbox (fst y) = but_mbox (fst x) \<and> mseq (fst y) = mseq (fst x) + 1 \<and>
     mx_received (snd x) \<le> mx_received (snd y) \<and> length (mx_out (snd y)) = 32 \<and>
     mx_sent (snd y) = mx_sent (snd x) @
       [(mx_target (snd x), msg_words (request\<lparr>mb_hdr := (mb_hdr request)\<lparr>mh_seq := mseq (fst y)\<rparr>\<rparr>))]"

lemma request_sent_only:
  "mbox_only x y \<Longrightarrow> request_sent request y z \<Longrightarrow> request_sent request x z"
  "request_sent request x y \<Longrightarrow> mbox_only y z \<Longrightarrow> request_sent request x z"
  by (auto simp: request_sent_def mbox_only_def)

lemma mrel_send_request:
  assumes "length (mb_data request) = 28"
  shows "mrel b (\<lambda>a x y. length (mx_out (snd x)) = 32 \<longrightarrow>
    a = mseq (fst y) \<and> request_sent request x y \<and> mx_received (snd y) = mx_received (snd x)) (send_request request)"
  unfolding send_request_def
  apply (rule mrel_conseq)
   apply ((rule mrel_intro)+)[1]
  apply (use assms in \<open>auto simp: request_sent_def\<close>)
  done

lemma mrel_validate_cmd [mrel_intro]:
  "mrel b (\<lambda>a x y. y = x \<and> a = (let e = check_cmd_resp seq op qid dir (mresp (fst x)) in if e \<noteq> 0 then e else err))
     (validate_cmd seq op qid dir err)"
  unfolding validate_cmd_def
  by (rule mrel_conseq, (rule mrel_intro)+) auto

lemma check_cmd_neg: "check_cmd_resp seq op qid dir resp \<noteq> 0 \<Longrightarrow> check_cmd_resp seq op qid dir resp < 0"
  by (simp add: check_cmd_resp_def Let_def split: if_splits)

text \<open>The outcome of a request: an answer that passed the checks, or an error after at most one message.\<close>

definition exchanged ::
  "onic_mbox_msg \<Rightarrow> (onic_private \<Rightarrow> bool) \<Rightarrow> int \<Rightarrow> onic_private \<times> mbox_state \<Rightarrow> onic_private \<times> mbox_state \<Rightarrow> bool" where
  "exchanged request ok r x y \<longleftrightarrow>
     0 \<le> r \<and> r < 16 \<and> request_sent request x y \<and> ok (fst y) \<and> mx_received (snd x) + nat r \<le> mx_received (snd y) \<or>
     r < 0 \<and> (mbox_only x y \<or> request_sent request x y)"

definition cmd_tail :: "u32 \<Rightarrow> u32 \<Rightarrow> u32 \<Rightarrow> u32 \<Rightarrow> int \<Rightarrow> int onic" where
  "cmd_tail op qid dir seq d = do {
     completed \<leftarrow> wait_mbox_done 1000;
     if \<not> completed then do {
       status \<leftarrow> onic_vf_read_bar0 QDMA_VF_MBOX_STS;
       if vf_sts_has status QDMA_MBOX_STS_I_MSG_MASK then do {
         err \<leftarrow> onic_vf_mbox_process_one;
         if err > 0 then validate_cmd seq op qid dir 0
         else if err < 0 then ret err
         else ret (- ETIMEDOUT) }
       else ret (- ETIMEDOUT) }
     else validate_cmd seq op qid dir d }"

definition cmd_outcome ::
  "(onic_mbox_msg \<Rightarrow> int) \<Rightarrow> int \<Rightarrow> int \<Rightarrow> onic_private \<times> mbox_state \<Rightarrow> onic_private \<times> mbox_state \<Rightarrow> bool" where
  "cmd_outcome check d r x y \<longleftrightarrow> mbox_only x y \<and> (r = 0 \<or> r = d \<or> r < 0) \<and> (0 \<le> r \<longrightarrow> check (mresp (fst y)) = 0)"

lemma cmd_outcome_simps:
  "e < 0 \<Longrightarrow> cmd_outcome check d e x x"
  "(check (mresp (fst x)) \<noteq> 0 \<Longrightarrow> check (mresp (fst x)) < 0) \<Longrightarrow> err = 0 \<or> err = d \<Longrightarrow>
     cmd_outcome check d (let e = check (mresp (fst x)) in if e \<noteq> 0 then e else err) x x"
  by (auto simp: cmd_outcome_def Let_def)

lemma cmd_outcome_step: "mbox_only x z \<Longrightarrow> cmd_outcome check d r z y \<Longrightarrow> cmd_outcome check d r x y"
  unfolding cmd_outcome_def by (blast intro: mbox_only_trans)

lemma mrel_cmd_fallback:
  "mrel b (cmd_outcome (check_cmd_resp seq op qid dir) d) (do {
     err \<leftarrow> onic_vf_mbox_process_one;
     if err > 0 then validate_cmd seq op qid dir 0
     else if err < 0 then ret err
     else ret (- ETIMEDOUT) })"
  apply (rule mrel_conseq)
   apply ((rule mrel_intro)+)[1]
  apply (elim exE conjE disjE)
   apply (simp add: cmd_outcome_simps)
  apply (rule cmd_outcome_step, assumption)
  apply (simp add: cmd_outcome_simps(2) check_cmd_neg)
  done

lemma mrel_cmd_tail:
  "mrel b (cmd_outcome (check_cmd_resp seq op qid dir) d) (cmd_tail op qid dir seq d)"
  unfolding cmd_tail_def
  apply (rule mrel_conseq)
   apply ((rule mrel_cmd_fallback [where d = d] mrel_intro)+)[1]
  apply (elim exE conjE)
  apply (rule cmd_outcome_step, assumption)
  apply (auto simp: cmd_outcome_simps(1) cmd_outcome_simps(2) check_cmd_neg split: if_splits)
  done

text \<open>What both exchanges share: the mutex, the stale responses, the busy check, the message.\<close>

definition exchange :: "onic_mbox_msg \<Rightarrow> (u32 \<Rightarrow> int \<Rightarrow> int onic) \<Rightarrow> int onic" where
  "exchange request tail = do {
     invoke (Sync (Mutex_lock Mbox_lock));
     err \<leftarrow> onic_vf_mbox_drop_stale_responses;
     err \<leftarrow> (if err < 0 then ret err
       else do {
         status \<leftarrow> onic_vf_read_bar0 QDMA_VF_MBOX_STS;
         if vf_sts_has status QDMA_MBOX_STS_O_MSG_MASK then ret (- EBUSY)
         else do { seq \<leftarrow> send_request request; tail seq err } });
     invoke (Sync (Mutex_unlock Mbox_lock));
     ret err }"

lemma send_queue_cmd_exchange:
  "onic_vf_mbox_send_queue_cmd request op qid dir = exchange request (cmd_tail op qid dir)"
  unfolding onic_vf_mbox_send_queue_cmd_def exchange_def cmd_tail_def ..

lemma mrel_exchange:
  assumes len: "length (mb_data request) = 28"
    and tail: "\<And>seq d. mrel b (T seq d) (tail seq d)"
  shows "mrel b (\<lambda>r x y. length (mx_out (snd x)) = 32 \<longrightarrow>
    (\<exists>d x1. mbox_only x x1 \<and> (d < 0 \<and> r = d \<and> y = x1 \<or>
       0 \<le> d \<and> d < 16 \<and> mx_received (snd x1) = mx_received (snd x) + nat d \<and>
         (r = - EBUSY \<and> y = x1 \<or> (\<exists>x2. request_sent request x1 x2 \<and>
            mx_received (snd x2) = mx_received (snd x1) \<and> T (mseq (fst x2)) d r x2 y)))))
   (exchange request tail)"
proof -
  note drop = mrel_drop_stale [where d = 0 and n = 16, folded onic_vf_mbox_drop_stale_responses_def]
  show ?thesis
    unfolding exchange_def
    apply (rule mrel_conseq)
     apply ((rule mrel_intro mrel_send_request [OF len] drop tail)+)[1]
    apply (elim exE conjE, rule impI)
    subgoal for r x y u y0 d x1 r' y2 u' y3
      apply (rule exI [of _ d], rule exI [of _ x1])
      apply (auto simp: mbox_only_def split: if_splits)
      done
    done
qed

lemma exchangedI:
  assumes "mbox_only x x1" "d < 0 \<and> r = d \<and> y = x1 \<or>
       0 \<le> d \<and> d < 16 \<and> mx_received (snd x1) = mx_received (snd x) + nat d \<and>
         (r = - EBUSY \<and> y = x1 \<or> (\<exists>x2. request_sent request x1 x2 \<and>
            mx_received (snd x2) = mx_received (snd x1) \<and>
            cmd_outcome (check_cmd_resp (mseq (fst x2)) op qid dir) d r x2 y))"
  shows "exchanged request (\<lambda>p. check_cmd_resp (mseq p) op qid dir (mresp p) = 0) r x y"
  using assms(2)
proof (elim disjE conjE exE)
  fix x2
  assume b: "0 \<le> d" "d < 16" "mx_received (snd x1) = mx_received (snd x) + nat d" "request_sent request x1 x2"
    "mx_received (snd x2) = mx_received (snd x1)" and "cmd_outcome (check_cmd_resp (mseq (fst x2)) op qid dir) d r x2 y"
  then have c: "mbox_only x2 y" "r = 0 \<or> r = d \<or> r < 0"
    "0 \<le> r \<Longrightarrow> check_cmd_resp (mseq (fst x2)) op qid dir (mresp (fst y)) = 0"
    by (simp_all add: cmd_outcome_def)
  have q: "request_sent request x y" "mseq (fst y) = mseq (fst x2)" "mx_received (snd x2) \<le> mx_received (snd y)"
    using request_sent_only(1) [OF assms(1) b(4)] request_sent_only(2) [OF _ c(1)] c(1)
    by (blast, simp_all add: mbox_only_def)
  from c(2) show ?thesis
    using b q c(3) by (elim disjE) (simp_all add: exchanged_def)
qed (use assms(1) in \<open>auto simp: exchanged_def\<close>)

lemma mrel_send_queue_cmd:
  assumes "length (mb_data request) = 28"
  shows "mrel b (\<lambda>r x y. length (mx_out (snd x)) = 32 \<longrightarrow>
    exchanged request (\<lambda>p. check_cmd_resp (mseq p) op qid dir (mresp p) = 0) r x y)
   (onic_vf_mbox_send_queue_cmd request op qid dir)"
  unfolding send_queue_cmd_exchange
  apply (rule mrel_conseq)
   apply (rule mrel_exchange [OF assms])
   apply (rule mrel_cmd_tail)
  apply (blast intro: exchangedI)
  done

text \<open>The exchange of \<^verbatim>\<open>onic_vf_mbox_get_queue_resource\<close>.\<close>

definition res_tail :: "u32 \<Rightarrow> int \<Rightarrow> int onic" where
  "res_tail seq d = do {
     completed \<leftarrow> wait_mbox_done 1000;
     if \<not> completed then do {
       status \<leftarrow> onic_vf_read_bar0 QDMA_VF_MBOX_STS;
       _ \<leftarrow> onic_vf_read_bar0 QDMA_VF_MBOX_INTR_VEC;
       _ \<leftarrow> onic_vf_read_bar0 QDMA_VF_MBOX_INTR_CTRL;
       if vf_sts_has status QDMA_MBOX_STS_I_MSG_MASK then do {
         err \<leftarrow> onic_vf_mbox_process_one;
         if err > 0 then validate_res seq 0 else ret (- ETIMEDOUT) }
       else ret (- ETIMEDOUT) }
     else validate_res seq d }"

lemma get_queue_resource_exchange: "onic_vf_mbox_get_queue_resource = exchange resource_request res_tail"
  unfolding onic_vf_mbox_get_queue_resource_def exchange_def res_tail_def ..

definition with_resource :: "onic_mbox_queue_res \<Rightarrow> onic_private \<Rightarrow> onic_private" where
  "with_resource r = pr_vf_hw_update (\<lambda>hw. hw\<lparr>vf_func_id := ucast (qr_func_id r), vf_qbase := ucast (qr_qbase r),
         vf_qmax := ucast (qr_qmax r), vf_mac := qr_mac r, vf_resource_valid := True\<rparr>)"

lemma check_res_neg: "check_res_resp seq resp \<noteq> 0 \<Longrightarrow> check_res_resp seq resp < 0"
  by (simp add: check_res_resp_def split: if_splits)

text \<open>What the validation of a resource response does.\<close>

definition res_validated :: "u32 \<Rightarrow> int \<Rightarrow> int \<Rightarrow> onic_private \<times> mbox_state \<Rightarrow> onic_private \<times> mbox_state \<Rightarrow> bool" where
  "res_validated seq err a x y \<longleftrightarrow>
     (let resp = mresp (fst x); e = check_res_resp seq resp in
      if e \<noteq> 0 then a = e \<and> y = x
      else a = err \<and> y = (with_resource (qres_of_words (mb_data resp)) (fst x), snd x))"

definition res_outcome :: "u32 \<Rightarrow> int \<Rightarrow> int \<Rightarrow> onic_private \<times> mbox_state \<Rightarrow> onic_private \<times> mbox_state \<Rightarrow> bool" where
  "res_outcome seq d r x y \<longleftrightarrow> r < 0 \<and> mbox_only x y \<or>
      (r = 0 \<or> r = d) \<and> (\<exists>p. mbox_only x (p, snd y) \<and> check_res_resp seq (mresp p) = 0 \<and>
         fst y = with_resource (qres_of_words (mb_data (mresp p))) p)"

lemma res_outcome_validated:
  assumes "mbox_only x z" "res_validated seq err r z y" "err = 0 \<or> err = d"
  shows "res_outcome seq d r x y"
proof (cases "check_res_resp seq (mresp (fst z)) = 0")
  case True
  have y: "r = err" "y = (with_resource (qres_of_words (mb_data (mresp (fst z)))) (fst z), snd z)"
    using assms(2) True by (simp_all add: res_validated_def Let_def)
  have m: "mbox_only x (fst z, snd y)" "r = 0 \<or> r = d" using assms(1,3) y by auto
  show ?thesis
    unfolding res_outcome_def
    by (rule disjI2, rule conjI, rule m(2), rule exI [of _ "fst z"]) (use m(1) True y in simp)
next
  case False
  then show ?thesis
    using assms check_res_neg [OF False] by (simp add: res_outcome_def res_validated_def Let_def)
qed

lemma res_outcome_step: "mbox_only x z \<Longrightarrow> res_outcome seq d r z y \<Longrightarrow> res_outcome seq d r x y"
  unfolding res_outcome_def by (blast intro: mbox_only_trans)

lemma mrel_validate_res [mrel_intro]: "mrel b (res_validated seq err) (validate_res seq err)"
  unfolding validate_res_def Let_def with_resource_def res_validated_def
  by (rule mrel_conseq, (rule mrel_intro mrel_upd)+, simp, rule mrel_ret) auto

lemma mrel_res_fallback:
  "mrel b (res_outcome seq d) (do {
     err \<leftarrow> onic_vf_mbox_process_one;
     if err > 0 then validate_res seq 0 else ret (- ETIMEDOUT) })"
  apply (rule mrel_conseq)
   apply ((rule mrel_intro)+)[1]
  apply (elim exE conjE disjE)
   apply (simp add: res_outcome_def)
  apply (simp add: res_outcome_validated)
  done

lemma res_outcome_timeout: "res_outcome seq d (- ETIMEDOUT) x x"
  by (simp add: res_outcome_def)

lemma mrel_res_tail: "mrel b (res_outcome seq d) (res_tail seq d)"
  unfolding res_tail_def
  apply (rule mrel_conseq)
   apply ((rule mrel_res_fallback [where d = d] mrel_intro)+)[1]
  apply (elim exE conjE)
  apply (rule res_outcome_step, assumption)
  apply (simp split: if_splits)
   apply (auto simp: res_outcome_timeout split: if_splits)[1]
  apply (erule res_outcome_validated [rotated], simp, simp)
  done

section \<open>Running an exchange\<close>

lemma mrelD:
  assumes "mrel b R m" "run_state m s = (a, s')" "covers b (priv s)"
  shows "covers b (priv s') \<and> R a (priv s, mbox_view (vf_map b) (trace s)) (priv s', mbox_view (vf_map b) (trace s'))"
proof -
  obtain evs p' where "s' = after s evs p'"
    "covers b (priv s) \<longrightarrow> covers b p' \<and> R a (priv s, mbox_view (vf_map b) (trace s)) (p', mbox_view (vf_map b) (trace s @ evs))"
    by (rule onic_relD [OF assms(1) [unfolded mrel_def] assms(2)]) simp
  with assms(3) show ?thesis by simp
qed

lemma get_queue_resource_run:
  assumes "run_state onic_vf_mbox_get_queue_resource s = (r, s')" "covers b (priv s)"
  shows "r < 0 \<and> but_mbox (priv s') = but_mbox (priv s) \<or>
    0 \<le> r \<and> (\<exists>p. but_mbox p = but_mbox (priv s) \<and> mseq p = mseq (priv s) + 1 \<and> check_res_resp (mseq p) (mresp p) = 0 \<and>
       priv s' = with_resource (qres_of_words (mb_data (mresp p))) p)"
proof -
  let ?x = "(priv s, mbox_view (vf_map b) (trace s))" and ?y = "(priv s', mbox_view (vf_map b) (trace s'))"
  have len: "length (mb_data resource_request) = 28" by (simp add: resource_request_def zero_msg_def)
  have "mrel b (\<lambda>r x y. length (mx_out (snd x)) = 32 \<longrightarrow>
    (\<exists>d x1. mbox_only x x1 \<and> (d < 0 \<and> r = d \<and> y = x1 \<or>
       0 \<le> d \<and> d < 16 \<and> mx_received (snd x1) = mx_received (snd x) + nat d \<and>
         (r = - EBUSY \<and> y = x1 \<or> (\<exists>x2. request_sent resource_request x1 x2 \<and>
            mx_received (snd x2) = mx_received (snd x1) \<and> res_outcome (mseq (fst x2)) d r x2 y)))))
    onic_vf_mbox_get_queue_resource"
    unfolding get_queue_resource_exchange by (rule mrel_exchange [OF len mrel_res_tail])
  from mrelD [OF this assms] obtain d x1 where x1: "mbox_only ?x x1" and d: "d < 0 \<and> r = d \<and> ?y = x1 \<or>
       0 \<le> d \<and> d < 16 \<and> mx_received (snd x1) = mx_received (snd ?x) + nat d \<and>
         (r = - EBUSY \<and> ?y = x1 \<or> (\<exists>x2. request_sent resource_request x1 x2 \<and>
            mx_received (snd x2) = mx_received (snd x1) \<and> res_outcome (mseq (fst x2)) d r x2 ?y))"
    by (auto simp del: split_paired_Ex)
  have same: "but_mbox (fst x1) = but_mbox (priv s)" "mseq (fst x1) = mseq (priv s)" using x1 by (simp_all add: mbox_only_def)
  from d show ?thesis
  proof (elim disjE conjE exE)
    fix x2
    assume a: "0 \<le> d" "request_sent resource_request x1 x2" "res_outcome (mseq (fst x2)) d r x2 ?y"
    have x2: "but_mbox (fst x2) = but_mbox (priv s)" "mseq (fst x2) = mseq (priv s) + 1"
      using a(2) same by (simp_all add: request_sent_def)
    from a(3) show ?thesis unfolding res_outcome_def
    proof (elim disjE conjE exE)
      assume "r < 0" "mbox_only x2 ?y"
      then show ?thesis using x2 by (simp add: mbox_only_def)
    qed (use a(1) x2 in \<open>auto simp: mbox_only_def\<close>)
  qed (use same in auto)
qed

section \<open>Properties\<close>

text \<open>A card of examples: one stale response waits in the inbox of the VF; the PF answers each request at once
  with a successful response to a clear request of queue 0, sequence number 1. The status register
  shows a message until the next command.\<close>

fun mbox_cmds :: "event list \<Rightarrow> nat" where
  "mbox_cmds [] = 0"
| "mbox_cmds ((Io (Iowrite32 v b off), r) # evs) =
     (if off = QDMA_VF_MBOX_CMD then Suc (mbox_cmds evs) else mbox_cmds evs)"
| "mbox_cmds (e # evs) = mbox_cmds evs"

fun stale_card :: "event list \<Rightarrow> kcall \<Rightarrow> int" where
  "stale_card tr (Io (Ioread32 b off)) =
     (if off = QDMA_VF_MBOX_STS then (if even (mbox_cmds tr) then 1 else 0)
      else if off = QDMA_VF_MBOX_IN_MSG then 6
      else if off = QDMA_VF_MBOX_IN_MSG + 8 then 1
      else if off = QDMA_VF_MBOX_IN_MSG + 12 then 8
      else 0)"
| "stale_card tr (Sync (Wait_for_completion n)) = 1"
| "stale_card tr c = 0"

definition stale_vf :: drv_state where
  "stale_vf = \<lparr>ext = stale_card, trace = [], priv = zero_private
     \<lparr>pr_vf_hw := zero_vf_hardware\<lparr>vf_bar0 := 0x1000, vf_bar0_len := 0x10000\<rparr>\<rparr>\<rparr>"

lemma stale_vf_covers: "covers 0x1000 (priv stale_vf)"
  by (simp add: covers_def stale_vf_def)

text \<open>C4. One queue command sends at most one message and changes nothing but the mailbox state. A result that
  is not negative means: the request went out with the next sequence number, and a response came back
  that carries the expected opcode, that sequence number, the length, queue and direction of the request
  and the status OK. A response that differs is an error, never a success.\<close>
theorem vf_queue_cmd_exchange:
  assumes "covers b (priv s)" "length (mb_data request) = 28"
  shows "case run_state (onic_vf_mbox_send_queue_cmd request op qid dir) s of (r, s') \<Rightarrow>
     (let old = mbox_view (vf_map b) (trace s); new = mbox_view (vf_map b) (trace s'); seq = mseq (priv s) + 1;
          req = request\<lparr>mb_hdr := (mb_hdr request)\<lparr>mh_seq := seq\<rparr>\<rparr>;
          hdr = mb_hdr (mresp (priv s')); data = mb_data (mresp (priv s'))
      in but_mbox (priv s') = but_mbox (priv s) \<and>
         (0 \<le> r \<and> mx_sent new = mx_sent old @ [(mx_target old, msg_words req)] \<and>
            hdr = \<lparr>mh_opcode = op, mh_status = ONIC_MBOX_STS_OK, mh_seq = seq, mh_len = sizeof_queue_cmd_resp\<rparr> \<and>
            qcmd_resp_of_words data = \<lparr>qp_qid = qid, qp_dir = dir\<rparr> \<or>
          r < 0 \<and> (mx_sent new = mx_sent old \<or> mx_sent new = mx_sent old @ [(mx_target old, msg_words req)])))"
proof -
  obtain r s' where run: "run_state (onic_vf_mbox_send_queue_cmd request op qid dir) s = (r, s')"
    by (metis prod.collapse)
  have "exchanged request (\<lambda>p. check_cmd_resp (mseq p) op qid dir (mresp p) = 0) r
      (priv s, mbox_view (vf_map b) (trace s)) (priv s', mbox_view (vf_map b) (trace s'))"
    using mrelD [OF mrel_send_queue_cmd [OF assms(2)] run assms(1)] by simp
  then show ?thesis
    by (cases "mb_hdr (mresp (priv s'))"; cases "qcmd_resp_of_words (mb_data (mresp (priv s')))")
      (auto simp: run Let_def exchanged_def request_sent_def mbox_only_def check_cmd_resp_def split: if_splits)
qed

theorem vf_queue_cmd_exchange_witness:
  "covers 0x1000 (priv stale_vf) \<and>
   (case run_state (onic_vf_mbox_send_queue_cmd (clear_request 0 0) 6 0 0) stale_vf of (r, s') \<Rightarrow>
      but_mbox (priv s') = but_mbox (priv stale_vf))"
proof -
  have len: "length (mb_data (clear_request 0 0)) = 28" by (simp add: clear_request_def qclear_words_def)
  show ?thesis
    using vf_queue_cmd_exchange [OF stale_vf_covers len, of 6 0 0] stale_vf_covers
    by (simp add: Let_def split: prod.splits)
qed

text \<open>C17. The queue window of a VF is only ever set from a response that passed every check (opcode, the sequence
  number of this request, status OK, length, and 1 to 64 queues); a failed request leaves everything but
  the mailbox state as it was.\<close>
theorem vf_get_resource_checked:
  assumes "covers b (priv s)"
  shows "case run_state onic_vf_mbox_get_queue_resource s of (r, s') \<Rightarrow>
     r < 0 \<and> but_mbox (priv s') = but_mbox (priv s) \<or>
     0 \<le> r \<and> (let resp = mresp (priv s'); res = qres_of_words (mb_data resp); hw = pr_vf_hw (priv s') in
       mb_hdr resp = \<lparr>mh_opcode = ONIC_MBOX_OP_QUEUE_RES_RESP, mh_status = ONIC_MBOX_STS_OK,
                      mh_seq = mseq (priv s) + 1, mh_len = sizeof_queue_res\<rparr> \<and>
       vf_resource_valid hw \<and> 0 < vf_qmax hw \<and> vf_qmax hw \<le> of_nat ONIC_MAX_QUEUES \<and>
       vf_func_id hw = ucast (qr_func_id res) \<and> vf_qbase hw = ucast (qr_qbase res) \<and>
       vf_qmax hw = ucast (qr_qmax res) \<and> vf_mac hw = qr_mac res)"
proof -
  obtain r s' where run: "run_state onic_vf_mbox_get_queue_resource s = (r, s')" by (metis prod.collapse)
  from get_queue_resource_run [OF run assms] show ?thesis
  proof (elim disjE conjE exE)
    fix p
    assume a: "0 \<le> r" "mseq p = mseq (priv s) + 1" "check_res_resp (mseq p) (mresp p) = 0"
      "priv s' = with_resource (qres_of_words (mb_data (mresp p))) p"
    let ?q = "qr_qmax (qres_of_words (mb_data (mresp p)))"
    have c: "mb_hdr (mresp p) = \<lparr>mh_opcode = ONIC_MBOX_OP_QUEUE_RES_RESP, mh_status = ONIC_MBOX_STS_OK,
        mh_seq = mseq (priv s) + 1, mh_len = sizeof_queue_res\<rparr>" "?q \<noteq> 0" "?q \<le> 64"
      using a(2,3) by (cases "mb_hdr (mresp p)", auto simp: check_res_resp_def split: if_splits)+
    have u: "unat (ucast ?q :: u16) = unat ?q"
      using c(3) by (simp add: unsigned_ucast_eq take_bit_nat_eq_self_iff word_le_nat_alt)
    have "0 < (ucast ?q :: u16)" "(ucast ?q :: u16) \<le> 64"
      using c(2,3) u by (simp_all add: word_less_nat_alt word_le_nat_alt unat_gt_0)
    then show ?thesis using a(1,4) c(1) run by (simp add: Let_def with_resource_def)
  qed (simp add: run)
qed

theorem vf_get_resource_checked_witness:
  "covers 0x1000 (priv stale_vf) \<and>
   (case run_state onic_vf_mbox_get_queue_resource stale_vf of (r, s') \<Rightarrow>
      r < 0 \<and> but_mbox (priv s') = but_mbox (priv stale_vf) \<or> 0 \<le> r \<and> vf_resource_valid (pr_vf_hw (priv s')))"
  using vf_get_resource_checked [OF stale_vf_covers] stale_vf_covers
  by (auto simp: Let_def split: prod.splits)

text \<open>A success may be reported as a failure: when stale responses were dropped before the request and the
  answer then arrives by interrupt, the number dropped is returned in place of 0. Here one stale response
  was dropped, the PF said OK to this very request, and the result is 1, which every caller takes for an
  error.\<close>
theorem vf_stale_response_spoils_success:
  "case run_state (onic_vf_mbox_clear_queue 0 0) stale_vf of (r, s') \<Rightarrow>
     r = 1 \<and> mh_status (mb_hdr (mresp (priv s'))) = ONIC_MBOX_STS_OK \<and> mh_seq (mb_hdr (mresp (priv s'))) = mseq (priv s') \<and>
     mx_received (mbox_view (vf_map 0x1000) (trace s')) = 2"
  by code_simp

end
