(* ===== verification/Desc_Rings.thy ===== *)
theory Desc_Rings
  imports Onic
begin

text \<open>
  The descriptor rings. \<^verbatim>\<open>onic_netdev.c\<close> (PF) advances an index modulo the number of entries,
  \<^verbatim>\<open>onic_vf_qdma.c\<close> and \<^verbatim>\<open>onic_vf_netdev.c\<close> (VF) compare it with that number and reset it. Both are
  instances of the interface \<open>ring_ops\<close>, under which a ring with its buffers is a bounded queue: \<open>contents\<close>
  is the list of its entries, oldest first, a push appends one and a pop takes the first.
\<close>

section \<open>PF rings (onic_netdev.c)\<close>

definition onic_ring_get_real_count :: "onic_ring \<Rightarrow> u16" where
  "onic_ring_get_real_count r = (if ring_wb r \<noteq> 0 then ring_count r - 1 else ring_count r)"

text \<open>The sum is a C int, so it does not wrap at 16 bits; the operand of \<^verbatim>\<open>%\<close> is not 0.\<close>

definition onic_ring_full :: "onic_ring \<Rightarrow> bool" where
  "onic_ring_full r \<longleftrightarrow> (unat (ring_next_to_use r) + 1) mod unat (onic_ring_get_real_count r) = unat (ring_next_to_clean r)"

definition onic_ring_increment_head :: "onic_ring \<Rightarrow> onic_ring" where
  "onic_ring_increment_head r = r\<lparr>ring_next_to_use :=
     of_nat ((unat (ring_next_to_use r) + 1) mod unat (onic_ring_get_real_count r))\<rparr>"

definition onic_ring_increment_tail :: "onic_ring \<Rightarrow> onic_ring" where
  "onic_ring_increment_tail r = r\<lparr>ring_next_to_clean :=
     of_nat ((unat (ring_next_to_clean r) + 1) mod unat (onic_ring_get_real_count r))\<rparr>"

section \<open>VF rings (onic_vf_qdma.c, onic_vf_netdev.c)\<close>

definition onic_vf_ring_real_count :: "onic_ring \<Rightarrow> u16" where
  "onic_vf_ring_real_count r = ring_count r - 1"

definition onic_vf_ring_increment_clean :: "onic_ring \<Rightarrow> onic_ring" where
  "onic_vf_ring_increment_clean r =
     (let c = ring_next_to_clean r + 1
      in r\<lparr>ring_next_to_clean := (if c = onic_vf_ring_real_count r then 0 else c)\<rparr>)"

definition onic_vf_tx_ring_real_count :: "onic_ring \<Rightarrow> u16" where
  "onic_vf_tx_ring_real_count r = ring_count r - 1"

definition onic_vf_tx_ring_full :: "onic_ring \<Rightarrow> bool" where
  "onic_vf_tx_ring_full r \<longleftrightarrow>
     (let n = ring_next_to_use r + 1
      in (if n = onic_vf_tx_ring_real_count r then 0 else n) = ring_next_to_clean r)"

definition onic_vf_tx_ring_increment_head :: "onic_ring \<Rightarrow> onic_ring" where
  "onic_vf_tx_ring_increment_head r =
     (let n = ring_next_to_use r + 1
      in r\<lparr>ring_next_to_use := (if n = onic_vf_tx_ring_real_count r then 0 else n)\<rparr>)"

section \<open>A ring as a queue\<close>

abbreviation ring_head :: "onic_ring \<Rightarrow> nat" where "ring_head r \<equiv> unat (ring_next_to_use r)"
abbreviation ring_tail :: "onic_ring \<Rightarrow> nat" where "ring_tail r \<equiv> unat (ring_next_to_clean r)"

text \<open>Both indices lie in a ring of \<open>n\<close> entries; the number of entries between them.\<close>

definition ring_ok :: "nat \<Rightarrow> onic_ring \<Rightarrow> bool" where
  "ring_ok n r \<longleftrightarrow> ring_head r < n \<and> ring_tail r < n"

definition occupied :: "nat \<Rightarrow> onic_ring \<Rightarrow> nat" where
  "occupied n r = (ring_head r + n - ring_tail r) mod n"

text \<open>The entry at distance \<open>k\<close> from the tail, and the entries of the queue.\<close>

definition slot :: "nat \<Rightarrow> onic_ring \<Rightarrow> nat \<Rightarrow> nat" where
  "slot n r k = (ring_tail r + k) mod n"

definition contents :: "nat \<Rightarrow> onic_ring \<Rightarrow> 'b list \<Rightarrow> 'b list" where
  "contents n r buf = map (\<lambda>k. buf ! slot n r k) [0..<occupied n r]"

lemma mod_dist:
  fixes a b n :: nat
  assumes "a < n" "b < n"
  shows "(a + n - b) mod n = (if b \<le> a then a - b else a + n - b)"
  using assms by (auto simp: mod_if)

lemma mod_less_double: "(a :: nat) < 2 * n \<Longrightarrow> a mod n = (if a < n then a else a - n)"
  by (simp add: mod_if)

lemma occupied_less: "ring_ok n r \<Longrightarrow> occupied n r < n"
  by (auto simp: ring_ok_def occupied_def)

lemma length_contents [simp]: "length (contents n r buf) = occupied n r"
  by (simp add: contents_def)

lemma slot_less: "ring_ok n r \<Longrightarrow> slot n r k < n"
  by (auto simp: ring_ok_def slot_def)

lemma slot_0: "ring_ok n r \<Longrightarrow> slot n r 0 = ring_tail r"
  by (simp add: ring_ok_def slot_def)

lemma slot_occupied: "ring_ok n r \<Longrightarrow> slot n r (occupied n r) = ring_head r"
  by (auto simp: ring_ok_def slot_def occupied_def mod_dist mod_less_double)

lemma slot_inj: "ring_ok n r \<Longrightarrow> j < n \<Longrightarrow> k < n \<Longrightarrow> slot n r j = slot n r k \<longleftrightarrow> j = k"
  by (auto simp: ring_ok_def slot_def mod_less_double split: if_splits)

lemma occupied_0: "ring_ok n r \<Longrightarrow> occupied n r = 0 \<longleftrightarrow> ring_head r = ring_tail r"
  by (auto simp: ring_ok_def occupied_def mod_dist split: if_splits)

section \<open>The interface of a ring\<close>

locale ring_ops =
  fixes real_count :: "onic_ring \<Rightarrow> u16"
    and push :: "onic_ring \<Rightarrow> onic_ring"
    and pop :: "onic_ring \<Rightarrow> onic_ring"
    and full :: "onic_ring \<Rightarrow> bool"
  assumes push: "ring_ok (unat (real_count r)) r \<Longrightarrow>
      push r = r\<lparr>ring_next_to_use := of_nat (Suc (ring_head r) mod unat (real_count r))\<rparr>"
    and pop: "ring_ok (unat (real_count r)) r \<Longrightarrow>
      pop r = r\<lparr>ring_next_to_clean := of_nat (Suc (ring_tail r) mod unat (real_count r))\<rparr>"
    and full: "ring_ok (unat (real_count r)) r \<Longrightarrow>
      full r \<longleftrightarrow> Suc (ring_head r) mod unat (real_count r) = ring_tail r"
begin

lemma index_range: "ring_ok (unat (real_count r)) r \<Longrightarrow> Suc i mod unat (real_count r) < 65536"
  by (rule order_less_trans [of _ "unat (real_count r)"]) (auto simp: ring_ok_def)

lemma head_push: "ring_ok (unat (real_count r)) r \<Longrightarrow> ring_head (push r) = Suc (ring_head r) mod unat (real_count r)"
  by (simp add: push index_range)

lemma tail_push: "ring_ok (unat (real_count r)) r \<Longrightarrow> ring_tail (push r) = ring_tail r"
  by (simp add: push)

lemma tail_pop: "ring_ok (unat (real_count r)) r \<Longrightarrow> ring_tail (pop r) = Suc (ring_tail r) mod unat (real_count r)"
  by (simp add: pop index_range)

lemma head_pop: "ring_ok (unat (real_count r)) r \<Longrightarrow> ring_head (pop r) = ring_head r"
  by (simp add: pop)

lemma push_ok: "ring_ok (unat (real_count r)) r \<Longrightarrow> ring_ok (unat (real_count r)) (push r)"
  using head_push [of r] tail_push [of r] by (auto simp: ring_ok_def)

lemma pop_ok: "ring_ok (unat (real_count r)) r \<Longrightarrow> ring_ok (unat (real_count r)) (pop r)"
  using head_pop [of r] tail_pop [of r] by (auto simp: ring_ok_def)

lemma full_occupied:
  assumes "ring_ok (unat (real_count r)) r"
  shows "full r \<longleftrightarrow> Suc (occupied (unat (real_count r)) r) = unat (real_count r)"
  using assms full [OF assms]
  by (auto simp: ring_ok_def occupied_def mod_dist mod_Suc split: if_splits)

lemma occupied_push:
  assumes "ring_ok (unat (real_count r)) r" "\<not> full r"
  shows "occupied (unat (real_count r)) (push r) = Suc (occupied (unat (real_count r)) r)"
  using assms full [OF assms(1)] head_push [OF assms(1)] tail_push [OF assms(1)]
  by (auto simp: ring_ok_def occupied_def mod_dist mod_Suc split: if_splits)

lemma occupied_pop:
  assumes "ring_ok (unat (real_count r)) r" "ring_head r \<noteq> ring_tail r"
  shows "Suc (occupied (unat (real_count r)) (pop r)) = occupied (unat (real_count r)) r"
  using assms head_pop [OF assms(1)] tail_pop [OF assms(1)]
  by (auto simp: ring_ok_def occupied_def mod_dist mod_Suc split: if_splits)

lemma slot_push: "ring_ok (unat (real_count r)) r \<Longrightarrow> slot (unat (real_count r)) (push r) k = slot (unat (real_count r)) r k"
  by (simp add: slot_def tail_push)

lemma slot_pop: "ring_ok (unat (real_count r)) r \<Longrightarrow> slot (unat (real_count r)) (pop r) k = slot (unat (real_count r)) r (Suc k)"
  by (simp add: slot_def tail_pop mod_add_left_eq)

text \<open>The places in use.\<close>

lemma slots_push:
  assumes "ring_ok (unat (real_count r)) r" "\<not> full r"
  shows "slot (unat (real_count r)) (push r) ` {..<occupied (unat (real_count r)) (push r)} =
    insert (ring_head r) (slot (unat (real_count r)) r ` {..<occupied (unat (real_count r)) r})"
  by (simp add: occupied_push [OF assms] slot_push [OF assms(1)] lessThan_Suc slot_occupied [OF assms(1)])

lemma slots_pop:
  assumes "ring_ok (unat (real_count r)) r" "ring_head r \<noteq> ring_tail r"
  shows "slot (unat (real_count r)) r ` {..<occupied (unat (real_count r)) r} =
      insert (ring_tail r) (slot (unat (real_count r)) (pop r) ` {..<occupied (unat (real_count r)) (pop r)})"
    "ring_tail r \<notin> slot (unat (real_count r)) (pop r) ` {..<occupied (unat (real_count r)) (pop r)}"
proof -
  let ?n = "unat (real_count r)" and ?m = "occupied (unat (real_count r)) (pop r)"
  have occ: "occupied ?n r = Suc ?m" "Suc ?m < ?n"
    using occupied_pop [OF assms] occupied_less [OF assms(1)] by simp_all
  show "slot ?n r ` {..<occupied ?n r} = insert (ring_tail r) (slot ?n (pop r) ` {..<?m})"
    unfolding occ(1) lessThan_Suc_eq_insert_0 by (simp add: slot_0 [OF assms(1)] image_image slot_pop [OF assms(1)])
  show "ring_tail r \<notin> slot ?n (pop r) ` {..<?m}"
  proof
    assume "ring_tail r \<in> slot ?n (pop r) ` {..<?m}"
    then obtain k where "k < ?m" "slot ?n r (Suc k) = slot ?n r 0"
      by (auto simp: slot_pop [OF assms(1)] slot_0 [OF assms(1)])
    then show False using slot_inj [OF assms(1), of "Suc k" 0] occ by auto
  qed
qed

text \<open>The entry is written at the head, then the head moves.\<close>

lemma contents_push:
  assumes "ring_ok (unat (real_count r)) r" "\<not> full r" "length buf = unat (real_count r)"
  shows "contents (unat (real_count r)) (push r) (buf[ring_head r := x]) = contents (unat (real_count r)) r buf @ [x]"
proof -
  let ?n = "unat (real_count r)"
  have "ring_head r \<noteq> slot ?n r k" if "k < occupied ?n r" for k
    using slot_inj [OF assms(1), of k "occupied ?n r"] occupied_less [OF assms(1)] that slot_occupied [OF assms(1)] by auto
  moreover have "ring_head r < length buf" using assms by (simp add: ring_ok_def)
  ultimately show ?thesis
    using assms by (simp add: contents_def occupied_push slot_push slot_occupied)
qed

lemma contents_pop:
  assumes "ring_ok (unat (real_count r)) r" "ring_head r \<noteq> ring_tail r"
  shows "contents (unat (real_count r)) r buf = buf ! ring_tail r # contents (unat (real_count r)) (pop r) buf"
proof -
  let ?n = "unat (real_count r)"
  have "[0..<occupied ?n r] = 0 # map Suc [0..<occupied ?n (pop r)]"
    using upt_conv_Cons [of 0 "occupied ?n r"] occupied_pop [OF assms] by (simp add: map_Suc_upt)
  then show ?thesis
    using slot_0 [OF assms(1)] by (simp add: contents_def slot_pop [OF assms(1)] comp_def)
qed

text \<open>The freed entry may be overwritten.\<close>

lemma contents_pop_cleared:
  assumes "ring_ok (unat (real_count r)) r" "ring_head r \<noteq> ring_tail r"
  shows "contents (unat (real_count r)) (pop r) (buf[ring_tail r := x]) = contents (unat (real_count r)) (pop r) buf"
proof -
  let ?n = "unat (real_count r)"
  have "ring_tail r \<noteq> slot ?n r (Suc k)" if "k < occupied ?n (pop r)" for k
    using slot_inj [OF assms(1), of "Suc k" 0] occupied_less [OF assms(1)] occupied_pop [OF assms] that
      slot_0 [OF assms(1)] by auto
  then show ?thesis by (simp add: contents_def slot_pop [OF assms(1)])
qed

end

section \<open>Both implementations\<close>

interpretation pf_ring: ring_ops onic_ring_get_real_count onic_ring_increment_head onic_ring_increment_tail onic_ring_full
  by unfold_locales (simp_all add: onic_ring_increment_head_def onic_ring_increment_tail_def onic_ring_full_def)

lemma reset_index:
  fixes i n :: u16
  assumes "i < n"
  shows "(if i + 1 = n then 0 else i + 1) = of_nat (Suc (unat i) mod unat n)"
proof -
  have "Suc (unat i) < 65536"
    by (rule order_le_less_trans [OF _ unat_u16_less [of n]]) (use assms in \<open>simp add: word_less_nat_alt\<close>)
  then have "unat (i + 1) = Suc (unat i)" by (simp add: unat_word_ariths)
  then have "i + 1 = n \<longleftrightarrow> Suc (unat i) = unat n" by (metis unsigned_word_eqI)
  then show ?thesis
    using assms by (auto simp: word_less_nat_alt mod_Suc)
qed

interpretation vf_ring: ring_ops onic_vf_tx_ring_real_count onic_vf_tx_ring_increment_head onic_vf_ring_increment_clean
  onic_vf_tx_ring_full
proof unfold_locales
  have full: "(of_nat (Suc (ring_head r) mod unat (onic_vf_tx_ring_real_count r)) :: u16) = ring_next_to_clean r \<longleftrightarrow>
    Suc (ring_head r) mod unat (onic_vf_tx_ring_real_count r) = ring_tail r"
    if "ring_ok (unat (onic_vf_tx_ring_real_count r)) r" for r
  proof -
    have "Suc (ring_head r) mod unat (onic_vf_tx_ring_real_count r) < 65536"
      by (rule order_less_trans [of _ "unat (onic_vf_tx_ring_real_count r)"]) (use that in \<open>auto simp: ring_ok_def\<close>)
    then show ?thesis by (metis of_nat_unat_16 unat_of_nat_16)
  qed
  show "onic_vf_tx_ring_increment_head r =
      r\<lparr>ring_next_to_use := of_nat (Suc (ring_head r) mod unat (onic_vf_tx_ring_real_count r))\<rparr>"
    "onic_vf_ring_increment_clean r =
      r\<lparr>ring_next_to_clean := of_nat (Suc (ring_tail r) mod unat (onic_vf_tx_ring_real_count r))\<rparr>"
    "onic_vf_tx_ring_full r \<longleftrightarrow> Suc (ring_head r) mod unat (onic_vf_tx_ring_real_count r) = ring_tail r"
    if ok: "ring_ok (unat (onic_vf_tx_ring_real_count r)) r" for r
  proof -
    have i: "ring_next_to_use r < onic_vf_tx_ring_real_count r" "ring_next_to_clean r < onic_vf_tx_ring_real_count r"
      using ok by (simp_all add: ring_ok_def word_less_nat_alt)
    show "onic_vf_tx_ring_increment_head r =
        r\<lparr>ring_next_to_use := of_nat (Suc (ring_head r) mod unat (onic_vf_tx_ring_real_count r))\<rparr>"
      by (simp add: onic_vf_tx_ring_increment_head_def Let_def reset_index [OF i(1)])
    show "onic_vf_ring_increment_clean r =
        r\<lparr>ring_next_to_clean := of_nat (Suc (ring_tail r) mod unat (onic_vf_tx_ring_real_count r))\<rparr>"
      by (simp add: onic_vf_ring_increment_clean_def onic_vf_ring_real_count_def Let_def
          flip: onic_vf_tx_ring_real_count_def reset_index [OF i(2)])
    show "onic_vf_tx_ring_full r \<longleftrightarrow> Suc (ring_head r) mod unat (onic_vf_tx_ring_real_count r) = ring_tail r"
      unfolding full [OF ok, symmetric] by (simp add: onic_vf_tx_ring_full_def Let_def reset_index [OF i(1)])
  qed
qed

section \<open>The two implementations agree\<close>

lemma ring_head_range: "ring_ok n r \<Longrightarrow> n < 65536 \<Longrightarrow> Suc (ring_head r) mod n < 65536 \<and> Suc (ring_tail r) mod n < 65536"
  by (auto simp: ring_ok_def intro: order_less_trans [OF mod_less_divisor])

text \<open>On a ring with a status entry whose indices are in range, the PF functions, which take the
  remainder of a division, and the VF functions, which compare and reset, are the same functions: same
  capacity, same advance of both indices, same test for a full ring.\<close>
theorem pf_vf_rings_agree:
  assumes "ring_wb r \<noteq> 0" "ring_ok (unat (ring_count r - 1)) r"
  shows "onic_ring_get_real_count r = onic_vf_ring_real_count r \<and>
    onic_ring_increment_head r = onic_vf_tx_ring_increment_head r \<and>
    onic_ring_increment_tail r = onic_vf_ring_increment_clean r \<and> onic_ring_full r = onic_vf_tx_ring_full r"
proof -
  have n: "onic_ring_get_real_count r = ring_count r - 1" "onic_vf_tx_ring_real_count r = ring_count r - 1"
    "onic_vf_ring_real_count r = ring_count r - 1"
    using assms(1) by (simp_all add: onic_ring_get_real_count_def onic_vf_tx_ring_real_count_def onic_vf_ring_real_count_def)
  have ok: "ring_ok (unat (onic_ring_get_real_count r)) r" "ring_ok (unat (onic_vf_tx_ring_real_count r)) r"
    using assms(2) by (simp_all add: n)
  show ?thesis
    using pf_ring.push [OF ok(1)] pf_ring.pop [OF ok(1)] pf_ring.full [OF ok(1)]
      vf_ring.push [OF ok(2)] vf_ring.pop [OF ok(2)] vf_ring.full [OF ok(2)] by (simp add: n)
qed

theorem pf_vf_rings_agree_witness:
  "let r = \<lparr>ring_count = 9, ring_desc = 0x1000, ring_wb = 0x1080, ring_dma_addr = 0x1000, ring_next_to_use = 7,
       ring_next_to_clean = 3, ring_color = 0\<rparr>
   in onic_ring_increment_head r = onic_vf_tx_ring_increment_head r"
  unfolding Let_def by (rule pf_vf_rings_agree [THEN conjunct2, THEN conjunct1]) (simp_all add: ring_ok_def)

end
