(* ===== verification/Vf_Qdma.thy ===== *)
theory Vf_Qdma
  imports Vf_Hw Desc_Rings
begin

text \<open>
  \<^verbatim>\<open>onic_vf_qdma.c\<close>, lines 47 to 261: the QDMA device object of the VF, its queue interrupts and the
  doorbells. A queue is named by its local number, an index of the tables of the private data.
\<close>

abbreviation (input) ONIC_VF_TX_RING_COUNT :: u16 where "ONIC_VF_TX_RING_COUNT \<equiv> 4096"
abbreviation (input) ONIC_VF_RX_RING_COUNT :: u16 where "ONIC_VF_RX_RING_COUNT \<equiv> 1024"
abbreviation (input) ONIC_VF_CMPL_RING_COUNT :: u16 where "ONIC_VF_CMPL_RING_COUNT \<equiv> 1024"
abbreviation (input) ONIC_VF_TX_RNGCNT_IDX :: u32 where "ONIC_VF_TX_RNGCNT_IDX \<equiv> 0"
abbreviation (input) ONIC_VF_TX_CTXT_CONFIGURED :: nat where "ONIC_VF_TX_CTXT_CONFIGURED \<equiv> 31"
abbreviation (input) ONIC_VF_RX_DESC_RNGCNT_IDX :: u32 where "ONIC_VF_RX_DESC_RNGCNT_IDX \<equiv> 8"
abbreviation (input) ONIC_VF_RX_CMPL_RNGCNT_IDX :: u32 where "ONIC_VF_RX_CMPL_RNGCNT_IDX \<equiv> 8"
abbreviation (input) ONIC_VF_RX_BUFSZ_IDX :: u32 where "ONIC_VF_RX_BUFSZ_IDX \<equiv> 4"
abbreviation (input) ONIC_VF_RX_CMPL_DESC_SZ :: u32 where "ONIC_VF_RX_CMPL_DESC_SZ \<equiv> 0"
abbreviation (input) ONIC_VF_RX_CTXT_CONFIGURED :: nat where "ONIC_VF_RX_CTXT_CONFIGURED \<equiv> 31"
abbreviation (input) ONIC_VF_RX_DESC_STEP :: nat where "ONIC_VF_RX_DESC_STEP \<equiv> 256"
abbreviation (input) ONIC_VF_RX_NAPI_ENABLED :: nat where "ONIC_VF_RX_NAPI_ENABLED \<equiv> 30"

section \<open>The device object\<close>

definition onic_vf_qdma_init :: "int onic" where
  "onic_vf_qdma_init = do {
     p \<leftarrow> get_priv;
     let hw = pr_vf_hw p;
     if \<not> vf_resource_valid hw then ret (- EINVAL)
     else if vf_bar0 hw = 0 then ret (- ENODEV)
     else if vf_qdev hw \<noteq> None then ret (- EALREADY)
     else do {
       a \<leftarrow> perform (Mem (Kzalloc Obj_qdma_dev));
       if (of_int a :: ptr) = 0 then ret (- ENOMEM)
       else do {
         upd_vf_hw (\<lambda>hw. hw\<lparr>
           vf_qdev := Some \<lparr>qdev_self = of_int a, qdev_func_id = vf_func_id hw, qdev_q_base = vf_qbase hw,
                           qdev_num_queues = vf_qmax hw, qdev_addr = vf_bar0 hw\<rparr>,
           vf_num_tx_queues := vf_qmax hw, vf_num_rx_queues := vf_qmax hw\<rparr>);
         ret 0 } } }"

definition onic_vf_qdma_clear :: "unit onic" where
  "onic_vf_qdma_clear = do {
     p \<leftarrow> get_priv;
     case vf_qdev (pr_vf_hw p) of
       None \<Rightarrow> ret ()
     | Some qdev \<Rightarrow> do {
         invoke (Mem (Kfree (qdev_self qdev)));
         upd_vf_hw (\<lambda>hw. hw\<lparr>vf_qdev := None, vf_num_tx_queues := 0, vf_num_rx_queues := 0,
           vf_resource_valid := False\<rparr>) } }"

section \<open>Queue interrupts\<close>

definition onic_vf_q_irq_handler :: "nat \<Rightarrow> unit onic" where
  "onic_vf_q_irq_handler vid = do {
     p \<leftarrow> get_priv;
     case pr_rx_queue p vid of
       None \<Rightarrow> ret ()
     | Some q \<Rightarrow> if \<not> bit (rq_state q) ONIC_VF_RX_NAPI_ENABLED then ret ()
         else invoke (Net (Napi_schedule (unat (rq_qid q)))) }"

definition set_q_vector :: "nat \<Rightarrow> onic_q_vector option \<Rightarrow> unit onic" where
  "set_q_vector vid v = upd_priv (pr_q_vector_update (\<lambda>t. t(vid := v)))"

definition onic_vf_clear_one_q_irq :: "nat \<Rightarrow> unit onic" where
  "onic_vf_clear_one_q_irq vid = do {
     p \<leftarrow> get_priv;
     case pr_q_vector p vid of
       None \<Rightarrow> ret ()
     | Some vec \<Rightarrow> do {
         irq \<leftarrow> perform (Pci (Pci_irq_vector vid));
         invoke (Pci (Free_irq irq (Irq_vf_q vid)));
         invoke (Mem (Kfree (qv_self vec)));
         set_q_vector vid None } }"

definition onic_vf_init_one_q_irq :: "nat \<Rightarrow> int onic" where
  "onic_vf_init_one_q_irq vid = do {
     a \<leftarrow> perform (Mem (Kzalloc Obj_q_vector));
     if (of_int a :: ptr) = 0 then ret (- ENOMEM)
     else do {
       irq \<leftarrow> perform (Pci (Pci_irq_vector vid));
       if irq < 0 then do {
         invoke (Mem (Kfree (of_int a)));
         ret irq }
       else do {
         err \<leftarrow> perform (Pci (Request_irq irq (Irq_vf_q vid)));
         if err \<noteq> 0 then do {
           invoke (Mem (Kfree (of_int a)));
           ret err }
         else do {
           set_q_vector vid (Some \<lparr>qv_self = of_int a, qv_vid = of_nat vid\<rparr>);
           ret 0 } } } }"

text \<open>A failure at \<open>vid\<close> clears the vectors below it, the last one first.\<close>

definition onic_vf_q_irq_init :: "int onic" where
  "onic_vf_q_irq_init = do {
     p \<leftarrow> get_priv;
     (err, rest) \<leftarrow> for_until [0..<unat (pr_num_q_vectors p)] onic_vf_init_one_q_irq;
     case rest of
       [] \<Rightarrow> ret 0
     | vid # _ \<Rightarrow> do {
         for_each (rev [0..<vid]) onic_vf_clear_one_q_irq;
         ret err } }"

definition onic_vf_q_irq_clear :: "unit onic" where
  "onic_vf_q_irq_clear = for_each [0..<ONIC_MAX_QUEUES] onic_vf_clear_one_q_irq"

section \<open>Doorbells\<close>

definition onic_vf_qid_valid :: "onic_private \<Rightarrow> u16 \<Rightarrow> bool" where
  "onic_vf_qid_valid p qid \<longleftrightarrow>
     vf_resource_valid (pr_vf_hw p) \<and> vf_qdev (pr_vf_hw p) \<noteq> None \<and> qid < vf_qmax (pr_vf_hw p)"

definition onic_vf_set_desc_pidx :: "u16 \<Rightarrow> u16 \<Rightarrow> bool \<Rightarrow> unit onic" where
  "onic_vf_set_desc_pidx qid pidx c2h = do {
     p \<leftarrow> get_priv;
     if \<not> onic_vf_qid_valid p qid then ret ()
     else onic_vf_write_bar0
       ((if c2h then QDMA_OFFSET_VF_DMAP_SEL_C2H_DESC_PIDX else QDMA_OFFSET_VF_DMAP_SEL_H2C_DESC_PIDX) + ucast qid * 16)
       (ucast (FIELD_SET QDMA_DMAP_SEL_DESC_PIDX_MASK (ucast pidx))) }"

definition onic_vf_set_tx_head :: "u16 \<Rightarrow> u16 \<Rightarrow> unit onic" where
  "onic_vf_set_tx_head qid head = onic_vf_set_desc_pidx qid head False"

definition onic_vf_set_rx_head :: "u16 \<Rightarrow> u16 \<Rightarrow> unit onic" where
  "onic_vf_set_rx_head qid head = onic_vf_set_desc_pidx qid head True"

definition cmpl_cidx_word :: "u16 \<Rightarrow> u8 \<Rightarrow> u32" where
  "cmpl_cidx_word tail irq_arm =
     ucast (FIELD_SET QDMA_DMAP_SEL_CMPL_CIDX_MASK (ucast tail) OR
            FIELD_SET QDMA_DMAP_SEL_CMPL_COUNTER_IDX_MASK 0 OR
            FIELD_SET QDMA_DMAP_SEL_CMPL_TIMER_IDX_MASK 0 OR
            FIELD_SET QDMA_DMAP_SEL_CMPL_TRIG_MODE_MASK 5 OR
            FIELD_SET QDMA_DMAP_SEL_CMPL_STAT_EN_MASK 1 OR
            FIELD_SET QDMA_DMAP_SEL_CMPL_IRQ_ARM_MASK (ucast irq_arm))"

definition onic_vf_set_completion_tail :: "u16 \<Rightarrow> u16 \<Rightarrow> u8 \<Rightarrow> unit onic" where
  "onic_vf_set_completion_tail qid tail irq_arm = do {
     p \<leftarrow> get_priv;
     if \<not> onic_vf_qid_valid p qid then ret ()
     else onic_vf_write_bar0 (QDMA_OFFSET_VF_DMAP_SEL_CMPL_CIDX + ucast qid * 16) (cmpl_cidx_word tail irq_arm) }"

lemma io_only_vf_doorbells [io_intro]:
  "io_only (onic_vf_set_desc_pidx qid pidx c2h)" "io_only (onic_vf_set_tx_head qid pidx)"
  "io_only (onic_vf_set_rx_head qid pidx)" "io_only (onic_vf_set_completion_tail qid pidx arm)"
  unfolding onic_vf_set_tx_head_def onic_vf_set_rx_head_def onic_vf_set_desc_pidx_def onic_vf_set_completion_tail_def
  by (auto intro!: io_intro)

lemma emits_vf_doorbells:
  assumes "\<And>v b off r. P (Io (Iowrite32 v b off), r)"
  shows "emits P (onic_vf_set_desc_pidx qid pidx c2h)" "emits P (onic_vf_set_tx_head qid pidx)"
    "emits P (onic_vf_set_rx_head qid pidx)" "emits P (onic_vf_set_completion_tail qid pidx arm)"
  unfolding onic_vf_set_tx_head_def onic_vf_set_rx_head_def onic_vf_set_desc_pidx_def onic_vf_set_completion_tail_def
  by (auto intro!: triple_intro simp: assms)

end
