(* ===== verification/Packets.thy ===== *)
theory Packets
  imports Desc_Rings "HOL-Library.Multiset"
begin

text \<open>
  What becomes of the packets and their DMA mappings: sums over the events of a run, and what the
  buffers of a transmit queue hold. Shared by the transmit paths of the VF and of the PF.
\<close>

section \<open>Events\<close>

text \<open>\<^verbatim>\<open>skb_put_padto\<close> frees the packet when it fails. A mapping that \<^verbatim>\<open>dma_mapping_error\<close> rejects is none.\<close>

fun skb_freed :: "event \<Rightarrow> ptr multiset" where
  "skb_freed (Skb (Dev_kfree_skb p), r) = {#p#}"
| "skb_freed (Skb (Skb_put_padto p n), r) = (if r \<noteq> 0 then {#p#} else {#})"
| "skb_freed (Xdp (Xdp_return_frame p), r) = {#p#}"
| "skb_freed (Xdp (Xdp_return_frame_rx_napi p), r) = {#p#}"
| "skb_freed _ = {#}"

fun dma_mapped :: "event \<Rightarrow> dma_addr multiset" where
  "dma_mapped (Skb (Dma_map_single p n), r) = {#of_int r#}"
| "dma_mapped _ = {#}"

fun dma_unmapped :: "event \<Rightarrow> dma_addr multiset" where
  "dma_unmapped (Skb (Dma_unmap_single a n), r) = {#a#}"
| "dma_unmapped (Skb (Dma_mapping_error a), r) = (if r \<noteq> 0 then {#a#} else {#})"
| "dma_unmapped _ = {#}"

text \<open>The packets that \<^verbatim>\<open>skb_put_padto\<close> took are also kept apart.\<close>

fun skb_refused :: "event \<Rightarrow> ptr multiset" where
  "skb_refused (Skb (Skb_put_padto p n), r) = (if r \<noteq> 0 then {#p#} else {#})"
| "skb_refused _ = {#}"

record packets =
  pk_freed :: "ptr multiset"
  pk_refused :: "ptr multiset"
  pk_mapped :: "dma_addr multiset"
  pk_unmapped :: "dma_addr multiset"

definition packets_init :: packets where
  "packets_init = \<lparr>pk_freed = {#}, pk_refused = {#}, pk_mapped = {#}, pk_unmapped = {#}\<rparr>"

definition packets_step :: "event \<Rightarrow> packets \<Rightarrow> packets" where
  "packets_step e d = \<lparr>pk_freed = pk_freed d + skb_freed e, pk_refused = pk_refused d + skb_refused e,
     pk_mapped = pk_mapped d + dma_mapped e, pk_unmapped = pk_unmapped d + dma_unmapped e\<rparr>"

definition packets :: "event list \<Rightarrow> packets" where
  "packets tr = fold packets_step tr packets_init"

definition packets_quiet :: "event \<Rightarrow> bool" where
  "packets_quiet e \<longleftrightarrow> skb_freed e = {#} \<and> skb_refused e = {#} \<and> dma_mapped e = {#} \<and> dma_unmapped e = {#}"

interpretation pk: trace_view packets_step packets_init packets packets_quiet
  by unfold_locales (simp_all add: packets_def packets_quiet_def packets_step_def)

lemma packets_quiet_simps [simp]:
  "packets_quiet (Io c, r)" "packets_quiet (Sync d, r)" "packets_quiet (Mem m, r)" "packets_quiet (Pci q, r)"
  "packets_quiet (Net n, r)" "packets_quiet (Page g, r)"
  by (simp_all add: packets_quiet_def)

lemma packets_io:
  assumes "io_only m" "emits packets_quiet m" "run_state m s = (a, s')"
  shows "packets (trace s') = packets (trace s)"
  by (rule io_emitsD [OF assms]) (simp add: pk.view_quiet)

lemma pk_rel_skb [onic_rel_intro]:
  "onic_rel packets (\<lambda>a x y. y = x) (perform (Skb (Skb_queue_mapping k)))"
  "onic_rel packets (\<lambda>a x y. y = x) (perform (Skb (Skb_len k)))"
  by (rule pk.rel_quiet; auto intro!: io_intro triple_intro simp: packets_quiet_def)+

lemma pk_padto:
  "onic_rel packets (\<lambda>a x y. fst y = fst x \<and> pk_freed (snd y) = pk_freed (snd x) + (if a \<noteq> 0 then {#skb#} else {#}) \<and>
      pk_refused (snd y) = pk_refused (snd x) + (if a \<noteq> 0 then {#skb#} else {#}) \<and>
      pk_mapped (snd y) = pk_mapped (snd x) \<and> pk_unmapped (snd y) = pk_unmapped (snd x))
     (perform (Skb (Skb_put_padto skb n)))"
  by (rule onic_rel_conseq, rule pk.rel_perform) (auto simp: packets_step_def)

section \<open>What a queue holds\<close>

definition zero_tx_buffer :: onic_tx_buffer where
  "zero_tx_buffer = \<lparr>tb_type = 0, tb_skb = 0, tb_dma_addr = 0, tb_len = 0, tb_time_stamp = 0\<rparr>"

definition busy :: "onic_tx_buffer \<Rightarrow> bool" where
  "busy b \<longleftrightarrow> tb_type b = ONIC_TX_SKB \<and> tb_skb b \<noteq> 0"

definition busy_bufs :: "onic_tx_buffer list \<Rightarrow> onic_tx_buffer multiset" where
  "busy_bufs bs = filter_mset busy (mset bs)"

definition skbs :: "onic_tx_buffer list \<Rightarrow> ptr multiset" where
  "skbs bs = image_mset tb_skb (busy_bufs bs)"

definition dmas :: "onic_tx_buffer list \<Rightarrow> dma_addr multiset" where
  "dmas bs = image_mset tb_dma_addr (busy_bufs bs)"

lemma not_busy_zero [simp]: "\<not> busy zero_tx_buffer"
  by (simp add: busy_def zero_tx_buffer_def)

lemma busy_bufs_nth:
  assumes "i < length bs"
  shows "busy_bufs bs + (if busy x then {#x#} else {#}) = busy_bufs (bs[i := x]) + (if busy (bs ! i) then {#bs ! i#} else {#})"
proof -
  have "mset bs = add_mset (bs ! i) (mset bs - {#bs ! i#})" using assms by simp
  then obtain M where "mset bs = add_mset (bs ! i) M" ..
  then have "mset bs = add_mset (bs ! i) M" "mset (bs[i := x]) = add_mset x M"
    using mset_update [OF assms, of x] by simp_all
  then show ?thesis by (simp add: busy_bufs_def)
qed

lemma bufs_clear:
  assumes "i < length bs"
  shows "skbs bs = skbs (bs[i := zero_tx_buffer]) + (if busy (bs ! i) then {#tb_skb (bs ! i)#} else {#})"
    "dmas bs = dmas (bs[i := zero_tx_buffer]) + (if busy (bs ! i) then {#tb_dma_addr (bs ! i)#} else {#})"
  using busy_bufs_nth [OF assms, of zero_tx_buffer] by (simp_all add: skbs_def dmas_def split: if_splits)

lemma bufs_put:
  assumes "i < length bs" "\<not> busy (bs ! i)" "busy x"
  shows "skbs (bs[i := x]) = add_mset (tb_skb x) (skbs bs)" "dmas (bs[i := x]) = add_mset (tb_dma_addr x) (dmas bs)"
proof -
  have "busy_bufs (bs[i := x]) = add_mset x (busy_bufs bs)"
    using busy_bufs_nth [OF assms(1), of x] assms(2,3) by simp
  then show "skbs (bs[i := x]) = add_mset (tb_skb x) (skbs bs)" "dmas (bs[i := x]) = add_mset (tb_dma_addr x) (dmas bs)"
    by (simp_all add: skbs_def dmas_def)
qed

text \<open>The entries between tail and head are in use, all others are free.\<close>

definition bufs_ok :: "nat \<Rightarrow> onic_ring \<Rightarrow> onic_tx_buffer list \<Rightarrow> bool" where
  "bufs_ok n r bs \<longleftrightarrow> ring_ok n r \<and> length bs = n \<and>
     (\<forall>i<n. busy (bs ! i) \<longleftrightarrow> i \<in> slot n r ` {..<occupied n r})"

lemma bufs_ok_head: "bufs_ok n r bs \<Longrightarrow> \<not> busy (bs ! ring_head r)"
proof
  assume a: "bufs_ok n r bs" "busy (bs ! ring_head r)"
  then have ok: "ring_ok n r" "ring_head r < n" by (auto simp: bufs_ok_def ring_ok_def)
  with a obtain k where "k < occupied n r" "slot n r k = slot n r (occupied n r)"
    by (auto simp: bufs_ok_def slot_occupied)
  then show False using slot_inj [OF ok(1), of k "occupied n r"] occupied_less [OF ok(1)] by auto
qed

lemma bufs_ok_tail: "bufs_ok n r bs \<Longrightarrow> ring_head r \<noteq> ring_tail r \<Longrightarrow> busy (bs ! ring_tail r)"
proof -
  assume a: "bufs_ok n r bs" "ring_head r \<noteq> ring_tail r"
  then have ok: "ring_ok n r" "ring_tail r < n" by (auto simp: bufs_ok_def ring_ok_def)
  then have "0 < occupied n r" using a(2) occupied_0 [OF ok(1)] by auto
  then have "ring_tail r \<in> slot n r ` {..<occupied n r}" using slot_0 [OF ok(1)] by (metis imageI lessThan_iff)
  then show ?thesis using a(1) ok(2) by (simp add: bufs_ok_def)
qed

text \<open>So the buffers hold exactly the entries of the queue.\<close>

lemma busy_bufs_contents:
  assumes "bufs_ok n r bs"
  shows "busy_bufs bs = mset (contents n r bs)"
proof -
  have ok: "ring_ok n r" "length bs = n" using assms by (simp_all add: bufs_ok_def)
  have "mset bs = image_mset ((!) bs) (mset_set {..<n})"
    using ok(2) by (metis atLeast0LessThan map_nth mset_map mset_upt)
  moreover have "{i \<in> {..<n}. busy (bs ! i)} = slot n r ` {..<occupied n r}"
    using assms slot_less [OF ok(1)] by (auto simp: bufs_ok_def)
  ultimately have "busy_bufs bs = image_mset ((!) bs) (mset_set (slot n r ` {..<occupied n r}))"
    by (simp add: busy_bufs_def filter_mset_image_mset comp_def)
  also have "\<dots> = image_mset ((!) bs) (image_mset (slot n r) (mset_set {..<occupied n r}))"
    using occupied_less [OF ok(1)] slot_inj [OF ok(1)] by (subst image_mset_mset_set) (auto simp: inj_on_def)
  finally show ?thesis by (simp add: contents_def multiset.map_comp comp_def flip: atLeast0LessThan)
qed

lemma bufs_contents:
  assumes "bufs_ok n r bs"
  shows "skbs bs = mset (map tb_skb (contents n r bs))" "dmas bs = mset (map tb_dma_addr (contents n r bs))"
  by (simp_all add: skbs_def dmas_def busy_bufs_contents [OF assms])

context ring_ops
begin

lemma bufs_ok_push:
  assumes "bufs_ok (unat (real_count r)) r bs" "\<not> full r" "busy x"
  shows "bufs_ok (unat (real_count r)) (push r) (bs[ring_head r := x])"
proof -
  let ?n = "unat (real_count r)"
  have ok: "ring_ok ?n r" "length bs = ?n" using assms(1) by (simp_all add: bufs_ok_def)
  have "busy (bs[ring_head r := x] ! i) \<longleftrightarrow> i \<in> slot ?n (push r) ` {..<occupied ?n (push r)}" if i: "i < ?n" for i
    using assms i ok slots_push [OF ok(1)] by (cases "i = ring_head r") (simp_all add: bufs_ok_def)
  then show ?thesis using ok push_ok [OF ok(1)] by (simp add: bufs_ok_def)
qed

lemma bufs_ok_pop:
  assumes "bufs_ok (unat (real_count r)) r bs" "ring_head r \<noteq> ring_tail r" "\<not> busy x"
  shows "bufs_ok (unat (real_count r)) (pop r) (bs[ring_tail r := x])"
proof -
  let ?n = "unat (real_count r)"
  have ok: "ring_ok ?n r" "length bs = ?n" using assms(1) by (simp_all add: bufs_ok_def)
  have "busy (bs[ring_tail r := x] ! i) \<longleftrightarrow> i \<in> slot ?n (pop r) ` {..<occupied ?n (pop r)}" if i: "i < ?n" for i
    using assms i ok slots_pop [OF ok(1) assms(2)] by (cases "i = ring_tail r") (simp_all add: bufs_ok_def)
  then show ?thesis using ok pop_ok [OF ok(1)] by (simp add: bufs_ok_def)
qed

end

end
