(* ===== verification/Vf_Tx.thy ===== *)
theory Vf_Tx
  imports Vf_Qdma Qdma_Export Packets
begin

text \<open>
  Transmit completion of the VF (\<^verbatim>\<open>onic_vf_qdma.c\<close>, lines 263 to 356). A function that gets a pointer to a
  queue works on the queue as a value and returns it; \<open>onic_vf_tx_clean\<close> stores it back in the table. Bit 0 of
  the state keeps two runs from cleaning the same queue.
\<close>

definition set_tx_queue :: "nat \<Rightarrow> onic_tx_queue option \<Rightarrow> unit onic" where
  "set_tx_queue i q = upd_priv (pr_tx_queue_update (\<lambda>t. t(i := q)))"

definition zero_wb_stat :: qdma_wb_stat where
  "zero_wb_stat = \<lparr>wb_pidx = 0, wb_cidx = 0\<rparr>"

definition release_buffer :: "onic_tx_buffer \<Rightarrow> ('z, unit) drv" where
  "release_buffer buf = do {
     invoke (Skb (Dma_unmap_single (tb_dma_addr buf) (tb_len buf)));
     invoke (Skb (Dev_kfree_skb (tb_skb buf))) }"

text \<open>The loop of \<^verbatim>\<open>onic_vf_tx_clean\<close>: \<open>n\<close> is \<^verbatim>\<open>real_count - work\<close>; an entry of another type is only logged.\<close>

fun tx_reap :: "nat \<Rightarrow> u16 \<Rightarrow> onic_tx_queue \<Rightarrow> nat \<Rightarrow> ('z, nat \<times> onic_tx_queue) drv" where
  "tx_reap 0 cidx q work = ret (work, q)"
| "tx_reap (Suc n) cidx q work =
     (if ring_next_to_clean (tq_ring q) = cidx then ret (work, q)
      else do {
        let i = ring_tail (tq_ring q);
        let buf = tq_buffer q ! i;
        (if tb_type buf = ONIC_TX_SKB \<and> tb_skb buf \<noteq> 0 then release_buffer buf else ret ());
        tx_reap n cidx (q\<lparr>tq_buffer := (tq_buffer q)[i := zero_tx_buffer],
                         tq_ring := onic_vf_ring_increment_clean (tq_ring q)\<rparr>) (Suc work) })"

text \<open>A run with work pending but none done reads the doorbell back, for the log.\<close>

definition tx_clean_queue :: "onic_tx_queue \<Rightarrow> onic_tx_queue onic" where
  "tx_clean_queue q =
     (if ring_wb (tq_ring q) = 0 \<or> tq_buffer_ptr q = 0 then ret q
      else if bit (tq_state q) 0 then ret q
      else do {
        let q = q\<lparr>tq_state := set_bit 0 (tq_state q)\<rparr>;
        wb \<leftarrow> qdma_unpack_wb_stat zero_wb_stat (ring_wb (tq_ring q)) 0;
        (work, q) \<leftarrow> tx_reap (unat (onic_vf_ring_real_count (tq_ring q))) (wb_cidx wb) q 0;
        (if work = 0 \<and> ring_next_to_use (tq_ring q) \<noteq> ring_next_to_clean (tq_ring q) then do {
           _ \<leftarrow> onic_vf_read_bar0 (QDMA_OFFSET_VF_DMAP_SEL_H2C_DESC_PIDX + ucast (tq_qid q) * 16);
           ret () }
         else ret ());
        ret (q\<lparr>tq_state := unset_bit 0 (tq_state q)\<rparr>) })"

definition onic_vf_tx_clean :: "nat \<Rightarrow> unit onic" where
  "onic_vf_tx_clean i = do {
     p \<leftarrow> get_priv;
     case pr_tx_queue p i of
       None \<Rightarrow> ret ()
     | Some q \<Rightarrow> do { q' \<leftarrow> tx_clean_queue q; set_tx_queue i (Some q') } }"

definition onic_vf_release_pending_tx :: "onic_tx_queue \<Rightarrow> onic_tx_queue onic" where
  "onic_vf_release_pending_tx q =
     (if tq_buffer_ptr q = 0 then ret q
      else do {
        q \<leftarrow> tx_clean_queue q;
        for_each_acc [0..<unat (onic_vf_ring_real_count (tq_ring q))] (\<lambda>i q.
          let buf = tq_buffer q ! i
          in if tb_type buf \<noteq> ONIC_TX_SKB \<or> tb_skb buf = 0 then ret q
             else do {
               release_buffer buf;
               ret (q\<lparr>tq_buffer := (tq_buffer q)[i := zero_tx_buffer]\<rparr>) }) q })"

section \<open>What the loop does\<close>

lemma io_only_tx_reap [io_intro]: "io_only (tx_reap n cidx q work)"
  by (induction n cidx q work rule: tx_reap.induct) (auto simp: release_buffer_def intro!: io_intro)

lemma io_only_tx_clean_queue [io_intro]: "io_only (tx_clean_queue q)"
  unfolding tx_clean_queue_def by (auto intro!: io_intro split: prod.splits)

lemma io_only_release_pending [io_intro]: "io_only (onic_vf_release_pending_tx q)"
  unfolding onic_vf_release_pending_tx_def release_buffer_def by (auto intro!: io_intro)

text \<open>
  \<open>tx_moves W q q' d d'\<close>: the packets and mappings that left the buffers of \<open>q\<close> were released, each once, and
  nothing else was; only the ring index, the buffers and the lock bit may differ.
\<close>

definition tx_same :: "onic_tx_queue \<Rightarrow> onic_tx_queue \<Rightarrow> bool" where
  "tx_same q q' \<longleftrightarrow> tq_self q' = tq_self q \<and> tq_qid q' = tq_qid q \<and> tq_buffer_ptr q' = tq_buffer_ptr q \<and>
     tq_vector q' = tq_vector q \<and> length (tq_buffer q') = length (tq_buffer q) \<and>
     (tq_ring q')\<lparr>ring_next_to_clean := 0\<rparr> = (tq_ring q)\<lparr>ring_next_to_clean := 0\<rparr>"

lemma tx_same_refl [simp]: "tx_same q q"
  by (simp add: tx_same_def)

lemma tx_same_trans: "tx_same q q1 \<Longrightarrow> tx_same q1 q2 \<Longrightarrow> tx_same q q2"
  by (simp add: tx_same_def)

definition released :: "onic_tx_queue \<Rightarrow> onic_tx_queue \<Rightarrow> packets \<Rightarrow> packets \<Rightarrow> bool" where
  "released q q' d d' \<longleftrightarrow> pk_freed d' + skbs (tq_buffer q') = pk_freed d + skbs (tq_buffer q) \<and>
     pk_unmapped d' + dmas (tq_buffer q') = pk_unmapped d + dmas (tq_buffer q) \<and> pk_mapped d' = pk_mapped d"

lemma released_refl [simp]: "released q q d d"
  by (simp add: released_def)

lemma released_trans: "released q q1 d d1 \<Longrightarrow> released q1 q2 d1 d2 \<Longrightarrow> released q q2 d d2"
  unfolding released_def by (metis (no_types, lifting) add.assoc add.commute)

lemma released_buffer:
  "tq_buffer q1 = tq_buffer q \<Longrightarrow> released q1 q' d d' = released q q' d d'"
  "tq_buffer q1' = tq_buffer q' \<Longrightarrow> released q q1' d d' = released q q' d d'"
  by (simp_all add: released_def)

text \<open>Clearing one entry, with the calls that release it.\<close>

lemma released_entry:
  assumes "i < length (tq_buffer q)" "tq_buffer q' = (tq_buffer q)[i := zero_tx_buffer]" "busy (tq_buffer q ! i)"
  shows "released q q' d (packets_step (Skb (Dev_kfree_skb (tb_skb (tq_buffer q ! i))), r2)
     (packets_step (Skb (Dma_unmap_single (tb_dma_addr (tq_buffer q ! i)) n), r1) d))"
  using bufs_clear [OF assms(1)] assms(2,3) by (simp add: released_def packets_step_def)

lemma released_idle:
  assumes "i < length (tq_buffer q)" "tq_buffer q' = (tq_buffer q)[i := zero_tx_buffer]" "\<not> busy (tq_buffer q ! i)"
  shows "released q q' d d"
  using bufs_clear [OF assms(1)] assms(2,3) by (simp add: released_def)

lemma release_buffer_run:
  assumes "run_state (release_buffer b) s = ((), s')"
  obtains r1 r2 where "packets (trace s') = packets_step (Skb (Dev_kfree_skb (tb_skb b)), r2)
    (packets_step (Skb (Dma_unmap_single (tb_dma_addr b) (tb_len b)), r1) (packets (trace s)))"
proof -
  from assms have "\<exists>r1 r2. trace s' =
      trace s @ [(Skb (Dma_unmap_single (tb_dma_addr b) (tb_len b)), r1), (Skb (Dev_kfree_skb (tb_skb b)), r2)]"
    unfolding release_buffer_def by (auto simp: run_simps)
  then show thesis by (elim exE) (rule that, simp only: pk.view_append fold_simps)
qed

lemma tx_reap_released:
  assumes "run_state (tx_reap n cidx q work) s = ((w, q'), s')" "ring_tail (tq_ring q) < length (tq_buffer q)"
    "length (tq_buffer q) = unat (onic_vf_ring_real_count (tq_ring q))" "ring_head (tq_ring q) < length (tq_buffer q)"
  shows "tx_same q q' \<and> tq_state q' = tq_state q \<and> ring_tail (tq_ring q') < length (tq_buffer q') \<and>
    released q q' (packets (trace s)) (packets (trace s'))"
  using assms
proof (induction n cidx q work arbitrary: s rule: tx_reap.induct)
  case (1 cidx q work)
  then show ?case by auto
next
  case (2 n cidx q work)
  let ?r = "tq_ring q" and ?i = "ring_tail (tq_ring q)"
  let ?q1 = "q\<lparr>tq_buffer := (tq_buffer q)[?i := zero_tx_buffer], tq_ring := onic_vf_ring_increment_clean ?r\<rparr>"
  show ?case
  proof (cases "ring_next_to_clean ?r = cidx")
    case True
    then show ?thesis using 2(2,3) by auto
  next
    case False
    have ok: "ring_ok (unat (onic_vf_tx_ring_real_count ?r)) ?r"
      using 2(3,4,5) by (simp add: ring_ok_def onic_vf_tx_ring_real_count_def onic_vf_ring_real_count_def)
    let ?b = "tq_buffer q ! ?i"
    let ?m = "if tb_type ?b = ONIC_TX_SKB \<and> tb_skb ?b \<noteq> 0 then release_buffer ?b else ret ()"
    obtain s1 where m: "run_state ?m s = ((), s1)" by (cases "run_state ?m s") auto
    have run: "run_state (tx_reap n cidx ?q1 (Suc work)) s1 = ((w, q'), s')"
      using 2(2) False m by (simp add: Let_def)
    have rel: "released q ?q1 (packets (trace s)) (packets (trace s1))"
    proof (cases "busy ?b")
      case True
      then have "run_state (release_buffer ?b) s = ((), s1)" using m by (simp add: busy_def)
      then obtain r1 r2 where p: "packets (trace s1) = packets_step (Skb (Dev_kfree_skb (tb_skb ?b)), r2)
          (packets_step (Skb (Dma_unmap_single (tb_dma_addr ?b) (tb_len ?b)), r1) (packets (trace s)))"
        by (rule release_buffer_run)
      show ?thesis unfolding p by (rule released_entry [OF 2(3) _ True]) simp
    next
      case False
      then have "s1 = s" using m by (auto simp: busy_def split: if_splits)
      then show ?thesis using released_idle [OF 2(3) _ False, of ?q1] by simp
    qed
    have ring1: "tq_ring ?q1 = ?r\<lparr>ring_next_to_clean := of_nat (Suc ?i mod unat (onic_vf_tx_ring_real_count ?r))\<rparr>"
      by (simp add: vf_ring.pop [OF ok])
    have "ring_ok (unat (onic_vf_tx_ring_real_count ?r)) (onic_vf_ring_increment_clean ?r)"
      using vf_ring.pop_ok [OF ok] .
    then have "tx_same ?q1 q' \<and> tq_state q' = tq_state ?q1 \<and> ring_tail (tq_ring q') < length (tq_buffer q') \<and>
        released ?q1 q' (packets (trace s1)) (packets (trace s'))"
      using 2(4) ring1 by (intro 2(1) [OF False refl refl run])
        (simp_all add: ring_ok_def onic_vf_tx_ring_real_count_def onic_vf_ring_real_count_def)
    then show ?thesis
      using rel ring1 by (auto simp: tx_same_def intro: released_trans)
  qed
qed

text \<open>With a consumer index between tail and head, the first \<open>k\<close> entries of the queue leave it.\<close>

abbreviation vf_entries :: "onic_tx_queue \<Rightarrow> nat" where
  "vf_entries q \<equiv> unat (onic_vf_tx_ring_real_count (tq_ring q))"

definition vf_txq_ok :: "onic_tx_queue \<Rightarrow> bool" where
  "vf_txq_ok q \<longleftrightarrow> bufs_ok (vf_entries q) (tq_ring q) (tq_buffer q) \<and> ring_wb (tq_ring q) \<noteq> 0 \<and> tq_buffer_ptr q \<noteq> 0"

definition vf_pending :: "onic_tx_queue \<Rightarrow> onic_tx_buffer list" where
  "vf_pending q = contents (vf_entries q) (tq_ring q) (tq_buffer q)"

lemma real_count_clean [simp]:
  "onic_vf_tx_ring_real_count (onic_vf_ring_increment_clean r) = onic_vf_tx_ring_real_count r"
  "ring_wb (onic_vf_ring_increment_clean r) = ring_wb r"
  by (simp_all add: onic_vf_ring_increment_clean_def onic_vf_tx_ring_real_count_def Let_def)

lemma tx_reap_fifo:
  assumes "run_state (tx_reap n cidx q work) s = ((w, q'), s')" "vf_txq_ok q"
    "unat cidx = slot (vf_entries q) (tq_ring q) k" "k \<le> occupied (vf_entries q) (tq_ring q)" "k \<le> n"
  shows "w = work + k \<and> vf_txq_ok q' \<and> vf_pending q' = drop k (vf_pending q) \<and> ring_next_to_clean (tq_ring q') = cidx"
  using assms
proof (induction n cidx q work arbitrary: s k rule: tx_reap.induct)
  case (1 cidx q work)
  then have "unat cidx = ring_tail (tq_ring q)" by (simp add: vf_txq_ok_def bufs_ok_def slot_0)
  then have "cidx = ring_next_to_clean (tq_ring q)" by (rule unsigned_word_eqI)
  then show ?case using 1 by simp
next
  case (2 n cidx q work)
  let ?r = "tq_ring q" and ?i = "ring_tail (tq_ring q)" and ?n = "vf_entries q"
  let ?q1 = "q\<lparr>tq_buffer := (tq_buffer q)[?i := zero_tx_buffer], tq_ring := onic_vf_ring_increment_clean ?r\<rparr>"
  have ok: "bufs_ok ?n ?r (tq_buffer q)" "ring_ok ?n ?r" using 2(3) by (simp_all add: vf_txq_ok_def bufs_ok_def)
  have k: "k < ?n" using 2(5) occupied_less [OF ok(2)] by simp
  show ?case
  proof (cases "ring_next_to_clean ?r = cidx")
    case True
    then have "slot ?n ?r k = slot ?n ?r 0" using 2(4) slot_0 [OF ok(2)] by simp
    then have "k = 0" using slot_inj [OF ok(2), of k 0] k by simp
    with True show ?thesis using 2(2,3) by simp
  next
    case False
    then have "unat cidx \<noteq> ring_tail ?r" by (metis unsigned_word_eqI)
    then have "k \<noteq> 0" using 2(4) slot_0 [OF ok(2)] by metis
    then obtain j where j: "k = Suc j" by (cases k) auto
    then have ne: "ring_head ?r \<noteq> ring_tail ?r" using 2(5) occupied_0 [OF ok(2)] by auto
    let ?m = "if tb_type (tq_buffer q ! ?i) = ONIC_TX_SKB \<and> tb_skb (tq_buffer q ! ?i) \<noteq> 0
      then release_buffer (tq_buffer q ! ?i) else ret ()"
    obtain s1 where "run_state ?m s = ((), s1)" by (cases "run_state ?m s") auto
    then have run: "run_state (tx_reap n cidx ?q1 (Suc work)) s1 = ((w, q'), s')"
      using 2(2) False by (simp add: Let_def)
    have ok1: "vf_txq_ok ?q1" using vf_ring.bufs_ok_pop [OF ok(1) ne not_busy_zero] 2(3) by (simp add: vf_txq_ok_def)
    have pending: "vf_pending ?q1 = tl (vf_pending q)"
      using vf_ring.contents_pop [OF ok(2) ne, of "tq_buffer q"] vf_ring.contents_pop_cleared [OF ok(2) ne]
      by (simp add: vf_pending_def)
    have "w = Suc work + j \<and> vf_txq_ok q' \<and> vf_pending q' = drop j (vf_pending ?q1) \<and> ring_next_to_clean (tq_ring q') = cidx"
      by (rule 2(1) [OF False refl refl run ok1])
        (use 2(4-6) j vf_ring.slot_pop [OF ok(2)] vf_ring.occupied_pop [OF ok(2) ne] in simp_all)
    then show ?thesis using pending j by (simp add: drop_Suc)
  qed
qed

section \<open>Cleaning a queue\<close>

text \<open>The two loads of the status entry: the index the card reports.\<close>

definition wb_cidx_read :: "drv_state \<Rightarrow> onic_tx_queue \<Rightarrow> u16" where
  "wb_cidx_read s q = wb_cidx (fst (run_state (qdma_unpack_wb_stat zero_wb_stat (ring_wb (tq_ring q)) 0) s))"

text \<open>The pieces of a run that cleans.\<close>

lemma tx_clean_queue_run:
  assumes "run_state (tx_clean_queue q) s = (q', s')"
  obtains (skip) "q' = q" "s' = s" "ring_wb (tq_ring q) = 0 \<or> tq_buffer_ptr q = 0 \<or> bit (tq_state q) 0"
  | (clean) w q1 s1 s2 where "ring_wb (tq_ring q) \<noteq> 0" "tq_buffer_ptr q \<noteq> 0" "\<not> bit (tq_state q) 0"
      "packets (trace (s1 :: drv_state)) = packets (trace s)"
      "run_state (tx_reap (unat (onic_vf_ring_real_count (tq_ring q))) (wb_cidx_read s q)
         (q\<lparr>tq_state := set_bit 0 (tq_state q)\<rparr>) 0) s1 = ((w, q1), s2)"
      "q' = q1\<lparr>tq_state := unset_bit 0 (tq_state q1)\<rparr>" "packets (trace s') = packets (trace s2)"
proof (cases "ring_wb (tq_ring q) = 0 \<or> tq_buffer_ptr q = 0 \<or> bit (tq_state q) 0")
  case True
  with assms show thesis by (intro skip) (auto simp: tx_clean_queue_def split: if_splits)
next
  case False
  let ?q = "q\<lparr>tq_state := set_bit 0 (tq_state q)\<rparr>"
  obtain wb s1 where 1: "run_state (qdma_unpack_wb_stat zero_wb_stat (ring_wb (tq_ring q)) 0) s = (wb, s1)"
    by (metis prod.collapse)
  obtain w q1 s2 where 2: "run_state (tx_reap (unat (onic_vf_ring_real_count (tq_ring q))) (wb_cidx wb) ?q 0) s1 = ((w, q1), s2)"
    by (metis prod.collapse)
  let ?m = "if w = 0 \<and> ring_next_to_use (tq_ring q1) \<noteq> ring_next_to_clean (tq_ring q1) then do {
           _ \<leftarrow> onic_vf_read_bar0 (QDMA_OFFSET_VF_DMAP_SEL_H2C_DESC_PIDX + ucast (tq_qid q1) * 16); ret () } else ret ()"
  obtain s3 where 3: "run_state ?m s2 = ((), s3)" by (cases "run_state ?m s2") auto
  have wb: "wb_cidx wb = wb_cidx_read s q" by (simp add: wb_cidx_read_def 1)
  have "q' = q1\<lparr>tq_state := unset_bit 0 (tq_state q1)\<rparr>" "s' = s3"
    using assms False 1 2 3 by (auto simp: tx_clean_queue_def Let_def)
  moreover have "packets (trace s1) = packets (trace s)"
    by (rule packets_io [OF io_only_unpack_wb emits_unpack_wb 1]) simp
  moreover have "packets (trace s3) = packets (trace s2)"
    by (rule packets_io [OF _ _ 3]) (auto intro!: io_intro triple_intro)
  ultimately show thesis using False 2 unfolding wb by (intro clean [where ?s1.0 = s1 and ?s2.0 = s2 and w = w]) auto
qed

lemma tx_clean_queue_released:
  assumes "run_state (tx_clean_queue q) s = (q', s')" "ring_tail (tq_ring q) < length (tq_buffer q)"
    "length (tq_buffer q) = unat (onic_vf_ring_real_count (tq_ring q))" "ring_head (tq_ring q) < length (tq_buffer q)"
  shows "tx_same q q' \<and> tq_state q' = tq_state q \<and> ring_tail (tq_ring q') < length (tq_buffer q') \<and>
    released q q' (packets (trace s)) (packets (trace s'))"
  using assms(1)
proof (cases rule: tx_clean_queue_run)
  case skip
  with assms show ?thesis by simp
next
  case (clean w q1 s1 s2)
  let ?q = "q\<lparr>tq_state := set_bit 0 (tq_state q)\<rparr>"
  have r: "tx_same ?q q1 \<and> tq_state q1 = tq_state ?q \<and> ring_tail (tq_ring q1) < length (tq_buffer q1) \<and>
      released ?q q1 (packets (trace s1)) (packets (trace s2))"
    by (rule tx_reap_released [OF clean(5)]) (use assms in simp_all)
  have st: "unset_bit 0 (set_bit 0 (tq_state q)) = tq_state q" using clean(3) by (rule unset_set_bit_0)
  have "tx_same q q'" using r by (simp add: tx_same_def clean(6))
  then show ?thesis using r st clean(4,6,7) by (simp add: released_def)
qed

lemma tx_clean_queue_fifo:
  assumes "run_state (tx_clean_queue q) s = (q', s')" "vf_txq_ok q" "\<not> bit (tq_state q) 0"
    "unat (wb_cidx_read s q) = slot (vf_entries q) (tq_ring q) k" "k \<le> occupied (vf_entries q) (tq_ring q)"
  shows "vf_txq_ok q' \<and> vf_pending q' = drop k (vf_pending q) \<and> ring_next_to_clean (tq_ring q') = wb_cidx_read s q"
  using assms(1)
proof (cases rule: tx_clean_queue_run)
  case skip
  with assms show ?thesis by (simp add: vf_txq_ok_def)
next
  case (clean w q1 s1 s2)
  let ?q = "q\<lparr>tq_state := set_bit 0 (tq_state q)\<rparr>"
  have "k < vf_entries q" using assms(2,5) occupied_less [of "vf_entries q" "tq_ring q"]
    by (auto simp: vf_txq_ok_def bufs_ok_def)
  then have "w = 0 + k \<and> vf_txq_ok q1 \<and> vf_pending q1 = drop k (vf_pending ?q) \<and>
      ring_next_to_clean (tq_ring q1) = wb_cidx_read s q"
    using assms(2,4,5) by (intro tx_reap_fifo [OF clean(5)])
      (simp_all add: vf_txq_ok_def onic_vf_ring_real_count_def onic_vf_tx_ring_real_count_def)
  then show ?thesis by (simp add: clean(6) vf_txq_ok_def vf_pending_def)
qed

lemma emits_tx_reap:
  "(\<And>a n r. P (Skb (Dma_unmap_single a n), r)) \<Longrightarrow> (\<And>k r. P (Skb (Dev_kfree_skb k), r)) \<Longrightarrow> emits P (tx_reap n cidx q work)"
  by (induction n cidx q work rule: tx_reap.induct) (auto simp: release_buffer_def intro!: triple_intro)

lemma emits_tx_clean_queue:
  assumes "\<And>a n r. P (Skb (Dma_unmap_single a n), r)" "\<And>k r. P (Skb (Dev_kfree_skb k), r)"
    "\<And>b off r. P (Mem (Dma_read64 b off), r)" "\<And>c r. P (Io c, r)"
  shows "emits P (tx_clean_queue q)"
  unfolding tx_clean_queue_def by (auto intro!: triple_intro emits_tx_reap emits_unpack_wb simp: assms split: prod.splits)

section \<open>Releasing what is pending\<close>

definition release_entry :: "nat \<Rightarrow> onic_tx_queue \<Rightarrow> ('z, onic_tx_queue) drv" where
  "release_entry i q =
     (let buf = tq_buffer q ! i
      in if tb_type buf \<noteq> ONIC_TX_SKB \<or> tb_skb buf = 0 then ret q
         else do {
           release_buffer buf;
           ret (q\<lparr>tq_buffer := (tq_buffer q)[i := zero_tx_buffer]\<rparr>) })"

lemma release_entry_run:
  assumes "run_state (release_entry i q) s = (q', s')" "i < length (tq_buffer q)"
  shows "tx_same q q' \<and> tq_state q' = tq_state q \<and> tq_ring q' = tq_ring q \<and>
    (tq_buffer q' = tq_buffer q \<and> \<not> busy (tq_buffer q ! i) \<or> tq_buffer q' = (tq_buffer q)[i := zero_tx_buffer]) \<and>
    released q q' (packets (trace s)) (packets (trace s'))"
proof (cases "busy (tq_buffer q ! i)")
  case False
  with assms show ?thesis by (auto simp: release_entry_def busy_def split: if_splits)
next
  case True
  let ?q = "q\<lparr>tq_buffer := (tq_buffer q)[i := zero_tx_buffer]\<rparr>"
  obtain s1 where 1: "run_state (release_buffer (tq_buffer q ! i)) s = ((), s1)"
    by (cases "run_state (release_buffer (tq_buffer q ! i)) s") auto
  with True assms(1) have q: "q' = ?q" "s' = s1" by (auto simp: release_entry_def busy_def Let_def)
  from 1 obtain r1 r2 where p: "packets (trace s1) = packets_step (Skb (Dev_kfree_skb (tb_skb (tq_buffer q ! i))), r2)
     (packets_step (Skb (Dma_unmap_single (tb_dma_addr (tq_buffer q ! i)) (tb_len (tq_buffer q ! i))), r1) (packets (trace s)))"
    by (rule release_buffer_run)
  have "released q ?q (packets (trace s)) (packets (trace s1))"
    unfolding p by (rule released_entry [OF assms(2) _ True]) simp
  then show ?thesis unfolding q by (simp add: tx_same_def)
qed

lemma release_loop:
  assumes "run_state (for_each_acc xs release_entry q) s = (q', s')" "\<forall>i\<in>set xs. i < length (tq_buffer q)"
  shows "tx_same q q' \<and> released q q' (packets (trace s)) (packets (trace s')) \<and>
    (\<forall>i<length (tq_buffer q). busy (tq_buffer q' ! i) \<longrightarrow> busy (tq_buffer q ! i) \<and> i \<notin> set xs)"
  using assms
proof (induction xs arbitrary: q s)
  case Nil
  then show ?case by auto
next
  case (Cons x xs)
  obtain q1 s1 where 1: "run_state (release_entry x q) s = (q1, s1)" by (cases "run_state (release_entry x q) s")
  with Cons.prems(1) have 2: "run_state (for_each_acc xs release_entry q1) s1 = (q', s')" by simp
  from release_entry_run [OF 1] Cons.prems(2) have a: "tx_same q q1" "released q q1 (packets (trace s)) (packets (trace s1))"
    "tq_buffer q1 = tq_buffer q \<and> \<not> busy (tq_buffer q ! x) \<or> tq_buffer q1 = (tq_buffer q)[x := zero_tx_buffer]" by auto
  then have len: "length (tq_buffer q1) = length (tq_buffer q)" by auto
  from Cons.IH [OF 2] Cons.prems(2) have b: "tx_same q1 q'" "released q1 q' (packets (trace s1)) (packets (trace s'))"
    "\<forall>i<length (tq_buffer q). busy (tq_buffer q' ! i) \<longrightarrow> busy (tq_buffer q1 ! i) \<and> i \<notin> set xs" by (auto simp: len)
  have "busy (tq_buffer q1 ! i) \<longrightarrow> busy (tq_buffer q ! i) \<and> i \<noteq> x" if "i < length (tq_buffer q)" for i
    using a(3) that by (cases "i = x") auto
  with a b show ?case by (auto intro: tx_same_trans released_trans)
qed

lemma no_busy_none: "(\<And>i. i < length bs \<Longrightarrow> \<not> busy (bs ! i)) \<Longrightarrow> skbs bs = {#} \<and> dmas bs = {#}"
  by (simp add: skbs_def dmas_def busy_bufs_def flip: mset_filter) (auto simp: filter_empty_conv in_set_conv_nth)

lemma release_pending_released:
  assumes "run_state (onic_vf_release_pending_tx q) s = (q', s')" "tq_buffer_ptr q \<noteq> 0"
    "ring_tail (tq_ring q) < length (tq_buffer q)"
    "length (tq_buffer q) = unat (onic_vf_ring_real_count (tq_ring q))" "ring_head (tq_ring q) < length (tq_buffer q)"
  shows "tx_same q q' \<and> released q q' (packets (trace s)) (packets (trace s')) \<and>
    skbs (tq_buffer q') = {#} \<and> dmas (tq_buffer q') = {#}"
proof -
  obtain q1 s1 where 1: "run_state (tx_clean_queue q) s = (q1, s1)" by (metis prod.collapse)
  from tx_clean_queue_released [OF 1 assms(3-5)] have a: "tx_same q q1" "released q q1 (packets (trace s)) (packets (trace s1))"
    by simp_all
  then have len: "length (tq_buffer q1) = unat (onic_vf_ring_real_count (tq_ring q1))"
    using assms(4) by (cases "tq_ring q"; cases "tq_ring q1") (simp add: tx_same_def onic_vf_ring_real_count_def)
  have 2: "run_state (for_each_acc [0..<unat (onic_vf_ring_real_count (tq_ring q1))] release_entry q1) s1 = (q', s')"
    using assms(1,2) 1 by (simp add: onic_vf_release_pending_tx_def release_entry_def [abs_def])
  from release_loop [OF 2] len have b: "tx_same q1 q'" "released q1 q' (packets (trace s1)) (packets (trace s'))"
    "\<forall>i<length (tq_buffer q'). \<not> busy (tq_buffer q' ! i)" by (auto simp: tx_same_def)
  then have "skbs (tq_buffer q') = {#} \<and> dmas (tq_buffer q') = {#}" by (intro no_busy_none) auto
  with a b show ?thesis by (auto intro: tx_same_trans released_trans)
qed

end
