(* ===== verification/Stats.thy ===== *)
theory Stats
  imports Onic
begin

text \<open>
  The per-CPU statistics of a network device (\<^verbatim>\<open>struct rtnl_link_stats64\<close> from \<^verbatim>\<open>alloc_percpu\<close>), which the
  VF and the PF keep in the same way: a list indexed by the CPU, counted on the running CPU, summed on request.
\<close>

definition zero_stats :: link_stats where
  "zero_stats = \<lparr>st_rx_packets = 0, st_rx_bytes = 0, st_rx_errors = 0, st_rx_dropped = 0, st_tx_packets = 0,
     st_tx_bytes = 0, st_tx_errors = 0, st_tx_dropped = 0\<rparr>"

definition this_cpu :: "nat onic" where
  "this_cpu = do { r \<leftarrow> perform (Net This_cpu); ret (nat r) }"

definition count_stats :: "nat \<Rightarrow> (link_stats \<Rightarrow> link_stats) \<Rightarrow> onic_private \<Rightarrow> onic_private" where
  "count_stats cpu f = pr_netdev_stats_update (map_option (\<lambda>l. l[cpu := f (l ! cpu)]))"

definition upd_stats :: "nat \<Rightarrow> (link_stats \<Rightarrow> link_stats) \<Rightarrow> unit onic" where
  "upd_stats cpu f = upd_priv (count_stats cpu f)"

definition add_stats :: "link_stats \<Rightarrow> link_stats \<Rightarrow> link_stats" where
  "add_stats a b = \<lparr>st_rx_packets = st_rx_packets a + st_rx_packets b, st_rx_bytes = st_rx_bytes a + st_rx_bytes b,
     st_rx_errors = st_rx_errors a + st_rx_errors b, st_rx_dropped = st_rx_dropped a + st_rx_dropped b,
     st_tx_packets = st_tx_packets a + st_tx_packets b, st_tx_bytes = st_tx_bytes a + st_tx_bytes b,
     st_tx_errors = st_tx_errors a + st_tx_errors b, st_tx_dropped = st_tx_dropped a + st_tx_dropped b\<rparr>"

definition sum_stats :: "onic_private \<Rightarrow> link_stats" where
  "sum_stats p = (case pr_netdev_stats p of None \<Rightarrow> zero_stats | Some l \<Rightarrow> fold (\<lambda>pcpu st. add_stats st pcpu) l zero_stats)"

lemma run_this_cpu [run_simps]:
  "run_state this_cpu s = (nat (ext s (trace s) (Net This_cpu)),
     s\<lparr>trace := trace s @ [(Net This_cpu, ext s (trace s) (Net This_cpu))]\<rparr>)"
  by (simp add: this_cpu_def run_simps)

lemma run_upd_stats [run_simps]: "run_state (upd_stats cpu f) s = ((), s\<lparr>priv := count_stats cpu f (priv s)\<rparr>)"
  by (simp add: upd_stats_def run_simps)

lemma count_stats_sel [simp]:
  "pr_state (count_stats c f p) = pr_state p" "pr_xdp_prog (count_stats c f p) = pr_xdp_prog p"
  "pr_devfn (count_stats c f p) = pr_devfn p" "pr_flags (count_stats c f p) = pr_flags p"
  "pr_RS_FEC (count_stats c f p) = pr_RS_FEC p" "pr_num_q_vectors (count_stats c f p) = pr_num_q_vectors p"
  "pr_num_tx_queues (count_stats c f p) = pr_num_tx_queues p" "pr_num_rx_queues (count_stats c f p) = pr_num_rx_queues p"
  "pr_netdev (count_stats c f p) = pr_netdev p" "pr_q_vector (count_stats c f p) = pr_q_vector p"
  "pr_tx_queue (count_stats c f p) = pr_tx_queue p" "pr_rx_queue (count_stats c f p) = pr_rx_queue p"
  "pr_hw (count_stats c f p) = pr_hw p" "pr_vf_hw (count_stats c f p) = pr_vf_hw p"
  "pr_vf_res (count_stats c f p) = pr_vf_res p" "pr_num_vfs (count_stats c f p) = pr_num_vfs p"
  by (simp_all add: count_stats_def)

lemma emits_stats [triple_intro]: "emits P (upd_stats cpu f)" "(\<And>r. P (Net This_cpu, r)) \<Longrightarrow> emits P this_cpu"
  unfolding upd_stats_def this_cpu_def by (auto intro!: triple_intro)

lemma io_only_this_cpu [io_intro]: "io_only this_cpu"
  unfolding this_cpu_def by (intro io_intro)

lemma onic_rel_stats [onic_rel_intro]: "onic_rel V (\<lambda>a x y. y = (count_stats cpu f (fst x), snd x)) (upd_stats cpu f)"
  unfolding upd_stats_def by (rule onic_rel_upd)

section \<open>Sums\<close>

lemma add_stats_assoc: "add_stats (add_stats a b) c = add_stats a (add_stats b c)"
  by (simp add: add_stats_def add.assoc)

lemma add_stats_commute: "add_stats a b = add_stats b a"
  by (simp add: add_stats_def add.commute)

lemma add_stats_left_commute: "add_stats a (add_stats b c) = add_stats b (add_stats a c)"
  by (metis add_stats_assoc add_stats_commute)

lemma fold_stats: "fold (\<lambda>x st. add_stats st x) l (add_stats a b) = add_stats a (fold (\<lambda>x st. add_stats st x) l b)"
  by (induction l arbitrary: b) (simp_all add: add_stats_assoc)

lemma fold_stats_update:
  assumes "cpu < length l" "f (l ! cpu) = add_stats d (l ! cpu)"
  shows "fold (\<lambda>x st. add_stats st x) (l[cpu := f (l ! cpu)]) a = add_stats d (fold (\<lambda>x st. add_stats st x) l a)"
  using assms
proof (induction l arbitrary: cpu a)
  case (Cons x l)
  show ?case
  proof (cases cpu)
    case 0
    then show ?thesis using Cons.prems fold_stats [of l d "add_stats a x"] by (simp add: add_stats_left_commute)
  next
    case (Suc k)
    then show ?thesis using Cons by simp
  qed
qed simp

text \<open>Counting \<open>d\<close> on one CPU adds \<open>d\<close> to the sum.\<close>

lemma sum_stats_count:
  assumes "pr_netdev_stats p = Some l" "cpu < length l" "\<And>st. f st = add_stats d st"
  shows "sum_stats (count_stats cpu f p) = add_stats d (sum_stats p)"
  using assms fold_stats_update [of cpu l f d zero_stats] by (simp add: sum_stats_def count_stats_def)

end
