(* ===== verification/Vf_Rx.thy ===== *)
theory Vf_Rx
  imports Vf_Tx Stats "HOL-Library.Signed_Division"
begin

text \<open>
  The receive path of the VF (\<^verbatim>\<open>onic_vf_qdma.c\<close>, lines 358 to 480): the NAPI poll takes completions off
  the completion ring, hands the page of each packet to the stack and puts a fresh page in its place.
\<close>

definition set_rx_queue :: "nat \<Rightarrow> onic_rx_queue option \<Rightarrow> unit onic" where
  "set_rx_queue i q = upd_priv (pr_rx_queue_update (\<lambda>t. t(i := q)))"

definition zero_cmpl :: qdma_c2h_cmpl where
  "zero_cmpl = \<lparr>cmpl_color = 0, cmpl_err = 0, cmpl_pkt_len = 0, cmpl_pkt_id = 0\<rparr>"

definition zero_cmpl_stat :: qdma_c2h_cmpl_stat where
  "zero_cmpl_stat = \<lparr>cstat_pidx = 0, cstat_cidx = 0, cstat_color = 0, cstat_intr_state = 0\<rparr>"

text \<open>The difference is a C int; its remainder is stored in 16 bits.\<close>

definition unused_credit :: "onic_ring \<Rightarrow> u16" where
  "unused_credit r = of_int ((uint (ring_next_to_use r) + uint (onic_vf_ring_real_count r) - uint (ring_next_to_clean r))
     smod uint (onic_vf_ring_real_count r))"

definition onic_vf_rx_refill_credit :: "onic_rx_queue \<Rightarrow> onic_rx_queue onic" where
  "onic_vf_rx_refill_credit q =
     (let ring = rq_desc_ring q
      in if unat (unused_credit ring) \<ge> ONIC_VF_RX_DESC_STEP div 2 then ret q
         else do {
           let use = of_nat ((ring_head ring + ONIC_VF_RX_DESC_STEP) mod unat (onic_vf_ring_real_count ring));
           onic_vf_set_rx_head (rq_qid q) use;
           ret (q\<lparr>rq_desc_ring := ring\<lparr>ring_next_to_use := use\<rparr>\<rparr>) })"

text \<open>The check of a completion: color, error bit, and a length that fits behind the offset in the page.\<close>

definition bad_cmpl :: "onic_rx_queue \<Rightarrow> onic_rx_buffer \<Rightarrow> qdma_c2h_cmpl \<Rightarrow> bool" where
  "bad_cmpl q buf cmpl \<longleftrightarrow> cmpl_color cmpl \<noteq> ring_color (rq_cmpl_ring q) \<or> cmpl_err cmpl \<noteq> 0 \<or> cmpl_pkt_len cmpl = 0 \<or>
     (ucast (cmpl_pkt_len cmpl) :: u64) > of_nat PAGE_SIZE - ucast (rb_offset buf)"

text \<open>Both rings step over the entry; the color flips when the completion ring wraps.\<close>

definition rx_advance :: "onic_rx_queue \<Rightarrow> onic_rx_queue" where
  "rx_advance q =
     (let cr = onic_vf_ring_increment_clean (rq_cmpl_ring q)
      in q\<lparr>rq_desc_ring := onic_vf_ring_increment_clean (rq_desc_ring q),
           rq_cmpl_ring := (if ring_next_to_clean cr = 0 then cr\<lparr>ring_color := ring_color cr XOR 1\<rparr> else cr)\<rparr>)"

text \<open>One turn of the loop of \<^verbatim>\<open>onic_vf_rx_poll\<close>; None is a break.\<close>

definition rx_one :: "nat \<Rightarrow> onic_rx_queue \<Rightarrow> onic_rx_queue option onic" where
  "rx_one cpu q = do {
     let i = ring_tail (rq_desc_ring q);
     let buf = rq_buffer q ! i;
     cmpl \<leftarrow> qdma_unpack_c2h_cmpl zero_cmpl (ring_desc (rq_cmpl_ring q)) (QDMA_C2H_CMPL_SIZE * ring_tail (rq_cmpl_ring q));
     if bad_cmpl q buf cmpl then do {
       upd_stats cpu (st_rx_errors_update (\<lambda>n. n + 1));
       ret None }
     else do {
       new_pg \<leftarrow> perform (Page (Page_pool_alloc (rq_page_pool q)));
       if (of_int new_pg :: ptr) = 0 then do {
         upd_stats cpu (st_rx_dropped_update (\<lambda>n. n + 1));
         ret None }
       else do {
         a \<leftarrow> perform (Page (Page_pool_get_dma_addr (rb_pg buf)));
         invoke (Skb (Dma_sync_single_for_cpu (of_int a + ucast (rb_offset buf)) (ucast (cmpl_pkt_len cmpl))));
         va \<leftarrow> perform (Page (Page_address (rb_pg buf)));
         skb \<leftarrow> perform (Skb (Napi_build_skb (of_int va)));
         if (of_int skb :: ptr) = 0 then do {
           invoke (Page (Page_pool_put (rq_page_pool q) (of_int new_pg)));
           upd_stats cpu (st_rx_dropped_update (\<lambda>n. n + 1));
           ret None }
         else do {
           invoke (Skb (Skb_deliver (of_int skb) (unat (rb_offset buf)) (ucast (cmpl_pkt_len cmpl))));
           na \<leftarrow> perform (Page (Page_pool_get_dma_addr (of_int new_pg)));
           qdma_pack_c2h_st_desc (ring_desc (rq_desc_ring q)) (QDMA_C2H_ST_DESC_SIZE * i)
             \<lparr>c2h_dst_addr = of_int na + of_nat XDP_PACKET_HEADROOM\<rparr>;
           upd_stats cpu (\<lambda>st. st\<lparr>st_rx_packets := st_rx_packets st + 1,
             st_rx_bytes := st_rx_bytes st + ucast (cmpl_pkt_len cmpl)\<rparr>);
           invoke (Skb (Napi_gro_receive (of_int skb)));
           q' \<leftarrow> onic_vf_rx_refill_credit (rx_advance (q\<lparr>rq_buffer := (rq_buffer q)
             [i := buf\<lparr>rb_pg := of_int new_pg, rb_offset := of_nat XDP_PACKET_HEADROOM\<rparr>]\<rparr>));
           ret (Some q') } } } }"

text \<open>\<open>n\<close> is \<^verbatim>\<open>budget - work\<close>.\<close>

fun rx_poll_loop :: "nat \<Rightarrow> nat \<Rightarrow> u16 \<Rightarrow> onic_rx_queue \<Rightarrow> nat \<Rightarrow> (nat \<times> onic_rx_queue) onic" where
  "rx_poll_loop 0 cpu pidx q work = ret (work, q)"
| "rx_poll_loop (Suc n) cpu pidx q work =
     (if ring_next_to_clean (rq_cmpl_ring q) = pidx then ret (work, q)
      else do {
        r \<leftarrow> rx_one cpu q;
        case r of
          None \<Rightarrow> ret (work, q)
        | Some q' \<Rightarrow> rx_poll_loop n cpu pidx q' (Suc work) })"

definition onic_vf_rx_poll :: "nat \<Rightarrow> nat \<Rightarrow> nat onic" where
  "onic_vf_rx_poll i budget = do {
     p \<leftarrow> get_priv;
     case pr_rx_queue p i of
       None \<Rightarrow> ret 0
     | Some q \<Rightarrow> do {
         cpu \<leftarrow> this_cpu;
         (if rq_qid q < pr_num_tx_queues p then onic_vf_tx_clean (unat (rq_qid q)) else ret ());
         stat \<leftarrow> qdma_unpack_c2h_cmpl_stat zero_cmpl_stat (ring_wb (rq_cmpl_ring q)) 0;
         (work, q) \<leftarrow> rx_poll_loop budget cpu (cstat_pidx stat) q 0;
         set_rx_queue i (Some q);
         complete \<leftarrow> (if work < budget then do { r \<leftarrow> perform (Net (Napi_complete_done (unat (rq_qid q)) work)); ret (r \<noteq> 0) }
                     else ret False);
         onic_vf_set_completion_tail (rq_qid q) (ring_next_to_clean (rq_cmpl_ring q)) (if complete then 1 else 0);
         ret work } }"

definition onic_vf_rx_completion_pending :: "onic_rx_queue \<Rightarrow> bool onic" where
  "onic_vf_rx_completion_pending q =
     (if ring_wb (rq_cmpl_ring q) = 0 then ret False
      else do {
        stat \<leftarrow> qdma_unpack_c2h_cmpl_stat zero_cmpl_stat (ring_wb (rq_cmpl_ring q)) 0;
        ret (ring_next_to_clean (rq_cmpl_ring q) \<noteq> cstat_pidx stat) })"

section \<open>Credit\<close>

lemma int_smod: "int a smod int b = int (a mod b)"
  by (simp add: signed_modulo_int_def zmod_int sgn_if)

lemma unused_credit_occupied:
  assumes "ring_ok (unat (onic_vf_ring_real_count r)) r"
  shows "unat (unused_credit r) = occupied (unat (onic_vf_ring_real_count r)) r"
proof -
  let ?n = "unat (onic_vf_ring_real_count r)"
  have "uint (ring_next_to_use r) + uint (onic_vf_ring_real_count r) - uint (ring_next_to_clean r) =
      int (ring_head r + ?n - ring_tail r)"
    using assms by (simp add: ring_ok_def of_nat_diff)
  then have "unused_credit r = of_nat (occupied ?n r)"
    unfolding unused_credit_def occupied_def by (metis int_smod of_int_of_nat_eq uint_nat)
  moreover have "occupied ?n r < 65536"
    using occupied_less [OF assms] by (rule order_less_trans) simp
  ultimately show ?thesis by simp
qed

definition refilled :: "onic_ring \<Rightarrow> onic_ring" where
  "refilled r = (if unat (unused_credit r) \<ge> ONIC_VF_RX_DESC_STEP div 2 then r
     else r\<lparr>ring_next_to_use := of_nat ((ring_head r + ONIC_VF_RX_DESC_STEP) mod unat (onic_vf_ring_real_count r))\<rparr>)"

lemma run_refill:
  "fst (run_state (onic_vf_rx_refill_credit q) s) = q\<lparr>rq_desc_ring := refilled (rq_desc_ring q)\<rparr>"
  by (auto simp: onic_vf_rx_refill_credit_def refilled_def Let_def split_beta)

lemma io_only_refill [io_intro]: "io_only (onic_vf_rx_refill_credit q)"
  unfolding onic_vf_rx_refill_credit_def by (auto intro!: io_intro)

lemma emits_refill: "(\<And>v b off r. P (Io (Iowrite32 v b off), r)) \<Longrightarrow> emits P (onic_vf_rx_refill_credit q)"
  unfolding onic_vf_rx_refill_credit_def by (auto intro!: triple_intro emits_vf_doorbells)

text \<open>Credit is only added below half a step, and then stays below the size of the ring.\<close>

lemma refilled_occupied:
  assumes "ring_ok n r" "n = unat (onic_vf_ring_real_count r)" "384 \<le> n"
  shows "ring_ok n (refilled r)"
    "occupied n (refilled r) = (if occupied n r < 128 then occupied n r + 256 else occupied n r)"
    "ring_tail (refilled r) = ring_tail r" "onic_vf_ring_real_count (refilled r) = onic_vf_ring_real_count r"
proof -
  have u: "unat (unused_credit r) = occupied n r" using unused_credit_occupied assms by simp
  have "(ring_head r + 256) mod n < 65536"
    by (rule order_less_trans [of _ n]) (use assms(3) in \<open>simp, simp add: assms(2)\<close>)
  then have "unat (of_nat ((ring_head r + 256) mod n) :: u16) = (ring_head r + 256) mod n" by (rule unat_of_nat_16)
  then have h: "ring_head (refilled r) = (if occupied n r < 128 then (ring_head r + 256) mod n else ring_head r)"
    unfolding refilled_def u assms(2) [symmetric] by simp
  have t: "ring_tail (refilled r) = ring_tail r" by (simp add: refilled_def)
  show "ring_tail (refilled r) = ring_tail r" by (rule t)
  show "onic_vf_ring_real_count (refilled r) = onic_vf_ring_real_count r"
    by (simp add: refilled_def onic_vf_ring_real_count_def)
  show "ring_ok n (refilled r)" using assms h t by (auto simp: ring_ok_def)
  show "occupied n (refilled r) = (if occupied n r < 128 then occupied n r + 256 else occupied n r)"
    using assms h t by (auto simp: occupied_def ring_ok_def mod_dist mod_less_double split: if_splits)
qed

section \<open>One packet\<close>

text \<open>A view of what reaches the stack: the number of packets, and whether each lies inside its page.\<close>

fun delivered_ok :: "event \<Rightarrow> bool" where
  "delivered_ok (Skb (Skb_deliver skb off len), r) \<longleftrightarrow> 0 < len \<and> off + unat len \<le> PAGE_SIZE"
| "delivered_ok _ \<longleftrightarrow> True"

fun is_delivery :: "event \<Rightarrow> bool" where
  "is_delivery (Skb (Skb_deliver skb off len), r) \<longleftrightarrow> True"
| "is_delivery _ \<longleftrightarrow> False"

definition rx_step :: "event \<Rightarrow> nat \<times> bool \<Rightarrow> nat \<times> bool" where
  "rx_step e d = (if is_delivery e then Suc (fst d) else fst d, snd d \<and> delivered_ok e)"

definition rx_view :: "event list \<Rightarrow> nat \<times> bool" where
  "rx_view tr = fold rx_step tr (0, True)"

definition rx_quiet :: "event \<Rightarrow> bool" where
  "rx_quiet e \<longleftrightarrow> \<not> is_delivery e"

lemma quiet_delivered: "\<not> is_delivery e \<Longrightarrow> delivered_ok e"
  by (cases e rule: is_delivery.cases) auto

interpretation rxv: trace_view rx_step "(0, True)" rx_view rx_quiet
  by unfold_locales (simp_all add: rx_view_def rx_quiet_def rx_step_def quiet_delivered)

lemma rx_quiet_simps [simp]:
  "rx_quiet (Io c, r)" "rx_quiet (Sync d, r)" "rx_quiet (Mem m, r)" "rx_quiet (Pci q, r)" "rx_quiet (Net n, r)"
  "rx_quiet (Page g, r)" "rx_quiet (Skb (Dma_sync_single_for_cpu a k), r)" "rx_quiet (Skb (Napi_build_skb a), r)"
  "rx_quiet (Skb (Napi_gro_receive a), r)" "rx_quiet (Skb (Dma_unmap_single a k), r)" "rx_quiet (Skb (Dev_kfree_skb a), r)"
  by (simp_all add: rx_quiet_def)

text \<open>The queue after a packet whose page is replaced by \<open>pg\<close>.\<close>

definition rx_next :: "ptr \<Rightarrow> onic_rx_queue \<Rightarrow> onic_rx_queue" where
  "rx_next pg q =
     (let i = ring_tail (rq_desc_ring q);
          q1 = rx_advance (q\<lparr>rq_buffer := (rq_buffer q)[i := (rq_buffer q ! i)\<lparr>rb_pg := pg, rb_offset := of_nat XDP_PACKET_HEADROOM\<rparr>]\<rparr>)
      in q1\<lparr>rq_desc_ring := refilled (rq_desc_ring q1)\<rparr>)"

definition vf_rxq_ok :: "onic_rx_queue \<Rightarrow> bool" where
  "vf_rxq_ok q \<longleftrightarrow> (let n = unat (onic_vf_ring_real_count (rq_desc_ring q)) in
     384 \<le> n \<and> onic_vf_ring_real_count (rq_cmpl_ring q) = onic_vf_ring_real_count (rq_desc_ring q) \<and>
     ring_ok n (rq_desc_ring q) \<and> ring_next_to_clean (rq_cmpl_ring q) = ring_next_to_clean (rq_desc_ring q) \<and>
     length (rq_buffer q) = n \<and> (\<forall>b\<in>set (rq_buffer q). rb_pg b \<noteq> 0 \<and> rb_offset b = of_nat XDP_PACKET_HEADROOM))"

abbreviation rx_entries :: "onic_rx_queue \<Rightarrow> nat" where
  "rx_entries q \<equiv> unat (onic_vf_ring_real_count (rq_desc_ring q))"

lemma real_count_same: "onic_vf_ring_real_count = onic_vf_tx_ring_real_count"
  by (rule ext) (simp add: onic_vf_ring_real_count_def onic_vf_tx_ring_real_count_def)

lemma clean_tail:
  "ring_tail r < unat (onic_vf_ring_real_count r) \<Longrightarrow>
     onic_vf_ring_increment_clean r = r\<lparr>ring_next_to_clean := of_nat (Suc (ring_tail r) mod unat (onic_vf_ring_real_count r))\<rparr>"
  by (simp add: onic_vf_ring_increment_clean_def Let_def reset_index word_less_nat_alt)

lemma rx_next_ok:
  assumes "vf_rxq_ok q" "pg \<noteq> 0"
  shows "vf_rxq_ok (rx_next pg q)" "rx_entries (rx_next pg q) = rx_entries q"
    "ring_tail (rq_cmpl_ring (rx_next pg q)) = Suc (ring_tail (rq_cmpl_ring q)) mod rx_entries q"
    "ring_color (rq_cmpl_ring (rx_next pg q)) =
       (if Suc (ring_tail (rq_cmpl_ring q)) mod rx_entries q = 0 then ring_color (rq_cmpl_ring q) XOR 1 else ring_color (rq_cmpl_ring q))"
proof -
  let ?n = "rx_entries q" and ?d = "rq_desc_ring q" and ?c = "rq_cmpl_ring q"
  have w: "onic_vf_ring_real_count ?c = onic_vf_ring_real_count ?d" using assms(1) by (simp add: vf_rxq_ok_def Let_def)
  have ok: "384 \<le> ?n" "unat (onic_vf_ring_real_count ?c) = ?n" "ring_ok ?n ?d" "ring_tail ?d < ?n"
    "ring_next_to_clean ?c = ring_next_to_clean ?d" "length (rq_buffer q) = ?n"
    using assms(1) by (auto simp: vf_rxq_ok_def Let_def ring_ok_def)
  define T :: u16 where "T = of_nat (Suc (ring_tail ?d) mod ?n)"
  have t: "unat T = Suc (ring_tail ?d) mod ?n"
    unfolding T_def using ok(1) by (intro unat_of_nat_16 order_less_trans [of "Suc (ring_tail ?d) mod ?n" ?n 65536]) auto
  have t0: "T = 0 \<longleftrightarrow> Suc (ring_tail ?d) mod ?n = 0" using t by (metis unat_0 unsigned_word_eqI)
  have d: "onic_vf_ring_increment_clean ?d = ?d\<lparr>ring_next_to_clean := T\<rparr>"
    "onic_vf_ring_increment_clean ?c = ?c\<lparr>ring_next_to_clean := T\<rparr>"
    using clean_tail [of ?d] clean_tail [of ?c] ok(2,4,5) by (simp_all add: T_def)
  let ?d1 = "?d\<lparr>ring_next_to_clean := T\<rparr>"
  have d1: "ring_ok ?n ?d1" "?n = unat (onic_vf_ring_real_count ?d1)"
    using ok t by (auto simp: ring_ok_def onic_vf_ring_real_count_def)
  note r = refilled_occupied [OF d1 ok(1)]
  have q': "rx_next pg q = q\<lparr>rq_buffer := (rq_buffer q)[ring_tail ?d := (rq_buffer q ! ring_tail ?d)\<lparr>rb_pg := pg, rb_offset := of_nat XDP_PACKET_HEADROOM\<rparr>],
      rq_desc_ring := refilled ?d1, rq_cmpl_ring := (if T = 0 then ?c\<lparr>ring_next_to_clean := T, ring_color := ring_color ?c XOR 1\<rparr>
        else ?c\<lparr>ring_next_to_clean := T\<rparr>)\<rparr>"
    by (simp add: rx_next_def rx_advance_def Let_def d)
  show "rx_entries (rx_next pg q) = ?n" unfolding q' using r(4) by (simp add: onic_vf_ring_real_count_def)
  show "ring_tail (rq_cmpl_ring (rx_next pg q)) = Suc (ring_tail ?c) mod ?n"
    unfolding q' using t0 t ok(5) by simp
  show "ring_color (rq_cmpl_ring (rx_next pg q)) = (if Suc (ring_tail ?c) mod ?n = 0 then ring_color ?c XOR 1 else ring_color ?c)"
    unfolding q' using t0 ok(5) by simp
  have "\<forall>b\<in>set (rq_buffer (rx_next pg q)). rb_pg b \<noteq> 0 \<and> rb_offset b = of_nat XDP_PACKET_HEADROOM"
    unfolding q' using assms by (auto simp: vf_rxq_ok_def Let_def dest!: subsetD [OF set_update_subset_insert])
  moreover have "ring_next_to_clean (refilled ?d1) = T" by (rule unsigned_word_eqI) (use r(3) in simp)
  ultimately show "vf_rxq_ok (rx_next pg q)"
    using ok r d1(2) w unfolding vf_rxq_ok_def Let_def q'
    by (simp add: onic_vf_ring_real_count_def)
qed

definition rx_counted :: "u16 \<Rightarrow> link_stats \<Rightarrow> link_stats" where
  "rx_counted len st = st\<lparr>st_rx_packets := st_rx_packets st + 1, st_rx_bytes := st_rx_bytes st + ucast len\<rparr>"

definition rx_outcome ::
  "nat \<Rightarrow> onic_rx_queue \<Rightarrow> onic_rx_queue option \<Rightarrow> onic_private \<times> nat \<times> bool \<Rightarrow> onic_private \<times> nat \<times> bool \<Rightarrow> bool" where
  "rx_outcome cpu q a x y \<longleftrightarrow>
     a = None \<and> snd y = snd x \<and>
       (fst y = count_stats cpu (st_rx_errors_update (\<lambda>n. n + 1)) (fst x) \<or>
        fst y = count_stats cpu (st_rx_dropped_update (\<lambda>n. n + 1)) (fst x)) \<or>
     (\<exists>pg len. pg \<noteq> 0 \<and> a = Some (rx_next pg q) \<and> fst y = count_stats cpu (rx_counted len) (fst x) \<and>
       snd y = (Suc (fst (snd x)), snd (snd x)))"

lemma rx_outcome_None:
  "rx_outcome cpu q None x (count_stats cpu (st_rx_errors_update (\<lambda>n. n + 1)) (fst x), snd x)"
  "rx_outcome cpu q None x (count_stats cpu (st_rx_dropped_update (\<lambda>n. n + 1)) (fst x), snd x)"
  by (simp_all add: rx_outcome_def)

lemma rx_outcome_Some:
  "pg \<noteq> 0 \<Longrightarrow> rx_outcome cpu q (Some (rx_next pg q)) x
     (count_stats cpu (rx_counted len) (fst x), Suc (fst (snd x)), snd (snd x))"
  by (auto simp: rx_outcome_def)

lemma rx_rel_refill [onic_rel_intro]:
  "onic_rel rx_view (\<lambda>a x y. a = q\<lparr>rq_desc_ring := refilled (rq_desc_ring q)\<rparr> \<and> y = x) (onic_vf_rx_refill_credit q)"
proof (rule onic_relI)
  fix s a s'
  assume run: "run_state (onic_vf_rx_refill_credit q) s = (a, s')"
  have "onic_rel rx_view (\<lambda>a x y. y = x) (onic_vf_rx_refill_credit q)"
    by (rule rxv.rel_quiet) (auto intro!: io_intro emits_refill)
  from onic_relD [OF this run] obtain evs p' where "s' = after s evs p'"
    "(p', rx_view (trace s @ evs)) = (priv s, rx_view (trace s))" .
  moreover have "a = q\<lparr>rq_desc_ring := refilled (rq_desc_ring q)\<rparr>" using run_refill [of q s] run by simp
  ultimately show "\<exists>evs p'. s' = after s evs p' \<and> a = q\<lparr>rq_desc_ring := refilled (rq_desc_ring q)\<rparr> \<and>
      (p', rx_view (trace s @ evs)) = (priv s, rx_view (trace s))" by blast
qed

lemma rx_rel_mem [onic_rel_intro]:
  "onic_rel rx_view (\<lambda>a x y. y = x) (qdma_unpack_c2h_cmpl c b off)"
  "onic_rel rx_view (\<lambda>a x y. y = x) (qdma_unpack_c2h_cmpl_stat st b off)"
  "onic_rel rx_view (\<lambda>a x y. y = x) (qdma_pack_c2h_st_desc b off d)"
  by (rule rxv.rel_quiet, auto intro!: io_intro emits_unpack)+

lemma rx_rel_call:
  "(\<And>r. rx_quiet (c, r)) \<Longrightarrow> onic_rel rx_view (\<lambda>a x y. y = x) (perform c)"
  "(\<And>r. rx_quiet (c, r)) \<Longrightarrow> onic_rel rx_view (\<lambda>a x y. y = x) (invoke c)"
  by (rule rxv.rel_quiet, auto intro!: io_intro triple_intro)+

lemma rx_rel_calls [onic_rel_intro]:
  "onic_rel rx_view (\<lambda>a x y. y = x) (perform (Page g))" "onic_rel rx_view (\<lambda>a x y. y = x) (invoke (Page g))"
  "onic_rel rx_view (\<lambda>a x y. y = x) (perform (Net m))" "onic_rel rx_view (\<lambda>a x y. y = x) (invoke (Net m))"
  "onic_rel rx_view (\<lambda>a x y. y = x) (invoke (Skb (Dma_sync_single_for_cpu b k)))"
  "onic_rel rx_view (\<lambda>a x y. y = x) (perform (Skb (Napi_build_skb b)))"
  "onic_rel rx_view (\<lambda>a x y. y = x) (invoke (Skb (Napi_gro_receive b)))"
  "onic_rel rx_view (\<lambda>a x y. y = (fst x, Suc (fst (snd x)), snd (snd x) \<and> 0 < len \<and> off + unat len \<le> PAGE_SIZE))
     (invoke (Skb (Skb_deliver sk off len)))"
         apply (rule rx_rel_call, simp)+
  apply (rule onic_rel_conseq, rule rxv.rel_invoke)
  apply (auto simp: rx_step_def)
  done

text \<open>A completion that passes the check describes a packet inside its page.\<close>

lemma good_cmpl_fits:
  assumes "\<not> bad_cmpl q b cmpl" "rb_offset b = of_nat XDP_PACKET_HEADROOM"
  shows "0 < (ucast (cmpl_pkt_len cmpl) :: u32)" "unat (rb_offset b) + unat (ucast (cmpl_pkt_len cmpl) :: u32) \<le> PAGE_SIZE"
proof -
  let ?l = "cmpl_pkt_len cmpl"
  have u: "unat (ucast ?l :: u32) = unat ?l" "unat (ucast ?l :: u64) = unat ?l"
    by (simp_all add: unsigned_ucast_eq take_bit_nat_eq_self_iff order_less_trans [OF unat_u16_less])
  have "?l \<noteq> 0" "(ucast ?l :: u64) \<le> 3840" using assms by (simp_all add: bad_cmpl_def not_less)
  then show "0 < (ucast ?l :: u32)" "unat (rb_offset b) + unat (ucast ?l :: u32) \<le> PAGE_SIZE"
    using u assms(2) by (simp_all add: word_less_nat_alt word_le_nat_alt unat_gt_0)
qed

lemma rx_one_rel:
  assumes "vf_rxq_ok q"
  shows "onic_rel rx_view (rx_outcome cpu q) (rx_one cpu q)"
proof -
  have off: "rb_offset (rq_buffer q ! ring_tail (rq_desc_ring q)) = of_nat XDP_PACKET_HEADROOM"
    using assms by (auto simp: vf_rxq_ok_def Let_def ring_ok_def)
  note fits = good_cmpl_fits [OF _ off]
  show ?thesis
    unfolding rx_one_def Let_def
    apply (rule onic_rel_conseq)
     apply ((rule onic_rel_intro)+)[1]
    apply (elim exE conjE)
    subgoal for a x y cmpl y1
      using fits [of q cmpl]
      apply (cases "bad_cmpl q (rq_buffer q ! ring_tail (rq_desc_ring q)) cmpl")
       apply (auto simp: rx_outcome_None)[1]
      apply (auto simp: rx_outcome_None split: if_splits)
       apply (rule rx_outcome_Some [unfolded rx_next_def Let_def rx_counted_def [abs_def] of_nat_numeral], simp)+
      done
    done
qed

section \<open>The loop\<close>

definition rx_stats :: "nat \<Rightarrow> nat \<Rightarrow> onic_private \<Rightarrow> onic_private \<Rightarrow> bool" where
  "rx_stats cpu k p p' \<longleftrightarrow> (\<exists>st. p' = p\<lparr>pr_netdev_stats := st\<rparr>) \<and>
     (\<forall>l. pr_netdev_stats p = Some l \<and> cpu < length l \<longrightarrow>
        (\<exists>l'. pr_netdev_stats p' = Some l' \<and> length l' = length l \<and>
           st_rx_packets (l' ! cpu) = st_rx_packets (l ! cpu) + of_nat k))"

lemma priv_update_at:
  "pr_netdev_stats_update f p = p\<lparr>pr_netdev_stats := f (pr_netdev_stats p)\<rparr>"
  "pr_tx_queue_update g p = p\<lparr>pr_tx_queue := g (pr_tx_queue p)\<rparr>"
  by (cases p, simp)+

lemma rx_stats_0 [simp]: "rx_stats cpu 0 p p"
  by (auto simp: rx_stats_def intro!: exI [of _ "pr_netdev_stats p"])

lemma rx_stats_count:
  "(\<And>st. st_rx_packets (f st) = st_rx_packets st + of_nat k) \<Longrightarrow> rx_stats cpu k p (count_stats cpu f p)"
  unfolding rx_stats_def count_stats_def by (subst (1) priv_update_at(1)) auto

lemma rx_stats_trans:
  assumes "rx_stats cpu j p p1" "rx_stats cpu k p1 p2"
  shows "rx_stats cpu (j + k) p p2"
proof -
  have "\<exists>st. p2 = p\<lparr>pr_netdev_stats := st\<rparr>"
    using assms unfolding rx_stats_def by auto
  moreover have "\<exists>l'. pr_netdev_stats p2 = Some l' \<and> length l' = length l \<and>
      st_rx_packets (l' ! cpu) = st_rx_packets (l ! cpu) + of_nat (j + k)"
    if "pr_netdev_stats p = Some l" "cpu < length l" for l
    using assms that unfolding rx_stats_def by (fastforce simp: add.assoc)
  ultimately show ?thesis unfolding rx_stats_def by blast
qed

definition rx_run ::
  "nat \<Rightarrow> nat \<Rightarrow> onic_rx_queue \<Rightarrow> nat \<Rightarrow> nat \<times> onic_rx_queue \<Rightarrow> onic_private \<times> nat \<times> bool \<Rightarrow> onic_private \<times> nat \<times> bool \<Rightarrow> bool" where
  "rx_run n cpu q work a x y \<longleftrightarrow> (\<exists>pgs. fst a = work + length pgs \<and> length pgs \<le> n \<and> 0 \<notin> set pgs \<and>
     snd a = fold rx_next pgs q \<and> snd y = (fst (snd x) + length pgs, snd (snd x)) \<and> rx_stats cpu (length pgs) (fst x) (fst y))"

lemma rx_loop_rel:
  assumes "vf_rxq_ok q"
  shows "onic_rel rx_view (rx_run n cpu q work) (rx_poll_loop n cpu pidx q work)"
  using assms
proof (induction n arbitrary: q work)
  case 0
  have "onic_rel rx_view (rx_run 0 cpu q work) (ret (work, q))"
    by (rule onic_rel_conseq, rule onic_rel_ret) (simp add: rx_run_def)
  then show ?case by simp
next
  case (Suc n)
  show ?case
  proof (rule onic_relI)
    fix s a s'
    assume run: "run_state (rx_poll_loop (Suc n) cpu pidx q work) s = (a, s')"
    let ?V = "rx_view (trace s)"
    have stop: "rx_run (Suc n) cpu q work (work, q) (priv s, ?V) (p, ?V)" if "rx_stats cpu 0 (priv s) p" for p
      using that by (auto simp: rx_run_def intro!: exI [of _ "[]"])
    show "\<exists>evs p'. s' = after s evs p' \<and> rx_run (Suc n) cpu q work a (priv s, ?V) (p', rx_view (trace s @ evs))"
    proof (cases "ring_next_to_clean (rq_cmpl_ring q) = pidx")
      case True
      then show ?thesis using run stop [of "priv s"] by (intro exI [of _ "[]"] exI [of _ "priv s"]) auto
    next
      case False
      obtain r s1 where one: "run_state (rx_one cpu q) s = (r, s1)" by (cases "run_state (rx_one cpu q) s")
      from onic_relD [OF rx_one_rel [OF Suc.prems] one] obtain evs p1 where
        s1: "s1 = after s evs p1" and out: "rx_outcome cpu q r (priv s, ?V) (p1, rx_view (trace s @ evs))" .
      show ?thesis
      proof (cases r)
        case None
        then have "s' = after s evs p1" "a = (work, q)" using run False one s1 by auto
        moreover have "rx_view (trace s @ evs) = ?V" "rx_stats cpu 0 (priv s) p1"
          using out None by (auto simp: rx_outcome_def intro!: rx_stats_count)
        ultimately show ?thesis using stop [of p1] by (intro exI [of _ evs] exI [of _ p1]) simp
      next
        case (Some q1)
        then obtain pg len where pg: "pg \<noteq> 0" "q1 = rx_next pg q" "p1 = count_stats cpu (rx_counted len) (priv s)"
          "rx_view (trace s @ evs) = (Suc (fst ?V), snd ?V)"
          using out by (auto simp: rx_outcome_def)
        have run2: "run_state (rx_poll_loop n cpu pidx q1 (Suc work)) s1 = (a, s')" using run False one Some by simp
        from onic_relD [OF Suc.IH [of q1 "Suc work"] run2] rx_next_ok(1) [OF Suc.prems pg(1)] pg(2)
        obtain evs2 p2 where s2: "s' = after s1 evs2 p2"
          "rx_run n cpu q1 (Suc work) a (priv s1, rx_view (trace s1)) (p2, rx_view (trace s1 @ evs2))" by blast
        then obtain pgs where pgs: "fst a = Suc work + length pgs" "length pgs \<le> n" "0 \<notin> set pgs" "snd a = fold rx_next pgs q1"
          "rx_view (trace s @ evs @ evs2) = (Suc (fst ?V) + length pgs, snd ?V)" "rx_stats cpu (length pgs) p1 p2"
          using pg(4) by (auto simp: rx_run_def s1)
        have "rx_stats cpu 1 (priv s) p1" unfolding pg(3) by (rule rx_stats_count) (simp add: rx_counted_def)
        from rx_stats_trans [OF this pgs(6)] pgs pg have
          "rx_run (Suc n) cpu q work a (priv s, ?V) (p2, rx_view (trace s @ evs @ evs2))"
          unfolding rx_run_def by (intro exI [of _ "pg # pgs"]) auto
        moreover have "s' = after s (evs @ evs2) p2" using s2(1) by (simp add: s1)
        ultimately show ?thesis by blast
      qed
    qed
  qed
qed

text \<open>The queue after \<open>k\<close> packets.\<close>

lemma fold_rx_next:
  assumes "vf_rxq_ok q" "0 \<notin> set pgs"
  shows "vf_rxq_ok (fold rx_next pgs q) \<and> rx_entries (fold rx_next pgs q) = rx_entries q \<and>
    ring_tail (rq_cmpl_ring (fold rx_next pgs q)) = (ring_tail (rq_cmpl_ring q) + length pgs) mod rx_entries q"
  using assms
proof (induction pgs arbitrary: q)
  case Nil
  then show ?case by (simp add: vf_rxq_ok_def Let_def ring_ok_def)
next
  case (Cons pg pgs)
  then have "pg \<noteq> 0" by auto
  note n = rx_next_ok [OF Cons.prems(1) this]
  from Cons.IH [OF n(1)] Cons.prems(2) n(2,3) show ?case by (simp add: mod_add_left_eq)
qed

lemma rx_next_frame: "rq_qid (rx_next pg q) = rq_qid q" "rq_state (rx_next pg q) = rq_state q" "rq_self (rx_next pg q) = rq_self q"
  by (simp_all add: rx_next_def rx_advance_def Let_def)

lemma fold_rx_next_frame: "rq_qid (fold rx_next pgs q) = rq_qid q" "rq_state (fold rx_next pgs q) = rq_state q"
  by (induction pgs arbitrary: q) (simp_all add: rx_next_frame)

section \<open>Polling\<close>

lemma tx_table_update: "\<exists>t. p = p\<lparr>pr_tx_queue := t\<rparr>" "\<exists>t. pr_tx_queue_update f p = p\<lparr>pr_tx_queue := t\<rparr>"
  by (rule exI [of _ "pr_tx_queue p"], simp) (rule exI, rule priv_update_at(2))

definition txq_changed :: "onic_private \<times> 'd \<Rightarrow> onic_private \<times> 'd \<Rightarrow> bool" where
  "txq_changed x y \<longleftrightarrow> snd y = snd x \<and> (\<exists>t. fst y = (fst x)\<lparr>pr_tx_queue := t\<rparr>)"

lemma txq_changed_simps [simp]:
  "txq_changed x x" "txq_changed x (pr_tx_queue_update f (fst x), snd x)"
  unfolding txq_changed_def by (simp_all add: tx_table_update)

lemma rx_rel_tx_clean [onic_rel_intro]: "onic_rel rx_view (\<lambda>a x y. txq_changed x y) (onic_vf_tx_clean i)"
proof -
  have q: "onic_rel rx_view (\<lambda>a x y. y = x) (tx_clean_queue q)" for q
    by (rule rxv.rel_quiet) (auto intro!: io_intro emits_tx_clean_queue)
  show ?thesis
    unfolding onic_vf_tx_clean_def set_tx_queue_def
    apply (rule onic_rel_conseq)
     apply ((rule onic_rel_intro q)+)[1]
    apply (elim exE conjE)
    subgoal for a x y p y1
      by (cases "pr_tx_queue p i") auto
    done
qed

text \<open>The poll after the queue has been found.\<close>

definition poll_queue :: "nat \<Rightarrow> nat \<Rightarrow> onic_private \<Rightarrow> onic_rx_queue \<Rightarrow> nat onic" where
  "poll_queue i budget p q = do {
     cpu \<leftarrow> this_cpu;
     (if rq_qid q < pr_num_tx_queues p then onic_vf_tx_clean (unat (rq_qid q)) else ret ());
     stat \<leftarrow> qdma_unpack_c2h_cmpl_stat zero_cmpl_stat (ring_wb (rq_cmpl_ring q)) 0;
     (work, q) \<leftarrow> rx_poll_loop budget cpu (cstat_pidx stat) q 0;
     set_rx_queue i (Some q);
     complete \<leftarrow> (if work < budget then do { r \<leftarrow> perform (Net (Napi_complete_done (unat (rq_qid q)) work)); ret (r \<noteq> 0) }
                 else ret False);
     onic_vf_set_completion_tail (rq_qid q) (ring_next_to_clean (rq_cmpl_ring q)) (if complete then 1 else 0);
     ret work }"

lemma rx_rel_doorbell [onic_rel_intro]: "onic_rel rx_view (\<lambda>a x y. y = x) (onic_vf_set_completion_tail k t arm)"
  by (rule rxv.rel_quiet) (auto intro!: io_intro emits_vf_doorbells)

lemma rx_rel_this_cpu [onic_rel_intro]: "onic_rel rx_view (\<lambda>a x y. y = x) this_cpu"
  by (rule rxv.rel_quiet) (auto intro!: io_intro triple_intro)

lemma rx_rel_prod [onic_rel_intro]:
  "(\<And>b c. onic_rel V (R b c) (f b c)) \<Longrightarrow> onic_rel V (\<lambda>a x y. R (fst z) (snd z) a x y) (case z of (b, c) \<Rightarrow> f b c)"
  by (cases z) simp

definition polled :: "nat \<Rightarrow> nat \<Rightarrow> onic_rx_queue \<Rightarrow> nat \<Rightarrow> onic_private \<times> nat \<times> bool \<Rightarrow> onic_private \<times> nat \<times> bool \<Rightarrow> bool" where
  "polled i budget q work x y \<longleftrightarrow> work \<le> budget \<and> snd y = (fst (snd x) + work, snd (snd x)) \<and>
     (\<exists>cpu pgs p1 p2. length pgs = work \<and> 0 \<notin> set pgs \<and> txq_changed x (p1, snd x) \<and> rx_stats cpu work p1 p2 \<and>
        fst y = pr_rx_queue_update (\<lambda>t. t(i := Some (fold rx_next pgs q))) p2)"

lemma poll_queue_rel:
  assumes "vf_rxq_ok q"
  shows "onic_rel rx_view (polled i budget q) (poll_queue i budget p q)"
  unfolding poll_queue_def set_rx_queue_def
  apply (rule onic_rel_conseq)
   apply ((rule onic_rel_intro rx_loop_rel [OF assms])+)[1]
  apply (elim exE conjE)
  subgoal premises prems for a x y cpu ya ab yb st yc ad yd ae ye af yf ag yg
  proof -
    have c: "txq_changed x yb" using prems(1,2) by (auto split: if_splits)
    have y: "y = ye" "a = fst ad" using prems(6-9) by (auto split: if_splits)
    from prems(3,4) obtain pgs where r: "fst ad = length pgs" "length pgs \<le> budget" "0 \<notin> set pgs" "snd ad = fold rx_next pgs q"
      "snd yd = (fst (snd yb) + length pgs, snd (snd yb))" "rx_stats cpu (length pgs) (fst yb) (fst yd)"
      by (auto simp: rx_run_def)
    have v: "snd yb = snd x" using c by (simp add: txq_changed_def)
    then have "txq_changed x (fst yb, snd x)" using c by (simp add: txq_changed_def)
    then show ?thesis
      using r v unfolding polled_def y prems(5) by (intro conjI exI [of _ cpu] exI [of _ pgs] exI [of _ "fst yb"] exI [of _ "fst yd"]) auto
  qed
  done


text \<open>A queue of 1023 posted pages on a card that has received nothing.\<close>

definition sample_rxq :: onic_rx_queue where
  "sample_rxq = \<lparr>rq_self = 0x5000, rq_qid = 0, rq_state = 0, rq_buffer_ptr = 0x4000,
     rq_buffer = replicate 1023 \<lparr>rb_pg = 0x6000, rb_offset = of_nat XDP_PACKET_HEADROOM, rb_time_stamp = 0\<rparr>,
     rq_desc_ring = \<lparr>ring_count = 1024, ring_desc = 0x1000, ring_wb = 0x2FF8, ring_dma_addr = 0x1000,
       ring_next_to_use = 1022, ring_next_to_clean = 0, ring_color = 0\<rparr>,
     rq_cmpl_ring = \<lparr>ring_count = 1024, ring_desc = 0x8000, ring_wb = 0x9FF8, ring_dma_addr = 0x8000,
       ring_next_to_use = 0, ring_next_to_clean = 0, ring_color = 1\<rparr>, rq_vector = None,
     rq_xdp_prog = 0, rq_xdp_rxq = False, rq_page_pool = 0x7000, rq_xdp_stats = zero_xdp_stats\<rparr>"


end
