(* ===== verification/Vf_Queues.thy ===== *)
theory Vf_Queues
  imports Vf_Rx Vf_Mbox
begin

text \<open>
  \<^verbatim>\<open>onic_vf_qdma.c\<close>, lines 482 to 1041: allocation and release of the rings of the VF, the queue contexts the PF
  programs for it, and the receive datapath (NAPI, interrupts, first credit).
\<close>

section \<open>Rings\<close>

text \<open>\<^verbatim>\<open>size_t\<close> arithmetic; \<^verbatim>\<open>ALIGN\<close> rounds up to a page.\<close>

definition onic_vf_ring_bytes :: "u16 \<Rightarrow> nat \<Rightarrow> nat \<Rightarrow> nat" where
  "onic_vf_ring_bytes cnt desc_size stat_size =
     (let n = of_nat desc_size * (ucast cnt - 1) + of_nat stat_size :: u64
      in unat ((n + of_nat (PAGE_SIZE - 1)) AND NOT (of_nat (PAGE_SIZE - 1))))"

definition vf_vector_of :: "onic_private \<Rightarrow> nat \<Rightarrow> onic_q_vector option" where
  "vf_vector_of p qid = pr_q_vector p (qid mod unat (pr_num_q_vectors p))"

definition onic_vf_free_tx_ring :: "nat \<Rightarrow> unit onic" where
  "onic_vf_free_tx_ring qid = do {
     p \<leftarrow> get_priv;
     case pr_tx_queue p qid of
       None \<Rightarrow> ret ()
     | Some q \<Rightarrow> do {
         q \<leftarrow> onic_vf_release_pending_tx q;
         let bytes = onic_vf_ring_bytes (ring_count (tq_ring q)) QDMA_H2C_ST_DESC_SIZE QDMA_WB_STAT_SIZE;
         (if ring_desc (tq_ring q) \<noteq> 0
          then invoke (Mem (Dma_free_coherent bytes (ring_desc (tq_ring q)) (ring_dma_addr (tq_ring q)))) else ret ());
         invoke (Mem (Kfree (tq_buffer_ptr q)));
         invoke (Mem (Kfree (tq_self q)));
         set_tx_queue qid None } }"

definition onic_vf_alloc_tx_ring :: "nat \<Rightarrow> int onic" where
  "onic_vf_alloc_tx_ring qid = do {
     a \<leftarrow> perform (Mem (Kzalloc Obj_tx_queue));
     if (of_int a :: ptr) = 0 then ret (- ENOMEM)
     else do {
       p \<leftarrow> get_priv;
       let real_count = unat (ONIC_VF_TX_RING_COUNT - 1);
       let bytes = onic_vf_ring_bytes ONIC_VF_TX_RING_COUNT QDMA_H2C_ST_DESC_SIZE QDMA_WB_STAT_SIZE;
       d \<leftarrow> perform (Mem (Dma_alloc_coherent bytes));
       if (of_int d :: ptr) = 0 then do {
         invoke (Mem (Kfree (of_int a)));
         ret (- ENOMEM) }
       else do {
         h \<leftarrow> perform (Mem (Dma_handle (of_int d)));
         invoke (Mem (Dma_memset (of_int d) bytes));
         b \<leftarrow> perform (Mem (Kcalloc Obj_tx_buffer real_count));
         if (of_int b :: ptr) = 0 then do {
           invoke (Mem (Dma_free_coherent bytes (of_int d) (of_int h)));
           invoke (Mem (Kfree (of_int a)));
           ret (- ENOMEM) }
         else do {
           set_tx_queue qid (Some \<lparr>tq_self = of_int a, tq_qid = of_nat qid, tq_state = 0, tq_buffer_ptr = of_int b,
             tq_buffer = replicate real_count zero_tx_buffer,
             tq_ring = \<lparr>ring_count = ONIC_VF_TX_RING_COUNT, ring_desc = of_int d,
               ring_wb = of_int d + of_nat (QDMA_H2C_ST_DESC_SIZE * real_count), ring_dma_addr = of_int h,
               ring_next_to_use = 0, ring_next_to_clean = 0, ring_color = 0\<rparr>,
             tq_vector = vf_vector_of p qid, tq_xdp_xmit = 0, tq_xdp_xmit_err = 0\<rparr>);
           ret 0 } } } }"

definition onic_vf_create_rx_page_pool :: "onic_rx_queue \<Rightarrow> nat \<Rightarrow> ('z, int \<times> onic_rx_queue) drv" where
  "onic_vf_create_rx_page_pool q n = do {
     r \<leftarrow> perform (Page (Page_pool_create n));
     ret (if r < 0 then (r, q\<lparr>rq_page_pool := 0\<rparr>) else (0, q\<lparr>rq_page_pool := of_int r\<rparr>)) }"

definition onic_vf_free_rx_pages :: "onic_rx_queue \<Rightarrow> ('z, onic_rx_queue) drv" where
  "onic_vf_free_rx_pages q =
     (if rq_page_pool q = 0 then ret q
      else do {
        q \<leftarrow> (if rq_buffer_ptr q = 0 then ret q
          else for_each_acc [0..<unat (ring_count (rq_desc_ring q) - 1)] (\<lambda>i q.
            if rb_pg (rq_buffer q ! i) = 0 then ret q
            else do {
              invoke (Page (Page_pool_put (rq_page_pool q) (rb_pg (rq_buffer q ! i))));
              ret (q\<lparr>rq_buffer := (rq_buffer q)[i := (rq_buffer q ! i)\<lparr>rb_pg := 0\<rparr>]\<rparr>) }) q);
        invoke (Page (Page_pool_destroy (rq_page_pool q)));
        ret (q\<lparr>rq_page_pool := 0\<rparr>) })"

definition onic_vf_free_rx_ring :: "nat \<Rightarrow> unit onic" where
  "onic_vf_free_rx_ring qid = do {
     p \<leftarrow> get_priv;
     case pr_rx_queue p qid of
       None \<Rightarrow> ret ()
     | Some q \<Rightarrow> do {
         (if ring_desc (rq_desc_ring q) \<noteq> 0
          then invoke (Mem (Dma_free_coherent
            (onic_vf_ring_bytes (ring_count (rq_desc_ring q)) QDMA_C2H_ST_DESC_SIZE QDMA_WB_STAT_SIZE)
            (ring_desc (rq_desc_ring q)) (ring_dma_addr (rq_desc_ring q)))) else ret ());
         (if ring_desc (rq_cmpl_ring q) \<noteq> 0
          then invoke (Mem (Dma_free_coherent
            (onic_vf_ring_bytes (ring_count (rq_cmpl_ring q)) QDMA_C2H_CMPL_SIZE QDMA_C2H_CMPL_STAT_SIZE)
            (ring_desc (rq_cmpl_ring q)) (ring_dma_addr (rq_cmpl_ring q)))) else ret ());
         q \<leftarrow> onic_vf_free_rx_pages q;
         invoke (Mem (Kfree (rq_buffer_ptr q)));
         invoke (Mem (Kfree (rq_self q)));
         set_rx_queue qid None } }"

text \<open>A page behind every descriptor; False when the pool is exhausted.\<close>

fun fill_rx_pages :: "nat list \<Rightarrow> onic_rx_queue \<Rightarrow> ('z, bool \<times> onic_rx_queue) drv" where
  "fill_rx_pages [] q = ret (True, q)"
| "fill_rx_pages (i # js) q = do {
     pg \<leftarrow> perform (Page (Page_pool_alloc (rq_page_pool q)));
     if (of_int pg :: ptr) = 0 then ret (False, q)
     else do {
       a \<leftarrow> perform (Page (Page_pool_get_dma_addr (of_int pg)));
       qdma_pack_c2h_st_desc (ring_desc (rq_desc_ring q)) (QDMA_C2H_ST_DESC_SIZE * i)
         \<lparr>c2h_dst_addr = of_int a + of_nat XDP_PACKET_HEADROOM\<rparr>;
       fill_rx_pages js (q\<lparr>rq_buffer := (rq_buffer q)
         [i := (rq_buffer q ! i)\<lparr>rb_pg := of_int pg, rb_offset := of_nat XDP_PACKET_HEADROOM\<rparr>]\<rparr>) } }"

text \<open>The labels \<^verbatim>\<open>err_free_desc\<close> and \<^verbatim>\<open>err_free_buffer\<close>, each with the ones it falls through to.\<close>

definition undo_rx_desc :: "onic_rx_queue \<Rightarrow> int \<Rightarrow> int onic" where
  "undo_rx_desc q err = do {
     invoke (Mem (Dma_free_coherent
       (onic_vf_ring_bytes (ring_count (rq_desc_ring q)) QDMA_C2H_ST_DESC_SIZE QDMA_WB_STAT_SIZE)
       (ring_desc (rq_desc_ring q)) (ring_dma_addr (rq_desc_ring q))));
     invoke (Mem (Kfree (rq_self q)));
     ret err }"

definition undo_rx_buffer :: "onic_rx_queue \<Rightarrow> int \<Rightarrow> int onic" where
  "undo_rx_buffer q err = do {
     invoke (Mem (Kfree (rq_buffer_ptr q)));
     undo_rx_desc q err }"

definition undo_rx_pages :: "onic_rx_queue \<Rightarrow> int \<Rightarrow> int onic" where
  "undo_rx_pages q err = do {
     q \<leftarrow> onic_vf_free_rx_pages q;
     undo_rx_buffer q err }"

definition new_rx_queue :: "ptr \<Rightarrow> nat \<Rightarrow> onic_q_vector option \<Rightarrow> ptr \<Rightarrow> dma_addr \<Rightarrow> onic_rx_queue" where
  "new_rx_queue self qid vec d h =
     (let real_count = unat (ONIC_VF_RX_RING_COUNT - 1)
      in \<lparr>rq_self = self, rq_qid = of_nat qid, rq_state = 0, rq_buffer_ptr = 0,
       rq_buffer = replicate real_count \<lparr>rb_pg = 0, rb_offset = 0, rb_time_stamp = 0\<rparr>,
       rq_desc_ring = \<lparr>ring_count = ONIC_VF_RX_RING_COUNT, ring_desc = d,
         ring_wb = d + of_nat (QDMA_C2H_ST_DESC_SIZE * real_count), ring_dma_addr = h,
         ring_next_to_use = 0, ring_next_to_clean = 0, ring_color = 0\<rparr>,
       rq_cmpl_ring = \<lparr>ring_count = 0, ring_desc = 0, ring_wb = 0, ring_dma_addr = 0,
         ring_next_to_use = 0, ring_next_to_clean = 0, ring_color = 0\<rparr>,
       rq_vector = vec, rq_xdp_prog = 0, rq_xdp_rxq = False, rq_page_pool = 0, rq_xdp_stats = zero_xdp_stats\<rparr>)"

definition vf_cmpl_ring :: "ptr \<Rightarrow> dma_addr \<Rightarrow> onic_ring" where
  "vf_cmpl_ring d h = \<lparr>ring_count = ONIC_VF_CMPL_RING_COUNT, ring_desc = d,
     ring_wb = d + of_nat (QDMA_C2H_CMPL_SIZE * unat (ONIC_VF_CMPL_RING_COUNT - 1)), ring_dma_addr = h,
     ring_next_to_use = 0, ring_next_to_clean = 0, ring_color = 1\<rparr>"

text \<open>
  A failure to allocate the completion ring is returned as \<^verbatim>\<open>err\<close>, which the page pool has set to 0 by then.
\<close>

definition onic_vf_alloc_rx_ring :: "nat \<Rightarrow> int onic" where
  "onic_vf_alloc_rx_ring qid = do {
     a \<leftarrow> perform (Mem (Kzalloc Obj_rx_queue));
     if (of_int a :: ptr) = 0 then ret (- ENOMEM)
     else do {
       p \<leftarrow> get_priv;
       let real_count = unat (ONIC_VF_RX_RING_COUNT - 1);
       let bytes = onic_vf_ring_bytes ONIC_VF_RX_RING_COUNT QDMA_C2H_ST_DESC_SIZE QDMA_WB_STAT_SIZE;
       d \<leftarrow> perform (Mem (Dma_alloc_coherent bytes));
       if (of_int d :: ptr) = 0 then do {
         invoke (Mem (Kfree (of_int a)));
         ret (- ENOMEM) }
       else do {
         h \<leftarrow> perform (Mem (Dma_handle (of_int d)));
         invoke (Mem (Dma_memset (of_int d) bytes));
         let q = new_rx_queue (of_int a) qid (vf_vector_of p qid) (of_int d) (of_int h);
         b \<leftarrow> perform (Mem (Kcalloc Obj_rx_buffer real_count));
         if (of_int b :: ptr) = 0 then undo_rx_desc q (- ENOMEM)
         else do {
           (err, q) \<leftarrow> onic_vf_create_rx_page_pool (q\<lparr>rq_buffer_ptr := of_int b\<rparr>) real_count;
           if err \<noteq> 0 then undo_rx_buffer q err
           else do {
             (filled, q) \<leftarrow> fill_rx_pages [0..<real_count] q;
             if \<not> filled then undo_rx_pages q (- ENOMEM)
             else do {
               let csize = onic_vf_ring_bytes ONIC_VF_CMPL_RING_COUNT QDMA_C2H_CMPL_SIZE QDMA_C2H_CMPL_STAT_SIZE;
               c \<leftarrow> perform (Mem (Dma_alloc_coherent csize));
               if (of_int c :: ptr) = 0 then undo_rx_pages q err
               else do {
                 ch \<leftarrow> perform (Mem (Dma_handle (of_int c)));
                 invoke (Mem (Dma_memset (of_int c) csize));
                 set_rx_queue qid (Some (q\<lparr>rq_cmpl_ring := vf_cmpl_ring (of_int c) (of_int ch)\<rparr>));
                 ret 0 } } } } } } }"

definition onic_vf_rings_clear :: "unit onic" where
  "onic_vf_rings_clear = for_each [0..<ONIC_MAX_QUEUES] (\<lambda>qid. do {
     onic_vf_free_tx_ring qid;
     onic_vf_free_rx_ring qid })"

definition onic_vf_rings_init :: "int onic" where
  "onic_vf_rings_init = do {
     p \<leftarrow> get_priv;
     if pr_num_q_vectors p = 0 then ret (- EINVAL)
     else do {
       (err, _) \<leftarrow> for_until [0..<unat (pr_num_tx_queues p)] onic_vf_alloc_tx_ring;
       if err \<noteq> 0 then do { onic_vf_rings_clear; ret err }
       else do {
         (err, _) \<leftarrow> for_until [0..<unat (pr_num_rx_queues p)] onic_vf_alloc_rx_ring;
         if err \<noteq> 0 then do { onic_vf_rings_clear; ret err }
         else ret 0 } } }"

section \<open>Queue contexts\<close>

definition lower_32_bits :: "u64 \<Rightarrow> u32" where "lower_32_bits a = ucast a"
definition upper_32_bits :: "u64 \<Rightarrow> u32" where "upper_32_bits a = ucast (drop_bit 32 a)"

definition vf_tx_cfg :: "nat \<Rightarrow> onic_q_vector \<Rightarrow> onic_ring \<Rightarrow> onic_mbox_queue_cfg" where
  "vf_tx_cfg qid vec r = \<lparr>qc_qid = of_nat qid, qc_dir = ONIC_MBOX_QUEUE_DIR_TX, qc_vector = ucast (qv_vid vec),
     qc_rngcnt_idx = ONIC_VF_TX_RNGCNT_IDX, qc_bufsz_idx = 0, qc_cmpl_rngcnt_idx = 0, qc_cmpl_desc_sz = 0, qc_reserved = 0,
     qc_desc_dma_lo = lower_32_bits (ring_dma_addr r), qc_desc_dma_hi = upper_32_bits (ring_dma_addr r),
     qc_cmpl_dma_lo = 0, qc_cmpl_dma_hi = 0\<rparr>"

definition vf_rx_cfg :: "nat \<Rightarrow> onic_q_vector \<Rightarrow> onic_ring \<Rightarrow> onic_ring \<Rightarrow> onic_mbox_queue_cfg" where
  "vf_rx_cfg qid vec r c = \<lparr>qc_qid = of_nat qid, qc_dir = ONIC_MBOX_QUEUE_DIR_RX, qc_vector = ucast (qv_vid vec),
     qc_rngcnt_idx = ONIC_VF_RX_DESC_RNGCNT_IDX, qc_bufsz_idx = ONIC_VF_RX_BUFSZ_IDX,
     qc_cmpl_rngcnt_idx = ONIC_VF_RX_CMPL_RNGCNT_IDX, qc_cmpl_desc_sz = ONIC_VF_RX_CMPL_DESC_SZ, qc_reserved = 0,
     qc_desc_dma_lo = lower_32_bits (ring_dma_addr r), qc_desc_dma_hi = upper_32_bits (ring_dma_addr r),
     qc_cmpl_dma_lo = lower_32_bits (ring_dma_addr c), qc_cmpl_dma_hi = upper_32_bits (ring_dma_addr c)\<rparr>"

definition onic_vf_clear_one_tx_context :: "nat \<Rightarrow> int onic" where
  "onic_vf_clear_one_tx_context qid = do {
     p \<leftarrow> get_priv;
     case pr_tx_queue p qid of
       None \<Rightarrow> ret 0
     | Some q \<Rightarrow>
         if \<not> bit (tq_state q) ONIC_VF_TX_CTXT_CONFIGURED then ret 0
         else do {
           err \<leftarrow> onic_vf_mbox_clear_queue (of_nat qid) ONIC_MBOX_QUEUE_DIR_TX;
           if err \<noteq> 0 then ret err
           else do {
             set_tx_queue qid (Some (q\<lparr>tq_state := unset_bit ONIC_VF_TX_CTXT_CONFIGURED (tq_state q)\<rparr>));
             ret 0 } } }"

definition onic_vf_config_one_tx_context :: "nat \<Rightarrow> int onic" where
  "onic_vf_config_one_tx_context qid = do {
     p \<leftarrow> get_priv;
     case pr_tx_queue p qid of
       None \<Rightarrow> ret (- EINVAL)
     | Some q \<Rightarrow> (case tq_vector q of
         None \<Rightarrow> ret (- EINVAL)
       | Some vec \<Rightarrow>
           if bit (tq_state q) ONIC_VF_TX_CTXT_CONFIGURED then ret (- EALREADY)
           else do {
             err \<leftarrow> onic_vf_mbox_config_queue (Some (vf_tx_cfg qid vec (tq_ring q)));
             if err \<noteq> 0 then ret err
             else do {
               set_tx_queue qid (Some (q\<lparr>tq_state := set_bit ONIC_VF_TX_CTXT_CONFIGURED (tq_state q)\<rparr>));
               ret 0 } }) }"

definition onic_vf_clear_one_rx_context :: "nat \<Rightarrow> int onic" where
  "onic_vf_clear_one_rx_context qid = do {
     p \<leftarrow> get_priv;
     case pr_rx_queue p qid of
       None \<Rightarrow> ret 0
     | Some q \<Rightarrow>
         if \<not> bit (rq_state q) ONIC_VF_RX_CTXT_CONFIGURED then ret 0
         else do {
           err \<leftarrow> onic_vf_mbox_clear_queue (of_nat qid) ONIC_MBOX_QUEUE_DIR_RX;
           if err \<noteq> 0 then ret err
           else do {
             set_rx_queue qid (Some (q\<lparr>rq_state := unset_bit ONIC_VF_RX_CTXT_CONFIGURED (rq_state q)\<rparr>));
             ret 0 } } }"

definition onic_vf_config_one_rx_context :: "nat \<Rightarrow> int onic" where
  "onic_vf_config_one_rx_context qid = do {
     p \<leftarrow> get_priv;
     case pr_rx_queue p qid of
       None \<Rightarrow> ret (- EINVAL)
     | Some q \<Rightarrow> (case rq_vector q of
         None \<Rightarrow> ret (- EINVAL)
       | Some vec \<Rightarrow>
           if ring_desc (rq_desc_ring q) = 0 \<or> ring_desc (rq_cmpl_ring q) = 0 then ret (- EINVAL)
           else if bit (rq_state q) ONIC_VF_RX_CTXT_CONFIGURED then ret (- EALREADY)
           else do {
             err \<leftarrow> onic_vf_mbox_config_queue (Some (vf_rx_cfg qid vec (rq_desc_ring q) (rq_cmpl_ring q)));
             if err \<noteq> 0 then ret err
             else do {
               set_rx_queue qid (Some (q\<lparr>rq_state := set_bit ONIC_VF_RX_CTXT_CONFIGURED (rq_state q)\<rparr>));
               ret 0 } }) }"

text \<open>Clearing goes on after an error and returns the first one.\<close>

definition clear_all :: "(nat \<Rightarrow> int onic) \<Rightarrow> nat \<Rightarrow> int onic" where
  "clear_all clear_one n = for_each_acc [0..<n] (\<lambda>qid first_err. do {
     err \<leftarrow> clear_one qid;
     ret (if err \<noteq> 0 \<and> first_err = 0 then err else first_err) }) 0"

definition onic_vf_tx_contexts_clear :: "int onic" where
  "onic_vf_tx_contexts_clear = do {
     p \<leftarrow> get_priv;
     clear_all onic_vf_clear_one_tx_context (unat (pr_num_tx_queues p)) }"

definition onic_vf_rx_contexts_clear :: "int onic" where
  "onic_vf_rx_contexts_clear = do {
     p \<leftarrow> get_priv;
     clear_all onic_vf_clear_one_rx_context (unat (pr_num_rx_queues p)) }"

definition onic_vf_tx_contexts_init :: "int onic" where
  "onic_vf_tx_contexts_init = do {
     p \<leftarrow> get_priv;
     (err, _) \<leftarrow> for_until [0..<unat (pr_num_tx_queues p)] onic_vf_config_one_tx_context;
     if err \<noteq> 0 then do { _ \<leftarrow> onic_vf_tx_contexts_clear; ret err } else ret 0 }"

definition onic_vf_rx_contexts_init :: "int onic" where
  "onic_vf_rx_contexts_init = do {
     p \<leftarrow> get_priv;
     (err, _) \<leftarrow> for_until [0..<unat (pr_num_rx_queues p)] onic_vf_config_one_rx_context;
     if err \<noteq> 0 then do { _ \<leftarrow> onic_vf_rx_contexts_clear; ret err } else ret 0 }"

section \<open>The receive datapath\<close>

text \<open>A queue with NAPI enabled has a vector: its context was configured.\<close>

definition stop_rx_queue :: "nat \<Rightarrow> unit onic" where
  "stop_rx_queue qid = do {
     p \<leftarrow> get_priv;
     case pr_rx_queue p qid of
       None \<Rightarrow> ret ()
     | Some q \<Rightarrow>
         if \<not> bit (rq_state q) ONIC_VF_RX_NAPI_ENABLED then ret ()
         else do {
           onic_vf_set_completion_tail (of_nat qid) (ring_next_to_clean (rq_cmpl_ring q)) 0;
           set_rx_queue qid (Some (q\<lparr>rq_state := unset_bit ONIC_VF_RX_NAPI_ENABLED (rq_state q)\<rparr>));
           (case rq_vector q of
              None \<Rightarrow> ret ()
            | Some vec \<Rightarrow> do {
                irq \<leftarrow> perform (Pci (Pci_irq_vector (unat (qv_vid vec))));
                invoke (Pci (Synchronize_irq irq)) });
           invoke (Net (Napi_disable qid));
           invoke (Net (Netif_napi_del qid)) } }"

definition onic_vf_rx_datapath_clear :: "unit onic" where
  "onic_vf_rx_datapath_clear = do {
     p \<leftarrow> get_priv;
     for_each [0..<unat (pr_num_rx_queues p)] stop_rx_queue }"

definition start_rx_queue :: "nat \<Rightarrow> int onic" where
  "start_rx_queue qid = do {
     p \<leftarrow> get_priv;
     case pr_rx_queue p qid of
       None \<Rightarrow> ret (- EINVAL)
     | Some q \<Rightarrow>
         if \<not> bit (rq_state q) ONIC_VF_RX_CTXT_CONFIGURED \<or>
            ONIC_VF_RX_DESC_STEP \<ge> unat (onic_vf_ring_real_count (rq_desc_ring q)) then ret (- EINVAL)
         else do {
           invoke (Net (Netif_napi_add qid));
           invoke (Net (Napi_enable qid));
           set_rx_queue qid (Some (q\<lparr>rq_state := set_bit ONIC_VF_RX_NAPI_ENABLED (rq_state q),
             rq_desc_ring := (rq_desc_ring q)\<lparr>ring_next_to_use := of_nat ONIC_VF_RX_DESC_STEP\<rparr>\<rparr>));
           onic_vf_set_rx_head (of_nat qid) (of_nat ONIC_VF_RX_DESC_STEP);
           onic_vf_set_completion_tail (of_nat qid) 0 1;
           ret 0 } }"

definition onic_vf_rx_datapath_init :: "int onic" where
  "onic_vf_rx_datapath_init = do {
     p \<leftarrow> get_priv;
     (err, _) \<leftarrow> for_until [0..<unat (pr_num_rx_queues p)] start_rx_queue;
     if err \<noteq> 0 then do { onic_vf_rx_datapath_clear; ret err } else ret 0 }"

definition onic_vf_rx_poll_work_start :: "unit onic" where
  "onic_vf_rx_poll_work_start = invoke (Net (Schedule_rx_poll 100))"

definition onic_vf_rx_poll_work_stop :: "unit onic" where
  "onic_vf_rx_poll_work_stop = invoke (Net Cancel_rx_poll)"

definition onic_vf_rx_poll_work_fn :: "unit onic" where
  "onic_vf_rx_poll_work_fn = do {
     p \<leftarrow> get_priv;
     if pr_netdev p = None then ret ()
     else do {
       running \<leftarrow> perform (Net Netif_running);
       if running = 0 then ret ()
       else do {
         for_each [0..<unat (pr_num_rx_queues p)] (\<lambda>qid. do {
           p \<leftarrow> get_priv;
           case pr_rx_queue p qid of
             None \<Rightarrow> ret ()
           | Some q \<Rightarrow>
               if \<not> bit (rq_state q) ONIC_VF_RX_NAPI_ENABLED then ret ()
               else do {
                 pending \<leftarrow> onic_vf_rx_completion_pending q;
                 if \<not> pending then ret ()
                 else invoke (Net (Napi_schedule qid)) } });
         invoke (Net (Schedule_rx_poll 100)) } } }"

end
