(* ===== verification/Vf_Netdev.thy ===== *)
theory Vf_Netdev
  imports Vf_Queues
begin

text \<open>
  \<^verbatim>\<open>onic_vf_netdev.c\<close>: the network device of a VF. Opening allocates the rings, has the PF program the queue
  contexts and starts the receive datapath; transmission puts one packet into the ring of its queue.
\<close>

abbreviation (input) NETDEV_TX_OK :: int where "NETDEV_TX_OK \<equiv> 0"
abbreviation (input) NETDEV_TX_BUSY :: int where "NETDEV_TX_BUSY \<equiv> 16"

section \<open>Open and stop\<close>

definition onic_vf_tx_clean_work_start :: "unit onic" where
  "onic_vf_tx_clean_work_start = invoke (Net (Schedule_tx_clean 100))"

definition onic_vf_tx_clean_work_stop :: "unit onic" where
  "onic_vf_tx_clean_work_stop = invoke (Net Cancel_tx_clean)"

definition onic_vf_open_netdev :: "int onic" where
  "onic_vf_open_netdev = do {
     err \<leftarrow> onic_vf_rings_init;
     if err \<noteq> 0 then ret err
     else do {
       err \<leftarrow> onic_vf_tx_contexts_init;
       if err \<noteq> 0 then do { onic_vf_rings_clear; ret err }
       else do {
         err \<leftarrow> onic_vf_rx_contexts_init;
         if err \<noteq> 0 then do {
           _ \<leftarrow> onic_vf_tx_contexts_clear;
           onic_vf_rings_clear;
           ret err }
         else do {
           err \<leftarrow> onic_vf_rx_datapath_init;
           if err \<noteq> 0 then do {
             _ \<leftarrow> onic_vf_rx_contexts_clear;
             _ \<leftarrow> onic_vf_tx_contexts_clear;
             onic_vf_rings_clear;
             ret err }
           else do {
             invoke (Net Netif_tx_start_all_queues);
             invoke (Net Netif_carrier_on);
             onic_vf_tx_clean_work_start;
             onic_vf_rx_poll_work_start;
             ret 0 } } } } }"

definition onic_vf_stop_netdev :: "int onic" where
  "onic_vf_stop_netdev = do {
     invoke (Net Netif_carrier_off);
     invoke (Net Netif_tx_stop_all_queues);
     onic_vf_rx_poll_work_stop;
     onic_vf_tx_clean_work_stop;
     onic_vf_rx_datapath_clear;
     err \<leftarrow> onic_vf_rx_contexts_clear;
     if err \<noteq> 0 then ret err
     else do {
       err \<leftarrow> onic_vf_tx_contexts_clear;
       if err \<noteq> 0 then ret err
       else do {
         onic_vf_rings_clear;
         ret 0 } } }"

section \<open>Statistics, address, MTU\<close>

text \<open>The statistics are there as long as the device is: \<^verbatim>\<open>onic_vf_probe\<close> allocates them before it registers it.\<close>

definition onic_vf_get_stats64 :: "link_stats onic" where
  "onic_vf_get_stats64 = do { p \<leftarrow> get_priv; ret (sum_stats p) }"

definition onic_vf_set_mac_address :: "u8 list \<Rightarrow> int onic" where
  "onic_vf_set_mac_address sa_data =
     (if \<not> is_valid_ether_addr sa_data then ret (- EADDRNOTAVAIL)
      else do {
        invoke (Net (Eth_hw_addr_set (take ETH_ALEN sa_data)));
        upd_priv (pr_netdev_update (map_option (nd_dev_addr_update (\<lambda>_. take ETH_ALEN sa_data))));
        ret 0 })"

definition onic_vf_change_mtu :: "int \<Rightarrow> int onic" where
  "onic_vf_change_mtu mtu = do {
     p \<leftarrow> get_priv;
     case pr_netdev p of
       None \<Rightarrow> ret (- EINVAL)
     | Some nd \<Rightarrow>
         if mtu < nd_min_mtu nd \<or> mtu > nd_max_mtu nd then ret (- EINVAL)
         else do {
           upd_priv (pr_netdev_update (map_option (nd_mtu_update (\<lambda>_. mtu))));
           ret 0 } }"

section \<open>Transmission\<close>

definition onic_vf_tx_maybe_wake_subqueue :: "nat \<Rightarrow> unit onic" where
  "onic_vf_tx_maybe_wake_subqueue qid = do {
     p \<leftarrow> get_priv;
     case pr_tx_queue p qid of
       None \<Rightarrow> ret ()
     | Some q \<Rightarrow> do {
         stopped \<leftarrow> perform (Net (Netif_tx_queue_stopped qid));
         if stopped \<noteq> 0 \<and> \<not> onic_vf_tx_ring_full (tq_ring q) then invoke (Net (Netif_wake_subqueue qid)) else ret () } }"

definition onic_vf_tx_clean_work_fn :: "unit onic" where
  "onic_vf_tx_clean_work_fn = do {
     p \<leftarrow> get_priv;
     if pr_netdev p = None then ret ()
     else do {
       running \<leftarrow> perform (Net Netif_running);
       if running = 0 then ret ()
       else do {
         for_each [0..<unat (pr_num_tx_queues p)] (\<lambda>qid. do {
           p \<leftarrow> get_priv;
           if pr_tx_queue p qid = None then ret ()
           else do {
             onic_vf_tx_clean qid;
             onic_vf_tx_maybe_wake_subqueue qid } });
         invoke (Net (Schedule_tx_clean 100)) } } }"

text \<open>\<^verbatim>\<open>tx_dropped\<close> and \<^verbatim>\<open>tx_errors\<close> are counted together.\<close>

definition count_tx_error :: "nat \<Rightarrow> unit onic" where
  "count_tx_error cpu = upd_stats cpu (\<lambda>st. st\<lparr>st_tx_dropped := st_tx_dropped st + 1, st_tx_errors := st_tx_errors st + 1\<rparr>)"

definition drop_skb :: "nat \<Rightarrow> ptr \<Rightarrow> int onic" where
  "drop_skb cpu skb = do {
     count_tx_error cpu;
     invoke (Skb (Dev_kfree_skb skb));
     ret NETDEV_TX_OK }"

text \<open>From the mapping of the packet to the doorbell.\<close>

definition submit_skb :: "nat \<Rightarrow> nat \<Rightarrow> ptr \<Rightarrow> onic_tx_queue \<Rightarrow> int onic" where
  "submit_skb cpu qid skb q = do {
     l \<leftarrow> perform (Skb (Skb_len skb));
     let len = (of_int l :: u32);
     a \<leftarrow> perform (Skb (Dma_map_single skb len));
     bad \<leftarrow> perform (Skb (Dma_mapping_error (of_int a)));
     if bad \<noteq> 0 then drop_skb cpu skb
     else do {
       let i = ring_head (tq_ring q);
       qdma_pack_h2c_st_desc (ring_desc (tq_ring q)) (QDMA_H2C_ST_DESC_SIZE * i)
         \<lparr>h2c_metadata = len, h2c_len = ucast len, h2c_src_addr = of_int a\<rparr>;
       let ring = onic_vf_tx_ring_increment_head (tq_ring q);
       set_tx_queue qid (Some (q\<lparr>tq_buffer := (tq_buffer q)
           [i := (tq_buffer q ! i)\<lparr>tb_type := ONIC_TX_SKB, tb_skb := skb, tb_dma_addr := of_int a, tb_len := len\<rparr>],
         tq_ring := ring\<rparr>));
       upd_stats cpu (\<lambda>st. st\<lparr>st_tx_packets := st_tx_packets st + 1, st_tx_bytes := st_tx_bytes st + ucast len\<rparr>);
       onic_vf_set_tx_head (of_nat qid) (ring_next_to_use ring);
       (if onic_vf_tx_ring_full ring then invoke (Net (Netif_stop_subqueue qid)) else ret ());
       ret NETDEV_TX_OK } }"

text \<open>The queue after cleaning, and whether its ring has room; a full ring is cleaned a second time.\<close>

definition tx_ring_full_at :: "nat \<Rightarrow> bool onic" where
  "tx_ring_full_at qid = do {
     p \<leftarrow> get_priv;
     ret (case pr_tx_queue p qid of None \<Rightarrow> True | Some q \<Rightarrow> onic_vf_tx_ring_full (tq_ring q)) }"

definition make_room :: "nat \<Rightarrow> bool onic" where
  "make_room qid = do {
     onic_vf_tx_clean qid;
     full \<leftarrow> tx_ring_full_at qid;
     if full then do {
       invoke (Net (Netif_stop_subqueue qid));
       onic_vf_tx_clean qid;
       full \<leftarrow> tx_ring_full_at qid;
       if full then ret False
       else do {
         invoke (Net (Netif_wake_subqueue qid));
         ret True } }
     else ret True }"

definition xmit_padded :: "nat \<Rightarrow> nat \<Rightarrow> ptr \<Rightarrow> int onic" where
  "xmit_padded cpu qid skb = do {
     pad \<leftarrow> perform (Skb (Skb_put_padto skb ETH_ZLEN));
     if pad \<noteq> 0 then do {
       count_tx_error cpu;
       ret NETDEV_TX_OK }
     else do {
       p \<leftarrow> get_priv;
       case pr_tx_queue p qid of
         None \<Rightarrow> ret NETDEV_TX_OK
       | Some q \<Rightarrow> submit_skb cpu qid skb q } }"

definition xmit_queue :: "nat \<Rightarrow> nat \<Rightarrow> ptr \<Rightarrow> int onic" where
  "xmit_queue cpu qid skb = do {
     room \<leftarrow> make_room qid;
     if \<not> room then ret NETDEV_TX_BUSY else xmit_padded cpu qid skb }"

definition onic_vf_xmit_frame :: "ptr \<Rightarrow> int onic" where
  "onic_vf_xmit_frame skb = do {
     cpu \<leftarrow> this_cpu;
     p \<leftarrow> get_priv;
     if pr_num_tx_queues p = 0 then drop_skb cpu skb
     else do {
       m \<leftarrow> perform (Skb (Skb_queue_mapping skb));
       let qid = unat ((of_int m :: u16) mod pr_num_tx_queues p);
       case pr_tx_queue p qid of
         None \<Rightarrow> drop_skb cpu skb
       | Some q \<Rightarrow> if ring_desc (tq_ring q) = 0 then drop_skb cpu skb else xmit_queue cpu qid skb } }"

section \<open>Conservation of packets\<close>

text \<open>Cleaning a queue may free entries, it never fills one; the queue stays well shaped.\<close>

definition tx_shape :: "onic_tx_queue \<Rightarrow> bool" where
  "tx_shape q \<longleftrightarrow> length (tq_buffer q) = unat (onic_vf_ring_real_count (tq_ring q)) \<and>
     ring_tail (tq_ring q) < length (tq_buffer q) \<and> ring_head (tq_ring q) < length (tq_buffer q)"

lemma bufs_ok_shape: "bufs_ok (vf_entries q) (tq_ring q) (tq_buffer q) \<Longrightarrow> tx_shape q \<and> \<not> busy (tq_buffer q ! ring_head (tq_ring q))"
  using bufs_ok_head [of "vf_entries q" "tq_ring q" "tq_buffer q"]
  by (simp add: tx_shape_def bufs_ok_def ring_ok_def real_count_same)

definition cleaned :: "onic_tx_queue \<Rightarrow> onic_tx_queue \<Rightarrow> packets \<Rightarrow> packets \<Rightarrow> bool" where
  "cleaned q q' d d' \<longleftrightarrow> (tx_shape q \<longrightarrow> tx_shape q' \<and> tx_same q q' \<and> released q q' d d' \<and>
     (\<forall>j. busy (tq_buffer q' ! j) \<longrightarrow> busy (tq_buffer q ! j)))"

lemma cleaned_trans: "cleaned q q1 d d1 \<Longrightarrow> cleaned q1 q2 d1 d2 \<Longrightarrow> cleaned q q2 d d2"
  by (auto simp: cleaned_def intro: tx_same_trans released_trans)

lemma tx_same_ring:
  "tx_same q q' \<Longrightarrow> onic_vf_ring_real_count (tq_ring q') = onic_vf_ring_real_count (tq_ring q) \<and>
     ring_next_to_use (tq_ring q') = ring_next_to_use (tq_ring q) \<and> ring_desc (tq_ring q') = ring_desc (tq_ring q) \<and>
     ring_wb (tq_ring q') = ring_wb (tq_ring q)"
  by (cases "tq_ring q"; cases "tq_ring q'") (simp add: tx_same_def onic_vf_ring_real_count_def)

lemma tx_reap_busy:
  "busy (tq_buffer (snd (fst (run_state (tx_reap n cidx q work) s))) ! j) \<Longrightarrow> busy (tq_buffer q ! j)"
proof (induction n cidx q work arbitrary: s rule: tx_reap.induct)
  case (2 n cidx q work)
  let ?i = "ring_tail (tq_ring q)"
  have "busy ((tq_buffer q)[?i := zero_tx_buffer] ! j) \<Longrightarrow> busy (tq_buffer q ! j)"
    by (cases "?i < length (tq_buffer q)") (auto simp: nth_list_update list_update_beyond split: if_splits)
  then show ?case
    using 2(2) 2(1) [OF _ refl refl]
    by (auto simp: Let_def split: if_splits prod.splits)
qed simp

lemma tx_clean_queue_busy:
  assumes "run_state (tx_clean_queue q) s = (q', s')" "busy (tq_buffer q' ! j)"
  shows "busy (tq_buffer q ! j)"
  using assms(1)
proof (cases rule: tx_clean_queue_run)
  case (clean w q1 s1 s2)
  then show ?thesis
    using tx_reap_busy [of "unat (onic_vf_ring_real_count (tq_ring q))" "wb_cidx_read s q"
        "q\<lparr>tq_state := set_bit 0 (tq_state q)\<rparr>" 0 s1 j] assms(2) by simp
qed (use assms in simp)

lemma tx_clean_queue_cleaned:
  assumes "run_state (tx_clean_queue q) s = (q', s')"
  shows "cleaned q q' (packets (trace s)) (packets (trace s'))"
  using tx_clean_queue_released [OF assms] tx_clean_queue_busy [OF assms] tx_same_ring [of q q']
  by (auto simp: cleaned_def tx_shape_def tx_same_def)

text \<open>What an operation on queue \<open>i\<close> does to it.\<close>

definition queue_rel ::
  "nat \<Rightarrow> (onic_tx_queue \<Rightarrow> onic_tx_queue \<Rightarrow> packets \<Rightarrow> packets \<Rightarrow> bool) \<Rightarrow>
     onic_private \<times> packets \<Rightarrow> onic_private \<times> packets \<Rightarrow> bool" where
  "queue_rel i R x y \<longleftrightarrow> (case pr_tx_queue (fst x) i of None \<Rightarrow> y = x
     | Some q \<Rightarrow> \<exists>q'. fst y = pr_tx_queue_update (\<lambda>t. t(i := Some q')) (fst x) \<and> R q q' (snd x) (snd y))"

lemma queue_rel_trans:
  assumes "queue_rel i cleaned x y" "queue_rel i cleaned y z"
  shows "queue_rel i cleaned x z"
proof (cases "pr_tx_queue (fst x) i")
  case None
  with assms show ?thesis by (simp add: queue_rel_def)
next
  case (Some q)
  with assms obtain q1 where 1: "fst y = pr_tx_queue_update (\<lambda>t. t(i := Some q1)) (fst x)" "cleaned q q1 (snd x) (snd y)"
    by (auto simp: queue_rel_def)
  with assms(2) obtain q2 where 2: "fst z = pr_tx_queue_update (\<lambda>t. t(i := Some q2)) (fst y)" "cleaned q1 q2 (snd y) (snd z)"
    by (auto simp: queue_rel_def)
  have "fst z = pr_tx_queue_update (\<lambda>t. t(i := Some q2)) (fst x)" by (simp add: 1(1) 2(1) comp_def)
  with Some 1(2) 2(2) show ?thesis by (auto simp: queue_rel_def intro: cleaned_trans)
qed

lemma rel_tx_clean [onic_rel_intro]: "onic_rel packets (\<lambda>a x y. queue_rel i cleaned x y) (onic_vf_tx_clean i)"
proof (rule onic_relI)
  fix s a s'
  assume run: "run_state (onic_vf_tx_clean i) s = (a, s')"
  show "\<exists>evs p'. s' = after s evs p' \<and> queue_rel i cleaned (priv s, packets (trace s)) (p', packets (trace s @ evs))"
  proof (cases "pr_tx_queue (priv s) i")
    case None
    with run show ?thesis
      by (intro exI [of _ "[]"] exI [of _ "priv s"]) (simp add: onic_vf_tx_clean_def run_simps queue_rel_def)
  next
    case (Some q)
    obtain q' s1 where 1: "run_state (tx_clean_queue q) s = (q', s1)" by (metis prod.collapse)
    then obtain evs where e: "s1 = s\<lparr>trace := trace s @ evs\<rparr>" by (rule io_onlyD [OF io_only_tx_clean_queue])
    from tx_clean_queue_cleaned [OF 1] e have "cleaned q q' (packets (trace s)) (packets (trace s @ evs))" by simp
    with run Some 1 e show ?thesis
      by (intro exI [of _ evs] exI [of _ "pr_tx_queue_update (\<lambda>t. t(i := Some q')) (priv s)"])
        (auto simp: onic_vf_tx_clean_def set_tx_queue_def run_simps queue_rel_def)
  qed
qed

lemma pk_rel_calls [onic_rel_intro]:
  "onic_rel packets (\<lambda>a x y. y = x) (perform (Net n))" "onic_rel packets (\<lambda>a x y. y = x) (invoke (Net n))"
  "onic_rel packets (\<lambda>a x y. y = x) this_cpu"
  "onic_rel packets (\<lambda>a x y. y = x) (qdma_pack_h2c_st_desc b off e)"
  "onic_rel packets (\<lambda>a x y. y = x) (onic_vf_set_tx_head qid pidx)"
  by (rule pk.rel_quiet; auto intro!: io_intro triple_intro emits_unpack emits_vf_doorbells simp: packets_quiet_def)+

lemma rel_full_at [onic_rel_intro]:
  "onic_rel packets (\<lambda>a x y. y = x \<and> a = (case pr_tx_queue (fst x) i of None \<Rightarrow> True | Some q \<Rightarrow> onic_vf_tx_ring_full (tq_ring q)))
     (tx_ring_full_at i)"
  unfolding tx_ring_full_at_def by (rule onic_rel_conseq, (rule onic_rel_intro)+) auto

lemma rel_make_room:
  "onic_rel packets (\<lambda>a x y. queue_rel i cleaned x y \<and>
      (a \<longrightarrow> (\<forall>q. pr_tx_queue (fst y) i = Some q \<longrightarrow> \<not> onic_vf_tx_ring_full (tq_ring q)))) (make_room i)"
  unfolding make_room_def
  apply (rule onic_rel_conseq)
  apply ((rule onic_rel_intro)+)[1]
  apply (elim exE conjE)
  apply (auto split: if_splits intro: queue_rel_trans)
  done

text \<open>The conservation law: between \<open>x\<close> and \<open>y\<close> queue \<open>q\<close> became \<open>q'\<close> and the packets \<open>M\<close> came in.\<close>

definition conserves :: "ptr multiset \<Rightarrow> onic_tx_queue \<Rightarrow> onic_tx_queue \<Rightarrow> packets \<Rightarrow> packets \<Rightarrow> bool" where
  "conserves M q q' d d' \<longleftrightarrow> pk_freed d' + skbs (tq_buffer q') = pk_freed d + skbs (tq_buffer q) + M \<and>
     pk_unmapped d' + dmas (tq_buffer q') + pk_mapped d = pk_unmapped d + dmas (tq_buffer q) + pk_mapped d'"

lemma released_conserves: "released q q' d d' \<Longrightarrow> conserves {#} q q' d d'"
  by (auto simp: released_def conserves_def)

lemma conserves_trans: "conserves M q q1 d d1 \<Longrightarrow> conserves N q1 q2 d1 d2 \<Longrightarrow> conserves (M + N) q q2 d d2"
  unfolding conserves_def
proof (elim conjE, intro conjI multiset_eqI)
  fix x
  assume f: "pk_freed d1 + skbs (tq_buffer q1) = pk_freed d + skbs (tq_buffer q) + M"
      "pk_freed d2 + skbs (tq_buffer q2) = pk_freed d1 + skbs (tq_buffer q1) + N"
    and u: "pk_unmapped d1 + dmas (tq_buffer q1) + pk_mapped d = pk_unmapped d + dmas (tq_buffer q) + pk_mapped d1"
      "pk_unmapped d2 + dmas (tq_buffer q2) + pk_mapped d1 = pk_unmapped d1 + dmas (tq_buffer q1) + pk_mapped d2"
  show "count (pk_freed d2 + skbs (tq_buffer q2)) x = count (pk_freed d + skbs (tq_buffer q) + (M + N)) x"
    using f by (simp add: ac_simps)
  show "count (pk_unmapped d2 + dmas (tq_buffer q2) + pk_mapped d) x =
      count (pk_unmapped d + dmas (tq_buffer q) + pk_mapped d2) x"
    using u [THEN arg_cong, of "\<lambda>A. count A x"] by simp
qed

lemma pk_drop_skb:
  "onic_rel packets (\<lambda>a x y. a = NETDEV_TX_OK \<and> pr_tx_queue (fst y) = pr_tx_queue (fst x) \<and>
      pk_freed (snd y) = add_mset skb (pk_freed (snd x)) \<and> pk_mapped (snd y) = pk_mapped (snd x) \<and>
      pk_unmapped (snd y) = pk_unmapped (snd x)) (drop_skb cpu skb)"
  unfolding drop_skb_def count_tx_error_def
  apply (rule onic_rel_conseq)
  apply ((rule onic_rel_intro onic_rel_stats pk.rel_invoke)+)[1]
  apply (auto simp: packets_step_def)
  done

text \<open>Submitting to a queue with a free entry at its head.\<close>

definition submitted :: "onic_tx_queue \<Rightarrow> ptr \<Rightarrow> dma_addr \<Rightarrow> u32 \<Rightarrow> onic_tx_queue" where
  "submitted q skb a len = q\<lparr>tq_buffer := (tq_buffer q)[ring_head (tq_ring q) := (tq_buffer q ! ring_head (tq_ring q))
      \<lparr>tb_type := ONIC_TX_SKB, tb_skb := skb, tb_dma_addr := a, tb_len := len\<rparr>],
    tq_ring := onic_vf_tx_ring_increment_head (tq_ring q)\<rparr>"

lemma submitted_bufs:
  assumes "tx_shape q" "\<not> busy (tq_buffer q ! ring_head (tq_ring q))" "skb \<noteq> 0"
  shows "skbs (tq_buffer (submitted q skb a len)) = add_mset skb (skbs (tq_buffer q))"
    "dmas (tq_buffer (submitted q skb a len)) = add_mset a (dmas (tq_buffer q))"
  using assms by (simp_all add: submitted_def tx_shape_def bufs_put busy_def)

lemma rel_submit:
  "onic_rel packets (\<lambda>r x y. pr_tx_queue (fst x) i = Some q \<and> tx_shape q \<and> \<not> busy (tq_buffer q ! ring_head (tq_ring q)) \<and> skb \<noteq> 0 \<longrightarrow>
     r = NETDEV_TX_OK \<and> (\<exists>q'. pr_tx_queue (fst y) = (pr_tx_queue (fst x))(i := Some q') \<and>
       (q' = q \<or> (\<exists>a len. q' = submitted q skb a len)) \<and> conserves {#skb#} q q' (snd x) (snd y)))
     (submit_skb cpu i skb q)"
  unfolding submit_skb_def set_tx_queue_def
  apply (rule onic_rel_conseq)
  apply ((rule onic_rel_intro onic_rel_stats pk_drop_skb pk.rel_perform pk.rel_invoke)+)[1]
  apply (elim exE conjE, intro impI)
  apply (simp split: if_splits)
  subgoal for x y aa ya ab yb ac yc
    by (intro exI [of _ q]) (auto simp: fun_upd_idem conserves_def packets_step_def)
  subgoal for a x y aa ya ab yb ac yc ae b
    by (cases "onic_vf_tx_ring_full (onic_vf_tx_ring_increment_head (tq_ring q))";
        intro conjI exI [of _ "submitted q skb (of_int ab) (of_int aa)"] disjI2 exI [of _ "of_int ab"] exI [of _ "of_int aa"])
      (simp_all add: submitted_bufs conserves_def packets_step_def, simp_all add: submitted_def)
  done

text \<open>All packets and mappings in the queues of the device.\<close>

definition all_skbs :: "onic_private \<Rightarrow> ptr multiset" where
  "all_skbs p = (\<Sum>i<ONIC_MAX_QUEUES. case pr_tx_queue p i of None \<Rightarrow> {#} | Some q \<Rightarrow> skbs (tq_buffer q))"

definition all_dmas :: "onic_private \<Rightarrow> dma_addr multiset" where
  "all_dmas p = (\<Sum>i<ONIC_MAX_QUEUES. case pr_tx_queue p i of None \<Rightarrow> {#} | Some q \<Rightarrow> dmas (tq_buffer q))"

definition balanced :: "ptr multiset \<Rightarrow> onic_private \<times> packets \<Rightarrow> onic_private \<times> packets \<Rightarrow> bool" where
  "balanced M x y \<longleftrightarrow> pk_freed (snd y) + all_skbs (fst y) = pk_freed (snd x) + all_skbs (fst x) + M \<and>
     pk_unmapped (snd y) + all_dmas (fst y) + pk_mapped (snd x) = pk_unmapped (snd x) + all_dmas (fst x) + pk_mapped (snd y)"

lemma sum_at:
  fixes f g :: "nat \<Rightarrow> 'a multiset"
  assumes "i < 64" "\<And>j. j \<noteq> i \<Longrightarrow> g j = f j"
  shows "(\<Sum>j<64. g j) + f i = (\<Sum>j<64. f j) + g i"
proof -
  have "(\<Sum>j\<in>{..<64} - {i}. g j) = (\<Sum>j\<in>{..<64} - {i}. f j)" by (rule sum.cong) (use assms in auto)
  then show ?thesis using assms(1) by (simp add: sum.remove [of "{..<64}" i])
qed

lemma balanced_queue:
  assumes "i < 64" "pr_tx_queue (fst x) i = Some q" "pr_tx_queue (fst y) = (pr_tx_queue (fst x))(i := Some q')"
    "conserves M q q' (snd x) (snd y)"
  shows "balanced M x y"
proof -
  have s: "all_skbs (fst y) + skbs (tq_buffer q) = all_skbs (fst x) + skbs (tq_buffer q')"
    unfolding all_skbs_def using sum_at [OF assms(1), of "\<lambda>j. case pr_tx_queue (fst y) j of None \<Rightarrow> {#} | Some q \<Rightarrow> skbs (tq_buffer q)"
      "\<lambda>j. case pr_tx_queue (fst x) j of None \<Rightarrow> {#} | Some q \<Rightarrow> skbs (tq_buffer q)"] assms(2,3) by simp
  have d: "all_dmas (fst y) + dmas (tq_buffer q) = all_dmas (fst x) + dmas (tq_buffer q')"
    unfolding all_dmas_def using sum_at [OF assms(1), of "\<lambda>j. case pr_tx_queue (fst y) j of None \<Rightarrow> {#} | Some q \<Rightarrow> dmas (tq_buffer q)"
      "\<lambda>j. case pr_tx_queue (fst x) j of None \<Rightarrow> {#} | Some q \<Rightarrow> dmas (tq_buffer q)"] assms(2,3) by simp
  show ?thesis
    unfolding balanced_def
  proof (intro conjI multiset_eqI)
    fix a
    show "count (pk_freed (snd y) + all_skbs (fst y)) a = count (pk_freed (snd x) + all_skbs (fst x) + M) a"
      using s [THEN arg_cong, of "\<lambda>A. count A a"] assms(4) [unfolded conserves_def, THEN conjunct1, THEN arg_cong, of "\<lambda>A. count A a"]
      by simp
  next
    fix a
    show "count (pk_unmapped (snd y) + all_dmas (fst y) + pk_mapped (snd x)) a =
        count (pk_unmapped (snd x) + all_dmas (fst x) + pk_mapped (snd y)) a"
      using d [THEN arg_cong, of "\<lambda>A. count A a"] assms(4) [unfolded conserves_def, THEN conjunct2, THEN arg_cong, of "\<lambda>A. count A a"]
      by simp
  qed
qed

lemma balanced_same:
  "pr_tx_queue (fst y) = pr_tx_queue (fst x) \<Longrightarrow> pk_freed (snd y) = pk_freed (snd x) + M \<Longrightarrow>
     pk_mapped (snd y) = pk_mapped (snd x) \<Longrightarrow> pk_unmapped (snd y) = pk_unmapped (snd x) \<Longrightarrow> balanced M x y"
  by (simp add: balanced_def all_skbs_def all_dmas_def ac_simps)

lemma balanced_trans: "balanced M x y \<Longrightarrow> balanced N y z \<Longrightarrow> balanced (M + N) x z"
  unfolding balanced_def
proof (elim conjE, intro conjI multiset_eqI)
  fix a
  assume f: "pk_freed (snd y) + all_skbs (fst y) = pk_freed (snd x) + all_skbs (fst x) + M"
      "pk_freed (snd z) + all_skbs (fst z) = pk_freed (snd y) + all_skbs (fst y) + N"
    and u: "pk_unmapped (snd y) + all_dmas (fst y) + pk_mapped (snd x) = pk_unmapped (snd x) + all_dmas (fst x) + pk_mapped (snd y)"
      "pk_unmapped (snd z) + all_dmas (fst z) + pk_mapped (snd y) = pk_unmapped (snd y) + all_dmas (fst y) + pk_mapped (snd z)"
  show "count (pk_freed (snd z) + all_skbs (fst z)) a = count (pk_freed (snd x) + all_skbs (fst x) + (M + N)) a"
    using f by (simp add: ac_simps)
  show "count (pk_unmapped (snd z) + all_dmas (fst z) + pk_mapped (snd x)) a =
      count (pk_unmapped (snd x) + all_dmas (fst x) + pk_mapped (snd z)) a"
    using u [THEN arg_cong, of "\<lambda>A. count A a"] by simp
qed

text \<open>Making room keeps the account; afterwards the head of the queue is free.\<close>

definition head_free :: "onic_tx_queue \<Rightarrow> bool" where
  "head_free q \<longleftrightarrow> tx_shape q \<and> \<not> busy (tq_buffer q ! ring_head (tq_ring q))"

lemma cleaned_head_free: "cleaned q q' d d' \<Longrightarrow> head_free q \<Longrightarrow> head_free q' \<and> conserves {#} q q' d d'"
  using tx_same_ring [of q q'] by (auto simp: cleaned_def head_free_def intro: released_conserves)

definition tx_tables_ok :: "onic_private \<Rightarrow> bool" where
  "tx_tables_ok p \<longleftrightarrow> unat (pr_num_tx_queues p) \<le> ONIC_MAX_QUEUES \<and>
     (\<forall>i<ONIC_MAX_QUEUES. \<forall>q. pr_tx_queue p i = Some q \<longrightarrow> head_free q)"

lemma queue_rel_balanced:
  assumes "queue_rel i cleaned x y" "tx_tables_ok (fst x)" "i < 64"
  shows "balanced {#} x y \<and> tx_tables_ok (fst y)"
proof (cases "pr_tx_queue (fst x) i")
  case None
  with assms have "y = x" by (simp add: queue_rel_def)
  with assms(2) show ?thesis by (simp add: balanced_same)
next
  case (Some q)
  with assms(1) obtain q' where q': "fst y = pr_tx_queue_update (\<lambda>t. t(i := Some q')) (fst x)" "cleaned q q' (snd x) (snd y)"
    by (auto simp: queue_rel_def)
  from cleaned_head_free [OF q'(2)] assms(2,3) Some have c: "head_free q'" "conserves {#} q q' (snd x) (snd y)"
    by (auto simp: tx_tables_ok_def)
  from balanced_queue [OF assms(3) Some _ c(2)] q'(1) have "balanced {#} x y" by simp
  with c(1) assms(2) q'(1) show ?thesis by (auto simp: tx_tables_ok_def)
qed

lemma rel_error [onic_rel_intro]: "onic_rel packets (\<lambda>a x y. \<exists>f. y = (count_stats cpu f (fst x), snd x)) (count_tx_error cpu)"
  unfolding count_tx_error_def by (rule onic_rel_conseq, rule onic_rel_stats) auto

definition xmit_balanced :: "ptr \<Rightarrow> int \<Rightarrow> onic_private \<times> packets \<Rightarrow> onic_private \<times> packets \<Rightarrow> bool" where
  "xmit_balanced skb r x y \<longleftrightarrow> (r = NETDEV_TX_OK \<or> r = NETDEV_TX_BUSY) \<and>
     balanced (if r = NETDEV_TX_BUSY then {#} else {#skb#}) x y"

lemma rel_padded:
  "onic_rel packets (\<lambda>r x y. pr_tx_queue (fst x) i \<noteq> None \<and> tx_tables_ok (fst x) \<and> skb \<noteq> 0 \<and> i < 64 \<longrightarrow> xmit_balanced skb r x y)
     (xmit_padded cpu i skb)"
  unfolding xmit_padded_def
  apply (rule onic_rel_conseq)
  apply ((rule onic_rel_intro pk_padto rel_submit)+)[1]
  apply (elim exE conjE, intro impI)
  apply (simp split: if_splits)
  subgoal by (auto simp: xmit_balanced_def intro: balanced_same)
  subgoal premises prems for a x y b
  proof -
    from prems obtain q where q: "pr_tx_queue (fst x) i = Some q" by auto
    with prems have "tx_shape q" "\<not> busy (tq_buffer q ! ring_head (tq_ring q))"
      by (auto simp: tx_tables_ok_def head_free_def)
    with prems q obtain q' where "pr_tx_queue (fst y) = (pr_tx_queue (fst x))(i := Some q')" "a = 0"
      "conserves {#skb#} q q' (snd x) (snd y)"
      by (auto simp: conserves_def)
    with prems q balanced_queue [of i x q y q'] show ?thesis by (simp add: xmit_balanced_def)
  qed
  done

lemma rel_xmit_queue:
  "onic_rel packets (\<lambda>r x y. pr_tx_queue (fst x) i \<noteq> None \<and> tx_tables_ok (fst x) \<and> skb \<noteq> 0 \<and> i < 64 \<longrightarrow> xmit_balanced skb r x y)
     (xmit_queue cpu i skb)"
  unfolding xmit_queue_def
  apply (rule onic_rel_conseq)
  apply ((rule onic_rel_intro rel_make_room rel_padded)+)[1]
  apply (elim exE conjE, intro impI)
  subgoal premises prems for a x y aa ya
  proof -
    have b: "balanced {#} x ya" "tx_tables_ok (fst ya)" using queue_rel_balanced [OF prems(2)] prems(4) by auto
    have "pr_tx_queue (fst ya) i \<noteq> None" using prems(2,4) by (auto simp: queue_rel_def)
    then have "a = NETDEV_TX_BUSY \<and> y = ya \<or> xmit_balanced skb a ya y" using prems(1,4) b(2) by (auto split: if_splits)
    then show ?thesis using b(1) balanced_trans [OF b(1)] by (auto simp: xmit_balanced_def split: if_splits dest: balanced_trans)
  qed
  done

lemma mod_queue: "tx_tables_ok p \<Longrightarrow> pr_num_tx_queues p \<noteq> 0 \<Longrightarrow> unat (m mod pr_num_tx_queues p) < 64"
  by (rule less_le_trans [of _ "unat (pr_num_tx_queues p)"])
    (auto simp: tx_tables_ok_def unat_mod unat_gt_0 intro!: mod_less_divisor)

lemma rel_xmit:
  "onic_rel packets (\<lambda>r x y. tx_tables_ok (fst x) \<and> skb \<noteq> 0 \<longrightarrow> xmit_balanced skb r x y) (onic_vf_xmit_frame skb)"
  unfolding onic_vf_xmit_frame_def
  apply (rule onic_rel_conseq)
  apply ((rule onic_rel_intro pk_drop_skb rel_xmit_queue)+)[1]
  apply (elim exE conjE, intro impI)
  apply (simp split: if_splits option.splits)
  apply (auto simp: xmit_balanced_def mod_queue intro: balanced_same)
  done

section \<open>The ring as a queue\<close>

lemma vf_txq_head_free: "vf_txq_ok q \<Longrightarrow> head_free q"
  using bufs_ok_shape by (auto simp: vf_txq_ok_def head_free_def)

lemma submitted_fifo:
  assumes "vf_txq_ok q" "\<not> onic_vf_tx_ring_full (tq_ring q)" "skb \<noteq> 0"
  shows "vf_txq_ok (submitted q skb a len)"
    "vf_pending (submitted q skb a len) = vf_pending q @
       [(tq_buffer q ! ring_head (tq_ring q))\<lparr>tb_type := ONIC_TX_SKB, tb_skb := skb, tb_dma_addr := a, tb_len := len\<rparr>]"
proof -
  let ?x = "(tq_buffer q ! ring_head (tq_ring q))\<lparr>tb_type := ONIC_TX_SKB, tb_skb := skb, tb_dma_addr := a, tb_len := len\<rparr>"
  have ok: "bufs_ok (vf_entries q) (tq_ring q) (tq_buffer q)" "ring_ok (vf_entries q) (tq_ring q)"
    "length (tq_buffer q) = vf_entries q"
    using assms(1) by (auto simp: vf_txq_ok_def bufs_ok_def)
  have n: "vf_entries (submitted q skb a len) = vf_entries q"
    by (simp add: submitted_def onic_vf_tx_ring_increment_head_def onic_vf_tx_ring_real_count_def Let_def)
  have "ring_wb (tq_ring (submitted q skb a len)) = ring_wb (tq_ring q)"
    by (simp add: submitted_def onic_vf_tx_ring_increment_head_def Let_def)
  moreover have "busy ?x" using assms(3) by (simp add: busy_def)
  ultimately show "vf_txq_ok (submitted q skb a len)"
    using vf_ring.bufs_ok_push [OF ok(1) assms(2)] assms(1) n by (simp add: vf_txq_ok_def submitted_def)
  show "vf_pending (submitted q skb a len) = vf_pending q @ [?x]"
    using vf_ring.contents_push [OF ok(2) assms(2) ok(3)] n by (simp add: vf_pending_def submitted_def)
qed

section \<open>Properties\<close>

text \<open>A VF with one queue of the size the driver allocates, nothing in it, on a card that answers 0.\<close>

definition sample_txq :: onic_tx_queue where
  "sample_txq = \<lparr>tq_self = 0x3000, tq_qid = 0, tq_state = 0, tq_buffer_ptr = 0x2000,
     tq_buffer = replicate 4095 zero_tx_buffer,
     tq_ring = \<lparr>ring_count = 4096, ring_desc = 0x1000, ring_wb = 0x10FF0, ring_dma_addr = 0x1000,
       ring_next_to_use = 0, ring_next_to_clean = 0, ring_color = 0\<rparr>, tq_vector = None, tq_xdp_xmit = 0, tq_xdp_xmit_err = 0\<rparr>"

definition sample_vf :: drv_state where
  "sample_vf = \<lparr>ext = (\<lambda>_ _. 0), trace = [],
     priv = zero_private\<lparr>pr_num_tx_queues := 1, pr_tx_queue := (\<lambda>_. None)(0 := Some sample_txq)\<rparr>\<rparr>"

lemma sample_txq_ok: "vf_txq_ok sample_txq" "vf_pending sample_txq = []" "\<not> onic_vf_tx_ring_full (tq_ring sample_txq)"
  by (auto simp: sample_txq_def vf_txq_ok_def vf_pending_def bufs_ok_def ring_ok_def contents_def occupied_def
    onic_vf_tx_ring_real_count_def onic_vf_tx_ring_full_def)

lemma sample_vf_ok: "tx_tables_ok (priv sample_vf)"
  using vf_txq_head_free [OF sample_txq_ok(1)] by (simp add: tx_tables_ok_def sample_vf_def zero_private_def)

text \<open>C6. A packet given to the VF for transmission is never lost or freed twice. Whatever the kernel and the
  card answer, \<open>onic_vf_xmit_frame\<close> returns OK or BUSY. On OK the packet is afterwards either in one of the queues
  or freed, exactly once; on BUSY it is neither, since the stack keeps it. Every packet that cleaning took out of
  a queue was freed, and the same holds for the DMA mappings: those made and not undone are those in the queues.\<close>

theorem vf_xmit_conserves_packets:
  assumes "tx_tables_ok (priv s)" "skb \<noteq> 0"
  shows "case run_state (onic_vf_xmit_frame skb) s of (r, s') \<Rightarrow>
    (r = NETDEV_TX_OK \<or> r = NETDEV_TX_BUSY) \<and>
    pk_freed (packets (trace s')) + all_skbs (priv s') =
      pk_freed (packets (trace s)) + all_skbs (priv s) + (if r = NETDEV_TX_BUSY then {#} else {#skb#}) \<and>
    pk_unmapped (packets (trace s')) + all_dmas (priv s') + pk_mapped (packets (trace s)) =
      pk_unmapped (packets (trace s)) + all_dmas (priv s) + pk_mapped (packets (trace s'))"
proof (cases "run_state (onic_vf_xmit_frame skb) s")
  case (Pair r s')
  from rel_xmit Pair obtain evs p' where "s' = after s evs p'"
    "tx_tables_ok (priv s) \<and> skb \<noteq> 0 \<longrightarrow> xmit_balanced skb r (priv s, packets (trace s)) (p', packets (trace s @ evs))"
    by (rule onic_relD) (simp only: fst_conv snd_conv)
  then show ?thesis using assms by (auto simp: Pair xmit_balanced_def balanced_def)
qed

theorem vf_xmit_conserves_packets_witness:
  "tx_tables_ok (priv sample_vf) \<and> (0x5000 :: ptr) \<noteq> 0 \<and>
   (case run_state (onic_vf_xmit_frame 0x5000) sample_vf of (r, s') \<Rightarrow>
      (r = NETDEV_TX_OK \<or> r = NETDEV_TX_BUSY) \<and>
      pk_freed (packets (trace s')) + all_skbs (priv s') =
        pk_freed (packets (trace sample_vf)) + all_skbs (priv sample_vf) + (if r = NETDEV_TX_BUSY then {#} else {#0x5000#}))"
  using sample_vf_ok vf_xmit_conserves_packets [of sample_vf "0x5000"] by (auto split: prod.splits)

text \<open>The transmit ring of the VF refines a bounded first-in first-out queue. Submitting a packet to a ring that
  is not full appends one entry with that packet at the end and leaves the older entries alone (or leaves the
  queue as it was and frees the packet, when its mapping fails); the ring indices and the buffers stay consistent.\<close>

theorem vf_submit_appends:
  assumes "pr_tx_queue (priv s) i = Some q" "vf_txq_ok q" "\<not> onic_vf_tx_ring_full (tq_ring q)" "skb \<noteq> 0"
  shows "case run_state (submit_skb cpu i skb q) s of (r, s') \<Rightarrow>
    r = NETDEV_TX_OK \<and> (\<exists>q'. pr_tx_queue (priv s') = (pr_tx_queue (priv s))(i := Some q') \<and> vf_txq_ok q' \<and>
      (q' = q \<or> (\<exists>b. tb_skb b = skb \<and> busy b \<and> vf_pending q' = vf_pending q @ [b])))"
proof (cases "run_state (submit_skb cpu i skb q) s")
  case (Pair r s')
  have free: "tx_shape q" "\<not> busy (tq_buffer q ! ring_head (tq_ring q))"
    using vf_txq_head_free [OF assms(2)] by (auto simp: head_free_def)
  from rel_submit Pair obtain evs p' where p: "s' = after s evs p'"
    "pr_tx_queue (priv s) i = Some q \<and> tx_shape q \<and> \<not> busy (tq_buffer q ! ring_head (tq_ring q)) \<and> skb \<noteq> 0 \<longrightarrow>
       r = NETDEV_TX_OK \<and> (\<exists>q'. pr_tx_queue p' = (pr_tx_queue (priv s))(i := Some q') \<and>
         (q' = q \<or> (\<exists>a len. q' = submitted q skb a len)) \<and> conserves {#skb#} q q' (packets (trace s)) (packets (trace s @ evs)))"
    by (rule onic_relD) (simp only: fst_conv snd_conv)
  then obtain q' where q': "r = NETDEV_TX_OK" "pr_tx_queue p' = (pr_tx_queue (priv s))(i := Some q')"
    "q' = q \<or> (\<exists>a len. q' = submitted q skb a len)" using assms(1,4) free by auto
  have "vf_txq_ok q' \<and> (q' = q \<or> (\<exists>b. tb_skb b = skb \<and> busy b \<and> vf_pending q' = vf_pending q @ [b]))"
    using q'(3) assms(2) submitted_fifo [OF assms(2-4)] assms(4) by (auto simp: busy_def)
  then show ?thesis using q'(1,2) p(1) by (auto simp: Pair)
qed

theorem vf_submit_appends_witness:
  "pr_tx_queue (priv sample_vf) 0 = Some sample_txq \<and> vf_txq_ok sample_txq \<and>
   (case run_state (submit_skb 0 0 0x5000 sample_txq) sample_vf of (r, s') \<Rightarrow> r = NETDEV_TX_OK)"
  using vf_submit_appends [of sample_vf 0 sample_txq "0x5000" 0] sample_txq_ok
  by (auto simp: sample_vf_def split: prod.splits)

text \<open>C16. Cleaning takes entries off the front of that queue. When the card reports a consumer index that lies \<open>k\<close>
  entries past the tail, not beyond the head, exactly the \<open>k\<close> oldest packets are freed, in the account of the
  events, and the others stay, in order.\<close>

theorem vf_tx_clean_fifo:
  assumes "pr_tx_queue (priv s) i = Some q" "vf_txq_ok q" "\<not> bit (tq_state q) 0"
    "unat (wb_cidx_read s q) = slot (vf_entries q) (tq_ring q) k" "k \<le> occupied (vf_entries q) (tq_ring q)"
  shows "case run_state (onic_vf_tx_clean i) s of (u, s') \<Rightarrow>
    \<exists>q'. pr_tx_queue (priv s') = (pr_tx_queue (priv s))(i := Some q') \<and> vf_txq_ok q' \<and>
      vf_pending q' = drop k (vf_pending q) \<and>
      pk_freed (packets (trace s')) = pk_freed (packets (trace s)) + mset (map tb_skb (take k (vf_pending q)))"
proof -
  obtain q' s1 where 1: "run_state (tx_clean_queue q) s = (q', s1)" by (metis prod.collapse)
  from tx_clean_queue_fifo [OF 1 assms(2-5)] have f: "vf_txq_ok q'" "vf_pending q' = drop k (vf_pending q)" by simp_all
  have "tx_shape q" using vf_txq_head_free [OF assms(2)] by (simp add: head_free_def)
  with tx_clean_queue_cleaned [OF 1] have "released q q' (packets (trace s)) (packets (trace s1))" by (simp add: cleaned_def)
  then have "pk_freed (packets (trace s1)) + skbs (tq_buffer q') = pk_freed (packets (trace s)) + skbs (tq_buffer q)"
    by (simp add: released_def)
  moreover have "skbs (tq_buffer q') = mset (map tb_skb (vf_pending q'))" "skbs (tq_buffer q) = mset (map tb_skb (vf_pending q))"
    using f(1) assms(2) bufs_contents(1) by (auto simp: vf_txq_ok_def vf_pending_def)
  moreover have "mset (map tb_skb (vf_pending q)) = mset (map tb_skb (take k (vf_pending q))) + mset (map tb_skb (drop k (vf_pending q)))"
    by (metis append_take_drop_id map_append mset_append)
  ultimately have "pk_freed (packets (trace s1)) = pk_freed (packets (trace s)) + mset (map tb_skb (take k (vf_pending q)))"
    by (simp add: f(2))
  moreover have "priv s1 = priv s" by (rule io_only_priv [OF io_only_tx_clean_queue 1])
  ultimately show ?thesis
    using assms(1) 1 f by (auto simp: onic_vf_tx_clean_def set_tx_queue_def run_simps)
qed

text \<open>The sample queue with one packet in it, and a card that reports it as sent.\<close>

definition sent_txq :: onic_tx_queue where
  "sent_txq = submitted sample_txq 0x5000 0x9000 60"

definition sent_vf :: drv_state where
  "sent_vf = sample_vf\<lparr>ext := (\<lambda>_ c. case c of Mem (Dma_read64 b off) \<Rightarrow> 0x10000 | _ \<Rightarrow> 0),
     priv := zero_private\<lparr>pr_num_tx_queues := 1, pr_tx_queue := (\<lambda>_. None)(0 := Some sent_txq)\<rparr>\<rparr>"

theorem vf_tx_clean_fifo_witness:
  "pr_tx_queue (priv sent_vf) 0 = Some sent_txq \<and> map tb_skb (vf_pending sent_txq) = [0x5000] \<and>
   (case run_state (onic_vf_tx_clean 0) sent_vf of (u, s') \<Rightarrow> pk_freed (packets (trace s')) = {#0x5000#})"
proof -
  have "vf_txq_ok sent_txq" and p: "map tb_skb (vf_pending sent_txq) = [0x5000]"
    using submitted_fifo [OF sample_txq_ok(1,3), of "0x5000" "0x9000" 60] sample_txq_ok(2) by (simp_all add: sent_txq_def)
  moreover have "length (vf_pending sent_txq) = 1" using p by (metis length_map One_nat_def length_Cons list.size(3))
  then have o: "occupied (vf_entries sent_txq) (tq_ring sent_txq) = 1" by (simp add: vf_pending_def)
  moreover have ring: "ring_next_to_clean (tq_ring sent_txq) = 0" "vf_entries sent_txq = 4095" "tq_state sent_txq = 0"
    "ring_wb (tq_ring sent_txq) = 0x10FF0"
    by (simp_all add: sent_txq_def submitted_def sample_txq_def onic_vf_tx_ring_real_count_def
      onic_vf_tx_ring_increment_head_def Let_def)
  have "wb_cidx_read sent_vf sent_txq = 1"
    by (simp add: wb_cidx_read_def sent_vf_def ring qdma_unpack_wb_stat_def dma_read64_def run_simps) code_simp
  then have c: "unat (wb_cidx_read sent_vf sent_txq) = slot (vf_entries sent_txq) (tq_ring sent_txq) 1"
    by (simp add: slot_def ring)
  moreover have t: "pr_tx_queue (priv sent_vf) 0 = Some sent_txq" by (simp add: sent_vf_def)
  moreover have "packets (trace sent_vf) = packets_init" by (simp add: sent_vf_def sample_vf_def packets_def)
  ultimately show ?thesis
    using vf_tx_clean_fifo [of sent_vf 0 sent_txq 1] ring(3)
    by (cases "vf_pending sent_txq") (auto simp: packets_init_def split: prod.splits)
qed

text \<open>C29. Progress of transmission. When the card reports that it has fetched everything up to the head, one run of
  \<^verbatim>\<open>onic_vf_tx_clean\<close> empties the queue: no packet stays pending, every packet that was is freed, and the
  ring is not full, so a queue that was stopped for lack of room can take packets again.\<close>

theorem vf_tx_clean_drains:
  assumes "pr_tx_queue (priv s) i = Some q" "vf_txq_ok q" "\<not> bit (tq_state q) 0" "1 < vf_entries q"
    "wb_cidx_read s q = ring_next_to_use (tq_ring q)"
  shows "case run_state (onic_vf_tx_clean i) s of (u, s') \<Rightarrow>
    \<exists>q'. pr_tx_queue (priv s') i = Some q' \<and> vf_txq_ok q' \<and> vf_pending q' = [] \<and>
      \<not> onic_vf_tx_ring_full (tq_ring q') \<and> \<not> bit (tq_state q') 0"
proof -
  obtain q' s1 where 1: "run_state (tx_clean_queue q) s = (q', s1)" by (metis prod.collapse)
  have ok: "ring_ok (vf_entries q) (tq_ring q)" using assms(2) by (simp add: vf_txq_ok_def bufs_ok_def)
  from tx_clean_queue_fifo [OF 1 assms(2,3), of "occupied (vf_entries q) (tq_ring q)"] slot_occupied [OF ok] assms(5)
  have f: "vf_txq_ok q'" "vf_pending q' = []" by (simp_all add: vf_pending_def)
  have "tx_shape q" using vf_txq_head_free [OF assms(2)] by (simp add: head_free_def)
  with tx_clean_queue_released [OF 1] have c: "tx_same q q'" "tq_state q' = tq_state q" by (simp_all add: tx_shape_def)
  then have n: "vf_entries q' = vf_entries q"
    by (cases "tq_ring q"; cases "tq_ring q'") (simp add: tx_same_def onic_vf_tx_ring_real_count_def)
  have ok': "ring_ok (vf_entries q') (tq_ring q')" using f(1) by (simp add: vf_txq_ok_def bufs_ok_def)
  have "occupied (vf_entries q') (tq_ring q') = 0" using f(2) by (simp add: vf_pending_def contents_def)
  with vf_ring.full_occupied [OF ok'] n assms(4) have "\<not> onic_vf_tx_ring_full (tq_ring q')" by simp
  then show ?thesis
    using assms(1,3) 1 f c(2) by (auto simp: onic_vf_tx_clean_def set_tx_queue_def run_simps)
qed

theorem vf_tx_clean_drains_witness:
  "case run_state (onic_vf_tx_clean 0) sent_vf of (u, s') \<Rightarrow>
    \<exists>q'. pr_tx_queue (priv s') 0 = Some q' \<and> vf_txq_ok q' \<and> vf_pending q' = [] \<and>
      \<not> onic_vf_tx_ring_full (tq_ring q') \<and> \<not> bit (tq_state q') 0"
proof (rule vf_tx_clean_drains [where q = sent_txq])
  show "vf_txq_ok sent_txq"
    using submitted_fifo [OF sample_txq_ok(1,3), of "0x5000" "0x9000" 60] by (simp add: sent_txq_def)
  show "1 < vf_entries sent_txq" "\<not> bit (tq_state sent_txq) 0" "pr_tx_queue (priv sent_vf) 0 = Some sent_txq"
    by (simp_all add: sent_vf_def sent_txq_def submitted_def sample_txq_def onic_vf_tx_ring_real_count_def
      onic_vf_tx_ring_increment_head_def Let_def)
  have "ring_wb (tq_ring sent_txq) = 0x10FF0" "ring_next_to_use (tq_ring sent_txq) = 1"
    by (simp_all add: sent_txq_def submitted_def sample_txq_def onic_vf_tx_ring_real_count_def
      onic_vf_tx_ring_increment_head_def Let_def)
  then show "wb_cidx_read sent_vf sent_txq = ring_next_to_use (tq_ring sent_txq)"
    by (simp add: wb_cidx_read_def sent_vf_def qdma_unpack_wb_stat_def dma_read64_def run_simps) code_simp
qed

end
