(* ===== verification/Resources.thy ===== *)
theory Resources
  imports Ledger
begin

text \<open>
  Accounting for kernel resources. \<open>uses P m Q\<close>: run from private data and held resources with \<open>P\<close>, \<open>m\<close>
  ends with \<open>Q\<close> of its result, and frees nothing it does not hold. The rules of \<open>uses_intro\<close> compute the
  weakest \<open>P\<close> backwards from \<open>Q\<close>.
\<close>

named_theorems uses_intro "weakest preconditions over the private data and the held resources"

type_synonym assertion = "onic_private \<Rightarrow> resource multiset \<Rightarrow> bool"

definition uses :: "assertion \<Rightarrow> 'a onic \<Rightarrow> ('a \<Rightarrow> assertion) \<Rightarrow> bool" where
  "uses P m Q \<longleftrightarrow> (\<forall>s. P (priv s) (held (ledger (trace s))) \<longrightarrow>
     (case run_state m s of (a, s') \<Rightarrow> Q a (priv s') (held (ledger (trace s'))) \<and>
        faults (ledger (trace s')) = faults (ledger (trace s))))"

lemma usesD:
  assumes "uses P m Q" "run_state m s = (a, s')" "P (priv s) (held (ledger (trace s)))"
  shows "Q a (priv s') (held (ledger (trace s')))" "faults (ledger (trace s')) = faults (ledger (trace s))"
  using assms unfolding uses_def by (auto split: prod.splits)

lemma usesI:
  assumes "\<And>s a s'. P (priv s) (held (ledger (trace s))) \<Longrightarrow> run_state m s = (a, s') \<Longrightarrow>
    Q a (priv s') (held (ledger (trace s'))) \<and> faults (ledger (trace s')) = faults (ledger (trace s))"
  shows "uses P m Q"
  unfolding uses_def using assms by (auto split: prod.split)

lemma uses_rel:
  assumes "onic_rel ledger R m"
    "\<And>a p l p' l'. R a (p, l) (p', l') \<Longrightarrow> P p (held l) \<Longrightarrow> Q a p' (held l') \<and> faults l' = faults l"
  shows "uses P m Q"
proof (rule usesI)
  fix s a s'
  assume P: "P (priv s) (held (ledger (trace s)))" and "run_state m s = (a, s')"
  from onic_relD [OF assms(1) this(2)] obtain evs p' where e: "s' = after s evs p'"
    "R a (priv s, ledger (trace s)) (p', ledger (trace s @ evs))" by metis
  from assms(2) [OF e(2) P] e(1)
  show "Q a (priv s') (held (ledger (trace s'))) \<and> faults (ledger (trace s')) = faults (ledger (trace s))" by simp
qed

lemma uses_conseq:
  assumes "uses P m Q" "\<And>p A. P' p A \<Longrightarrow> P p A" "\<And>a p A. Q a p A \<Longrightarrow> Q' a p A"
  shows "uses P' m Q'"
proof (rule usesI)
  fix s a s'
  assume "P' (priv s) (held (ledger (trace s)))" and run: "run_state m s = (a, s')"
  from usesD [OF assms(1) run assms(2) [OF this(1)]] assms(3)
  show "Q' a (priv s') (held (ledger (trace s'))) \<and> faults (ledger (trace s')) = faults (ledger (trace s))" by simp
qed

lemma uses_pre: "uses P m Q \<Longrightarrow> (\<And>p A. P' p A \<Longrightarrow> P p A) \<Longrightarrow> uses P' m Q"
  by (rule uses_conseq)

text \<open>Naming the state an operation starts from.\<close>

lemma uses_at:
  assumes "\<And>p0 A0. P p0 A0 \<Longrightarrow> uses (\<lambda>p A. p = p0 \<and> A = A0) m Q"
  shows "uses P m Q"
proof (rule usesI)
  fix s a s'
  assume P: "P (priv s) (held (ledger (trace s)))" and run: "run_state m s = (a, s')"
  show "Q a (priv s') (held (ledger (trace s'))) \<and> faults (ledger (trace s')) = faults (ledger (trace s))"
    using usesD [OF assms [OF P] run] by simp
qed

lemma uses_bind [uses_intro]:
  assumes "\<And>a. uses (Q a) (f a) R" "uses P m Q"
  shows "uses P (State_Monad.bind m f) R"
proof (rule usesI)
  fix s c s2
  assume P: "P (priv s) (held (ledger (trace s)))" and run: "run_state (State_Monad.bind m f) s = (c, s2)"
  obtain a s1 where m: "run_state m s = (a, s1)" by (cases "run_state m s")
  with run have f: "run_state (f a) s1 = (c, s2)" by simp
  from usesD [OF assms(2) m P] usesD [OF assms(1) f]
  show "R c (priv s2) (held (ledger (trace s2))) \<and> faults (ledger (trace s2)) = faults (ledger (trace s))" by simp
qed

lemma uses_ret [uses_intro]: "uses (Q a) (ret a) Q"
  by (simp add: uses_def)

lemma uses_get_priv [uses_intro]: "uses (\<lambda>p. Q p p) get_priv Q"
  by (simp add: uses_def run_simps)

lemma uses_get_at:
  "uses (\<lambda>p A. p = p0 \<and> A = A0) (f p0) Q \<Longrightarrow> uses (\<lambda>p A. p = p0 \<and> A = A0) (State_Monad.bind get_priv f) Q"
  by (auto simp: uses_def run_simps)

lemma uses_upd [uses_intro]:
  "uses (\<lambda>p. Q () (f p)) (upd_priv f) Q"
  "uses (\<lambda>p. Q () (pr_hw_update g p)) (upd_hw g) Q"
  "uses (\<lambda>p. Q () (pr_vf_hw_update h p)) (upd_vf_hw h) Q"
  by (simp_all add: uses_def run_simps)

lemma uses_if [uses_intro]:
  "uses P m R \<Longrightarrow> uses Q n R \<Longrightarrow> uses (\<lambda>p A. if c then P p A else Q p A) (if c then m else n) R"
  by simp

lemma uses_option [uses_intro]:
  "uses P m R \<Longrightarrow> (\<And>z. uses (Q z) (f z) R) \<Longrightarrow>
     uses (\<lambda>p A. case x of None \<Rightarrow> P p A | Some z \<Rightarrow> Q z p A) (case x of None \<Rightarrow> m | Some z \<Rightarrow> f z) R"
  by (cases x) auto

lemma uses_prod [uses_intro]:
  "(\<And>a b. uses (P a b) (f a b) R) \<Longrightarrow>
     uses (\<lambda>p A. case x of (a, b) \<Rightarrow> P a b p A) (case x of (a, b) \<Rightarrow> f a b) R"
  by (cases x) auto

lemma uses_let [uses_intro]: "(\<And>z. uses (P z) (f z) R) \<Longrightarrow> uses (P c) (let z = c in f z) R"
  by simp

section \<open>Calls\<close>

text \<open>The account after a call: a release needs the resource.\<close>

definition charge :: "kcall \<Rightarrow> int \<Rightarrow> (resource multiset \<Rightarrow> bool) \<Rightarrow> resource multiset \<Rightarrow> bool" where
  "charge c r Q A = (case acquires c r of
     Some x \<Rightarrow> Q (add_mset x A)
   | None \<Rightarrow> (case releases c of Some x \<Rightarrow> x \<in># A \<and> Q (A - {#x#}) | None \<Rightarrow> Q A))"

lemma charge_step:
  "charge c r Q (held l) \<Longrightarrow> Q (held (ledger_step (c, r) l)) \<and> faults (ledger_step (c, r) l) = faults l"
  by (auto simp: charge_def ledger_step_def acquire_def release_def split: option.splits)

lemma uses_perform [uses_intro]: "uses (\<lambda>p A. \<forall>r. charge c r (Q r p) A) (perform c) Q"
  by (rule usesI) (auto simp: run_perform ledger_append dest: spec intro: charge_step [THEN conjunct1] charge_step [THEN conjunct2])

lemma uses_invoke [uses_intro]: "uses (\<lambda>p A. \<forall>r. charge c r (Q () p) A) (invoke c) Q"
  unfolding invoke_def by (rule uses_bind, rule uses_ret, rule uses_perform)

lemma uses_perform_errno [uses_intro]: "uses (\<lambda>p A. \<forall>r. charge c r (Q (errno_of r) p) A) (perform_errno c) Q"
  unfolding perform_errno_def by (rule uses_bind, rule uses_ret, rule uses_perform)

lemma charge_none [simp]: "acquires c r = None \<Longrightarrow> releases c = None \<Longrightarrow> charge c r Q A = Q A"
  by (simp add: charge_def)

lemma charge_quiet [simp]:
  "charge (Io i) r Q A = Q A" "charge (Sync y) r Q A = Q A" "charge (Skb k) r Q A = Q A"
  by simp_all

lemma uses_quiet:
  assumes "io_only m" "emits ledger_quiet m" "\<And>s. R (fst (run_state m s))"
  shows "uses (\<lambda>p A. \<forall>a. R a \<longrightarrow> Q a p A) m Q"
proof (rule usesI)
  fix s :: drv_state and a s'
  assume q: "\<forall>a. R a \<longrightarrow> Q a (priv s) (held (ledger (trace s)))" and run: "run_state m s = (a, s')"
  have "priv s' = priv s" "ledger (trace s') = ledger (trace s)"
    by (rule io_only_priv [OF assms(1) run], rule led.view_emits [OF assms(2) run])
  moreover have "R a" using assms(3) [of s] run by simp
  ultimately show "Q a (priv s') (held (ledger (trace s'))) \<and> faults (ledger (trace s')) = faults (ledger (trace s))"
    using q by simp
qed

lemmas uses_io = uses_quiet [where R = "\<lambda>_. True", simplified]

section \<open>Loops\<close>

lemma uses_for_each:
  assumes "\<And>x js. uses (I (x # js)) (f x) (\<lambda>_. I js)"
  shows "uses (I xs) (for_each xs f) (\<lambda>_. I [])"
proof (induction xs)
  case (Cons x xs)
  then show ?case by (auto intro!: uses_intro assms)
qed (simp add: uses_ret [where Q = "\<lambda>_. I []"])

lemma uses_for_each_acc:
  assumes "\<And>x js a. uses (I (x # js) a) (f x a) (I js)"
  shows "uses (I xs a) (for_each_acc xs f a) (I [])"
proof (induction xs arbitrary: a)
  case (Cons x xs)
  then show ?case by (auto intro!: uses_intro assms)
qed (simp add: uses_ret)

text \<open>The invariant after a full run, and the state at the index where the loop stopped.\<close>

lemma uses_for_until_end:
  assumes "\<And>x js. uses (I (x # js)) (f x) (\<lambda>r. if r = 0 then I js else J r (x # js))"
  shows "uses (I xs) (for_until xs f) (\<lambda>(r, js). if r = 0 then (\<lambda>p A. js = [] \<and> I [] p A) else J r js)"
proof (induction xs)
  case Nil
  show ?case by (simp, rule uses_pre, rule uses_ret) simp
next
  case (Cons x xs)
  show ?case
    by (simp, rule uses_bind, rule uses_if, rule uses_ret, rule Cons, rule uses_conseq [OF assms]) auto
qed

lemma uses_for_until:
  assumes "\<And>x js. uses (I (x # js)) (f x) (\<lambda>r. if r = 0 then I js else J r (x # js))"
  shows "uses (I xs) (for_until xs f) (\<lambda>(r, js). if r = 0 then I [] else J r js)"
  by (rule uses_conseq [OF uses_for_until_end [where I = I and J = J, OF assms]]) (auto split: if_splits)

section \<open>Operations that keep a part of the state\<close>

text \<open>\<open>keeps f m\<close>: \<open>m\<close> neither acquires nor releases anything, and \<open>f\<close> of the private data stays the same.\<close>

named_theorems keeps_intro "operations that keep the account and a part of the private data"

definition keeps :: "(onic_private \<Rightarrow> 'b) \<Rightarrow> 'a onic \<Rightarrow> bool" where
  "keeps f m \<longleftrightarrow> (\<forall>s. case run_state m s of (a, s') \<Rightarrow>
     f (priv s') = f (priv s) \<and> ledger (trace s') = ledger (trace s))"

lemma keepsD:
  assumes "keeps f m" "run_state m s = (a, s')"
  shows "f (priv s') = f (priv s)" "ledger (trace s') = ledger (trace s)"
  using assms unfolding keeps_def by (auto split: prod.splits)

lemma keepsI:
  assumes "\<And>s a s'. run_state m s = (a, s') \<Longrightarrow> f (priv s') = f (priv s) \<and> ledger (trace s') = ledger (trace s)"
  shows "keeps f m"
  unfolding keeps_def using assms by (auto split: prod.split)

lemma keeps_uses:
  assumes "keeps f m"
  shows "uses (\<lambda>p A. \<forall>a p'. f p' = f p \<longrightarrow> Q a p' A) m Q"
proof (rule usesI)
  fix s a s'
  assume q: "\<forall>a p'. f p' = f (priv s) \<longrightarrow> Q a p' (held (ledger (trace s)))" and run: "run_state m s = (a, s')"
  show "Q a (priv s') (held (ledger (trace s'))) \<and> faults (ledger (trace s')) = faults (ledger (trace s))"
    using q keepsD [OF assms run] by simp
qed

lemma keeps_conseq:
  assumes "keeps f m" "\<And>p p'. f p' = f p \<Longrightarrow> g p' = g p"
  shows "keeps g m"
proof (rule keepsI)
  fix s a s'
  assume "run_state m s = (a, s')"
  from keepsD [OF assms(1) this] assms(2) [of "priv s'" "priv s"]
  show "g (priv s') = g (priv s) \<and> ledger (trace s') = ledger (trace s)" by simp
qed

lemma keeps_bind [keeps_intro]:
  assumes "keeps f m" "\<And>a. keeps f (g a)"
  shows "keeps f (State_Monad.bind m g)"
proof (rule keepsI)
  fix s c s2
  assume run: "run_state (State_Monad.bind m g) s = (c, s2)"
  obtain a s1 where m: "run_state m s = (a, s1)" by (cases "run_state m s")
  with run have "run_state (g a) s1 = (c, s2)" by simp
  from keepsD [OF assms(1) m] keepsD [OF assms(2) this]
  show "f (priv s2) = f (priv s) \<and> ledger (trace s2) = ledger (trace s)" by simp
qed

lemma keeps_ret [keeps_intro]: "keeps f (ret a)"
  by (simp add: keeps_def)

lemma keeps_get_priv [keeps_intro]: "keeps f get_priv"
  by (simp add: keeps_def run_simps)

lemma keeps_upd [keeps_intro]:
  "(\<And>p. f (g p) = f p) \<Longrightarrow> keeps f (upd_priv g)"
  "(\<And>p. f (pr_vf_hw_update h p) = f p) \<Longrightarrow> keeps f (upd_vf_hw h)"
  by (simp_all add: keeps_def run_simps)

lemma keeps_if [keeps_intro]: "(c \<Longrightarrow> keeps f m) \<Longrightarrow> (\<not> c \<Longrightarrow> keeps f n) \<Longrightarrow> keeps f (if c then m else n)"
  by simp

lemma keeps_option [keeps_intro]:
  "(x = None \<Longrightarrow> keeps f m) \<Longrightarrow> (\<And>z. x = Some z \<Longrightarrow> keeps f (g z)) \<Longrightarrow>
     keeps f (case x of None \<Rightarrow> m | Some z \<Rightarrow> g z)"
  by (cases x) auto

lemma keeps_prod [keeps_intro]: "(\<And>a b. keeps f (g a b)) \<Longrightarrow> keeps f (case x of (a, b) \<Rightarrow> g a b)"
  by (cases x) auto

lemma keeps_let [keeps_intro]: "(\<And>z. keeps f (g z)) \<Longrightarrow> keeps f (let z = c in g z)"
  by simp

lemma keeps_io:
  assumes "io_only m" "emits ledger_quiet m"
  shows "keeps f m"
  by (rule keepsI) (simp add: io_only_priv [OF assms(1)] led.view_emits [OF assms(2)])

lemma keeps_call [keeps_intro]:
  "(\<And>r. ledger_quiet (c, r)) \<Longrightarrow> keeps f (perform c)" "(\<And>r. ledger_quiet (c, r)) \<Longrightarrow> keeps f (invoke c)"
  by (rule keeps_io; auto intro: io_intro triple_intro)+

lemma keeps_errno [keeps_intro]: "(\<And>r. ledger_quiet (c, r)) \<Longrightarrow> keeps f (perform_errno c)"
  by (rule keeps_io; auto intro: io_intro triple_intro)

lemma keeps_loops [keeps_intro]:
  "(\<And>x. keeps f (g x)) \<Longrightarrow> keeps f (for_each xs g)"
  "(\<And>x. keeps f (h x)) \<Longrightarrow> keeps f (for_until xs h)"
  "(\<And>x b. keeps f (k x b)) \<Longrightarrow> keeps f (for_each_acc xs k a)"
proof -
  show "(\<And>x. keeps f (g x)) \<Longrightarrow> keeps f (for_each xs g)" by (induction xs) (auto intro!: keeps_intro)
  show "(\<And>x. keeps f (h x)) \<Longrightarrow> keeps f (for_until xs h)" by (induction xs) (auto intro!: keeps_intro)
  show "(\<And>x b. keeps f (k x b)) \<Longrightarrow> keeps f (for_each_acc xs k a)" by (induction xs arbitrary: a) (auto intro!: keeps_intro)
qed

section \<open>Objects and their calls on the account\<close>

definition heap :: "ptr \<Rightarrow> resource multiset" where
  "heap a = (if a = 0 then {#} else {#R_heap a#})"

definition coherent :: "nat \<Rightarrow> ptr \<Rightarrow> resource multiset" where
  "coherent n a = (if a = 0 then {#} else {#R_dma n a#})"

definition pool :: "ptr \<Rightarrow> resource multiset" where
  "pool a = (if a = 0 then {#} else {#R_pool a#})"

lemma charge_kfree [simp]: "charge (Mem (Kfree a)) r Q (heap a + A) = Q A"
  by (simp add: charge_def heap_def)

lemma charge_kfree_heap: "charge (Mem (Kfree a)) r Q A \<longleftrightarrow> heap a \<subseteq># A \<and> Q (A - heap a)"
  by (simp add: charge_def heap_def)

lemma charge_dma_free: "a \<noteq> 0 \<Longrightarrow> charge (Mem (Dma_free_coherent n a h)) r Q A \<longleftrightarrow> coherent n a \<subseteq># A \<and> Q (A - coherent n a)"
  by (simp add: charge_def coherent_def)

lemma charge_pool_destroy: "charge (Page (Page_pool_destroy a)) r Q A \<longleftrightarrow> pool a \<subseteq># A \<and> Q (A - pool a)"
  by (simp add: charge_def pool_def)

lemma charge_alloc:
  "charge (Mem (Kzalloc k)) r Q A \<longleftrightarrow> Q (heap (of_int r) + A)"
  "charge (Mem (Kcalloc k n)) r Q A \<longleftrightarrow> Q (heap (of_int r) + A)"
  "charge (Mem (Dma_alloc_coherent n)) r Q A \<longleftrightarrow> Q (coherent n (of_int r) + A)"
  by (simp_all add: charge_def heap_def coherent_def)

lemma charge_pool_create:
  "charge (Page (Page_pool_create n)) r Q A \<longleftrightarrow> Q (if r < 0 then A else pool (of_int r) + A)"
  by (simp add: charge_def pool_def)

lemma empty_objects [simp]: "heap 0 = {#}" "coherent n 0 = {#}" "pool 0 = {#}"
  by (simp_all add: heap_def coherent_def pool_def)

lemmas charge_simps = charge_kfree_heap charge_dma_free charge_pool_destroy charge_alloc charge_pool_create

section \<open>The tables of queues and vectors\<close>

abbreviation put_txq :: "nat \<Rightarrow> onic_tx_queue option \<Rightarrow> onic_private \<Rightarrow> onic_private" where
  "put_txq qid q \<equiv> pr_tx_queue_update (\<lambda>t. t(qid := q))"

abbreviation put_rxq :: "nat \<Rightarrow> onic_rx_queue option \<Rightarrow> onic_private \<Rightarrow> onic_private" where
  "put_rxq qid q \<equiv> pr_rx_queue_update (\<lambda>t. t(qid := q))"

lemma put_same:
  "pr_tx_queue p qid = None \<Longrightarrow> put_txq qid None p = p"
  "pr_rx_queue p qid = None \<Longrightarrow> put_rxq qid None p = p"
  by (cases p; simp add: fun_upd_idem)+

definition wipe :: "nat set \<Rightarrow> onic_private \<Rightarrow> onic_private" where
  "wipe X p = pr_rx_queue_update (\<lambda>t i. if i \<in> X then None else t i)
     (pr_tx_queue_update (\<lambda>t i. if i \<in> X then None else t i) p)"

abbreviation no_rings :: "onic_private \<Rightarrow> onic_private" where "no_rings \<equiv> wipe {..<ONIC_MAX_QUEUES}"

lemma wipe_put:
  "wipe X (put_rxq x None (put_txq x None p)) = wipe (insert x X) p"
  "x \<in> X \<Longrightarrow> wipe X (put_txq x q p) = wipe X p"
  "x \<in> X \<Longrightarrow> wipe X (put_rxq x r p) = wipe X p"
  by (cases p; auto simp: wipe_def fun_eq_iff)+

lemma wipe_num [simp]:
  "pr_num_tx_queues (wipe X p) = pr_num_tx_queues p" "pr_num_rx_queues (wipe X p) = pr_num_rx_queues p"
  "pr_num_q_vectors (wipe X p) = pr_num_q_vectors p"
  by (simp_all add: wipe_def)

lemma wipe_none: "wipe {} p = p"
  by (cases p) (simp add: wipe_def)

abbreviation put_vec :: "nat \<Rightarrow> onic_q_vector option \<Rightarrow> onic_private \<Rightarrow> onic_private" where
  "put_vec i v \<equiv> pr_q_vector_update (\<lambda>t. t(i := v))"

definition drop_vecs :: "nat set \<Rightarrow> onic_private \<Rightarrow> onic_private" where
  "drop_vecs X p = pr_q_vector_update (\<lambda>t i. if i \<in> X then None else t i) p"

abbreviation no_vecs :: "onic_private \<Rightarrow> onic_private" where "no_vecs \<equiv> drop_vecs {..<ONIC_MAX_QUEUES}"

lemma charge_irq [simp]:
  "charge (Pci (Request_irq irq own)) r Q A \<longleftrightarrow> Q (if r = 0 then add_mset (R_irq own) A else A)"
  "charge (Pci (Free_irq irq own)) r Q A \<longleftrightarrow> R_irq own \<in># A \<and> Q (A - {#R_irq own#})"
  by (simp_all add: charge_def)

lemma drop_vecs_put:
  "drop_vecs X (put_vec x None p) = drop_vecs (insert x X) p"
  "x \<in> X \<Longrightarrow> drop_vecs X (put_vec x v p) = drop_vecs X p"
  "drop_vecs {} p = p"
  by (cases p; auto simp: drop_vecs_def fun_eq_iff)+

lemma drop_vecs_none: "\<forall>i\<in>X. pr_q_vector p i = None \<Longrightarrow> drop_vecs (X \<union> Y) p = drop_vecs Y p"
  by (cases p) (auto simp: drop_vecs_def fun_eq_iff)

lemma Cons_eq_upt: "x # js = [k..<n] \<longleftrightarrow> k < n \<and> x = k \<and> js = [Suc k..<n]"
  by (auto simp: upt_conv_Cons) (metis list.distinct(1) upt_conv_Nil linorder_not_less upt_conv_Cons list.inject)+

lemma Nil_eq_upt: "[] = [k..<n] \<longleftrightarrow> n \<le> k"
  by (auto dest: sym)

end
