(* ===== verification/Vf_Resources.thy ===== *)
theory Vf_Resources
  imports Vf_Queues Resources
begin

text \<open>
  The resources behind the rings, the queue interrupts and the device object of the VF, and the effect of the
  operations on them, as weakest preconditions over the private data and the account of held resources.
\<close>

section \<open>What an object holds\<close>

definition txq_res :: "onic_tx_queue option \<Rightarrow> resource multiset" where
  "txq_res o' = (case o' of None \<Rightarrow> {#} | Some q \<Rightarrow>
     coherent (onic_vf_ring_bytes (ring_count (tq_ring q)) QDMA_H2C_ST_DESC_SIZE QDMA_WB_STAT_SIZE) (ring_desc (tq_ring q)) +
     heap (tq_buffer_ptr q) + heap (tq_self q))"

definition rxq_res :: "onic_rx_queue option \<Rightarrow> resource multiset" where
  "rxq_res o' = (case o' of None \<Rightarrow> {#} | Some q \<Rightarrow>
     coherent (onic_vf_ring_bytes (ring_count (rq_desc_ring q)) QDMA_C2H_ST_DESC_SIZE QDMA_WB_STAT_SIZE) (ring_desc (rq_desc_ring q)) +
     coherent (onic_vf_ring_bytes (ring_count (rq_cmpl_ring q)) QDMA_C2H_CMPL_SIZE QDMA_C2H_CMPL_STAT_SIZE) (ring_desc (rq_cmpl_ring q)) +
     pool (rq_page_pool q) + heap (rq_buffer_ptr q) + heap (rq_self q))"

lemma empty_res [simp]: "txq_res None = {#}" "rxq_res None = {#}"
  by (simp_all add: txq_res_def rxq_res_def)

section \<open>Transmit rings\<close>

lemma emits_release_pending:
  assumes "\<And>k r. P (Skb k, r)" "\<And>c r. P (Io c, r)" "\<And>b off r. P (Mem (Dma_read64 b off), r)"
  shows "emits P (onic_vf_release_pending_tx q)"
  unfolding onic_vf_release_pending_tx_def release_buffer_def
  by (auto intro!: triple_intro emits_tx_clean_queue simp: assms)

lemma tx_same_reap: "tx_same q (snd (fst (run_state (tx_reap n cidx q work) s)))"
proof (induction n cidx q work arbitrary: s rule: tx_reap.induct)
  case (2 n cidx q work)
  let ?i = "ring_tail (tq_ring q)"
  let ?q = "q\<lparr>tq_buffer := (tq_buffer q)[?i := zero_tx_buffer], tq_ring := onic_vf_ring_increment_clean (tq_ring q)\<rparr>"
  have "tx_same q ?q" by (simp add: tx_same_def onic_vf_ring_increment_clean_def Let_def)
  moreover have "tx_same ?q (snd (fst (run_state (tx_reap n cidx ?q (Suc work)) t)))"
    if "ring_next_to_clean (tq_ring q) \<noteq> cidx" for t :: "'a world_scheme"
    using 2 [OF that refl refl, where s = t] by simp
  ultimately show ?case
    by (auto intro: tx_same_trans simp: Let_def split: prod.split)
qed simp

lemma tx_same_clean: "tx_same q (fst (run_state (tx_clean_queue q) s))"
proof -
  have "tx_same q (q1\<lparr>tq_state := w\<rparr>)"
    if "run_state (tx_reap n cidx (q\<lparr>tq_state := v\<rparr>) work) t = ((k, q1), t')" for n cidx v work k q1 w and t t' :: drv_state
    using tx_same_reap [of "q\<lparr>tq_state := v\<rparr>" n cidx work t] that by (simp add: tx_same_def)
  then show ?thesis by (auto simp: tx_clean_queue_def Let_def split: prod.split)
qed

lemma tx_same_release_pending: "tx_same q (fst (run_state (onic_vf_release_pending_tx q) s))"
proof (cases "tq_buffer_ptr q = 0")
  case False
  obtain q1 s1 where 1: "run_state (tx_clean_queue q) s = (q1, s1)" by (metis prod.collapse)
  have "tx_same q (fst (run_state (for_each_acc xs release_entry q1) s1))" for xs
  proof (rule for_each_acc_result)
    show "tx_same q q1" using tx_same_clean [of q s] 1 by simp
    show "tx_same q (fst (run_state (release_entry x a) t))" if "tx_same q a" for x a and t :: drv_state
      using that by (auto simp: release_entry_def Let_def tx_same_def split: prod.split)
  qed
  then show ?thesis
    using False 1 by (simp add: onic_vf_release_pending_tx_def release_entry_def [abs_def])
qed (simp add: onic_vf_release_pending_tx_def)

lemma tx_same_res: "tx_same q q' \<Longrightarrow> txq_res (Some q') = txq_res (Some q) \<and> tq_self q' = tq_self q \<and>
    tq_buffer_ptr q' = tq_buffer_ptr q \<and> ring_count (tq_ring q') = ring_count (tq_ring q) \<and>
    ring_desc (tq_ring q') = ring_desc (tq_ring q)"
  by (cases "tq_ring q"; cases "tq_ring q'") (simp add: tx_same_def txq_res_def)

lemma uses_release_pending [uses_intro]:
  "uses (\<lambda>p A. \<forall>q'. tx_same q q' \<longrightarrow> Q q' p A) (onic_vf_release_pending_tx q) Q"
  by (rule uses_quiet, rule io_intro, rule emits_release_pending)
    (simp_all add: ledger_quiet_def tx_same_release_pending)

lemma uses_free_tx [uses_intro]:
  "uses (\<lambda>p A. txq_res (pr_tx_queue p qid) \<subseteq># A \<and> Q () (put_txq qid None p) (A - txq_res (pr_tx_queue p qid)))
     (onic_vf_free_tx_ring qid) Q"
  unfolding onic_vf_free_tx_ring_def set_tx_queue_def
  apply (rule uses_pre)
   apply (rule uses_intro)+
  apply (auto simp: put_same charge_simps txq_res_def mset_subset_eq_exists_conv add.assoc dest!: tx_same_res split: option.split)
  done

text \<open>A transmit queue as it leaves the allocation: well formed and empty.\<close>

definition fresh_txq :: "nat \<Rightarrow> onic_tx_queue \<Rightarrow> bool" where
  "fresh_txq qid q \<longleftrightarrow> tq_self q \<noteq> 0 \<and> tq_qid q = of_nat qid \<and> tq_state q = 0 \<and> tq_buffer_ptr q \<noteq> 0 \<and>
     tq_buffer q = replicate 4095 zero_tx_buffer \<and> ring_count (tq_ring q) = 4096 \<and> ring_desc (tq_ring q) \<noteq> 0 \<and>
     ring_wb (tq_ring q) = ring_desc (tq_ring q) + of_nat (QDMA_H2C_ST_DESC_SIZE * 4095) \<and>
     ring_next_to_use (tq_ring q) = 0 \<and> ring_next_to_clean (tq_ring q) = 0"

lemma fresh_txq_ok:
  assumes "fresh_txq qid q"
  shows "vf_entries q = 4095" "bufs_ok 4095 (tq_ring q) (tq_buffer q)" "vf_pending q = []"
  using assms by (auto simp: fresh_txq_def onic_vf_tx_ring_real_count_def bufs_ok_def ring_ok_def vf_pending_def
    contents_def occupied_def)

lemma uses_alloc_tx [uses_intro]:
  "uses (\<lambda>p A. (\<forall>e<0. Q e p A) \<and>
      (\<forall>q. fresh_txq qid q \<and> tq_vector q = vf_vector_of p qid \<longrightarrow> Q 0 (put_txq qid (Some q) p) (txq_res (Some q) + A)))
     (onic_vf_alloc_tx_ring qid) Q"
  unfolding onic_vf_alloc_tx_ring_def set_tx_queue_def
  apply (rule uses_pre)
   apply (rule uses_intro)+
  apply (auto simp: charge_simps)
  subgoal premises prems
    by (rule subst [of _ _ "Q 0 _", rotated], rule prems(2) [rule_format])
      (simp_all add: prems fresh_txq_def txq_res_def ac_simps)
  done

section \<open>Receive rings\<close>

text \<open>The page loops touch the pages only.\<close>

definition rxq_same :: "onic_rx_queue \<Rightarrow> onic_rx_queue \<Rightarrow> bool" where
  "rxq_same q q' \<longleftrightarrow> length (rq_buffer q') = length (rq_buffer q) \<and> q'\<lparr>rq_buffer := rq_buffer q\<rparr> = q"

lemma rxq_same_refl [simp]: "rxq_same q q"
  by (simp add: rxq_same_def)

lemma rxq_same_trans: "rxq_same q q1 \<Longrightarrow> rxq_same q1 q2 \<Longrightarrow> rxq_same q q2"
  by (cases q; cases q1; cases q2) (simp add: rxq_same_def)

lemma rxq_same_update: "rxq_same q q' \<Longrightarrow> rxq_same q (q'\<lparr>rq_buffer := (rq_buffer q')[i := b]\<rparr>)"
  by (cases q; cases q') (simp add: rxq_same_def)

lemma rxq_same_pool: "rxq_same q q' \<Longrightarrow> rxq_same (q\<lparr>rq_page_pool := a\<rparr>) (q'\<lparr>rq_page_pool := a\<rparr>)"
  by (cases q; cases q') (simp add: rxq_same_def)

lemma no_pool: "rq_page_pool q = 0 \<Longrightarrow> rxq_same (q\<lparr>rq_page_pool := 0\<rparr>) q"
  by (cases q) (simp add: rxq_same_def)

lemma rxq_same_sel:
  "rxq_same q q' \<Longrightarrow> rq_self q' = rq_self q \<and> rq_buffer_ptr q' = rq_buffer_ptr q \<and> rq_page_pool q' = rq_page_pool q \<and>
     rq_desc_ring q' = rq_desc_ring q \<and> rq_cmpl_ring q' = rq_cmpl_ring q \<and> rq_qid q' = rq_qid q \<and> rq_state q' = rq_state q \<and>
     rq_vector q' = rq_vector q \<and> length (rq_buffer q') = length (rq_buffer q)"
  by (cases q; cases q') (simp add: rxq_same_def)

definition put_page :: "nat \<Rightarrow> onic_rx_queue \<Rightarrow> ('z, onic_rx_queue) drv" where
  "put_page i q =
     (if rb_pg (rq_buffer q ! i) = 0 then ret q
      else do {
        invoke (Page (Page_pool_put (rq_page_pool q) (rb_pg (rq_buffer q ! i))));
        ret (q\<lparr>rq_buffer := (rq_buffer q)[i := (rq_buffer q ! i)\<lparr>rb_pg := 0\<rparr>]\<rparr>) })"

lemma uses_put_pages [uses_intro]:
  "uses (\<lambda>p A. \<forall>q'. rxq_same q q' \<longrightarrow> Q q' p A) (for_each_acc xs put_page q) Q"
proof (rule uses_quiet)
  show "rxq_same q (fst (run_state (for_each_acc xs put_page q) s))" for s :: drv_state
    by (rule for_each_acc_result) (auto simp: put_page_def run_simps intro: rxq_same_update)
qed (auto simp: put_page_def ledger_quiet_def intro!: io_intro triple_intro)

lemma uses_free_pages [uses_intro]:
  "uses (\<lambda>p A. pool (rq_page_pool q) \<subseteq># A \<and>
      (\<forall>q'. rxq_same (q\<lparr>rq_page_pool := 0\<rparr>) q' \<longrightarrow> Q q' p (A - pool (rq_page_pool q))))
     (onic_vf_free_rx_pages q) Q"
  unfolding onic_vf_free_rx_pages_def put_page_def [symmetric]
  apply (rule uses_pre)
   apply (rule uses_intro)+
  apply (auto simp: charge_simps rxq_same_pool rxq_same_sel no_pool)
  done

lemma uses_free_rx [uses_intro]:
  "uses (\<lambda>p A. rxq_res (pr_rx_queue p qid) \<subseteq># A \<and> Q () (put_rxq qid None p) (A - rxq_res (pr_rx_queue p qid)))
     (onic_vf_free_rx_ring qid) Q"
  unfolding onic_vf_free_rx_ring_def set_rx_queue_def
  apply (rule uses_pre)
   apply (rule uses_intro)+
  apply (auto simp: put_same charge_simps rxq_res_def mset_subset_eq_exists_conv add.assoc dest!: rxq_same_sel split: option.split)
  done

text \<open>A buffer with a page behind it.\<close>

definition paged :: "onic_rx_buffer \<Rightarrow> bool" where
  "paged b \<longleftrightarrow> rb_pg b \<noteq> 0 \<and> rb_offset b = of_nat XDP_PACKET_HEADROOM"

lemma fill_rx_pages_result:
  "case fst (run_state (fill_rx_pages xs q) s) of (filled, q') \<Rightarrow> rxq_same q q' \<and>
     (filled \<longrightarrow> (\<forall>i<length (rq_buffer q). i \<in> set xs \<or> paged (rq_buffer q ! i) \<longrightarrow> paged (rq_buffer q' ! i)))"
proof (induction xs q arbitrary: s rule: fill_rx_pages.induct)
  case (2 i js q)
  obtain pg s1 where 1: "run_state (perform (Page (Page_pool_alloc (rq_page_pool q)))) s = (pg, s1)" by (metis prod.collapse)
  let ?q = "q\<lparr>rq_buffer := (rq_buffer q)[i := (rq_buffer q ! i)\<lparr>rb_pg := of_int pg, rb_offset := of_nat XDP_PACKET_HEADROOM\<rparr>]\<rparr>"
  show ?case
  proof (cases "(of_int pg :: ptr) = 0")
    case True
    with 1 show ?thesis by simp
  next
    case False
    obtain a s2 where a: "run_state (perform (Page (Page_pool_get_dma_addr (of_int pg)))) s1 = (a, s2)" by (metis prod.collapse)
    obtain u s3 where u: "run_state (qdma_pack_c2h_st_desc (ring_desc (rq_desc_ring q)) (QDMA_C2H_ST_DESC_SIZE * i)
         \<lparr>c2h_dst_addr = of_int a + of_nat XDP_PACKET_HEADROOM\<rparr>) s2 = (u, s3)" by (metis prod.collapse)
    obtain filled q' s4 where r: "run_state (fill_rx_pages js ?q) s3 = ((filled, q'), s4)" by (metis prod.collapse)
    have "rxq_same q ?q" by (rule rxq_same_update) simp
    moreover have "paged (rq_buffer ?q ! j)" if "j < length (rq_buffer q)" "j = i \<or> paged (rq_buffer q ! j)" for j
      using that False by (cases "j = i") (auto simp: paged_def)
    ultimately show ?thesis
      using 2 [OF False, where s = s3] r 1 a u False by (auto intro: rxq_same_trans)
  qed
qed simp

lemma uses_fill [uses_intro]:
  "uses (\<lambda>p A. \<forall>filled q'. rxq_same q q' \<and> (filled \<longrightarrow> (\<forall>i<length (rq_buffer q). i \<in> set xs \<longrightarrow> paged (rq_buffer q' ! i)))
      \<longrightarrow> Q (filled, q') p A) (fill_rx_pages xs q) Q"
proof (rule uses_pre, rule uses_quiet)
  show "case fst (run_state (fill_rx_pages xs q) s) of (filled, q') \<Rightarrow> rxq_same q q' \<and>
     (filled \<longrightarrow> (\<forall>i<length (rq_buffer q). i \<in> set xs \<longrightarrow> paged (rq_buffer q' ! i)))" for s :: drv_state
    using fill_rx_pages_result [where xs = xs and q = q and s = s] by auto
  show "io_only (fill_rx_pages xs q)"
    by (induction xs q rule: fill_rx_pages.induct) (auto intro!: io_intro)
  show "emits ledger_quiet (fill_rx_pages xs q)"
    by (induction xs q rule: fill_rx_pages.induct) (auto intro!: triple_intro emits_unpack simp: ledger_quiet_def)
qed auto

text \<open>A receive queue as it leaves the allocation: every descriptor has a page, nothing is posted.\<close>

definition fresh_rxq :: "nat \<Rightarrow> onic_rx_queue \<Rightarrow> bool" where
  "fresh_rxq qid q \<longleftrightarrow> rq_self q \<noteq> 0 \<and> rq_qid q = of_nat qid \<and> rq_state q = 0 \<and> rq_buffer_ptr q \<noteq> 0 \<and>
     length (rq_buffer q) = 1023 \<and> list_all paged (rq_buffer q) \<and>
     ring_count (rq_desc_ring q) = 1024 \<and> ring_desc (rq_desc_ring q) \<noteq> 0 \<and>
     ring_next_to_use (rq_desc_ring q) = 0 \<and> ring_next_to_clean (rq_desc_ring q) = 0 \<and>
     ring_count (rq_cmpl_ring q) = 1024 \<and> ring_desc (rq_cmpl_ring q) \<noteq> 0 \<and>
     ring_next_to_clean (rq_cmpl_ring q) = 0 \<and> ring_color (rq_cmpl_ring q) = 1"

lemma fresh_rxq_ok: "fresh_rxq qid q \<Longrightarrow> vf_rxq_ok q"
  by (auto simp: fresh_rxq_def vf_rxq_ok_def onic_vf_ring_real_count_def ring_ok_def list_all_iff paged_def Let_def)

lemma new_rx_queue_sel [simp]:
  "rq_self (new_rx_queue a qid v d h) = a" "rq_qid (new_rx_queue a qid v d h) = of_nat qid"
  "rq_state (new_rx_queue a qid v d h) = 0" "rq_vector (new_rx_queue a qid v d h) = v"
  "ring_count (rq_desc_ring (new_rx_queue a qid v d h)) = 1024" "ring_desc (rq_desc_ring (new_rx_queue a qid v d h)) = d"
  "ring_next_to_use (rq_desc_ring (new_rx_queue a qid v d h)) = 0"
  "ring_next_to_clean (rq_desc_ring (new_rx_queue a qid v d h)) = 0"
  "length (rq_buffer (new_rx_queue a qid v d h)) = 1023"
  "ring_count (vf_cmpl_ring d h) = 1024" "ring_desc (vf_cmpl_ring d h) = d"
  "ring_next_to_clean (vf_cmpl_ring d h) = 0" "ring_color (vf_cmpl_ring d h) = 1"
  by (simp_all add: new_rx_queue_def vf_cmpl_ring_def)

text \<open>A completion ring that cannot be allocated leaves no queue behind and no error either.\<close>

lemma uses_alloc_rx [uses_intro]:
  "uses (\<lambda>p A. (\<forall>e<0. Q e p A) \<and> Q 0 p A \<and>
      (\<forall>q. fresh_rxq qid q \<and> rq_vector q = vf_vector_of p qid \<longrightarrow> Q 0 (put_rxq qid (Some q) p) (rxq_res (Some q) + A)))
     (onic_vf_alloc_rx_ring qid) Q"
  unfolding onic_vf_alloc_rx_ring_def set_rx_queue_def onic_vf_create_rx_page_pool_def undo_rx_desc_def
    undo_rx_buffer_def undo_rx_pages_def
  apply (rule uses_pre)
   apply (rule uses_intro)+
  apply (auto simp: charge_simps dest!: rxq_same_sel)
  subgoal premises prems
    by (rule subst [of _ _ "Q 0 _", rotated], rule prems(3) [rule_format])
      (simp_all add: prems fresh_rxq_def rxq_res_def ac_simps list_all_length)
  done

section \<open>All rings\<close>

definition queue_res :: "onic_private \<Rightarrow> nat \<Rightarrow> resource multiset" where
  "queue_res p i = txq_res (pr_tx_queue p i) + rxq_res (pr_rx_queue p i)"

definition rings_res :: "onic_private \<Rightarrow> resource multiset" where
  "rings_res p = (\<Sum>i<ONIC_MAX_QUEUES. queue_res p i)"

lemma queue_res_put [simp]:
  "queue_res (put_txq x q p) i = (if i = x then txq_res q + rxq_res (pr_rx_queue p i) else queue_res p i)"
  "queue_res (put_rxq x r p) i = (if i = x then txq_res (pr_tx_queue p i) + rxq_res r else queue_res p i)"
  by (simp_all add: queue_res_def)

lemma rings_res_put:
  assumes "x < ONIC_MAX_QUEUES"
  shows "pr_tx_queue p x = None \<Longrightarrow> rings_res (put_txq x q p) = txq_res q + rings_res p"
    "pr_rx_queue p x = None \<Longrightarrow> rings_res (put_rxq x r p) = rxq_res r + rings_res p"
  using assms by (simp_all add: rings_res_def sum.remove [of "{..<64}" x] queue_res_def ac_simps)

lemma uses_rings_clear [uses_intro]:
  "uses (\<lambda>p A. rings_res p \<subseteq># A \<and> Q () (no_rings p) (A - rings_res p)) onic_vf_rings_clear Q"
proof (rule uses_at, elim conjE)
  fix p0 A0
  assume "rings_res p0 \<subseteq># A0" and Q: "Q () (no_rings p0) (A0 - rings_res p0)"
  define I where "I js p A \<longleftrightarrow> distinct js \<and> A = (\<Sum>i\<in>set js. queue_res p i) + (A0 - rings_res p0) \<and>
    wipe (set js) p = no_rings p0" for js p A
  have "uses (I [0..<64]) onic_vf_rings_clear (\<lambda>_. I [])"
    unfolding onic_vf_rings_clear_def
  proof (rule uses_for_each, rule uses_pre, (rule uses_intro)+)
    fix x js p A
    assume I: "I (x # js) p A"
    then have a: "A = queue_res p x + (\<Sum>i\<in>set js. queue_res p i) + (A0 - rings_res p0)" "x \<notin> set js"
      by (simp_all add: I_def ac_simps)
    have "(\<Sum>i\<in>set js. queue_res (put_rxq x None (put_txq x None p)) i) = (\<Sum>i\<in>set js. queue_res p i)"
      by (rule sum.cong) (use a(2) in auto)
    with I a show "txq_res (pr_tx_queue p x) \<subseteq># A \<and> rxq_res (pr_rx_queue (put_txq x None p) x) \<subseteq># A - txq_res (pr_tx_queue p x) \<and>
        I js (put_rxq x None (put_txq x None p)) (A - txq_res (pr_tx_queue p x) - rxq_res (pr_rx_queue (put_txq x None p) x))"
      by (simp add: I_def wipe_put queue_res_def ac_simps)
  qed
  then show "uses (\<lambda>p A. p = p0 \<and> A = A0) onic_vf_rings_clear Q"
  proof (rule uses_conseq)
    show "I [0..<64] p A" if "p = p0 \<and> A = A0" for p A
      using that \<open>rings_res p0 \<subseteq># A0\<close> by (simp add: I_def atLeast0LessThan rings_res_def)
    show "Q a p A" if "I [] p A" for a p A
      using that Q by (simp add: I_def wipe_none)
  qed
qed

text \<open>The tables after the allocation of all rings.\<close>

definition tx_table_ok :: "onic_private \<Rightarrow> nat set \<Rightarrow> bool" where
  "tx_table_ok p X \<longleftrightarrow> (\<forall>i\<in>X. \<exists>q. pr_tx_queue p i = Some q \<and> fresh_txq i q \<and> tq_vector q = vf_vector_of p i)"

definition rx_table_ok :: "onic_private \<Rightarrow> bool" where
  "rx_table_ok p \<longleftrightarrow> (\<forall>i<ONIC_MAX_QUEUES. \<forall>q. pr_rx_queue p i = Some q \<longrightarrow> fresh_rxq i q \<and> rq_vector q = vf_vector_of p i)"

lemma wipe_sel:
  assumes "wipe X p = p0"
  shows "pr_num_q_vectors p = pr_num_q_vectors p0" "pr_num_tx_queues p = pr_num_tx_queues p0"
    "pr_num_rx_queues p = pr_num_rx_queues p0" "pr_q_vector p = pr_q_vector p0" "vf_vector_of p = vf_vector_of p0"
    "pr_vf_hw p = pr_vf_hw p0"
  using assms by (auto simp: wipe_def vf_vector_of_def fun_eq_iff)

definition alloc_inv :: "onic_private \<Rightarrow> resource multiset \<Rightarrow> nat \<Rightarrow> nat list \<Rightarrow> nat list \<Rightarrow> assertion" where
  "alloc_inv p0 A0 n ts rs p A \<longleftrightarrow> no_rings p = p0 \<and> A = rings_res p + A0 \<and> distinct ts \<and> distinct rs \<and>
     (\<forall>i\<in>set ts. i < 64 \<and> pr_tx_queue p i = None) \<and> (\<forall>i\<in>set rs. i < 64 \<and> pr_rx_queue p i = None) \<and>
     tx_table_ok p ({..<n} - set ts) \<and> rx_table_ok p"

definition leftover :: "onic_private \<Rightarrow> resource multiset \<Rightarrow> int \<Rightarrow> assertion" where
  "leftover p0 A0 r p A \<longleftrightarrow> r < 0 \<and> no_rings p = p0 \<and> A = rings_res p + A0"

lemma uses_tx_rings:
  "uses (alloc_inv p0 A0 n ts rs) (for_until ts onic_vf_alloc_tx_ring)
     (\<lambda>(r, js). if r = 0 then alloc_inv p0 A0 n [] rs else leftover p0 A0 r)"
proof (rule uses_for_until [where J = "\<lambda>r js. leftover p0 A0 r" and I = "\<lambda>ts. alloc_inv p0 A0 n ts rs"],
    rule uses_pre, rule uses_intro)
  fix x js p A
  assume I: "alloc_inv p0 A0 n (x # js) rs p A"
  then have x: "x < 64" "pr_tx_queue p x = None" "x \<notin> set js" by (simp_all add: alloc_inv_def)
  have "leftover p0 A0 e p A" if "e < 0" for e using I that by (simp add: leftover_def alloc_inv_def)
  moreover have "alloc_inv p0 A0 n js rs (put_txq x (Some q) p) (txq_res (Some q) + A)"
    if "fresh_txq x q" "tq_vector q = vf_vector_of p x" for q
    using I x that by (auto simp: alloc_inv_def wipe_put rings_res_put tx_table_ok_def rx_table_ok_def vf_vector_of_def ac_simps)
  ultimately show "(\<forall>e<0. (if e = 0 then alloc_inv p0 A0 n js rs else leftover p0 A0 e) p A) \<and>
      (\<forall>q. fresh_txq x q \<and> tq_vector q = vf_vector_of p x \<longrightarrow>
         (if (0 :: int) = 0 then alloc_inv p0 A0 n js rs else leftover p0 A0 0) (put_txq x (Some q) p) (txq_res (Some q) + A))"
    by auto
qed

lemma uses_rx_rings:
  "uses (alloc_inv p0 A0 n ts rs) (for_until rs onic_vf_alloc_rx_ring)
     (\<lambda>(r, js). if r = 0 then alloc_inv p0 A0 n ts [] else leftover p0 A0 r)"
proof (rule uses_for_until [where J = "\<lambda>r js. leftover p0 A0 r" and I = "\<lambda>rs. alloc_inv p0 A0 n ts rs"],
    rule uses_pre, rule uses_intro)
  fix x js p A
  assume I: "alloc_inv p0 A0 n ts (x # js) p A"
  then have x: "x < 64" "pr_rx_queue p x = None" "x \<notin> set js" by (simp_all add: alloc_inv_def)
  have "leftover p0 A0 e p A" if "e < 0" for e using I that by (simp add: leftover_def alloc_inv_def)
  moreover have "alloc_inv p0 A0 n ts js p A" using I by (simp add: alloc_inv_def)
  moreover have "alloc_inv p0 A0 n ts js (put_rxq x (Some q) p) (rxq_res (Some q) + A)"
    if "fresh_rxq x q" "rq_vector q = vf_vector_of p x" for q
    using I x that by (auto simp: alloc_inv_def wipe_put rings_res_put tx_table_ok_def rx_table_ok_def vf_vector_of_def ac_simps)
  ultimately show "(\<forall>e<0. (if e = 0 then alloc_inv p0 A0 n ts js else leftover p0 A0 e) p A) \<and>
      (if (0 :: int) = 0 then alloc_inv p0 A0 n ts js else leftover p0 A0 0) p A \<and>
      (\<forall>q. fresh_rxq x q \<and> rq_vector q = vf_vector_of p x \<longrightarrow>
         (if (0 :: int) = 0 then alloc_inv p0 A0 n ts js else leftover p0 A0 0) (put_rxq x (Some q) p) (rxq_res (Some q) + A))"
    by auto
qed

definition rings_ready :: "onic_private \<Rightarrow> bool" where
  "rings_ready p \<longleftrightarrow> tx_table_ok p {..<unat (pr_num_tx_queues p)} \<and> rx_table_ok p"

lemma no_rings_res: "no_rings p = p \<Longrightarrow> rings_res p = {#} \<and> (\<forall>i<64. pr_tx_queue p i = None \<and> pr_rx_queue p i = None)"
proof -
  assume w: "no_rings p = p"
  have "pr_tx_queue (no_rings p) i = None \<and> pr_rx_queue (no_rings p) i = None" if "i < 64" for i
    using that by (simp add: wipe_def)
  then show ?thesis by (simp add: w rings_res_def queue_res_def)
qed

lemma uses_rings_init [uses_intro]:
  "uses (\<lambda>p A. no_rings p = p \<and> unat (pr_num_tx_queues p) \<le> 64 \<and> unat (pr_num_rx_queues p) \<le> 64 \<and>
      (\<forall>e<0. Q e p A) \<and> (\<forall>p'. no_rings p' = p \<and> rings_ready p' \<longrightarrow> Q 0 p' (rings_res p' + A)))
     onic_vf_rings_init Q"
proof (rule uses_at, elim conjE)
  fix p0 A0
  assume p0: "no_rings p0 = p0" and n: "unat (pr_num_tx_queues p0) \<le> 64" "unat (pr_num_rx_queues p0) \<le> 64"
    and Q: "\<forall>e<0. Q e p0 A0" "\<forall>p'. no_rings p' = p0 \<and> rings_ready p' \<longrightarrow> Q 0 p' (rings_res p' + A0)"
  have start: "alloc_inv p0 A0 (unat (pr_num_tx_queues p0)) [0..<unat (pr_num_tx_queues p0)] [0..<unat (pr_num_rx_queues p0)] p0 A0"
    using p0 n no_rings_res [OF p0] by (auto simp: alloc_inv_def tx_table_ok_def rx_table_ok_def)
  have undo: "uses (leftover p0 A0 e) (do { onic_vf_rings_clear; ret e }) Q" for e
    by (rule uses_pre, (rule uses_intro)+) (use Q in \<open>auto simp: leftover_def\<close>)
  have finish: "uses (alloc_inv p0 A0 (unat (pr_num_tx_queues p0)) [] []) (ret 0) Q"
    by (rule uses_pre, rule uses_ret)
      (use Q in \<open>auto simp: alloc_inv_def rings_ready_def dest: wipe_sel(2)\<close>)
  have rx: "uses (alloc_inv p0 A0 n [] rs)
      (do { (err, _) \<leftarrow> for_until rs onic_vf_alloc_rx_ring;
            if err \<noteq> 0 then do { onic_vf_rings_clear; ret err } else ret 0 }) Q"
    if "n = unat (pr_num_tx_queues p0)" for n rs
    by (rule uses_bind [OF _ uses_rx_rings]) (use that in \<open>auto intro: undo finish split: prod.split\<close>)
  have tx: "uses (alloc_inv p0 A0 n ts rs)
      (do { (err, _) \<leftarrow> for_until ts onic_vf_alloc_tx_ring;
            if err \<noteq> 0 then do { onic_vf_rings_clear; ret err }
            else do { (err, _) \<leftarrow> for_until rs onic_vf_alloc_rx_ring;
              if err \<noteq> 0 then do { onic_vf_rings_clear; ret err } else ret 0 } }) Q"
    if "n = unat (pr_num_tx_queues p0)" for n ts rs
    by (rule uses_bind [OF _ uses_tx_rings]) (use that in \<open>auto intro: undo rx split: prod.split\<close>)
  show "uses (\<lambda>p A. p = p0 \<and> A = A0) onic_vf_rings_init Q"
    unfolding onic_vf_rings_init_def
    by (rule uses_pre, rule uses_bind, rule uses_if, rule uses_ret, rule tx, rule refl, rule uses_get_priv)
      (use start Q in auto)
qed

section \<open>Queue interrupts\<close>

definition vec_res :: "nat \<Rightarrow> onic_q_vector option \<Rightarrow> resource multiset" where
  "vec_res i v = (case v of None \<Rightarrow> {#} | Some vec \<Rightarrow> add_mset (R_irq (Irq_vf_q i)) (heap (qv_self vec)))"

definition vecs_res :: "onic_private \<Rightarrow> resource multiset" where
  "vecs_res p = (\<Sum>i<ONIC_MAX_QUEUES. vec_res i (pr_q_vector p i))"

lemma vecs_res_put: "x < 64 \<Longrightarrow> pr_q_vector p x = None \<Longrightarrow> vecs_res (put_vec x v p) = vec_res x v + vecs_res p"
  by (simp add: vecs_res_def sum.remove [of "{..<64}" x] vec_res_def ac_simps)

lemma uses_clear_irq [uses_intro]:
  "uses (\<lambda>p A. vec_res i (pr_q_vector p i) \<subseteq># A \<and> Q () (put_vec i None p) (A - vec_res i (pr_q_vector p i)))
     (onic_vf_clear_one_q_irq i) Q"
proof -
  have same: "pr_q_vector p i = None \<Longrightarrow> put_vec i None p = p" for p by (cases p) (simp add: fun_upd_idem)
  show ?thesis
    unfolding onic_vf_clear_one_q_irq_def set_q_vector_def
    by (rule uses_pre, (rule uses_intro)+)
      (auto simp: same charge_simps vec_res_def mset_subset_eq_exists_conv split: option.split)
qed

lemma uses_init_irq [uses_intro]:
  "uses (\<lambda>p A. (\<forall>e. e \<noteq> 0 \<longrightarrow> Q e p A) \<and>
      (\<forall>v. qv_vid v = of_nat i \<longrightarrow> Q 0 (put_vec i (Some v) p) (vec_res i (Some v) + A))) (onic_vf_init_one_q_irq i) Q"
  unfolding onic_vf_init_one_q_irq_def set_q_vector_def
  apply (rule uses_pre)
   apply (rule uses_intro)+
  apply (auto simp: charge_simps)
  subgoal premises prems
    by (rule subst [of _ _ "Q 0 _", rotated], rule prems(2) [rule_format]) (simp_all add: vec_res_def)
  done

text \<open>Clearing the vectors of a list, which hold everything beyond \<open>A0\<close>.\<close>

definition vec_inv :: "onic_private \<Rightarrow> resource multiset \<Rightarrow> nat list \<Rightarrow> assertion" where
  "vec_inv p0 A0 js p A \<longleftrightarrow> distinct js \<and> A = (\<Sum>i\<in>set js. vec_res i (pr_q_vector p i)) + A0 \<and> drop_vecs (set js) p = p0"

lemma uses_clear_irqs:
  "uses (vec_inv p0 A0 js) (for_each js onic_vf_clear_one_q_irq) (\<lambda>_ p A. p = p0 \<and> A = A0)"
proof (rule uses_conseq)
  show "uses (vec_inv p0 A0 js) (for_each js onic_vf_clear_one_q_irq) (\<lambda>_. vec_inv p0 A0 [])"
  proof (rule uses_for_each, rule uses_pre, (rule uses_intro)+)
    fix x js p A
    assume I: "vec_inv p0 A0 (x # js) p A"
    then have a: "A = vec_res x (pr_q_vector p x) + ((\<Sum>i\<in>set js. vec_res i (pr_q_vector p i)) + A0)" "x \<notin> set js"
      by (simp_all add: vec_inv_def ac_simps)
    have "(\<Sum>i\<in>set js. vec_res i (pr_q_vector (put_vec x None p) i)) = (\<Sum>i\<in>set js. vec_res i (pr_q_vector p i))"
      by (rule sum.cong) (use a(2) in auto)
    with I a show "vec_res x (pr_q_vector p x) \<subseteq># A \<and> vec_inv p0 A0 js (put_vec x None p) (A - vec_res x (pr_q_vector p x))"
      by (simp add: vec_inv_def drop_vecs_put)
  qed
qed (auto simp: vec_inv_def drop_vecs_put)

lemma uses_q_irq_clear [uses_intro]:
  "uses (\<lambda>p A. vecs_res p \<subseteq># A \<and> Q () (no_vecs p) (A - vecs_res p)) onic_vf_q_irq_clear Q"
proof (rule uses_at, elim conjE)
  fix p0 A0
  assume "vecs_res p0 \<subseteq># A0" "Q () (no_vecs p0) (A0 - vecs_res p0)"
  then show "uses (\<lambda>p A. p = p0 \<and> A = A0) onic_vf_q_irq_clear Q"
    unfolding onic_vf_q_irq_clear_def
    by (intro uses_conseq [OF uses_clear_irqs [where ?A0.0 = "A0 - vecs_res p0"]])
      (auto simp: vec_inv_def vecs_res_def atLeast0LessThan)
qed

definition irq_inv :: "onic_private \<Rightarrow> resource multiset \<Rightarrow> nat \<Rightarrow> nat list \<Rightarrow> assertion" where
  "irq_inv p0 A0 n js p A \<longleftrightarrow> (\<exists>k\<le>n. js = [k..<n] \<and> (\<forall>i<k. \<exists>v. pr_q_vector p i = Some v \<and> qv_vid v = of_nat i) \<and>
     (\<forall>i<64. k \<le> i \<longrightarrow> pr_q_vector p i = None) \<and> A = vecs_res p + A0 \<and> no_vecs p = p0)"

lemma uses_q_irq_init [uses_intro]:
  "uses (\<lambda>p A. no_vecs p = p \<and> unat (pr_num_q_vectors p) \<le> 64 \<and> (\<forall>e. e \<noteq> 0 \<longrightarrow> Q e p A) \<and>
      (\<forall>p'. no_vecs p' = p \<and> (\<forall>i<unat (pr_num_q_vectors p). \<exists>v. pr_q_vector p' i = Some v \<and> qv_vid v = of_nat i) \<longrightarrow>
         Q 0 p' (vecs_res p' + A))) onic_vf_q_irq_init Q"
proof (rule uses_at, elim conjE)
  fix p0 :: onic_private and A0
  let ?n = "unat (pr_num_q_vectors p0)"
  assume p0: "no_vecs p0 = p0" and n: "?n \<le> 64" and Q: "\<forall>e. e \<noteq> 0 \<longrightarrow> Q e p0 A0"
    "\<forall>p'. no_vecs p' = p0 \<and> (\<forall>i<?n. \<exists>v. pr_q_vector p' i = Some v \<and> qv_vid v = of_nat i) \<longrightarrow> Q 0 p' (vecs_res p' + A0)"
  have none: "pr_q_vector p0 i = None" if "i < 64" for i
  proof -
    have "pr_q_vector (no_vecs p0) i = None" using that by (simp add: drop_vecs_def)
    then show ?thesis by (simp add: p0)
  qed
  have loop: "uses (irq_inv p0 A0 ?n [0..<?n]) (for_until [0..<?n] onic_vf_init_one_q_irq)
     (\<lambda>(r, js). if r = 0 then (\<lambda>p A. js = [] \<and> irq_inv p0 A0 ?n [] p A) else (\<lambda>p A. r \<noteq> 0 \<and> js \<noteq> [] \<and> irq_inv p0 A0 ?n js p A))"
  proof (rule uses_conseq, rule uses_for_until_end [where J = "\<lambda>r js p A. r \<noteq> 0 \<and> js \<noteq> [] \<and> irq_inv p0 A0 ?n js p A"
        and I = "irq_inv p0 A0 ?n"], rule uses_pre, rule uses_intro)
    fix x js p A
    assume I: "irq_inv p0 A0 ?n (x # js) p A"
    then have x: "js = [Suc x..<?n]" "x < ?n" "pr_q_vector p x = None"
      using n by (auto simp: irq_inv_def Cons_eq_upt)
    have "irq_inv p0 A0 ?n js (put_vec x (Some v) p) (vec_res x (Some v) + A)" if "qv_vid v = of_nat x" for v
      using I x that n unfolding irq_inv_def
      by (intro exI [of _ "Suc x"]) (auto simp: less_Suc_eq drop_vecs_put vecs_res_put Cons_eq_upt ac_simps)
    then show "(\<forall>e. e \<noteq> 0 \<longrightarrow> (if e = 0 then irq_inv p0 A0 ?n js else (\<lambda>p A. e \<noteq> 0 \<and> x # js \<noteq> [] \<and> irq_inv p0 A0 ?n (x # js) p A)) p A) \<and>
      (\<forall>v. qv_vid v = of_nat x \<longrightarrow> (if (0 :: int) = 0 then irq_inv p0 A0 ?n js else (\<lambda>p A. (0 :: int) \<noteq> 0 \<and> x # js \<noteq> [] \<and> irq_inv p0 A0 ?n (x # js) p A))
         (put_vec x (Some v) p) (vec_res x (Some v) + A))"
      using I by auto
  qed auto
  have undo: "uses (irq_inv p0 A0 ?n (x # js)) (do { for_each (rev [0..<x]) onic_vf_clear_one_q_irq; ret e }) Q"
    if "e \<noteq> 0" for x js e
  proof (rule uses_bind, rule uses_ret, rule uses_conseq, rule uses_clear_irqs [where ?p0.0 = p0 and ?A0.0 = A0])
    fix p A
    assume I: "irq_inv p0 A0 ?n (x # js) p A"
    then have x: "x < 64" "\<forall>i<64. x \<le> i \<longrightarrow> pr_q_vector p i = None" "A = vecs_res p + A0" "no_vecs p = p0"
      using n by (auto simp: irq_inv_def Cons_eq_upt)
    have u: "{..<64} = {x..<64} \<union> {..<x}" using x(1) by auto
    have "vecs_res p = (\<Sum>i<x. vec_res i (pr_q_vector p i))"
      unfolding vecs_res_def by (rule sum.mono_neutral_right) (use x in \<open>auto simp: vec_res_def\<close>)
    moreover have "drop_vecs {..<x} p = p0"
      using x(2,4) drop_vecs_none [of "{x..<64}" p "{..<x}"] by (simp add: u)
    ultimately show "vec_inv p0 A0 (rev [0..<x]) p A" using x(3) by (simp add: vec_inv_def atLeast0LessThan)
  qed (use Q(1) that in auto)
  have fin: "uses ((\<lambda>(r, js). if r = 0 then (\<lambda>p A. js = [] \<and> irq_inv p0 A0 ?n [] p A) else (\<lambda>p A. r \<noteq> 0 \<and> js \<noteq> [] \<and> irq_inv p0 A0 ?n js p A)) a)
     (case a of (err, rest) \<Rightarrow> case rest of [] \<Rightarrow> ret 0
        | vid # _ \<Rightarrow> do { for_each (rev [0..<vid]) onic_vf_clear_one_q_irq; ret err }) Q" for a
  proof (cases a)
    case (Pair r js)
    have "uses (irq_inv p0 A0 ?n []) (ret 0) Q"
      by (rule uses_pre, rule uses_ret) (use Q(2) in \<open>auto simp: irq_inv_def Nil_eq_upt\<close>)
    moreover have "uses (\<lambda>p A. r \<noteq> 0 \<and> x # xs \<noteq> [] \<and> irq_inv p0 A0 ?n (x # xs) p A)
        (do { for_each (rev [0..<x]) onic_vf_clear_one_q_irq; ret r }) Q" if "r \<noteq> 0" for x xs
      by (rule uses_pre [OF undo [OF that, where x = x and js = xs]]) simp
    ultimately show ?thesis
      by (cases js) (auto simp: Pair uses_def)
  qed
  show "uses (\<lambda>p A. p = p0 \<and> A = A0) onic_vf_q_irq_init Q"
    unfolding onic_vf_q_irq_init_def
    by (rule uses_get_at, rule uses_pre [OF uses_bind [OF fin loop]])
      (use p0 none n in \<open>auto simp: irq_inv_def vecs_res_def vec_res_def\<close>)
qed

end
