(* ===== verification/Vf_Lifecycle.thy ===== *)
theory Vf_Lifecycle
  imports Vf_Netdev Vf_Resources
begin

text \<open>
  The resources over the life of a VF network device: what opening and stopping it acquire and give back. The
  exchanges with the PF touch the mailbox fields and the state bits of the queues only.
\<close>

section \<open>Exchanges with the PF\<close>

lemma keeps_bar0 [keeps_intro]: "keeps f (onic_vf_read_bar0 off)" "keeps f (onic_vf_write_bar0 off v)"
  by (rule keeps_io; auto intro: io_intro triple_intro)+

lemma keeps_msg [keeps_intro]: "keeps f (onic_vf_mbox_read_msg off)" "keeps f (onic_vf_mbox_write_msg off msg)"
  unfolding onic_vf_mbox_read_msg_def onic_vf_mbox_write_msg_def read_words_def write_words_def
  by (auto intro!: keeps_intro)

lemma keeps_process_one [keeps_intro]: "keeps but_mbox onic_vf_mbox_process_one"
  unfolding onic_vf_mbox_process_one_def by (auto intro!: keeps_intro)

lemma keeps_irq [keeps_intro]: "keeps but_mbox onic_vf_mbox_irq_handler" "keeps but_mbox onic_vf_mbox_irq_thread"
  unfolding onic_vf_mbox_irq_handler_def onic_vf_mbox_irq_thread_def by (auto intro!: keeps_intro)

lemma keeps_interrupts [keeps_intro]: "keeps but_mbox (mbox_interrupts n)"
  by (induction n) (auto intro!: keeps_intro)

lemma keeps_wait [keeps_intro]: "keeps but_mbox (wait_mbox_done ms)"
  unfolding wait_mbox_done_def by (auto intro!: keeps_intro)

lemma keeps_drop_stale [keeps_intro]: "keeps but_mbox (vf_drop_stale n d)"
  by (induction n arbitrary: d) (auto intro!: keeps_intro)

lemma keeps_send_request [keeps_intro]: "keeps but_mbox (send_request m)"
  unfolding send_request_def by (auto intro!: keeps_intro)

lemma keeps_validate_cmd [keeps_intro]: "keeps f (validate_cmd seq op qid dir err)"
  unfolding validate_cmd_def by (auto intro!: keeps_intro)

lemma keeps_queue_cmds [keeps_intro]:
  "keeps but_mbox (onic_vf_mbox_config_queue cfg)" "keeps but_mbox (onic_vf_mbox_clear_queue qid dir)"
  unfolding onic_vf_mbox_config_queue_def onic_vf_mbox_clear_queue_def onic_vf_mbox_send_queue_cmd_def
    onic_vf_mbox_drop_stale_responses_def
  by (auto intro!: keeps_intro)

section \<open>The state bits of the queues\<close>

text \<open>The private data without the mailbox fields, the state bits and the head of the receive rings.\<close>

definition run_frame :: "onic_private \<Rightarrow> onic_private" where
  "run_frame p = pr_tx_queue_update (\<lambda>t i. map_option (tq_state_update (\<lambda>_. 0)) (t i))
     (pr_rx_queue_update (\<lambda>t i. map_option (\<lambda>q. q\<lparr>rq_state := 0,
        rq_desc_ring := (rq_desc_ring q)\<lparr>ring_next_to_use := 0\<rparr>\<rparr>) (t i)) (but_mbox p))"

definition napi_on :: "onic_private \<Rightarrow> nat \<Rightarrow> bool" where
  "napi_on p i \<longleftrightarrow> (case pr_rx_queue p i of None \<Rightarrow> False | Some q \<Rightarrow> bit (rq_state q) ONIC_VF_RX_NAPI_ENABLED)"

definition run_part :: "onic_private \<Rightarrow> onic_private \<times> (nat \<Rightarrow> bool)" where
  "run_part p = (run_frame p, napi_on p)"

lemma run_part_eq: "run_part p' = run_part p \<longleftrightarrow> run_frame p' = run_frame p \<and> napi_on p' = napi_on p"
  by (simp add: run_part_def)

lemma but_mbox_sel [simp]:
  "pr_tx_queue (but_mbox p) = pr_tx_queue p" "pr_rx_queue (but_mbox p) = pr_rx_queue p"
  "pr_num_tx_queues (but_mbox p) = pr_num_tx_queues p" "pr_num_rx_queues (but_mbox p) = pr_num_rx_queues p"
  "pr_num_q_vectors (but_mbox p) = pr_num_q_vectors p" "pr_q_vector (but_mbox p) = pr_q_vector p"
  "but_mbox (but_mbox p) = but_mbox p"
  "but_mbox (pr_tx_queue_update f p) = pr_tx_queue_update f (but_mbox p)"
  "but_mbox (pr_rx_queue_update g p) = pr_rx_queue_update g (but_mbox p)"
  by (simp_all add: but_mbox_def comp_def)

lemma run_frame_sel [simp]:
  "pr_num_tx_queues (run_frame p) = pr_num_tx_queues p" "pr_num_rx_queues (run_frame p) = pr_num_rx_queues p"
  by (simp_all add: run_frame_def)

lemma run_part_mbox:
  assumes "but_mbox p' = but_mbox p"
  shows "run_part p' = run_part p" "pr_tx_queue p' = pr_tx_queue p" "pr_rx_queue p' = pr_rx_queue p"
proof -
  show t: "pr_tx_queue p' = pr_tx_queue p" "pr_rx_queue p' = pr_rx_queue p"
    using assms but_mbox_sel(1,2) by metis+
  then show "run_part p' = run_part p" by (simp add: run_part_def run_frame_def assms napi_on_def fun_eq_iff)
qed

lemma keeps_run_part: "keeps but_mbox m \<Longrightarrow> keeps run_part m"
  by (erule keeps_conseq) (rule run_part_mbox)

lemma run_part_set_tx:
  "pr_tx_queue p i = Some q \<Longrightarrow> run_part (put_txq i (Some (q\<lparr>tq_state := w\<rparr>)) p) = run_part p"
  by (cases p) (auto simp: run_part_def run_frame_def but_mbox_def napi_on_def fun_eq_iff)

lemma run_frame_set_rx:
  "pr_rx_queue p i = Some q \<Longrightarrow> run_frame (put_rxq i (Some (q\<lparr>rq_state := w\<rparr>)) p) = run_frame p"
  "pr_rx_queue p i = Some q \<Longrightarrow>
     run_frame (put_rxq i (Some (q\<lparr>rq_state := w, rq_desc_ring := (rq_desc_ring q)\<lparr>ring_next_to_use := u\<rparr>\<rparr>)) p) = run_frame p"
  by (cases p; auto simp: run_frame_def but_mbox_def fun_eq_iff)+

lemma napi_on_set_rx:
  "rq_state q' = w \<Longrightarrow> napi_on (put_rxq i (Some q') p) = (napi_on p)(i := bit w ONIC_VF_RX_NAPI_ENABLED)"
  by (auto simp: napi_on_def fun_eq_iff)

section \<open>Queue contexts\<close>

text \<open>The same from private data \<open>p\<close>: for an operation that looks up a queue, has the PF act on it and stores it back.\<close>

definition keeps_from :: "(onic_private \<Rightarrow> 'b) \<Rightarrow> onic_private \<Rightarrow> 'a onic \<Rightarrow> bool" where
  "keeps_from f p m \<longleftrightarrow> (\<forall>s. priv s = p \<longrightarrow> (case run_state m s of (a, s') \<Rightarrow>
     f (priv s') = f p \<and> ledger (trace s') = ledger (trace s)))"

lemma keeps_get [keeps_intro]: "(\<And>p. keeps_from f p (g p)) \<Longrightarrow> keeps f (State_Monad.bind get_priv g)"
  by (simp add: keeps_def keeps_from_def run_get_priv)

lemma keeps_from_rules:
  "keeps f m \<Longrightarrow> keeps_from f p m"
  "(c \<Longrightarrow> keeps_from f p m) \<Longrightarrow> (\<not> c \<Longrightarrow> keeps_from f p n) \<Longrightarrow> keeps_from f p (if c then m else n)"
  "(x = None \<Longrightarrow> keeps_from f p m) \<Longrightarrow> (\<And>z. x = Some z \<Longrightarrow> keeps_from f p (g z)) \<Longrightarrow>
     keeps_from f p (case x of None \<Rightarrow> m | Some z \<Rightarrow> g z)"
proof -
  assume "keeps f m"
  then show "keeps_from f p m" unfolding keeps_from_def by (auto dest: keepsD)
qed (auto split: option.split)

text \<open>A command to the PF, then a change of the state bits of a queue.\<close>

lemma keeps_from_cmd:
  assumes "keeps but_mbox m" "\<And>p'. but_mbox p' = but_mbox p \<Longrightarrow> run_part (g p') = run_part p"
  shows "keeps_from run_part p (do { err \<leftarrow> m; if err \<noteq> 0 then ret err else do { upd_priv g; ret 0 } })"
  unfolding keeps_from_def
proof (intro allI impI)
  fix s :: drv_state
  assume p: "priv s = p"
  obtain e s1 where m: "run_state m s = (e, s1)" by (cases "run_state m s")
  from keepsD [OF assms(1) m] p have k: "but_mbox (priv s1) = but_mbox p" "ledger (trace s1) = ledger (trace s)" by simp_all
  with run_part_mbox(1) [OF k(1)] assms(2) [OF k(1)] m
  show "case run_state (do { err \<leftarrow> m; if err \<noteq> 0 then ret err else do { upd_priv g; ret 0 } }) s of
      (a, s') \<Rightarrow> run_part (priv s') = run_part p \<and> ledger (trace s') = ledger (trace s)"
    by (simp add: run_simps)
qed

lemma run_part_tx_step:
  "pr_tx_queue p i = Some q \<Longrightarrow> but_mbox p' = but_mbox p \<Longrightarrow>
     run_part (put_txq i (Some (q\<lparr>tq_state := w\<rparr>)) p') = run_part p"
  using run_part_set_tx [of p' i q w] run_part_mbox [of p' p] by simp

lemma run_part_rx_step:
  assumes "pr_rx_queue p i = Some q" "but_mbox p' = but_mbox p"
    "bit w ONIC_VF_RX_NAPI_ENABLED = bit (rq_state q) ONIC_VF_RX_NAPI_ENABLED"
  shows "run_part (put_rxq i (Some (q\<lparr>rq_state := w\<rparr>)) p') = run_part p"
proof -
  have q: "pr_rx_queue p' i = Some q" "run_part p' = run_part p" using run_part_mbox [OF assms(2)] assms(1) by simp_all
  have n: "napi_on p' i = bit w ONIC_VF_RX_NAPI_ENABLED" using q(1) assms(3) by (simp add: napi_on_def)
  have "napi_on (put_rxq i (Some (q\<lparr>rq_state := w\<rparr>)) p') = napi_on p'"
    using napi_on_set_rx [of "q\<lparr>rq_state := w\<rparr>" w i p'] by (simp add: n [symmetric] fun_upd_idem)
  then show ?thesis using q(2) run_frame_set_rx(1) [OF q(1), of w] by (simp add: run_part_eq)
qed

lemma keeps_one_context [keeps_intro]:
  "keeps run_part (onic_vf_clear_one_tx_context i)" "keeps run_part (onic_vf_config_one_tx_context i)"
  "keeps run_part (onic_vf_clear_one_rx_context i)" "keeps run_part (onic_vf_config_one_rx_context i)"
  unfolding onic_vf_clear_one_tx_context_def onic_vf_config_one_tx_context_def onic_vf_clear_one_rx_context_def
    onic_vf_config_one_rx_context_def set_tx_queue_def set_rx_queue_def
  by (auto intro!: keeps_get keeps_from_rules(2,3) keeps_from_cmd keeps_queue_cmds run_part_tx_step run_part_rx_step
      keeps_from_rules(1) [OF keeps_ret] simp: bit_simps)

lemma keeps_contexts [keeps_intro]:
  "keeps run_part onic_vf_tx_contexts_clear" "keeps run_part onic_vf_rx_contexts_clear"
  "keeps run_part onic_vf_tx_contexts_init" "keeps run_part onic_vf_rx_contexts_init"
  unfolding onic_vf_tx_contexts_clear_def onic_vf_rx_contexts_clear_def onic_vf_tx_contexts_init_def
    onic_vf_rx_contexts_init_def clear_all_def
  by (intro keeps_intro keeps_get [OF keeps_from_rules(1)])+

section \<open>The receive datapath\<close>

definition napi_res :: "onic_private \<Rightarrow> resource multiset" where
  "napi_res p = (\<Sum>i<unat (pr_num_rx_queues p). if napi_on p i then {#R_napi i#} else {#})"

lemma keeps_doorbells [keeps_intro]:
  "keeps f (onic_vf_set_rx_head qid n)" "keeps f (onic_vf_set_completion_tail qid n a)"
  by (rule keeps_io; auto intro: io_intro emits_vf_doorbells)+

lemmas uses_doorbells [uses_intro] = keeps_doorbells [where f = "\<lambda>p. p", THEN keeps_uses]

lemma charge_napi [simp]:
  "charge (Net (Netif_napi_add i)) r Q A \<longleftrightarrow> Q (add_mset (R_napi i) A)"
  "charge (Net (Netif_napi_del i)) r Q A \<longleftrightarrow> R_napi i \<in># A \<and> Q (A - {#R_napi i#})"
  by (simp_all add: charge_def)

lemma uses_start_rx [uses_intro]:
  "uses (\<lambda>p A. (\<forall>e<0. Q e p A) \<and>
      (\<forall>p'. run_frame p' = run_frame p \<and> napi_on p' = (napi_on p)(i := True) \<longrightarrow> Q 0 p' (add_mset (R_napi i) A)))
     (start_rx_queue i) Q"
  unfolding start_rx_queue_def set_rx_queue_def
  by (rule uses_pre, (rule uses_intro)+)
    (auto simp: run_frame_set_rx napi_on_set_rx bit_simps split: option.split)

lemma napi_on_at:
  "pr_rx_queue p i = None \<Longrightarrow> \<not> napi_on p i"
  "pr_rx_queue p i = Some q \<Longrightarrow> napi_on p i \<longleftrightarrow> bit (rq_state q) ONIC_VF_RX_NAPI_ENABLED"
  by (simp_all add: napi_on_def)

lemma uses_stop_rx [uses_intro]:
  "uses (\<lambda>p A. if napi_on p i
      then R_napi i \<in># A \<and> (\<forall>p'. run_frame p' = run_frame p \<and> napi_on p' = (napi_on p)(i := False) \<longrightarrow> Q () p' (A - {#R_napi i#}))
      else Q () p A) (stop_rx_queue i) Q"
  unfolding stop_rx_queue_def set_rx_queue_def
  by (rule uses_pre, (rule uses_intro)+)
    (auto simp: run_frame_set_rx napi_on_set_rx napi_on_at bit_simps split: option.split)

definition dp_inv :: "onic_private \<Rightarrow> resource multiset \<Rightarrow> nat list \<Rightarrow> assertion" where
  "dp_inv F B js p A \<longleftrightarrow> distinct js \<and> run_frame p = F \<and> (\<forall>i<unat (pr_num_rx_queues p). i \<notin> set js \<longrightarrow> \<not> napi_on p i) \<and>
     A = (\<Sum>i\<in>set js. if napi_on p i then {#R_napi i#} else {#}) + B"

lemma same_frame_num: "run_frame p' = run_frame p \<Longrightarrow> pr_num_rx_queues p' = pr_num_rx_queues p \<and> pr_num_tx_queues p' = pr_num_tx_queues p"
  by (metis run_frame_sel)

lemma uses_datapath_clear [uses_intro]:
  "uses (\<lambda>p A. napi_res p \<subseteq># A \<and>
      (\<forall>p'. run_frame p' = run_frame p \<and> (\<forall>i<unat (pr_num_rx_queues p). \<not> napi_on p' i) \<longrightarrow> Q () p' (A - napi_res p)))
     onic_vf_rx_datapath_clear Q"
proof (rule uses_at, elim conjE)
  fix p0 A0
  assume sub: "napi_res p0 \<subseteq># A0" and Q: "\<forall>p'. run_frame p' = run_frame p0 \<and>
    (\<forall>i<unat (pr_num_rx_queues p0). \<not> napi_on p' i) \<longrightarrow> Q () p' (A0 - napi_res p0)"
  let ?I = "dp_inv (run_frame p0) (A0 - napi_res p0)"
  have loop: "uses (?I js) (for_each js stop_rx_queue) (\<lambda>_. ?I [])" for js
  proof (rule uses_for_each, rule uses_pre, rule uses_intro)
    fix x js p A
    assume I: "?I (x # js) p A"
    then have a: "A = (if napi_on p x then {#R_napi x#} else {#}) + ((\<Sum>i\<in>set js. if napi_on p i then {#R_napi i#} else {#}) + (A0 - napi_res p0))"
      "x \<notin> set js" by (simp_all add: dp_inv_def ac_simps)
    have "?I js p' (A - {#R_napi x#})"
      if "napi_on p x" "run_frame p' = run_frame p" "napi_on p' = (napi_on p)(x := False)" for p'
    proof -
      have "(\<Sum>i\<in>set js. if napi_on p' i then {#R_napi i#} else {#}) = (\<Sum>i\<in>set js. if napi_on p i then {#R_napi i#} else {#})"
        by (rule sum.cong) (use a(2) that in auto)
      then show ?thesis using I a that same_frame_num [OF that(2)] by (simp add: dp_inv_def)
    qed
    moreover have "?I js p A" if "\<not> napi_on p x" using I that by (auto simp: dp_inv_def)
    ultimately show "if napi_on p x then R_napi x \<in># A \<and>
        (\<forall>p'. run_frame p' = run_frame p \<and> napi_on p' = (napi_on p)(x := False) \<longrightarrow> ?I js p' (A - {#R_napi x#}))
      else ?I js p A" using a(1) by auto
  qed
  show "uses (\<lambda>p A. p = p0 \<and> A = A0) onic_vf_rx_datapath_clear Q"
    unfolding onic_vf_rx_datapath_clear_def
  proof (rule uses_get_at, rule uses_conseq [OF loop])
    show "?I [0..<unat (pr_num_rx_queues p0)] p A" if "p = p0 \<and> A = A0" for p A
      using that sub by (simp add: dp_inv_def napi_res_def atLeast0LessThan)
    show "Q a p A" if "?I [] p A" for a p A
      using that Q same_frame_num [of p p0] by (simp add: dp_inv_def)
  qed
qed

lemma uses_datapath_init [uses_intro]:
  "uses (\<lambda>p A. (\<forall>i. \<not> napi_on p i) \<and>
      (\<forall>e p'. e < 0 \<and> run_frame p' = run_frame p \<and> (\<forall>i<unat (pr_num_rx_queues p). \<not> napi_on p' i) \<longrightarrow> Q e p' A) \<and>
      (\<forall>p'. run_frame p' = run_frame p \<and> (\<forall>i<unat (pr_num_rx_queues p). napi_on p' i) \<longrightarrow> Q 0 p' (napi_res p' + A)))
     onic_vf_rx_datapath_init Q"
proof (rule uses_at, elim conjE)
  fix p0 :: onic_private and A0
  let ?n = "unat (pr_num_rx_queues p0)"
  assume off: "\<forall>i. \<not> napi_on p0 i" and Q: "\<forall>e p'. e < 0 \<and> run_frame p' = run_frame p0 \<and> (\<forall>i<?n. \<not> napi_on p' i) \<longrightarrow> Q e p' A0"
    "\<forall>p'. run_frame p' = run_frame p0 \<and> (\<forall>i<?n. napi_on p' i) \<longrightarrow> Q 0 p' (napi_res p' + A0)"
  define I where "I js p A \<longleftrightarrow> (\<exists>k\<le>?n. js = [k..<?n] \<and> run_frame p = run_frame p0 \<and> (\<forall>i. napi_on p i \<longleftrightarrow> i < k) \<and> A = napi_res p + A0)"
    for js p A
  have loop: "uses (I [0..<?n]) (for_until [0..<?n] start_rx_queue)
     (\<lambda>(r, js). if r = 0 then I [] else (\<lambda>p A. r < 0 \<and> (\<exists>js. I js p A)))"
  proof (rule uses_for_until [where I = I and J = "\<lambda>r js p A. r < 0 \<and> (\<exists>js. I js p A)"], rule uses_pre, rule uses_intro)
    fix x js p A
    assume A: "I (x # js) p A"
    then have x: "x < ?n" "js = [Suc x..<?n]" "run_frame p = run_frame p0" "\<forall>i. napi_on p i \<longleftrightarrow> i < x" "A = napi_res p + A0"
      by (auto simp: I_def Cons_eq_upt)
    have "I js p' (add_mset (R_napi x) A)"
      if p': "run_frame p' = run_frame p" "napi_on p' = (napi_on p)(x := True)" for p'
    proof -
      have n: "unat (pr_num_rx_queues p') = ?n" "unat (pr_num_rx_queues p) = ?n"
        using same_frame_num [of p' p] same_frame_num [of p p0] p'(1) x(3) by simp_all
      have "(\<Sum>i\<in>{..<?n} - {x}. if napi_on p' i then {#R_napi i#} else {#}) = (\<Sum>i\<in>{..<?n} - {x}. if napi_on p i then {#R_napi i#} else {#})"
        by (rule sum.cong) (use p'(2) in auto)
      then have "napi_res p' = add_mset (R_napi x) (napi_res p)"
        using x(1,4) p'(2) by (simp add: napi_res_def n sum.remove [of "{..<?n}" x])
      moreover have "napi_on p' i \<longleftrightarrow> i < Suc x" for i using x(4) p'(2) by (simp add: less_Suc_eq)
      ultimately show ?thesis
        unfolding I_def using x(1,2,3,5) p'(1) by (intro exI [of _ "Suc x"]) simp
    qed
    then show "(\<forall>e. (e :: int) < 0 \<longrightarrow> (if e = 0 then I js else (\<lambda>p A. e < 0 \<and> (\<exists>js. I js p A))) p A) \<and>
      (\<forall>p'. run_frame p' = run_frame p \<and> napi_on p' = (napi_on p)(x := True) \<longrightarrow>
        (if (0 :: int) = 0 then I js else (\<lambda>p A. (0 :: int) < 0 \<and> (\<exists>js. I js p A))) p' (add_mset (R_napi x) A))"
      using A by auto
  qed
  have undo: "uses (\<lambda>p A. e < 0 \<and> (\<exists>js. I js p A)) (do { onic_vf_rx_datapath_clear; ret e }) Q" for e
  proof (rule uses_pre, (rule uses_intro)+)
    fix p A
    assume "e < 0 \<and> (\<exists>js. I js p A)"
    then have p: "e < 0" "run_frame p = run_frame p0" "A = napi_res p + A0" by (auto simp: I_def)
    then show "napi_res p \<subseteq># A \<and> (\<forall>p'. run_frame p' = run_frame p \<and>
        (\<forall>i<unat (pr_num_rx_queues p). \<not> napi_on p' i) \<longrightarrow> Q e p' (A - napi_res p))"
      using Q(1) same_frame_num [of p p0] by simp
  qed
  have finish: "uses (I []) (ret 0) Q"
    by (rule uses_pre, rule uses_ret) (use Q(2) in \<open>auto simp: I_def Nil_eq_upt\<close>)
  show "uses (\<lambda>p A. p = p0 \<and> A = A0) onic_vf_rx_datapath_init Q"
    unfolding onic_vf_rx_datapath_init_def
  proof (rule uses_get_at, rule uses_pre, rule uses_bind [OF _ loop])
    show "uses ((\<lambda>(r, js). if r = 0 then I [] else (\<lambda>p A. r < 0 \<and> (\<exists>js. I js p A))) a)
        (case a of (err, _) \<Rightarrow> if err \<noteq> 0 then do { onic_vf_rx_datapath_clear; ret err } else ret 0) Q" for a
      using undo finish by (cases a) simp
    show "I [0..<?n] p A" if "p = p0 \<and> A = A0" for p A
      using that off unfolding I_def by (intro exI [of _ 0]) (simp add: napi_res_def)
  qed
qed

section \<open>Opening and stopping\<close>

text \<open>Closed: no ring, hence nothing held for the queues.\<close>

definition no_queues :: "onic_private \<Rightarrow> bool" where
  "no_queues p \<longleftrightarrow> (\<forall>i. pr_tx_queue p i = None \<and> pr_rx_queue p i = None)"

lemma no_queues_wipe: "no_queues p \<Longrightarrow> wipe X p = p"
  by (cases p) (auto simp: no_queues_def wipe_def fun_eq_iff)

lemma no_queues_napi: "no_queues p \<Longrightarrow> \<not> napi_on p i"
  by (simp add: no_queues_def napi_on_def)

text \<open>The resources of the rings depend on the frame only.\<close>

lemma rings_res_frame: "rings_res (run_frame p) = rings_res p"
proof -
  have "txq_res (map_option (tq_state_update (\<lambda>_. 0)) x) = txq_res x" for x
    by (cases x) (simp_all add: txq_res_def)
  moreover have "rxq_res (map_option (\<lambda>q. q\<lparr>rq_state := 0, rq_desc_ring := (rq_desc_ring q)\<lparr>ring_next_to_use := 0\<rparr>\<rparr>) x) = rxq_res x" for x
    by (cases x) (simp_all add: rxq_res_def)
  ultimately show ?thesis by (simp add: rings_res_def queue_res_def run_frame_def)
qed

lemma same_frame_res: "run_frame p' = run_frame p \<Longrightarrow> rings_res p' = rings_res p"
  by (metis rings_res_frame)

text \<open>Freeing the rings of a state with the frame of \<open>p\<close>, which had none before, ends where it began.\<close>

definition closes_to :: "onic_private \<Rightarrow> onic_private \<Rightarrow> bool" where
  "closes_to p0 p \<longleftrightarrow> but_mbox (no_rings p) = but_mbox p0"

lemma frame_none:
  assumes "no_queues (no_rings p1)" "run_frame p = run_frame p1" "\<not> i < 64"
  shows "pr_tx_queue p i = None \<and> pr_rx_queue p i = None"
proof -
  have "pr_tx_queue (no_rings p1) i = None" "pr_rx_queue (no_rings p1) i = None"
    using assms(1) by (simp_all add: no_queues_def)
  then have "pr_tx_queue p1 i = None" "pr_rx_queue p1 i = None" using assms(3) by (simp_all add: wipe_def)
  moreover have "pr_tx_queue (run_frame p) i = pr_tx_queue (run_frame p1) i" "pr_rx_queue (run_frame p) i = pr_rx_queue (run_frame p1) i"
    by (simp_all add: assms(2))
  ultimately show ?thesis by (simp add: run_frame_def)
qed

definition opened :: "onic_private \<Rightarrow> onic_private \<Rightarrow> bool" where
  "opened p0 p \<longleftrightarrow> closes_to p0 p \<and> no_queues (no_rings p)"

lemma opened_frame:
  assumes "opened p0 p1" "run_frame p = run_frame p1"
  shows "opened p0 p" "rings_res p = rings_res p1"
proof -
  have none: "no_queues (no_rings p1)" using assms(1) by (simp add: opened_def)
  have w: "but_mbox (no_rings q) = pr_tx_queue_update (\<lambda>_ _. None) (pr_rx_queue_update (\<lambda>_ _. None) (run_frame q))"
    if "\<And>i. \<not> i < 64 \<Longrightarrow> pr_tx_queue q i = None \<and> pr_rx_queue q i = None" for q
    using that by (cases q) (auto simp: wipe_def run_frame_def but_mbox_def fun_eq_iff)
  have "but_mbox (no_rings p) = but_mbox (no_rings p1)"
    using w [of p] w [of p1] frame_none [OF none] assms(2) by simp
  moreover from this have "no_queues (no_rings p)"
    using none but_mbox_sel(1,2) [of "no_rings p"] but_mbox_sel(1,2) [of "no_rings p1"] by (simp add: no_queues_def)
  ultimately show "opened p0 p" using assms(1) by (simp add: opened_def closes_to_def)
  show "rings_res p = rings_res p1" using same_frame_res [OF assms(2)] .
qed

lemma opened_wipe: "no_rings p1 = p0 \<Longrightarrow> no_queues p0 \<Longrightarrow> opened p0 p1"
  by (simp add: opened_def closes_to_def)

lemma ready_napi_off: "rings_ready p \<Longrightarrow> no_queues (no_rings p) \<Longrightarrow> \<not> napi_on p i"
  using frame_none [of p p i]
  by (cases "i < 64") (auto simp: rings_ready_def rx_table_ok_def napi_on_def fresh_rxq_def split: option.split)

lemmas uses_contexts [uses_intro] = keeps_contexts [THEN keeps_uses]

lemma uses_works [uses_intro]:
  "uses (Q ()) onic_vf_tx_clean_work_start Q" "uses (Q ()) onic_vf_tx_clean_work_stop Q"
  "uses (Q ()) onic_vf_rx_poll_work_start Q" "uses (Q ()) onic_vf_rx_poll_work_stop Q"
  unfolding onic_vf_tx_clean_work_start_def onic_vf_tx_clean_work_stop_def onic_vf_rx_poll_work_start_def onic_vf_rx_poll_work_stop_def
  by (rule uses_pre, rule uses_invoke, simp)+

lemma uses_open:
  "uses (\<lambda>p A. no_queues p \<and> unat (pr_num_tx_queues p) \<le> 64 \<and> unat (pr_num_rx_queues p) \<le> 64 \<and>
      (\<forall>e p'. e \<noteq> 0 \<and> no_queues p' \<and> but_mbox p' = but_mbox p \<longrightarrow> Q e p' A) \<and>
      (\<forall>p'. opened p p' \<and> (\<forall>i<unat (pr_num_rx_queues p). napi_on p' i) \<longrightarrow>
         Q 0 p' (napi_res p' + (rings_res p' + A))))
     onic_vf_open_netdev Q"
proof (rule uses_at, elim conjE)
  fix p0 A0
  assume p0: "no_queues p0" "unat (pr_num_tx_queues p0) \<le> 64" "unat (pr_num_rx_queues p0) \<le> 64"
    and Q: "\<forall>e p'. e \<noteq> 0 \<and> no_queues p' \<and> but_mbox p' = but_mbox p0 \<longrightarrow> Q e p' A0"
      "\<forall>p'. opened p0 p' \<and> (\<forall>i<unat (pr_num_rx_queues p0). napi_on p' i) \<longrightarrow>
         Q 0 p' (napi_res p' + (rings_res p' + A0))"
  have undo: "rings_res p \<subseteq># rings_res p1 + A0 \<and> Q e (no_rings p) (rings_res p1 + A0 - rings_res p)"
    if "no_rings p1 = p0" "run_frame p = run_frame p1" "e \<noteq> 0" for p p1 e
    using opened_frame [OF opened_wipe [OF that(1) p0(1)] that(2)] Q(1) that(3) by (simp add: opened_def closes_to_def)
  have fin: "Q 0 p (napi_res p + (rings_res p1 + A0))"
    if "no_rings p1 = p0" "run_frame p = run_frame p1" "\<forall>i<unat (pr_num_rx_queues p0). napi_on p i" for p p1
    using opened_frame [OF opened_wipe [OF that(1) p0(1)] that(2)] Q(2) that(3) by metis
  show "uses (\<lambda>p A. p = p0 \<and> A = A0) onic_vf_open_netdev Q"
    unfolding onic_vf_open_netdev_def
    apply (rule uses_pre)
     apply (rule uses_intro)+
    apply (simp add: run_part_eq)
    apply (intro conjI allI impI; (elim conjE)?)
    subgoal using p0(1) by (simp add: no_queues_wipe)
    subgoal using p0(2) by simp
    subgoal using p0(3) by simp
    subgoal using Q(1) p0(1) by simp
    subgoal for p1 e p by (rule conjunct1, rule undo)
    subgoal for p1 e p by (rule conjunct2, rule undo)
    subgoal for p1 _ _ e _ p by (rule conjunct1, rule undo)
    subgoal for p1 _ _ e _ p by (rule conjunct2, rule undo)
    subgoal for p1 _ _ _ _ i using ready_napi_off [of p1 i] p0(1) by simp
    subgoal for p1 _ _ _ _ e _ p by (rule conjunct1, rule undo [where e = e]) simp_all
    subgoal for p1 _ _ _ _ e _ p by (rule conjunct2, rule undo [where e = e]) simp_all
    subgoal for p1 _ p2 _ p3 p
      using fin [of p1 p] same_frame_num [of p3 p1] by auto
    done
qed

lemma opened_num: "opened p0 p \<Longrightarrow> pr_num_rx_queues p = pr_num_rx_queues p0 \<and> pr_num_tx_queues p = pr_num_tx_queues p0"
  by (metis opened_def closes_to_def but_mbox_sel(3,4) wipe_num(1,2))

text \<open>What stopping leaves when it fails: the rings, but no NAPI instance.\<close>

lemma uses_stop:
  "uses (\<lambda>p A. opened p0 p \<and> A = napi_res p + (rings_res p + A0) \<and>
      (\<forall>e p'. e \<noteq> 0 \<and> opened p0 p' \<and> (\<forall>i<unat (pr_num_rx_queues p0). \<not> napi_on p' i) \<longrightarrow> Q e p' (rings_res p' + A0)) \<and>
      (\<forall>p'. no_queues p' \<and> but_mbox p' = but_mbox p0 \<longrightarrow> Q 0 p' A0))
     onic_vf_stop_netdev Q"
proof (rule uses_at, elim conjE)
  fix q0 B
  assume q0: "opened p0 q0" "B = napi_res q0 + (rings_res q0 + A0)"
    and Q: "\<forall>e p'. e \<noteq> 0 \<and> opened p0 p' \<and> (\<forall>i<unat (pr_num_rx_queues p0). \<not> napi_on p' i) \<longrightarrow> Q e p' (rings_res p' + A0)"
      "\<forall>p'. no_queues p' \<and> but_mbox p' = but_mbox p0 \<longrightarrow> Q 0 p' A0"
  have keep: "Q e p (rings_res q0 + A0)"
    if "e \<noteq> 0" "run_frame p = run_frame q0" "\<forall>i<unat (pr_num_rx_queues q0). \<not> napi_on p i" for e p
    using opened_frame [OF q0(1) that(2)] Q(1) that(1,3) opened_num [OF q0(1)] by (simp flip: same_frame_res [OF that(2)])
  have fin: "rings_res p \<subseteq># rings_res q0 + A0 \<and> Q 0 (no_rings p) (rings_res q0 + A0 - rings_res p)"
    if "run_frame p = run_frame q0" for p
    using opened_frame [OF q0(1) that] Q(2) by (simp add: opened_def closes_to_def)
  show "uses (\<lambda>p A. p = q0 \<and> A = B) onic_vf_stop_netdev Q"
    unfolding onic_vf_stop_netdev_def
    apply (rule uses_pre)
     apply (rule uses_intro)+
    apply (simp add: run_part_eq q0(2))
    apply (intro conjI allI impI; (elim conjE)?)
    subgoal by (rule keep) simp_all
    subgoal by (rule keep) simp_all
    subgoal by (rule fin [THEN conjunct1])
    subgoal by (rule fin [THEN conjunct2])
    done
qed

section \<open>Properties\<close>

text \<open>A closed device with \<open>n\<close> queues, on a kernel that refuses every allocation.\<close>

definition closed_vf :: "u16 \<Rightarrow> drv_state" where
  "closed_vf n = \<lparr>ext = \<lambda>_ _. 0, trace = [], priv = zero_private\<lparr>pr_num_q_vectors := n, pr_num_tx_queues := n, pr_num_rx_queues := n\<rparr>\<rparr>"

lemma closed_vf_ok: "no_queues (priv (closed_vf n))" "pr_num_tx_queues (priv (closed_vf n)) = n"
    "pr_num_rx_queues (priv (closed_vf n)) = n"
  by (simp_all add: closed_vf_def no_queues_def zero_private_def)



text \<open>Allocating over a queue that already has a ring loses the old ring: it stays held, and no queue of the
  private data names it any more. This is what opening again does after a stop that failed.\<close>

theorem vf_reopen_leaks:
  assumes "qid < ONIC_MAX_QUEUES" "run_state (onic_vf_alloc_tx_ring qid) s = (0, s')"
    "held (ledger (trace s)) = rings_res (priv s) + B"
  shows "held (ledger (trace s')) = rings_res (priv s') + (txq_res (pr_tx_queue (priv s) qid) + B)"
proof -
  have res: "rings_res p = txq_res (pr_tx_queue p qid) + (rxq_res (pr_rx_queue p qid) + (\<Sum>i\<in>{..<ONIC_MAX_QUEUES} - {qid}. queue_res p i))" for p
    using assms(1) by (simp add: rings_res_def queue_res_def sum.remove [of "{..<ONIC_MAX_QUEUES}" qid])
  have other: "(\<Sum>i\<in>{..<ONIC_MAX_QUEUES} - {qid}. queue_res (put_txq qid x p) i) = (\<Sum>i\<in>{..<ONIC_MAX_QUEUES} - {qid}. queue_res p i)" for x p
    by (rule sum.cong) (simp_all add: queue_res_def)
  have "uses (\<lambda>p A. p = priv s \<and> A = rings_res p + B) (onic_vf_alloc_tx_ring qid)
      (\<lambda>r p A. r = 0 \<longrightarrow> A = rings_res p + (txq_res (pr_tx_queue (priv s) qid) + B))"
    by (rule uses_pre, rule uses_alloc_tx) (simp add: res other ac_simps)
  from usesD(1) [OF this assms(2)] assms(3) show ?thesis by simp
qed

text \<open>A kernel that grants every allocation.\<close>

definition granting_vf :: drv_state where
  "granting_vf = (closed_vf 1)\<lparr>ext := \<lambda>_ _. 1\<rparr>"

lemma alloc_tx_granted:
  assumes "ext s = (\<lambda>_ _. 1)"
  shows "fst (run_state (onic_vf_alloc_tx_ring qid) s) = 0" "ext (snd (run_state (onic_vf_alloc_tx_ring qid) s)) = (\<lambda>_ _. 1)"
    "R_heap 1 \<in># txq_res (pr_tx_queue (priv (snd (run_state (onic_vf_alloc_tx_ring qid) s))) qid)"
  by (simp_all add: onic_vf_alloc_tx_ring_def run_simps assms set_tx_queue_def Let_def txq_res_def heap_def)

theorem vf_reopen_leaks_witness:
  "let s1 = snd (run_state (onic_vf_alloc_tx_ring 0) granting_vf); s2 = snd (run_state (onic_vf_alloc_tx_ring 0) s1)
   in held (ledger (trace s2)) = rings_res (priv s2) + txq_res (pr_tx_queue (priv s1) 0) \<and>
      txq_res (pr_tx_queue (priv s1) 0) \<noteq> {#}"
proof -
  let ?a = "onic_vf_alloc_tx_ring 0"
  have g: "ext granting_vf = (\<lambda>_ _. 1)" "held (ledger (trace granting_vf)) = {#}" "\<And>i. queue_res (priv granting_vf) i = {#}"
    "pr_tx_queue (priv granting_vf) 0 = None"
    by (simp_all add: granting_vf_def closed_vf_def ledger_def ledger_init_def queue_res_def zero_private_def)
  obtain s1 where 1: "run_state ?a granting_vf = (0, s1)" using alloc_tx_granted(1) [OF g(1), of 0] by (metis prod.collapse)
  with alloc_tx_granted(2,3) [OF g(1), of 0] have e1: "ext s1 = (\<lambda>_ _. 1)" "txq_res (pr_tx_queue (priv s1) 0) \<noteq> {#}" by auto
  obtain s2 where 2: "run_state ?a s1 = (0, s2)" using alloc_tx_granted(1) [OF e1(1), of 0] by (metis prod.collapse)
  have "held (ledger (trace s1)) = rings_res (priv s1) + {#}"
    using vf_reopen_leaks [OF _ 1, of "{#}"] g(2-4) by (simp add: rings_res_def)
  from vf_reopen_leaks [OF _ 2 this] e1(2) show ?thesis by (simp add: 1 2 Let_def)
qed

end
