(* ===== verification/Vf_Main.thy ===== *)
theory Vf_Main
  imports Vf_Lifecycle Vf_Hw
begin

text \<open>
  \<^verbatim>\<open>onic_vf_main.c\<close>: probe and remove of a VF. The labels of the error path are functions: each runs its own
  release and those below it, and returns the error.
\<close>

abbreviation (input) ONIC_VF_NON_Q_VECTORS :: nat where "ONIC_VF_NON_Q_VECTORS \<equiv> 1"
abbreviation (input) ETH_MIN_MTU :: int where "ETH_MIN_MTU \<equiv> 68"
abbreviation (input) ETH_DATA_LEN :: int where "ETH_DATA_LEN \<equiv> 1500"

section \<open>The driver data pointer\<close>

text \<open>\<^verbatim>\<open>pci_get_drvdata\<close> answers what \<^verbatim>\<open>pci_set_drvdata\<close> stored last.\<close>

fun drvdata_step :: "event \<Rightarrow> ptr \<Rightarrow> ptr" where
  "drvdata_step (Pci (Pci_set_drvdata a), r) d = a"
| "drvdata_step _ d = d"

definition drvdata :: "event list \<Rightarrow> ptr" where
  "drvdata tr = fold drvdata_step tr 0"

definition pci_get_drvdata :: "ptr onic" where
  "pci_get_drvdata = do { s \<leftarrow> get_state; ret (drvdata (trace s)) }"

section \<open>The error path of probe\<close>

definition vf_disable_device :: "int \<Rightarrow> int onic" where
  "vf_disable_device err = do { invoke (Pci Pci_disable_device); ret err }"

definition vf_release_regions :: "int \<Rightarrow> int onic" where
  "vf_release_regions err = do { invoke (Pci Pci_release_mem_regions); vf_disable_device err }"

definition free_stats :: "unit onic" where
  "free_stats = do {
     p \<leftarrow> get_priv;
     if pr_netdev_stats p \<noteq> None then do {
       invoke (Net Free_percpu_stats);
       upd_priv (pr_netdev_stats_update (\<lambda>_. None)) }
     else ret () }"

definition vf_free_netdev :: "int \<Rightarrow> int onic" where
  "vf_free_netdev err = do {
     free_stats;
     invoke (Pci (Pci_set_drvdata 0));
     invoke (Net Free_netdev);
     vf_release_regions err }"

definition vf_unmap :: "int \<Rightarrow> int onic" where
  "vf_unmap err = do { onic_vf_unmap_bars; vf_free_netdev err }"

definition vf_free_vectors :: "int \<Rightarrow> int onic" where
  "vf_free_vectors err = do {
     upd_priv (pr_num_q_vectors_update (\<lambda>_. 0));
     invoke (Pci Pci_free_irq_vectors);
     vf_unmap err }"

definition vf_clear_mbox_irq :: "int \<Rightarrow> int onic" where
  "vf_clear_mbox_irq err = do { onic_vf_mbox_irq_clear; vf_free_vectors err }"

definition vf_clear_qdma :: "int \<Rightarrow> int onic" where
  "vf_clear_qdma err = do { onic_vf_qdma_clear; vf_clear_mbox_irq err }"

definition vf_clear_q_irqs :: "int \<Rightarrow> int onic" where
  "vf_clear_q_irqs err = do { onic_vf_q_irq_clear; vf_clear_qdma err }"

section \<open>Probe\<close>

text \<open>The address of the device: the one the PF assigned, when it is a unicast address.\<close>

definition set_dev_addr :: "unit onic" where
  "set_dev_addr = do {
     p \<leftarrow> get_priv;
     let mac = vf_mac (pr_vf_hw p);
     if is_valid_ether_addr mac then do {
       invoke (Net (Eth_hw_addr_set mac));
       upd_priv (pr_netdev_update (map_option (nd_dev_addr_update (\<lambda>_. mac)))) }
     else do {
       invoke (Net Eth_hw_addr_random);
       a \<leftarrow> eth_random_addr;
       upd_priv (pr_netdev_update (map_option (nd_dev_addr_update (\<lambda>_. a)))) } }"

definition vf_probe_register :: "int onic" where
  "vf_probe_register = do {
     set_dev_addr;
     upd_priv (pr_netdev_update (map_option (\<lambda>nd. nd\<lparr>nd_min_mtu := ETH_MIN_MTU, nd_max_mtu := ETH_DATA_LEN\<rparr>)));
     invoke (Net Netif_carrier_off);
     err \<leftarrow> perform (Net Register_netdev);
     if err \<noteq> 0 then vf_clear_q_irqs err else ret 0 }"

definition vf_probe_queues :: "int onic" where
  "vf_probe_queues = do {
     p \<leftarrow> get_priv;
     let n = min (pr_num_q_vectors p) (vf_qmax (pr_vf_hw p));
     upd_priv (pr_num_q_vectors_update (\<lambda>_. n));
     if n = 0 then vf_clear_qdma (- ENOSPC)
     else do {
       upd_priv (\<lambda>p. p\<lparr>pr_num_tx_queues := n, pr_num_rx_queues := n\<rparr>);
       upd_vf_hw (\<lambda>hw. hw\<lparr>vf_num_tx_queues := n, vf_num_rx_queues := n\<rparr>);
       err \<leftarrow> perform (Net (Netif_set_real_num_tx_queues (unat n)));
       if err \<noteq> 0 then vf_clear_qdma err
       else do {
         err \<leftarrow> perform (Net (Netif_set_real_num_rx_queues (unat n)));
         if err \<noteq> 0 then vf_clear_qdma err
         else do {
           err \<leftarrow> onic_vf_q_irq_init;
           if err \<noteq> 0 then vf_clear_qdma err else vf_probe_register } } } }"

definition vf_probe_resource :: "int onic" where
  "vf_probe_resource = do {
     err \<leftarrow> onic_vf_mbox_get_queue_resource;
     if err \<noteq> 0 then vf_clear_mbox_irq err
     else do {
       err \<leftarrow> onic_vf_qdma_init;
       if err \<noteq> 0 then vf_clear_mbox_irq err else vf_probe_queues } }"

definition vf_probe_irqs :: "int onic" where
  "vf_probe_irqs = do {
     vectors \<leftarrow> perform (Pci (Pci_alloc_irq_vectors (ONIC_VF_NON_Q_VECTORS + 1) (ONIC_MAX_QUEUES + ONIC_VF_NON_Q_VECTORS)));
     if vectors < 0 then vf_unmap vectors
     else do {
       let n = (of_int (vectors - int ONIC_VF_NON_Q_VECTORS) :: u16);
       upd_priv (pr_num_q_vectors_update (\<lambda>_. n));
       err \<leftarrow> onic_vf_mbox_irq_init n;
       if err \<noteq> 0 then vf_free_vectors err else vf_probe_resource } }"

text \<open>The private data as probe starts it, and the device as \<^verbatim>\<open>ether_setup\<close> leaves it.\<close>

definition new_private :: onic_private where
  "new_private = zero_private\<lparr>pr_netdev := Some \<lparr>nd_mtu = ETH_DATA_LEN, nd_min_mtu = ETH_MIN_MTU,
     nd_max_mtu = ETH_DATA_LEN, nd_dev_addr = replicate ETH_ALEN 0\<rparr>\<rparr>"

text \<open>\<open>ncpu\<close> is the number of possible CPUs.\<close>

definition vf_probe_netdev :: "nat \<Rightarrow> int onic" where
  "vf_probe_netdev ncpu = do {
     invoke (Pci Pci_set_master);
     a \<leftarrow> perform (Net Alloc_etherdev);
     if (of_int a :: ptr) = 0 then vf_release_regions (- ENOMEM)
     else do {
       upd_priv (\<lambda>_. new_private);
       st \<leftarrow> perform (Net Alloc_percpu_stats);
       if (of_int st :: ptr) = 0 then vf_free_netdev (- ENOMEM)
       else do {
         upd_priv (pr_netdev_stats_update (\<lambda>_. Some (replicate ncpu zero_stats)));
         invoke (Pci (Pci_set_drvdata (of_int a)));
         err \<leftarrow> onic_vf_map_bars;
         if err \<noteq> 0 then vf_free_netdev err else vf_probe_irqs } } }"

definition onic_vf_probe :: "nat \<Rightarrow> int onic" where
  "onic_vf_probe ncpu = do {
     err \<leftarrow> perform (Pci Pci_enable_device_mem);
     if err \<noteq> 0 then ret err
     else do {
       err \<leftarrow> perform (Pci (Dma_set_mask 64));
       err \<leftarrow> (if err \<noteq> 0 then perform (Pci (Dma_set_mask 32)) else ret err);
       if err \<noteq> 0 then vf_disable_device err
       else do {
         err \<leftarrow> perform (Pci (Dma_set_coherent_mask 32));
         if err \<noteq> 0 then vf_disable_device err
         else do {
           err \<leftarrow> perform (Pci Pci_request_mem_regions);
           if err \<noteq> 0 then vf_disable_device err else vf_probe_netdev ncpu } } } }"

section \<open>Remove\<close>

text \<open>\<^verbatim>\<open>unregister_netdev\<close> closes a device that is up, whatever its \<^verbatim>\<open>ndo_stop\<close> returns.\<close>

definition vf_unregister_netdev :: "unit onic" where
  "vf_unregister_netdev = do {
     up \<leftarrow> perform (Net Netif_running);
     (if up \<noteq> 0 then do { _ \<leftarrow> onic_vf_stop_netdev; ret () } else ret ());
     invoke (Net Unregister_netdev) }"

definition vf_remove_queues :: "unit onic" where
  "vf_remove_queues = do {
     onic_vf_rx_poll_work_stop;
     onic_vf_tx_clean_work_stop;
     onic_vf_rx_datapath_clear;
     _ \<leftarrow> onic_vf_rx_contexts_clear;
     _ \<leftarrow> onic_vf_tx_contexts_clear;
     onic_vf_rings_clear }"

definition vf_remove_io :: "unit onic" where
  "vf_remove_io = do {
     onic_vf_q_irq_clear;
     onic_vf_qdma_clear;
     onic_vf_mbox_irq_clear;
     upd_priv (pr_num_q_vectors_update (\<lambda>_. 0));
     invoke (Pci Pci_free_irq_vectors);
     onic_vf_unmap_bars;
     free_stats;
     invoke (Pci (Pci_set_drvdata 0)) }"

definition vf_remove_device :: "unit onic" where
  "vf_remove_device = do {
     p \<leftarrow> get_priv;
     (if pr_netdev p \<noteq> None then vf_unregister_netdev else ret ());
     vf_remove_queues;
     vf_remove_io;
     (if pr_netdev p \<noteq> None then invoke (Net Free_netdev) else ret ()) }"

definition onic_vf_remove :: "unit onic" where
  "onic_vf_remove = do {
     d \<leftarrow> pci_get_drvdata;
     (if d \<noteq> 0 then vf_remove_device else invoke (Pci (Pci_set_drvdata 0)));
     invoke (Pci Pci_release_mem_regions);
     invoke (Pci Pci_disable_device) }"

section \<open>What a probed device holds\<close>

definition map_res :: "ptr \<Rightarrow> resource multiset" where
  "map_res a = (if a = 0 then {#} else {#R_map a#})"

definition bars_res :: "onic_private \<Rightarrow> resource multiset" where
  "bars_res p = map_res (vf_bar0 (pr_vf_hw p)) + map_res (vf_bar2 (pr_vf_hw p))"

definition mbox_irq_res :: "onic_private \<Rightarrow> resource multiset" where
  "mbox_irq_res p = (if vf_mbox_irq_allocated (pr_vf_hw p) then {#R_irq Irq_vf_mbox#} else {#})"

definition qdev_res :: "onic_private \<Rightarrow> resource multiset" where
  "qdev_res p = (case vf_qdev (pr_vf_hw p) of None \<Rightarrow> {#} | Some d \<Rightarrow> heap (qdev_self d))"

definition stats_res :: "onic_private \<Rightarrow> resource multiset" where
  "stats_res p = (if pr_netdev_stats p = None then {#} else {#R_percpu#})"

definition netdev_res :: "onic_private \<Rightarrow> resource multiset" where
  "netdev_res p = stats_res p + {#R_netdev, R_regions, R_device#}"

definition vectors_res :: "onic_private \<Rightarrow> resource multiset" where
  "vectors_res p = bars_res p + add_mset R_vectors (netdev_res p)"

definition hw_res :: "onic_private \<Rightarrow> resource multiset" where
  "hw_res p = qdev_res p + (mbox_irq_res p + vectors_res p)"

lemma charge_pci [simp]:
  "charge (Pci Pci_disable_device) r Q A \<longleftrightarrow> R_device \<in># A \<and> Q (A - {#R_device#})"
  "charge (Pci Pci_release_mem_regions) r Q A \<longleftrightarrow> R_regions \<in># A \<and> Q (A - {#R_regions#})"
  "charge (Pci Pci_free_irq_vectors) r Q A \<longleftrightarrow> R_vectors \<in># A \<and> Q (A - {#R_vectors#})"
  "charge (Pci Pci_enable_device_mem) r Q A \<longleftrightarrow> Q (if r = 0 then add_mset R_device A else A)"
  "charge (Pci Pci_request_mem_regions) r Q A \<longleftrightarrow> Q (if r = 0 then add_mset R_regions A else A)"
  "charge (Pci (Pci_alloc_irq_vectors a b)) r Q A \<longleftrightarrow> Q (if r < 0 then A else add_mset R_vectors A)"
  "charge (Pci (Pci_iomap b n)) r Q A \<longleftrightarrow> Q (map_res (of_int r) + A)"
  by (simp_all add: charge_def map_res_def)

lemma charge_unmap: "a \<noteq> 0 \<Longrightarrow> charge (Pci (Pci_iounmap a)) r Q A \<longleftrightarrow> map_res a \<subseteq># A \<and> Q (A - map_res a)"
  by (simp add: charge_def map_res_def)

lemma charge_net [simp]:
  "charge (Net Free_percpu_stats) r Q A \<longleftrightarrow> R_percpu \<in># A \<and> Q (A - {#R_percpu#})"
  "charge (Net Free_netdev) r Q A \<longleftrightarrow> R_netdev \<in># A \<and> Q (A - {#R_netdev#})"
  "charge (Net Unregister_netdev) r Q A \<longleftrightarrow> R_registered \<in># A \<and> Q (A - {#R_registered#})"
  "charge (Net Alloc_etherdev) r Q A \<longleftrightarrow> Q (if (of_int r :: ptr) = 0 then A else add_mset R_netdev A)"
  "charge (Net Alloc_percpu_stats) r Q A \<longleftrightarrow> Q (if (of_int r :: ptr) = 0 then A else add_mset R_percpu A)"
  "charge (Net Register_netdev) r Q A \<longleftrightarrow> Q (if r = 0 then add_mset R_registered A else A)"
  by (simp_all add: charge_def)

lemma map_res_0 [simp]: "map_res 0 = {#}"
  by (simp add: map_res_def)

text \<open>The labels of the error path, from the last to the first.\<close>

lemma uses_free_stats [uses_intro]:
  "uses (\<lambda>p A. stats_res p \<subseteq># A \<and> (\<forall>x. Q () (pr_netdev_stats_update x p) (A - stats_res p))) free_stats Q"
proof -
  have same: "p = pr_netdev_stats_update (\<lambda>x. x) p" for p by (cases p) simp
  show ?thesis
    unfolding free_stats_def
    by (rule uses_pre, (rule uses_intro)+) (auto simp: stats_res_def intro: same [THEN ssubst])
qed

text \<open>Everything but the VF hardware.\<close>

definition but_vf_hw :: "onic_private \<Rightarrow> onic_private" where
  "but_vf_hw p = p\<lparr>pr_vf_hw := zero_vf_hardware\<rparr>"

lemma but_vf_hw_upd [simp]: "but_vf_hw (pr_vf_hw_update f p) = but_vf_hw p"
  by (simp add: but_vf_hw_def)

lemma but_vf_hw_sel:
  assumes "but_vf_hw p' = but_vf_hw p"
  shows "pr_netdev_stats p' = pr_netdev_stats p" "pr_q_vector p' = pr_q_vector p" "pr_netdev p' = pr_netdev p"
  using assms by (cases p; cases p'; simp add: but_vf_hw_def)+

lemma uses_unmap_bars [uses_intro]:
  "uses (\<lambda>p A. bars_res p \<subseteq># A \<and> (\<forall>p'. but_vf_hw p' = but_vf_hw p \<longrightarrow> Q () p' (A - bars_res p))) onic_vf_unmap_bars Q"
  unfolding onic_vf_unmap_bars_def
  by (rule uses_pre, (rule uses_intro)+)
    (auto simp: charge_unmap bars_res_def mset_subset_eq_exists_conv)

lemma uses_free_netdev [uses_intro]:
  "uses (\<lambda>p A. netdev_res p \<subseteq># A \<and> (\<forall>p'. Q e p' (A - netdev_res p))) (vf_free_netdev e) Q"
  unfolding vf_free_netdev_def vf_release_regions_def vf_disable_device_def
  by (rule uses_pre, (rule uses_intro)+) (auto simp: netdev_res_def mset_subset_eq_exists_conv)

lemma uses_vf_unmap [uses_intro]:
  "uses (\<lambda>p A. bars_res p + netdev_res p \<subseteq># A \<and> (\<forall>p'. Q e p' (A - (bars_res p + netdev_res p)))) (vf_unmap e) Q"
  unfolding vf_unmap_def
  by (rule uses_pre, (rule uses_intro)+)
    (auto simp: mset_subset_eq_exists_conv netdev_res_def stats_res_def add.assoc dest: but_vf_hw_sel(1))

lemma uses_free_vectors [uses_intro]:
  "uses (\<lambda>p A. vectors_res p \<subseteq># A \<and> (\<forall>p'. Q e p' (A - vectors_res p))) (vf_free_vectors e) Q"
  unfolding vf_free_vectors_def
  by (rule uses_pre, (rule uses_intro)+)
    (auto simp: vectors_res_def bars_res_def netdev_res_def stats_res_def mset_subset_eq_exists_conv)

lemma uses_mbox_irq_clear [uses_intro]:
  "uses (\<lambda>p A. mbox_irq_res p \<subseteq># A \<and>
      Q () (pr_vf_hw_update (vf_mbox_irq_allocated_update (\<lambda>_. False)) p) (A - mbox_irq_res p)) onic_vf_mbox_irq_clear Q"
proof -
  have same: "pr_vf_hw_update (vf_mbox_irq_allocated_update (\<lambda>_. False)) p = p" if "\<not> vf_mbox_irq_allocated (pr_vf_hw p)" for p
    using that by (cases p; cases "pr_vf_hw p") simp
  show ?thesis
    unfolding onic_vf_mbox_irq_clear_def
    by (rule uses_pre, (rule uses_intro keeps_bar0 [where f = "\<lambda>p. p", THEN keeps_uses])+)
      (auto simp: mbox_irq_res_def same)
qed

lemma uses_clear_mbox_irq [uses_intro]:
  "uses (\<lambda>p A. mbox_irq_res p + vectors_res p \<subseteq># A \<and> (\<forall>p'. Q e p' (A - (mbox_irq_res p + vectors_res p)))) (vf_clear_mbox_irq e) Q"
  unfolding vf_clear_mbox_irq_def
  by (rule uses_pre, (rule uses_intro)+)
    (auto simp: vectors_res_def bars_res_def netdev_res_def stats_res_def mset_subset_eq_exists_conv add.assoc)

text \<open>The resources of the interfaces do not depend on the queue device.\<close>

definition same_io :: "onic_private \<Rightarrow> onic_private \<Rightarrow> bool" where
  "same_io p p' \<longleftrightarrow> but_vf_hw p' = but_vf_hw p \<and> bars_res p' = bars_res p \<and> mbox_irq_res p' = mbox_irq_res p"

lemma same_io_res: "same_io p p' \<Longrightarrow> mbox_irq_res p' + vectors_res p' = mbox_irq_res p + vectors_res p"
  by (auto simp: same_io_def vectors_res_def netdev_res_def stats_res_def dest: but_vf_hw_sel(1))

lemma uses_qdma_clear [uses_intro]:
  "uses (\<lambda>p A. qdev_res p \<subseteq># A \<and> (\<forall>p'. same_io p p' \<longrightarrow> Q () p' (A - qdev_res p))) onic_vf_qdma_clear Q"
  unfolding onic_vf_qdma_clear_def
  by (rule uses_pre, (rule uses_intro)+)
    (auto simp: charge_kfree_heap qdev_res_def same_io_def bars_res_def mbox_irq_res_def split: option.split)

lemma uses_clear_qdma [uses_intro]:
  "uses (\<lambda>p A. hw_res p \<subseteq># A \<and> (\<forall>p'. Q e p' (A - hw_res p))) (vf_clear_qdma e) Q"
  unfolding vf_clear_qdma_def
  by (rule uses_pre, (rule uses_intro)+)
    (auto simp: hw_res_def same_io_res mset_subset_eq_exists_conv add.assoc)

lemma hw_res_vecs [simp]: "hw_res (drop_vecs X p) = hw_res p" "hw_res (put_vec i v p) = hw_res p"
  by (simp_all add: hw_res_def qdev_res_def mbox_irq_res_def vectors_res_def bars_res_def netdev_res_def stats_res_def drop_vecs_def)

lemma uses_clear_q_irqs [uses_intro]:
  "uses (\<lambda>p A. vecs_res p + hw_res p \<subseteq># A \<and> (\<forall>p'. Q e p' (A - (vecs_res p + hw_res p)))) (vf_clear_q_irqs e) Q"
  unfolding vf_clear_q_irqs_def
  by (rule uses_pre, (rule uses_intro)+)
    (auto simp: mset_subset_eq_exists_conv add.assoc)

section \<open>Probe is all or nothing\<close>

text \<open>The device as probe leaves it.\<close>

definition probed :: "onic_private \<Rightarrow> bool" where
  "probed p \<longleftrightarrow> no_queues p \<and> pr_netdev p \<noteq> None \<and> vf_resource_valid (pr_vf_hw p) \<and> vf_qdev (pr_vf_hw p) \<noteq> None \<and>
     0 < pr_num_q_vectors p \<and> unat (pr_num_q_vectors p) \<le> ONIC_MAX_QUEUES \<and> pr_num_q_vectors p \<le> vf_qmax (pr_vf_hw p) \<and>
     pr_num_tx_queues p = pr_num_q_vectors p \<and> pr_num_rx_queues p = pr_num_q_vectors p \<and>
     (\<forall>i<unat (pr_num_q_vectors p). pr_q_vector p i \<noteq> None)"

definition dev_res :: "onic_private \<Rightarrow> resource multiset" where
  "dev_res p = add_mset R_registered (vecs_res p + hw_res p)"

text \<open>The address and the limits of the device hold no resource and are no part of \<open>probed\<close>.\<close>

definition but_netdev :: "onic_private \<Rightarrow> onic_private" where
  "but_netdev p = pr_netdev_update (map_option (\<lambda>_. \<lparr>nd_mtu = 0, nd_min_mtu = 0, nd_max_mtu = 0, nd_dev_addr = []\<rparr>)) p"

lemma but_netdev_upd [simp]: "but_netdev (pr_netdev_update (map_option f) p) = but_netdev p"
  by (simp add: but_netdev_def option.map_comp comp_def)

lemma but_netdev_sel:
  assumes "but_netdev p' = but_netdev p"
  shows "probed p' = probed p" "vecs_res p' = vecs_res p" "hw_res p' = hw_res p"
proof -
  have "pr_tx_queue p' = pr_tx_queue p" "pr_rx_queue p' = pr_rx_queue p" "pr_num_q_vectors p' = pr_num_q_vectors p"
    "pr_num_tx_queues p' = pr_num_tx_queues p" "pr_num_rx_queues p' = pr_num_rx_queues p" "pr_q_vector p' = pr_q_vector p"
    "pr_vf_hw p' = pr_vf_hw p" "pr_netdev_stats p' = pr_netdev_stats p" "(pr_netdev p' = None) = (pr_netdev p = None)"
    using assms by (cases p; cases p'; simp add: but_netdev_def; metis option.map_disc_iff)+
  then show "probed p' = probed p" "vecs_res p' = vecs_res p" "hw_res p' = hw_res p"
    by (simp_all add: probed_def no_queues_def vecs_res_def hw_res_def qdev_res_def mbox_irq_res_def vectors_res_def
      bars_res_def netdev_res_def stats_res_def)
qed

lemma keeps_random_addr [keeps_intro]: "keeps f eth_random_addr"
  unfolding eth_random_addr_def by (auto intro!: keeps_intro)

lemma keeps_set_dev_addr [keeps_intro]: "keeps but_netdev set_dev_addr"
  unfolding set_dev_addr_def by (auto intro!: keeps_intro keeps_from_rules(1) simp: ledger_quiet_def)

lemma uses_probe_register:
  "uses (\<lambda>p A. A = vecs_res p + (hw_res p + A0) \<and> probed p \<and> (\<forall>e p'. e \<noteq> 0 \<longrightarrow> Q e p' A0) \<and>
      (\<forall>p'. probed p' \<longrightarrow> Q 0 p' (dev_res p' + A0))) vf_probe_register Q"
  unfolding vf_probe_register_def
proof (rule uses_pre, (rule uses_intro keeps_set_dev_addr [THEN keeps_uses])+, elim conjE)
  fix p A
  let ?upd = "pr_netdev_update (map_option (\<lambda>nd. nd\<lparr>nd_min_mtu := ETH_MIN_MTU, nd_max_mtu := ETH_DATA_LEN\<rparr>))"
  assume p: "A = vecs_res p + (hw_res p + A0)" "probed p" and Q: "\<forall>e p'. e \<noteq> 0 \<longrightarrow> Q e p' A0"
    "\<forall>p'. probed p' \<longrightarrow> Q 0 p' (dev_res p' + A0)"
  have same: "probed (?upd p')" "vecs_res (?upd p') = vecs_res p" "hw_res (?upd p') = hw_res p"
    if "but_netdev p' = but_netdev p" for p'
    using but_netdev_sel [of "?upd p'" p] that p(2) by simp_all
  have "Q 0 (?upd p') (add_mset R_registered A)" if "but_netdev p' = but_netdev p" for p'
    using Q(2) [rule_format, of "?upd p'"] same [OF that] by (simp add: dev_res_def p(1) add.assoc)
  with same Q(1) p(1) show "\<forall>a p'. but_netdev p' = but_netdev p \<longrightarrow> (\<forall>r. charge (Net Netif_carrier_off) r
      (\<lambda>A. \<forall>r. charge (Net Register_netdev) r (\<lambda>A. if r \<noteq> 0
        then vecs_res (?upd p') + hw_res (?upd p') \<subseteq># A \<and> (\<forall>p'a. Q r p'a (A - (vecs_res (?upd p') + hw_res (?upd p'))))
        else Q 0 (?upd p') A) A) A)"
    by (simp add: add.assoc)
qed

lemma no_vecs_iff: "no_vecs p = p \<longleftrightarrow> (\<forall>i<64. pr_q_vector p i = None)"
  by (cases p) (auto simp: drop_vecs_def fun_eq_iff)

lemma no_vecs_sel:
  assumes "no_vecs p' = p"
  shows "hw_res p' = hw_res p" "pr_num_q_vectors p' = pr_num_q_vectors p" "pr_num_tx_queues p' = pr_num_tx_queues p"
    "pr_num_rx_queues p' = pr_num_rx_queues p" "pr_netdev p' = pr_netdev p" "pr_vf_hw p' = pr_vf_hw p"
    "no_queues p' = no_queues p"
  using hw_res_vecs(1) [of "{..<64}" p'] assms by (auto simp: drop_vecs_def no_queues_def)

definition with_queues :: "u16 \<Rightarrow> onic_private \<Rightarrow> onic_private" where
  "with_queues n p = pr_vf_hw_update (\<lambda>hw. hw\<lparr>vf_num_tx_queues := n, vf_num_rx_queues := n\<rparr>)
     (p\<lparr>pr_num_q_vectors := n, pr_num_tx_queues := n, pr_num_rx_queues := n\<rparr>)"

lemma with_queues_sel:
  "hw_res (with_queues n p) = hw_res p" "hw_res (p\<lparr>pr_num_q_vectors := n\<rparr>) = hw_res p"
  "no_vecs (with_queues n p) = with_queues n p \<longleftrightarrow> no_vecs p = p" "pr_num_q_vectors (with_queues n p) = n"
  "pr_num_tx_queues (with_queues n p) = n" "pr_num_rx_queues (with_queues n p) = n"
  "pr_netdev (with_queues n p) = pr_netdev p" "vf_resource_valid (pr_vf_hw (with_queues n p)) = vf_resource_valid (pr_vf_hw p)"
  "vf_qdev (pr_vf_hw (with_queues n p)) = vf_qdev (pr_vf_hw p)" "vf_qmax (pr_vf_hw (with_queues n p)) = vf_qmax (pr_vf_hw p)"
  "no_queues (with_queues n p) = no_queues p"
  unfolding no_vecs_iff
  by (simp_all add: with_queues_def hw_res_def qdev_res_def mbox_irq_res_def vectors_res_def bars_res_def netdev_res_def
    stats_res_def no_queues_def)

lemma uses_probe_queues:
  "uses (\<lambda>p A. A = hw_res p + A0 \<and> no_queues p \<and> no_vecs p = p \<and> pr_netdev p \<noteq> None \<and> vf_resource_valid (pr_vf_hw p) \<and>
      vf_qdev (pr_vf_hw p) \<noteq> None \<and> unat (vf_qmax (pr_vf_hw p)) \<le> ONIC_MAX_QUEUES \<and> (\<forall>e p'. e \<noteq> 0 \<longrightarrow> Q e p' A0) \<and>
      (\<forall>p'. probed p' \<longrightarrow> Q 0 p' (dev_res p' + A0))) vf_probe_queues Q"
  unfolding vf_probe_queues_def Let_def
  apply (rule uses_pre)
   apply (rule uses_intro uses_probe_register [where ?A0.0 = A0])+
  apply (fold with_queues_def)
  apply (elim conjE)
  subgoal premises p for p A
  proof -
    let ?n = "min (pr_num_q_vectors p) (vf_qmax (pr_vf_hw p))"
    have n: "unat ?n \<le> 64" "?n \<le> vf_qmax (pr_vf_hw p)"
      using p(7) by (auto simp: min_def word_le_nat_alt)
    have ok: "probed p' \<and> hw_res p' = hw_res p" if "?n \<noteq> 0" "no_vecs p' = with_queues ?n p"
        "\<forall>i<unat ?n. \<exists>v. pr_q_vector p' i = Some v \<and> qv_vid v = of_nat i" for p'
      using no_vecs_sel [OF that(2)] that(1,3) p n by (auto simp: with_queues_sel probed_def word_gt_0)
    show ?thesis
      using p(3,8,9) n(1) ok
      by (simp add: with_queues_sel p(1))
  qed
  done

text \<open>Everything but the mailbox and the resource the PF grants.\<close>

definition but_grant :: "onic_private \<Rightarrow> onic_private" where
  "but_grant p = pr_vf_hw_update (\<lambda>hw. hw\<lparr>vf_func_id := 0, vf_qbase := 0, vf_qmax := 0, vf_mac := [],
     vf_resource_valid := False\<rparr>) (but_mbox p)"

lemma but_grant_mbox: "but_mbox p' = but_mbox p \<Longrightarrow> but_grant p' = but_grant p"
  by (simp add: but_grant_def)

definition granted :: "onic_private \<Rightarrow> bool" where
  "granted p \<longleftrightarrow> vf_resource_valid (pr_vf_hw p) \<and> 0 < vf_qmax (pr_vf_hw p) \<and> unat (vf_qmax (pr_vf_hw p)) \<le> ONIC_MAX_QUEUES"

lemma keeps_grant: "keeps but_mbox m \<Longrightarrow> keeps but_grant m"
  by (erule keeps_conseq) (rule but_grant_mbox)

lemmas grant_intro = keeps_grant [THEN keeps_uses]

lemma check_res_qmax:
  assumes "check_res_resp seq resp = 0"
  shows "0 < (ucast (qr_qmax (qres_of_words (mb_data resp))) :: u16)"
    "unat (ucast (qr_qmax (qres_of_words (mb_data resp))) :: u16) \<le> 64"
proof -
  let ?q = "qr_qmax (qres_of_words (mb_data resp))"
  have c: "?q \<noteq> 0" "?q \<le> 64" using assms by (auto simp: check_res_resp_def split: if_splits)
  then have u: "unat (ucast ?q :: u16) = unat ?q"
    by (simp add: unsigned_ucast_eq take_bit_nat_eq_self_iff word_le_nat_alt)
  then show "0 < (ucast ?q :: u16)" "unat (ucast ?q :: u16) \<le> 64"
    using c by (simp_all add: word_less_nat_alt word_le_nat_alt unat_gt_0)
qed

lemma uses_validate_res [uses_intro]:
  "uses (\<lambda>p A. \<forall>r p'. but_grant p' = but_grant p \<and> (0 \<le> r \<longrightarrow> granted p') \<longrightarrow> Q r p' A) (validate_res seq e) Q"
  unfolding validate_res_def Let_def
  apply (rule uses_pre)
   apply (rule uses_intro)+
  apply (simp, intro conjI impI)
  subgoal premises prems by (rule prems(1) [rule_format]) (use check_res_neg [OF prems(2)] in auto)
  subgoal premises prems
    by (rule prems(1) [rule_format])
      (use check_res_qmax [OF prems(2)] in \<open>auto simp: granted_def but_grant_def but_mbox_def comp_def\<close>)
  done

lemma uses_get_resource [uses_intro]:
  "uses (\<lambda>p A. \<forall>r p'. but_grant p' = but_grant p \<and> (0 \<le> r \<longrightarrow> granted p') \<longrightarrow> Q r p' A) onic_vf_mbox_get_queue_resource Q"
  unfolding onic_vf_mbox_get_queue_resource_def onic_vf_mbox_drop_stale_responses_def
  apply (rule uses_pre)
   apply (rule uses_bind uses_if uses_ret uses_invoke uses_perform uses_validate_res
     keeps_drop_stale [THEN grant_intro] keeps_send_request [THEN grant_intro] keeps_wait [THEN grant_intro]
     keeps_process_one [THEN grant_intro] keeps_bar0(1) [THEN grant_intro])+
  by simp

lemma post_at: "\<forall>p. C p \<longrightarrow> R p (f p) \<Longrightarrow> C p \<Longrightarrow> f p = A \<Longrightarrow> R p A"
  by auto

text \<open>Acquiring steps. \<open>bare_hw\<close>: the VF hardware before any of them.\<close>

definition bare_hw :: "onic_private \<Rightarrow> bool" where
  "bare_hw p \<longleftrightarrow> vf_qdev (pr_vf_hw p) = None \<and> \<not> vf_mbox_irq_allocated (pr_vf_hw p) \<and> vf_bar2 (pr_vf_hw p) = 0"

lemma uses_map_bars [uses_intro]:
  "uses (\<lambda>p A. vf_bar2 (pr_vf_hw p) = 0 \<and>
      (\<forall>e p'. e \<noteq> 0 \<and> but_vf_hw p' = but_vf_hw p \<longrightarrow> Q e p' A) \<and>
      (\<forall>p'. but_vf_hw p' = but_vf_hw p \<and> vf_qdev (pr_vf_hw p') = vf_qdev (pr_vf_hw p) \<and>
         vf_mbox_irq_allocated (pr_vf_hw p') = vf_mbox_irq_allocated (pr_vf_hw p) \<longrightarrow> Q 0 p' (bars_res p' + A))) onic_vf_map_bars Q"
  unfolding onic_vf_map_bars_def
  apply (rule uses_pre)
   apply (rule uses_intro)+
  apply (auto simp: charge_unmap)
  subgoal premises prems by (rule post_at [where R = "Q 0", OF prems(3)]) (simp_all add: bars_res_def ac_simps)
  subgoal premises prems by (rule post_at [where R = "Q 0", OF prems(3)]) (simp_all add: bars_res_def prems(1))
  done

lemma uses_mbox_irq_init [uses_intro]:
  "uses (\<lambda>p A. (\<forall>e p'. e \<noteq> 0 \<and> but_grant p' = but_grant p \<longrightarrow> Q e p' A) \<and>
      (\<forall>p'. but_vf_hw p' = but_vf_hw p \<and> bars_res p' = bars_res p \<and> vf_qdev (pr_vf_hw p') = vf_qdev (pr_vf_hw p) \<and>
         vf_mbox_irq_allocated (pr_vf_hw p') \<longrightarrow> Q 0 p' (add_mset (R_irq Irq_vf_mbox) A))) (onic_vf_mbox_irq_init v) Q"
  unfolding onic_vf_mbox_irq_init_def
  apply (rule uses_pre)
   apply (rule uses_intro keeps_bar0 [where f = "\<lambda>p. p", THEN keeps_uses])+
  apply (auto simp: charge_def bars_res_def but_grant_def but_mbox_def comp_def)
  done

lemma uses_qdma_init [uses_intro]:
  "uses (\<lambda>p A. vf_qdev (pr_vf_hw p) = None \<and> (\<forall>e. e \<noteq> 0 \<longrightarrow> Q e p A) \<and>
      (\<forall>p'. same_io p p' \<and> vf_qdev (pr_vf_hw p') \<noteq> None \<and> vf_qmax (pr_vf_hw p') = vf_qmax (pr_vf_hw p) \<and>
         vf_resource_valid (pr_vf_hw p') = vf_resource_valid (pr_vf_hw p) \<longrightarrow> Q 0 p' (qdev_res p' + A))) onic_vf_qdma_init Q"
  unfolding onic_vf_qdma_init_def Let_def
  apply (rule uses_pre)
   apply (rule uses_intro)+
  apply (auto simp: charge_def)
  subgoal premises prems by (rule post_at [where R = "Q 0", OF prems(3)]) (use prems in \<open>simp_all add: qdev_res_def heap_def same_io_def bars_res_def mbox_irq_res_def\<close>)
  done

lemma but_grant_sel:
  assumes "but_grant p' = but_grant p"
  shows "but_vf_hw p' = but_vf_hw p" "bars_res p' = bars_res p" "mbox_irq_res p' = mbox_irq_res p"
    "vf_qdev (pr_vf_hw p') = vf_qdev (pr_vf_hw p)" "vectors_res p' = vectors_res p"
proof -
  have sel: "vf_qdev (pr_vf_hw (but_grant q)) = vf_qdev (pr_vf_hw q)" "vf_bar0 (pr_vf_hw (but_grant q)) = vf_bar0 (pr_vf_hw q)"
    "vf_bar2 (pr_vf_hw (but_grant q)) = vf_bar2 (pr_vf_hw q)" "but_vf_hw (but_grant q) = but_vf_hw q"
    "vf_mbox_irq_allocated (pr_vf_hw (but_grant q)) = vf_mbox_irq_allocated (pr_vf_hw q)" for q
    by (simp_all add: but_grant_def but_mbox_def)
  show b: "but_vf_hw p' = but_vf_hw p" and "vf_qdev (pr_vf_hw p') = vf_qdev (pr_vf_hw p)"
    "bars_res p' = bars_res p" "mbox_irq_res p' = mbox_irq_res p"
    using sel [of p'] sel [of p] assms by (simp_all add: bars_res_def mbox_irq_res_def)
  then show "vectors_res p' = vectors_res p" by (simp add: vectors_res_def netdev_res_def stats_res_def but_vf_hw_sel [OF b])
qed

lemma same_io_sel:
  assumes "same_io p p'"
  shows "no_queues p' = no_queues p" "(no_vecs p' = p') = (no_vecs p = p)" "pr_netdev p' = pr_netdev p"
    "hw_res p' = qdev_res p' + (mbox_irq_res p + vectors_res p)"
proof -
  have b: "but_vf_hw p' = but_vf_hw p" using assms by (simp add: same_io_def)
  have "pr_tx_queue p' = pr_tx_queue p" "pr_rx_queue p' = pr_rx_queue p"
    using b by (cases p; cases p'; simp add: but_vf_hw_def)+
  then show "no_queues p' = no_queues p" by (simp add: no_queues_def)
  show "(no_vecs p' = p') = (no_vecs p = p)" unfolding no_vecs_iff by (simp add: but_vf_hw_sel [OF b])
  show "pr_netdev p' = pr_netdev p" by (rule but_vf_hw_sel [OF b])
  show "hw_res p' = qdev_res p' + (mbox_irq_res p + vectors_res p)" by (simp add: hw_res_def same_io_res [OF assms])
qed

lemma but_grant_io: "but_grant p' = but_grant p \<Longrightarrow> same_io p p'"
  unfolding same_io_def using but_grant_sel(1-3) [of p' p] by simp

lemma uses_probe_resource:
  "uses (\<lambda>p A. A = mbox_irq_res p + vectors_res p + A0 \<and> no_queues p \<and> no_vecs p = p \<and> pr_netdev p \<noteq> None \<and>
      vf_qdev (pr_vf_hw p) = None \<and> (\<forall>e p'. e \<noteq> 0 \<longrightarrow> Q e p' A0) \<and>
      (\<forall>p'. probed p' \<longrightarrow> Q 0 p' (dev_res p' + A0))) vf_probe_resource Q"
  unfolding vf_probe_resource_def
  apply (rule uses_pre)
   apply (rule uses_intro uses_probe_queues [where ?A0.0 = A0])+
  subgoal premises p for p A
  proof -
    have A: "A = mbox_irq_res p + vectors_res p + A0" and q: "no_queues p" "no_vecs p = p" "pr_netdev p \<noteq> None"
        "vf_qdev (pr_vf_hw p) = None"
      and Q: "\<forall>e p'. e \<noteq> 0 \<longrightarrow> Q e p' A0" "\<forall>p'. probed p' \<longrightarrow> Q 0 p' (dev_res p' + A0)" using p by simp_all
    have same: "mbox_irq_res p' + vectors_res p' = mbox_irq_res p + vectors_res p" "vf_qdev (pr_vf_hw p') = None"
      if "but_grant p' = but_grant p" for p'
      using but_grant_sel [OF that] q(4) by simp_all
    have queues: "qdev_res p2 + A = hw_res p2 + A0 \<and> no_queues p2 \<and> no_vecs p2 = p2 \<and> pr_netdev p2 \<noteq> None"
      if g: "but_grant p1 = but_grant p" and r: "same_io p1 p2" for p1 p2
      unfolding same_io_sel [OF r] same_io_sel [OF but_grant_io [OF g]] same(1) [OF g] using q(1-3) A by (simp add: ac_simps)
    have "(r \<noteq> 0 \<longrightarrow> mbox_irq_res p1 + vectors_res p1 \<subseteq># A \<and> (\<forall>p2. Q r p2 (A - (mbox_irq_res p1 + vectors_res p1))))"
      if "but_grant p1 = but_grant p" for r p1 using Q(1) unfolding same(1) [OF that] A by simp
    with Q queues same(2) show ?thesis
      by (intro allI impI, elim conjE) (simp add: granted_def)
  qed
  done

lemma uses_probe_irqs:
  "uses (\<lambda>p A. A = bars_res p + netdev_res p + A0 \<and> no_queues p \<and> no_vecs p = p \<and> pr_netdev p \<noteq> None \<and>
      vf_qdev (pr_vf_hw p) = None \<and> \<not> vf_mbox_irq_allocated (pr_vf_hw p) \<and> (\<forall>e p'. e \<noteq> 0 \<longrightarrow> Q e p' A0) \<and>
      (\<forall>p'. probed p' \<longrightarrow> Q 0 p' (dev_res p' + A0))) vf_probe_irqs Q"
  unfolding vf_probe_irqs_def Let_def
  apply (rule uses_pre)
   apply (rule uses_intro uses_probe_resource [where ?A0.0 = A0])+
  subgoal premises p for p A
  proof -
    let ?p = "\<lambda>n. pr_num_q_vectors_update (\<lambda>_. n) p"
    have A: "A = bars_res p + netdev_res p + A0" and q: "no_queues p" "no_vecs p = p" "pr_netdev p \<noteq> None"
        "vf_qdev (pr_vf_hw p) = None"
      and Q: "\<forall>e p'. e \<noteq> 0 \<longrightarrow> Q e p' A0" "\<forall>p'. probed p' \<longrightarrow> Q 0 p' (dev_res p' + A0)" using p by simp_all
    have v: "add_mset R_vectors A = vectors_res (?p n) + A0" for n
      by (simp add: A vectors_res_def bars_res_def netdev_res_def stats_res_def)
    have n: "no_queues (?p n)" "no_vecs (?p n) = ?p n" "pr_netdev (?p n) \<noteq> None" for n
      using q(1-3) unfolding no_vecs_iff by (simp_all add: no_queues_def)
    have unmap: "bars_res p + netdev_res p \<subseteq># A \<and> (r \<noteq> 0 \<longrightarrow> Q r p' (A - (bars_res p + netdev_res p)))" for r p'
      using Q(1) by (simp add: A)
    have fail: "vectors_res p1 \<subseteq># add_mset R_vectors A"
        "r \<noteq> 0 \<Longrightarrow> Q r p2 (add_mset R_vectors A - vectors_res p1)"
      if "but_grant p1 = but_grant (?p n)" for r p1 p2 n
      unfolding v [of n] but_grant_sel(5) [OF that(1)] using Q(1) by simp_all
    have onward: "add_mset (R_irq Irq_vf_mbox) (add_mset R_vectors A) = mbox_irq_res p1 + vectors_res p1 + A0 \<and>
        no_queues p1 \<and> no_vecs p1 = p1 \<and> pr_netdev p1 \<noteq> None"
      if "but_vf_hw p1 = but_vf_hw (?p n)" "bars_res p1 = bars_res (?p n)" "vf_mbox_irq_allocated (pr_vf_hw p1)" for p1 n
    proof -
      have "no_queues p1 = no_queues (?p n)"
        using that(1) by (cases p1; cases p) (simp add: but_vf_hw_def no_queues_def)
      moreover have "vectors_res p1 = vectors_res (?p n)"
        by (simp add: vectors_res_def netdev_res_def stats_res_def but_vf_hw_sel [OF that(1)] that(2))
      moreover have "no_vecs p1 = p1"
        using n(2) [of n] unfolding no_vecs_iff by (simp add: but_vf_hw_sel [OF that(1)])
      ultimately show ?thesis
        using n [of n] that(3) v [of n] by (simp add: mbox_irq_res_def but_vf_hw_sel [OF that(1)])
    qed
    show ?thesis
    proof (intro allI, goal_cases)
      case (1 r)
      show ?case
        using fail [where n = "of_int (r - int ONIC_VF_NON_Q_VECTORS)"] onward [of _ "of_int (r - int ONIC_VF_NON_Q_VECTORS)"]
          Q q(4) unmap by simp
    qed
  qed
  done

lemma uses_release_regions [uses_intro]:
  "uses (\<lambda>p A. {#R_device#} \<subseteq># A \<and> Q e p (A - {#R_device#})) (vf_disable_device e) Q"
  "uses (\<lambda>p A. {#R_regions, R_device#} \<subseteq># A \<and> Q e p (A - {#R_regions, R_device#})) (vf_release_regions e) Q"
  unfolding vf_release_regions_def vf_disable_device_def
  by (rule uses_pre, (rule uses_intro)+, auto simp: mset_subset_eq_exists_conv)+

lemma uses_probe_netdev:
  "uses (\<lambda>p A. A = {#R_regions, R_device#} + A0 \<and> (\<forall>e p'. e \<noteq> 0 \<longrightarrow> Q e p' A0) \<and>
      (\<forall>p'. probed p' \<longrightarrow> Q 0 p' (dev_res p' + A0))) (vf_probe_netdev ncpu) Q"
  unfolding vf_probe_netdev_def
  apply (rule uses_pre)
   apply (rule uses_intro uses_probe_irqs [where ?A0.0 = A0])+
  subgoal premises p for p A
  proof -
    have A: "A = {#R_regions, R_device#} + A0"
      and Q: "\<forall>e p'. e \<noteq> 0 \<longrightarrow> Q e p' A0" "\<forall>p'. probed p' \<longrightarrow> Q 0 p' (dev_res p' + A0)" using p by simp_all
    let ?p = "new_private\<lparr>pr_netdev_stats := Some (replicate ncpu zero_stats)\<rparr>"
    have new: "netdev_res new_private = {#R_netdev, R_regions, R_device#}" "vf_bar2 (pr_vf_hw new_private) = 0"
        "netdev_res ?p = {#R_percpu, R_netdev, R_regions, R_device#}" "vf_qdev (pr_vf_hw new_private) = None"
        "\<not> vf_mbox_irq_allocated (pr_vf_hw new_private)"
      by (simp_all add: new_private_def zero_private_def netdev_res_def stats_res_def zero_vf_hardware_def)
    have keep: "netdev_res p1 = netdev_res ?p" "no_queues p1" "no_vecs p1 = p1" "pr_netdev p1 \<noteq> None"
      if "but_vf_hw p1 = but_vf_hw ?p" for p1
    proof -
      show "netdev_res p1 = netdev_res ?p" by (simp add: netdev_res_def stats_res_def but_vf_hw_sel [OF that])
      show "no_vecs p1 = p1" "pr_netdev p1 \<noteq> None"
        unfolding no_vecs_iff but_vf_hw_sel [OF that] by (simp_all add: new_private_def zero_private_def)
      show "no_queues p1"
        using that by (cases p1) (simp add: but_vf_hw_def no_queues_def new_private_def zero_private_def)
    qed
    show ?thesis
      using Q keep by (simp add: A new)
  qed
  done

lemma uses_probe:
  "uses (\<lambda>p A. (\<forall>e p'. e \<noteq> 0 \<longrightarrow> Q e p' A) \<and> (\<forall>p'. probed p' \<longrightarrow> Q 0 p' (dev_res p' + A))) (onic_vf_probe ncpu) Q"
proof (rule uses_at, elim conjE)
  fix p0 A0
  assume Q: "\<forall>e p'. e \<noteq> 0 \<longrightarrow> Q e p' A0" "\<forall>p'. probed p' \<longrightarrow> Q 0 p' (dev_res p' + A0)"
  show "uses (\<lambda>p A. p = p0 \<and> A = A0) (onic_vf_probe ncpu) Q"
    unfolding onic_vf_probe_def
    apply (rule uses_pre)
     apply (rule uses_intro uses_probe_netdev [where ?A0.0 = A0])+
    using Q by (simp add: charge_def)
qed

text \<open>Removal, in its three stages.\<close>

definition io_res :: "onic_private \<Rightarrow> resource multiset" where
  "io_res p = vecs_res p + (qdev_res p + (mbox_irq_res p + (bars_res p + add_mset R_vectors (stats_res p))))"

lemma dev_res_io: "dev_res p = {#R_registered, R_netdev#} + io_res p + {#R_regions, R_device#}"
  by (simp add: dev_res_def io_res_def hw_res_def vectors_res_def netdev_res_def ac_simps)

lemma io_res_mbox: "but_mbox p' = but_mbox p \<Longrightarrow> io_res p' = io_res p"
proof -
  assume m: "but_mbox p' = but_mbox p"
  have "vecs_res p' = vecs_res p" using m but_mbox_sel(6) [of p'] but_mbox_sel(6) [of p] by (simp add: vecs_res_def)
  then show "io_res p' = io_res p"
    using but_grant_sel [OF but_grant_mbox [OF m]] but_vf_hw_sel(1) [of p' p]
    by (simp add: io_res_def qdev_res_def stats_res_def)
qed

lemma uses_remove_io [uses_intro]:
  "uses (\<lambda>p A. io_res p \<subseteq># A \<and> (\<forall>p'. Q () p' (A - io_res p))) vf_remove_io Q"
  unfolding vf_remove_io_def
  apply (rule uses_pre)
   apply (rule uses_intro)+
  subgoal premises p for p A
  proof -
    let ?off = "\<lambda>p'. pr_vf_hw_update (vf_mbox_irq_allocated_update (\<lambda>_. False)) p'\<lparr>pr_num_q_vectors := 0\<rparr>"
    obtain B where A: "A = io_res p + B" and Q: "\<And>p'. Q () p' B"
      using p by (auto simp: mset_subset_eq_exists_conv)
    have q: "qdev_res (no_vecs p) = qdev_res p" by (simp add: qdev_res_def drop_vecs_def)
    have io: "mbox_irq_res p' = mbox_irq_res p" "bars_res (?off p') = bars_res p" "but_vf_hw p' = but_vf_hw (no_vecs p)"
      if "same_io (no_vecs p) p'" for p'
      using that by (simp_all add: same_io_def bars_res_def mbox_irq_res_def drop_vecs_def)
    have st: "stats_res p2 = stats_res p" if "same_io (no_vecs p) p'" "but_vf_hw p2 = but_vf_hw (?off p')" for p' p2
      using but_vf_hw_sel(1) [OF that(2)] but_vf_hw_sel(1) [OF io(3) [OF that(1)]] by (simp add: stats_res_def drop_vecs_def)
    show ?thesis
      by (simp add: A io_res_def io st q Q)
  qed
  done

lemma uses_remove_queues:
  "uses (\<lambda>p A. opened p0 p \<and> A = napi_res p + (rings_res p + A0) \<and>
      (\<forall>p'. but_mbox p' = but_mbox p0 \<longrightarrow> Q () p' A0)) vf_remove_queues Q"
proof (rule uses_at, elim conjE)
  fix q0 B
  assume q0: "opened p0 q0" "B = napi_res q0 + (rings_res q0 + A0)" and Q: "\<forall>p'. but_mbox p' = but_mbox p0 \<longrightarrow> Q () p' A0"
  have fin: "rings_res p \<subseteq># rings_res q0 + A0 \<and> Q () (no_rings p) (rings_res q0 + A0 - rings_res p)"
    if "run_frame p = run_frame q0" for p
    using opened_frame [OF q0(1) that] Q by (simp add: opened_def closes_to_def)
  show "uses (\<lambda>p A. p = q0 \<and> A = B) vf_remove_queues Q"
    unfolding vf_remove_queues_def
    apply (rule uses_pre)
     apply (rule uses_intro)+
    apply (simp add: run_part_eq q0(2))
    apply (intro conjI allI impI; (elim conjE)?)
    subgoal by (rule fin [THEN conjunct1])
    subgoal by (rule fin [THEN conjunct2])
    done
qed

text \<open>A device that is up is stopped first; what a failing stop keeps, removal frees.\<close>

lemma napi_res_off: "\<forall>i<unat (pr_num_rx_queues p). \<not> napi_on p i \<Longrightarrow> napi_res p = {#}"
  by (simp add: napi_res_def)

lemma opened_off:
  assumes "opened p0 p" "\<forall>i<unat (pr_num_rx_queues p0). \<not> napi_on p i"
  shows "napi_res p = {#}"
  by (rule napi_res_off) (use assms(2) opened_num [OF assms(1)] in simp)

lemma closed_opened:
  assumes "no_queues p" "but_mbox p = but_mbox p0"
  shows "opened p0 p" "napi_res p = {#}" "rings_res p = {#}"
  using assms by (simp_all add: opened_def closes_to_def no_queues_wipe napi_res_def no_queues_napi rings_res_def queue_res_def no_queues_def)

lemma uses_unregister:
  "uses (\<lambda>p A. opened p0 p \<and> A = napi_res p + (rings_res p + add_mset R_registered A0) \<and>
      (\<forall>p'. opened p0 p' \<longrightarrow> Q () p' (napi_res p' + (rings_res p' + A0)))) vf_unregister_netdev Q"
  unfolding vf_unregister_netdev_def
  apply (rule uses_pre)
   apply (rule uses_intro uses_stop [where ?p0.0 = p0 and ?A0.0 = "add_mset R_registered A0"])+
  subgoal premises p for p A
  proof -
    have Q: "Q () p' (napi_res p' + (rings_res p' + A0))" if "opened p0 p'" for p' using p that by simp
    have Q1: "Q () p' (rings_res p' + A0)" if "opened p0 p'" "\<forall>i<unat (pr_num_rx_queues p0). \<not> napi_on p' i" for p'
      using Q [OF that(1)] opened_off [OF that] by simp
    have Q2: "Q () p' A0" if "no_queues p'" "but_mbox p' = but_mbox p0" for p'
      using Q [OF closed_opened(1) [OF that]] closed_opened(2,3) [OF that] by simp
    show ?thesis
      using p Q1 Q2 Q by simp
  qed
  done

lemma opened_netdev: "opened p0 p \<Longrightarrow> pr_netdev p = pr_netdev p0"
proof -
  assume "opened p0 p"
  then have "pr_netdev (but_mbox (no_rings p)) = pr_netdev (but_mbox p0)" by (simp add: opened_def closes_to_def)
  then show ?thesis by (simp add: but_mbox_def wipe_def)
qed

lemma uses_remove_device:
  "uses (\<lambda>p A. opened p0 p \<and> pr_netdev p0 \<noteq> None \<and> A = napi_res p + (rings_res p + (dev_res p0 + A0)) \<and>
      (\<forall>p'. Q () p' ({#R_regions, R_device#} + A0))) vf_remove_device Q"
  unfolding vf_remove_device_def
  apply (rule uses_pre)
   apply (rule uses_intro uses_unregister [where ?p0.0 = p0 and ?A0.0 = "{#R_netdev#} + io_res p0 + ({#R_regions, R_device#} + A0)"]
     uses_remove_queues [where ?p0.0 = p0 and ?A0.0 = "{#R_netdev#} + io_res p0 + ({#R_regions, R_device#} + A0)"])+
  subgoal premises p for p A
  proof -
    have o: "opened p0 p" and A: "A = napi_res p + (rings_res p + (dev_res p0 + A0))"
      and Q: "\<And>p'. Q () p' ({#R_regions, R_device#} + A0)" and n0: "pr_netdev p0 \<noteq> None" using p by blast+
    have n: "pr_netdev p \<noteq> None" unfolding opened_netdev [OF o] by (rule n0)
    show ?thesis
      using n o Q by (simp add: dev_res_io A) (intro allI impI, drule io_res_mbox [of _ p0], simp)
  qed
  done

lemma uses_remove:
  assumes "opened p0 (priv s)" "pr_netdev p0 \<noteq> None" "drvdata (trace s) \<noteq> 0"
    "held (ledger (trace s)) = napi_res (priv s) + (rings_res (priv s) + (dev_res p0 + A0))"
    "run_state onic_vf_remove s = (u, s')"
  shows "held (ledger (trace s')) = A0" "faults (ledger (trace s')) = faults (ledger (trace s))"
proof -
  have "uses (\<lambda>p A. opened p0 p \<and> pr_netdev p0 \<noteq> None \<and> A = napi_res p + (rings_res p + (dev_res p0 + A0)))
    (do { vf_remove_device; invoke (Pci Pci_release_mem_regions); invoke (Pci Pci_disable_device) }) (\<lambda>_ p A. A = A0)"
    apply (rule uses_pre)
    apply (rule uses_intro uses_remove_device [where ?p0.0 = p0 and ?A0.0 = A0])+
    apply simp
    done
  note run = usesD [OF this, of s u s']
  have "run_state (do { vf_remove_device; invoke (Pci Pci_release_mem_regions); invoke (Pci Pci_disable_device) }) s = (u, s')"
    using assms(3,5) by (simp add: onic_vf_remove_def pci_get_drvdata_def)
  note run = run [OF this]
  show "held (ledger (trace s')) = A0" "faults (ledger (trace s')) = faults (ledger (trace s))"
    by (rule run; use assms(1,2,4) in blast)+
qed

section \<open>The driver data pointer over probe\<close>

definition drvdata_quiet :: "event \<Rightarrow> bool" where
  "drvdata_quiet e \<longleftrightarrow> (\<forall>a. fst e \<noteq> Pci (Pci_set_drvdata a))"

interpretation dd: trace_view drvdata_step 0 drvdata drvdata_quiet
proof
  show "drvdata_step e d = d" if "drvdata_quiet e" for e d
    using that by (induction e d rule: drvdata_step.induct) (auto simp: drvdata_quiet_def)
qed (rule drvdata_def)

abbreviation (input) unbound :: "drv_state \<Rightarrow> bool" where "unbound s \<equiv> drvdata (trace s) = 0"
abbreviation (input) bound :: "drv_state \<Rightarrow> bool" where "bound s \<equiv> drvdata (trace s) \<noteq> 0"

lemma bound_keep:
  assumes "emits drvdata_quiet m"
  shows "triple bound top1 m (\<lambda>_. bound)" "triple unbound top1 m (\<lambda>_. unbound)"
  using dd.view_emits [OF assms] emitsD [OF assms] by (auto intro!: tripleI simp: list_all_iff) (metis snd_conv)+

lemma drvdata_quiet_simps [simp]:
  "drvdata_quiet (Io i, r)" "drvdata_quiet (Sync y, r)" "drvdata_quiet (Mem m, r)" "drvdata_quiet (Net n, r)"
  "drvdata_quiet (Skb k, r)" "drvdata_quiet (Page g, r)"
  "drvdata_quiet (Pci q, r) \<longleftrightarrow> (\<forall>a. q \<noteq> Pci_set_drvdata a)"
  by (simp_all add: drvdata_quiet_def)

lemma emits_vf_process [triple_intro]:
  "emits drvdata_quiet (onic_vf_mbox_read_msg off)" "emits drvdata_quiet onic_vf_mbox_process_one"
  unfolding onic_vf_mbox_process_one_def onic_vf_mbox_read_msg_def read_words_def by (auto intro!: triple_intro)

lemma emits_vf_interrupts [triple_intro]: "emits drvdata_quiet (mbox_interrupts n)"
  unfolding onic_vf_mbox_irq_handler_def
  by (induction n) (auto intro!: triple_intro simp: onic_vf_mbox_irq_handler_def onic_vf_mbox_irq_thread_def)

lemma emits_vf_drop [triple_intro]: "emits drvdata_quiet (vf_drop_stale n d)"
  by (induction n arbitrary: d) (auto intro!: triple_intro)

lemma emits_vf_probe_steps:
  "emits drvdata_quiet onic_vf_map_bars" "emits drvdata_quiet (onic_vf_mbox_irq_init v)"
  "emits drvdata_quiet onic_vf_mbox_get_queue_resource" "emits drvdata_quiet onic_vf_qdma_init"
  "emits drvdata_quiet onic_vf_q_irq_init" "emits drvdata_quiet set_dev_addr"
  unfolding onic_vf_map_bars_def onic_vf_mbox_irq_init_def onic_vf_mbox_get_queue_resource_def
    onic_vf_mbox_drop_stale_responses_def send_request_def wait_mbox_done_def validate_res_def Let_def
    onic_vf_mbox_write_msg_def write_words_def onic_vf_qdma_init_def onic_vf_q_irq_init_def
    onic_vf_init_one_q_irq_def onic_vf_clear_one_q_irq_def set_q_vector_def set_dev_addr_def eth_random_addr_def
  by (auto intro!: triple_intro split: list.split)

text \<open>The error path returns its code and forgets the private data.\<close>

definition dropped :: "int \<Rightarrow> int \<Rightarrow> drv_state \<Rightarrow> bool" where
  "dropped e r s \<longleftrightarrow> r = e \<and> unbound s"

lemma triple_after: "emits P m \<Longrightarrow> (\<And>a. triple top1 P (f a) B) \<Longrightarrow> triple top1 P (State_Monad.bind m f) B"
  by (rule triple_bind)

lemma unbound_after:
  "emits drvdata_quiet m \<Longrightarrow> (\<And>a. triple unbound top1 (f a) B) \<Longrightarrow> triple unbound top1 (State_Monad.bind m f) B"
  by (rule triple_bind [OF bound_keep(2)])

lemma bound_after:
  "emits drvdata_quiet m \<Longrightarrow> (\<And>a. triple bound top1 (f a) B) \<Longrightarrow> triple bound top1 (State_Monad.bind m f) B"
  by (rule triple_bind [OF bound_keep(1)])

lemma free_netdev_drops: "triple top1 top1 (vf_free_netdev e) (dropped e)"
proof -
  have set: "triple top1 top1 (invoke (Pci (Pci_set_drvdata 0))) (\<lambda>_. unbound)"
    by (rule tripleI) (auto simp: run_invoke dd.view_append list_all_iff)
  have last: "triple unbound top1 (do { invoke (Net Free_netdev); invoke (Pci Pci_release_mem_regions);
      invoke (Pci Pci_disable_device); ret e }) (dropped e)"
    by (rule unbound_after triple_ret | (auto intro!: triple_intro simp: dropped_def)[1])+
  show ?thesis
    unfolding vf_free_netdev_def vf_release_regions_def vf_disable_device_def free_stats_def
    by (rule triple_after, (auto intro!: triple_intro)[1], rule triple_bind [OF set], rule last)
qed

lemma error_path_drops:
  "triple top1 top1 (vf_unmap e) (dropped e)" "triple top1 top1 (vf_free_vectors e) (dropped e)"
  "triple top1 top1 (vf_clear_mbox_irq e) (dropped e)" "triple top1 top1 (vf_clear_qdma e) (dropped e)"
  "triple top1 top1 (vf_clear_q_irqs e) (dropped e)"
proof -
  show 1: "triple top1 top1 (vf_unmap e) (dropped e)"
    unfolding vf_unmap_def onic_vf_unmap_bars_def
    by (rule triple_after [OF _ free_netdev_drops]) (auto intro!: triple_intro)
  show 2: "triple top1 top1 (vf_free_vectors e) (dropped e)"
    unfolding vf_free_vectors_def
    by (rule triple_after [OF _ triple_after [OF _ 1]]) (auto intro!: triple_intro)
  show 3: "triple top1 top1 (vf_clear_mbox_irq e) (dropped e)"
    unfolding vf_clear_mbox_irq_def onic_vf_mbox_irq_clear_def
    by (rule triple_after [OF _ 2]) (auto intro!: triple_intro)
  show 4: "triple top1 top1 (vf_clear_qdma e) (dropped e)"
    unfolding vf_clear_qdma_def onic_vf_qdma_clear_def
    by (rule triple_after [OF _ 3]) (auto intro!: triple_intro)
  show "triple top1 top1 (vf_clear_q_irqs e) (dropped e)"
    unfolding vf_clear_q_irqs_def onic_vf_q_irq_clear_def onic_vf_clear_one_q_irq_def set_q_vector_def
    by (rule triple_after [OF _ 4]) (auto intro!: triple_intro)
qed

text \<open>A probe that returns 0 leaves the pointer set, one that fails after setting it clears it.\<close>

definition probe_end :: "int \<Rightarrow> drv_state \<Rightarrow> bool" where
  "probe_end r s \<longleftrightarrow> (if r = 0 then bound s else unbound s)"

lemma probe_drops: "triple top1 top1 m (dropped e) \<Longrightarrow> e \<noteq> 0 \<Longrightarrow> triple bound top1 m probe_end"
  by (erule triple_conseq) (auto simp: dropped_def probe_end_def)

lemma probe_tail:
  "triple bound top1 vf_probe_register probe_end" "triple bound top1 vf_probe_queues probe_end"
  "triple bound top1 vf_probe_resource probe_end" "triple bound top1 vf_probe_irqs probe_end"
proof -
  have fin: "triple bound top1 (ret 0) probe_end" by (rule triple_ret) (simp add: probe_end_def)
  show 1: "triple bound top1 vf_probe_register probe_end"
    unfolding vf_probe_register_def
    by (rule bound_after emits_vf_probe_steps triple_if probe_drops error_path_drops fin | assumption | (auto intro!: triple_intro)[1])+
  show 2: "triple bound top1 vf_probe_queues probe_end"
    unfolding vf_probe_queues_def Let_def
    by (rule bound_after emits_vf_probe_steps triple_if probe_drops error_path_drops 1 | assumption | (auto intro!: triple_intro)[1])+
  show 3: "triple bound top1 vf_probe_resource probe_end"
    unfolding vf_probe_resource_def
    by (rule bound_after emits_vf_probe_steps triple_if probe_drops error_path_drops 2 | assumption | (auto intro!: triple_intro)[1])+
  show "triple bound top1 vf_probe_irqs probe_end"
    unfolding vf_probe_irqs_def Let_def
    by (rule bound_after emits_vf_probe_steps triple_if probe_drops error_path_drops 3 | assumption | (auto intro!: triple_intro)[1])+
qed

lemma drvdata_after:
  assumes "emits drvdata_quiet m" "\<And>a. triple (\<lambda>s. drvdata (trace s) = d) top1 (f a) B"
  shows "triple (\<lambda>s. drvdata (trace s) = d) top1 (State_Monad.bind m f) B"
proof (rule triple_bind [OF _ assms(2)])
  show "triple (\<lambda>s. drvdata (trace s) = d) top1 m (\<lambda>_ s. drvdata (trace s) = d)"
    using dd.view_emits [OF assms(1)] emitsD [OF assms(1)] by (auto intro!: tripleI simp: list_all_iff) (metis snd_conv)+
qed

lemma triple_from_any: "triple top1 P m B \<Longrightarrow> (\<And>a s. B a s \<Longrightarrow> B' a s) \<Longrightarrow> triple A P m B'"
  by (erule triple_conseq) auto

lemma probe_drvdata:
  "triple (\<lambda>s. drvdata (trace s) = d) top1 (onic_vf_probe ncpu)
     (\<lambda>r s. if r = 0 then bound s else drvdata (trace s) \<in> {0, d})"
proof -
  let ?at = "\<lambda>s :: drv_state. drvdata (trace s) = d" and ?goal = "\<lambda>r s. if r = 0 then bound s else drvdata (trace s) \<in> {0, d}"
  have early: "triple ?at top1 (vf_disable_device e) ?goal" "triple ?at top1 (vf_release_regions e) ?goal" if "e \<noteq> 0" for e
    unfolding vf_release_regions_def vf_disable_device_def
    by ((rule drvdata_after triple_ret | (auto intro!: triple_intro simp: that)[1])+)
  have late: "triple A top1 (vf_free_netdev e) ?goal" if "e \<noteq> 0" for A e
    by (rule triple_from_any [OF free_netdev_drops]) (use that in \<open>simp add: dropped_def\<close>)
  have set: "triple A top1 (invoke (Pci (Pci_set_drvdata a))) (\<lambda>_. bound)" if "a \<noteq> 0" for A and a
    by (rule tripleI) (use that in \<open>auto simp: run_invoke dd.view_append list_all_iff\<close>)
  have irqs: "triple bound top1 vf_probe_irqs ?goal"
    by (rule triple_conseq [OF probe_tail(4)]) (auto simp: probe_end_def split: if_splits)
  have bars: "triple bound top1 (do { err \<leftarrow> onic_vf_map_bars; if err \<noteq> 0 then vf_free_netdev err else vf_probe_irqs }) ?goal"
    by (rule bound_after emits_vf_probe_steps triple_if late irqs | assumption)+
  have netdev: "triple ?at top1 (vf_probe_netdev ncpu) ?goal"
    unfolding vf_probe_netdev_def
    by (rule drvdata_after triple_if early late triple_bind [OF set bars] | (auto intro!: triple_intro)[1] | simp)+
  have fin: "triple ?at top1 (ret e) ?goal" if "e \<noteq> 0" for e
    by (rule triple_ret) (simp add: that)
  show ?thesis
    unfolding onic_vf_probe_def
    by (rule drvdata_after triple_if early fin netdev | assumption | (auto intro!: triple_intro)[1])+
qed

lemma emits_vf_cmd [triple_intro]:
  "emits drvdata_quiet (onic_vf_mbox_config_queue cfg)" "emits drvdata_quiet (onic_vf_mbox_clear_queue qid dir)"
  unfolding onic_vf_mbox_config_queue_def onic_vf_mbox_clear_queue_def onic_vf_mbox_send_queue_cmd_def
    onic_vf_mbox_drop_stale_responses_def send_request_def wait_mbox_done_def validate_cmd_def Let_def
    onic_vf_mbox_write_msg_def write_words_def
  by (auto intro!: triple_intro)

lemma emits_vf_contexts [triple_intro]:
  "emits drvdata_quiet onic_vf_tx_contexts_clear" "emits drvdata_quiet onic_vf_rx_contexts_clear"
  "emits drvdata_quiet onic_vf_tx_contexts_init" "emits drvdata_quiet onic_vf_rx_contexts_init"
  unfolding onic_vf_tx_contexts_clear_def onic_vf_rx_contexts_clear_def onic_vf_tx_contexts_init_def
    onic_vf_rx_contexts_init_def clear_all_def onic_vf_clear_one_tx_context_def onic_vf_clear_one_rx_context_def
    onic_vf_config_one_tx_context_def onic_vf_config_one_rx_context_def set_tx_queue_def set_rx_queue_def Let_def
  by (auto intro!: triple_intro split: list.split)

lemma emits_vf_datapath [triple_intro]:
  "emits drvdata_quiet onic_vf_rx_datapath_clear" "emits drvdata_quiet onic_vf_rx_datapath_init"
  unfolding onic_vf_rx_datapath_clear_def onic_vf_rx_datapath_init_def start_rx_queue_def stop_rx_queue_def set_rx_queue_def Let_def
  by (auto intro!: triple_intro emits_vf_doorbells)

lemma emits_vf_fill [triple_intro]: "emits drvdata_quiet (fill_rx_pages xs q)"
  by (induction xs arbitrary: q) (auto intro!: triple_intro emits_unpack)

lemma emits_vf_rings [triple_intro]:
  "emits drvdata_quiet onic_vf_rings_clear" "emits drvdata_quiet onic_vf_rings_init"
  unfolding onic_vf_rings_init_def onic_vf_rings_clear_def onic_vf_alloc_tx_ring_def onic_vf_alloc_rx_ring_def
    onic_vf_free_tx_ring_def onic_vf_free_rx_ring_def onic_vf_free_rx_pages_def onic_vf_create_rx_page_pool_def
    undo_rx_desc_def undo_rx_buffer_def undo_rx_pages_def set_tx_queue_def set_rx_queue_def Let_def
  by (auto intro!: triple_intro emits_release_pending split: list.split prod.split)

lemma emits_vf_open:
  "emits drvdata_quiet onic_vf_open_netdev"
  unfolding onic_vf_open_netdev_def onic_vf_rx_poll_work_start_def onic_vf_tx_clean_work_start_def
  by (auto intro!: triple_intro)

section \<open>Properties\<close>

lemma probe_spec:
  "case run_state (onic_vf_probe ncpu) s of (r, s') \<Rightarrow>
     faults (ledger (trace s')) = faults (ledger (trace s)) \<and>
     (if r = 0 then drvdata (trace s') \<noteq> 0 \<and> probed (priv s') \<and>
        held (ledger (trace s')) = dev_res (priv s') + held (ledger (trace s))
      else drvdata (trace s') \<in> {0, drvdata (trace s)} \<and> held (ledger (trace s')) = held (ledger (trace s)))"
proof -
  obtain r s' where run: "run_state (onic_vf_probe ncpu) s = (r, s')" by fastforce
  let ?A = "held (ledger (trace s))"
  have "uses (\<lambda>p A. A = ?A) (onic_vf_probe ncpu) (\<lambda>r p A. if r = 0 then probed p \<and> A = dev_res p + ?A else A = ?A)"
    by (rule uses_pre, rule uses_probe) simp
  note acc = usesD [OF this run refl]
  have "if r = 0 then bound s' else drvdata (trace s') \<in> {0, drvdata (trace s)}"
    by (rule tripleD(1) [OF probe_drvdata [of "drvdata (trace s)"] refl run])
  with acc show ?thesis by (simp add: run split: if_splits)
qed

text \<open>C5. Probing a VF is all or nothing: whatever the kernel, the device and the PF answer, a probe that fails gives
  back everything it acquired and leaves no driver data, and a probe that succeeds holds exactly what its private
  data names: the device, its regions, the mapped BARs, the interrupt vectors, the mailbox interrupt, the queue
  device, one interrupt per queue, the statistics and the registered network device. Nothing is freed that is not held.\<close>

theorem vf_probe_all_or_nothing:
  "case run_state (onic_vf_probe ncpu) s of (r, s') \<Rightarrow>
     faults (ledger (trace s')) = faults (ledger (trace s)) \<and>
     (if r = 0 then drvdata (trace s') \<noteq> 0 \<and> probed (priv s') \<and>
        held (ledger (trace s')) = dev_res (priv s') + held (ledger (trace s))
      else drvdata (trace s') \<in> {0, drvdata (trace s)} \<and> held (ledger (trace s')) = held (ledger (trace s)))"
  by (rule probe_spec)

text \<open>C15. A VF that is probed, opened (whether or not that succeeds) and then removed leaves nothing behind, and
  nothing is freed twice.\<close>

theorem vf_life_balanced:
  "let s' = snd (run_state (do {
     r \<leftarrow> onic_vf_probe ncpu;
     if r = 0 then do { _ \<leftarrow> onic_vf_open_netdev; onic_vf_remove } else ret () }) s)
   in held (ledger (trace s')) = held (ledger (trace s)) \<and> faults (ledger (trace s')) = faults (ledger (trace s))"
proof -
  let ?A = "held (ledger (trace s))"
  obtain r s1 where 1: "run_state (onic_vf_probe ncpu) s = (r, s1)" by fastforce
  note p = probe_spec [where ncpu = ncpu and s = s, unfolded 1, simplified]
  obtain e s2 where 2: "run_state onic_vf_open_netdev s1 = (e, s2)" by fastforce
  obtain u s3 where 3: "run_state onic_vf_remove s2 = (u, s3)" by (cases "run_state onic_vf_remove s2")
  have "held (ledger (trace s3)) = ?A \<and> faults (ledger (trace s3)) = faults (ledger (trace s))" if r: "r = 0"
  proof -
    let ?p = "priv s1"
    have probed: "probed ?p" "drvdata (trace s1) \<noteq> 0" "held (ledger (trace s1)) = dev_res ?p + ?A" using p r by auto
    then have no: "no_queues ?p" "unat (pr_num_tx_queues ?p) \<le> 64" "unat (pr_num_rx_queues ?p) \<le> 64" "pr_netdev ?p \<noteq> None"
      by (auto simp: probed_def)
    have "uses (\<lambda>p A. p = ?p \<and> A = dev_res ?p + ?A) onic_vf_open_netdev
      (\<lambda>e p A. opened ?p p \<and> A = napi_res p + (rings_res p + (dev_res ?p + ?A)))"
      by (rule uses_pre, rule uses_open) (use no closed_opened in \<open>auto simp: no_queues_wipe\<close>)
    note up = usesD [OF this 2]
    have "drvdata (trace s2) = drvdata (trace s1)" by (rule dd.view_emits [OF emits_vf_open 2])
    with uses_remove [OF _ no(4) _ _ 3, of ?A] up probed p show ?thesis by simp
  qed
  then show ?thesis using p by (auto simp: Let_def 1 2 3)
qed

end
