(* ===== verification/Handshake.thy ===== *)
theory Handshake
  imports Sriov Vf_Queues
begin

text \<open>
  Both ends of the mailbox together: the requests the VF builds (\<^verbatim>\<open>onic_vf_mbox.c\<close>, \<^verbatim>\<open>onic_vf_qdma.c\<close>) given to
  the handlers of the PF (\<^verbatim>\<open>onic_mbox.c\<close>), and the responses of the PF given to the checks of the VF.
\<close>

section \<open>Requests as the PF reads them\<close>

text \<open>A request on its way carries the sequence number that \<open>send_request\<close> gave it.\<close>

definition sent :: "u32 \<Rightarrow> onic_mbox_msg \<Rightarrow> onic_mbox_msg" where
  "sent seq req = req\<lparr>mb_hdr := (mb_hdr req)\<lparr>mh_seq := seq\<rparr>\<rparr>"

lemma sent_config [simp]:
  "mh_opcode (mb_hdr (sent seq (config_request cfg))) = ONIC_MBOX_OP_CONFIG_QUEUE"
  "mh_len (mb_hdr (sent seq (config_request cfg))) = sizeof_queue_cfg"
  "mh_seq (mb_hdr (sent seq (config_request cfg))) = seq"
  "qcfg_of_words (mb_data (sent seq (config_request cfg))) = cfg"
  by (simp_all add: sent_def config_request_def qcfg_round)

lemma sent_clear [simp]:
  "mh_opcode (mb_hdr (sent seq (clear_request qid dir))) = ONIC_MBOX_OP_CLEAR_QUEUE"
  "mh_len (mb_hdr (sent seq (clear_request qid dir))) = sizeof_queue_clear"
  "mh_seq (mb_hdr (sent seq (clear_request qid dir))) = seq"
  "qclear_of_words (mb_data (sent seq (clear_request qid dir))) = \<lparr>ql_qid = ucast qid, ql_dir = dir\<rparr>"
  by (simp_all add: sent_def clear_request_def qclear_round)

lemma sent_resource [simp]:
  "mh_opcode (mb_hdr (sent seq resource_request)) = ONIC_MBOX_OP_GET_QUEUE_RES"
  "mh_len (mb_hdr (sent seq resource_request)) = 0"
  "mh_seq (mb_hdr (sent seq resource_request)) = seq"
  by (simp_all add: sent_def resource_request_def)

section \<open>Responses as the VF reads them\<close>

definition verdict :: "int \<Rightarrow> int" where
  "verdict err = (if err = 0 then 0 else - EIO)"

lemma check_status_ok:
  "check_cmd_resp seq op qid dir (status_ok err (onic_pf_mbox_init_queue_cmd_resp op seq qid dir)) = verdict err"
  by (simp add: check_cmd_resp_def status_ok_def onic_pf_mbox_init_queue_cmd_resp_def qcmd_resp_round verdict_def)

lemma check_init_resp:
  "err \<noteq> 0 \<Longrightarrow> check_cmd_resp seq op qid dir (onic_pf_mbox_init_queue_cmd_resp op seq qid dir) = verdict err"
  using check_status_ok [of seq op qid dir err] by (simp add: status_ok_def)

text \<open>\<open>result_in P m\<close>: every result of \<open>m\<close> satisfies \<open>P\<close>.\<close>

definition result_in :: "('a \<Rightarrow> bool) \<Rightarrow> ('z, 'a) drv \<Rightarrow> bool" where
  "result_in P m \<longleftrightarrow> (\<forall>s. P (fst (run_state m s)))"

lemma result_in_ret: "P a \<Longrightarrow> result_in P (ret a)"
  by (simp add: result_in_def)

lemma result_in_bind: "(\<And>a. result_in P (f a)) \<Longrightarrow> result_in P (State_Monad.bind m f)"
  by (simp add: result_in_def split: prod.split)

lemma result_in_if: "(c \<Longrightarrow> result_in P m) \<Longrightarrow> (\<not> c \<Longrightarrow> result_in P n) \<Longrightarrow> result_in P (if c then m else n)"
  by simp

lemma result_in_sum:
  "(\<And>e. x = Inl e \<Longrightarrow> result_in P (f e)) \<Longrightarrow> (\<And>v. x = Inr v \<Longrightarrow> result_in P (g v)) \<Longrightarrow>
     result_in P (case x of Inl e \<Rightarrow> f e | Inr v \<Rightarrow> g v)"
  by (cases x) simp_all

abbreviation read_as :: "u32 \<Rightarrow> u32 \<Rightarrow> u32 \<Rightarrow> u32 \<Rightarrow> int \<times> onic_mbox_msg \<Rightarrow> bool" where
  "read_as seq op qid dir a \<equiv> check_cmd_resp seq op qid dir (snd a) = verdict (fst a)"

lemma config_read:
  "result_in (read_as seq ONIC_MBOX_OP_CONFIG_QUEUE_RESP (qc_qid cfg) (qc_dir cfg))
     (pf_mbox_answer p src (sent seq (config_request cfg)))"
  unfolding pf_mbox_answer_def onic_pf_mbox_config_queue_def Let_def sent_config
  by (simp, intro conjI impI result_in_if result_in_sum result_in_bind result_in_ret)
    (simp_all add: check_status_ok check_init_resp get_vf_qdev_Inl)

lemma clear_read:
  "result_in (read_as seq ONIC_MBOX_OP_CLEAR_QUEUE_RESP (ucast qid) dir)
     (pf_mbox_answer p src (sent seq (clear_request qid dir)))"
  unfolding pf_mbox_answer_def onic_pf_mbox_clear_queue_def Let_def sent_clear
  by (simp, intro conjI impI result_in_if result_in_sum result_in_bind result_in_ret)
    (simp_all add: check_status_ok check_init_resp get_vf_qdev_Inl)

section \<open>Addresses\<close>

lemma dma_addr_round: "onic_pf_mbox_dma_addr (lower_32_bits a) (upper_32_bits a) = a"
  by (rule bit_eqI) (auto simp: onic_pf_mbox_dma_addr_def lower_32_bits_def upper_32_bits_def bit_simps)

text \<open>The window of VF \<open>i\<close> as the VF is told of it.\<close>

definition window_of :: "nat \<Rightarrow> nat \<Rightarrow> u8 list \<Rightarrow> onic_mbox_queue_res" where
  "window_of base i mac = \<lparr>qr_func_id = 4 + of_nat i, qr_qbase = of_nat (base + 4 * i), qr_qmax = 4, qr_mac = mac\<rparr>"

lemma ucast_small: "n < 65536 \<Longrightarrow> (ucast (of_nat n :: u16) :: u32) = of_nat n"
  using of_nat_unat [of "of_nat n :: u16", where 'a = "32 word"] by (simp add: unat_of_nat take_bit_eq_mod)

lemma resource_resp:
  assumes "sriov_on base n p" "i < n" "base + 16 \<le> 2048"
  obtains resp mac where "pf_mbox_answer p (4 + of_nat i) (sent seq resource_request) = ret (0, resp)"
    "check_res_resp seq resp = 0" "length mac = 6" "qres_of_words (mb_data resp) = window_of base i mac"
proof -
  obtain res where res: "onic_pf_mbox_find_vf_resource p (4 + of_nat i) = Some res" "vf_slot (int base) i res"
    by (rule find_vf_slot [OF assms(1,2)])
  have i: "i < 4" using assms(1,2) by (simp add: sriov_on_def)
  have w: "\<lparr>qr_func_id = ucast (vr_func_id res), qr_qbase = ucast (vr_qbase res), qr_qmax = ucast (vr_qmax res),
      qr_mac = vr_mac res\<rparr> = window_of base i (vr_mac res)"
  proof -
    have "vr_func_id res = of_nat (4 + i)" "vr_qbase res = of_nat (base + 4 * i)" "vr_qmax res = 4"
      using res(2) by (simp_all add: vf_slot_def)
    then show ?thesis
      using ucast_small [of "4 + i"] ucast_small [of "base + 4 * i"] ucast_small [of 4] i assms(3)
      by (simp add: window_of_def)
  qed
  have round: "qres_of_words (put_words (qres_words (window_of base i (vr_mac res))) data) = window_of base i (vr_mac res)" for data
    using res(2) by (intro qres_round) (simp add: window_of_def vf_slot_def)
  show thesis
  proof (rule that)
    show "length (vr_mac res) = 6" using res(2) by (simp add: vf_slot_def)
    show "pf_mbox_answer p (4 + of_nat i) (sent seq resource_request) =
        ret (0, zero_msg\<lparr>mb_hdr := \<lparr>mh_opcode = ONIC_MBOX_OP_QUEUE_RES_RESP, mh_status = ONIC_MBOX_STS_OK,
          mh_seq = seq, mh_len = sizeof_queue_res\<rparr>,
          mb_data := put_words (qres_words (window_of base i (vr_mac res))) (mb_data zero_msg)\<rparr>)"
      by (simp add: pf_mbox_answer_def onic_pf_mbox_make_queue_res_resp_def res(1) w zero_msg_def)
  qed (simp_all add: check_res_resp_def round, simp_all add: window_of_def)
qed

section \<open>Queues the PF accepts\<close>

text \<open>What the VF may pass: the address of a ring, and the queue and vector of a VF.\<close>

definition ring_addr_ok :: "onic_ring \<Rightarrow> bool" where
  "ring_addr_ok r \<longleftrightarrow> ring_dma_addr r \<noteq> 0 \<and> is_aligned64 (ring_dma_addr r)"

lemma of_nat_less_4: "qid < 4 \<Longrightarrow> (of_nat qid :: u32) < 4"
  by (simp add: word_less_nat_alt unat_of_nat take_bit_eq_mod)

lemma vector_less_4: "(v :: u16) < 4 \<Longrightarrow> (ucast v :: u32) < 4"
  by (simp add: word_less_nat_alt unsigned_ucast_eq take_bit_eq_mod)

lemma accepted:
  assumes "sriov_on base n p" "i < n" "pf_qdev p \<noteq> None" "qid < 4" "qv_vid vec < 4" "ring_addr_ok r"
  shows "config_accepted p (4 + of_nat i) (sent seq (config_request (vf_tx_cfg qid vec r)))"
    "ring_addr_ok c \<Longrightarrow> config_accepted p (4 + of_nat i) (sent seq (config_request (vf_rx_cfg qid vec r c)))"
proof -
  obtain res where res: "onic_pf_mbox_find_vf_resource p (4 + of_nat i) = Some res" "vf_slot (int base) i res"
    by (rule find_vf_slot [OF assms(1,2)])
  then have "vr_qmax res = 4" by (simp add: vf_slot_def)
  then show "config_accepted p (4 + of_nat i) (sent seq (config_request (vf_tx_cfg qid vec r)))"
    "ring_addr_ok c \<Longrightarrow> config_accepted p (4 + of_nat i) (sent seq (config_request (vf_rx_cfg qid vec r c)))"
    using assms(3-6) res(1) of_nat_less_4 [OF assms(4)] vector_less_4 [OF assms(5)]
    by (simp_all add: config_accepted_def Let_def vf_tx_cfg_def vf_rx_cfg_def dma_addr_round ring_addr_ok_def)
qed

section \<open>Properties\<close>

text \<open>C26. The VF reads the verdict of the PF correctly: whatever the request to configure or clear a queue, with
  whatever sequence number, the response the PF builds passes every check of \<^verbatim>\<open>validate_response\<close>
  (opcode, sequence, length, queue, direction), and what the VF returns is 0 exactly when the PF
  succeeded and \<^verbatim>\<open>-EIO\<close> otherwise: a protocol error is never reported for an honest PF.\<close>
theorem vf_reads_pf_verdict:
  "(let (err, resp) = fst (run_state (pf_mbox_answer p src (sent seq (config_request cfg))) s)
    in check_cmd_resp seq ONIC_MBOX_OP_CONFIG_QUEUE_RESP (qc_qid cfg) (qc_dir cfg) resp = (if err = 0 then 0 else - EIO)) \<and>
   (let (err, resp) = fst (run_state (pf_mbox_answer p src (sent seq (clear_request qid dir))) s)
    in check_cmd_resp seq ONIC_MBOX_OP_CLEAR_QUEUE_RESP (ucast qid) dir resp = (if err = 0 then 0 else - EIO))"
  unfolding case_prod_beta Let_def
  by (intro conjI config_read [unfolded result_in_def verdict_def, rule_format]
      clear_read [unfolded result_in_def verdict_def, rule_format])



text \<open>C28. The queues of an enabled VF are accepted: for a queue and vector of its window and rings at nonzero
  addresses aligned to 64 bytes, the requests that \<^verbatim>\<open>onic_vf_config_one_tx_context\<close> and
  \<^verbatim>\<open>onic_vf_config_one_rx_context\<close> build pass every check of the PF, and the addresses the PF
  programs are those of the rings, put together again from their halves.\<close>
theorem vf_queues_accepted:
  assumes "sriov_on base n p" "i < n" "pf_qdev p \<noteq> None" "qid < 4" "qv_vid vec < 4" "ring_addr_ok r" "ring_addr_ok c"
  shows "config_accepted p (4 + of_nat i) (sent seq (config_request (vf_tx_cfg qid vec r))) \<and>
     config_accepted p (4 + of_nat i) (sent seq (config_request (vf_rx_cfg qid vec r c))) \<and>
     hp_dma_addr (requested_h2c (vf_tx_cfg qid vec r)) = ring_dma_addr r \<and>
     cp_desc_dma_addr (requested_c2h (vf_rx_cfg qid vec r c)) = ring_dma_addr r \<and>
     cp_cmpl_dma_addr (requested_c2h (vf_rx_cfg qid vec r c)) = ring_dma_addr c"
  using accepted [OF assms(1-6)] assms(7)
  by (simp add: requested_h2c_def requested_c2h_def vf_tx_cfg_def vf_rx_cfg_def dma_addr_round)

definition example_ring :: onic_ring where
  "example_ring = \<lparr>ring_count = 1025, ring_desc = 0x2000, ring_wb = 0x6000, ring_dma_addr = 0x100002000,
     ring_next_to_use = 0, ring_next_to_clean = 0, ring_color = 0\<rparr>"

theorem vf_queues_accepted_witness:
  "config_accepted (two_vfs 16) (4 + of_nat 1) (sent 7 (config_request (vf_tx_cfg 3 \<lparr>qv_self = 0x4000, qv_vid = 2\<rparr> example_ring)))"
  by (rule vf_queues_accepted [where c = example_ring, THEN conjunct1, OF two_vfs_on])
    (simp_all add: example_ring_def ring_addr_ok_def is_aligned64_def pf_qdev_def two_vfs_def quiet_pf_def)

end
