(* ===== verification/Cmac_Regs.thy ===== *)
theory Cmac_Regs
  imports Regs
begin

text \<open>
  The registers of \<^verbatim>\<open>onic_register.h\<close> behind the ethtool operations: the statistics of the CMACs and of their
  packet adapters, the receive status, and the hash key of a function.
\<close>

abbreviation (input) CMAC_ADPT_OFFSET :: "u32 \<Rightarrow> u32" where "CMAC_ADPT_OFFSET i \<equiv> CMAC_SUBSYSTEM_OFFSET i + 0x3000"
abbreviation (input) CMAC_OFFSET_STAT_RX_STATUS :: "u32 \<Rightarrow> u32" where "CMAC_OFFSET_STAT_RX_STATUS i \<equiv> CMAC_OFFSET i + 0x0204"
abbreviation (input) CMAC_OFFSET_TICK :: "u32 \<Rightarrow> u32" where "CMAC_OFFSET_TICK i \<equiv> CMAC_OFFSET i + 0x02B0"
abbreviation (input) CMAC_OFFSET_STAT_TX_TOTAL_PKTS :: "u32 \<Rightarrow> u32" where "CMAC_OFFSET_STAT_TX_TOTAL_PKTS i \<equiv> CMAC_OFFSET i + 0x0500"
abbreviation (input) CMAC_OFFSET_STAT_TX_TOTAL_GOOD_PKTS :: "u32 \<Rightarrow> u32" where "CMAC_OFFSET_STAT_TX_TOTAL_GOOD_PKTS i \<equiv> CMAC_OFFSET i + 0x0508"
abbreviation (input) CMAC_OFFSET_STAT_TX_TOTAL_BYTES :: "u32 \<Rightarrow> u32" where "CMAC_OFFSET_STAT_TX_TOTAL_BYTES i \<equiv> CMAC_OFFSET i + 0x0510"
abbreviation (input) CMAC_OFFSET_STAT_TX_TOTAL_GOOD_BYTES :: "u32 \<Rightarrow> u32" where "CMAC_OFFSET_STAT_TX_TOTAL_GOOD_BYTES i \<equiv> CMAC_OFFSET i + 0x0518"
abbreviation (input) CMAC_OFFSET_STAT_TX_PKT_64_BYTES :: "u32 \<Rightarrow> u32" where "CMAC_OFFSET_STAT_TX_PKT_64_BYTES i \<equiv> CMAC_OFFSET i + 0x0520"
abbreviation (input) CMAC_OFFSET_STAT_TX_PKT_65_127_BYTES :: "u32 \<Rightarrow> u32" where "CMAC_OFFSET_STAT_TX_PKT_65_127_BYTES i \<equiv> CMAC_OFFSET i + 0x0528"
abbreviation (input) CMAC_OFFSET_STAT_TX_PKT_128_255_BYTES :: "u32 \<Rightarrow> u32" where "CMAC_OFFSET_STAT_TX_PKT_128_255_BYTES i \<equiv> CMAC_OFFSET i + 0x0530"
abbreviation (input) CMAC_OFFSET_STAT_TX_PKT_256_511_BYTES :: "u32 \<Rightarrow> u32" where "CMAC_OFFSET_STAT_TX_PKT_256_511_BYTES i \<equiv> CMAC_OFFSET i + 0x0538"
abbreviation (input) CMAC_OFFSET_STAT_TX_PKT_512_1023_BYTES :: "u32 \<Rightarrow> u32" where "CMAC_OFFSET_STAT_TX_PKT_512_1023_BYTES i \<equiv> CMAC_OFFSET i + 0x0540"
abbreviation (input) CMAC_OFFSET_STAT_TX_PKT_1024_1518_BYTES :: "u32 \<Rightarrow> u32" where "CMAC_OFFSET_STAT_TX_PKT_1024_1518_BYTES i \<equiv> CMAC_OFFSET i + 0x0548"
abbreviation (input) CMAC_OFFSET_STAT_TX_PKT_1519_1522_BYTES :: "u32 \<Rightarrow> u32" where "CMAC_OFFSET_STAT_TX_PKT_1519_1522_BYTES i \<equiv> CMAC_OFFSET i + 0x0550"
abbreviation (input) CMAC_OFFSET_STAT_TX_PKT_1523_1548_BYTES :: "u32 \<Rightarrow> u32" where "CMAC_OFFSET_STAT_TX_PKT_1523_1548_BYTES i \<equiv> CMAC_OFFSET i + 0x0558"
abbreviation (input) CMAC_OFFSET_STAT_TX_PKT_1549_2047_BYTES :: "u32 \<Rightarrow> u32" where "CMAC_OFFSET_STAT_TX_PKT_1549_2047_BYTES i \<equiv> CMAC_OFFSET i + 0x0560"
abbreviation (input) CMAC_OFFSET_STAT_TX_PKT_2048_4095_BYTES :: "u32 \<Rightarrow> u32" where "CMAC_OFFSET_STAT_TX_PKT_2048_4095_BYTES i \<equiv> CMAC_OFFSET i + 0x0568"
abbreviation (input) CMAC_OFFSET_STAT_TX_PKT_4096_8191_BYTES :: "u32 \<Rightarrow> u32" where "CMAC_OFFSET_STAT_TX_PKT_4096_8191_BYTES i \<equiv> CMAC_OFFSET i + 0x0570"
abbreviation (input) CMAC_OFFSET_STAT_TX_PKT_8192_9215_BYTES :: "u32 \<Rightarrow> u32" where "CMAC_OFFSET_STAT_TX_PKT_8192_9215_BYTES i \<equiv> CMAC_OFFSET i + 0x0578"
abbreviation (input) CMAC_OFFSET_STAT_TX_PKT_LARGE :: "u32 \<Rightarrow> u32" where "CMAC_OFFSET_STAT_TX_PKT_LARGE i \<equiv> CMAC_OFFSET i + 0x0580"
abbreviation (input) CMAC_OFFSET_STAT_TX_PKT_SMALL :: "u32 \<Rightarrow> u32" where "CMAC_OFFSET_STAT_TX_PKT_SMALL i \<equiv> CMAC_OFFSET i + 0x0588"
abbreviation (input) CMAC_OFFSET_STAT_TX_BAD_FCS :: "u32 \<Rightarrow> u32" where "CMAC_OFFSET_STAT_TX_BAD_FCS i \<equiv> CMAC_OFFSET i + 0x05B8"
abbreviation (input) CMAC_OFFSET_STAT_TX_UNICAST :: "u32 \<Rightarrow> u32" where "CMAC_OFFSET_STAT_TX_UNICAST i \<equiv> CMAC_OFFSET i + 0x05D0"
abbreviation (input) CMAC_OFFSET_STAT_TX_MULTICAST :: "u32 \<Rightarrow> u32" where "CMAC_OFFSET_STAT_TX_MULTICAST i \<equiv> CMAC_OFFSET i + 0x05D8"
abbreviation (input) CMAC_OFFSET_STAT_TX_BROADCAST :: "u32 \<Rightarrow> u32" where "CMAC_OFFSET_STAT_TX_BROADCAST i \<equiv> CMAC_OFFSET i + 0x05E0"
abbreviation (input) CMAC_OFFSET_STAT_TX_VLAN :: "u32 \<Rightarrow> u32" where "CMAC_OFFSET_STAT_TX_VLAN i \<equiv> CMAC_OFFSET i + 0x05E8"
abbreviation (input) CMAC_OFFSET_STAT_TX_PAUSE :: "u32 \<Rightarrow> u32" where "CMAC_OFFSET_STAT_TX_PAUSE i \<equiv> CMAC_OFFSET i + 0x05F0"
abbreviation (input) CMAC_OFFSET_STAT_TX_USER_PAUSE :: "u32 \<Rightarrow> u32" where "CMAC_OFFSET_STAT_TX_USER_PAUSE i \<equiv> CMAC_OFFSET i + 0x05F8"
abbreviation (input) CMAC_OFFSET_STAT_RX_TOTAL_PKTS :: "u32 \<Rightarrow> u32" where "CMAC_OFFSET_STAT_RX_TOTAL_PKTS i \<equiv> CMAC_OFFSET i + 0x0608"
abbreviation (input) CMAC_OFFSET_STAT_RX_TOTAL_GOOD_PKTS :: "u32 \<Rightarrow> u32" where "CMAC_OFFSET_STAT_RX_TOTAL_GOOD_PKTS i \<equiv> CMAC_OFFSET i + 0x0610"
abbreviation (input) CMAC_OFFSET_STAT_RX_TOTAL_BYTES :: "u32 \<Rightarrow> u32" where "CMAC_OFFSET_STAT_RX_TOTAL_BYTES i \<equiv> CMAC_OFFSET i + 0x0618"
abbreviation (input) CMAC_OFFSET_STAT_RX_TOTAL_GOOD_BYTES :: "u32 \<Rightarrow> u32" where "CMAC_OFFSET_STAT_RX_TOTAL_GOOD_BYTES i \<equiv> CMAC_OFFSET i + 0x0620"
abbreviation (input) CMAC_OFFSET_STAT_RX_PKT_64_BYTES :: "u32 \<Rightarrow> u32" where "CMAC_OFFSET_STAT_RX_PKT_64_BYTES i \<equiv> CMAC_OFFSET i + 0x0628"
abbreviation (input) CMAC_OFFSET_STAT_RX_PKT_65_127_BYTES :: "u32 \<Rightarrow> u32" where "CMAC_OFFSET_STAT_RX_PKT_65_127_BYTES i \<equiv> CMAC_OFFSET i + 0x0630"
abbreviation (input) CMAC_OFFSET_STAT_RX_PKT_128_255_BYTES :: "u32 \<Rightarrow> u32" where "CMAC_OFFSET_STAT_RX_PKT_128_255_BYTES i \<equiv> CMAC_OFFSET i + 0x0638"
abbreviation (input) CMAC_OFFSET_STAT_RX_PKT_256_511_BYTES :: "u32 \<Rightarrow> u32" where "CMAC_OFFSET_STAT_RX_PKT_256_511_BYTES i \<equiv> CMAC_OFFSET i + 0x0640"
abbreviation (input) CMAC_OFFSET_STAT_RX_PKT_512_1023_BYTES :: "u32 \<Rightarrow> u32" where "CMAC_OFFSET_STAT_RX_PKT_512_1023_BYTES i \<equiv> CMAC_OFFSET i + 0x0648"
abbreviation (input) CMAC_OFFSET_STAT_RX_PKT_1024_1518_BYTES :: "u32 \<Rightarrow> u32" where "CMAC_OFFSET_STAT_RX_PKT_1024_1518_BYTES i \<equiv> CMAC_OFFSET i + 0x0650"
abbreviation (input) CMAC_OFFSET_STAT_RX_PKT_1519_1522_BYTES :: "u32 \<Rightarrow> u32" where "CMAC_OFFSET_STAT_RX_PKT_1519_1522_BYTES i \<equiv> CMAC_OFFSET i + 0x0658"
abbreviation (input) CMAC_OFFSET_STAT_RX_PKT_1523_1548_BYTES :: "u32 \<Rightarrow> u32" where "CMAC_OFFSET_STAT_RX_PKT_1523_1548_BYTES i \<equiv> CMAC_OFFSET i + 0x0660"
abbreviation (input) CMAC_OFFSET_STAT_RX_PKT_1549_2047_BYTES :: "u32 \<Rightarrow> u32" where "CMAC_OFFSET_STAT_RX_PKT_1549_2047_BYTES i \<equiv> CMAC_OFFSET i + 0x0668"
abbreviation (input) CMAC_OFFSET_STAT_RX_PKT_2048_4095_BYTES :: "u32 \<Rightarrow> u32" where "CMAC_OFFSET_STAT_RX_PKT_2048_4095_BYTES i \<equiv> CMAC_OFFSET i + 0x0670"
abbreviation (input) CMAC_OFFSET_STAT_RX_PKT_4096_8191_BYTES :: "u32 \<Rightarrow> u32" where "CMAC_OFFSET_STAT_RX_PKT_4096_8191_BYTES i \<equiv> CMAC_OFFSET i + 0x0678"
abbreviation (input) CMAC_OFFSET_STAT_RX_PKT_8192_9215_BYTES :: "u32 \<Rightarrow> u32" where "CMAC_OFFSET_STAT_RX_PKT_8192_9215_BYTES i \<equiv> CMAC_OFFSET i + 0x0680"
abbreviation (input) CMAC_OFFSET_STAT_RX_PKT_LARGE :: "u32 \<Rightarrow> u32" where "CMAC_OFFSET_STAT_RX_PKT_LARGE i \<equiv> CMAC_OFFSET i + 0x0688"
abbreviation (input) CMAC_OFFSET_STAT_RX_PKT_SMALL :: "u32 \<Rightarrow> u32" where "CMAC_OFFSET_STAT_RX_PKT_SMALL i \<equiv> CMAC_OFFSET i + 0x0690"
abbreviation (input) CMAC_OFFSET_STAT_RX_UNDERSIZE :: "u32 \<Rightarrow> u32" where "CMAC_OFFSET_STAT_RX_UNDERSIZE i \<equiv> CMAC_OFFSET i + 0x0698"
abbreviation (input) CMAC_OFFSET_STAT_RX_FRAGMENT :: "u32 \<Rightarrow> u32" where "CMAC_OFFSET_STAT_RX_FRAGMENT i \<equiv> CMAC_OFFSET i + 0x06A0"
abbreviation (input) CMAC_OFFSET_STAT_RX_OVERSIZE :: "u32 \<Rightarrow> u32" where "CMAC_OFFSET_STAT_RX_OVERSIZE i \<equiv> CMAC_OFFSET i + 0x06A8"
abbreviation (input) CMAC_OFFSET_STAT_RX_TOOLONG :: "u32 \<Rightarrow> u32" where "CMAC_OFFSET_STAT_RX_TOOLONG i \<equiv> CMAC_OFFSET i + 0x06B0"
abbreviation (input) CMAC_OFFSET_STAT_RX_JABBER :: "u32 \<Rightarrow> u32" where "CMAC_OFFSET_STAT_RX_JABBER i \<equiv> CMAC_OFFSET i + 0x06B8"
abbreviation (input) CMAC_OFFSET_STAT_RX_BAD_FCS :: "u32 \<Rightarrow> u32" where "CMAC_OFFSET_STAT_RX_BAD_FCS i \<equiv> CMAC_OFFSET i + 0x06C0"
abbreviation (input) CMAC_OFFSET_STAT_RX_PKT_BAD_FCS :: "u32 \<Rightarrow> u32" where "CMAC_OFFSET_STAT_RX_PKT_BAD_FCS i \<equiv> CMAC_OFFSET i + 0x06C8"
abbreviation (input) CMAC_OFFSET_STAT_RX_STOMPED_FCS :: "u32 \<Rightarrow> u32" where "CMAC_OFFSET_STAT_RX_STOMPED_FCS i \<equiv> CMAC_OFFSET i + 0x06D0"
abbreviation (input) CMAC_OFFSET_STAT_RX_UNICAST :: "u32 \<Rightarrow> u32" where "CMAC_OFFSET_STAT_RX_UNICAST i \<equiv> CMAC_OFFSET i + 0x06D8"
abbreviation (input) CMAC_OFFSET_STAT_RX_MULTICAST :: "u32 \<Rightarrow> u32" where "CMAC_OFFSET_STAT_RX_MULTICAST i \<equiv> CMAC_OFFSET i + 0x06E0"
abbreviation (input) CMAC_OFFSET_STAT_RX_BROADCAST :: "u32 \<Rightarrow> u32" where "CMAC_OFFSET_STAT_RX_BROADCAST i \<equiv> CMAC_OFFSET i + 0x06E8"
abbreviation (input) CMAC_OFFSET_STAT_RX_VLAN :: "u32 \<Rightarrow> u32" where "CMAC_OFFSET_STAT_RX_VLAN i \<equiv> CMAC_OFFSET i + 0x06F0"
abbreviation (input) CMAC_OFFSET_STAT_RX_PAUSE :: "u32 \<Rightarrow> u32" where "CMAC_OFFSET_STAT_RX_PAUSE i \<equiv> CMAC_OFFSET i + 0x06F8"
abbreviation (input) CMAC_OFFSET_STAT_RX_USER_PAUSE :: "u32 \<Rightarrow> u32" where "CMAC_OFFSET_STAT_RX_USER_PAUSE i \<equiv> CMAC_OFFSET i + 0x0700"
abbreviation (input) CMAC_OFFSET_STAT_RX_INRANGEERR :: "u32 \<Rightarrow> u32" where "CMAC_OFFSET_STAT_RX_INRANGEERR i \<equiv> CMAC_OFFSET i + 0x0708"
abbreviation (input) CMAC_OFFSET_STAT_RX_TRUNCATED :: "u32 \<Rightarrow> u32" where "CMAC_OFFSET_STAT_RX_TRUNCATED i \<equiv> CMAC_OFFSET i + 0x0710"
abbreviation (input) CMAC_ADPT_OFFSET_TX_PKT_RECV :: "u32 \<Rightarrow> u32" where "CMAC_ADPT_OFFSET_TX_PKT_RECV i \<equiv> CMAC_ADPT_OFFSET i + 0x0"
abbreviation (input) CMAC_ADPT_OFFSET_TX_PKT_DROP :: "u32 \<Rightarrow> u32" where "CMAC_ADPT_OFFSET_TX_PKT_DROP i \<equiv> CMAC_ADPT_OFFSET i + 0x10"
abbreviation (input) CMAC_ADPT_OFFSET_RX_PKT_RECV :: "u32 \<Rightarrow> u32" where "CMAC_ADPT_OFFSET_RX_PKT_RECV i \<equiv> CMAC_ADPT_OFFSET i + 0x20"
abbreviation (input) CMAC_ADPT_OFFSET_RX_PKT_DROP :: "u32 \<Rightarrow> u32" where "CMAC_ADPT_OFFSET_RX_PKT_DROP i \<equiv> CMAC_ADPT_OFFSET i + 0x30"
abbreviation (input) CMAC_ADPT_OFFSET_RX_PKT_ERROR :: "u32 \<Rightarrow> u32" where "CMAC_ADPT_OFFSET_RX_PKT_ERROR i \<equiv> CMAC_ADPT_OFFSET i + 0x40"

abbreviation (input) QDMA_FUNC_OFFSET_HASH_KEY :: "u32 \<Rightarrow> u32 \<Rightarrow> u32" where "QDMA_FUNC_OFFSET_HASH_KEY i k \<equiv> (QDMA_FUNC_OFFSET i) + 0x600 + (k * 4)"
abbreviation (input) INDIRECTION_TABLE_SIZE :: nat where "INDIRECTION_TABLE_SIZE \<equiv> 0x80"
abbreviation (input) ONIC_EN_RSS_KEY_SIZE :: nat where "ONIC_EN_RSS_KEY_SIZE \<equiv> 40"

end
