(* ===== verification/Ethtool.thy ===== *)
theory Ethtool
  imports Hardware Cmac_Regs Stats
begin

text \<open>
  \<^verbatim>\<open>onic_ethtool.c\<close>: statistics, link state and the receive hash of a PF. The table of statistics names a
  register of either CMAC or a counter of the queues. Loops over the queues dereference every entry of the queue
  tables, which are empty while the device is down: such an access is the result \<open>None\<close>.
\<close>

abbreviation (input) ETH_GSTRING_LEN :: nat where "ETH_GSTRING_LEN \<equiv> 32"
abbreviation (input) ETH_RSS_HASH_NO_CHANGE :: u8 where "ETH_RSS_HASH_NO_CHANGE \<equiv> 0"
abbreviation (input) ETH_RSS_HASH_TOP :: u8 where "ETH_RSS_HASH_TOP \<equiv> 1"
abbreviation (input) ETHTOOL_GRXRINGS :: u32 where "ETHTOOL_GRXRINGS \<equiv> 0x2D"

section \<open>The statistics\<close>

datatype stat_kind = NETDEV_STATS | ONIC_STATS

abbreviation (input) ETHTOOL_XDP_REDIRECT :: u32 where "ETHTOOL_XDP_REDIRECT \<equiv> 0"
abbreviation (input) ETHTOOL_XDP_PASS :: u32 where "ETHTOOL_XDP_PASS \<equiv> 1"
abbreviation (input) ETHTOOL_XDP_DROP :: u32 where "ETHTOOL_XDP_DROP \<equiv> 2"
abbreviation (input) ETHTOOL_XDP_TX :: u32 where "ETHTOOL_XDP_TX \<equiv> 3"
abbreviation (input) ETHTOOL_XDP_TX_ERR :: u32 where "ETHTOOL_XDP_TX_ERR \<equiv> 4"
abbreviation (input) ETHTOOL_XDP_XMIT :: u32 where "ETHTOOL_XDP_XMIT \<equiv> 5"
abbreviation (input) ETHTOOL_XDP_XMIT_ERR :: u32 where "ETHTOOL_XDP_XMIT_ERR \<equiv> 6"

record onic_stats =
  stat_string :: string
  stat_type :: stat_kind
  sizeof_stat :: nat
  stat0_offset :: u32
  stat1_offset :: u32

definition STAT_ONIC :: "string \<Rightarrow> u32 \<Rightarrow> u32 \<Rightarrow> onic_stats" where
  "STAT_ONIC name stat0 stat1 = \<lparr>stat_string = name, stat_type = ONIC_STATS, sizeof_stat = 4,
     stat0_offset = stat0, stat1_offset = stat1\<rparr>"

definition STAT_NETDEV :: "string \<Rightarrow> u32 \<Rightarrow> onic_stats" where
  "STAT_NETDEV name stat = \<lparr>stat_string = name, stat_type = NETDEV_STATS, sizeof_stat = 8,
     stat0_offset = stat, stat1_offset = stat\<rparr>"

text \<open>The array \<^verbatim>\<open>onic_gstrings_stats\<close>, in four parts.\<close>

definition tx_gstrings :: "onic_stats list" where
  "tx_gstrings = [
     STAT_ONIC ''stat_tx_total_pkts'' (CMAC_OFFSET_STAT_TX_TOTAL_PKTS 0) (CMAC_OFFSET_STAT_TX_TOTAL_PKTS 1),
     STAT_ONIC ''stat_tx_total_good_pkts'' (CMAC_OFFSET_STAT_TX_TOTAL_GOOD_PKTS 0) (CMAC_OFFSET_STAT_TX_TOTAL_GOOD_PKTS 1),
     STAT_ONIC ''stat_tx_total_bytes'' (CMAC_OFFSET_STAT_TX_TOTAL_BYTES 0) (CMAC_OFFSET_STAT_TX_TOTAL_BYTES 1),
     STAT_ONIC ''stat_tx_total_good_bytes'' (CMAC_OFFSET_STAT_TX_TOTAL_GOOD_BYTES 0) (CMAC_OFFSET_STAT_TX_TOTAL_GOOD_BYTES 1),
     STAT_ONIC ''stat_tx_pkt_64_bytes'' (CMAC_OFFSET_STAT_TX_PKT_64_BYTES 0) (CMAC_OFFSET_STAT_TX_PKT_64_BYTES 1),
     STAT_ONIC ''stat_tx_pkt_65_127_bytes'' (CMAC_OFFSET_STAT_TX_PKT_65_127_BYTES 0) (CMAC_OFFSET_STAT_TX_PKT_65_127_BYTES 1),
     STAT_ONIC ''stat_tx_pkt_128_255_bytes'' (CMAC_OFFSET_STAT_TX_PKT_128_255_BYTES 0) (CMAC_OFFSET_STAT_TX_PKT_128_255_BYTES 1),
     STAT_ONIC ''stat_tx_pkt_256_511_bytes'' (CMAC_OFFSET_STAT_TX_PKT_256_511_BYTES 0) (CMAC_OFFSET_STAT_TX_PKT_256_511_BYTES 1),
     STAT_ONIC ''stat_tx_pkt_512_1023_bytes'' (CMAC_OFFSET_STAT_TX_PKT_512_1023_BYTES 0) (CMAC_OFFSET_STAT_TX_PKT_512_1023_BYTES 1),
     STAT_ONIC ''stat_tx_pkt_1024_1518_bytes'' (CMAC_OFFSET_STAT_TX_PKT_1024_1518_BYTES 0) (CMAC_OFFSET_STAT_TX_PKT_1024_1518_BYTES 1),
     STAT_ONIC ''stat_tx_pkt_1519_1522_bytes'' (CMAC_OFFSET_STAT_TX_PKT_1519_1522_BYTES 0) (CMAC_OFFSET_STAT_TX_PKT_1519_1522_BYTES 1),
     STAT_ONIC ''stat_tx_pkt_1523_1548_bytes'' (CMAC_OFFSET_STAT_TX_PKT_1523_1548_BYTES 0) (CMAC_OFFSET_STAT_TX_PKT_1523_1548_BYTES 1),
     STAT_ONIC ''stat_tx_pkt_1549_2047_bytes'' (CMAC_OFFSET_STAT_TX_PKT_1549_2047_BYTES 0) (CMAC_OFFSET_STAT_TX_PKT_1549_2047_BYTES 1),
     STAT_ONIC ''stat_tx_pkt_2048_4095_bytes'' (CMAC_OFFSET_STAT_TX_PKT_2048_4095_BYTES 0) (CMAC_OFFSET_STAT_TX_PKT_2048_4095_BYTES 1),
     STAT_ONIC ''stat_tx_pkt_4096_8191_bytes'' (CMAC_OFFSET_STAT_TX_PKT_4096_8191_BYTES 0) (CMAC_OFFSET_STAT_TX_PKT_4096_8191_BYTES 1),
     STAT_ONIC ''stat_tx_pkt_8192_9215_bytes'' (CMAC_OFFSET_STAT_TX_PKT_8192_9215_BYTES 0) (CMAC_OFFSET_STAT_TX_PKT_8192_9215_BYTES 1),
     STAT_ONIC ''stat_tx_pkt_large'' (CMAC_OFFSET_STAT_TX_PKT_LARGE 0) (CMAC_OFFSET_STAT_TX_PKT_LARGE 1),
     STAT_ONIC ''stat_tx_pkt_small'' (CMAC_OFFSET_STAT_TX_PKT_SMALL 0) (CMAC_OFFSET_STAT_TX_PKT_SMALL 1),
     STAT_ONIC ''stat_tx_bad_fcs'' (CMAC_OFFSET_STAT_TX_BAD_FCS 0) (CMAC_OFFSET_STAT_TX_BAD_FCS 1),
     STAT_ONIC ''stat_tx_unicast'' (CMAC_OFFSET_STAT_TX_UNICAST 0) (CMAC_OFFSET_STAT_TX_UNICAST 1),
     STAT_ONIC ''stat_tx_multicast'' (CMAC_OFFSET_STAT_TX_MULTICAST 0) (CMAC_OFFSET_STAT_TX_MULTICAST 1),
     STAT_ONIC ''stat_tx_broadcast'' (CMAC_OFFSET_STAT_TX_BROADCAST 0) (CMAC_OFFSET_STAT_TX_BROADCAST 1),
     STAT_ONIC ''stat_tx_vlan'' (CMAC_OFFSET_STAT_TX_VLAN 0) (CMAC_OFFSET_STAT_TX_VLAN 1),
     STAT_ONIC ''stat_tx_pause'' (CMAC_OFFSET_STAT_TX_PAUSE 0) (CMAC_OFFSET_STAT_TX_PAUSE 1),
     STAT_ONIC ''stat_tx_user_pause'' (CMAC_OFFSET_STAT_TX_USER_PAUSE 0) (CMAC_OFFSET_STAT_TX_USER_PAUSE 1)]"

definition rx_gstrings :: "onic_stats list" where
  "rx_gstrings = [
     STAT_ONIC ''stat_rx_total_pkts'' (CMAC_OFFSET_STAT_RX_TOTAL_PKTS 0) (CMAC_OFFSET_STAT_RX_TOTAL_PKTS 1),
     STAT_ONIC ''stat_rx_total_good_pkts'' (CMAC_OFFSET_STAT_RX_TOTAL_GOOD_PKTS 0) (CMAC_OFFSET_STAT_RX_TOTAL_GOOD_PKTS 1),
     STAT_ONIC ''stat_rx_total_bytes'' (CMAC_OFFSET_STAT_RX_TOTAL_BYTES 0) (CMAC_OFFSET_STAT_RX_TOTAL_BYTES 1),
     STAT_ONIC ''stat_rx_total_good_bytes'' (CMAC_OFFSET_STAT_RX_TOTAL_GOOD_BYTES 0) (CMAC_OFFSET_STAT_RX_TOTAL_GOOD_BYTES 1),
     STAT_ONIC ''stat_rx_pkt_64_bytes'' (CMAC_OFFSET_STAT_RX_PKT_64_BYTES 0) (CMAC_OFFSET_STAT_RX_PKT_64_BYTES 1),
     STAT_ONIC ''stat_rx_pkt_65_127_bytes'' (CMAC_OFFSET_STAT_RX_PKT_65_127_BYTES 0) (CMAC_OFFSET_STAT_RX_PKT_65_127_BYTES 1),
     STAT_ONIC ''stat_rx_pkt_128_255_bytes'' (CMAC_OFFSET_STAT_RX_PKT_128_255_BYTES 0) (CMAC_OFFSET_STAT_RX_PKT_128_255_BYTES 1),
     STAT_ONIC ''stat_rx_pkt_256_511_bytes'' (CMAC_OFFSET_STAT_RX_PKT_256_511_BYTES 0) (CMAC_OFFSET_STAT_RX_PKT_256_511_BYTES 1),
     STAT_ONIC ''stat_rx_pkt_512_1023_bytes'' (CMAC_OFFSET_STAT_RX_PKT_512_1023_BYTES 0) (CMAC_OFFSET_STAT_RX_PKT_512_1023_BYTES 1),
     STAT_ONIC ''stat_rx_pkt_1024_1518_bytes'' (CMAC_OFFSET_STAT_RX_PKT_1024_1518_BYTES 0) (CMAC_OFFSET_STAT_RX_PKT_1024_1518_BYTES 1),
     STAT_ONIC ''stat_rx_pkt_1519_1522_bytes'' (CMAC_OFFSET_STAT_RX_PKT_1519_1522_BYTES 0) (CMAC_OFFSET_STAT_RX_PKT_1519_1522_BYTES 1),
     STAT_ONIC ''stat_rx_pkt_1523_1548_bytes'' (CMAC_OFFSET_STAT_RX_PKT_1523_1548_BYTES 0) (CMAC_OFFSET_STAT_RX_PKT_1523_1548_BYTES 1),
     STAT_ONIC ''stat_rx_pkt_1549_2047_bytes'' (CMAC_OFFSET_STAT_RX_PKT_1549_2047_BYTES 0) (CMAC_OFFSET_STAT_RX_PKT_1549_2047_BYTES 1),
     STAT_ONIC ''stat_rx_pkt_2048_4095_bytes'' (CMAC_OFFSET_STAT_RX_PKT_2048_4095_BYTES 0) (CMAC_OFFSET_STAT_RX_PKT_2048_4095_BYTES 1),
     STAT_ONIC ''stat_rx_pkt_4096_8191_bytes'' (CMAC_OFFSET_STAT_RX_PKT_4096_8191_BYTES 0) (CMAC_OFFSET_STAT_RX_PKT_4096_8191_BYTES 1),
     STAT_ONIC ''stat_rx_pkt_8192_9215_bytes'' (CMAC_OFFSET_STAT_RX_PKT_8192_9215_BYTES 0) (CMAC_OFFSET_STAT_RX_PKT_8192_9215_BYTES 1),
     STAT_ONIC ''stat_rx_pkt_large'' (CMAC_OFFSET_STAT_RX_PKT_LARGE 0) (CMAC_OFFSET_STAT_RX_PKT_LARGE 1),
     STAT_ONIC ''stat_rx_pkt_small'' (CMAC_OFFSET_STAT_RX_PKT_SMALL 0) (CMAC_OFFSET_STAT_RX_PKT_SMALL 1),
     STAT_ONIC ''stat_rx_undersize'' (CMAC_OFFSET_STAT_RX_UNDERSIZE 0) (CMAC_OFFSET_STAT_RX_UNDERSIZE 1),
     STAT_ONIC ''stat_rx_fragment'' (CMAC_OFFSET_STAT_RX_FRAGMENT 0) (CMAC_OFFSET_STAT_RX_FRAGMENT 1),
     STAT_ONIC ''stat_rx_oversize'' (CMAC_OFFSET_STAT_RX_OVERSIZE 0) (CMAC_OFFSET_STAT_RX_OVERSIZE 1),
     STAT_ONIC ''stat_rx_toolong'' (CMAC_OFFSET_STAT_RX_TOOLONG 0) (CMAC_OFFSET_STAT_RX_TOOLONG 1),
     STAT_ONIC ''stat_rx_jabber'' (CMAC_OFFSET_STAT_RX_JABBER 0) (CMAC_OFFSET_STAT_RX_JABBER 1),
     STAT_ONIC ''stat_rx_bad_fcs'' (CMAC_OFFSET_STAT_RX_BAD_FCS 0) (CMAC_OFFSET_STAT_RX_BAD_FCS 1),
     STAT_ONIC ''stat_rx_pkt_bad_fcs'' (CMAC_OFFSET_STAT_RX_PKT_BAD_FCS 0) (CMAC_OFFSET_STAT_RX_PKT_BAD_FCS 1),
     STAT_ONIC ''stat_rx_stomped_fcs'' (CMAC_OFFSET_STAT_RX_STOMPED_FCS 0) (CMAC_OFFSET_STAT_RX_STOMPED_FCS 1),
     STAT_ONIC ''stat_rx_unicast'' (CMAC_OFFSET_STAT_RX_UNICAST 0) (CMAC_OFFSET_STAT_RX_UNICAST 1),
     STAT_ONIC ''stat_rx_multicast'' (CMAC_OFFSET_STAT_RX_MULTICAST 0) (CMAC_OFFSET_STAT_RX_MULTICAST 1),
     STAT_ONIC ''stat_rx_broadcast'' (CMAC_OFFSET_STAT_RX_BROADCAST 0) (CMAC_OFFSET_STAT_RX_BROADCAST 1),
     STAT_ONIC ''stat_rx_vlan'' (CMAC_OFFSET_STAT_RX_VLAN 0) (CMAC_OFFSET_STAT_RX_VLAN 1),
     STAT_ONIC ''stat_rx_pause'' (CMAC_OFFSET_STAT_RX_PAUSE 0) (CMAC_OFFSET_STAT_RX_PAUSE 1),
     STAT_ONIC ''stat_rx_user_pause'' (CMAC_OFFSET_STAT_RX_USER_PAUSE 0) (CMAC_OFFSET_STAT_RX_USER_PAUSE 1),
     STAT_ONIC ''stat_rx_inrangeerr'' (CMAC_OFFSET_STAT_RX_INRANGEERR 0) (CMAC_OFFSET_STAT_RX_INRANGEERR 1),
     STAT_ONIC ''stat_rx_truncated'' (CMAC_OFFSET_STAT_RX_TRUNCATED 0) (CMAC_OFFSET_STAT_RX_TRUNCATED 1)]"

definition adapt_gstrings :: "onic_stats list" where
  "adapt_gstrings = [
     STAT_ONIC ''stat_adapt_tx_sent'' (CMAC_ADPT_OFFSET_TX_PKT_RECV 0) (CMAC_ADPT_OFFSET_TX_PKT_RECV 1),
     STAT_ONIC ''stat_adapt_tx_drop'' (CMAC_ADPT_OFFSET_TX_PKT_DROP 0) (CMAC_ADPT_OFFSET_TX_PKT_DROP 1),
     STAT_ONIC ''stat_adapt_rx_recv'' (CMAC_ADPT_OFFSET_RX_PKT_RECV 0) (CMAC_ADPT_OFFSET_RX_PKT_RECV 1),
     STAT_ONIC ''stat_adapt_rx_drop'' (CMAC_ADPT_OFFSET_RX_PKT_DROP 0) (CMAC_ADPT_OFFSET_RX_PKT_DROP 1),
     STAT_ONIC ''stat_adapt_rx_error'' (CMAC_ADPT_OFFSET_RX_PKT_ERROR 0) (CMAC_ADPT_OFFSET_RX_PKT_ERROR 1)]"

definition netdev_gstrings :: "onic_stats list" where
  "netdev_gstrings = [
     STAT_NETDEV ''rx_xdp_redirect'' ETHTOOL_XDP_REDIRECT,
     STAT_NETDEV ''rx_xdp_pass'' ETHTOOL_XDP_PASS,
     STAT_NETDEV ''rx_xdp_drop'' ETHTOOL_XDP_DROP,
     STAT_NETDEV ''rx_xdp_tx'' ETHTOOL_XDP_TX,
     STAT_NETDEV ''rx_xdp_tx_errors'' ETHTOOL_XDP_TX_ERR,
     STAT_NETDEV ''tx_xdp_xmit'' ETHTOOL_XDP_XMIT,
     STAT_NETDEV ''tx_xdp_xmit_errors'' ETHTOOL_XDP_XMIT_ERR]"

definition onic_gstrings_stats :: "onic_stats list" where
  "onic_gstrings_stats = tx_gstrings @ rx_gstrings @ adapt_gstrings @ netdev_gstrings"

text \<open>The sums over the queues; \<open>None\<close> when an entry is NULL.\<close>

record xdp_totals =
  xt_rx :: xdp_rx_stats
  xt_xmit :: u64
  xt_xmit_err :: u64

definition add_rx_stats :: "onic_rx_queue \<Rightarrow> xdp_totals \<Rightarrow> xdp_totals" where
  "add_rx_stats q t =
     (let a = xt_rx t; b = rq_xdp_stats q
      in t\<lparr>xt_rx := \<lparr>xs_redirect = xs_redirect a + xs_redirect b, xs_pass = xs_pass a + xs_pass b,
           xs_drop = xs_drop a + xs_drop b, xs_tx = xs_tx a + xs_tx b, xs_tx_err = xs_tx_err a + xs_tx_err b\<rparr>\<rparr>)"

definition add_tx_stats :: "onic_tx_queue \<Rightarrow> xdp_totals \<Rightarrow> xdp_totals" where
  "add_tx_stats q t = t\<lparr>xt_xmit := xt_xmit t + tq_xdp_xmit q, xt_xmit_err := xt_xmit_err t + tq_xdp_xmit_err q\<rparr>"

fun sum_queues :: "(nat \<Rightarrow> 'q option) \<Rightarrow> ('q \<Rightarrow> 'a \<Rightarrow> 'a) \<Rightarrow> nat list \<Rightarrow> 'a \<Rightarrow> 'a option" where
  "sum_queues table f [] t = Some t"
| "sum_queues table f (j # js) t = (case table j of None \<Rightarrow> None | Some q \<Rightarrow> sum_queues table f js (f q t))"

definition global_xdp_stats :: "onic_private \<Rightarrow> xdp_totals option" where
  "global_xdp_stats p =
     (case sum_queues (pr_rx_queue p) add_rx_stats [0..<unat (pr_num_rx_queues p)]
        \<lparr>xt_rx = zero_xdp_stats, xt_xmit = 0, xt_xmit_err = 0\<rparr> of
        None \<Rightarrow> None
      | Some t \<Rightarrow> sum_queues (pr_tx_queue p) add_tx_stats [0..<unat (pr_num_tx_queues p)] t)"

definition netdev_stat :: "xdp_totals \<Rightarrow> u32 \<Rightarrow> u64" where
  "netdev_stat t i =
     (if i = ETHTOOL_XDP_REDIRECT then xs_redirect (xt_rx t) else if i = ETHTOOL_XDP_PASS then xs_pass (xt_rx t)
      else if i = ETHTOOL_XDP_DROP then xs_drop (xt_rx t) else if i = ETHTOOL_XDP_TX then xs_tx (xt_rx t)
      else if i = ETHTOOL_XDP_TX_ERR then xs_tx_err (xt_rx t) else if i = ETHTOOL_XDP_XMIT then xt_xmit t
      else xt_xmit_err t)"

definition read_stat :: "onic_hardware \<Rightarrow> u16 \<Rightarrow> xdp_totals \<Rightarrow> onic_stats \<Rightarrow> ('z, u64) drv" where
  "read_stat hw func_id t st =
     (case stat_type st of
        ONIC_STATS \<Rightarrow> do {
          r \<leftarrow> onic_read_reg hw (if func_id = 0 then stat0_offset st else stat1_offset st);
          ret (ucast r) }
      | NETDEV_STATS \<Rightarrow> ret (netdev_stat t (stat0_offset st)))"

definition onic_get_ethtool_stats :: "u64 list option onic" where
  "onic_get_ethtool_stats = do {
     p \<leftarrow> get_priv;
     let hw = pr_hw p;
     case global_xdp_stats p of
       None \<Rightarrow> ret None
     | Some t \<Rightarrow> do {
         let func_id = PCI_FUNC (pr_devfn p);
         (if func_id = 0 then onic_write_reg hw (CMAC_OFFSET_TICK 0) 1 else onic_write_reg hw (CMAC_OFFSET_TICK 1) 1);
         stats \<leftarrow> for_each_acc onic_gstrings_stats (\<lambda>st l. do {
           v \<leftarrow> read_stat hw func_id t st;
           ret (l @ [v]) }) [];
         ret (Some stats) } }"

text \<open>The name as the 32 bytes of \<^verbatim>\<open>stat_string\<close>.\<close>

definition gstring :: "string \<Rightarrow> string" where
  "gstring name = take ETH_GSTRING_LEN (name @ replicate ETH_GSTRING_LEN (CHR 0x00))"

definition onic_get_strings :: string where
  "onic_get_strings = concat (map (gstring \<circ> stat_string) onic_gstrings_stats)"

definition onic_get_sset_count :: "int \<Rightarrow> int" where
  "onic_get_sset_count sset = int (length onic_gstrings_stats) + 0"

section \<open>Driver information\<close>

abbreviation (input) ETHTOOL_BUSINFO_LEN :: nat where "ETHTOOL_BUSINFO_LEN \<equiv> 32"

text \<open>\<^verbatim>\<open>strscpy\<close> truncates and always ends the copy with a zero byte.\<close>

definition strscpy :: "string \<Rightarrow> nat \<Rightarrow> string" where
  "strscpy src count = take (count - 1) (takeWhile (\<lambda>c. c \<noteq> CHR 0x00) src) @ [CHR 0x00]"

record ethtool_drvinfo =
  di_driver :: string
  di_version :: string
  di_bus_info :: string

definition onic_drv_name :: string where "onic_drv_name = ''onic_pf''"
definition onic_drv_ver :: string where "onic_drv_ver = ''0.21''"

definition onic_get_drvinfo :: "string \<Rightarrow> ethtool_drvinfo" where
  "onic_get_drvinfo pci_name = \<lparr>di_driver = strscpy onic_drv_name 32, di_version = strscpy onic_drv_ver 32,
     di_bus_info = strscpy pci_name ETHTOOL_BUSINFO_LEN\<rparr>"

text \<open>Every string fits its field and ends inside it; the name of the driver and its version are whole.\<close>

lemma drvinfo_fits:
  "length (di_bus_info (onic_get_drvinfo n)) \<le> 32 \<and> last (di_bus_info (onic_get_drvinfo n)) = CHR 0x00"
  "di_driver (onic_get_drvinfo n) = ''onic_pf'' @ [CHR 0x00]" "di_version (onic_get_drvinfo n) = ''0.21'' @ [CHR 0x00]"
  by (simp_all add: onic_get_drvinfo_def strscpy_def onic_drv_name_def onic_drv_ver_def)

section \<open>Link\<close>

definition onic_get_link :: "u32 onic" where
  "onic_get_link = do {
     p \<leftarrow> get_priv;
     let cmac_idx = (if bit (pr_flags p) ONIC_FLAG_MASTER_PF then 0 else 1);
     _ \<leftarrow> onic_read_reg (pr_hw p) (CMAC_OFFSET_STAT_RX_STATUS cmac_idx);
     val \<leftarrow> onic_read_reg (pr_hw p) (CMAC_OFFSET_STAT_RX_STATUS cmac_idx);
     carrier_ok \<leftarrow> perform (Net Netif_carrier_ok);
     ret (if carrier_ok \<noteq> 0 \<and> val = 0x3 then 1 else 0) }"

section \<open>Receive hash\<close>

definition onic_get_rxfh_indir_size :: u32 where "onic_get_rxfh_indir_size = of_nat INDIRECTION_TABLE_SIZE"
definition onic_get_rxfh_key_size :: u32 where "onic_get_rxfh_key_size = of_nat ONIC_EN_RSS_KEY_SIZE"

text \<open>\<^verbatim>\<open>memcpy\<close> between a word and four bytes, little-endian.\<close>

definition word_bytes :: "u32 \<Rightarrow> u8 list" where
  "word_bytes w = [ucast w, ucast (drop_bit 8 w), ucast (drop_bit 16 w), ucast (drop_bit 24 w)]"

definition bytes_word :: "u8 list \<Rightarrow> u32" where
  "bytes_word b = ucast (b ! 0) OR push_bit 8 (ucast (b ! 1)) OR push_bit 16 (ucast (b ! 2)) OR push_bit 24 (ucast (b ! 3))"

definition indir_reg :: "u16 \<Rightarrow> nat \<Rightarrow> u32" where
  "indir_reg func_id i = QDMA_FUNC_OFFSET_INDIR_TABLE (ucast func_id) (of_nat i)"

definition key_reg :: "u16 \<Rightarrow> nat \<Rightarrow> u32" where
  "key_reg func_id i = QDMA_FUNC_OFFSET_HASH_KEY (ucast func_id) (of_nat i)"

text \<open>The two flags say which of the pointers \<^verbatim>\<open>ring_index\<close> and \<^verbatim>\<open>key\<close> are given.\<close>

definition onic_get_rxfh :: "bool \<Rightarrow> bool \<Rightarrow> (int \<times> u32 list option \<times> u8 list option \<times> u8) onic" where
  "onic_get_rxfh want_index want_key = do {
     p \<leftarrow> get_priv;
     let func_id = PCI_FUNC (pr_devfn p);
     ring_index \<leftarrow> (if want_index
       then do {
         l \<leftarrow> for_each_acc [0..<INDIRECTION_TABLE_SIZE] (\<lambda>i l. do {
           r \<leftarrow> onic_read_reg (pr_hw p) (indir_reg func_id i);
           ret (l @ [0xFFFF AND r]) }) [];
         ret (Some l) }
       else ret None);
     key \<leftarrow> (if want_key
       then do {
         l \<leftarrow> for_each_acc [0..<ONIC_EN_RSS_KEY_SIZE div 4] (\<lambda>i l. do {
           r \<leftarrow> onic_read_reg (pr_hw p) (key_reg func_id i);
           ret (l @ word_bytes r) }) [];
         ret (Some l) }
       else ret None);
     ret (0, ring_index, key, ETH_RSS_HASH_TOP) }"

definition set_indir :: "onic_private \<Rightarrow> u32 list \<Rightarrow> nat \<Rightarrow> ('z, int) drv" where
  "set_indir p ring_index i =
     (if ring_index ! i \<ge> ucast (pr_num_rx_queues p) then ret (- EINVAL)
      else do {
        onic_write_reg (pr_hw p) (indir_reg (PCI_FUNC (pr_devfn p)) i) (ring_index ! i);
        ret 0 })"

definition set_key :: "onic_private \<Rightarrow> u8 list \<Rightarrow> ('z, unit) drv" where
  "set_key p key = for_each [0..<ONIC_EN_RSS_KEY_SIZE div 4] (\<lambda>i.
     onic_write_reg (pr_hw p) (key_reg (PCI_FUNC (pr_devfn p)) i) (bytes_word (drop (i * 4) key)))"

definition onic_set_rxfh :: "u32 list option \<Rightarrow> u8 list option \<Rightarrow> u8 \<Rightarrow> int onic" where
  "onic_set_rxfh ring_index key hfunc = do {
     p \<leftarrow> get_priv;
     if hfunc \<noteq> ETH_RSS_HASH_NO_CHANGE \<and> hfunc \<noteq> ETH_RSS_HASH_TOP then ret (- EOPNOTSUPP)
     else do {
       (err, _) \<leftarrow> (case ring_index of
         None \<Rightarrow> ret (0, [])
       | Some l \<Rightarrow> for_until [0..<INDIRECTION_TABLE_SIZE] (set_indir p l));
       if err \<noteq> 0 then ret err
       else do {
         (case key of None \<Rightarrow> ret () | Some k \<Rightarrow> set_key p k);
         ret 0 } } }"

text \<open>The same two from kernel 6.8 on, with their arguments in one struct.\<close>

record ethtool_rxfh_param =
  rp_indir :: "u32 list option"
  rp_key :: "u8 list option"
  rp_hfunc :: u8

definition onic_set_rxfh_new :: "ethtool_rxfh_param \<Rightarrow> int onic" where
  "onic_set_rxfh_new prm = onic_set_rxfh (rp_indir prm) (rp_key prm) (rp_hfunc prm)"

definition onic_get_rxfh_new :: "ethtool_rxfh_param \<Rightarrow> (int \<times> ethtool_rxfh_param) onic" where
  "onic_get_rxfh_new prm = do {
     (rv, indir, key, hfunc) \<leftarrow> onic_get_rxfh (rp_indir prm \<noteq> None) (rp_key prm \<noteq> None);
     ret (rv, \<lparr>rp_indir = indir, rp_key = key, rp_hfunc = hfunc\<rparr>) }"

text \<open>The answer to \<^verbatim>\<open>ETHTOOL_GRXRINGS\<close> is in \<^verbatim>\<open>info->data\<close>.\<close>

definition onic_get_rxnfc :: "u32 \<Rightarrow> (int \<times> u64 option) onic" where
  "onic_get_rxnfc cmd = do {
     p \<leftarrow> get_priv;
     if cmd = ETHTOOL_GRXRINGS then ret (0, Some (ucast (pr_num_rx_queues p)))
     else ret (- EOPNOTSUPP, None) }"

section \<open>The registers as the card keeps them\<close>

text \<open>The value last written to each register of the mapping at \<open>b\<close>.\<close>

fun reg_step :: "ptr \<Rightarrow> event \<Rightarrow> (u32 \<Rightarrow> u32 option) \<Rightarrow> u32 \<Rightarrow> u32 option" where
  "reg_step b (Io (Iowrite32 v b' off), r) m = (if b' = b then m(off \<mapsto> v) else m)"
| "reg_step b _ m = m"

definition reg_store :: "ptr \<Rightarrow> event list \<Rightarrow> u32 \<Rightarrow> u32 option" where
  "reg_store b tr = fold (reg_step b) tr (\<lambda>_. None)"

definition reg_quiet :: "event \<Rightarrow> bool" where
  "reg_quiet e \<longleftrightarrow> (case fst e of Io (Iowrite32 v b off) \<Rightarrow> False | _ \<Rightarrow> True)"

interpretation regv: trace_view "reg_step b" "\<lambda>_. None" "reg_store b" reg_quiet for b
proof unfold_locales
  show "reg_step b e d = d" if "reg_quiet e" for e d
    using that by (induction b e d rule: reg_step.induct) (auto simp: reg_quiet_def)
qed (simp add: reg_store_def)

text \<open>
  The card behind a state keeps the registers of a set \<open>K\<close>: a read answers the value last written. This is
  what the shell documents of its indirection table and hash key.
\<close>

definition keeps_regs :: "ptr \<Rightarrow> u32 set \<Rightarrow> drv_state \<Rightarrow> bool" where
  "keeps_regs b K s \<longleftrightarrow> (\<forall>tr off v. off \<in> K \<and> reg_store b tr off = Some v \<longrightarrow> ext s tr (Io (Ioread32 b off)) = uint v)"

lemma write_regs:
  assumes "map fst evs = map (\<lambda>i. Io (Iowrite32 (f i) b (off i))) xs" "inj_on off (set xs)" "i \<in> set xs"
  shows "reg_store b (tr @ evs) (off i) = Some (f i)"
  using assms
proof (induction xs arbitrary: evs tr)
  case (Cons x xs)
  from Cons.prems(1) obtain r es where evs: "evs = (Io (Iowrite32 (f x) b (off x)), r) # es"
    "map fst es = map (\<lambda>i. Io (Iowrite32 (f i) b (off i))) xs" by auto
  let ?tr = "tr @ [(Io (Iowrite32 (f x) b (off x)), r)]"
  show ?case
  proof (cases "i \<in> set xs")
    case True
    with Cons.IH [OF evs(2), of ?tr] Cons.prems(2) evs(1) show ?thesis by simp
  next
    case False
    then have i: "i = x" "off x \<notin> off ` set xs" using Cons.prems(2,3) by (auto dest: inj_onD)
    have "fold (reg_step b) es m (off x) = m (off x)" if "off x \<notin> off ` set xs" for m
      using evs(2) that
    proof (induction xs arbitrary: es m)
      case (Cons y ys)
      then obtain r' es' where "es = (Io (Iowrite32 (f y) b (off y)), r') # es'"
        "map fst es' = map (\<lambda>i. Io (Iowrite32 (f i) b (off i))) ys" by auto
      with Cons show ?case by simp
    qed simp
    with i show ?thesis by (simp add: evs(1) regv.view_append)
  qed
qed simp

lemma other_regs:
  assumes "map fst evs = map (\<lambda>i. Io (Iowrite32 (f i) b (off i))) xs" "k \<notin> off ` set xs"
  shows "reg_store b (tr @ evs) k = reg_store b tr k"
  using assms
proof (induction xs arbitrary: evs tr)
  case (Cons x xs)
  then obtain r es where evs: "evs = (Io (Iowrite32 (f x) b (off x)), r) # es"
    "map fst es = map (\<lambda>i. Io (Iowrite32 (f i) b (off i))) xs" by auto
  with Cons.IH [OF evs(2), of "tr @ [(Io (Iowrite32 (f x) b (off x)), r)]"] Cons.prems(2)
  show ?case by (simp add: regv.view_append)
qed simp

section \<open>Writing the receive hash\<close>

lemma indir_regs: "indir_reg f i = QDMA_FUNC_OFFSET (ucast f) + of_nat (0x400 + i * 4)"
  by (simp add: indir_reg_def)

lemma key_regs: "key_reg f i = QDMA_FUNC_OFFSET (ucast f) + of_nat (0x600 + i * 4)"
  by (simp add: key_reg_def)

lemma of_nat_32_inj: "a < 4294967296 \<Longrightarrow> b < 4294967296 \<Longrightarrow> (of_nat a :: u32) = of_nat b \<longleftrightarrow> a = b"
  using word_of_nat_eq_iff [where 'a = 32, of a b] by (simp add: take_bit_eq_mod)

lemma rss_regs_distinct:
  assumes "i < 128" "j < 10"
  shows "indir_reg f i \<noteq> key_reg f j"
proof -
  have "0x400 + i * 4 \<noteq> 0x600 + j * 4" using assms by linarith
  then have "(of_nat (0x400 + i * 4) :: u32) \<noteq> of_nat (0x600 + j * 4)"
    using assms by (subst of_nat_32_inj) simp_all
  then show ?thesis unfolding indir_regs key_regs by simp
qed

lemma rss_inj: "inj_on (indir_reg f) {..<128}" "inj_on (key_reg f) {..<10}"
proof -
  show "inj_on (indir_reg f) {..<128}"
  proof (rule inj_onI)
    fix i j assume "i \<in> {..<128}" "j \<in> {..<128}" "indir_reg f i = indir_reg f j"
    then have "(of_nat (0x400 + i * 4) :: u32) = of_nat (0x400 + j * 4)" unfolding indir_regs by simp
    then show "i = j" using \<open>i \<in> _\<close> \<open>j \<in> _\<close> by (subst (asm) of_nat_32_inj) simp_all
  qed
  show "inj_on (key_reg f) {..<10}"
  proof (rule inj_onI)
    fix i j assume "i \<in> {..<10}" "j \<in> {..<10}" "key_reg f i = key_reg f j"
    then have "(of_nat (0x600 + i * 4) :: u32) = of_nat (0x600 + j * 4)" unfolding key_regs by simp
    then show "i = j" using \<open>i \<in> _\<close> \<open>j \<in> _\<close> by (subst (asm) of_nat_32_inj) simp_all
  qed
qed

text \<open>The entries before the first bad one are written.\<close>

definition indir_writes :: "onic_private \<Rightarrow> u32 list \<Rightarrow> nat list \<Rightarrow> kcall list" where
  "indir_writes p l is = map (\<lambda>i. Io (Iowrite32 (l ! i) (hw_addr (pr_hw p)) (indir_reg (PCI_FUNC (pr_devfn p)) i))) is"

definition index_ok :: "onic_private \<Rightarrow> u32 list \<Rightarrow> nat \<Rightarrow> bool" where
  "index_ok p l i \<longleftrightarrow> l ! i < ucast (pr_num_rx_queues p)"

lemma run_set_indir:
  "run_state (set_indir p l i) s = (let c = Io (Iowrite32 (l ! i) (hw_addr (pr_hw p)) (indir_reg (PCI_FUNC (pr_devfn p)) i))
     in if index_ok p l i then (0, s\<lparr>trace := trace s @ [(c, ext s (trace s) c)]\<rparr>) else (- EINVAL, s))"
  by (simp add: set_indir_def index_ok_def onic_write_reg_def run_simps not_less Let_def)

lemma set_indir_run:
  assumes "run_state (for_until xs (set_indir p l)) s = ((err, rest), s')"
  obtains evs where "s' = s\<lparr>trace := trace s @ evs\<rparr>" "map fst evs = indir_writes p l (takeWhile (index_ok p l) xs)"
    "err = (if \<forall>i\<in>set xs. index_ok p l i then 0 else - EINVAL)"
  using assms
proof (induction xs arbitrary: s thesis)
  case Nil
  then show ?case using Nil.prems(1) [of "[]"] by (simp add: indir_writes_def)
next
  case (Cons x xs)
  show ?case
  proof (cases "index_ok p l x")
    case False
    with Cons.prems(2) have "s' = s" "err = - EINVAL" by (auto simp: run_set_indir)
    with False show ?thesis using Cons.prems(1) [of "[]"] by (simp add: indir_writes_def)
  next
    case True
    let ?c = "Io (Iowrite32 (l ! x) (hw_addr (pr_hw p)) (indir_reg (PCI_FUNC (pr_devfn p)) x))"
    let ?s1 = "s\<lparr>trace := trace s @ [(?c, ext s (trace s) ?c)]\<rparr>"
    have "run_state (for_until xs (set_indir p l)) ?s1 = ((err, rest), s')"
      using Cons.prems(2) True by (simp add: run_set_indir Let_def)
    then show ?thesis
    proof (rule Cons.IH [rotated])
      fix evs
      assume "s' = ?s1\<lparr>trace := trace ?s1 @ evs\<rparr>" "map fst evs = indir_writes p l (takeWhile (index_ok p l) xs)"
        "err = (if \<forall>i\<in>set xs. index_ok p l i then 0 else - EINVAL)"
      with True show thesis
        by (intro Cons.prems(1) [of "(?c, ext s (trace s) ?c) # evs"]) (simp_all add: indir_writes_def)
    qed
  qed
qed

definition key_writes :: "onic_private \<Rightarrow> u8 list \<Rightarrow> nat list \<Rightarrow> kcall list" where
  "key_writes p k is = map (\<lambda>i. Io (Iowrite32 (bytes_word (drop (i * 4) k)) (hw_addr (pr_hw p))
     (key_reg (PCI_FUNC (pr_devfn p)) i))) is"

lemma scripted_set_key: "scripted (set_key p k) (key_writes p k [0..<10])"
proof -
  have "scripted (set_key p k) (concat (map (\<lambda>i. [Io (Iowrite32 (bytes_word (drop (i * 4) k)) (hw_addr (pr_hw p))
     (key_reg (PCI_FUNC (pr_devfn p)) i))]) [0..<ONIC_EN_RSS_KEY_SIZE div 4]))"
    unfolding set_key_def onic_write_reg_def by (intro script_intro)
  then show ?thesis by (rule scripted_eq) (simp add: key_writes_def concat_map_singleton)
qed

section \<open>Reading it back\<close>

lemma word_bytes_word:
  assumes "4 \<le> length b"
  shows "word_bytes (bytes_word b) = take 4 b"
proof -
  obtain a c d e r where "b = a # c # d # e # r"
    using assms by (auto simp: numeral_eq_Suc Suc_le_length_iff)
  then show ?thesis using byte_fields [of a c d e] by (simp add: word_bytes_def bytes_word_def)
qed

lemma read_regs:
  assumes "keeps_regs b K s" "\<And>i. i \<in> set xs \<Longrightarrow> off i \<in> K \<and> reg_store b (trace s) (off i) = Some (f i)" "hw_addr hw = b"
  shows "\<exists>evs. run_state (for_each_acc xs (\<lambda>i l. do { r \<leftarrow> onic_read_reg hw (off i); ret (l @ g r) }) acc) s =
    (acc @ concat (map (g \<circ> f) xs), s\<lparr>trace := trace s @ evs\<rparr>) \<and> list_all reg_quiet evs"
  using assms(1,2)
proof (induction xs arbitrary: s acc)
  case Nil
  then show ?case by (auto intro!: exI [of _ "[]"])
next
  case (Cons x xs)
  let ?c = "Io (Ioread32 b (off x))"
  have v: "ext s (trace s) ?c = uint (f x)" using Cons.prems by (simp add: keeps_regs_def)
  let ?s1 = "s\<lparr>trace := trace s @ [(?c, uint (f x))]\<rparr>"
  have q: "reg_quiet (?c, uint (f x))" by (simp add: reg_quiet_def)
  have "keeps_regs b K ?s1" using Cons.prems(1) by (simp add: keeps_regs_def)
  moreover have "reg_store b (trace ?s1) = reg_store b (trace s)" using regv.view_quiet [of "[(?c, uint (f x))]" b] q by simp
  ultimately obtain evs where
    "run_state (for_each_acc xs (\<lambda>i l. do { r \<leftarrow> onic_read_reg hw (off i); ret (l @ g r) }) (acc @ g (f x))) ?s1 =
      (acc @ g (f x) @ concat (map (g \<circ> f) xs), ?s1\<lparr>trace := trace ?s1 @ evs\<rparr>)" "list_all reg_quiet evs"
    using Cons.IH [of ?s1 "acc @ g (f x)"] Cons.prems(2) by (auto simp: comp_def)
  then show ?case
    using v q by (intro exI [of _ "(?c, uint (f x)) # evs"]) (simp add: onic_read_reg_def run_simps assms(3) comp_def)
qed

lemma get_rxfh_run:
  assumes "keeps_regs b K s" "hw_addr (pr_hw (priv s)) = b" "PCI_FUNC (pr_devfn (priv s)) = func"
    "\<And>i. i < 128 \<Longrightarrow> indir_reg func i \<in> K \<and> reg_store b (trace s) (indir_reg func i) = Some (f i)"
    "\<And>i. i < 10 \<Longrightarrow> key_reg func i \<in> K \<and> reg_store b (trace s) (key_reg func i) = Some (h i)"
  shows "fst (run_state (onic_get_rxfh True True) s) =
    (0, Some (map (\<lambda>i. 0xFFFF AND f i) [0..<128]), Some (concat (map (word_bytes \<circ> h) [0..<10])), ETH_RSS_HASH_TOP)"
proof -
  obtain e1 where 1: "run_state (for_each_acc [0..<128] (\<lambda>i l. do { r \<leftarrow> onic_read_reg (pr_hw (priv s)) (indir_reg func i);
      ret (l @ [0xFFFF AND r]) }) []) s = ([] @ concat (map ((\<lambda>r. [0xFFFF AND r]) \<circ> f) [0..<128]), s\<lparr>trace := trace s @ e1\<rparr>)"
    "list_all reg_quiet e1"
    using read_regs [OF assms(1), where xs = "[0..<128]" and g = "\<lambda>r. [0xFFFF AND r]" and acc = "[]" and off = "indir_reg func" and f = f, OF _ assms(2)]
      assms(4) by auto
  let ?s1 = "s\<lparr>trace := trace s @ e1\<rparr>"
  have k: "keeps_regs b K ?s1" using assms(1) by (simp add: keeps_regs_def)
  have st: "reg_store b (trace ?s1) = reg_store b (trace s)" using regv.view_quiet [OF 1(2)] by simp
  obtain e2 where 2: "run_state (for_each_acc [0..<10] (\<lambda>i l. do { r \<leftarrow> onic_read_reg (pr_hw (priv s)) (key_reg func i);
      ret (l @ word_bytes r) }) []) ?s1 = ([] @ concat (map (word_bytes \<circ> h) [0..<10]), ?s1\<lparr>trace := trace ?s1 @ e2\<rparr>)"
    using read_regs [OF k, where xs = "[0..<10]" and g = word_bytes and acc = "[]" and off = "key_reg func" and f = h, OF _ assms(2)]
      assms(5) st by auto
  show ?thesis
    using 1(1) 2 by (simp add: onic_get_rxfh_def Let_def run_get_priv assms(3) comp_def concat_map_singleton)
qed

section \<open>Properties\<close>

text \<open>PF 0 with four receive queues, on a card that keeps its registers.\<close>

definition rss_pf :: drv_state where
  "rss_pf = \<lparr>ext = (\<lambda>tr c. case c of Io (Ioread32 b off) \<Rightarrow> (case reg_store b tr off of None \<Rightarrow> 0 | Some v \<Rightarrow> uint v) | _ \<Rightarrow> 0),
     trace = [], priv = zero_private\<lparr>pr_num_rx_queues := 4, pr_hw := zero_hardware\<lparr>hw_addr := 0x1000\<rparr>\<rparr>\<rparr>"

text \<open>C32. Setting the receive hash writes the indirection table entry by entry and stops at the first entry that
  names no receive queue. So every entry it writes is below the number of receive queues; it returns 0 exactly
  when all entries are, \<^verbatim>\<open>-EINVAL\<close> otherwise, with the entries in front of the bad one already in the table and
  the key untouched; an unknown hash function is refused before anything is written.\<close>

theorem set_rxfh_writes:
  "case run_state (onic_set_rxfh (Some l) key hfunc) s of (err, s') \<Rightarrow>
     (\<exists>evs. s' = s\<lparr>trace := trace s @ evs\<rparr> \<and>
       (if hfunc \<noteq> 0 \<and> hfunc \<noteq> 1 then err = - EOPNOTSUPP \<and> evs = []
        else if \<forall>i<128. index_ok (priv s) l i
        then err = 0 \<and> map fst evs = indir_writes (priv s) l [0..<128] @
          (case key of None \<Rightarrow> [] | Some k \<Rightarrow> key_writes (priv s) k [0..<10])
        else err = - EINVAL \<and> map fst evs = indir_writes (priv s) l (takeWhile (index_ok (priv s) l) [0..<128])))"
proof -
  obtain err rest s1 where run: "run_state (for_until [0..<INDIRECTION_TABLE_SIZE] (set_indir (priv s) l)) s = ((err, rest), s1)"
    by (metis prod.collapse)
  from run obtain e1 where e1: "s1 = s\<lparr>trace := trace s @ e1\<rparr>"
    "map fst e1 = indir_writes (priv s) l (takeWhile (index_ok (priv s) l) [0..<128])"
    "err = (if \<forall>i\<in>set [0..<128]. index_ok (priv s) l i then 0 else - EINVAL)" by (rule set_indir_run) simp
  show ?thesis
  proof (cases "hfunc \<noteq> 0 \<and> hfunc \<noteq> 1")
    case True
    then show ?thesis by (simp add: onic_set_rxfh_def run_get_priv)
  next
    case False
    show ?thesis
    proof (cases "\<forall>i<128. index_ok (priv s) l i")
      case False
      with e1 run \<open>\<not> (hfunc \<noteq> 0 \<and> hfunc \<noteq> 1)\<close> show ?thesis
        by (auto simp: onic_set_rxfh_def run_get_priv atLeast0LessThan)
    next
      case True
      then have "takeWhile (index_ok (priv s) l) [0..<128] = [0..<128]" by (simp add: takeWhile_eq_all_conv)
      with e1 True have e: "map fst e1 = indir_writes (priv s) l [0..<128]" "err = 0" by auto
      show ?thesis
      proof (cases key)
        case None
        with e e1(1) run True False show ?thesis by (auto simp: onic_set_rxfh_def run_get_priv)
      next
        case (Some k)
        from scriptedD [OF scripted_set_key, where s = s1] obtain e2
          where "run_state (set_key (priv s) k) s1 = ((), s1\<lparr>trace := trace s1 @ e2\<rparr>)" "map fst e2 = key_writes (priv s) k [0..<10]"
          by blast
        with Some e e1(1) run True False show ?thesis
          by (auto simp: onic_set_rxfh_def run_get_priv intro!: exI [of _ "e1 @ e2"])
      qed
    qed
  qed
qed

theorem set_rxfh_writes_witness:
  "fst (run_state (onic_set_rxfh (Some (replicate 128 3)) None 1) rss_pf) = 0 \<and>
   fst (run_state (onic_set_rxfh (Some (replicate 128 4)) None 1) rss_pf) = - EINVAL"
proof -
  have "\<forall>i<128. index_ok (priv rss_pf) (replicate 128 3) i" "\<not> index_ok (priv rss_pf) (replicate 128 4) 0"
    by (simp_all add: index_ok_def rss_pf_def word_less_nat_alt)
  then have "(\<forall>i<128. index_ok (priv rss_pf) (replicate 128 3) i) = True" "(\<forall>i<128. index_ok (priv rss_pf) (replicate 128 4) i) = False"
    by (auto intro!: exI [of _ 0])
  then show ?thesis
    using set_rxfh_writes [where l = "replicate 128 3" and key = None and hfunc = 1 and s = rss_pf]
      set_rxfh_writes [where l = "replicate 128 4" and key = None and hfunc = 1 and s = rss_pf]
    by (simp only: split_beta) auto
qed

definition rss_regs :: "onic_private \<Rightarrow> u32 set" where
  "rss_regs p = indir_reg (PCI_FUNC (pr_devfn p)) ` {..<128} \<union> key_reg (PCI_FUNC (pr_devfn p)) ` {..<10}"

lemma small_index:
  assumes "x < (ucast (n :: u16) :: u32)"
  shows "0xFFFF AND x = x"
proof -
  have "unat x < unat (ucast n :: u32)" using assms by (simp add: word_less_nat_alt)
  also have "\<dots> = unat n" using unat_u16_less [of n] by (simp add: unsigned_ucast_eq take_bit_nat_eq_self_iff del: unat_u16_less)
  also have "\<dots> < 2 ^ 16" using unat_u16_less [of n] by simp
  finally have "unat x < 2 ^ 16" .
  then have "unat (take_bit 16 x) = unat x" by (simp add: unsigned_take_bit_eq take_bit_nat_eq_self)
  then have "take_bit 16 x = x" by (rule unsigned_word_eqI)
  then show ?thesis using take_bit_eq_mask [of 16 x] by (simp add: and.commute mask_eq_exp_minus_1)
qed

lemma concat_take_drop: "length k = 4 * n \<Longrightarrow> concat (map (\<lambda>i. take 4 (drop (i * 4) k)) [0..<n]) = k"
proof (induction n arbitrary: k)
  case (Suc n)
  have "map (\<lambda>i. take 4 (drop (i * 4) k)) [Suc 0..<Suc n] = map (\<lambda>i. take 4 (drop (i * 4) (drop 4 k))) [0..<n]"
    unfolding map_Suc_upt [symmetric] by (simp add: comp_def add.commute)
  then show ?case
    using Suc.IH [of "drop 4 k"] Suc.prems upt_conv_Cons [of 0 "Suc n"] by simp
qed simp

text \<open>C31. What \<^verbatim>\<open>ethtool -X\<close> sets is what \<^verbatim>\<open>ethtool -x\<close> shows: after \<open>onic_set_rxfh\<close> has accepted a table of 128 entries
  and a key of 40 bytes, \<open>onic_get_rxfh\<close> returns the same table and the same key, on a card whose hash registers
  hold what was written to them.\<close>

theorem rxfh_round_trip:
  assumes "length l = 128" "length key = 40" "keeps_regs (hw_addr (pr_hw (priv s))) (rss_regs (priv s)) s"
    "run_state (onic_set_rxfh (Some l) (Some key) hfunc) s = (0, s')"
  shows "fst (run_state (onic_get_rxfh True True) s') = (0, Some l, Some key, ETH_RSS_HASH_TOP)"
proof -
  let ?p = "priv s" and ?b = "hw_addr (pr_hw (priv s))" and ?f = "PCI_FUNC (pr_devfn (priv s))"
  obtain err rest s1 where run: "run_state (for_until [0..<128] (set_indir ?p l)) s = ((err, rest), s1)" by (metis prod.collapse)
  from assms(4) run have h: "err = 0" "run_state (set_key ?p key) s1 = ((), s')"
    by (auto simp: onic_set_rxfh_def run_get_priv split: if_splits prod.splits)
  from run obtain e1 where e1: "s1 = s\<lparr>trace := trace s @ e1\<rparr>"
    "map fst e1 = indir_writes ?p l (takeWhile (index_ok ?p l) [0..<128])"
    "err = (if \<forall>i\<in>set [0..<128]. index_ok ?p l i then 0 else - EINVAL)" by (rule set_indir_run)
  have ok: "index_ok ?p l i" if "i < 128" for i using e1(3) h(1) that by (auto split: if_splits)
  then have "takeWhile (index_ok ?p l) [0..<128] = [0..<128]" by (simp add: takeWhile_eq_all_conv)
  with e1(2) have m1: "map fst e1 = map (\<lambda>i. Io (Iowrite32 (l ! i) ?b (indir_reg ?f i))) [0..<128]"
    by (simp add: indir_writes_def)
  from scriptedD [OF scripted_set_key, where s = s1] h(2) obtain e2
    where s': "s' = s1\<lparr>trace := trace s1 @ e2\<rparr>" and "map fst e2 = key_writes ?p key [0..<10]" by (metis prod.inject)
  then have m2: "map fst e2 = map (\<lambda>i. Io (Iowrite32 (bytes_word (drop (i * 4) key)) ?b (key_reg ?f i))) [0..<10]"
    by (simp add: key_writes_def)
  have tr: "trace s' = trace s @ e1 @ e2" by (simp add: s' e1(1))
  have "reg_store ?b (trace s') (indir_reg ?f i) = Some (l ! i)" if "i < 128" for i
  proof -
    have "indir_reg ?f i \<notin> key_reg ?f ` set [0..<10]" using rss_regs_distinct [OF that] by auto
    then have "reg_store ?b (trace s') (indir_reg ?f i) = reg_store ?b (trace s @ e1) (indir_reg ?f i)"
      using other_regs [OF m2, of _ "trace s @ e1"] by (simp add: tr)
    then show ?thesis using write_regs [OF m1, of i "trace s"] rss_inj(1) that by (simp add: atLeast0LessThan)
  qed
  moreover have "reg_store ?b (trace s') (key_reg ?f i) = Some (bytes_word (drop (i * 4) key))" if "i < 10" for i
    using write_regs [OF m2, of i "trace s @ e1"] rss_inj(2) that by (simp add: tr atLeast0LessThan)
  moreover have "keeps_regs ?b (rss_regs ?p) s'" using assms(3) by (simp add: keeps_regs_def s' e1(1))
  moreover have "priv s' = ?p" by (simp add: s' e1(1))
  ultimately have "fst (run_state (onic_get_rxfh True True) s') = (0, Some (map (\<lambda>i. 0xFFFF AND l ! i) [0..<128]),
      Some (concat (map (word_bytes \<circ> (\<lambda>i. bytes_word (drop (i * 4) key))) [0..<10])), ETH_RSS_HASH_TOP)"
    by (intro get_rxfh_run [where b = ?b and K = "rss_regs ?p" and func = ?f]) (simp_all add: rss_regs_def)
  moreover have "map (\<lambda>i. 0xFFFF AND l ! i) [0..<128] = l"
    using ok assms(1) small_index by (intro nth_equalityI) (auto simp: index_ok_def)
  moreover have "word_bytes (bytes_word (drop (i * 4) key)) = take 4 (drop (i * 4) key)" if "i < 10" for i
    using assms(2) that by (intro word_bytes_word) simp
  then have "concat (map (word_bytes \<circ> (\<lambda>i. bytes_word (drop (i * 4) key))) [0..<10]) =
      concat (map (\<lambda>i. take 4 (drop (i * 4) key)) [0..<10])"
    by (intro arg_cong [where f = concat] map_cong) simp_all
  ultimately show ?thesis using concat_take_drop [of key 10] assms(2) by simp
qed

theorem rxfh_round_trip_witness:
  "fst (run_state (onic_set_rxfh (Some (replicate 128 3)) (Some (replicate 40 0x6D)) 1) rss_pf) = 0 \<and>
   (case run_state (onic_set_rxfh (Some (replicate 128 3)) (Some (replicate 40 0x6D)) 1) rss_pf of (err, s') \<Rightarrow>
     fst (run_state (onic_get_rxfh True True) s') = (0, Some (replicate 128 3), Some (replicate 40 0x6D), 1))"
proof -
  obtain err rest s1 where run: "run_state (for_until [0..<128] (set_indir (priv rss_pf) (replicate 128 3))) rss_pf = ((err, rest), s1)"
    by (metis prod.collapse)
  from run have "err = 0"
    by (rule set_indir_run) (simp add: index_ok_def rss_pf_def word_less_nat_alt)
  with run have "fst (run_state (onic_set_rxfh (Some (replicate 128 3)) (Some (replicate 40 0x6D)) 1) rss_pf) = 0"
    by (simp add: onic_set_rxfh_def run_get_priv split: prod.split)
  then show ?thesis
    using rxfh_round_trip [of "replicate 128 3" "replicate 40 0x6D" rss_pf 1]
    by (auto simp: keeps_regs_def rss_pf_def split: prod.splits)
qed

lemma sum_queues_None: "sum_queues table f js t = None \<longleftrightarrow> (\<exists>j\<in>set js. table j = None)"
  by (induction table f js t rule: sum_queues.induct) (auto split: option.splits)

lemma read_stats_run:
  "\<exists>vs s'. run_state (for_each_acc sts (\<lambda>st l. do { v \<leftarrow> read_stat hw f t st; ret (l @ [v]) }) acc) s = (acc @ vs, s') \<and>
     length vs = length sts \<and>
     (\<forall>i<length sts. stat_type (sts ! i) = NETDEV_STATS \<longrightarrow> vs ! i = netdev_stat t (stat0_offset (sts ! i)))"
proof (induction sts arbitrary: acc s)
  case (Cons st sts)
  obtain v s1 where v: "run_state (read_stat hw f t st) s = (v, s1)" by (metis prod.collapse)
  then have n: "stat_type st = NETDEV_STATS \<Longrightarrow> v = netdev_stat t (stat0_offset st)" by (simp add: read_stat_def)
  from Cons.IH [of "acc @ [v]" s1] obtain vs s' where
    "run_state (for_each_acc sts (\<lambda>st l. do { v \<leftarrow> read_stat hw f t st; ret (l @ [v]) }) (acc @ [v])) s1 = (acc @ [v] @ vs, s')"
    "length vs = length sts"
    "\<forall>i<length sts. stat_type (sts ! i) = NETDEV_STATS \<longrightarrow> vs ! i = netdev_stat t (stat0_offset (sts ! i))" by auto
  with v n show ?case by (intro exI [of _ "v # vs"] exI [of _ s']) (auto simp: nth_Cons split: nat.split)
qed simp

text \<open>\<^verbatim>\<open>ethtool -S\<close> while the device is down: the function returns exactly when every queue below the two counts
  exists, otherwise it has dereferenced a NULL entry of a queue table. When it returns, it fills one value per name
  that \<open>onic_get_strings\<close> gives and \<open>onic_get_sset_count\<close> announces, and the last seven are the XDP counters summed
  over the queues.\<close>

theorem ethtool_stats_need_queues:
  "case fst (run_state onic_get_ethtool_stats s) of
     None \<Rightarrow> (\<exists>j<unat (pr_num_rx_queues (priv s)). pr_rx_queue (priv s) j = None) \<or>
       (\<exists>j<unat (pr_num_tx_queues (priv s)). pr_tx_queue (priv s) j = None)
   | Some vs \<Rightarrow> (\<forall>j<unat (pr_num_rx_queues (priv s)). pr_rx_queue (priv s) j \<noteq> None) \<and>
       (\<forall>j<unat (pr_num_tx_queues (priv s)). pr_tx_queue (priv s) j \<noteq> None) \<and>
       int (length vs) = onic_get_sset_count 0 \<and> length onic_get_strings = 32 * length vs \<and>
       (\<exists>t. global_xdp_stats (priv s) = Some t \<and>
          (\<forall>k<7. vs ! (64 + k) = netdev_stat t (of_nat k)))"
proof (cases "global_xdp_stats (priv s)")
  case None
  then show ?thesis
    by (auto simp: onic_get_ethtool_stats_def run_get_priv global_xdp_stats_def sum_queues_None split: option.splits)
next
  case (Some t)
  let ?f = "PCI_FUNC (pr_devfn (priv s))" and ?hw = "pr_hw (priv s)"
  let ?w = "if ?f = 0 then onic_write_reg ?hw (CMAC_OFFSET_TICK 0) 1 else onic_write_reg ?hw (CMAC_OFFSET_TICK 1) 1"
  obtain s1 where w: "run_state ?w s = ((), s1)" by (cases "run_state ?w s") auto
  obtain vs s2 where r: "run_state (for_each_acc onic_gstrings_stats (\<lambda>st l. do { v \<leftarrow> read_stat ?hw ?f t st; ret (l @ [v]) }) []) s1 = (vs, s2)"
    "length vs = length onic_gstrings_stats" "\<forall>i<length onic_gstrings_stats. stat_type (onic_gstrings_stats ! i) = NETDEV_STATS \<longrightarrow>
      vs ! i = netdev_stat t (stat0_offset (onic_gstrings_stats ! i))"
    using read_stats_run [of onic_gstrings_stats ?hw ?f t "[]" s1] by auto
  have len: "length onic_gstrings_stats = 71"
    by (simp add: onic_gstrings_stats_def tx_gstrings_def rx_gstrings_def adapt_gstrings_def netdev_gstrings_def)
  have nd: "onic_gstrings_stats ! (64 + k) = netdev_gstrings ! k" for k
    unfolding onic_gstrings_stats_def append_assoc [symmetric]
    by (subst nth_append_length_plus [where xs = "tx_gstrings @ rx_gstrings @ adapt_gstrings", symmetric])
      (simp add: tx_gstrings_def rx_gstrings_def adapt_gstrings_def)
  have k: "stat_type (netdev_gstrings ! k) = NETDEV_STATS \<and> stat0_offset (netdev_gstrings ! k) = of_nat k" if "k < 7" for k
  proof -
    have "k \<in> {0, 1, 2, 3, 4, 5, 6}" using that by auto
    then show ?thesis by (auto simp: netdev_gstrings_def STAT_NETDEV_def)
  qed
  have "length (gstring n) = 32" for n by (simp add: gstring_def)
  then have str: "length onic_get_strings = 32 * 71"
    by (simp add: onic_get_strings_def length_concat comp_def len sum_list_triv)
  obtain u where u: "sum_queues (pr_rx_queue (priv s)) add_rx_stats [0..<unat (pr_num_rx_queues (priv s))]
      \<lparr>xt_rx = zero_xdp_stats, xt_xmit = 0, xt_xmit_err = 0\<rparr> = Some u"
    "sum_queues (pr_tx_queue (priv s)) add_tx_stats [0..<unat (pr_num_tx_queues (priv s))] u = Some t"
    using Some by (auto simp: global_xdp_stats_def split: option.splits)
  have q: "\<not> (\<exists>j\<in>set [0..<unat (pr_num_rx_queues (priv s))]. pr_rx_queue (priv s) j = None)"
    "\<not> (\<exists>j\<in>set [0..<unat (pr_num_tx_queues (priv s))]. pr_tx_queue (priv s) j = None)"
    unfolding sum_queues_None [symmetric, where f = add_rx_stats and t = "\<lparr>xt_rx = zero_xdp_stats, xt_xmit = 0, xt_xmit_err = 0\<rparr>"]
      sum_queues_None [symmetric, where f = add_tx_stats and t = u] u by simp_all
  have "fst (run_state onic_get_ethtool_stats s) = Some vs"
    using Some w r(1) by (simp add: onic_get_ethtool_stats_def run_get_priv Let_def)
  then show ?thesis using q r(2,3) len nd k str Some by (auto simp: onic_get_sset_count_def atLeast0LessThan)
qed

text \<open>The device is down: four queues are counted, none exists.\<close>

theorem ethtool_stats_need_queues_witness:
  "fst (run_state onic_get_ethtool_stats rss_pf) = None"
proof -
  have "pr_rx_queue (priv rss_pf) 0 = None" "0 < unat (pr_num_rx_queues (priv rss_pf))"
    by (simp_all add: rss_pf_def zero_private_def)
  then show ?thesis using ethtool_stats_need_queues [of rss_pf] by (auto split: option.splits simp del: not_None_eq)
qed

end
