(* ===== verification/Pf_Irq.thy ===== *)
theory Pf_Irq
  imports Mbox Resources
begin

text \<open>
  \<^verbatim>\<open>onic_lib.c\<close>: the interrupts of a PF and the numbers of vectors and queues. One vector per queue, the user
  interrupt behind them, and on the master PF the error interrupt behind that. A NULL pointer that the C code
  dereferences makes the result \<open>None\<close>.
\<close>

abbreviation (input) ONIC_MAX_IRQ_NAME :: nat where "ONIC_MAX_IRQ_NAME \<equiv> 32"
abbreviation (input) ONIC_ERROR_INTR :: nat where "ONIC_ERROR_INTR \<equiv> 0"
abbreviation (input) ONIC_USER_INTR :: nat where "ONIC_USER_INTR \<equiv> 1"

section \<open>Handlers\<close>

datatype irqreturn = IRQ_HANDLED | IRQ_WAKE_THREAD

definition onic_q_handler :: "nat \<Rightarrow> irqreturn option onic" where
  "onic_q_handler vid = do {
     p \<leftarrow> get_priv;
     case pr_rx_queue p vid of
       None \<Rightarrow> ret None
     | Some rxq \<Rightarrow> do {
         invoke (Net (Napi_schedule (unat (rq_qid rxq))));
         ret (Some IRQ_HANDLED) } }"

definition onic_user_handler :: "irqreturn onic" where
  "onic_user_handler = do {
     p \<leftarrow> get_priv;
     (if bit (pr_flags p) ONIC_FLAG_MASTER_PF then onic_pf_mbox_irq_disable else ret ());
     ret IRQ_WAKE_THREAD }"

text \<open>\<open>None\<close> when requests keep arriving for longer than the fuel.\<close>

definition onic_user_thread_fn :: "nat \<Rightarrow> irqreturn option onic" where
  "onic_user_thread_fn fuel = do {
     p \<leftarrow> get_priv;
     if \<not> bit (pr_flags p) ONIC_FLAG_MASTER_PF then ret (Some IRQ_HANDLED)
     else do {
       err \<leftarrow> onic_pf_mbox_process_pending fuel;
       case err of
         None \<Rightarrow> ret None
       | Some _ \<Rightarrow> do {
           onic_pf_mbox_irq_enable;
           ret (Some IRQ_HANDLED) } } }"

definition onic_error_handler :: "irqreturn onic" where
  "onic_error_handler = ret IRQ_WAKE_THREAD"

definition onic_error_thread_fn :: "nat \<Rightarrow> irqreturn option onic" where
  "onic_error_thread_fn fuel = do {
     p \<leftarrow> get_priv;
     case hw_qdma (pr_hw p) of
       None \<Rightarrow> ret None
     | Some qdev \<Rightarrow> do {
         mbox_status \<leftarrow> qdma_read_reg qdev QDMA_PF_MBOX_STS;
         if sts_has mbox_status (QDMA_MBOX_STS_I_MSG_MASK OR QDMA_MBOX_STS_ACK_MASK) then do {
           err \<leftarrow> onic_pf_mbox_process_pending fuel;
           case err of None \<Rightarrow> ret None | Some _ \<Rightarrow> ret (Some IRQ_HANDLED) }
         else ret (Some IRQ_HANDLED) } }"

section \<open>Vectors\<close>

definition onic_clear_q_vector :: "nat \<Rightarrow> unit onic" where
  "onic_clear_q_vector vid = do {
     p \<leftarrow> get_priv;
     case pr_q_vector p vid of
       None \<Rightarrow> ret ()
     | Some vec \<Rightarrow> do {
         irq \<leftarrow> perform (Pci (Pci_irq_vector vid));
         invoke (Pci (Free_irq irq (Irq_pf_q vid)));
         invoke (Mem (Kfree (qv_self vec)));
         upd_priv (put_vec vid None) } }"

text \<open>\<^verbatim>\<open>snprintf\<close> writes to the name without a check; nothing ever frees it.\<close>

definition onic_init_q_vector :: "nat \<Rightarrow> int option onic" where
  "onic_init_q_vector vid = do {
     name \<leftarrow> perform (Mem (Vmalloc ONIC_MAX_IRQ_NAME));
     a \<leftarrow> perform (Mem (Kzalloc Obj_q_vector));
     if (of_int a :: ptr) = 0 then ret (Some (- ENOMEM))
     else if (of_int name :: ptr) = 0 then ret None
     else do {
       irq \<leftarrow> perform (Pci (Pci_irq_vector vid));
       rv \<leftarrow> perform_errno (Pci (Request_irq irq (Irq_pf_q vid)));
       if rv < 0 then ret (Some rv)
       else do {
         upd_priv (put_vec vid (Some \<lparr>qv_self = of_int a, qv_vid = of_nat vid\<rparr>));
         ret (Some 0) } } }"

fun init_q_vectors :: "nat list \<Rightarrow> int option onic" where
  "init_q_vectors [] = ret (Some 0)"
| "init_q_vectors (vid # vids) = do {
     rv \<leftarrow> onic_init_q_vector vid;
     case rv of
       None \<Rightarrow> ret None
     | Some e \<Rightarrow> if e < 0 then ret (Some e) else init_q_vectors vids }"

section \<open>Capacity\<close>

definition onic_acquire_msix_vectors :: "int onic" where
  "onic_acquire_msix_vectors = do {
     p \<leftarrow> get_priv;
     let non_q_vectors = (if bit (pr_flags p) ONIC_FLAG_MASTER_PF then 2 else 1);
     vectors \<leftarrow> perform (Pci (Pci_alloc_irq_vectors (non_q_vectors + 1) (ONIC_MAX_QUEUES + non_q_vectors)));
     if vectors < 0 then ret vectors
     else do {
       upd_priv (pr_num_q_vectors_update (\<lambda>_. of_int (vectors - int non_q_vectors)));
       ret 0 } }"

definition onic_set_num_queues :: "unit onic" where
  "onic_set_num_queues = do {
     p \<leftarrow> get_priv;
     tx \<leftarrow> perform (Net Real_num_tx_queues);
     upd_priv (pr_num_tx_queues_update (\<lambda>_. min (pr_num_q_vectors p) (of_int tx)));
     rx \<leftarrow> perform (Net Real_num_rx_queues);
     upd_priv (pr_num_rx_queues_update (\<lambda>_. min (pr_num_q_vectors p) (of_int rx))) }"

definition onic_init_capacity :: "int onic" where
  "onic_init_capacity = do {
     rv \<leftarrow> onic_acquire_msix_vectors;
     if rv < 0 then ret rv
     else do {
       onic_set_num_queues;
       ret 0 } }"

definition onic_clear_capacity :: "unit onic" where
  "onic_clear_capacity = do {
     upd_priv (\<lambda>p. p\<lparr>pr_num_tx_queues := 0, pr_num_rx_queues := 0, pr_num_q_vectors := 0\<rparr>);
     invoke (Pci Pci_free_irq_vectors) }"

section \<open>Interrupts\<close>

definition clear_error_intr :: "nat \<Rightarrow> unit option onic" where
  "clear_error_intr vid = do {
     p \<leftarrow> get_priv;
     if bit (pr_state p) ONIC_ERROR_INTR then do {
       irq \<leftarrow> perform (Pci (Pci_irq_vector vid));
       invoke (Pci (Free_irq irq Irq_pf_error));
       case hw_qdma (pr_hw p) of
         None \<Rightarrow> ret None
       | Some qdev \<Rightarrow> do {
           onic_qdma_clear_error_interrupt qdev;
           upd_priv (pr_state_update (unset_bit ONIC_ERROR_INTR));
           ret (Some ()) } }
     else ret (Some ()) }"

definition clear_user_intr :: "nat \<Rightarrow> unit onic" where
  "clear_user_intr vid = do {
     p \<leftarrow> get_priv;
     if bit (pr_state p) ONIC_USER_INTR then do {
       irq \<leftarrow> perform (Pci (Pci_irq_vector vid));
       invoke (Pci (Free_irq irq Irq_pf_user));
       upd_priv (pr_state_update (unset_bit ONIC_USER_INTR)) }
     else ret () }"

definition onic_clear_interrupt :: "unit option onic" where
  "onic_clear_interrupt = do {
     p \<leftarrow> get_priv;
     let n = unat (pr_num_q_vectors p);
     let master_pf = bit (pr_flags p) ONIC_FLAG_MASTER_PF;
     (if master_pf then onic_pf_mbox_irq_disable else ret ());
     ok \<leftarrow> (if master_pf then clear_error_intr (n + 1) else ret (Some ()));
     case ok of
       None \<Rightarrow> ret None
     | Some _ \<Rightarrow> do {
         clear_user_intr n;
         for_each (rev [0..<n]) onic_clear_q_vector;
         ret (Some ()) } }"

text \<open>The label \<^verbatim>\<open>clear_interrupt\<close>.\<close>

definition undo_interrupt :: "int \<Rightarrow> int option onic" where
  "undo_interrupt rv = do {
     ok \<leftarrow> onic_clear_interrupt;
     ret (case ok of None \<Rightarrow> None | Some _ \<Rightarrow> Some rv) }"

definition init_error_intr :: "nat \<Rightarrow> int option onic" where
  "init_error_intr vid = do {
     irq \<leftarrow> perform (Pci (Pci_irq_vector vid));
     rv \<leftarrow> perform_errno (Pci (Request_irq irq Irq_pf_error));
     if rv < 0 then undo_interrupt rv
     else do {
       p \<leftarrow> get_priv;
       case hw_qdma (pr_hw p) of
         None \<Rightarrow> ret None
       | Some qdev \<Rightarrow> do {
           onic_qdma_init_error_interrupt qdev (of_nat vid);
           upd_priv (pr_state_update (set_bit ONIC_ERROR_INTR));
           ret (Some 0) } } }"

definition init_user_intr :: "nat \<Rightarrow> int option onic" where
  "init_user_intr vid = do {
     irq \<leftarrow> perform (Pci (Pci_irq_vector vid));
     rv \<leftarrow> perform_errno (Pci (Request_irq irq Irq_pf_user));
     if rv < 0 then undo_interrupt rv
     else do {
       upd_priv (pr_state_update (set_bit ONIC_USER_INTR));
       p \<leftarrow> get_priv;
       if \<not> bit (pr_flags p) ONIC_FLAG_MASTER_PF then ret (Some 0)
       else do {
         rv \<leftarrow> onic_pf_mbox_irq_init (of_nat vid);
         if rv < 0 then undo_interrupt rv else init_error_intr (vid + 1) } } }"

definition onic_init_interrupt :: "int option onic" where
  "onic_init_interrupt = do {
     p \<leftarrow> get_priv;
     let n = unat (pr_num_q_vectors p);
     rv \<leftarrow> init_q_vectors [0..<n];
     case rv of
       None \<Rightarrow> ret None
     | Some e \<Rightarrow> if e < 0 then undo_interrupt e else init_user_intr n }"

section \<open>What the interrupts hold\<close>

definition pf_vec_res :: "nat \<Rightarrow> onic_q_vector option \<Rightarrow> resource multiset" where
  "pf_vec_res i v = (case v of None \<Rightarrow> {#} | Some vec \<Rightarrow> add_mset (R_irq (Irq_pf_q i)) (heap (qv_self vec)))"

definition pf_vecs_res :: "nat \<Rightarrow> onic_private \<Rightarrow> resource multiset" where
  "pf_vecs_res n p = (\<Sum>i<n. pf_vec_res i (pr_q_vector p i))"

definition intr_res :: "onic_private \<Rightarrow> resource multiset" where
  "intr_res p = (if bit (pr_state p) ONIC_USER_INTR then {#R_irq Irq_pf_user#} else {#}) +
     (if bit (pr_flags p) ONIC_FLAG_MASTER_PF \<and> bit (pr_state p) ONIC_ERROR_INTR then {#R_irq Irq_pf_error#} else {#})"

definition pf_irq_res :: "onic_private \<Rightarrow> resource multiset" where
  "pf_irq_res p = pf_vecs_res (unat (pr_num_q_vectors p)) p + intr_res p"

text \<open>What a failure may leave behind: names, and the object of a vector whose interrupt was refused.\<close>

definition names :: "nat \<Rightarrow> resource multiset \<Rightarrow> bool" where
  "names k L \<longleftrightarrow> size L = k \<and> (\<forall>x\<in>#L. \<exists>a. x = R_vmem a)"

definition scrap :: "resource multiset \<Rightarrow> bool" where
  "scrap V \<longleftrightarrow> size V \<le> 2 \<and> (\<forall>x\<in>#V. \<exists>a. x = R_heap a \<or> x = R_vmem a)"

definition left_over :: "nat \<Rightarrow> resource multiset \<Rightarrow> bool" where
  "left_over k L \<longleftrightarrow> (\<exists>N V. L = N + V \<and> names k N \<and> scrap V)"

lemma charge_vmalloc: "charge (Mem (Vmalloc n)) r Q A \<longleftrightarrow> Q (if (of_int r :: ptr) = 0 then A else add_mset (R_vmem (of_int r)) A)"
  by (simp add: charge_def)

lemma keeps_pf_io [keeps_intro]:
  "keeps f onic_pf_mbox_irq_disable" "keeps f onic_pf_mbox_irq_enable" "keeps f (onic_pf_mbox_irq_init v)"
  "keeps f (onic_qdma_clear_error_interrupt d)" "keeps f (onic_qdma_init_error_interrupt d v)"
proof -
  show d: "keeps f onic_pf_mbox_irq_disable" "keeps f onic_pf_mbox_irq_enable" for f :: "onic_private \<Rightarrow> 'b"
    unfolding onic_pf_mbox_irq_disable_def onic_pf_mbox_irq_enable_def qdma_write_reg_def
    by (intro keeps_intro; simp)+
  have "keeps f (drop_stale n q k)" for n q k and f :: "onic_private \<Rightarrow> 'b"
    by (induction n q k rule: drop_stale.induct)
      (auto simp: qdma_read_reg_def qdma_write_reg_def intro!: keeps_intro)
  then show "keeps f (onic_pf_mbox_irq_init v)"
    unfolding onic_pf_mbox_irq_init_def onic_pf_mbox_drop_stale_requests_def qdma_write_reg_def
    by (intro keeps_intro d; simp)
  show "keeps f (onic_qdma_clear_error_interrupt d)" "keeps f (onic_qdma_init_error_interrupt d v)" for d
    unfolding onic_qdma_clear_error_interrupt_def onic_qdma_init_error_interrupt_def qdma_write_reg_def qdma_read_reg_def
    by (intro keeps_intro; simp)+
qed

lemma uses_clear_vec [uses_intro]:
  "uses (\<lambda>p A. pf_vec_res i (pr_q_vector p i) \<subseteq># A \<and> Q () (put_vec i None p) (A - pf_vec_res i (pr_q_vector p i)))
     (onic_clear_q_vector i) Q"
proof -
  have same: "pr_q_vector p i = None \<Longrightarrow> put_vec i None p = p" for p by (cases p) (simp add: fun_upd_idem)
  show ?thesis
    unfolding onic_clear_q_vector_def
    by (rule uses_pre, (rule uses_intro)+)
      (auto simp: same charge_simps pf_vec_res_def mset_subset_eq_exists_conv split: option.split)
qed

text \<open>Clearing the vectors of a list, which hold everything beyond \<open>A0\<close>.\<close>

definition pf_vec_inv :: "onic_private \<Rightarrow> resource multiset \<Rightarrow> nat list \<Rightarrow> assertion" where
  "pf_vec_inv p0 A0 js p A \<longleftrightarrow> distinct js \<and> A = (\<Sum>i\<in>set js. pf_vec_res i (pr_q_vector p i)) + A0 \<and> drop_vecs (set js) p = p0"

lemma uses_clear_vecs:
  "uses (pf_vec_inv p0 A0 js) (for_each js onic_clear_q_vector) (\<lambda>_ p A. p = p0 \<and> A = A0)"
proof (rule uses_conseq)
  show "uses (pf_vec_inv p0 A0 js) (for_each js onic_clear_q_vector) (\<lambda>_. pf_vec_inv p0 A0 [])"
  proof (rule uses_for_each, rule uses_pre, (rule uses_intro)+)
    fix x js p A
    assume I: "pf_vec_inv p0 A0 (x # js) p A"
    then have a: "A = pf_vec_res x (pr_q_vector p x) + ((\<Sum>i\<in>set js. pf_vec_res i (pr_q_vector p i)) + A0)" "x \<notin> set js"
      by (simp_all add: pf_vec_inv_def ac_simps)
    have "(\<Sum>i\<in>set js. pf_vec_res i (pr_q_vector (put_vec x None p) i)) = (\<Sum>i\<in>set js. pf_vec_res i (pr_q_vector p i))"
      by (rule sum.cong) (use a(2) in auto)
    with I a show "pf_vec_res x (pr_q_vector p x) \<subseteq># A \<and> pf_vec_inv p0 A0 js (put_vec x None p) (A - pf_vec_res x (pr_q_vector p x))"
      by (simp add: pf_vec_inv_def drop_vecs_put)
  qed
qed (auto simp: pf_vec_inv_def drop_vecs_put)

lemma uses_clear_pf_vecs [uses_intro]:
  "uses (\<lambda>p A. pf_vecs_res n p \<subseteq># A \<and> Q () (drop_vecs {..<n} p) (A - pf_vecs_res n p)) (for_each (rev [0..<n]) onic_clear_q_vector) Q"
proof (rule uses_at, elim conjE)
  fix p0 A0
  assume "pf_vecs_res n p0 \<subseteq># A0" "Q () (drop_vecs {..<n} p0) (A0 - pf_vecs_res n p0)"
  then show "uses (\<lambda>p A. p = p0 \<and> A = A0) (for_each (rev [0..<n]) onic_clear_q_vector) Q"
    by (intro uses_conseq [OF uses_clear_vecs [where ?A0.0 = "A0 - pf_vecs_res n p0"]])
      (auto simp: pf_vec_inv_def pf_vecs_res_def atLeast0LessThan)
qed

text \<open>The private data after all interrupts are cleared.\<close>

definition no_intr :: "onic_private \<Rightarrow> onic_private" where
  "no_intr p = drop_vecs {..<unat (pr_num_q_vectors p)} (pr_state_update (\<lambda>w. unset_bit ONIC_USER_INTR
     (if bit (pr_flags p) ONIC_FLAG_MASTER_PF then unset_bit ONIC_ERROR_INTR w else w)) p)"

lemma unset_bit_idle: "\<not> bit (w :: u32) n \<Longrightarrow> unset_bit n w = w"
  by (rule bit_eqI) (auto simp: bit_simps)

lemma uses_clear_error [uses_intro]:
  "uses (\<lambda>p A. hw_qdma (pr_hw p) \<noteq> None \<and> (bit (pr_state p) ONIC_ERROR_INTR \<longrightarrow> R_irq Irq_pf_error \<in># A) \<and>
      Q (Some ()) (pr_state_update (unset_bit ONIC_ERROR_INTR) p)
        (if bit (pr_state p) ONIC_ERROR_INTR then A - {#R_irq Irq_pf_error#} else A)) (clear_error_intr vid) Q"
proof -
  have same: "\<not> bit (pr_state p) 0 \<Longrightarrow> pr_state_update (unset_bit 0) p = p" for p by (cases p) (simp add: unset_bit_idle)
  show ?thesis
    unfolding clear_error_intr_def
    by (rule uses_pre, (rule uses_intro keeps_pf_io [where f = "\<lambda>p. p", THEN keeps_uses])+) (auto simp: same)
qed

lemma uses_clear_user [uses_intro]:
  "uses (\<lambda>p A. (bit (pr_state p) ONIC_USER_INTR \<longrightarrow> R_irq Irq_pf_user \<in># A) \<and>
      Q () (pr_state_update (unset_bit ONIC_USER_INTR) p)
        (if bit (pr_state p) ONIC_USER_INTR then A - {#R_irq Irq_pf_user#} else A)) (clear_user_intr vid) Q"
proof -
  have same: "\<not> bit (pr_state p) 1 \<Longrightarrow> pr_state_update (unset_bit 1) p = p" for p by (cases p) (simp add: unset_bit_idle)
  show ?thesis
    unfolding clear_user_intr_def
    by (rule uses_pre, (rule uses_intro)+) (auto simp: same [simplified])
qed

lemma pf_vecs_res_state [simp]: "pf_vecs_res n (pr_state_update f p) = pf_vecs_res n p"
  by (simp add: pf_vecs_res_def)

lemma uses_clear_interrupt [uses_intro]:
  "uses (\<lambda>p A. hw_qdma (pr_hw p) \<noteq> None \<and> pf_irq_res p \<subseteq># A \<and> Q (Some ()) (no_intr p) (A - pf_irq_res p))
     onic_clear_interrupt Q"
proof (rule uses_at, elim conjE)
  fix p0 A0
  assume q: "hw_qdma (pr_hw p0) \<noteq> None" and sub: "pf_irq_res p0 \<subseteq># A0" and Q: "Q (Some ()) (no_intr p0) (A0 - pf_irq_res p0)"
  obtain B where A0: "A0 = pf_irq_res p0 + B" using sub by (auto simp: mset_subset_eq_exists_conv)
  let ?n = "unat (pr_num_q_vectors p0)"
  show "uses (\<lambda>p A. p = p0 \<and> A = A0) onic_clear_interrupt Q"
    unfolding onic_clear_interrupt_def
    by (rule uses_get_at, rule uses_pre, (rule uses_intro keeps_pf_io [where f = "\<lambda>p. p", THEN keeps_uses])+)
      (use q Q in \<open>auto simp: A0 pf_irq_res_def intr_res_def no_intr_def comp_def bit_unset_bit_iff\<close>)
qed

lemma scrap_simps [simp]:
  "scrap {#}" "scrap (heap a)" "scrap {#R_vmem b#}" "scrap (add_mset (R_vmem b) (heap a))"
  by (auto simp: scrap_def heap_def)

lemma uses_init_vec [uses_intro]:
  "uses (\<lambda>p A. (\<forall>A'. Q None p A') \<and> (\<forall>e V. e < 0 \<and> scrap V \<longrightarrow> Q (Some e) p (V + A)) \<and>
      (\<forall>b v. qv_vid v = of_nat i \<longrightarrow> Q (Some 0) (put_vec i (Some v) p) (add_mset (R_vmem b) (pf_vec_res i (Some v) + A))))
     (onic_init_q_vector i) Q"
proof -
  have done1: "Q (Some 0) (put_vec i (Some \<lparr>qv_self = a, qv_vid = of_nat i\<rparr>) p) (add_mset (R_irq (Irq_pf_q i)) (add_mset (R_vmem b) (heap a + A)))"
    if "\<forall>b v. qv_vid v = of_nat i \<longrightarrow> Q (Some 0) (put_vec i (Some v) p) (add_mset (R_vmem b) (pf_vec_res i (Some v) + A))" for a b p A
    using that [rule_format, of "\<lparr>qv_self = a, qv_vid = of_nat i\<rparr>" b] by (simp add: pf_vec_res_def add_mset_commute)
  have left1: "Q (Some e) p (add_mset (R_vmem b) (heap a + A))" if "\<forall>e V. e < 0 \<and> scrap V \<longrightarrow> Q (Some e) p (V + A)" "e < 0" for e p A a b
    using that(1) [rule_format, of e "add_mset (R_vmem b) (heap a)"] that(2) by simp
  have left2: "Q (Some e) p (heap a + A)" "Q (Some e) p (add_mset (R_vmem b) A)" "Q (Some e) p A"
    if "\<forall>e V. e < 0 \<and> scrap V \<longrightarrow> Q (Some e) p (V + A)" "e < 0" for e p A a b
    using that(1) [rule_format, of e "heap a"] that(1) [rule_format, of e "{#R_vmem b#}"] that(1) [rule_format, of e "{#}"] that(2) by simp_all
  show ?thesis
    unfolding onic_init_q_vector_def
    by (rule uses_pre, (rule uses_intro)+)
      (auto simp: charge_simps charge_vmalloc intro: done1 left1 left2)
qed

definition vecs_set :: "onic_private \<Rightarrow> resource multiset \<Rightarrow> nat \<Rightarrow> nat \<Rightarrow> assertion" where
  "vecs_set p0 A0 n k p A \<longleftrightarrow> (\<exists>N. names k N \<and> A = N + (pf_vecs_res k p + A0)) \<and>
     (\<forall>i<k. \<exists>v. pr_q_vector p i = Some v \<and> qv_vid v = of_nat i) \<and> (\<forall>i<n. k \<le> i \<longrightarrow> pr_q_vector p i = None) \<and>
     drop_vecs {..<n} p = p0"

lemma names_Suc: "names k N \<Longrightarrow> names (Suc k) (add_mset (R_vmem b) N)"
  by (auto simp: names_def)

lemma pf_vecs_res_Suc: "pf_vecs_res (Suc k) (put_vec k (Some v) p) = pf_vec_res k (Some v) + pf_vecs_res k p"
proof -
  have "(\<Sum>i<k. pf_vec_res i (pr_q_vector (put_vec k (Some v) p) i)) = (\<Sum>i<k. pf_vec_res i (pr_q_vector p i))"
    by (rule sum.cong) auto
  then show ?thesis by (simp add: pf_vecs_res_def ac_simps)
qed

lemma vecs_set_step:
  assumes "vecs_set p0 A0 n k p A" "k < n" "qv_vid v = of_nat k"
  shows "vecs_set p0 A0 n (Suc k) (put_vec k (Some v) p) (add_mset (R_vmem b) (pf_vec_res k (Some v) + A))"
proof -
  from assms(1) obtain N where N: "names k N" "A = N + (pf_vecs_res k p + A0)" by (auto simp: vecs_set_def)
  have "add_mset (R_vmem b) (pf_vec_res k (Some v) + A) =
      add_mset (R_vmem b) N + (pf_vecs_res (Suc k) (put_vec k (Some v) p) + A0)"
    by (simp add: N(2) pf_vecs_res_Suc ac_simps)
  with names_Suc [OF N(1)] show ?thesis
    using assms by (auto simp: vecs_set_def less_Suc_eq drop_vecs_put)
qed

definition vecs_failed :: "onic_private \<Rightarrow> resource multiset \<Rightarrow> nat \<Rightarrow> assertion" where
  "vecs_failed p0 A0 n p A \<longleftrightarrow> (\<exists>k\<le>n. \<exists>V. scrap V \<and> (\<exists>B. A = V + B \<and> vecs_set p0 A0 n k p B))"

lemma uses_init_vecs:
  assumes "k \<le> n"
  shows "uses (vecs_set p0 A0 n k) (init_q_vectors [k..<n])
    (\<lambda>r. case r of None \<Rightarrow> (\<lambda>_ _. True) | Some e \<Rightarrow> if e < 0 then vecs_failed p0 A0 n else (\<lambda>p A. e = 0 \<and> vecs_set p0 A0 n n p A))"
  using assms
proof (induction "n - k" arbitrary: k)
  case 0
  then have "k = n" by simp
  then show ?case by simp (rule uses_pre, rule uses_ret, simp)
next
  case (Suc m)
  let ?Q = "\<lambda>r. case r of None \<Rightarrow> (\<lambda>_ _. True) | Some e \<Rightarrow> if e < 0 then vecs_failed p0 A0 n else (\<lambda>p A. e = 0 \<and> vecs_set p0 A0 n n p A)"
  let ?M = "\<lambda>r. case r of None \<Rightarrow> (\<lambda>_ _. True) | Some e \<Rightarrow> if e < (0 :: int) then vecs_failed p0 A0 n else vecs_set p0 A0 n (Suc k)"
  have k: "k < n" using Suc by simp
  have "uses (vecs_set p0 A0 n k) (onic_init_q_vector k) ?M"
  proof (rule uses_pre, rule uses_init_vec)
    fix p A assume I: "vecs_set p0 A0 n k p A"
    have "vecs_failed p0 A0 n p (V + A)" if "scrap V" for V
      unfolding vecs_failed_def
      by (rule exI [of _ k], rule conjI, use k in simp, rule exI [of _ V], rule conjI, rule that, rule exI [of _ A],
        rule conjI, rule refl, rule I)
    moreover have "vecs_set p0 A0 n (Suc k) (put_vec k (Some v) p) (add_mset (R_vmem b) (pf_vec_res k (Some v) + A))"
      if "qv_vid v = of_nat k" for v b by (rule vecs_set_step [OF I k that])
    ultimately show "(\<forall>A'. ?M None p A') \<and> (\<forall>e V. e < 0 \<and> scrap V \<longrightarrow> ?M (Some e) p (V + A)) \<and>
      (\<forall>b v. qv_vid v = of_nat k \<longrightarrow> ?M (Some 0) (put_vec k (Some v) p) (add_mset (R_vmem b) (pf_vec_res k (Some v) + A)))"
      by auto
  qed
  moreover have "uses (?M r) (case r of None \<Rightarrow> ret None | Some e \<Rightarrow> if e < 0 then ret (Some e) else init_q_vectors [Suc k..<n]) ?Q" for r
  proof (cases r)
    case None
    show ?thesis unfolding None option.case by (rule uses_pre, rule uses_ret) simp
  next
    case (Some e)
    have "uses (vecs_set p0 A0 n (Suc k)) (init_q_vectors [Suc k..<n]) ?Q" using Suc k by simp
    moreover have "uses (vecs_failed p0 A0 n) (ret (Some e)) ?Q" if "e < 0"
      by (rule uses_pre, rule uses_ret) (simp add: that)
    ultimately show ?thesis by (simp add: Some)
  qed
  ultimately have "uses (vecs_set p0 A0 n k) (State_Monad.bind (onic_init_q_vector k)
      (\<lambda>r. case r of None \<Rightarrow> ret None | Some e \<Rightarrow> if e < 0 then ret (Some e) else init_q_vectors [Suc k..<n])) ?Q"
    by (rule uses_bind [rotated])
  then show ?case using k by (simp add: upt_conv_Cons)
qed

text \<open>The interrupts of \<open>p\<close> are held, with \<open>L\<close> on top of what was held before.\<close>

definition irqs_held :: "onic_private \<Rightarrow> resource multiset \<Rightarrow> resource multiset \<Rightarrow> assertion" where
  "irqs_held p0 A0 L p A \<longleftrightarrow> A = L + (pf_irq_res p + A0) \<and> no_intr p = p0 \<and> hw_qdma (pr_hw p0) \<noteq> None"

lemma no_intr_sel:
  "pr_hw (no_intr p) = pr_hw p" "pr_flags (no_intr p) = pr_flags p" "pr_num_q_vectors (no_intr p) = pr_num_q_vectors p"
  by (simp_all add: no_intr_def drop_vecs_def)

lemma uses_undo [uses_intro]:
  "uses (\<lambda>p A. hw_qdma (pr_hw p) \<noteq> None \<and> pf_irq_res p \<subseteq># A \<and> Q (Some e) (no_intr p) (A - pf_irq_res p)) (undo_interrupt e) Q"
  unfolding undo_interrupt_def
  by (rule uses_pre, rule uses_bind, rule uses_ret, rule uses_clear_interrupt) simp

lemma undo_held:
  "uses (irqs_held p0 A0 L) (undo_interrupt e) (\<lambda>r p A. r = Some e \<and> p = p0 \<and> A = L + A0)"
proof (rule uses_pre, rule uses_undo)
  fix p A
  assume I: "irqs_held p0 A0 L p A"
  then have "A = pf_irq_res p + (L + A0)" "no_intr p = p0" by (simp_all add: irqs_held_def ac_simps)
  moreover from this(2) I have "hw_qdma (pr_hw p) \<noteq> None" using no_intr_sel(1) [of p] by (simp add: irqs_held_def)
  ultimately show "hw_qdma (pr_hw p) \<noteq> None \<and> pf_irq_res p \<subseteq># A \<and>
      (Some e = Some e \<and> no_intr p = p0 \<and> A - pf_irq_res p = L + A0)" by simp
qed

lemma no_intr_set: 
  "no_intr (pr_state_update (set_bit ONIC_USER_INTR) p) = no_intr p"
  "bit (pr_flags p) ONIC_FLAG_MASTER_PF \<Longrightarrow> no_intr (pr_state_update (set_bit ONIC_ERROR_INTR) p) = no_intr p"
proof -
  have u: "unset_bit (Suc 0) (set_bit (Suc 0) w) = unset_bit (Suc 0) w" "unset_bit 0 (set_bit (Suc 0) w) = set_bit (Suc 0) (unset_bit 0 w)"
    "unset_bit 0 (set_bit 0 w) = unset_bit 0 w" for w :: u32
    by (rule bit_eqI; auto simp: bit_simps)+
  show "no_intr (pr_state_update (set_bit ONIC_USER_INTR) p) = no_intr p"
    "bit (pr_flags p) ONIC_FLAG_MASTER_PF \<Longrightarrow> no_intr (pr_state_update (set_bit ONIC_ERROR_INTR) p) = no_intr p"
    by (cases "bit (pr_flags p) 0"; simp add: no_intr_def comp_def u)+
qed

text \<open>The result of initialising: \<open>k\<close> vectors were named.\<close>

definition init_outcome :: "onic_private \<Rightarrow> resource multiset \<Rightarrow> int option \<Rightarrow> assertion" where
  "init_outcome p0 A0 r p A \<longleftrightarrow>
     (case r of
        None \<Rightarrow> True
      | Some e \<Rightarrow>
          if e < 0 then p = p0 \<and> (\<exists>L k. k \<le> unat (pr_num_q_vectors p0) \<and> left_over k L \<and> A = L + A0)
          else e = 0 \<and> no_intr p = p0 \<and> (\<exists>N. names (unat (pr_num_q_vectors p0)) N \<and> irqs_held p0 A0 N p A))"

lemma undo_outcome:
  assumes "left_over k L" "k \<le> unat (pr_num_q_vectors p0)" "e < 0"
  shows "uses (irqs_held p0 A0 L) (undo_interrupt e) (init_outcome p0 A0)"
  by (rule uses_conseq [OF undo_held]) (use assms in \<open>auto simp: init_outcome_def\<close>)

lemma names_left_over: "names k N \<Longrightarrow> left_over k N"
  unfolding left_over_def by (rule exI [of _ N], rule exI [of _ "{#}"]) simp

lemma held_after:
  assumes "irqs_held p0 A0 N p A" "\<not> bit (pr_state p) ONIC_USER_INTR" 
  shows "irqs_held p0 A0 N (pr_state_update (set_bit ONIC_USER_INTR) p) (add_mset (R_irq Irq_pf_user) A)"
  using assms by (auto simp: irqs_held_def no_intr_set [simplified] pf_irq_res_def intr_res_def bit_simps)

lemma held_after_error:
  assumes "irqs_held p0 A0 N p A" "\<not> bit (pr_state p) ONIC_ERROR_INTR" "bit (pr_flags p) ONIC_FLAG_MASTER_PF"
  shows "irqs_held p0 A0 N (pr_state_update (set_bit ONIC_ERROR_INTR) p) (add_mset (R_irq Irq_pf_error) A)"
  using assms by (auto simp: irqs_held_def no_intr_set [simplified] pf_irq_res_def intr_res_def bit_simps)

lemma uses_init_error:
  assumes "names (unat (pr_num_q_vectors p0)) N"
  shows "uses (\<lambda>p A. irqs_held p0 A0 N p A \<and> \<not> bit (pr_state p) ONIC_ERROR_INTR \<and> bit (pr_flags p) ONIC_FLAG_MASTER_PF)
    (init_error_intr vid) (init_outcome p0 A0)"
proof -
  have undo: "uses (irqs_held p0 A0 N) (undo_interrupt e) (init_outcome p0 A0)" if "e < 0" for e
    by (rule undo_outcome [OF names_left_over [OF assms] _ that]) simp
  have fin: "uses (\<lambda>p A. irqs_held p0 A0 N (pr_state_update (set_bit ONIC_ERROR_INTR) p) A)
      (do { upd_priv (pr_state_update (set_bit ONIC_ERROR_INTR)); ret (Some 0) }) (init_outcome p0 A0)"
    by (rule uses_pre, (rule uses_intro)+) (use assms in \<open>auto simp: init_outcome_def irqs_held_def\<close>)
  have tail: "uses (if r < 0 then irqs_held p0 A0 N else (\<lambda>p A. irqs_held p0 A0 N (pr_state_update (set_bit ONIC_ERROR_INTR) p) A))
     (if r < 0 then undo_interrupt r
      else do {
        p \<leftarrow> get_priv;
        case hw_qdma (pr_hw p) of
          None \<Rightarrow> ret None
        | Some qdev \<Rightarrow> do {
            onic_qdma_init_error_interrupt qdev (of_nat vid);
            upd_priv (pr_state_update (set_bit ONIC_ERROR_INTR));
            ret (Some 0) } }) (init_outcome p0 A0)" for r
  proof (cases "r < 0")
    case True
    then show ?thesis using undo by simp
  next
    case False
    show ?thesis
      by (simp add: False, rule uses_pre, rule uses_bind, rule uses_option, rule uses_ret, rule uses_bind, rule fin,
          rule keeps_pf_io [where f = "\<lambda>p. p", THEN keeps_uses], rule uses_get_priv)
        (auto simp: init_outcome_def split: option.split)
  qed
  show ?thesis
    unfolding init_error_intr_def
    by (rule uses_pre, rule uses_bind, rule uses_bind, rule tail, rule uses_perform_errno, rule uses_perform)
      (auto intro: held_after_error simp: charge_def)
qed

lemma uses_init_user:
  assumes "names (unat (pr_num_q_vectors p0)) N"
  shows "uses (\<lambda>p A. irqs_held p0 A0 N p A \<and> \<not> bit (pr_state p) ONIC_ERROR_INTR \<and> \<not> bit (pr_state p) ONIC_USER_INTR)
    (init_user_intr vid) (init_outcome p0 A0)"
proof -
  let ?I = "\<lambda>p A. irqs_held p0 A0 N p A \<and> \<not> bit (pr_state p) ONIC_ERROR_INTR"
  let ?U = "pr_state_update (set_bit ONIC_USER_INTR)"
  have undo: "uses (irqs_held p0 A0 N) (undo_interrupt e) (init_outcome p0 A0)" if "e < 0" for e
    by (rule undo_outcome [OF names_left_over [OF assms] _ that]) simp
  have mbox: "uses (\<lambda>p A. ?I p A \<and> bit (pr_flags p) ONIC_FLAG_MASTER_PF)
      (do { rv \<leftarrow> onic_pf_mbox_irq_init (of_nat vid); if rv < 0 then undo_interrupt rv else init_error_intr (vid + 1) })
      (init_outcome p0 A0)"
  proof (rule uses_pre, rule uses_bind, rule uses_if)
    show "uses (\<lambda>p A. rv < 0 \<and> ?I p A) (undo_interrupt rv) (init_outcome p0 A0)" for rv
      using undo [of rv] by (cases "rv < 0") (auto intro: uses_pre simp: uses_def)
  qed (rule uses_init_error [OF assms], rule keeps_pf_io [where f = "\<lambda>p. p", THEN keeps_uses], auto)
  have fin: "uses (\<lambda>p A. ?I (?U p) A)
      (do {
         upd_priv (pr_state_update (set_bit ONIC_USER_INTR));
         p \<leftarrow> get_priv;
         if \<not> bit (pr_flags p) ONIC_FLAG_MASTER_PF then ret (Some 0)
         else do { rv \<leftarrow> onic_pf_mbox_irq_init (of_nat vid); if rv < 0 then undo_interrupt rv else init_error_intr (vid + 1) } })
      (init_outcome p0 A0)"
    by (rule uses_pre, rule uses_bind, rule uses_bind, rule uses_if, rule uses_ret, rule mbox, rule uses_get_priv, rule uses_upd(1))
      (use assms in \<open>auto simp: init_outcome_def irqs_held_def\<close>)
  have tail: "uses (if r < 0 then irqs_held p0 A0 N else (\<lambda>p A. ?I (?U p) A))
     (if r < 0 then undo_interrupt r
      else do {
         upd_priv (pr_state_update (set_bit ONIC_USER_INTR));
         p \<leftarrow> get_priv;
         if \<not> bit (pr_flags p) ONIC_FLAG_MASTER_PF then ret (Some 0)
         else do { rv \<leftarrow> onic_pf_mbox_irq_init (of_nat vid); if rv < 0 then undo_interrupt rv else init_error_intr (vid + 1) } })
      (init_outcome p0 A0)" for r
    using undo [of r] fin by simp
  show ?thesis
    unfolding init_user_intr_def
    by (rule uses_pre, rule uses_bind, rule uses_bind, rule tail, rule uses_perform_errno, rule uses_perform)
      (auto intro: held_after [simplified] simp: charge_def bit_simps)
qed

text \<open>A PF that has no interrupts yet.\<close>

definition intr_free :: "onic_private \<Rightarrow> bool" where
  "intr_free p \<longleftrightarrow> (\<forall>i<unat (pr_num_q_vectors p). pr_q_vector p i = None) \<and>
     \<not> bit (pr_state p) ONIC_ERROR_INTR \<and> \<not> bit (pr_state p) ONIC_USER_INTR \<and> hw_qdma (pr_hw p) \<noteq> None"

lemma drop_vecs_state: "drop_vecs X p = p0 \<Longrightarrow> pr_state p = pr_state p0 \<and> pr_num_q_vectors p = pr_num_q_vectors p0 \<and> pr_hw p = pr_hw p0 \<and> pr_flags p = pr_flags p0"
  by (auto simp: drop_vecs_def)

lemma vecs_set_held:
  assumes "vecs_set p0 A0 n k p B" "k \<le> n" "n = unat (pr_num_q_vectors p0)" "intr_free p0"
  shows "\<exists>N. names k N \<and> irqs_held p0 A0 N p B \<and> \<not> bit (pr_state p) ONIC_ERROR_INTR \<and> \<not> bit (pr_state p) ONIC_USER_INTR"
proof -
  from assms(1) obtain N where N: "names k N" "B = N + (pf_vecs_res k p + A0)" "drop_vecs {..<n} p = p0"
    "\<forall>i<n. k \<le> i \<longrightarrow> pr_q_vector p i = None" by (auto simp: vecs_set_def)
  note st = drop_vecs_state [OF N(3)]
  have bits: "\<not> bit (pr_state p) 0" "\<not> bit (pr_state p) 1" using assms(4) st by (simp_all add: intr_free_def)
  have "pf_vecs_res n p = pf_vecs_res k p"
    unfolding pf_vecs_res_def by (rule sum.mono_neutral_right) (use assms(2) N(4) in \<open>auto simp: pf_vec_res_def\<close>)
  then have "pf_irq_res p = pf_vecs_res k p" using bits st assms(3) by (simp add: pf_irq_res_def intr_res_def)
  moreover have "no_intr p = p0"
  proof -
    have "pr_state_update (\<lambda>w. unset_bit (Suc 0) (if bit (pr_flags p) 0 then unset_bit 0 w else w)) p = p"
      using bits by (cases p) (simp add: unset_bit_idle)
    then show ?thesis using N(3) st assms(3) by (simp add: no_intr_def)
  qed
  ultimately show ?thesis
    using N(1,2) bits assms(4) by (intro exI [of _ N]) (simp add: irqs_held_def intr_free_def)
qed

lemma irqs_held_add: "irqs_held p0 A0 L p B \<Longrightarrow> irqs_held p0 A0 (V + L) p (V + B)"
  by (simp add: irqs_held_def ac_simps)

lemma uses_init_interrupt:
  assumes "intr_free p0"
  shows "uses (\<lambda>p A. p = p0 \<and> A = A0) onic_init_interrupt (init_outcome p0 A0)"
proof -
  let ?n = "unat (pr_num_q_vectors p0)"
  have start: "vecs_set p0 A0 ?n 0 p0 A0"
  proof -
    have "drop_vecs {..<?n} p0 = p0" using assms by (cases p0) (auto simp: intr_free_def drop_vecs_def fun_eq_iff)
    then show ?thesis using assms by (auto simp: vecs_set_def pf_vecs_res_def names_def intr_free_def)
  qed
  let ?M = "\<lambda>r. case r of None \<Rightarrow> (\<lambda>_ _. True) | Some e \<Rightarrow> if e < (0 :: int) then vecs_failed p0 A0 ?n else (\<lambda>p A. e = 0 \<and> vecs_set p0 A0 ?n ?n p A)"
  have tail: "uses (?M r) (case r of None \<Rightarrow> ret None | Some e \<Rightarrow> if e < 0 then undo_interrupt e else init_user_intr ?n)
      (init_outcome p0 A0)" for r
  proof (cases r)
    case None
    then show ?thesis by simp (rule uses_pre, rule uses_ret, simp add: init_outcome_def)
  next
    case (Some e)
    have "uses (vecs_failed p0 A0 ?n) (undo_interrupt e) (init_outcome p0 A0)" if e: "e < 0"
    proof (rule uses_at)
      fix p1 A1
      assume "vecs_failed p0 A0 ?n p1 A1"
      then obtain k V B where k: "k \<le> ?n" "scrap V" "A1 = V + B" "vecs_set p0 A0 ?n k p1 B" by (auto simp: vecs_failed_def)
      from vecs_set_held [OF k(4,1) refl assms] obtain N where N: "names k N" "irqs_held p0 A0 N p1 B" by blast
      have "left_over k (V + N)" unfolding left_over_def
        by (rule exI [of _ N], rule exI [of _ V]) (simp add: N(1) k(2) add.commute)
      from undo_outcome [OF this k(1) e] show "uses (\<lambda>p A. p = p1 \<and> A = A1) (undo_interrupt e) (init_outcome p0 A0)"
        by (rule uses_pre) (simp add: k(3) irqs_held_add [OF N(2)])
    qed
    moreover have "uses (\<lambda>p A. vecs_set p0 A0 ?n ?n p A) (init_user_intr ?n) (init_outcome p0 A0)"
    proof (rule uses_at)
      fix p1 A1
      assume "vecs_set p0 A0 ?n ?n p1 A1"
      from vecs_set_held [OF this order.refl refl assms] obtain N where N: "names ?n N" "irqs_held p0 A0 N p1 A1"
        "\<not> bit (pr_state p1) ONIC_ERROR_INTR \<and> \<not> bit (pr_state p1) ONIC_USER_INTR" by blast
      show "uses (\<lambda>p A. p = p1 \<and> A = A1) (init_user_intr ?n) (init_outcome p0 A0)"
        by (rule uses_pre [OF uses_init_user [OF N(1)]]) (use N in auto)
    qed
    ultimately show ?thesis by (auto simp: Some intro: uses_pre)
  qed
  show ?thesis
    unfolding onic_init_interrupt_def Let_def
    by (rule uses_get_at, rule uses_bind [OF tail uses_pre [OF uses_init_vecs]]) (use start in simp_all)
qed

section \<open>Properties\<close>


text \<open>A set-up followed by a tear-down leaks the name of every vector. After \<^verbatim>\<open>onic_init_interrupt\<close> succeeds and
  \<^verbatim>\<open>onic_clear_interrupt\<close> runs, all interrupts and vector objects are given back, none twice, and the private data is
  as before; but one \<^verbatim>\<open>vmalloc\<close> area per queue vector stays allocated.\<close>

theorem pf_interrupts_leak_names:
  assumes "intr_free (priv s)" "run_state onic_init_interrupt s = (Some 0, s1)" "run_state onic_clear_interrupt s1 = (r, s2)"
  shows "r = Some () \<and> priv s2 = priv s \<and> faults (ledger (trace s2)) = faults (ledger (trace s)) \<and>
    (\<exists>N. names (unat (pr_num_q_vectors (priv s))) N \<and> held (ledger (trace s2)) = N + held (ledger (trace s)))"
proof -
  from usesD [OF uses_init_interrupt [OF assms(1)] assms(2)] obtain N where
    N: "names (unat (pr_num_q_vectors (priv s))) N" "held (ledger (trace s1)) = N + (pf_irq_res (priv s1) + held (ledger (trace s)))"
    "no_intr (priv s1) = priv s" "faults (ledger (trace s1)) = faults (ledger (trace s))" "hw_qdma (pr_hw (priv s)) \<noteq> None"
    by (auto simp: init_outcome_def irqs_held_def)
  have "hw_qdma (pr_hw (priv s1)) \<noteq> None" using N(3,5) no_intr_sel(1) [of "priv s1"] by simp
  with N(2) usesD [OF uses_clear_interrupt [where Q = "\<lambda>r p A. r = Some () \<and> p = no_intr (priv s1) \<and>
      A = held (ledger (trace s1)) - pf_irq_res (priv s1)"] assms(3)] N(3)
  have "r = Some () \<and> priv s2 = priv s \<and> held (ledger (trace s2)) = N + held (ledger (trace s)) \<and>
      faults (ledger (trace s2)) = faults (ledger (trace s1))"
    by (auto simp: ac_simps)
  with N(1,4) show ?thesis by auto
qed

text \<open>The second PF with two queue vectors; every allocation succeeds.\<close>

definition small_pf :: drv_state where
  "small_pf = \<lparr>ext = (\<lambda>tr c. case c of Mem _ \<Rightarrow> 0x7000 + 64 * int (length tr) | _ \<Rightarrow> 0), trace = [],
     priv = zero_private\<lparr>pr_num_q_vectors := 2, pr_hw := zero_hardware\<lparr>hw_qdma := Some \<lparr>qdev_self = 0x5000, qdev_func_id = 1,
       qdev_q_base = 0, qdev_num_queues = 2, qdev_addr = 0x1000\<rparr>\<rparr>\<rparr>\<rparr>"

lemma small_pf_free: "intr_free (priv small_pf)"
  by (simp add: intr_free_def small_pf_def zero_private_def)

lemma small_pf_init: "fst (run_state onic_init_interrupt small_pf) = Some 0"
proof -
  have "[0..<unat (pr_num_q_vectors (priv small_pf))] = [0, 1]" by (simp add: small_pf_def upt_rec)
  then show ?thesis
    by (simp add: onic_init_interrupt_def onic_init_q_vector_def init_user_intr_def run_simps small_pf_def zero_private_def)
qed


theorem pf_interrupts_leak_names_witness:
  "\<exists>N. names 2 N \<and> held (ledger (trace (snd (run_state onic_clear_interrupt (snd (run_state onic_init_interrupt small_pf)))))) = N"
proof -
  obtain s1 where 1: "run_state onic_init_interrupt small_pf = (Some 0, s1)" using small_pf_init by (metis prod.collapse)
  obtain r s2 where 2: "run_state onic_clear_interrupt s1 = (r, s2)" by (cases "run_state onic_clear_interrupt s1")
  from pf_interrupts_leak_names [OF small_pf_free 1 2] 1 2 show ?thesis
    by (auto simp: small_pf_def ledger_def ledger_init_def)
qed

end
