(* ===== verification/Pf_Tx.thy ===== *)
theory Pf_Tx
  imports Hardware Qdma_Export Packets Stats
begin

text \<open>
  Transmission of a PF (\<^verbatim>\<open>onic_netdev.c\<close>): completion, packets of the network stack and XDP frames, for kernels
  from 6.3 on. A function that gets a pointer to a queue works on the queue as a value and returns it. \<open>qdev\<close> is
  \<^verbatim>\<open>priv->hw.qdma\<close>, which probe sets before it registers the network device. A NULL pointer that the C code dereferences,
  and a division by zero, make the result \<open>None\<close>.
\<close>

abbreviation (input) ONIC_XDP_PASS :: u32 where "ONIC_XDP_PASS \<equiv> 1"
abbreviation (input) ONIC_XDP_CONSUMED :: u32 where "ONIC_XDP_CONSUMED \<equiv> 2"
abbreviation (input) ONIC_XDP_TX :: u32 where "ONIC_XDP_TX \<equiv> 4"
abbreviation (input) ONIC_XDP_REDIR :: u32 where "ONIC_XDP_REDIR \<equiv> 8"
abbreviation (input) NETDEV_TX_OK :: int where "NETDEV_TX_OK \<equiv> 0"
abbreviation (input) NETDEV_TX_BUSY :: int where "NETDEV_TX_BUSY \<equiv> 16"
abbreviation (input) XDP_XMIT_FLUSH :: u32 where "XDP_XMIT_FLUSH \<equiv> 1"

section \<open>Completion\<close>

text \<open>The three kinds of entries; an unknown kind is only logged.\<close>

definition release_entry_pf :: "onic_tx_buffer \<Rightarrow> ('z, unit) drv" where
  "release_entry_pf buf =
     (if tb_type buf = ONIC_TX_SKB then do {
        invoke (Skb (Dma_unmap_single (tb_dma_addr buf) (tb_len buf)));
        invoke (Skb (Dev_kfree_skb (tb_skb buf))) }
      else if tb_type buf = ONIC_TX_XDPF then invoke (Xdp (Xdp_return_frame (tb_skb buf)))
      else if tb_type buf = ONIC_TX_XDPF_XMIT then do {
        invoke (Skb (Dma_unmap_single (tb_dma_addr buf) (tb_len buf)));
        invoke (Xdp (Xdp_return_frame (tb_skb buf))) }
      else ret ())"

definition known_type :: "onic_tx_buffer \<Rightarrow> bool" where
  "known_type b \<longleftrightarrow> tb_type b = ONIC_TX_SKB \<or> tb_type b = ONIC_TX_XDPF \<or> tb_type b = ONIC_TX_XDPF_XMIT"

text \<open>The packet pointer is cleared, the type is not.\<close>

definition forget_packet :: "onic_tx_buffer \<Rightarrow> onic_tx_buffer" where
  "forget_packet b = (if known_type b then b\<lparr>tb_skb := 0\<rparr> else b)"

fun pf_reap :: "nat \<Rightarrow> onic_tx_queue \<Rightarrow> ('z, onic_tx_queue) drv" where
  "pf_reap 0 q = ret q"
| "pf_reap (Suc n) q = do {
     let i = ring_tail (tq_ring q);
     let buf = tq_buffer q ! i;
     release_entry_pf buf;
     pf_reap n (q\<lparr>tq_buffer := (tq_buffer q)[i := forget_packet buf],
                 tq_ring := onic_ring_increment_tail (tq_ring q)\<rparr>) }"

definition no_wb_stat :: qdma_wb_stat where
  "no_wb_stat = \<lparr>wb_pidx = 0, wb_cidx = 0\<rparr>"

text \<open>The number of entries between the tail and the reported index: an int, made positive by the size of the ring.\<close>

definition clean_work :: "onic_ring \<Rightarrow> u16 \<Rightarrow> nat" where
  "clean_work ring cidx =
     (let work = int (unat cidx) - int (unat (ring_next_to_clean ring))
      in nat (if work < 0 then work + int (unat (onic_ring_get_real_count ring)) else work))"

definition onic_tx_clean :: "qdma_dev \<Rightarrow> onic_tx_queue \<Rightarrow> ('z, onic_tx_queue) drv" where
  "onic_tx_clean qdev q =
     (if bit (tq_state q) 0 then ret q
      else do {
        let q = q\<lparr>tq_state := set_bit 0 (tq_state q)\<rparr>;
        wb \<leftarrow> qdma_unpack_wb_stat no_wb_stat (ring_wb (tq_ring q)) 0;
        if wb_cidx wb = ring_next_to_clean (tq_ring q) then do {
          (if ring_next_to_use (tq_ring q) \<noteq> ring_next_to_clean (tq_ring q)
           then do {
             _ \<leftarrow> qdma_read_reg qdev (QDMA_OFFSET_DMAP_SEL_H2C_DESC_PIDX + ucast (tq_qid q) * 16);
             ret () }
           else ret ());
          ret (q\<lparr>tq_state := unset_bit 0 (tq_state q)\<rparr>) }
        else do {
          q \<leftarrow> pf_reap (clean_work (tq_ring q) (wb_cidx wb)) q;
          ret (q\<lparr>tq_state := unset_bit 0 (tq_state q)\<rparr>) } })"

section \<open>One entry\<close>

text \<open>A descriptor and its buffer at the head of the ring, which then advances.\<close>

definition put_entry :: "u32 \<Rightarrow> ptr \<Rightarrow> dma_addr \<Rightarrow> u32 \<Rightarrow> onic_tx_queue \<Rightarrow> onic_tx_queue" where
  "put_entry type pkt a len q =
     (let i = ring_head (tq_ring q)
      in q\<lparr>tq_buffer := (tq_buffer q)[i := (tq_buffer q ! i)\<lparr>tb_type := type, tb_skb := pkt, tb_dma_addr := a, tb_len := len\<rparr>],
           tq_ring := onic_ring_increment_head (tq_ring q)\<rparr>)"

definition write_desc :: "onic_tx_queue \<Rightarrow> dma_addr \<Rightarrow> u32 \<Rightarrow> ('z, unit) drv" where
  "write_desc q a len = qdma_pack_h2c_st_desc (ring_desc (tq_ring q)) (QDMA_H2C_ST_DESC_SIZE * ring_head (tq_ring q))
     \<lparr>h2c_metadata = len, h2c_len = ucast len, h2c_src_addr = a\<rparr>"

definition count_tx :: "nat \<Rightarrow> u32 \<Rightarrow> unit onic" where
  "count_tx cpu len = upd_stats cpu (\<lambda>st. st\<lparr>st_tx_packets := st_tx_packets st + 1, st_tx_bytes := st_tx_bytes st + ucast len\<rparr>)"

section \<open>XDP frames\<close>

text \<open>\<open>frame_size\<close> is \<^verbatim>\<open>sizeof(struct xdp_frame)\<close>, a constant of the kernel.\<close>

definition xdp_frame_dma :: "nat \<Rightarrow> ptr \<Rightarrow> u32 \<Rightarrow> ('z, dma_addr) drv" where
  "xdp_frame_dma frame_size xdpf len = do {
     pg \<leftarrow> perform (Xdp (Xdp_frame_page xdpf));
     a \<leftarrow> perform (Page (Page_pool_get_dma_addr (of_int pg)));
     h \<leftarrow> perform (Xdp (Xdp_frame_headroom xdpf));
     let dma_addr = of_int a + of_nat frame_size + of_int h;
     invoke (Skb (Dma_sync_single_for_device dma_addr len));
     ret dma_addr }"

definition submit_frame :: "u32 \<Rightarrow> ptr \<Rightarrow> dma_addr \<Rightarrow> u32 \<Rightarrow> onic_tx_queue \<Rightarrow> (u32 \<times> onic_tx_queue) onic" where
  "submit_frame type xdpf a len q = do {
     write_desc q a len;
     cpu \<leftarrow> this_cpu;
     count_tx cpu len;
     ret (ONIC_XDP_TX, put_entry type xdpf a len q) }"

definition onic_xmit_xdp_ring :: "nat \<Rightarrow> qdma_dev \<Rightarrow> onic_tx_queue \<Rightarrow> ptr \<Rightarrow> bool \<Rightarrow> (u32 \<times> onic_tx_queue) onic" where
  "onic_xmit_xdp_ring frame_size qdev q xdpf dma_map = do {
     q \<leftarrow> onic_tx_clean qdev q;
     if onic_ring_full (tq_ring q) then ret (of_int NETDEV_TX_BUSY, q)
     else do {
       l \<leftarrow> perform (Xdp (Xdp_frame_len xdpf));
       let len = of_int l;
       if dma_map then do {
         a \<leftarrow> perform (Skb (Dma_map_single xdpf len));
         bad \<leftarrow> perform (Skb (Dma_mapping_error (of_int a)));
         if bad \<noteq> 0 then ret (ONIC_XDP_CONSUMED, q) else submit_frame ONIC_TX_XDPF_XMIT xdpf (of_int a) len q }
       else do {
         a \<leftarrow> xdp_frame_dma frame_size xdpf len;
         submit_frame ONIC_TX_XDPF xdpf a len q } } }"

text \<open>The queue of the running CPU; \<open>None\<close> for a remainder by zero.\<close>

definition onic_xdp_tx_queue_mapping :: "onic_private \<Rightarrow> nat \<Rightarrow> nat option" where
  "onic_xdp_tx_queue_mapping p cpu =
     (let n = unat (pr_num_tx_queues p)
      in if cpu \<ge> n then (if n = 0 then None else Some (cpu mod n)) else Some cpu)"

definition put_tx_queue :: "nat \<Rightarrow> onic_tx_queue \<Rightarrow> unit onic" where
  "put_tx_queue i q = upd_priv (pr_tx_queue_update (\<lambda>t. t(i := Some q)))"

definition xdp_xmit_one :: "nat \<Rightarrow> qdma_dev \<Rightarrow> ptr \<Rightarrow> onic_tx_queue \<times> int \<Rightarrow> (onic_tx_queue \<times> int) onic" where
  "xdp_xmit_one frame_size qdev frame = (\<lambda>(q, drops). do {
     (err, q) \<leftarrow> onic_xmit_xdp_ring frame_size qdev q frame True;
     if err \<noteq> ONIC_XDP_TX then do {
       invoke (Xdp (Xdp_return_frame_rx_napi frame));
       ret (q\<lparr>tq_xdp_xmit_err := tq_xdp_xmit_err q + 1\<rparr>, drops + 1) }
     else ret (q\<lparr>tq_xdp_xmit := tq_xdp_xmit q + 1\<rparr>, drops) })"

definition xdp_xmit_all :: "nat \<Rightarrow> qdma_dev \<Rightarrow> nat \<Rightarrow> ptr list \<Rightarrow> u32 \<Rightarrow> onic_tx_queue \<Rightarrow> int onic" where
  "xdp_xmit_all frame_size qdev i frames flags q = do {
     invoke (Sync (Mutex_lock (Txq_lock i)));
     (q, drops) \<leftarrow> for_each_acc frames (xdp_xmit_one frame_size qdev) (q, 0);
     put_tx_queue i q;
     (if flags AND XDP_XMIT_FLUSH \<noteq> 0 then onic_set_tx_head qdev (tq_qid q) (ring_next_to_use (tq_ring q)) else ret ());
     invoke (Sync (Mutex_unlock (Txq_lock i)));
     ret (int (length frames) - drops) }"

definition onic_xdp_xmit :: "nat \<Rightarrow> ptr list \<Rightarrow> u32 \<Rightarrow> int option onic" where
  "onic_xdp_xmit frame_size frames flags = do {
     cpu \<leftarrow> this_cpu;
     p \<leftarrow> get_priv;
     case onic_xdp_tx_queue_mapping p cpu of
       None \<Rightarrow> ret None
     | Some i \<Rightarrow> (case pr_tx_queue p i of
         None \<Rightarrow> ret None
       | Some q \<Rightarrow>
           if flags AND NOT XDP_XMIT_FLUSH \<noteq> 0 then do {
             put_tx_queue i (q\<lparr>tq_xdp_xmit_err := tq_xdp_xmit_err q + 1\<rparr>);
             ret (Some (- EINVAL)) }
           else (case hw_qdma (pr_hw p) of
             None \<Rightarrow> ret None
           | Some qdev \<Rightarrow> do {
               n \<leftarrow> xdp_xmit_all frame_size qdev i frames flags q;
               ret (Some n) })) }"

section \<open>Packets of the network stack\<close>

definition pf_submit_skb :: "nat \<Rightarrow> qdma_dev \<Rightarrow> nat \<Rightarrow> ptr \<Rightarrow> onic_tx_queue \<Rightarrow> int onic" where
  "pf_submit_skb cpu qdev qid skb q = do {
     l \<leftarrow> perform (Skb (Skb_len skb));
     let len = of_int l;
     a \<leftarrow> perform (Skb (Dma_map_single skb len));
     bad \<leftarrow> perform (Skb (Dma_mapping_error (of_int a)));
     if bad \<noteq> 0 then do {
       invoke (Skb (Dev_kfree_skb skb));
       upd_stats cpu (\<lambda>st. st\<lparr>st_tx_dropped := st_tx_dropped st + 1, st_tx_errors := st_tx_errors st + 1\<rparr>);
       ret NETDEV_TX_OK }
     else do {
       write_desc q (of_int a) len;
       let q = put_entry ONIC_TX_SKB skb (of_int a) len q;
       put_tx_queue qid q;
       count_tx cpu len;
       bell \<leftarrow> (if onic_ring_full (tq_ring q) then ret True
         else do { more \<leftarrow> perform (Net Netdev_xmit_more); ret (more = 0) });
       (if bell then onic_set_tx_head qdev (of_nat qid) (ring_next_to_use (tq_ring q)) else ret ());
       ret NETDEV_TX_OK } }"

text \<open>The result of \<^verbatim>\<open>skb_put_padto\<close> is only logged.\<close>

definition onic_xmit_frame :: "ptr \<Rightarrow> int option onic" where
  "onic_xmit_frame skb = do {
     m \<leftarrow> perform (Skb (Skb_queue_mapping skb));
     let qid = unat (of_int m :: u16);
     cpu \<leftarrow> this_cpu;
     p \<leftarrow> get_priv;
     case pr_tx_queue p qid of
       None \<Rightarrow> ret None
     | Some q \<Rightarrow> (case hw_qdma (pr_hw p) of
         None \<Rightarrow> ret None
       | Some qdev \<Rightarrow> do {
           q \<leftarrow> onic_tx_clean qdev q;
           put_tx_queue qid q;
           if onic_ring_full (tq_ring q) then ret (Some NETDEV_TX_BUSY)
           else do {
             _ \<leftarrow> perform (Skb (Skb_put_padto skb ETH_ZLEN));
             r \<leftarrow> pf_submit_skb cpu qdev qid skb q;
             ret (Some r) } }) }"

section \<open>Operations that leave the private data alone\<close>

lemma io_only_pf_tx [io_intro]:
  "io_only (release_entry_pf b)" "io_only (pf_reap n q)" "io_only (onic_tx_clean qdev q)" "io_only (write_desc q dma len)"
  "io_only (xdp_frame_dma fs xdpf len)" "io_only (onic_set_tx_head qdev qid i)" "io_only (onic_set_rx_head qdev qid i)"
  "io_only (onic_set_completion_tail qdev qid i arm)" "io_only (onic_qdma_clear_error_interrupt qdev)"
proof -
  show 1: "io_only (release_entry_pf b)" for b by (auto simp: release_entry_pf_def intro!: io_intro)
  show 2: "io_only (pf_reap n q)" for n and q
    by (induction n q rule: pf_reap.induct) (auto simp: Let_def intro!: io_intro 1)
  show "io_only (onic_tx_clean qdev q)" unfolding onic_tx_clean_def by (auto intro!: io_intro 2)
  show "io_only (write_desc q dma len)" "io_only (xdp_frame_dma fs xdpf len)" "io_only (onic_set_tx_head qdev qid i)"
    "io_only (onic_set_rx_head qdev qid i)" "io_only (onic_set_completion_tail qdev qid i arm)"
    "io_only (onic_qdma_clear_error_interrupt qdev)"
    unfolding write_desc_def xdp_frame_dma_def onic_set_tx_head_def onic_set_rx_head_def onic_qdma_set_q_pidx_def
      onic_set_completion_tail_def onic_qdma_set_cmpl_cidx_def onic_qdma_clear_error_interrupt_def
    by (auto intro!: io_intro)
qed

section \<open>Completion takes entries off a queue\<close>

abbreviation pf_entries :: "onic_tx_queue \<Rightarrow> nat" where
  "pf_entries q \<equiv> unat (onic_ring_get_real_count (tq_ring q))"

definition pf_shape :: "onic_tx_queue \<Rightarrow> bool" where
  "pf_shape q \<longleftrightarrow> ring_ok (pf_entries q) (tq_ring q) \<and> length (tq_buffer q) = pf_entries q"

definition pf_pending :: "onic_tx_queue \<Rightarrow> onic_tx_buffer list" where
  "pf_pending q = contents (pf_entries q) (tq_ring q) (tq_buffer q)"

text \<open>The calls that release one entry.\<close>

definition release_calls :: "onic_tx_buffer \<Rightarrow> kcall list" where
  "release_calls b =
     (if tb_type b = ONIC_TX_SKB then [Skb (Dma_unmap_single (tb_dma_addr b) (tb_len b)), Skb (Dev_kfree_skb (tb_skb b))]
      else if tb_type b = ONIC_TX_XDPF then [Xdp (Xdp_return_frame (tb_skb b))]
      else if tb_type b = ONIC_TX_XDPF_XMIT
      then [Skb (Dma_unmap_single (tb_dma_addr b) (tb_len b)), Xdp (Xdp_return_frame (tb_skb b))] else [])"

lemma scripted_release: "scripted (release_entry_pf b) (release_calls b)"
  unfolding release_entry_pf_def release_calls_def
  by (auto intro!: script_intro scripted_eq [OF scripted_bind [OF scripted_invoke scripted_invoke]])

lemma real_count_increment [simp]:
  "onic_ring_get_real_count (onic_ring_increment_tail r) = onic_ring_get_real_count r"
  "onic_ring_get_real_count (onic_ring_increment_head r) = onic_ring_get_real_count r"
  "onic_ring_get_real_count (r\<lparr>ring_next_to_clean := i\<rparr>) = onic_ring_get_real_count r"
  "onic_ring_get_real_count (r\<lparr>ring_next_to_use := i\<rparr>) = onic_ring_get_real_count r"
  by (simp_all add: onic_ring_increment_tail_def onic_ring_increment_head_def onic_ring_get_real_count_def Let_def)

text \<open>One step of the loop, on the queue.\<close>

definition reaped :: "onic_tx_queue \<Rightarrow> onic_tx_queue" where
  "reaped q = q\<lparr>tq_buffer := (tq_buffer q)[ring_tail (tq_ring q) := forget_packet (tq_buffer q ! ring_tail (tq_ring q))],
     tq_ring := onic_ring_increment_tail (tq_ring q)\<rparr>"

lemma pf_reap_Suc: "pf_reap (Suc n) q = do { release_entry_pf (tq_buffer q ! ring_tail (tq_ring q)); pf_reap n (reaped q) }"
  by (simp add: reaped_def Let_def)

lemma reaped_entries [simp]: "onic_ring_get_real_count (tq_ring (reaped q)) = onic_ring_get_real_count (tq_ring q)"
  by (simp add: reaped_def)

lemma reaped_shape: "pf_shape q \<Longrightarrow> pf_shape (reaped q)"
  using pf_ring.pop_ok [of "tq_ring q"] by (simp add: pf_shape_def reaped_def)

lemma reaped_pending:
  assumes "pf_shape q" "ring_head (tq_ring q) \<noteq> ring_tail (tq_ring q)"
  shows "pf_pending q = tq_buffer q ! ring_tail (tq_ring q) # pf_pending (reaped q)"
  using assms pf_ring.contents_pop [of "tq_ring q" "tq_buffer q"] pf_ring.contents_pop_cleared [of "tq_ring q" "tq_buffer q"]
  by (simp add: pf_shape_def pf_pending_def reaped_def)

lemma pf_reap_fifo:
  assumes "pf_shape q" "k \<le> length (pf_pending q)"
  shows "\<exists>q' evs. run_state (pf_reap k q) s = (q', s\<lparr>trace := trace s @ evs\<rparr>) \<and> pf_shape q' \<and> tq_state q' = tq_state q \<and>
    pf_pending q' = drop k (pf_pending q) \<and> map fst evs = concat (map release_calls (take k (pf_pending q))) \<and>
    ring_tail (tq_ring q') = slot (pf_entries q) (tq_ring q) k"
  using assms
proof (induction k arbitrary: q s)
  case 0
  then show ?case by (auto simp: pf_shape_def slot_0 intro!: exI [of _ "[]"])
next
  case (Suc k)
  have ok: "ring_ok (pf_entries q) (tq_ring q)" using Suc.prems(1) by (simp add: pf_shape_def)
  have ne: "ring_head (tq_ring q) \<noteq> ring_tail (tq_ring q)"
    using Suc.prems(2) occupied_0 [OF ok] by (auto simp: pf_pending_def)
  note pending = reaped_pending [OF Suc.prems(1) ne]
  obtain e1 where 1: "run_state (release_entry_pf (tq_buffer q ! ring_tail (tq_ring q))) s = ((), s\<lparr>trace := trace s @ e1\<rparr>)"
    "map fst e1 = release_calls (tq_buffer q ! ring_tail (tq_ring q))" by (rule scriptedD [OF scripted_release])
  have "k \<le> length (pf_pending (reaped q))" using Suc.prems(2) pending by simp
  from Suc.IH [OF reaped_shape [OF Suc.prems(1)] this, of "s\<lparr>trace := trace s @ e1\<rparr>"] obtain q' e2 where
    2: "run_state (pf_reap k (reaped q)) (s\<lparr>trace := trace s @ e1\<rparr>) = (q', s\<lparr>trace := trace s @ (e1 @ e2)\<rparr>)"
      "pf_shape q'" "tq_state q' = tq_state (reaped q)" "pf_pending q' = drop k (pf_pending (reaped q))"
      "map fst e2 = concat (map release_calls (take k (pf_pending (reaped q))))"
      "ring_tail (tq_ring q') = slot (pf_entries (reaped q)) (tq_ring (reaped q)) k" by auto
  have "slot (pf_entries q) (tq_ring (reaped q)) k = slot (pf_entries q) (tq_ring q) (Suc k)"
    using pf_ring.slot_pop [OF ok] by (simp add: reaped_def)
  with 1 2 pending show ?case
    by (intro exI [of _ q'] exI [of _ "e1 @ e2"]) (simp add: pf_reap_Suc del: pf_reap.simps, simp add: reaped_def)
qed

section \<open>The number of entries to clean\<close>

lemma clean_work_slot:
  assumes "ring_ok (unat (onic_ring_get_real_count r)) r" "unat cidx = slot (unat (onic_ring_get_real_count r)) r k"
    "k < unat (onic_ring_get_real_count r)"
  shows "clean_work r cidx = k" "cidx = ring_next_to_clean r \<longleftrightarrow> k = 0"
proof -
  let ?n = "unat (onic_ring_get_real_count r)" and ?t = "unat (ring_next_to_clean r)"
  have "unat cidx = (if ?t + k < ?n then ?t + k else ?t + k - ?n)" "?t < ?n"
    using assms by (simp_all add: slot_def ring_ok_def mod_less_double)
  then show "clean_work r cidx = k"
    using assms(3) unfolding clean_work_def Let_def by (auto simp only: split: if_splits)
  have "cidx = ring_next_to_clean r \<longleftrightarrow> slot ?n r k = slot ?n r 0"
    using slot_0 [OF assms(1)] assms(2) by (metis unsigned_word_eqI)
  then show "cidx = ring_next_to_clean r \<longleftrightarrow> k = 0" using slot_inj [OF assms(1), of k 0] assms(3) by auto
qed

section \<open>A completion run\<close>

text \<open>The consumer index in the status entry, which is read in two loads.\<close>

definition pf_wb_cidx :: "drv_state \<Rightarrow> onic_tx_queue \<Rightarrow> u16" where
  "pf_wb_cidx s q = wb_cidx (fst (run_state (qdma_unpack_wb_stat no_wb_stat (ring_wb (tq_ring q)) 0) s))"

lemma unpack_wb_run:
  assumes "b \<noteq> 0"
  obtains evs where "run_state (qdma_unpack_wb_stat st b 0) s =
      (fst (run_state (qdma_unpack_wb_stat st b 0) s), s\<lparr>trace := trace s @ evs\<rparr>)"
    "map fst evs = [Mem (Dma_read64 b 0), Mem (Dma_read64 b 0)]"
  using assms by (auto simp: qdma_unpack_wb_stat_def dma_read64_def run_simps Let_def)

definition clean_calls :: "qdma_dev \<Rightarrow> onic_tx_queue \<Rightarrow> nat \<Rightarrow> kcall list" where
  "clean_calls qdev q k = [Mem (Dma_read64 (ring_wb (tq_ring q)) 0), Mem (Dma_read64 (ring_wb (tq_ring q)) 0)] @
     (if k = 0 \<and> pf_pending q \<noteq> []
      then [Io (Ioread32 (qdev_addr qdev) (QDMA_OFFSET_DMAP_SEL_H2C_DESC_PIDX + ucast (tq_qid q) * 16))] else []) @
     concat (map release_calls (take k (pf_pending q)))"

lemma pending_empty: "pf_shape q \<Longrightarrow> pf_pending q = [] \<longleftrightarrow> ring_next_to_use (tq_ring q) = ring_next_to_clean (tq_ring q)"
  using occupied_0 [of "pf_entries q" "tq_ring q"]
  by (auto simp: pf_shape_def pf_pending_def contents_def intro: unsigned_word_eqI)

lemma pf_state_shape [simp]: "pf_shape (q\<lparr>tq_state := w\<rparr>) = pf_shape q" "pf_pending (q\<lparr>tq_state := w\<rparr>) = pf_pending q"
  by (simp_all add: pf_shape_def pf_pending_def)

lemma tx_clean_run:
  assumes "pf_shape q" "\<not> bit (tq_state q) 0" "ring_wb (tq_ring q) \<noteq> 0"
    "unat (pf_wb_cidx s q) = slot (pf_entries q) (tq_ring q) k" "k \<le> length (pf_pending q)"
  shows "\<exists>q' evs. run_state (onic_tx_clean qdev q) s = (q', s\<lparr>trace := trace s @ evs\<rparr>) \<and>
    map fst evs = clean_calls qdev q k \<and> pf_shape q' \<and> pf_pending q' = drop k (pf_pending q) \<and>
    ring_next_to_clean (tq_ring q') = pf_wb_cidx s q \<and> tq_state q' = tq_state q"
proof -
  let ?q = "q\<lparr>tq_state := set_bit 0 (tq_state q)\<rparr>"
  obtain wb e1 where 1: "run_state (qdma_unpack_wb_stat no_wb_stat (ring_wb (tq_ring q)) 0) s = (wb, s\<lparr>trace := trace s @ e1\<rparr>)"
    "map fst e1 = [Mem (Dma_read64 (ring_wb (tq_ring q)) 0), Mem (Dma_read64 (ring_wb (tq_ring q)) 0)]"
    by (rule unpack_wb_run [OF assms(3)])
  then have wb: "wb_cidx wb = pf_wb_cidx s q" by (simp add: pf_wb_cidx_def)
  have ok: "ring_ok (pf_entries q) (tq_ring q)" using assms(1) by (simp add: pf_shape_def)
  have k: "k < pf_entries q" using assms(5) occupied_less [OF ok] by (simp add: pf_pending_def)
  note idx = clean_work_slot [OF ok assms(4) k]
  note st = unset_set_bit_0 [OF assms(2)]
  show ?thesis
  proof (cases "k = 0")
    case True
    then have c: "wb_cidx wb = ring_next_to_clean (tq_ring q)" using idx(2) wb by simp
    obtain e2 where 2: "run_state (if ring_next_to_use (tq_ring q) \<noteq> ring_next_to_clean (tq_ring q) then do {
        _ \<leftarrow> qdma_read_reg qdev (QDMA_OFFSET_DMAP_SEL_H2C_DESC_PIDX + ucast (tq_qid q) * 16); ret () } else ret ())
        (s\<lparr>trace := trace s @ e1\<rparr>) = ((), s\<lparr>trace := trace s @ (e1 @ e2)\<rparr>)"
      "map fst (e1 @ e2) = clean_calls qdev q k"
      using True 1(2) pending_empty [OF assms(1)] by (auto simp: clean_calls_def qdma_read_reg_def run_simps)
    show ?thesis
      using assms(1,2) 1(1) 2 c True st wb
      by (intro exI [of _ q] exI [of _ "e1 @ e2"]) (auto simp: onic_tx_clean_def Let_def split: if_splits prod.splits)
  next
    case False
    then have c: "wb_cidx wb \<noteq> ring_next_to_clean (tq_ring q)" "clean_work (tq_ring q) (wb_cidx wb) = k"
      using idx wb by simp_all
    from pf_reap_fifo [of ?q k "s\<lparr>trace := trace s @ e1\<rparr>"] assms(1,5) obtain q' e2 where
      2: "run_state (pf_reap k ?q) (s\<lparr>trace := trace s @ e1\<rparr>) = (q', s\<lparr>trace := trace s @ (e1 @ e2)\<rparr>)"
        "pf_shape q'" "tq_state q' = set_bit 0 (tq_state q)" "pf_pending q' = drop k (pf_pending q)"
        "map fst e2 = concat (map release_calls (take k (pf_pending q)))"
        "ring_tail (tq_ring q') = slot (pf_entries q) (tq_ring q) k" by auto
    have "ring_next_to_clean (tq_ring q') = pf_wb_cidx s q" using 2(6) assms(4) by (metis unsigned_word_eqI)
    with 2 1 assms(2) c False st show ?thesis
      by (intro exI [of _ "q'\<lparr>tq_state := unset_bit 0 (tq_state q')\<rparr>"] exI [of _ "e1 @ e2"])
        (simp add: onic_tx_clean_def Let_def clean_calls_def)
  qed
qed

section \<open>Conservation of packets, whatever the card reports\<close>

text \<open>
  The packets in the buffers of a queue, and those released in the account of the events; releasing NULL counts for
  nothing. An entry that holds a packet has a known type and lies between tail and head.
\<close>

definition held_pkts :: "onic_tx_queue \<Rightarrow> ptr multiset" where
  "held_pkts q = filter_mset (\<lambda>p. p \<noteq> 0) (mset (map tb_skb (tq_buffer q)))"

definition freed_pkts :: "packets \<Rightarrow> ptr multiset" where
  "freed_pkts d = filter_mset (\<lambda>p. p \<noteq> 0) (pk_freed d)"

definition pf_txq_ok :: "onic_tx_queue \<Rightarrow> bool" where
  "pf_txq_ok q \<longleftrightarrow> pf_shape q \<and> (\<forall>i<pf_entries q. tb_skb (tq_buffer q ! i) \<noteq> 0 \<longrightarrow> known_type (tq_buffer q ! i) \<and>
     i \<in> slot (pf_entries q) (tq_ring q) ` {..<occupied (pf_entries q) (tq_ring q)})"

lemma pf_txq_okI:
  assumes "pf_shape q" "\<And>i. i < pf_entries q \<Longrightarrow> tb_skb (tq_buffer q ! i) \<noteq> 0 \<Longrightarrow> known_type (tq_buffer q ! i) \<and>
     i \<in> slot (pf_entries q) (tq_ring q) ` {..<occupied (pf_entries q) (tq_ring q)}"
  shows "pf_txq_ok q"
  using assms by (simp add: pf_txq_ok_def)

lemma forget_packet_sel [simp]: "known_type (forget_packet b) = known_type b"
  by (simp add: forget_packet_def known_type_def)

lemma skbs_update:
  assumes "i < length bs"
  shows "add_mset (tb_skb (bs ! i)) (mset (map tb_skb (bs[i := x]))) = add_mset (tb_skb x) (mset (map tb_skb bs))"
proof -
  have "tb_skb (bs ! i) \<in># mset (map tb_skb bs)" using assms by simp
  then show ?thesis using mset_update [of i "map tb_skb bs" "tb_skb x"] assms
    by (simp add: map_update del: mset_map)
qed

lemma reaped_ok:
  assumes "pf_txq_ok q"
  shows "pf_txq_ok (reaped q)"
proof (rule pf_txq_okI)
  let ?n = "pf_entries q" and ?r = "tq_ring q" and ?t = "ring_tail (tq_ring q)"
  show "pf_shape (reaped q)" using assms by (simp add: pf_txq_ok_def reaped_shape)
  have ok: "ring_ok ?n ?r" "length (tq_buffer q) = ?n" using assms by (simp_all add: pf_txq_ok_def pf_shape_def)
  fix i assume i: "i < pf_entries (reaped q)" "tb_skb (tq_buffer (reaped q) ! i) \<noteq> 0"
  have b: "tb_skb (tq_buffer q ! i) \<noteq> 0" "i \<noteq> ?t \<or> \<not> known_type (tq_buffer q ! i)"
    using i ok by (cases "i = ?t"; auto simp: reaped_def forget_packet_def split: if_splits)+
  then have k: "known_type (tq_buffer q ! i)" "i \<in> slot ?n ?r ` {..<occupied ?n ?r}" "i \<noteq> ?t"
    using assms i(1) by (auto simp: pf_txq_ok_def)
  then have "ring_head ?r \<noteq> ?t" using occupied_0 [OF ok(1)] by auto
  from pf_ring.slots_pop(1) [OF ok(1) this] k show "known_type (tq_buffer (reaped q) ! i) \<and>
      i \<in> slot (pf_entries (reaped q)) (tq_ring (reaped q)) ` {..<occupied (pf_entries (reaped q)) (tq_ring (reaped q))}"
    by (auto simp: reaped_def)
qed

lemma release_freed:
  assumes "run_state (release_entry_pf b) s = ((), s')"
  shows "freed_pkts (packets (trace s')) = freed_pkts (packets (trace s)) + (if known_type b \<and> tb_skb b \<noteq> 0 then {#tb_skb b#} else {#})"
proof -
  obtain evs where e: "run_state (release_entry_pf b) s = ((), s\<lparr>trace := trace s @ evs\<rparr>)" "map fst evs = release_calls b"
    by (rule scriptedD [OF scripted_release])
  have "pk_freed (fold packets_step evs d) = pk_freed d + (if known_type b then {#tb_skb b#} else {#})" for d
    using e(2) by (auto simp: release_calls_def known_type_def packets_step_def split: if_splits)
  then show ?thesis using e(1) assms by (auto simp: pk.view_append freed_pkts_def)
qed

text \<open>What an operation does to a queue \<open>q\<close> when the packets \<open>M\<close> come in.\<close>

definition pf_moves :: "ptr multiset \<Rightarrow> onic_tx_queue \<Rightarrow> onic_tx_queue \<Rightarrow> packets \<Rightarrow> packets \<Rightarrow> bool" where
  "pf_moves M q q' d d' \<longleftrightarrow> (pf_txq_ok q \<longrightarrow> pf_txq_ok q' \<and> freed_pkts d' + held_pkts q' = freed_pkts d + held_pkts q + M)"

lemma pf_moves_refl: "pf_moves {#} q q d d"
  by (simp add: pf_moves_def)

lemma pf_moves_trans: "pf_moves M q q1 d d1 \<Longrightarrow> pf_moves N q1 q2 d1 d2 \<Longrightarrow> pf_moves (M + N) q q2 d d2"
  by (auto simp: pf_moves_def ac_simps)

lemma reaped_moves:
  assumes "run_state (release_entry_pf (tq_buffer q ! ring_tail (tq_ring q))) s = ((), s')"
  shows "pf_moves {#} q (reaped q) (packets (trace s)) (packets (trace s'))"
  unfolding pf_moves_def
proof (intro impI conjI)
  assume ok: "pf_txq_ok q"
  then show "pf_txq_ok (reaped q)" by (rule reaped_ok)
  let ?i = "ring_tail (tq_ring q)"
  let ?b = "tq_buffer q ! ?i"
  have i: "?i < length (tq_buffer q)" using ok by (simp add: pf_txq_ok_def pf_shape_def ring_ok_def)
  have "held_pkts (reaped q) + (if tb_skb ?b \<noteq> 0 then {#tb_skb ?b#} else {#}) =
      held_pkts q + (if tb_skb (forget_packet ?b) \<noteq> 0 then {#tb_skb ?b#} else {#})"
    using arg_cong [OF skbs_update [OF i, of "forget_packet ?b"], of "filter_mset (\<lambda>p. p \<noteq> 0)"]
    by (auto simp: held_pkts_def reaped_def forget_packet_def split: if_splits)
  then show "freed_pkts (packets (trace s')) + held_pkts (reaped q) = freed_pkts (packets (trace s)) + held_pkts q + {#}"
    using release_freed [OF assms] by (auto simp: forget_packet_def split: if_splits)
qed

lemma pf_reap_moves:
  "run_state (pf_reap n q) s = (q', s') \<Longrightarrow>
     pf_moves {#} q q' (packets (trace s)) (packets (trace s')) \<and> tq_state q' = tq_state q \<and> tq_qid q' = tq_qid q \<and>
     (tq_ring q')\<lparr>ring_next_to_clean := 0\<rparr> = (tq_ring q)\<lparr>ring_next_to_clean := 0\<rparr> \<and>
     tq_xdp_xmit q' = tq_xdp_xmit q \<and> tq_xdp_xmit_err q' = tq_xdp_xmit_err q"
proof (induction n arbitrary: q s)
  case 0
  then show ?case by (simp add: pf_moves_refl)
next
  case (Suc n)
  obtain s1 where 1: "run_state (release_entry_pf (tq_buffer q ! ring_tail (tq_ring q))) s = ((), s1)"
    by (cases "run_state (release_entry_pf (tq_buffer q ! ring_tail (tq_ring q))) s") auto
  then have 2: "run_state (pf_reap n (reaped q)) s1 = (q', s')"
    using Suc.prems by (simp add: pf_reap_Suc del: pf_reap.simps)
  have "(tq_ring (reaped q))\<lparr>ring_next_to_clean := 0\<rparr> = (tq_ring q)\<lparr>ring_next_to_clean := 0\<rparr>"
    by (simp add: reaped_def onic_ring_increment_tail_def Let_def)
  then show ?case
    using Suc.IH [OF 2] pf_moves_trans [OF reaped_moves [OF 1], of "{#}"] by (auto simp: reaped_def)
qed

lemma packets_quiet_frame [simp]:
  "packets_quiet (Skb (Skb_len k), r)" "packets_quiet (Skb (Dma_sync_single_for_device a n), r)"
  "packets_quiet (Xdp (Xdp_frame_len k), r)" "packets_quiet (Xdp (Xdp_frame_page k), r)" "packets_quiet (Xdp (Xdp_frame_headroom k), r)"
  by (simp_all add: packets_quiet_def)

lemma pf_rel_calls [onic_rel_intro]:
  "onic_rel packets (\<lambda>a x y. y = x) (perform (Net n))" "onic_rel packets (\<lambda>a x y. y = x) this_cpu"
  "onic_rel packets (\<lambda>a x y. y = x) (invoke (Sync z))"
  "onic_rel packets (\<lambda>a x y. y = x) (onic_set_tx_head qdev qid pidx)"
  "onic_rel packets (\<lambda>a x y. y = x) (write_desc q dma len)"
  "onic_rel packets (\<lambda>a x y. y = x) (xdp_frame_dma fs xdpf len)"
  "onic_rel packets (\<lambda>a x y. y = x) (perform (Xdp (Xdp_frame_len k)))"
  unfolding write_desc_def xdp_frame_dma_def onic_set_tx_head_def onic_qdma_set_q_pidx_def
  by (rule pk.rel_quiet; auto intro!: io_intro triple_intro emits_unpack)+

text \<open>A completion run keeps all but the buffers and the tail.\<close>

definition same_txq :: "onic_tx_queue \<Rightarrow> onic_tx_queue \<Rightarrow> bool" where
  "same_txq q q' \<longleftrightarrow> tq_qid q' = tq_qid q \<and> tq_xdp_xmit q' = tq_xdp_xmit q \<and> tq_xdp_xmit_err q' = tq_xdp_xmit_err q"

lemma pf_moves_state [simp]:
  "pf_moves M (q\<lparr>tq_state := w\<rparr>) q' d d' = pf_moves M q q' d d'" "pf_moves M q (q'\<lparr>tq_state := w\<rparr>) d d' = pf_moves M q q' d d'"
  by (simp_all add: pf_moves_def pf_txq_ok_def held_pkts_def)

lemma pf_moves_counters [simp]:
  "pf_moves M q (q'\<lparr>tq_xdp_xmit := a\<rparr>) d d' = pf_moves M q q' d d'" "pf_moves M q (q'\<lparr>tq_xdp_xmit_err := b\<rparr>) d d' = pf_moves M q q' d d'"
  by (simp_all add: pf_moves_def pf_txq_ok_def pf_shape_def held_pkts_def)

lemma rel_pf_reap:
  "onic_rel packets (\<lambda>q' x y. fst y = fst x \<and> pf_moves {#} q q' (snd x) (snd y) \<and> same_txq q q') (pf_reap n q)"
proof (rule onic_relI)
  fix s :: drv_state and q' s'
  assume run: "run_state (pf_reap n q) s = (q', s')"
  obtain evs where "s' = s\<lparr>trace := trace s @ evs\<rparr>" by (rule io_onlyD [OF io_only_pf_tx(2) run])
  with pf_reap_moves [OF run] show "\<exists>evs p'. s' = after s evs p' \<and> fst (p', packets (trace s @ evs)) = fst (priv s, packets (trace s)) \<and>
      pf_moves {#} q q' (snd (priv s, packets (trace s))) (snd (p', packets (trace s @ evs))) \<and> same_txq q q'"
    by (intro exI [of _ evs] exI [of _ "priv s"]) (simp add: same_txq_def)
qed

lemma rel_unpack_wb [onic_rel_intro]: "onic_rel packets (\<lambda>a x y. y = x) (qdma_unpack_wb_stat st b off)"
  "onic_rel packets (\<lambda>a x y. y = x) (qdma_read_reg qdev off')"
  by (rule pk.rel_quiet; auto intro!: io_intro triple_intro emits_unpack_wb)+

lemma rel_tx_clean_pf:
  "onic_rel packets (\<lambda>q' x y. fst y = fst x \<and> pf_moves {#} q q' (snd x) (snd y) \<and> same_txq q q') (onic_tx_clean qdev q)"
  unfolding onic_tx_clean_def
  apply (rule onic_rel_conseq)
  apply ((rule onic_rel_intro rel_pf_reap)+)[1]
  apply (auto simp: same_txq_def pf_moves_refl split: if_splits)
  done

section \<open>An entry at the head\<close>

lemma put_entry_moves:
  assumes "\<not> onic_ring_full (tq_ring q)" "pkt \<noteq> 0" "type = ONIC_TX_SKB \<or> type = ONIC_TX_XDPF \<or> type = ONIC_TX_XDPF_XMIT"
    "freed_pkts d' = freed_pkts d"
  shows "pf_moves {#pkt#} q (put_entry type pkt a len q) d d'"
  unfolding pf_moves_def
proof (intro impI conjI)
  assume ok: "pf_txq_ok q"
  let ?n = "pf_entries q" and ?r = "tq_ring q" and ?h = "ring_head (tq_ring q)" and ?q = "put_entry type pkt a len q"
  have r: "ring_ok ?n ?r" "length (tq_buffer q) = ?n" "?h < ?n" using ok by (auto simp: pf_txq_ok_def pf_shape_def ring_ok_def)
  have "tb_skb (tq_buffer q ! ?h) = 0"
  proof (rule ccontr)
    assume "tb_skb (tq_buffer q ! ?h) \<noteq> 0"
    with ok r(3) obtain k where "k < occupied ?n ?r" "slot ?n ?r k = ?h" by (auto simp: pf_txq_ok_def)
    then show False using slot_inj [OF r(1), of k "occupied ?n ?r"] occupied_less [OF r(1)] slot_occupied [OF r(1)] by auto
  qed
  then show "freed_pkts d' + held_pkts ?q = freed_pkts d + held_pkts q + {#pkt#}"
    using arg_cong [OF skbs_update [of ?h "tq_buffer q" "(tq_buffer q ! ?h)\<lparr>tb_type := type, tb_skb := pkt, tb_dma_addr := a,
        tb_len := len\<rparr>"], of "filter_mset (\<lambda>p. p \<noteq> 0)"] r assms(2,4)
    by (auto simp: held_pkts_def put_entry_def Let_def)
  show "pf_txq_ok ?q"
  proof (rule pf_txq_okI)
    show "pf_shape ?q" using pf_ring.push_ok [OF r(1)] r(2) by (simp add: pf_shape_def put_entry_def Let_def)
    fix i assume "i < pf_entries ?q" "tb_skb (tq_buffer ?q ! i) \<noteq> 0"
    then show "known_type (tq_buffer ?q ! i) \<and> i \<in> slot (pf_entries ?q) (tq_ring ?q) ` {..<occupied (pf_entries ?q) (tq_ring ?q)}"
      using ok r pf_ring.slots_push [OF r(1) assms(1)] assms(3)
      by (cases "i = ?h") (auto simp: put_entry_def Let_def known_type_def pf_txq_ok_def)
  qed
qed

lemma same_txq_trans: "same_txq q q1 \<Longrightarrow> same_txq q1 q2 \<Longrightarrow> same_txq q q2"
  by (simp add: same_txq_def)

lemma same_txq_put [simp]: "same_txq q (put_entry type pkt a len q)"
  by (simp add: same_txq_def put_entry_def Let_def)

section \<open>Frames\<close>

text \<open>What becomes of one packet that is offered to queue \<open>q\<close>: \<open>M\<close> is what the queue and the account take over.\<close>

definition takes :: "ptr multiset \<Rightarrow> onic_tx_queue \<Rightarrow> onic_tx_queue \<Rightarrow> onic_private \<times> packets \<Rightarrow> onic_private \<times> packets \<Rightarrow> bool" where
  "takes M q q' x y \<longleftrightarrow> pr_tx_queue (fst y) = pr_tx_queue (fst x) \<and> pf_moves M q q' (snd x) (snd y)"

lemma takes_same: "pr_tx_queue (fst y) = pr_tx_queue (fst x) \<Longrightarrow> freed_pkts (snd y) = freed_pkts (snd x) \<Longrightarrow> takes {#} q q x y"
  by (simp add: takes_def pf_moves_def)

lemma takes_put:
  assumes "\<not> onic_ring_full (tq_ring q)" "pkt \<noteq> 0" "type = ONIC_TX_SKB \<or> type = ONIC_TX_XDPF \<or> type = ONIC_TX_XDPF_XMIT"
    "pr_tx_queue (fst y) = pr_tx_queue (fst x)" "freed_pkts (snd y) = freed_pkts (snd x)"
  shows "takes {#pkt#} q (put_entry type pkt a len q) x y"
  using assms by (simp add: takes_def put_entry_moves)

lemma takes_trans: "takes M q q1 x y \<Longrightarrow> takes N q1 q2 y z \<Longrightarrow> takes (M + N) q q2 x z"
  by (auto simp: takes_def intro: pf_moves_trans)

lemma takes_after:
  "takes M q q' y z \<Longrightarrow> pr_tx_queue (fst y) = pr_tx_queue (fst x) \<Longrightarrow> freed_pkts (snd y) = freed_pkts (snd x) \<Longrightarrow> takes M q q' x z"
  by (simp add: takes_def pf_moves_def)

lemma rel_submit_frame:
  assumes "\<not> onic_ring_full (tq_ring q)" "xdpf \<noteq> 0" "type = ONIC_TX_XDPF \<or> type = ONIC_TX_XDPF_XMIT"
  shows "onic_rel packets (\<lambda>a x y. fst a = ONIC_XDP_TX \<and> same_txq q (snd a) \<and> takes {#xdpf#} q (snd a) x y) (submit_frame type xdpf dma len q)"
  unfolding submit_frame_def count_tx_def
  apply (rule onic_rel_conseq)
  apply ((rule onic_rel_intro)+)[1]
  using assms apply (auto intro!: takes_put)
  done

lemma rel_map_frame [onic_rel_intro]:
  "onic_rel packets (\<lambda>a x y. fst y = fst x \<and> freed_pkts (snd y) = freed_pkts (snd x)) (perform (Skb (Dma_map_single k n)))"
  "onic_rel packets (\<lambda>a x y. fst y = fst x \<and> freed_pkts (snd y) = freed_pkts (snd x)) (perform (Skb (Dma_mapping_error dma)))"
  by (rule onic_rel_conseq, rule pk.rel_perform, simp add: packets_step_def freed_pkts_def)+

text \<open>The frame is queued exactly when the result is \<^verbatim>\<open>ONIC_XDP_TX\<close>.\<close>

lemma rel_xmit_ring:
  assumes "xdpf \<noteq> 0"
  shows "onic_rel packets (\<lambda>a x y. same_txq q (snd a) \<and> takes (if fst a = ONIC_XDP_TX then {#xdpf#} else {#}) q (snd a) x y)
     (onic_xmit_xdp_ring fs qdev q xdpf dma_map)"
proof -
  have full: "onic_rel packets (\<lambda>a x y. same_txq q (snd a) \<and> takes (if fst a = ONIC_XDP_TX then {#xdpf#} else {#}) q (snd a) x y)
      (if onic_ring_full (tq_ring q) then ret (of_int NETDEV_TX_BUSY, q)
       else do {
         l \<leftarrow> perform (Xdp (Xdp_frame_len xdpf));
         let len = of_int l;
         if dma_map then do {
           a \<leftarrow> perform (Skb (Dma_map_single xdpf len));
           bad \<leftarrow> perform (Skb (Dma_mapping_error (of_int a)));
           if bad \<noteq> 0 then ret (ONIC_XDP_CONSUMED, q) else submit_frame ONIC_TX_XDPF_XMIT xdpf (of_int a) len q }
         else do {
           a \<leftarrow> xdp_frame_dma fs xdpf len;
           submit_frame ONIC_TX_XDPF xdpf a len q } })" (is "onic_rel packets ?R ?m") for q
  proof (cases "onic_ring_full (tq_ring q)")
    case True
    then show ?thesis
      by (simp, intro onic_rel_conseq [OF onic_rel_ret]) (auto simp: same_txq_def intro: takes_same)
  next
    case False
    note sub = rel_submit_frame [OF False assms disjI1 [OF refl]] rel_submit_frame [OF False assms disjI2 [OF refl]]
    show ?thesis
      unfolding if_not_P [OF False]
      apply (rule onic_rel_conseq)
      apply ((rule onic_rel_intro sub)+)[1]
      apply (auto simp: same_txq_def intro!: takes_same elim: takes_after split: if_splits)
      done
  qed
  show ?thesis
    unfolding onic_xmit_xdp_ring_def
    apply (rule onic_rel_conseq)
    apply ((rule onic_rel_bind rel_tx_clean_pf full)+)[1]
    apply (elim exE conjE)
    subgoal for a x z q1 y
      using takes_trans [of "{#}" q q1 x y "if fst a = ONIC_XDP_TX then {#xdpf#} else {#}" "snd a" z]
      by (auto simp: takes_def intro: same_txq_trans)
    done
qed

text \<open>The loop over the frames, and the two counters.\<close>

definition counted :: "onic_tx_queue \<Rightarrow> onic_tx_queue \<Rightarrow> int \<Rightarrow> int \<Rightarrow> bool" where
  "counted q q' n drops \<longleftrightarrow> 0 \<le> drops \<and> drops \<le> n \<and> tq_qid q' = tq_qid q \<and>
     tq_xdp_xmit q' = tq_xdp_xmit q + of_int (n - drops) \<and> tq_xdp_xmit_err q' = tq_xdp_xmit_err q + of_int drops"

lemma counted_trans: "counted q q1 m d \<Longrightarrow> counted q1 q2 n e \<Longrightarrow> counted q q2 (m + n) (d + e)"
  by (auto simp: counted_def)

lemma takes_counters [simp]:
  "takes M q (q'\<lparr>tq_xdp_xmit := a\<rparr>) x y = takes M q q' x y" "takes M q (q'\<lparr>tq_xdp_xmit_err := b\<rparr>) x y = takes M q q' x y"
  by (simp_all add: takes_def)

lemma rel_return_frame:
  "onic_rel packets (\<lambda>a x y. fst y = fst x \<and> freed_pkts (snd y) = freed_pkts (snd x) + (if k \<noteq> 0 then {#k#} else {#}))
     (invoke (Xdp (Xdp_return_frame_rx_napi k)))"
  by (rule onic_rel_conseq, rule pk.rel_invoke) (auto simp: packets_step_def freed_pkts_def)

lemma takes_freed:
  "takes {#} q q' x y \<Longrightarrow> pr_tx_queue (fst z) = pr_tx_queue (fst y) \<Longrightarrow> freed_pkts (snd z) = freed_pkts (snd y) + M \<Longrightarrow> takes M q q' x z"
  by (auto simp: takes_def pf_moves_def ac_simps)

lemma rel_xmit_one:
  assumes "frame \<noteq> 0"
  shows "onic_rel packets (\<lambda>a x y. takes {#frame#} q (fst a) x y \<and> counted q (fst a) 1 (snd a - d)) (xdp_xmit_one fs qdev frame (q, d))"
  unfolding xdp_xmit_one_def case_prod_conv case_prod_beta
  apply (rule onic_rel_conseq)
  apply ((rule onic_rel_intro rel_xmit_ring assms rel_return_frame)+)[1]
  using assms apply (auto simp: counted_def same_txq_def takes_freed split: if_splits)
  done

lemma rel_xmit_frames:
  assumes "\<forall>f\<in>set frames. f \<noteq> 0"
  shows "onic_rel packets (\<lambda>a x y. takes (mset frames) q (fst a) x y \<and> counted q (fst a) (int (length frames)) (snd a - d))
    (for_each_acc frames (xdp_xmit_one fs qdev) (q, d))"
  using assms
proof (induction frames arbitrary: q d)
  case Nil
  show ?case by (simp, intro onic_rel_conseq [OF onic_rel_ret]) (auto simp: counted_def takes_same)
next
  case (Cons f frames)
  have 1: "onic_rel packets (\<lambda>a x y. takes {#f#} q (fst a) x y \<and> counted q (fst a) 1 (snd a - d)) (xdp_xmit_one fs qdev f (q, d))"
    by (rule rel_xmit_one) (use Cons.prems in simp)
  have 2: "onic_rel packets (\<lambda>a x y. takes (mset frames) (fst b) (fst a) x y \<and> counted (fst b) (fst a) (int (length frames)) (snd a - snd b))
      (for_each_acc frames (xdp_xmit_one fs qdev) b)" for b
    using Cons.IH [of "fst b" "snd b"] Cons.prems by simp
  show ?case
    unfolding for_each_acc.simps
    apply (rule onic_rel_conseq [OF onic_rel_bind [OF 1 2]])
    apply (elim exE conjE, intro conjI)
    subgoal for a x z b y using takes_trans [of "{#f#}" q "fst b" x y "mset frames" "fst a" z] by simp
    subgoal for a x z b y
      using counted_trans [of q "fst b" 1 "snd b - d" "fst a" "int (length frames)" "snd a - snd b"] by (simp add: add.commute)
    done
qed

lemma rel_put_tx [onic_rel_intro]:
  "onic_rel packets (\<lambda>a x y. snd y = snd x \<and> pr_tx_queue (fst y) = (pr_tx_queue (fst x))(i := Some q)) (put_tx_queue i q)"
  unfolding put_tx_queue_def by (rule onic_rel_conseq, rule onic_rel_upd) auto

text \<open>What became of queue \<open>i\<close>, and of the packets \<open>M\<close> offered to it.\<close>

definition queue_takes :: "ptr multiset \<Rightarrow> nat \<Rightarrow> onic_tx_queue \<Rightarrow> onic_tx_queue \<Rightarrow> onic_private \<times> packets \<Rightarrow> onic_private \<times> packets \<Rightarrow> bool" where
  "queue_takes M i q q' x y \<longleftrightarrow> pr_tx_queue (fst y) = (pr_tx_queue (fst x))(i := Some q') \<and> pf_moves M q q' (snd x) (snd y)"

lemma rel_xmit_all:
  assumes "\<forall>f\<in>set frames. f \<noteq> 0"
  shows "onic_rel packets (\<lambda>n x y. \<exists>q'. queue_takes (mset frames) i q q' x y \<and>
      counted q q' (int (length frames)) (int (length frames) - n)) (xdp_xmit_all fs qdev i frames flags q)"
  unfolding xdp_xmit_all_def case_prod_beta
  apply (rule onic_rel_conseq)
  apply ((rule onic_rel_intro rel_xmit_frames assms)+)[1]
  apply (fastforce simp: queue_takes_def takes_def split: if_splits)
  done

definition xdp_outcome :: "ptr list \<Rightarrow> u32 \<Rightarrow> int option \<Rightarrow> onic_private \<times> packets \<Rightarrow> onic_private \<times> packets \<Rightarrow> bool" where
  "xdp_outcome frames flags r x y \<longleftrightarrow> (case r of None \<Rightarrow> y = x
     | Some n \<Rightarrow> \<exists>i q q'. pr_tx_queue (fst x) i = Some q \<and>
         (if flags AND NOT XDP_XMIT_FLUSH \<noteq> 0
          then n = - EINVAL \<and> queue_takes {#} i q q' x y \<and> tq_xdp_xmit q' = tq_xdp_xmit q \<and> tq_xdp_xmit_err q' = tq_xdp_xmit_err q + 1
          else queue_takes (mset frames) i q q' x y \<and> counted q q' (int (length frames)) (int (length frames) - n)))"

lemma xdp_outcome_flags:
  assumes "pr_tx_queue (fst x) i = Some q" "flags AND NOT XDP_XMIT_FLUSH \<noteq> 0" "snd y = snd x"
    "pr_tx_queue (fst y) = (pr_tx_queue (fst x))(i := Some (q\<lparr>tq_xdp_xmit_err := tq_xdp_xmit_err q + 1\<rparr>))"
  shows "xdp_outcome frames flags (Some (- EINVAL)) x y"
  unfolding xdp_outcome_def option.case if_P [OF assms(2)]
  by (intro exI [of _ i] exI [of _ q] exI [of _ "q\<lparr>tq_xdp_xmit_err := tq_xdp_xmit_err q + 1\<rparr>"])
    (use assms in \<open>simp add: queue_takes_def pf_moves_refl\<close>)

lemma xdp_outcome_sent:
  assumes "pr_tx_queue (fst x) i = Some q" "\<not> flags AND NOT XDP_XMIT_FLUSH \<noteq> 0" "queue_takes (mset frames) i q q' x y"
    "counted q q' (int (length frames)) (int (length frames) - n)"
  shows "xdp_outcome frames flags (Some n) x y"
  unfolding xdp_outcome_def option.case if_not_P [OF assms(2)] using assms by blast

lemma xdp_outcome_none: "xdp_outcome frames flags None x x"
  by (simp add: xdp_outcome_def)

lemma rel_xdp_xmit:
  assumes "\<forall>f\<in>set frames. f \<noteq> 0"
  shows "onic_rel packets (xdp_outcome frames flags) (onic_xdp_xmit fs frames flags)"
  unfolding onic_xdp_xmit_def
  apply (rule onic_rel_conseq)
  apply ((rule onic_rel_intro rel_xmit_all assms)+)[1]
  apply (elim exE conjE)
  apply (simp split: option.splits if_split_asm)
  apply (auto intro: xdp_outcome_none xdp_outcome_flags [simplified] xdp_outcome_sent [simplified])
  done

section \<open>Packets of the network stack\<close>

text \<open>The account of one call: \<open>b\<close> tells whether the packet had been freed before it was queued.\<close>

definition skb_outcome :: "ptr \<Rightarrow> int option \<Rightarrow> onic_private \<times> packets \<Rightarrow> onic_private \<times> packets \<Rightarrow> bool" where
  "skb_outcome skb r x y \<longleftrightarrow> (case r of None \<Rightarrow> y = x
     | Some n \<Rightarrow> \<exists>i q q' F. pr_tx_queue (fst x) i = Some q \<and> F \<subseteq># {#skb#} \<and> pk_refused (snd y) = pk_refused (snd x) + F \<and>
         (n = NETDEV_TX_BUSY \<and> F = {#} \<and> queue_takes {#} i q q' x y \<or> n = NETDEV_TX_OK \<and> queue_takes ({#skb#} + F) i q q' x y))"

lemma rel_skb_calls:
  "onic_rel packets (\<lambda>a x y. fst y = fst x \<and> freed_pkts (snd y) = freed_pkts (snd x) \<and> pk_refused (snd y) = pk_refused (snd x))
     (perform (Skb (Dma_map_single k n)))"
  "onic_rel packets (\<lambda>a x y. fst y = fst x \<and> freed_pkts (snd y) = freed_pkts (snd x) \<and> pk_refused (snd y) = pk_refused (snd x))
     (perform (Skb (Dma_mapping_error dma)))"
  by (rule onic_rel_conseq, rule pk.rel_perform, simp add: packets_step_def freed_pkts_def)+

lemma rel_free_skb:
  "onic_rel packets (\<lambda>a x y. fst y = fst x \<and> freed_pkts (snd y) = freed_pkts (snd x) + (if k \<noteq> 0 then {#k#} else {#}) \<and>
     pk_refused (snd y) = pk_refused (snd x)) (invoke (Skb (Dev_kfree_skb k)))"
  by (rule onic_rel_conseq, rule pk.rel_invoke) (auto simp: packets_step_def freed_pkts_def)

lemma queue_takes_put:
  assumes "skb \<noteq> 0" "\<not> onic_ring_full (tq_ring q)" "freed_pkts (snd y) = freed_pkts (snd x)"
    "pr_tx_queue (fst y) = (pr_tx_queue (fst x))(i := Some (put_entry ONIC_TX_SKB skb a len q))"
  shows "\<exists>q'. queue_takes {#skb#} i q q' x y"
  using assms by (auto simp: queue_takes_def intro!: put_entry_moves)

lemma queue_takes_free:
  assumes "skb \<noteq> 0" "pr_tx_queue (fst x) i = Some q" "pr_tx_queue (fst y) = pr_tx_queue (fst x)"
    "freed_pkts (snd y) = add_mset skb (freed_pkts (snd x))"
  shows "\<exists>q'. queue_takes {#skb#} i q q' x y"
  using assms by (intro exI [of _ q]) (simp add: queue_takes_def pf_moves_def fun_upd_idem)

lemma rel_submit_skb:
  assumes "skb \<noteq> 0" "\<not> onic_ring_full (tq_ring q)"
  shows "onic_rel packets (\<lambda>r x y. pr_tx_queue (fst x) i = Some q \<longrightarrow> r = NETDEV_TX_OK \<and> pk_refused (snd y) = pk_refused (snd x) \<and>
      (\<exists>q'. queue_takes {#skb#} i q q' x y)) (pf_submit_skb cpu qdev i skb q)"
  unfolding pf_submit_skb_def count_tx_def
  apply (rule onic_rel_conseq)
  apply ((rule rel_skb_calls rel_free_skb onic_rel_intro)+)[1]
  using assms apply (auto split: if_split_asm intro: queue_takes_put queue_takes_free)
  done

lemma queue_takes_trans:
  assumes "queue_takes M i q q1 x y" "queue_takes N i q1 q2 y z"
  shows "queue_takes (M + N) i q q2 x z"
  using assms by (auto simp: queue_takes_def intro: pf_moves_trans)

lemma queue_takes_refused:
  assumes "queue_takes M i q q' y z" "fst y = fst x" "freed_pkts (snd y) = freed_pkts (snd x) + F"
  shows "queue_takes (M + F) i q q' x z"
  using assms by (auto simp: queue_takes_def pf_moves_def ac_simps)

lemma rel_padto:
  "onic_rel packets (\<lambda>a x y. fst y = fst x \<and> (\<exists>F. F \<subseteq># {#skb#} \<and> pk_refused (snd y) = pk_refused (snd x) + F \<and>
      (skb \<noteq> 0 \<longrightarrow> freed_pkts (snd y) = freed_pkts (snd x) + F))) (perform (Skb (Skb_put_padto skb n)))"
  by (rule onic_rel_conseq, rule pk_padto) (force simp: freed_pkts_def split: if_splits)

lemma refused_quiet [simp]: "packets_quiet e \<Longrightarrow> pk_refused (packets_step e d) = pk_refused d"
  by (simp add: packets_quiet_def packets_step_def)

text \<open>Completion refuses nothing.\<close>

lemma emits_release: "(\<And>a n r. P (Skb (Dma_unmap_single a n), r)) \<Longrightarrow> (\<And>k r. P (Skb (Dev_kfree_skb k), r)) \<Longrightarrow>
    (\<And>k r. P (Xdp (Xdp_return_frame k), r)) \<Longrightarrow> emits P (release_entry_pf b)"
  unfolding release_entry_pf_def by (auto intro!: triple_intro)

lemma emits_pf_reap: "(\<And>a n r. P (Skb (Dma_unmap_single a n), r)) \<Longrightarrow> (\<And>k r. P (Skb (Dev_kfree_skb k), r)) \<Longrightarrow>
    (\<And>k r. P (Xdp (Xdp_return_frame k), r)) \<Longrightarrow> emits P (pf_reap n q)"
  by (induction n q rule: pf_reap.induct) (auto simp: Let_def intro!: triple_intro emits_release)

lemma emits_tx_clean_pf:
  assumes "\<And>a n r. P (Skb (Dma_unmap_single a n), r)" "\<And>k r. P (Skb (Dev_kfree_skb k), r)" "\<And>k r. P (Xdp (Xdp_return_frame k), r)"
    "\<And>b off r. P (Mem (Dma_read64 b off), r)" "\<And>b off r. P (Io (Ioread32 b off), r)"
  shows "emits P (onic_tx_clean qdev q)"
  unfolding onic_tx_clean_def by (auto intro!: triple_intro emits_pf_reap emits_unpack_wb simp: assms)

lemma fold_refused: "list_all (\<lambda>e. skb_refused e = {#}) evs \<Longrightarrow> pk_refused (fold packets_step evs d) = pk_refused d"
  by (induction evs arbitrary: d) (auto simp: packets_step_def)

lemma rel_tx_clean_refused:
  "onic_rel packets (\<lambda>q' x y. fst y = fst x \<and> pf_moves {#} q q' (snd x) (snd y) \<and> pk_refused (snd y) = pk_refused (snd x)) (onic_tx_clean qdev q)"
proof (rule onic_relI)
  fix s :: drv_state and q' s'
  assume run: "run_state (onic_tx_clean qdev q) s = (q', s')"
  obtain evs p' where 1: "s' = after s evs p'" "fst (p', packets (trace s @ evs)) = fst (priv s, packets (trace s))"
    "pf_moves {#} q q' (packets (trace s)) (packets (trace s @ evs))"
    by (rule onic_relD [OF rel_tx_clean_pf run]) (auto intro: that)
  have "emits (\<lambda>e. skb_refused e = {#}) (onic_tx_clean qdev q)" by (rule emits_tx_clean_pf) simp_all
  from emitsD [OF this, of s] run 1(1) have "list_all (\<lambda>e. skb_refused e = {#}) evs" by simp
  then have "pk_refused (packets (trace s @ evs)) = pk_refused (packets (trace s))" by (simp add: pk.view_append fold_refused)
  with 1 show "\<exists>evs p'. s' = after s evs p' \<and> fst (p', packets (trace s @ evs)) = fst (priv s, packets (trace s)) \<and>
      pf_moves {#} q q' (snd (priv s, packets (trace s))) (snd (p', packets (trace s @ evs))) \<and>
      pk_refused (snd (p', packets (trace s @ evs))) = pk_refused (snd (priv s, packets (trace s)))"
    by (intro exI [of _ evs] exI [of _ p']) simp
qed

lemma skb_outcome_none: "skb_outcome skb None x x"
  by (simp add: skb_outcome_def)

lemma skb_outcome_busy:
  assumes "pr_tx_queue (fst x) i = Some q" "pf_moves {#} q q1 (snd x) d" "pk_refused d = pk_refused (snd x)"
    "pr_tx_queue p = (pr_tx_queue (fst x))(i := Some q1)"
  shows "skb_outcome skb (Some NETDEV_TX_BUSY) x (p, d)"
  unfolding skb_outcome_def option.case using assms
  by (intro exI [of _ i] exI [of _ q] exI [of _ q1] exI [of _ "{#}"]) (simp add: queue_takes_def)

lemma skb_outcome_ok:
  assumes "pr_tx_queue (fst x) i = Some q" "pf_moves {#} q q1 (snd x) d" "pk_refused d = pk_refused (snd x)"
    "pr_tx_queue p = (pr_tx_queue (fst x))(i := Some q1)" "pk_refused d1 = pk_refused (snd x) + F" "F \<subseteq># {#skb#}"
    "freed_pkts d1 = freed_pkts d + F" "queue_takes {#skb#} i q1 q2 (p, d1) (p2, d2)" "pk_refused d2 = pk_refused d1"
  shows "skb_outcome skb (Some NETDEV_TX_OK) x (p2, d2)"
proof -
  have 1: "queue_takes {#} i q q1 x (p, d)" using assms(2,4) by (simp add: queue_takes_def)
  have 2: "queue_takes ({#skb#} + F) i q1 q2 (p, d) (p2, d2)"
    by (rule queue_takes_refused [OF assms(8)]) (simp_all add: assms(7))
  show ?thesis
    unfolding skb_outcome_def option.case using assms(1,5,6,9) queue_takes_trans [OF 1 2]
    by (intro exI [of _ i] exI [of _ q] exI [of _ q2] exI [of _ F]) simp
qed

lemma rel_xmit_frame:
  assumes "skb \<noteq> 0"
  shows "onic_rel packets (skb_outcome skb) (onic_xmit_frame skb)"
  unfolding onic_xmit_frame_def
  apply (rule onic_rel_conseq)
  apply ((rule rel_tx_clean_refused rel_padto rel_submit_skb [OF assms] onic_rel_intro | assumption)+)[1]
  using assms apply (elim exE conjE)
  apply (simp split: option.splits if_split_asm)
  apply (auto intro: skb_outcome_none skb_outcome_busy skb_outcome_ok split: if_split_asm)
  done

section \<open>Properties\<close>

definition pf_tables_ok :: "onic_private \<Rightarrow> bool" where
  "pf_tables_ok p \<longleftrightarrow> (\<forall>i q. pr_tx_queue p i = Some q \<longrightarrow> pf_txq_ok q)"

lemma tables_put:
  "pf_tables_ok p \<Longrightarrow> pf_txq_ok q' \<Longrightarrow> pr_tx_queue p' = (pr_tx_queue p)(i := Some q') \<Longrightarrow> pf_tables_ok p'"
  by (simp add: pf_tables_ok_def)

text \<open>A PF with one queue of the size the driver allocates and one packet in it, on a card that reports it as sent.\<close>

definition pf_sample_txq :: onic_tx_queue where
  "pf_sample_txq = \<lparr>tq_self = 0x3000, tq_qid = 0, tq_state = 0, tq_buffer_ptr = 0x2000,
     tq_buffer = (replicate 4095 zero_tx_buffer)[0 := zero_tx_buffer\<lparr>tb_type := ONIC_TX_SKB, tb_skb := 0x5000, tb_dma_addr := 0x9000, tb_len := 60\<rparr>],
     tq_ring = \<lparr>ring_count = 4096, ring_desc = 0x1000, ring_wb = 0x10FF0, ring_dma_addr = 0x1000,
       ring_next_to_use = 1, ring_next_to_clean = 0, ring_color = 0\<rparr>, tq_vector = None, tq_xdp_xmit = 0, tq_xdp_xmit_err = 0\<rparr>"

definition pf_sample_dev :: qdma_dev where
  "pf_sample_dev = \<lparr>qdev_self = 0x4000, qdev_func_id = 0, qdev_q_base = 0, qdev_num_queues = 64, qdev_addr = 0x100000\<rparr>"

definition pf_sample :: drv_state where
  "pf_sample = \<lparr>ext = (\<lambda>_ c. case c of Mem (Dma_read64 b off) \<Rightarrow> 0x10000 | _ \<Rightarrow> 0), trace = [],
     priv = zero_private\<lparr>pr_num_tx_queues := 1, pr_tx_queue := (\<lambda>_. None)(0 := Some pf_sample_txq),
       pr_hw := zero_hardware\<lparr>hw_qdma := Some pf_sample_dev\<rparr>\<rparr>\<rparr>"

lemma pf_sample_entries: "pf_entries pf_sample_txq = 4095" "occupied 4095 (tq_ring pf_sample_txq) = 1"
  "slot 4095 (tq_ring pf_sample_txq) ` {..<1} = {0}" "ring_ok 4095 (tq_ring pf_sample_txq)"
  by (auto simp: pf_sample_txq_def onic_ring_get_real_count_def occupied_def slot_def ring_ok_def)

lemma pf_sample_ok: "pf_txq_ok pf_sample_txq" "pf_tables_ok (priv pf_sample)"
proof -
  have "pf_shape pf_sample_txq" using pf_sample_entries by (simp add: pf_shape_def) (simp add: pf_sample_txq_def)
  then show "pf_txq_ok pf_sample_txq"
    using pf_sample_entries
    by (intro pf_txq_okI) (auto simp: pf_sample_txq_def known_type_def zero_tx_buffer_def nth_list_update split: if_splits)
  then show "pf_tables_ok (priv pf_sample)" by (simp add: pf_tables_ok_def pf_sample_def)
qed

text \<open>C34. Completion refines taking entries off the front of a first-in first-out queue. When the card reports an index \<open>k\<close>
  entries past the tail, not beyond the head, one run of \<open>onic_tx_clean\<close> reads the status entry, then releases exactly
  the \<open>k\<close> oldest entries, in order and each in the way of its kind, leaves the others queued in order, moves the tail
  to the reported index and gives the lock back. It makes no other call, but for one register read, for the log, when it
  finds entries pending and none done.\<close>

theorem pf_tx_clean_fifo:
  assumes "pf_shape q" "\<not> bit (tq_state q) 0" "ring_wb (tq_ring q) \<noteq> 0"
    "unat (pf_wb_cidx s q) = slot (pf_entries q) (tq_ring q) k" "k \<le> length (pf_pending q)"
  shows "case run_state (onic_tx_clean qdev q) s of (q', s') \<Rightarrow>
    (\<exists>evs. s' = s\<lparr>trace := trace s @ evs\<rparr> \<and> map fst evs = clean_calls qdev q k) \<and> pf_shape q' \<and>
    pf_pending q' = drop k (pf_pending q) \<and> ring_next_to_clean (tq_ring q') = pf_wb_cidx s q \<and> tq_state q' = tq_state q"
  using tx_clean_run [OF assms, of qdev] by auto

theorem pf_tx_clean_fifo_witness:
  "case run_state (onic_tx_clean pf_sample_dev pf_sample_txq) pf_sample of (q', s') \<Rightarrow>
    map fst (trace s') = clean_calls pf_sample_dev pf_sample_txq 1 \<and> pf_pending q' = [] \<and> ring_next_to_clean (tq_ring q') = 1"
proof -
  have p: "length (pf_pending pf_sample_txq) = 1" using pf_sample_entries by (simp add: pf_pending_def)
  have w: "pf_wb_cidx pf_sample pf_sample_txq = 1"
    by (simp add: pf_wb_cidx_def pf_sample_def pf_sample_txq_def qdma_unpack_wb_stat_def dma_read64_def run_simps) code_simp
  have t: "trace pf_sample = []" by (simp add: pf_sample_def)
  have b: "pf_shape pf_sample_txq" "\<not> bit (tq_state pf_sample_txq) 0" "ring_wb (tq_ring pf_sample_txq) \<noteq> 0"
    "ring_tail (tq_ring pf_sample_txq) = 0"
    using pf_sample_ok by (simp_all add: pf_txq_ok_def) (simp_all add: pf_sample_txq_def)
  then show ?thesis
    using pf_tx_clean_fifo [of pf_sample_txq pf_sample 1 pf_sample_dev] pf_sample_entries(1) p w t
    by (auto simp: slot_def split: prod.splits)
qed

text \<open>C33. A packet that the network stack gives to the PF ends in exactly one place, but for one error path. Whatever the
  kernel and the card answer, \<open>onic_xmit_frame\<close> returns OK or BUSY (or dereferences a NULL queue or device, before it has
  done anything). The packets released and those in the buffers of the queue are afterwards those of before, with the new
  packet once on OK and without it on BUSY; no index the card reports makes the driver lose a packet or release
  one twice. But when \<^verbatim>\<open>skb_put_padto\<close> refuses the packet (\<open>F\<close>), which frees it, the driver goes on
  with it, and it counts twice: it is released again later.\<close>

theorem pf_xmit_conserves_packets:
  assumes "pf_tables_ok (priv s)" "skb \<noteq> 0"
  shows "case run_state (onic_xmit_frame skb) s of (r, s') \<Rightarrow>
    (case r of None \<Rightarrow> priv s' = priv s
     | Some n \<Rightarrow> pf_tables_ok (priv s') \<and> (n = NETDEV_TX_OK \<or> n = NETDEV_TX_BUSY) \<and>
         (\<exists>i q q' F. pr_tx_queue (priv s) i = Some q \<and> pr_tx_queue (priv s') = (pr_tx_queue (priv s))(i := Some q') \<and>
            F \<subseteq># {#skb#} \<and> pk_refused (packets (trace s')) = pk_refused (packets (trace s)) + F \<and>
            freed_pkts (packets (trace s')) + held_pkts q' =
              freed_pkts (packets (trace s)) + held_pkts q + (if n = NETDEV_TX_BUSY then {#} else {#skb#} + F)))"
proof (cases "run_state (onic_xmit_frame skb) s")
  case (Pair r s')
  from rel_xmit_frame [OF assms(2)] Pair obtain evs p' where o: "s' = after s evs p'"
    "skb_outcome skb r (priv s, packets (trace s)) (p', packets (trace s @ evs))" by (rule onic_relD)
  show ?thesis
  proof (cases r)
    case None
    then show ?thesis using o by (simp add: Pair skb_outcome_def)
  next
    case (Some n)
    with o(2) obtain i q q' F where q: "pr_tx_queue (priv s) i = Some q" "F \<subseteq># {#skb#}"
      "pk_refused (packets (trace s @ evs)) = pk_refused (packets (trace s)) + F"
      "n = NETDEV_TX_BUSY \<and> F = {#} \<and> queue_takes {#} i q q' (priv s, packets (trace s)) (p', packets (trace s @ evs)) \<or>
       n = NETDEV_TX_OK \<and> queue_takes ({#skb#} + F) i q q' (priv s, packets (trace s)) (p', packets (trace s @ evs))"
      by (auto simp: skb_outcome_def)
    have ok: "pf_txq_ok q" using assms(1) q(1) by (auto simp: pf_tables_ok_def)
    then have "pf_tables_ok p'" using q(4) by (auto simp: queue_takes_def pf_moves_def intro: tables_put [OF assms(1)])
    moreover have "pr_tx_queue p' = (pr_tx_queue (priv s))(i := Some q')" using q(4) by (auto simp: queue_takes_def)
    moreover have "freed_pkts (packets (trace s @ evs)) + held_pkts q' =
        freed_pkts (packets (trace s)) + held_pkts q + (if n = NETDEV_TX_BUSY then {#} else {#skb#} + F)"
      using q(4) ok by (auto simp: queue_takes_def pf_moves_def)
    ultimately have "\<exists>i q q' F. pr_tx_queue (priv s) i = Some q \<and> pr_tx_queue p' = (pr_tx_queue (priv s))(i := Some q') \<and>
        F \<subseteq># {#skb#} \<and> pk_refused (packets (trace s @ evs)) = pk_refused (packets (trace s)) + F \<and>
        freed_pkts (packets (trace s @ evs)) + held_pkts q' =
          freed_pkts (packets (trace s)) + held_pkts q + (if n = NETDEV_TX_BUSY then {#} else {#skb#} + F)" "pf_tables_ok p'"
      using q(1-3) by blast+
    moreover have "n = NETDEV_TX_OK \<or> n = NETDEV_TX_BUSY" using q(4) by blast
    ultimately show ?thesis by (simp add: Pair Some o(1) del: fun_upd_apply)
  qed
qed

theorem pf_xmit_conserves_packets_witness:
  "pf_tables_ok (priv pf_sample) \<and> (0x6000 :: ptr) \<noteq> 0 \<and>
   (case run_state (onic_xmit_frame 0x6000) pf_sample of (r, s') \<Rightarrow>
     case r of None \<Rightarrow> priv s' = priv pf_sample | Some n \<Rightarrow> n = NETDEV_TX_OK \<or> n = NETDEV_TX_BUSY)"
  using pf_sample_ok(2) pf_xmit_conserves_packets [of pf_sample "0x6000"] by (auto split: prod.splits option.splits)

text \<open>C35. A batch of XDP frames is accounted for frame by frame. Unless it is refused for its flags (which changes no queue
  entry), every frame of the batch is afterwards queued or returned, none twice; the result of \<open>onic_xdp_xmit\<close> is the
  number queued, between 0 and the size of the batch, and the two counters of the queue grow by the numbers of
  frames queued and returned.\<close>

theorem pf_xdp_xmit_accounts:
  assumes "pf_tables_ok (priv s)" "\<forall>f\<in>set frames. f \<noteq> 0" "flags AND NOT XDP_XMIT_FLUSH = 0"
  shows "case run_state (onic_xdp_xmit frame_size frames flags) s of (r, s') \<Rightarrow>
    (case r of None \<Rightarrow> priv s' = priv s
     | Some n \<Rightarrow> 0 \<le> n \<and> n \<le> int (length frames) \<and> pf_tables_ok (priv s') \<and>
         (\<exists>i q q'. pr_tx_queue (priv s) i = Some q \<and> pr_tx_queue (priv s') = (pr_tx_queue (priv s))(i := Some q') \<and>
            freed_pkts (packets (trace s')) + held_pkts q' = freed_pkts (packets (trace s)) + held_pkts q + mset frames \<and>
            tq_xdp_xmit q' = tq_xdp_xmit q + of_int n \<and>
            tq_xdp_xmit_err q' = tq_xdp_xmit_err q + of_int (int (length frames) - n)))"
proof (cases "run_state (onic_xdp_xmit frame_size frames flags) s")
  case (Pair r s')
  from rel_xdp_xmit [OF assms(2)] Pair obtain evs p' where o: "s' = after s evs p'"
    "xdp_outcome frames flags r (priv s, packets (trace s)) (p', packets (trace s @ evs))" by (rule onic_relD)
  have fl: "\<not> flags AND NOT XDP_XMIT_FLUSH \<noteq> 0" using assms(3) by simp
  show ?thesis
  proof (cases r)
    case None
    then show ?thesis using o by (simp add: Pair xdp_outcome_def)
  next
    case (Some n)
    with o(2) fl obtain i q q' where q: "pr_tx_queue (priv s) i = Some q"
      "queue_takes (mset frames) i q q' (priv s, packets (trace s)) (p', packets (trace s @ evs))"
      "counted q q' (int (length frames)) (int (length frames) - n)"
      unfolding xdp_outcome_def by auto
    have "pf_txq_ok q" using assms(1) q(1) by (auto simp: pf_tables_ok_def)
    then have "pf_tables_ok p'" "freed_pkts (packets (trace s @ evs)) + held_pkts q' =
        freed_pkts (packets (trace s)) + held_pkts q + mset frames"
      using q(2) by (auto simp: queue_takes_def pf_moves_def intro: tables_put [OF assms(1)])
    moreover have "pr_tx_queue p' = (pr_tx_queue (priv s))(i := Some q')" using q(2) by (simp add: queue_takes_def)
    ultimately have "\<exists>i q q'. pr_tx_queue (priv s) i = Some q \<and> pr_tx_queue p' = (pr_tx_queue (priv s))(i := Some q') \<and>
        freed_pkts (packets (trace s @ evs)) + held_pkts q' = freed_pkts (packets (trace s)) + held_pkts q + mset frames \<and>
        tq_xdp_xmit q' = tq_xdp_xmit q + of_int n \<and> tq_xdp_xmit_err q' = tq_xdp_xmit_err q + of_int (int (length frames) - n)"
      "pf_tables_ok p'" "0 \<le> n" "n \<le> int (length frames)"
      using q(1) q(3) unfolding counted_def by auto
    then show ?thesis by (simp add: Pair Some o(1) del: fun_upd_apply)
  qed
qed

theorem pf_xdp_xmit_accounts_witness:
  "case run_state (onic_xdp_xmit 40 [0x6000, 0x7000] 1) pf_sample of (r, s') \<Rightarrow>
     case r of None \<Rightarrow> priv s' = priv pf_sample | Some n \<Rightarrow> 0 \<le> n \<and> n \<le> 2"
  using pf_sample_ok(2) pf_xdp_xmit_accounts [of pf_sample "[0x6000, 0x7000]" 1 40] by (auto split: prod.splits option.splits)

end
