(* ===== verification/Pf_Rx.thy ===== *)
theory Pf_Rx
  imports Pf_Tx
begin

text \<open>
  The receive path of a PF (\<^verbatim>\<open>onic_netdev.c\<close>): credit, XDP verdicts and the NAPI poll, for kernels from 6.3 on. The conventions
  are those of \<open>Pf_Tx\<close>. An XDP buffer is named by the page that holds it; the program may move its start and
  its length, so both are asked for after the program has run.
\<close>

abbreviation (input) ONIC_RX_DESC_STEP :: nat where "ONIC_RX_DESC_STEP \<equiv> 256"
abbreviation (input) XDP_ABORTED :: u32 where "XDP_ABORTED \<equiv> 0"
abbreviation (input) XDP_DROP :: u32 where "XDP_DROP \<equiv> 1"
abbreviation (input) XDP_PASS :: u32 where "XDP_PASS \<equiv> 2"
abbreviation (input) XDP_TX :: u32 where "XDP_TX \<equiv> 3"
abbreviation (input) XDP_REDIRECT :: u32 where "XDP_REDIRECT \<equiv> 4"

section \<open>Credit\<close>

definition onic_rx_high_watermark :: "onic_rx_queue \<Rightarrow> bool" where
  "onic_rx_high_watermark q =
     (let ring = rq_desc_ring q;
          unused = int (ring_head ring) - int (ring_tail ring);
          unused = (if ring_next_to_use ring < ring_next_to_clean ring
                    then unused + int (unat (onic_ring_get_real_count ring)) else unused)
      in unused < int (ONIC_RX_DESC_STEP div 2))"

definition onic_rx_refill :: "qdma_dev \<Rightarrow> onic_rx_queue \<Rightarrow> ('z, onic_rx_queue) drv" where
  "onic_rx_refill qdev q = do {
     let ring = rq_desc_ring q;
     let ntu = (ring_next_to_use ring + of_nat ONIC_RX_DESC_STEP) mod onic_ring_get_real_count ring;
     onic_set_rx_head qdev (rq_qid q) ntu;
     ret (q\<lparr>rq_desc_ring := ring\<lparr>ring_next_to_use := ntu\<rparr>\<rparr>) }"

text \<open>The page is stored before its address is asked for, which reads through the pointer: \<open>None\<close> when it is NULL.\<close>

definition onic_rx_page_refill :: "onic_rx_queue \<Rightarrow> ('z, onic_rx_queue option) drv" where
  "onic_rx_page_refill q = do {
     let i = ring_tail (rq_desc_ring q);
     r \<leftarrow> perform (Page (Page_pool_alloc (rq_page_pool q)));
     let pg = (of_int r :: ptr);
     let q = q\<lparr>rq_buffer := (rq_buffer q)[i := (rq_buffer q ! i)\<lparr>rb_pg := pg, rb_offset := of_nat XDP_PACKET_HEADROOM\<rparr>]\<rparr>;
     if pg = 0 then ret None
     else do {
       a \<leftarrow> perform (Page (Page_pool_get_dma_addr pg));
       qdma_pack_c2h_st_desc (ring_desc (rq_desc_ring q)) (QDMA_C2H_ST_DESC_SIZE * i)
         \<lparr>c2h_dst_addr = of_int a + of_nat XDP_PACKET_HEADROOM\<rparr>;
       ret (Some q) } }"

section \<open>XDP\<close>

definition count_xdp :: "(xdp_rx_stats \<Rightarrow> xdp_rx_stats) \<Rightarrow> onic_rx_queue \<Rightarrow> onic_rx_queue" where
  "count_xdp f q = q\<lparr>rq_xdp_stats := f (rq_xdp_stats q)\<rparr>"

abbreviation (input) "count_tx_err \<equiv> count_xdp (\<lambda>x. x\<lparr>xs_tx_err := xs_tx_err x + 1\<rparr>)"

text \<open>The frame goes to the transmit queue with the number of the receive queue.\<close>

definition onic_xdp_xmit_back :: "nat \<Rightarrow> qdma_dev \<Rightarrow> onic_rx_queue \<Rightarrow> ptr \<Rightarrow> (int \<times> onic_rx_queue) onic" where
  "onic_xdp_xmit_back frame_size qdev q page = do {
     f \<leftarrow> perform (Xdp (Xdp_convert_buff_to_frame page));
     let xdpf = (of_int f :: ptr);
     if xdpf = 0 then ret (uint ONIC_XDP_CONSUMED, count_tx_err q)
     else do {
       p \<leftarrow> get_priv;
       let i = unat (rq_qid q);
       case (if rq_xdp_prog q \<noteq> 0 then pr_tx_queue p i else None) of
         None \<Rightarrow> ret (- ENXIO, count_tx_err q)
       | Some txq \<Rightarrow> do {
           invoke (Sync (Mutex_lock (Txq_lock (unat (tq_qid txq)))));
           (r, txq) \<leftarrow> onic_xmit_xdp_ring frame_size qdev txq xdpf False;
           put_tx_queue i txq;
           onic_set_tx_head qdev (tq_qid txq) (ring_next_to_use (tq_ring txq));
           invoke (Sync (Mutex_unlock (Txq_lock (unat (tq_qid txq)))));
           ret (uint r, count_xdp (\<lambda>x. x\<lparr>xs_tx := xs_tx x + 1\<rparr>) q) } } }"

text \<open>The labels \<^verbatim>\<open>XDP_DROP\<close> and \<^verbatim>\<open>out_failure\<close>, which fall through.\<close>

definition xdp_drop :: "onic_rx_queue \<Rightarrow> ptr \<Rightarrow> ('z, int \<times> onic_rx_queue) drv" where
  "xdp_drop q page = do {
     invoke (Page (Page_pool_recycle_direct (rq_page_pool q) page));
     ret (uint ONIC_XDP_CONSUMED, count_xdp (\<lambda>x. x\<lparr>xs_drop := xs_drop x + 1\<rparr>) q) }"

definition xdp_failure :: "onic_rx_queue \<Rightarrow> u32 \<Rightarrow> ptr \<Rightarrow> ('z, int \<times> onic_rx_queue) drv" where
  "xdp_failure q act page = do {
     invoke (Xdp (Trace_xdp_exception act));
     xdp_drop q page }"

text \<open>\<^verbatim>\<open>onic_run_xdp\<close> returns \<^verbatim>\<open>ERR_PTR(-result)\<close>; the model returns \<open>result\<close>.\<close>

definition onic_run_xdp :: "nat \<Rightarrow> qdma_dev \<Rightarrow> onic_rx_queue \<Rightarrow> ptr \<Rightarrow> (int \<times> onic_rx_queue) onic" where
  "onic_run_xdp frame_size qdev q page =
     (if rq_xdp_prog q = 0 then ret (uint ONIC_XDP_PASS, q)
      else do {
        v \<leftarrow> perform (Xdp (Bpf_prog_run (rq_xdp_prog q) page));
        let act = (of_int v :: u32);
        if act = XDP_PASS then ret (uint ONIC_XDP_PASS, count_xdp (\<lambda>x. x\<lparr>xs_pass := xs_pass x + 1\<rparr>) q)
        else if act = XDP_TX then do {
          (result, q) \<leftarrow> onic_xdp_xmit_back frame_size qdev q page;
          if result = uint ONIC_XDP_CONSUMED then xdp_failure q act page else ret (result, q) }
        else if act = XDP_REDIRECT then do {
          err \<leftarrow> perform_errno (Xdp (Xdp_do_redirect page));
          if err \<noteq> 0 then xdp_failure q act page
          else ret (uint ONIC_XDP_REDIR, count_xdp (\<lambda>x. x\<lparr>xs_redirect := xs_redirect x + 1\<rparr>) q) }
        else if act = XDP_DROP then xdp_drop q page
        else do {
          (if act \<noteq> XDP_ABORTED then invoke (Xdp (Bpf_warn_invalid_action act)) else ret ());
          xdp_failure q act page } })"

section \<open>One packet\<close>

text \<open>The socket buffer around the page; False stands for a break.\<close>

definition pf_deliver :: "ptr \<Rightarrow> int \<Rightarrow> ('z, bool) drv" where
  "pf_deliver page va = do {
     k \<leftarrow> perform (Skb (Napi_build_skb (of_int va)));
     let skb = (of_int k :: ptr);
     if skb = 0 then ret False
     else do {
       h \<leftarrow> perform (Xdp (Xdp_buff_headroom page));
       l \<leftarrow> perform (Xdp (Xdp_buff_len page));
       invoke (Skb (Skb_deliver skb (nat h) (of_int l)));
       rv \<leftarrow> perform (Skb (Napi_gro_receive skb));
       ret (rv \<ge> 0) } }"

text \<open>\<^verbatim>\<open>IS_ERR\<close> of \<^verbatim>\<open>ERR_PTR(-result)\<close>: only then the poll looks at the result.\<close>

definition is_err :: "int \<Rightarrow> bool" where
  "is_err result \<longleftrightarrow> 1 \<le> result \<and> result \<le> 4095"

text \<open>How a turn of the loop ends: a NULL page, a break, or the next turn; with the queue and \<^verbatim>\<open>xdp_xmit\<close>.\<close>

datatype rx_outcome = Rx_oops | Rx_break onic_rx_queue u32 | Rx_next onic_rx_queue u32

text \<open>Both rings step on; the color flips when it differs from that of the completion just handled.\<close>

definition pf_rx_advance :: "qdma_dev \<Rightarrow> u8 \<Rightarrow> onic_rx_queue \<Rightarrow> ('z, onic_rx_queue) drv" where
  "pf_rx_advance qdev color q = do {
     let q = q\<lparr>rq_desc_ring := onic_ring_increment_tail (rq_desc_ring q)\<rparr>;
     q \<leftarrow> (if onic_rx_high_watermark q then onic_rx_refill qdev q else ret q);
     let cr = onic_ring_increment_tail (rq_cmpl_ring q);
     let cr = (if color \<noteq> ring_color cr then cr\<lparr>ring_color := (if ring_color cr = 0 then 1 else 0)\<rparr> else cr);
     ret (q\<lparr>rq_cmpl_ring := cr\<rparr>) }"

definition rx_put_back :: "nat \<Rightarrow> qdma_dev \<Rightarrow> qdma_c2h_cmpl \<Rightarrow> onic_rx_queue \<Rightarrow> u32 \<Rightarrow> rx_outcome onic" where
  "rx_put_back cpu qdev cmpl q xmit = do {
     r \<leftarrow> onic_rx_page_refill q;
     case r of
       None \<Rightarrow> ret Rx_oops
     | Some q \<Rightarrow> do {
         upd_stats cpu (\<lambda>st. st\<lparr>st_rx_packets := st_rx_packets st + 1, st_rx_bytes := st_rx_bytes st + ucast (cmpl_pkt_len cmpl)\<rparr>);
         q \<leftarrow> pf_rx_advance qdev (cmpl_color cmpl) q;
         ret (Rx_next q xmit) } }"

definition rx_turn :: "nat \<Rightarrow> nat \<Rightarrow> qdma_dev \<Rightarrow> qdma_c2h_cmpl \<Rightarrow> onic_rx_queue \<Rightarrow> u32 \<Rightarrow> rx_outcome onic" where
  "rx_turn frame_size cpu qdev cmpl q xmit = do {
     let buf = rq_buffer q ! ring_tail (rq_desc_ring q);
     if rb_pg buf = 0 then ret Rx_oops
     else do {
       a \<leftarrow> perform (Page (Page_pool_get_dma_addr (rb_pg buf)));
       invoke (Skb (Dma_sync_single_for_cpu (of_int a + ucast (rb_offset buf)) (ucast (cmpl_pkt_len cmpl))));
       va \<leftarrow> perform (Page (Page_address (rb_pg buf)));
       (result, q) \<leftarrow> onic_run_xdp frame_size qdev q (rb_pg buf);
       let res = (of_int result :: u32);
       let xmit = (if is_err result \<and> res AND (ONIC_XDP_TX OR ONIC_XDP_REDIR) \<noteq> 0 then xmit OR res else xmit);
       go \<leftarrow> (if is_err result \<and> res AND ONIC_XDP_PASS \<noteq> 0 then pf_deliver (rb_pg buf) va else ret True);
       if \<not> go then ret (Rx_break q xmit) else rx_put_back cpu qdev cmpl q xmit } }"

section \<open>The poll\<close>

definition no_cmpl :: qdma_c2h_cmpl where
  "no_cmpl = \<lparr>cmpl_color = 0, cmpl_err = 0, cmpl_pkt_len = 0, cmpl_pkt_id = 0\<rparr>"

definition no_cmpl_stat :: qdma_c2h_cmpl_stat where
  "no_cmpl_stat = \<lparr>cstat_pidx = 0, cstat_cidx = 0, cstat_color = 0, cstat_intr_state = 0\<rparr>"

definition read_cmpl :: "qdma_c2h_cmpl \<Rightarrow> onic_rx_queue \<Rightarrow> ('z, qdma_c2h_cmpl) drv" where
  "read_cmpl cmpl q = qdma_unpack_c2h_cmpl cmpl (ring_desc (rq_cmpl_ring q)) (QDMA_C2H_CMPL_SIZE * ring_tail (rq_cmpl_ring q))"

text \<open>
  The loop. \<open>n\<close> turns are left before the budget is spent: \<^verbatim>\<open>max(1, budget) - work\<close>, since the budget is only looked at
  after a turn. The result tells whether it was spent; \<open>None\<close> is a NULL page.
\<close>

record rx_loop_end =
  le_work :: nat
  le_queue :: onic_rx_queue
  le_xmit :: u32
  le_spent :: bool

fun rx_loop :: "nat \<Rightarrow> nat \<Rightarrow> nat \<Rightarrow> qdma_dev \<Rightarrow> u16 \<Rightarrow> qdma_c2h_cmpl \<Rightarrow> onic_rx_queue \<Rightarrow> u32 \<Rightarrow> nat \<Rightarrow> rx_loop_end option onic" where
  "rx_loop 0 frame_size cpu qdev pidx cmpl q xmit work = ret (Some \<lparr>le_work = work, le_queue = q, le_xmit = xmit, le_spent = True\<rparr>)"
| "rx_loop (Suc n) frame_size cpu qdev pidx cmpl q xmit work =
     (if ring_next_to_clean (rq_cmpl_ring q) = pidx
      then ret (Some \<lparr>le_work = work, le_queue = q, le_xmit = xmit, le_spent = False\<rparr>)
      else do {
        t \<leftarrow> rx_turn frame_size cpu qdev cmpl q xmit;
        case t of
          Rx_oops \<Rightarrow> ret None
        | Rx_break q xmit \<Rightarrow> ret (Some \<lparr>le_work = work, le_queue = q, le_xmit = xmit, le_spent = False\<rparr>)
        | Rx_next q xmit \<Rightarrow>
            if n = 0 then ret (Some \<lparr>le_work = Suc work, le_queue = q, le_xmit = xmit, le_spent = True\<rparr>)
            else do {
              cmpl \<leftarrow> read_cmpl cmpl q;
              rx_loop n frame_size cpu qdev pidx cmpl q xmit (Suc work) } })"

text \<open>After the loop.\<close>

definition rx_finish :: "qdma_dev \<Rightarrow> u16 \<Rightarrow> rx_loop_end \<Rightarrow> ('z, unit) drv" where
  "rx_finish qdev pidx e = do {
     let q = le_queue e;
     (if le_xmit e AND ONIC_XDP_REDIR \<noteq> 0 then invoke (Xdp Xdp_do_flush) else ret ());
     if le_spent e then do {
       invoke (Net (Napi_complete (unat (rq_qid q))));
       invoke (Net (Napi_schedule (unat (rq_qid q)))) }
     else if ring_next_to_clean (rq_cmpl_ring q) = pidx \<or> ring_next_to_clean (rq_cmpl_ring q) = 0 then do {
       invoke (Net (Napi_complete_done (unat (rq_qid q)) (le_work e)));
       onic_set_completion_tail qdev (rq_qid q) (ring_next_to_clean (rq_cmpl_ring q)) 1 }
     else ret () }"

text \<open>All transmit queues are cleaned first; \<open>None\<close> for a NULL queue.\<close>

fun clean_all :: "qdma_dev \<Rightarrow> nat list \<Rightarrow> unit option onic" where
  "clean_all qdev [] = ret (Some ())"
| "clean_all qdev (i # js) = do {
     p \<leftarrow> get_priv;
     case pr_tx_queue p i of
       None \<Rightarrow> ret None
     | Some q \<Rightarrow> do {
         q \<leftarrow> onic_tx_clean qdev q;
         put_tx_queue i q;
         clean_all qdev js } }"

definition put_rx_queue :: "nat \<Rightarrow> onic_rx_queue \<Rightarrow> unit onic" where
  "put_rx_queue i q = upd_priv (pr_rx_queue_update (\<lambda>t. t(i := Some q)))"

definition poll_rx_queue :: "nat \<Rightarrow> nat \<Rightarrow> qdma_dev \<Rightarrow> onic_rx_queue \<Rightarrow> nat \<Rightarrow> (nat \<times> onic_rx_queue) option onic" where
  "poll_rx_queue frame_size cpu qdev q budget = do {
     cmpl \<leftarrow> read_cmpl no_cmpl q;
     stat \<leftarrow> qdma_unpack_c2h_cmpl_stat no_cmpl_stat (ring_desc (rq_cmpl_ring q))
       (QDMA_C2H_CMPL_SIZE * unat (ring_count (rq_cmpl_ring q) - 1));
     (if cmpl_err cmpl = 1 then onic_qdma_clear_error_interrupt qdev else ret ());
     r \<leftarrow> rx_loop (max 1 budget) frame_size cpu qdev (cstat_pidx stat) cmpl q 0 0;
     case r of
       None \<Rightarrow> ret None
     | Some e \<Rightarrow> do {
         rx_finish qdev (cstat_pidx stat) e;
         ret (Some (le_work e, le_queue e)) } }"

definition onic_rx_poll :: "nat \<Rightarrow> nat \<Rightarrow> nat \<Rightarrow> nat option onic" where
  "onic_rx_poll frame_size i budget = do {
     p \<leftarrow> get_priv;
     case pr_rx_queue p i of
       None \<Rightarrow> ret None
     | Some q \<Rightarrow> (case hw_qdma (pr_hw p) of
         None \<Rightarrow> ret None
       | Some qdev \<Rightarrow> do {
           cpu \<leftarrow> this_cpu;
           ok \<leftarrow> clean_all qdev [0..<unat (pr_num_tx_queues p)];
           case ok of
             None \<Rightarrow> ret None
           | Some _ \<Rightarrow> do {
               r \<leftarrow> poll_rx_queue frame_size cpu qdev q budget;
               case r of
                 None \<Rightarrow> ret None
               | Some (work, q) \<Rightarrow> do {
                   put_rx_queue i q;
                   ret (Some work) } } }) }"

section \<open>Credit stays in range\<close>

abbreviation ring_size :: "onic_ring \<Rightarrow> nat" where
  "ring_size r \<equiv> unat (onic_ring_get_real_count r)"

lemma high_watermark_occupied:
  assumes "ring_ok (ring_size (rq_desc_ring q)) (rq_desc_ring q)"
  shows "onic_rx_high_watermark q \<longleftrightarrow> occupied (ring_size (rq_desc_ring q)) (rq_desc_ring q) < 128"
proof -
  let ?r = "rq_desc_ring q"
  have "ring_head ?r < ring_size ?r" "ring_tail ?r < ring_size ?r" using assms by (simp_all add: ring_ok_def)
  then show ?thesis
    unfolding onic_rx_high_watermark_def Let_def occupied_def by (auto simp only: mod_dist word_less_nat_alt split: if_splits)
qed

text \<open>A ring with at least half a step of credit.\<close>

definition credit_ok :: "onic_ring \<Rightarrow> bool" where
  "credit_ok r \<longleftrightarrow> 384 \<le> ring_size r \<and> ring_size r \<le> 65280 \<and> ring_ok (ring_size r) r \<and> 128 \<le> occupied (ring_size r) r"

definition refilled_ring :: "onic_ring \<Rightarrow> onic_ring" where
  "refilled_ring r = (if occupied (ring_size r) r < 128
     then r\<lparr>ring_next_to_use := (ring_next_to_use r + of_nat ONIC_RX_DESC_STEP) mod onic_ring_get_real_count r\<rparr> else r)"

lemma refill_credit:
  assumes "384 \<le> ring_size r" "ring_size r \<le> 65280" "ring_ok (ring_size r) r"
  shows "credit_ok (refilled_ring r)" "ring_size (refilled_ring r) = ring_size r" "ring_tail (refilled_ring r) = ring_tail r"
proof -
  have h: "ring_head r < ring_size r" "ring_tail r < ring_size r" using assms(3) by (simp_all add: ring_ok_def)
  then have "unat (ring_next_to_use r + 256) = ring_head r + 256" using assms(2) by (simp add: unat_word_ariths)
  then have n: "unat ((ring_next_to_use r + 256) mod onic_ring_get_real_count r) =
      (if ring_head r + 256 < ring_size r then ring_head r + 256 else ring_head r + 256 - ring_size r)"
    using h assms(1) by (simp add: unat_mod mod_less_double)
  show "ring_size (refilled_ring r) = ring_size r" "ring_tail (refilled_ring r) = ring_tail r" by (simp_all add: refilled_ring_def)
  show "credit_ok (refilled_ring r)"
    using n h assms by (auto simp: credit_ok_def refilled_ring_def ring_ok_def occupied_def mod_dist split: if_splits)
qed

lemma credit_step:
  assumes "credit_ok r"
  shows "credit_ok (refilled_ring (onic_ring_increment_tail r))"
    "ring_size (refilled_ring (onic_ring_increment_tail r)) = ring_size r"
    "ring_tail (refilled_ring (onic_ring_increment_tail r)) = Suc (ring_tail r) mod ring_size r"
proof -
  have ok: "ring_ok (ring_size r) r" "ring_ok (ring_size r) (onic_ring_increment_tail r)"
    using assms pf_ring.pop_ok [of r] by (simp_all add: credit_ok_def)
  note r = refill_credit [of "onic_ring_increment_tail r"]
  show "credit_ok (refilled_ring (onic_ring_increment_tail r))"
    "ring_size (refilled_ring (onic_ring_increment_tail r)) = ring_size r"
    "ring_tail (refilled_ring (onic_ring_increment_tail r)) = Suc (ring_tail r) mod ring_size r"
    using r assms ok pf_ring.tail_pop [OF ok(1)] by (simp_all add: credit_ok_def)
qed

section \<open>What a turn does to the queue\<close>

lemma real_count_color [simp]: "onic_ring_get_real_count (r\<lparr>ring_color := c\<rparr>) = onic_ring_get_real_count r"
  by (simp add: onic_ring_get_real_count_def)

definition pf_rxq_ok :: "onic_rx_queue \<Rightarrow> bool" where
  "pf_rxq_ok q \<longleftrightarrow> credit_ok (rq_desc_ring q) \<and> ring_ok (ring_size (rq_cmpl_ring q)) (rq_cmpl_ring q) \<and>
     length (rq_buffer q) = ring_size (rq_desc_ring q) \<and>
     (\<forall>b\<in>set (rq_buffer q). rb_pg b \<noteq> 0 \<and> rb_offset b = of_nat XDP_PACKET_HEADROOM)"

text \<open>Both rings moved on by \<open>k\<close> entries.\<close>

definition rx_moved :: "nat \<Rightarrow> onic_rx_queue \<Rightarrow> onic_rx_queue \<Rightarrow> bool" where
  "rx_moved k q q' \<longleftrightarrow> pf_rxq_ok q' \<and> rq_qid q' = rq_qid q \<and> ring_size (rq_desc_ring q') = ring_size (rq_desc_ring q) \<and>
     ring_size (rq_cmpl_ring q') = ring_size (rq_cmpl_ring q) \<and>
     ring_tail (rq_desc_ring q') = (ring_tail (rq_desc_ring q) + k) mod ring_size (rq_desc_ring q) \<and>
     ring_tail (rq_cmpl_ring q') = (ring_tail (rq_cmpl_ring q) + k) mod ring_size (rq_cmpl_ring q)"

lemma rx_moved_0: "pf_rxq_ok q \<Longrightarrow> rx_moved 0 q q"
  by (simp add: rx_moved_def pf_rxq_ok_def credit_ok_def ring_ok_def)

lemma rx_moved_trans: "rx_moved j q q1 \<Longrightarrow> rx_moved k q1 q2 \<Longrightarrow> rx_moved (j + k) q q2"
  by (simp add: rx_moved_def mod_add_left_eq add.assoc)

text \<open>XDP only touches the counters of the queue.\<close>

definition same_rxq :: "onic_rx_queue \<Rightarrow> onic_rx_queue \<Rightarrow> bool" where
  "same_rxq q q' \<longleftrightarrow> q' = q\<lparr>rq_xdp_stats := rq_xdp_stats q'\<rparr>"

lemma same_rxq_simps [simp]: "same_rxq q q" "same_rxq q (count_xdp f q)"
  by (simp_all add: same_rxq_def count_xdp_def)

lemma same_rxq_trans: "same_rxq q q1 \<Longrightarrow> same_rxq q1 q2 \<Longrightarrow> same_rxq q q2"
  by (cases q; cases q1; cases q2) (simp add: same_rxq_def)

lemma same_rxq_ok:
  assumes "same_rxq q q'"
  shows "pf_rxq_ok q' = pf_rxq_ok q" "rx_moved k q' = rx_moved k q" "rq_buffer q' = rq_buffer q"
    "rq_desc_ring q' = rq_desc_ring q" "rq_cmpl_ring q' = rq_cmpl_ring q" "rq_qid q' = rq_qid q" "rq_page_pool q' = rq_page_pool q"
proof -
  obtain x where "q' = q\<lparr>rq_xdp_stats := x\<rparr>" using assms by (metis same_rxq_def)
  then show "pf_rxq_ok q' = pf_rxq_ok q" "rx_moved k q' = rx_moved k q" "rq_buffer q' = rq_buffer q"
    "rq_desc_ring q' = rq_desc_ring q" "rq_cmpl_ring q' = rq_cmpl_ring q" "rq_qid q' = rq_qid q" "rq_page_pool q' = rq_page_pool q"
    by (simp_all add: pf_rxq_ok_def rx_moved_def fun_eq_iff)
qed

text \<open>The queue after its entry has got the page \<open>pg\<close>, and after both rings have stepped on.\<close>

definition with_page :: "ptr \<Rightarrow> onic_rx_queue \<Rightarrow> onic_rx_queue" where
  "with_page pg q = (let i = ring_tail (rq_desc_ring q)
     in q\<lparr>rq_buffer := (rq_buffer q)[i := (rq_buffer q ! i)\<lparr>rb_pg := pg, rb_offset := of_nat XDP_PACKET_HEADROOM\<rparr>]\<rparr>)"

definition rx_stepped :: "u8 \<Rightarrow> onic_rx_queue \<Rightarrow> onic_rx_queue" where
  "rx_stepped color q =
     (let cr = onic_ring_increment_tail (rq_cmpl_ring q)
      in q\<lparr>rq_desc_ring := refilled_ring (onic_ring_increment_tail (rq_desc_ring q)),
           rq_cmpl_ring := (if color \<noteq> ring_color cr then cr\<lparr>ring_color := (if ring_color cr = 0 then 1 else 0)\<rparr> else cr)\<rparr>)"

lemma with_page_ok:
  assumes "pf_rxq_ok q" "pg \<noteq> 0"
  shows "rx_moved 0 q (with_page pg q)"
proof -
  have "\<forall>b\<in>set (rq_buffer (with_page pg q)). rb_pg b \<noteq> 0 \<and> rb_offset b = of_nat XDP_PACKET_HEADROOM"
    using assms by (auto simp: with_page_def pf_rxq_ok_def Let_def dest!: subsetD [OF set_update_subset_insert])
  moreover have f: "rq_desc_ring (with_page pg q) = rq_desc_ring q" "rq_cmpl_ring (with_page pg q) = rq_cmpl_ring q"
    "rq_qid (with_page pg q) = rq_qid q" "length (rq_buffer (with_page pg q)) = length (rq_buffer q)"
    by (simp_all add: with_page_def Let_def)
  ultimately show ?thesis
    using rx_moved_0 [OF assms(1)] assms(1) unfolding rx_moved_def pf_rxq_ok_def f by auto
qed

lemma rx_stepped_moved:
  assumes "pf_rxq_ok q"
  shows "rx_moved 1 q (rx_stepped color q)"
proof -
  let ?c = "rq_cmpl_ring q" and ?q = "rx_stepped color q"
  have q: "credit_ok (rq_desc_ring q)" "ring_ok (ring_size ?c) ?c" "length (rq_buffer q) = ring_size (rq_desc_ring q)"
    "\<forall>b\<in>set (rq_buffer q). rb_pg b \<noteq> 0 \<and> rb_offset b = of_nat XDP_PACKET_HEADROOM"
    using assms(1) by (simp_all add: pf_rxq_ok_def)
  have c: "ring_size (rq_cmpl_ring ?q) = ring_size ?c" "ring_tail (rq_cmpl_ring ?q) = Suc (ring_tail ?c) mod ring_size ?c"
    "ring_ok (ring_size ?c) (rq_cmpl_ring ?q)"
    using pf_ring.pop_ok [OF q(2)] pf_ring.tail_pop [OF q(2)]
    by (auto simp: rx_stepped_def Let_def ring_ok_def)
  have f: "rq_desc_ring ?q = refilled_ring (onic_ring_increment_tail (rq_desc_ring q))" "rq_qid ?q = rq_qid q"
    "rq_buffer ?q = rq_buffer q"
    by (simp_all add: rx_stepped_def Let_def)
  show ?thesis
    unfolding rx_moved_def pf_rxq_ok_def f c(1,2) using credit_step [OF q(1)] c(3) q(3,4) by auto
qed

lemma stepped_page:
  assumes "pf_rxq_ok q" "pg \<noteq> 0"
  shows "pf_rxq_ok (with_page pg q)" "rx_moved 1 q (rx_stepped color (with_page pg q))"
proof -
  show ok: "pf_rxq_ok (with_page pg q)" using with_page_ok [OF assms] by (simp add: rx_moved_def)
  show "rx_moved 1 q (rx_stepped color (with_page pg q))"
    using rx_moved_trans [OF with_page_ok [OF assms] rx_stepped_moved [OF ok]] by simp
qed

section \<open>Relations that forget the outside\<close>

abbreviation nothing :: "event list \<Rightarrow> unit" where "nothing \<equiv> \<lambda>_. ()"

lemma rel_io:
  assumes "io_only m"
  shows "onic_rel nothing (\<lambda>a x y. y = x) m"
proof (rule onic_relI)
  fix s :: drv_state and a s'
  assume "run_state m s = (a, s')"
  then obtain evs where "s' = s\<lparr>trace := trace s @ evs\<rparr>" by (rule io_onlyD [OF assms])
  then show "\<exists>evs p'. s' = after s evs p' \<and> (p', ()) = (priv s, ())" by (intro exI [of _ evs] exI [of _ "priv s"]) simp
qed

lemma rel_forget:
  assumes "onic_rel V R m"
  shows "onic_rel nothing (\<lambda>a x y. \<exists>d d'. R a (fst x, d) (fst y, d')) m"
proof (rule onic_relI)
  fix s a s'
  assume "run_state m s = (a, s')"
  then obtain evs p' where "s' = after s evs p'" "R a (priv s, V (trace s)) (p', V (trace s @ evs))" by (rule onic_relD [OF assms])
  then show "\<exists>evs p'. s' = after s evs p' \<and> (\<exists>d d'. R a (fst (priv s, ()), d) (fst (p', ()), d'))" by auto
qed

lemma io_only_pf_rx [io_intro]:
  "io_only (onic_rx_page_refill q)" "io_only (onic_rx_refill qdev q)" "io_only (xdp_drop q page)" "io_only (xdp_failure q act page)"
  "io_only (pf_deliver page va)" "io_only (read_cmpl cmpl q)" "io_only (rx_finish qdev pidx e)"
  unfolding onic_rx_page_refill_def onic_rx_refill_def xdp_failure_def xdp_drop_def pf_deliver_def read_cmpl_def rx_finish_def
  by (auto intro!: io_intro)

text \<open>The receive table does not change while a queue is polled.\<close>

definition same_rx :: "onic_private \<times> 'd \<Rightarrow> onic_private \<times> 'd \<Rightarrow> bool" where
  "same_rx x y \<longleftrightarrow> pr_rx_queue (fst y) = pr_rx_queue (fst x)"

lemma rel_quiet_calls [onic_rel_intro]:
  "onic_rel nothing (\<lambda>a x y. y = x) (perform c)" "onic_rel nothing (\<lambda>a x y. y = x) (invoke c)" "onic_rel nothing (\<lambda>a x y. y = x) this_cpu"
  by (rule rel_io; intro io_intro)+

lemma rel_same_rx:
  "onic_rel nothing (\<lambda>a x y. same_rx x y) (onic_xmit_xdp_ring fs qdev q xdpf dma_map)"
  "onic_rel nothing (\<lambda>a x y. same_rx x y) (put_tx_queue i q)"
proof -
  have s: "onic_rel nothing (\<lambda>a x y. same_rx x y) (submit_frame type xdpf dma len q)" for type xdpf dma len q
    unfolding submit_frame_def count_tx_def
    by (rule onic_rel_conseq, (rule onic_rel_intro rel_io io_intro)+) (auto simp: same_rx_def)
  show "onic_rel nothing (\<lambda>a x y. same_rx x y) (onic_xmit_xdp_ring fs qdev q xdpf dma_map)"
    unfolding onic_xmit_xdp_ring_def
    by (rule onic_rel_conseq, (rule s onic_rel_intro rel_io io_intro)+) (auto simp: same_rx_def split: if_splits)
  show "onic_rel nothing (\<lambda>a x y. same_rx x y) (put_tx_queue i q)"
    unfolding put_tx_queue_def by (rule onic_rel_conseq, (rule onic_rel_intro)+) (auto simp: same_rx_def)
qed

lemma rel_xmit_back:
  "onic_rel nothing (\<lambda>a x y. same_rx x y \<and> same_rxq q (snd a)) (onic_xdp_xmit_back fs qdev q page)"
  unfolding onic_xdp_xmit_back_def case_prod_beta
  apply (rule onic_rel_conseq)
  apply ((rule rel_same_rx onic_rel_intro rel_io io_intro)+)[1]
  apply (elim exE conjE)
  apply (simp split: if_split_asm option.splits)
  apply (auto simp: same_rx_def)
  done

lemma rel_xdp_drop:
  "onic_rel nothing (\<lambda>a x y. y = x \<and> same_rxq q (snd a)) (xdp_drop q page)"
  "onic_rel nothing (\<lambda>a x y. y = x \<and> same_rxq q (snd a)) (xdp_failure q act page)"
proof -
  show 1: "onic_rel nothing (\<lambda>a x y. y = x \<and> same_rxq q (snd a)) (xdp_drop q page)" for q page
    unfolding xdp_drop_def by (rule onic_rel_conseq, (rule onic_rel_intro)+) auto
  show "onic_rel nothing (\<lambda>a x y. y = x \<and> same_rxq q (snd a)) (xdp_failure q act page)"
    unfolding xdp_failure_def by (rule onic_rel_conseq, (rule onic_rel_intro 1)+) auto
qed

lemma rel_run_xdp:
  "onic_rel nothing (\<lambda>a x y. same_rx x y \<and> same_rxq q (snd a)) (onic_run_xdp fs qdev q page)"
  unfolding onic_run_xdp_def case_prod_beta
  apply (rule onic_rel_conseq)
  apply ((rule rel_xmit_back rel_xdp_drop onic_rel_intro rel_io io_intro)+)[1]
  apply (auto simp: same_rx_def split: if_splits intro: same_rxq_trans)
  done

lemma page_refill_result:
  "onic_rel nothing (\<lambda>a x y. y = x \<and> (a = None \<or> (\<exists>pg. pg \<noteq> 0 \<and> a = Some (with_page pg q)))) (onic_rx_page_refill q)"
  unfolding onic_rx_page_refill_def
  by (rule onic_rel_conseq, (rule onic_rel_intro rel_io io_intro)+) (auto simp: with_page_def Let_def split: if_splits)

lemma io_only_advance [io_intro]: "io_only (pf_rx_advance qdev color q)"
  unfolding pf_rx_advance_def by (auto intro!: io_intro)

lemma advance_result:
  assumes "pf_rxq_ok q"
  shows "fst (run_state (pf_rx_advance qdev color q) s) = rx_stepped color q"
proof -
  let ?q = "q\<lparr>rq_desc_ring := onic_ring_increment_tail (rq_desc_ring q)\<rparr>"
  have "ring_ok (ring_size (rq_desc_ring q)) (onic_ring_increment_tail (rq_desc_ring q))"
    using assms pf_ring.pop_ok [of "rq_desc_ring q"] by (simp add: pf_rxq_ok_def credit_ok_def)
  then have hw: "onic_rx_high_watermark ?q \<longleftrightarrow> occupied (ring_size (rq_desc_ring ?q)) (rq_desc_ring ?q) < 128"
    by (intro high_watermark_occupied) simp
  have "fst (run_state (if onic_rx_high_watermark ?q then onic_rx_refill qdev ?q else ret ?q) s) =
      q\<lparr>rq_desc_ring := refilled_ring (onic_ring_increment_tail (rq_desc_ring q))\<rparr>"
    by (cases "onic_rx_high_watermark ?q")
      (use hw in \<open>simp_all add: onic_rx_refill_def refilled_ring_def Let_def split_beta\<close>)
  then show ?thesis by (simp add: pf_rx_advance_def rx_stepped_def Let_def split_beta)
qed

lemma rel_advance:
  assumes "pf_rxq_ok q"
  shows "onic_rel nothing (\<lambda>a x y. y = x \<and> a = rx_stepped color q) (pf_rx_advance qdev color q)"
proof (rule onic_relI)
  fix s :: drv_state and a s'
  assume run: "run_state (pf_rx_advance qdev color q) s = (a, s')"
  then obtain evs where "s' = s\<lparr>trace := trace s @ evs\<rparr>" by (rule io_onlyD [OF io_only_advance])
  moreover have "a = rx_stepped color q" using advance_result [OF assms, of qdev color s] run by simp
  ultimately show "\<exists>evs p'. s' = after s evs p' \<and> (p', ()) = (priv s, ()) \<and> a = rx_stepped color q"
    by (intro exI [of _ evs] exI [of _ "priv s"]) simp
qed

text \<open>A completed turn.\<close>

definition turn_ok :: "onic_rx_queue \<Rightarrow> rx_outcome \<Rightarrow> bool" where
  "turn_ok q t \<longleftrightarrow> (case t of Rx_oops \<Rightarrow> True | Rx_break q' x \<Rightarrow> rx_moved 0 q q' | Rx_next q' x \<Rightarrow> rx_moved 1 q q')"

lemma rel_put_back:
  "onic_rel nothing (\<lambda>a x y. same_rx x y \<and> (pf_rxq_ok q \<longrightarrow> turn_ok q a)) (rx_put_back cpu qdev cmpl q xmit)"
proof -
  have 1: "onic_rel nothing (\<lambda>a x y. same_rx x y \<and> (pf_rxq_ok q' \<longrightarrow> a = Rx_next (rx_stepped (cmpl_color cmpl) q') xmit))
      (do { upd_stats cpu f; q \<leftarrow> pf_rx_advance qdev (cmpl_color cmpl) q'; ret (Rx_next q xmit) })" for q' f
  proof (cases "pf_rxq_ok q'")
    case True
    show ?thesis
      by (rule onic_rel_conseq, (rule onic_rel_intro rel_advance [OF True])+) (auto simp: same_rx_def)
  next
    case False
    then show ?thesis
      by (intro onic_rel_conseq [OF onic_rel_bind [OF onic_rel_stats onic_rel_bind [OF rel_io [OF io_only_advance] onic_rel_ret]]])
        (auto simp: same_rx_def)
  qed
  show ?thesis
    unfolding rx_put_back_def
    apply (rule onic_rel_conseq)
    apply (rule onic_rel_bind [OF page_refill_result onic_rel_option [OF onic_rel_ret 1]])
    apply (elim exE conjE)
    subgoal for a x y r x1
      by (cases r) (auto simp: same_rx_def turn_ok_def stepped_page [simplified])
    done
qed

lemma io_only_back [io_intro]: "io_only (onic_rx_refill qdev q)"
  unfolding onic_rx_refill_def by (auto intro!: io_intro)

lemma turn_ok_same:
  assumes "pf_rxq_ok q" "same_rxq q q'"
  shows "pf_rxq_ok q'" "turn_ok q (Rx_break q' x)" "turn_ok q' t = turn_ok q t" "turn_ok q Rx_oops"
  using same_rxq_ok(1,2) [OF assms(2)] rx_moved_0 [of q'] assms(1) by (simp_all add: turn_ok_def split: rx_outcome.split)

lemma rel_turn:
  "onic_rel nothing (\<lambda>a x y. same_rx x y \<and> (pf_rxq_ok q \<longrightarrow> turn_ok q a)) (rx_turn fs cpu qdev cmpl q xmit)"
  unfolding rx_turn_def case_prod_beta
  apply (rule onic_rel_conseq)
  apply ((rule rel_put_back rel_run_xdp onic_rel_intro rel_io io_intro)+)[1]
  apply (split if_split_asm)
  subgoal by (simp add: same_rx_def turn_ok_def)
  apply (elim exE conjE)
  subgoal for a x y b1 x1 b2 x2 b3 x3 r x4 go x5
    using turn_ok_same [of q "snd r"] by (cases go) (auto simp: same_rx_def split: if_split_asm)
  done

text \<open>The loop.\<close>

definition loop_ok :: "nat \<Rightarrow> nat \<Rightarrow> onic_rx_queue \<Rightarrow> rx_loop_end option \<Rightarrow> bool" where
  "loop_ok n work q r \<longleftrightarrow> (case r of None \<Rightarrow> True
     | Some e \<Rightarrow> work \<le> le_work e \<and> le_work e \<le> work + n \<and> (le_spent e \<longrightarrow> le_work e = work + n) \<and>
         rx_moved (le_work e - work) q (le_queue e))"

lemma loop_ok_step:
  assumes "loop_ok n (Suc work) q1 r" "rx_moved 1 q q1"
  shows "loop_ok (Suc n) work q r"
proof (cases r)
  case (Some e)
  with assms(1) have "rx_moved (1 + (le_work e - Suc work)) q (le_queue e)" "Suc work \<le> le_work e"
    using rx_moved_trans [OF assms(2)] by (auto simp: loop_ok_def)
  then have "rx_moved (le_work e - work) q (le_queue e)" by (simp add: Suc_diff_Suc)
  then show ?thesis using assms(1) Some by (auto simp: loop_ok_def)
qed (simp add: loop_ok_def)

lemma rel_loop:
  "onic_rel nothing (\<lambda>a x y. same_rx x y \<and> (pf_rxq_ok q \<longrightarrow> loop_ok n work q a)) (rx_loop n fs cpu qdev pidx cmpl q xmit work)"
proof (induction n arbitrary: q cmpl xmit work)
  case 0
  then show ?case
    by (simp, intro onic_rel_conseq [OF onic_rel_ret]) (auto simp: same_rx_def loop_ok_def rx_moved_0)
next
  case (Suc n)
  have end0: "loop_ok (Suc n) work q (Some \<lparr>le_work = work, le_queue = q', le_xmit = m, le_spent = False\<rparr>)" if "rx_moved 0 q q'" for q' m
    using that by (simp add: loop_ok_def)
  have end1: "loop_ok (Suc 0) work q (Some \<lparr>le_work = Suc work, le_queue = q', le_xmit = m, le_spent = True\<rparr>)"
    if "rx_moved (Suc 0) q q'" for q' m using that by (simp add: loop_ok_def)
  have 1: "onic_rel nothing (\<lambda>a x y. same_rx x y \<and> (pf_rxq_ok q \<and> turn_ok q t \<longrightarrow> loop_ok (Suc n) work q a))
      (case t of
          Rx_oops \<Rightarrow> ret None
        | Rx_break q xmit \<Rightarrow> ret (Some \<lparr>le_work = work, le_queue = q, le_xmit = xmit, le_spent = False\<rparr>)
        | Rx_next q xmit \<Rightarrow>
            if n = 0 then ret (Some \<lparr>le_work = Suc work, le_queue = q, le_xmit = xmit, le_spent = True\<rparr>)
            else do {
              cmpl \<leftarrow> read_cmpl cmpl q;
              rx_loop n fs cpu qdev pidx cmpl q xmit (Suc work) })" for t
  proof (cases t)
    case (Rx_next q1 m)
    have "turn_ok q t \<Longrightarrow> pf_rxq_ok q1 \<and> rx_moved 1 q q1" using Rx_next by (simp add: turn_ok_def rx_moved_def)
    then show ?thesis
      unfolding Rx_next rx_outcome.case
      by (intro onic_rel_conseq [OF onic_rel_if [OF onic_rel_ret onic_rel_bind [OF rel_io [OF io_only_pf_rx(6)] Suc.IH]]])
        (auto simp: same_rx_def loop_ok_step Rx_next end1 split: if_split_asm)
  qed (auto simp: same_rx_def turn_ok_def end0 loop_ok_def intro!: onic_rel_conseq [OF onic_rel_ret])
  show ?case
    unfolding rx_loop.simps
    by (rule onic_rel_conseq, rule onic_rel_if [OF onic_rel_ret onic_rel_bind [OF rel_turn 1]])
      (auto simp: same_rx_def end0 rx_moved_0 split: if_split_asm)
qed

section \<open>One poll\<close>

lemma io_only_put_rx: "onic_rel nothing (\<lambda>a x y. pr_rx_queue (fst y) = (pr_rx_queue (fst x))(i := Some q)) (put_rx_queue i q)"
  unfolding put_rx_queue_def by (rule onic_rel_conseq, rule onic_rel_upd) auto

lemma rel_clean_all: "onic_rel nothing (\<lambda>a x y. same_rx x y) (clean_all qdev js)"
proof (induction js)
  case Nil
  show ?case by (simp, rule onic_rel_conseq [OF onic_rel_ret]) (auto simp: same_rx_def)
next
  case (Cons i js)
  show ?case
    unfolding clean_all.simps
    by (rule onic_rel_conseq, (rule Cons.IH rel_same_rx onic_rel_intro rel_io io_intro)+) (auto simp: same_rx_def split: option.splits)
qed

definition polled_queue :: "nat \<Rightarrow> onic_rx_queue \<Rightarrow> (nat \<times> onic_rx_queue) option \<Rightarrow> bool" where
  "polled_queue budget q r \<longleftrightarrow> (case r of None \<Rightarrow> True | Some (work, q') \<Rightarrow> work \<le> max 1 budget \<and> rx_moved work q q')"

lemma rel_poll_queue:
  "onic_rel nothing (\<lambda>a x y. same_rx x y \<and> (pf_rxq_ok q \<longrightarrow> polled_queue budget q a)) (poll_rx_queue fs cpu qdev q budget)"
  unfolding poll_rx_queue_def
  apply (rule onic_rel_conseq)
  apply ((rule rel_loop onic_rel_intro rel_io io_intro)+)[1]
  apply (elim exE conjE)
  apply (auto simp: same_rx_def loop_ok_def polled_queue_def split: option.splits if_split_asm)
  done

lemma rel_poll:
  "onic_rel nothing (\<lambda>r x y. case r of None \<Rightarrow> True
     | Some work \<Rightarrow> \<exists>q q'. pr_rx_queue (fst x) i = Some q \<and> pr_rx_queue (fst y) = (pr_rx_queue (fst x))(i := Some q') \<and>
         (pf_rxq_ok q \<longrightarrow> work \<le> max 1 budget \<and> rx_moved work q q')) (onic_rx_poll fs i budget)"
  unfolding onic_rx_poll_def case_prod_beta
  apply (rule onic_rel_conseq)
  apply ((rule io_only_put_rx rel_clean_all rel_poll_queue onic_rel_intro rel_io io_intro)+)[1]
  apply (elim exE conjE)
  apply (simp split: option.splits prod.splits)
  apply (auto simp: same_rx_def polled_queue_def)
  done

section \<open>A well-formed queue is polled without a NULL pointer\<close>

text \<open>Whether the page pool has run dry, in the account of the events.\<close>

definition dry :: "event list \<Rightarrow> bool" where
  "dry tr \<longleftrightarrow> (\<exists>p r. (Page (Page_pool_alloc p), r) \<in> set tr \<and> (of_int r :: ptr) = 0)"

lemma dry_append [simp]: "dry (tr @ evs) \<longleftrightarrow> dry tr \<or> dry evs"
  by (auto simp: dry_def)

lemma dry_alloc [simp]: "dry [(Page (Page_pool_alloc p), r)] \<longleftrightarrow> (of_int r :: ptr) = 0"
  by (auto simp: dry_def)

lemma rel_dry:
  assumes "onic_rel nothing R m"
  shows "onic_rel dry (\<lambda>a x y. R a (fst x, ()) (fst y, ()) \<and> (snd x \<longrightarrow> snd y)) m"
proof (rule onic_relI)
  fix s a s'
  assume "run_state m s = (a, s')"
  then obtain evs p' where "s' = after s evs p'" "R a (priv s, ()) (p', ())" by (rule onic_relD [OF assms])
  then show "\<exists>evs p'. s' = after s evs p' \<and> R a (fst (priv s, dry (trace s)), ()) (fst (p', dry (trace s @ evs)), ()) \<and>
      (snd (priv s, dry (trace s)) \<longrightarrow> snd (p', dry (trace s @ evs)))"
    by (intro exI [of _ evs] exI [of _ p']) simp
qed

lemma refill_dry: "onic_rel dry (\<lambda>a x y. a = None \<longrightarrow> snd y) (onic_rx_page_refill q)"
proof (rule onic_relI)
  fix s :: drv_state and a s'
  assume run: "run_state (onic_rx_page_refill q) s = (a, s')"
  then obtain evs where evs: "s' = s\<lparr>trace := trace s @ evs\<rparr>" by (rule io_onlyD [OF io_only_pf_rx(1)])
  have "dry (trace s')" if "a = None"
    using run that by (auto simp: onic_rx_page_refill_def run_simps Let_def split: if_splits prod.splits)
  with evs show "\<exists>evs p'. s' = after s evs p' \<and> (a = None \<longrightarrow> snd (p', dry (trace s @ evs)))"
    by (intro exI [of _ evs] exI [of _ "priv s"]) simp
qed

lemma onic_rel_conj:
  assumes "onic_rel V R m" "onic_rel V S m"
  shows "onic_rel V (\<lambda>a x y. R a x y \<and> S a x y) m"
proof (rule onic_relI)
  fix s a s'
  assume run: "run_state m s = (a, s')"
  from assms(1) run obtain e1 p1 where 1: "s' = after s e1 p1" "R a (priv s, V (trace s)) (p1, V (trace s @ e1))" by (rule onic_relD)
  from assms(2) run obtain e2 p2 where 2: "s' = after s e2 p2" "S a (priv s, V (trace s)) (p2, V (trace s @ e2))" by (rule onic_relD)
  have "trace (after s e1 p1) = trace (after s e2 p2)" "priv (after s e1 p1) = priv (after s e2 p2)" using 1(1) 2(1) by metis+
  then have "e1 = e2" "p1 = p2" by simp_all
  with 1 2 show "\<exists>evs p'. s' = after s evs p' \<and> R a (priv s, V (trace s)) (p', V (trace s @ evs)) \<and>
      S a (priv s, V (trace s)) (p', V (trace s @ evs))" by blast
qed

lemma put_back_dry: "onic_rel dry (\<lambda>a x y. a = Rx_oops \<longrightarrow> snd y) (rx_put_back cpu qdev cmpl q xmit)"
  unfolding rx_put_back_def
  apply (rule onic_rel_conseq)
  apply (rule onic_rel_bind [OF refill_dry onic_rel_option [OF onic_rel_ret onic_rel_bind [OF onic_rel_stats
    onic_rel_bind [OF rel_dry [OF rel_io [OF io_only_advance]] onic_rel_ret]]]])
  apply (auto split: option.splits)
  done

lemma turn_dry: "onic_rel dry (\<lambda>a x y. (pf_rxq_ok q \<longrightarrow> a = Rx_oops \<longrightarrow> snd y) \<and> (pf_rxq_ok q \<longrightarrow> turn_ok q a)) (rx_turn fs cpu qdev cmpl q xmit)"
proof -
  let ?b = "rq_buffer q ! ring_tail (rq_desc_ring q)"
  have pg: "rb_pg ?b \<noteq> 0" if "pf_rxq_ok q"
    using that by (simp add: pf_rxq_ok_def credit_ok_def ring_ok_def)
  have 1: "onic_rel dry (\<lambda>a x y. (pf_rxq_ok q \<longrightarrow> a = Rx_oops \<longrightarrow> snd y)) (rx_turn fs cpu qdev cmpl q xmit)"
    unfolding rx_turn_def case_prod_beta
    apply (rule onic_rel_conseq)
    apply ((rule put_back_dry rel_dry [OF rel_run_xdp] onic_rel_bind onic_rel_if onic_rel_let onic_rel_ret rel_dry [OF rel_io] io_intro)+)[1]
    using pg apply (auto split: if_split_asm)
    done
  have 2: "onic_rel dry (\<lambda>a x y. pf_rxq_ok q \<longrightarrow> turn_ok q a) (rx_turn fs cpu qdev cmpl q xmit)"
    by (rule onic_rel_conseq [OF rel_dry [OF rel_turn]]) simp
  show ?thesis by (rule onic_rel_conseq [OF onic_rel_conj [OF 1 2]]) blast
qed

lemma loop_dry: "onic_rel dry (\<lambda>a x y. pf_rxq_ok q \<longrightarrow> a = None \<longrightarrow> snd y) (rx_loop n fs cpu qdev pidx cmpl q xmit work)"
proof (induction n arbitrary: q cmpl xmit work)
  case 0
  show ?case by (simp, intro onic_rel_conseq [OF onic_rel_ret]) auto
next
  case (Suc n)
  have 1: "onic_rel dry (\<lambda>a x y. (t = Rx_oops \<longrightarrow> snd x) \<and> turn_ok q t \<longrightarrow> a = None \<longrightarrow> snd y)
      (case t of
          Rx_oops \<Rightarrow> ret None
        | Rx_break q xmit \<Rightarrow> ret (Some \<lparr>le_work = work, le_queue = q, le_xmit = xmit, le_spent = False\<rparr>)
        | Rx_next q xmit \<Rightarrow>
            if n = 0 then ret (Some \<lparr>le_work = Suc work, le_queue = q, le_xmit = xmit, le_spent = True\<rparr>)
            else do {
              cmpl \<leftarrow> read_cmpl cmpl q;
              rx_loop n fs cpu qdev pidx cmpl q xmit (Suc work) })" for t
  proof (cases t)
    case (Rx_next q1 m)
    have "turn_ok q t \<Longrightarrow> pf_rxq_ok q1" using Rx_next by (simp add: turn_ok_def rx_moved_def)
    then show ?thesis
      unfolding Rx_next rx_outcome.case
      by (intro onic_rel_conseq [OF onic_rel_if [OF onic_rel_ret onic_rel_bind [OF rel_dry [OF rel_io [OF io_only_pf_rx(6)]] Suc.IH]]])
        (auto simp: Rx_next split: if_split_asm)
  qed (auto intro!: onic_rel_conseq [OF onic_rel_ret])
  show ?case
    unfolding rx_loop.simps
    by (rule onic_rel_conseq, rule onic_rel_if [OF onic_rel_ret onic_rel_bind [OF turn_dry 1]]) (auto split: if_split_asm)
qed

lemma clean_all_found:
  "onic_rel nothing (\<lambda>a x y. a = None \<longrightarrow> (\<exists>j\<in>set js. pr_tx_queue (fst x) j = None)) (clean_all qdev js)"
proof (induction js)
  case Nil
  show ?case by (simp, rule onic_rel_conseq [OF onic_rel_ret]) auto
next
  case (Cons i js)
  have put: "onic_rel nothing (\<lambda>a x y. pr_tx_queue (fst y) = (pr_tx_queue (fst x))(i := Some q)) (put_tx_queue i q)" for q
    unfolding put_tx_queue_def by (rule onic_rel_conseq, rule onic_rel_upd) auto
  show ?case
    unfolding clean_all.simps
    apply (rule onic_rel_conseq)
    apply ((rule put Cons.IH onic_rel_intro rel_io io_intro)+)[1]
    apply (auto split: option.splits if_split_asm)
    done
qed

lemma poll_queue_dry: "onic_rel dry (\<lambda>a x y. pf_rxq_ok q \<longrightarrow> a = None \<longrightarrow> snd y) (poll_rx_queue fs cpu qdev q budget)"
  unfolding poll_rx_queue_def
  apply (rule onic_rel_conseq)
  apply ((rule loop_dry onic_rel_bind onic_rel_let onic_rel_option onic_rel_ret rel_dry [OF rel_io] io_intro)+)[1]
  apply (auto split: option.splits)
  done

lemma poll_dry:
  "onic_rel dry (\<lambda>r x y. pr_rx_queue (fst x) i = Some q \<and> pf_rxq_ok q \<and> hw_qdma (pr_hw (fst x)) \<noteq> None \<and>
     (\<forall>j<unat (pr_num_tx_queues (fst x)). pr_tx_queue (fst x) j \<noteq> None) \<longrightarrow> r = None \<longrightarrow> snd y) (onic_rx_poll fs i budget)"
  unfolding onic_rx_poll_def case_prod_beta
  apply (rule onic_rel_conseq)
  apply ((rule poll_queue_dry rel_dry [OF clean_all_found] rel_dry [OF io_only_put_rx] onic_rel_get_priv onic_rel_bind onic_rel_option
    onic_rel_ret rel_dry [OF rel_io] io_intro)+)[1]
  apply (auto split: option.splits)
  done

section \<open>Properties\<close>

text \<open>C36. One poll of a PF stays within its budget and keeps the queue in order. Whatever the card, the kernel and the XDP
  program do, a poll that returns has handled at most \<open>budget\<close> packets (one when the budget is 0, which the loop only looks at
  after a packet); the descriptor and the completion ring have moved on by exactly that number, every entry holds a page again,
  with the headroom in front, and between 128 and the size of the ring, exclusive, descriptors stay posted.\<close>

theorem pf_rx_poll_bounds:
  assumes "pr_rx_queue (priv s) i = Some q" "pf_rxq_ok q"
  shows "case run_state (onic_rx_poll fs i budget) s of (None, s') \<Rightarrow> True
  | (Some work, s') \<Rightarrow> work \<le> max 1 budget \<and>
      (\<exists>q'. pr_rx_queue (priv s') = (pr_rx_queue (priv s))(i := Some q') \<and> pf_rxq_ok q' \<and>
        ring_tail (rq_desc_ring q') = (ring_tail (rq_desc_ring q) + work) mod ring_size (rq_desc_ring q) \<and>
        ring_tail (rq_cmpl_ring q') = (ring_tail (rq_cmpl_ring q) + work) mod ring_size (rq_cmpl_ring q))"
proof (cases "run_state (onic_rx_poll fs i budget) s")
  case (Pair r s')
  show ?thesis
  proof (cases r)
    case (Some work)
    from rel_poll Pair [unfolded Some] obtain evs p' where s': "s' = after s evs p'"
      "\<exists>q q'. pr_rx_queue (priv s) i = Some q \<and> pr_rx_queue p' = (pr_rx_queue (priv s))(i := Some q') \<and>
        (pf_rxq_ok q \<longrightarrow> work \<le> max 1 budget \<and> rx_moved work q q')"
      by (rule onic_relD) simp
    then obtain q' where "pr_rx_queue p' = (pr_rx_queue (priv s))(i := Some q')" "work \<le> max 1 budget" "rx_moved work q q'"
      using assms by auto
    then show ?thesis unfolding rx_moved_def Pair Some prod.case option.case
      by (intro conjI exI [of _ q']) (simp_all add: s'(1))
  qed (simp add: Pair)
qed

text \<open>C37. A well-formed PF does not dereference NULL in its poll. When the queue is well formed, every transmit queue and the
  device exist, and the page pool has never run dry, the poll returns: progress, to which the preceding property adds
  that the queue stays well formed. Only the page pool running dry, which \<^verbatim>\<open>onic_rx_page_refill\<close> does not check,
  makes it read through a NULL page.\<close>

theorem pf_rx_poll_progress:
  assumes "pr_rx_queue (priv s) i = Some q" "pf_rxq_ok q" "hw_qdma (pr_hw (priv s)) \<noteq> None"
    "\<forall>j<unat (pr_num_tx_queues (priv s)). pr_tx_queue (priv s) j \<noteq> None" "\<not> dry (trace s)"
  shows "case run_state (onic_rx_poll fs i budget) s of (r, s') \<Rightarrow> dry (trace s') \<or> (\<exists>work. r = Some work)"
proof (cases "run_state (onic_rx_poll fs i budget) s")
  case (Pair r s')
  with poll_dry [of i q fs budget] obtain evs p' where "s' = after s evs p'" "r = None \<longrightarrow> dry (trace s @ evs)"
    by (rule onic_relD) (use assms in simp)
  then show ?thesis by (cases r) (simp_all add: Pair)
qed

text \<open>A PF with one pair of queues, on a card that has received one packet, with pages at hand.\<close>

definition pf_sample_rxq :: onic_rx_queue where
  "pf_sample_rxq = \<lparr>rq_self = 0x5000, rq_qid = 0, rq_state = 0, rq_buffer_ptr = 0x4000,
     rq_buffer = replicate 1023 \<lparr>rb_pg = 0x6000, rb_offset = of_nat XDP_PACKET_HEADROOM, rb_time_stamp = 0\<rparr>,
     rq_desc_ring = \<lparr>ring_count = 1024, ring_desc = 0x1000, ring_wb = 0x2FF8, ring_dma_addr = 0x1000,
       ring_next_to_use = 256, ring_next_to_clean = 0, ring_color = 0\<rparr>,
     rq_cmpl_ring = \<lparr>ring_count = 1024, ring_desc = 0x8000, ring_wb = 0x9FF8, ring_dma_addr = 0x8000,
       ring_next_to_use = 0, ring_next_to_clean = 0, ring_color = 1\<rparr>, rq_vector = None,
     rq_xdp_prog = 0, rq_xdp_rxq = True, rq_page_pool = 0x7000, rq_xdp_stats = zero_xdp_stats\<rparr>"

definition pf_rx_sample :: drv_state where
  "pf_rx_sample = \<lparr>ext = (\<lambda>_ c. case c of Mem (Dma_read64 b off) \<Rightarrow> 1 | Page (Page_pool_alloc p) \<Rightarrow> 0x9000
       | Skb (Napi_build_skb a) \<Rightarrow> 0xA000 | _ \<Rightarrow> 0), trace = [],
     priv = zero_private\<lparr>pr_rx_queue := (\<lambda>_. None)(0 := Some pf_sample_rxq), pr_netdev_stats := Some [zero_stats],
       pr_hw := zero_hardware\<lparr>hw_qdma := Some pf_sample_dev\<rparr>\<rparr>\<rparr>"

lemma pf_sample_rxq_ok: "pf_rxq_ok pf_sample_rxq"
  by (simp add: pf_rxq_ok_def credit_ok_def pf_sample_rxq_def ring_ok_def occupied_def onic_ring_get_real_count_def)

theorem pf_rx_poll_progress_witness:
  "case run_state (onic_rx_poll 40 0 64) pf_rx_sample of (r, s') \<Rightarrow> dry (trace s') \<or> (\<exists>work. r = Some work)"
  by (rule pf_rx_poll_progress [OF _ pf_sample_rxq_ok])
    (simp_all add: pf_rx_sample_def dry_def zero_private_def)

theorem pf_rx_poll_bounds_witness:
  "case run_state (onic_rx_poll 40 0 64) pf_rx_sample of (None, s') \<Rightarrow> True
  | (Some work, s') \<Rightarrow> work \<le> 64 \<and> (\<exists>q'. pr_rx_queue (priv s') 0 = Some q' \<and> pf_rxq_ok q' \<and>
      ring_tail (rq_desc_ring q') = work mod 1023 \<and> ring_tail (rq_cmpl_ring q') = work mod 1023)"
proof -
  have "pr_rx_queue (priv pf_rx_sample) 0 = Some pf_sample_rxq" by (simp add: pf_rx_sample_def)
  note pf_rx_poll_bounds [where fs = 40 and budget = 64, OF this pf_sample_rxq_ok]
  then show ?thesis
    by (fastforce split: prod.splits option.splits simp: pf_sample_rxq_def onic_ring_get_real_count_def)
qed

end
