(* ===== verification/Pf_Queues.thy ===== *)
theory Pf_Queues
  imports Pf_Rx Pf_Irq
begin

text \<open>
  The queues of a PF (\<^verbatim>\<open>onic_netdev.c\<close>): set-up and release of rings, open and stop, and the small operations of the
  network device. The conventions are those of \<open>Pf_Tx\<close>: \<open>None\<close> stands for a NULL pointer that is dereferenced and for a
  division by zero. The page pool and the receive info of a queue are named by the pool and by the queue.
\<close>

section \<open>Release\<close>

text \<open>The size of a ring in bytes: an unsigned int, rounded up to pages.\<close>

definition pf_ring_bytes :: "u16 \<Rightarrow> nat \<Rightarrow> nat \<Rightarrow> nat" where
  "pf_ring_bytes cnt desc_size stat_size =
     (let n = of_nat desc_size * (ucast cnt - 1) + of_nat stat_size :: u32
      in unat ((n + of_nat (PAGE_SIZE - 1)) AND NOT (of_nat (PAGE_SIZE - 1))))"

text \<open>The loop over the buffers only logs.\<close>

definition onic_clear_tx_queue :: "qdma_dev \<Rightarrow> nat \<Rightarrow> unit onic" where
  "onic_clear_tx_queue qdev qid = do {
     p \<leftarrow> get_priv;
     case pr_tx_queue p qid of
       None \<Rightarrow> ret ()
     | Some q \<Rightarrow> do {
         q \<leftarrow> onic_tx_clean qdev q;
         onic_qdma_clear_tx_queue qdev (of_nat qid);
         let ring = tq_ring q;
         (if ring_desc ring \<noteq> 0
          then invoke (Mem (Dma_free_coherent (pf_ring_bytes (ring_count ring) QDMA_H2C_ST_DESC_SIZE QDMA_WB_STAT_SIZE)
            (ring_desc ring) (ring_dma_addr ring)))
          else ret ());
         (if tq_buffer_ptr q \<noteq> 0 then invoke (Mem (Kfree (tq_buffer_ptr q))) else ret ());
         invoke (Mem (Kfree (tq_self q)));
         upd_priv (put_txq qid None) } }"

text \<open>The pages go back to the pool by the number of entries of the completion ring.\<close>

definition free_ring :: "nat \<Rightarrow> nat \<Rightarrow> onic_ring \<Rightarrow> ('z, unit) drv" where
  "free_ring desc_size stat_size ring =
     (if ring_desc ring \<noteq> 0
      then invoke (Mem (Dma_free_coherent (pf_ring_bytes (ring_count ring) desc_size stat_size) (ring_desc ring) (ring_dma_addr ring)))
      else ret ())"

definition onic_clear_rx_queue :: "qdma_dev \<Rightarrow> nat \<Rightarrow> unit onic" where
  "onic_clear_rx_queue qdev qid = do {
     p \<leftarrow> get_priv;
     case pr_rx_queue p qid of
       None \<Rightarrow> ret ()
     | Some q \<Rightarrow> do {
         onic_qdma_clear_rx_queue qdev (of_nat qid);
         invoke (Net (Napi_disable (unat (rq_qid q))));
         invoke (Net (Netif_napi_del (unat (rq_qid q))));
         free_ring QDMA_C2H_ST_DESC_SIZE QDMA_WB_STAT_SIZE (rq_desc_ring q);
         free_ring QDMA_C2H_CMPL_SIZE QDMA_C2H_CMPL_STAT_SIZE (rq_cmpl_ring q);
         for_each [0..<unat (ring_count (rq_cmpl_ring q) - 1)] (\<lambda>i.
           invoke (Page (Page_pool_put (rq_page_pool q) (rb_pg (rq_buffer q ! i)))));
         (if rq_buffer_ptr q \<noteq> 0 then invoke (Mem (Kfree (rq_buffer_ptr q))) else ret ());
         (if rq_xdp_rxq q then invoke (Xdp (Xdp_rxq_info_unreg (unat (rq_qid q)))) else ret ());
         invoke (Page (Page_pool_destroy (rq_page_pool q)));
         invoke (Mem (Kfree (rq_self q)));
         upd_priv (put_rxq qid None) } }"

section \<open>Set-up\<close>

text \<open>
  An error ends in \<^verbatim>\<open>onic_clear_tx_queue\<close>, which looks at the table: the queue is only put there at the end, so what was
  allocated stays allocated.
\<close>

definition onic_init_tx_queue :: "qdma_dev \<Rightarrow> nat \<Rightarrow> int option onic" where
  "onic_init_tx_queue qdev qid = do {
     p \<leftarrow> get_priv;
     (if pr_tx_queue p qid \<noteq> None then onic_clear_tx_queue qdev qid else ret ());
     a \<leftarrow> perform (Mem (Kzalloc Obj_tx_queue));
     if (of_int a :: ptr) = 0 then ret (Some (- ENOMEM))
     else do {
       if pr_num_q_vectors p = 0 then ret None
       else do {
         let vid = of_nat qid mod pr_num_q_vectors p;
         let cnt = onic_ring_count 0;
         let real_count = unat (cnt - 1);
         let bytes = pf_ring_bytes cnt QDMA_H2C_ST_DESC_SIZE QDMA_WB_STAT_SIZE;
         d \<leftarrow> perform (Mem (Dma_alloc_coherent bytes));
         if (of_int d :: ptr) = 0 then do { onic_clear_tx_queue qdev qid; ret (Some (- ENOMEM)) }
         else do {
           h \<leftarrow> perform (Mem (Dma_handle (of_int d)));
           invoke (Mem (Dma_memset (of_int d) bytes));
           b \<leftarrow> perform (Mem (Kcalloc Obj_tx_buffer real_count));
           if (of_int b :: ptr) = 0 then do { onic_clear_tx_queue qdev qid; ret (Some (- ENOMEM)) }
           else do {
             rv \<leftarrow> onic_qdma_init_tx_queue qdev (of_nat qid)
               \<lparr>hp_rngcnt_idx = 0, hp_dma_addr = of_int h, hp_vid = vid\<rparr>;
             if rv < 0 then do { onic_clear_tx_queue qdev qid; ret (Some rv) }
             else do {
               put_tx_queue qid \<lparr>tq_self = of_int a, tq_qid = of_nat qid, tq_state = 0, tq_buffer_ptr = of_int b,
                 tq_buffer = replicate real_count \<lparr>tb_type = 0, tb_skb = 0, tb_dma_addr = 0, tb_len = 0, tb_time_stamp = 0\<rparr>,
                 tq_ring = \<lparr>ring_count = cnt, ring_desc = of_int d,
                   ring_wb = of_int d + of_nat (QDMA_H2C_ST_DESC_SIZE * real_count), ring_dma_addr = of_int h,
                   ring_next_to_use = 0, ring_next_to_clean = 0, ring_color = 0\<rparr>,
                 tq_vector = pr_q_vector p (unat vid), tq_xdp_xmit = 0, tq_xdp_xmit_err = 0\<rparr>;
               ret (Some 0) } } } } } }"

text \<open>The pool is created for \<open>n\<close> pages; its other parameters are not part of the call.\<close>

definition onic_create_page_pool :: "onic_rx_queue \<Rightarrow> nat \<Rightarrow> ('z, int \<times> onic_rx_queue) drv" where
  "onic_create_page_pool q n = do {
     r \<leftarrow> perform (Page (Page_pool_create n));
     if r < 0 then ret (r, q\<lparr>rq_page_pool := 0\<rparr>)
     else do {
       let pp = (of_int r :: ptr);
       err \<leftarrow> perform_errno (Xdp (Xdp_rxq_info_reg (unat (rq_qid q))));
       if err < 0 then do {
         invoke (Page (Page_pool_destroy pp));
         ret (err, q\<lparr>rq_page_pool := 0\<rparr>) }
       else do {
         err \<leftarrow> perform_errno (Xdp (Xdp_rxq_info_reg_mem_model (unat (rq_qid q)) pp));
         if err \<noteq> 0 then do {
           invoke (Xdp (Xdp_rxq_info_unreg (unat (rq_qid q))));
           invoke (Page (Page_pool_destroy pp));
           ret (err, q\<lparr>rq_page_pool := 0, rq_xdp_rxq := False\<rparr>) }
         else ret (0, q\<lparr>rq_page_pool := pp, rq_xdp_rxq := True\<rparr>) } } }"

fun alloc_pages :: "nat list \<Rightarrow> onic_rx_queue \<Rightarrow> ('z, bool \<times> onic_rx_queue) drv" where
  "alloc_pages [] q = ret (True, q)"
| "alloc_pages (i # js) q = do {
     r \<leftarrow> perform (Page (Page_pool_alloc (rq_page_pool q)));
     if (of_int r :: ptr) = 0 then ret (False, q)
     else alloc_pages js (q\<lparr>rq_buffer := (rq_buffer q)[i := (rq_buffer q ! i)
       \<lparr>rb_pg := of_int r, rb_offset := of_nat XDP_PACKET_HEADROOM\<rparr>]\<rparr>) }"

definition write_rx_desc :: "onic_rx_queue \<Rightarrow> nat \<Rightarrow> ('z, unit) drv" where
  "write_rx_desc q i = do {
     let buf = rq_buffer q ! i;
     a \<leftarrow> perform (Page (Page_pool_get_dma_addr (rb_pg buf)));
     qdma_pack_c2h_st_desc (ring_desc (rq_desc_ring q)) (QDMA_C2H_ST_DESC_SIZE * i)
       \<lparr>c2h_dst_addr = of_int a + ucast (rb_offset buf)\<rparr> }"

definition no_ring :: onic_ring where
  "no_ring = \<lparr>ring_count = 0, ring_desc = 0, ring_wb = 0, ring_dma_addr = 0, ring_next_to_use = 0,
     ring_next_to_clean = 0, ring_color = 0\<rparr>"

text \<open>The queue with its descriptor ring, before the buffers.\<close>

definition pf_new_rx_queue :: "ptr \<Rightarrow> nat \<Rightarrow> onic_q_vector option \<Rightarrow> ptr \<Rightarrow> u16 \<Rightarrow> ptr \<Rightarrow> dma_addr \<Rightarrow> onic_rx_queue" where
  "pf_new_rx_queue self qid vec prog cnt d h =
     \<lparr>rq_self = self, rq_qid = of_nat qid, rq_state = 0, rq_buffer_ptr = 0,
      rq_buffer = replicate (unat (cnt - 1)) \<lparr>rb_pg = 0, rb_offset = 0, rb_time_stamp = 0\<rparr>,
      rq_desc_ring = no_ring\<lparr>ring_count := cnt, ring_desc := d,
        ring_wb := d + of_nat (QDMA_C2H_ST_DESC_SIZE * unat (cnt - 1)), ring_dma_addr := h\<rparr>,
      rq_cmpl_ring = no_ring, rq_vector = vec, rq_xdp_prog = prog, rq_xdp_rxq = False, rq_page_pool = 0,
      rq_xdp_stats = zero_xdp_stats\<rparr>"

text \<open>From the completion ring on.\<close>

definition start_pf_rx_queue :: "qdma_dev \<Rightarrow> nat \<Rightarrow> u16 \<Rightarrow> onic_rx_queue \<Rightarrow> int option onic" where
  "start_pf_rx_queue qdev qid vid q = do {
     let cnt = onic_ring_count 8;
     let bytes = pf_ring_bytes cnt QDMA_C2H_CMPL_SIZE QDMA_C2H_CMPL_STAT_SIZE;
     c \<leftarrow> perform (Mem (Dma_alloc_coherent bytes));
     if (of_int c :: ptr) = 0 then do { onic_clear_rx_queue qdev qid; ret (Some (- ENOMEM)) }
     else do {
       ch \<leftarrow> perform (Mem (Dma_handle (of_int c)));
       invoke (Mem (Dma_memset (of_int c) bytes));
       let q = q\<lparr>rq_cmpl_ring := no_ring\<lparr>ring_count := cnt, ring_desc := of_int c,
         ring_wb := of_int c + of_nat (QDMA_C2H_CMPL_SIZE * unat (cnt - 1)), ring_dma_addr := of_int ch, ring_color := 1\<rparr>\<rparr>;
       invoke (Net (Netif_napi_add (unat (rq_qid q))));
       invoke (Net (Napi_enable (unat (rq_qid q))));
       rv \<leftarrow> onic_qdma_init_rx_queue qdev (of_nat qid)
         \<lparr>cp_bufsz_idx = 8, cp_desc_rngcnt_idx = 8, cp_cmpl_rngcnt_idx = 8, cp_cmpl_desc_sz = 0,
          cp_desc_dma_addr = ring_dma_addr (rq_desc_ring q), cp_cmpl_dma_addr = ring_dma_addr (rq_cmpl_ring q), cp_vid = vid\<rparr>;
       if rv < 0 then do { onic_clear_rx_queue qdev qid; ret (Some rv) }
       else do {
         let q = q\<lparr>rq_desc_ring := (rq_desc_ring q)\<lparr>ring_next_to_use := of_nat ONIC_RX_DESC_STEP\<rparr>\<rparr>;
         onic_set_rx_head qdev (of_nat qid) (ring_next_to_use (rq_desc_ring q));
         onic_set_completion_tail qdev (of_nat qid) 0 1;
         put_rx_queue qid q;
         ret (Some 0) } } }"

text \<open>A pool that is NULL without an error is read through.\<close>

definition onic_init_rx_queue :: "qdma_dev \<Rightarrow> nat \<Rightarrow> int option onic" where
  "onic_init_rx_queue qdev qid = do {
     p \<leftarrow> get_priv;
     (if pr_rx_queue p qid \<noteq> None then onic_clear_rx_queue qdev qid else ret ());
     a \<leftarrow> perform (Mem (Kzalloc Obj_rx_queue));
     if (of_int a :: ptr) = 0 then ret (Some (- ENOMEM))
     else do {
       if pr_num_q_vectors p = 0 then ret None
       else do {
         let vid = of_nat qid mod pr_num_q_vectors p;
         let cnt = onic_ring_count 8;
         let real_count = unat (cnt - 1);
         let bytes = pf_ring_bytes cnt QDMA_C2H_ST_DESC_SIZE QDMA_WB_STAT_SIZE;
         d \<leftarrow> perform (Mem (Dma_alloc_coherent bytes));
         if (of_int d :: ptr) = 0 then do { onic_clear_rx_queue qdev qid; ret (Some (- ENOMEM)) }
         else do {
           h \<leftarrow> perform (Mem (Dma_handle (of_int d)));
           invoke (Mem (Dma_memset (of_int d) bytes));
           let q = pf_new_rx_queue (of_int a) qid (pr_q_vector p (unat vid)) (pr_xdp_prog p) cnt (of_int d) (of_int h);
           b \<leftarrow> perform (Mem (Kcalloc Obj_rx_buffer real_count));
           if (of_int b :: ptr) = 0 then do { onic_clear_rx_queue qdev qid; ret (Some (- ENOMEM)) }
           else do {
             (rv, q) \<leftarrow> onic_create_page_pool (q\<lparr>rq_buffer_ptr := of_int b\<rparr>) real_count;
             if rv < 0 then do { onic_clear_rx_queue qdev qid; ret (Some rv) }
             else if rq_page_pool q = 0 then ret None
             else do {
               (ok, q) \<leftarrow> alloc_pages [0..<real_count] q;
               if \<not> ok then do { onic_clear_rx_queue qdev qid; ret (Some (- ENOMEM)) }
               else do {
                 for_each [0..<real_count] (write_rx_desc q);
                 start_pf_rx_queue qdev qid vid q } } } } } } }"

text \<open>The queues from the first of the list on; \<open>Some (rv, js)\<close> with the queues not set up, \<open>None\<close> as above.\<close>

fun init_queues :: "(nat \<Rightarrow> int option onic) \<Rightarrow> nat list \<Rightarrow> (int \<times> nat list) option onic" where
  "init_queues f [] = ret (Some (0, []))"
| "init_queues f (i # js) = do {
     r \<leftarrow> f i;
     case r of
       None \<Rightarrow> ret None
     | Some rv \<Rightarrow> if rv = 0 then init_queues f js else ret (Some (rv, i # js)) }"

text \<open>\<^verbatim>\<open>while (qid--)\<close>: the queues before the one that failed, backwards.\<close>

definition onic_init_tx_resource :: "qdma_dev \<Rightarrow> int option onic" where
  "onic_init_tx_resource qdev = do {
     p \<leftarrow> get_priv;
     let n = unat (pr_num_tx_queues p);
     r \<leftarrow> init_queues (onic_init_tx_queue qdev) [0..<n];
     case r of
       None \<Rightarrow> ret None
     | Some (rv, js) \<Rightarrow> if rv = 0 then ret (Some 0)
         else do {
           for_each (rev [0..<n - length js]) (onic_clear_tx_queue qdev);
           ret (Some rv) } }"

definition onic_init_rx_resource :: "qdma_dev \<Rightarrow> int option onic" where
  "onic_init_rx_resource qdev = do {
     p \<leftarrow> get_priv;
     let n = unat (pr_num_rx_queues p);
     r \<leftarrow> init_queues (onic_init_rx_queue qdev) [0..<n];
     case r of
       None \<Rightarrow> ret None
     | Some (rv, js) \<Rightarrow> if rv = 0 then ret (Some 0)
         else do {
           for_each (rev [0..<n - length js]) (onic_clear_rx_queue qdev);
           ret (Some rv) } }"

section \<open>Open and stop\<close>

definition onic_stop_netdev :: "qdma_dev \<Rightarrow> int onic" where
  "onic_stop_netdev qdev = do {
     p \<leftarrow> get_priv;
     invoke (Net Netif_carrier_off);
     invoke (Net Netif_tx_stop_all_queues);
     for_each [0..<unat (pr_num_tx_queues p)] (onic_clear_tx_queue qdev);
     for_each [0..<unat (pr_num_rx_queues p)] (onic_clear_rx_queue qdev);
     ret 0 }"

definition onic_open_netdev :: "qdma_dev \<Rightarrow> int option onic" where
  "onic_open_netdev qdev = do {
     r \<leftarrow> onic_init_tx_resource qdev;
     case r of
       None \<Rightarrow> ret None
     | Some rv \<Rightarrow> if rv < 0 then do { _ \<leftarrow> onic_stop_netdev qdev; ret (Some rv) }
         else do {
           r \<leftarrow> onic_init_rx_resource qdev;
           case r of
             None \<Rightarrow> ret None
           | Some rv \<Rightarrow> if rv < 0 then do { _ \<leftarrow> onic_stop_netdev qdev; ret (Some rv) }
               else do {
                 invoke (Net Netif_tx_start_all_queues);
                 invoke (Net Netif_carrier_on);
                 ret (Some 0) } } }"

section \<open>Address, MTU, statistics\<close>

definition onic_set_mac_address :: "u8 list \<Rightarrow> int onic" where
  "onic_set_mac_address sa_data =
     (if \<not> is_valid_ether_addr sa_data then ret (- EADDRNOTAVAIL)
      else do {
        invoke (Net (Eth_hw_addr_set (take ETH_ALEN sa_data)));
        upd_priv (pr_netdev_update (map_option (nd_dev_addr_update (\<lambda>_. take ETH_ALEN sa_data))));
        ret 0 })"

definition onic_do_ioctl :: "int \<Rightarrow> int onic" where
  "onic_do_ioctl cmd = ret 0"

text \<open>The request is only logged.\<close>

definition onic_change_mtu :: "int \<Rightarrow> int onic" where
  "onic_change_mtu mtu = ret 0"

text \<open>Six counters are summed over the CPUs; the others keep what the caller stored.\<close>

definition onic_get_stats64 :: "link_stats \<Rightarrow> link_stats onic" where
  "onic_get_stats64 stats = do {
     p \<leftarrow> get_priv;
     let total = sum_stats p;
     ret (stats\<lparr>st_tx_packets := st_tx_packets total, st_tx_bytes := st_tx_bytes total,
       st_rx_packets := st_rx_packets total, st_rx_bytes := st_rx_bytes total,
       st_tx_dropped := st_tx_dropped total, st_tx_errors := st_tx_errors total\<rparr>) }"

section \<open>XDP programs\<close>

text \<open>Every receive queue takes the program, through a pointer that is NULL while the device is down.\<close>

fun set_queue_progs :: "nat list \<Rightarrow> unit option onic" where
  "set_queue_progs [] = ret (Some ())"
| "set_queue_progs (i # js) = do {
     p \<leftarrow> get_priv;
     case pr_rx_queue p i of
       None \<Rightarrow> ret None
     | Some q \<Rightarrow> do {
         put_rx_queue i (q\<lparr>rq_xdp_prog := pr_xdp_prog p\<rparr>);
         set_queue_progs js } }"

definition onic_setup_xdp_prog :: "qdma_dev \<Rightarrow> ptr \<Rightarrow> int option onic" where
  "onic_setup_xdp_prog qdev prog = do {
     r \<leftarrow> perform (Net Netif_running);
     let running = (r \<noteq> 0);
     p \<leftarrow> get_priv;
     let old = pr_xdp_prog p;
     upd_priv (pr_xdp_prog_update (\<lambda>_. prog));
     let need_reset = ((prog \<noteq> 0) \<noteq> (old \<noteq> 0));
     ok \<leftarrow> (if need_reset \<and> running
       then do { _ \<leftarrow> onic_stop_netdev qdev; ret (Some ()) }
       else set_queue_progs [0..<unat (pr_num_rx_queues p)]);
     case ok of
       None \<Rightarrow> ret None
     | Some _ \<Rightarrow> do {
         (if old \<noteq> 0 then do {
            invoke (Xdp Xdp_features_clear_redirect_target);
            invoke (Xdp (Bpf_prog_put old)) }
          else ret ());
         if \<not> need_reset then ret (Some 0)
         else do {
           r \<leftarrow> (if running then onic_open_netdev qdev else ret (Some 0));
           case r of
             None \<Rightarrow> ret None
           | Some _ \<Rightarrow> do {
               (if prog \<noteq> 0 then invoke (Xdp Xdp_features_set_redirect_target) else ret ());
               ret (Some 0) } } } }"

datatype xdp_command = Xdp_setup_prog ptr | Xdp_other_command

fun onic_xdp :: "qdma_dev \<Rightarrow> xdp_command \<Rightarrow> int option onic" where
  "onic_xdp qdev (Xdp_setup_prog prog) = onic_setup_xdp_prog qdev prog"
| "onic_xdp qdev Xdp_other_command = ret (Some (- EINVAL))"

end
