(* ===== verification/Pf_Lifecycle.thy ===== *)
theory Pf_Lifecycle
  imports Pf_Queues Resources
begin

text \<open>
  The resources over the life of a PF network device: what opening and stopping it (\<open>Pf_Queues\<close>) acquire and give back.
\<close>

section \<open>What a queue holds\<close>

definition pf_txq_res :: "onic_tx_queue option \<Rightarrow> resource multiset" where
  "pf_txq_res o' = (case o' of None \<Rightarrow> {#} | Some q \<Rightarrow>
     coherent (pf_ring_bytes (ring_count (tq_ring q)) QDMA_H2C_ST_DESC_SIZE QDMA_WB_STAT_SIZE) (ring_desc (tq_ring q)) +
     heap (tq_buffer_ptr q) + heap (tq_self q))"

definition pf_rxq_res :: "onic_rx_queue option \<Rightarrow> resource multiset" where
  "pf_rxq_res o' = (case o' of None \<Rightarrow> {#} | Some q \<Rightarrow>
     {#R_napi (unat (rq_qid q))#} +
     coherent (pf_ring_bytes (ring_count (rq_desc_ring q)) QDMA_C2H_ST_DESC_SIZE QDMA_WB_STAT_SIZE) (ring_desc (rq_desc_ring q)) +
     coherent (pf_ring_bytes (ring_count (rq_cmpl_ring q)) QDMA_C2H_CMPL_SIZE QDMA_C2H_CMPL_STAT_SIZE) (ring_desc (rq_cmpl_ring q)) +
     heap (rq_buffer_ptr q) + (if rq_xdp_rxq q then {#R_rxq (unat (rq_qid q))#} else {#}) + pool (rq_page_pool q) +
     heap (rq_self q))"

lemma empty_pf_res [simp]: "pf_txq_res None = {#}" "pf_rxq_res None = {#}"
  by (simp_all add: pf_txq_res_def pf_rxq_res_def)

text \<open>The queues of a table that the index set selects.\<close>

definition tx_res :: "nat set \<Rightarrow> onic_private \<Rightarrow> resource multiset" where
  "tx_res X p = (\<Sum>i\<in>X. pf_txq_res (pr_tx_queue p i))"

definition rx_res :: "nat set \<Rightarrow> onic_private \<Rightarrow> resource multiset" where
  "rx_res X p = (\<Sum>i\<in>X. pf_rxq_res (pr_rx_queue p i))"

section \<open>Calls that touch no resource\<close>

lemma keeps_ctxt: "ctxt_rel b R m \<Longrightarrow> keeps f m"
proof (rule keepsI)
  fix s a s'
  assume "ctxt_rel b R m" "run_state m s = (a, s')"
  then obtain evs where e: "s' = s\<lparr>trace := trace s @ evs\<rparr>" "list_all (ctxt_event b) evs" by (rule ctxt_relD)
  have "ledger_quiet e" if "ctxt_event b e" for e
    using that by (cases "(b, e)" rule: ctxt_event.cases; cases "(b, e)" rule: ctxt_access.cases) (auto simp: ledger_quiet_def)
  then have "list_all ledger_quiet evs" using e(2) by (auto simp: list_all_iff)
  then have "ledger (trace s @ evs) = ledger (trace s)" by (rule led.view_quiet)
  then show "f (priv s') = f (priv s) \<and> ledger (trace s') = ledger (trace s)" by (simp add: e(1))
qed

lemma keeps_pf_calls [keeps_intro]:
  "keeps f (onic_qdma_clear_tx_queue d i)" "keeps f (onic_qdma_clear_rx_queue d i)"
  "keeps f (onic_qdma_init_tx_queue d i hp)" "keeps f (onic_qdma_init_rx_queue d i cp)"
  by (rule keeps_ctxt, rule clear_tx_queue_rel clear_rx_queue_rel init_tx_queue_rel init_rx_queue_rel)+

lemma keeps_pf_doorbells [keeps_intro]:
  "keeps f (onic_set_rx_head d i h)" "keeps f (onic_set_completion_tail d i h arm)"
  unfolding onic_set_rx_head_def onic_qdma_set_q_pidx_def onic_set_completion_tail_def onic_qdma_set_cmpl_cidx_def qdma_write_reg_def
  by (intro keeps_intro; simp add: ledger_quiet_def)+

lemma keeps_write_rx_desc [keeps_intro]: "keeps f (write_rx_desc q i)"
  unfolding write_rx_desc_def
  by (rule keeps_io) (auto simp: Let_def ledger_quiet_def intro!: io_intro triple_intro emits_unpack)

lemmas pf_still = keeps_pf_calls [where f = "\<lambda>p. p", THEN keeps_uses] keeps_pf_doorbells [where f = "\<lambda>p. p", THEN keeps_uses]
  keeps_write_rx_desc [where f = "\<lambda>p. p", THEN keeps_uses]

section \<open>Release\<close>

text \<open>Completion keeps what the queue holds.\<close>

definition same_store :: "onic_tx_queue \<Rightarrow> onic_tx_queue \<Rightarrow> bool" where
  "same_store q q' \<longleftrightarrow> tq_self q' = tq_self q \<and> tq_buffer_ptr q' = tq_buffer_ptr q \<and>
     ring_desc (tq_ring q') = ring_desc (tq_ring q) \<and> ring_count (tq_ring q') = ring_count (tq_ring q)"

lemma same_store_reap: "same_store q (fst (run_state (pf_reap n q) s))"
proof (induction n q arbitrary: s rule: pf_reap.induct)
  case (2 n q)
  show ?case
    by (auto simp: Let_def split: prod.split)
       (use 2 [OF refl refl] in \<open>fastforce simp: same_store_def onic_ring_increment_tail_def\<close>)
qed (simp add: same_store_def)

lemma same_store_clean: "same_store q (fst (run_state (onic_tx_clean qdev q) s))"
proof -
  have "same_store q (q1\<lparr>tq_state := w\<rparr>)"
    if "run_state (pf_reap n (q\<lparr>tq_state := v\<rparr>)) t = (q1, t')" for n v q1 w and t t' :: "'a world_scheme"
    using same_store_reap [of "q\<lparr>tq_state := v\<rparr>" n t] that by (simp add: same_store_def)
  then show ?thesis by (auto simp: onic_tx_clean_def Let_def same_store_def split: prod.split)
qed

lemma emits_clean_pf_tx: "emits ledger_quiet (onic_tx_clean qdev q)"
proof -
  have "emits ledger_quiet (pf_reap n q)" for n q
    by (induction n q rule: pf_reap.induct) (auto simp: Let_def release_entry_pf_def ledger_quiet_def intro!: triple_intro)
  then show ?thesis unfolding onic_tx_clean_def
    by (auto simp: Let_def ledger_quiet_def intro!: triple_intro emits_unpack_wb)
qed

lemma uses_pf_tx_clean [uses_intro]:
  "uses (\<lambda>p A. \<forall>q'. same_store q q' \<longrightarrow> Q q' p A) (onic_tx_clean qdev q) Q"
  by (rule uses_quiet, rule io_intro, rule emits_clean_pf_tx, rule same_store_clean)

lemma same_store_res: "same_store q q' \<Longrightarrow> pf_txq_res (Some q') = pf_txq_res (Some q)"
  by (simp add: same_store_def pf_txq_res_def)

lemma uses_clear_pf_tx [uses_intro]:
  "uses (\<lambda>p A. pf_txq_res (pr_tx_queue p qid) \<subseteq># A \<and> Q () (put_txq qid None p) (A - pf_txq_res (pr_tx_queue p qid)))
     (onic_clear_tx_queue qdev qid) Q"
  unfolding onic_clear_tx_queue_def
  apply (rule uses_pre)
   apply (rule uses_intro pf_still)+
  apply (auto simp: put_same charge_simps pf_txq_res_def same_store_def mset_subset_eq_exists_conv add.assoc split: option.split)
  done

lemma charge_rx [simp]:
  "charge (Net (Netif_napi_add i)) r Q A \<longleftrightarrow> Q (add_mset (R_napi i) A)"
  "charge (Net (Netif_napi_del i)) r Q A \<longleftrightarrow> R_napi i \<in># A \<and> Q (A - {#R_napi i#})"
  "charge (Xdp (Xdp_rxq_info_reg i)) r Q A \<longleftrightarrow> Q (if r = 0 then add_mset (R_rxq i) A else A)"
  "charge (Xdp (Xdp_rxq_info_unreg i)) r Q A \<longleftrightarrow> R_rxq i \<in># A \<and> Q (A - {#R_rxq i#})"
  by (simp_all add: charge_def)

lemma uses_free_ring [uses_intro]:
  "uses (\<lambda>p A. coherent (pf_ring_bytes (ring_count r) n k) (ring_desc r) \<subseteq># A \<and>
      Q () p (A - coherent (pf_ring_bytes (ring_count r) n k) (ring_desc r))) (free_ring n k r) Q"
  unfolding free_ring_def by (rule uses_pre, (rule uses_intro)+) (auto simp: charge_simps)

lemma keeps_put_pages [keeps_intro]: "keeps f (for_each xs (\<lambda>i. invoke (Page (Page_pool_put pp (g i)))))"
  by (intro keeps_intro) (simp add: ledger_quiet_def)

lemmas pf_pages_still = keeps_put_pages [where f = "\<lambda>p. p", THEN keeps_uses]

lemma uses_clear_pf_rx [uses_intro]:
  "uses (\<lambda>p A. pf_rxq_res (pr_rx_queue p qid) \<subseteq># A \<and> Q () (put_rxq qid None p) (A - pf_rxq_res (pr_rx_queue p qid)))
     (onic_clear_rx_queue qdev qid) Q"
proof (rule uses_at, elim conjE)
  fix p0 A0
  assume sub: "pf_rxq_res (pr_rx_queue p0 qid) \<subseteq># A0"
    and Q: "Q () (put_rxq qid None p0) (A0 - pf_rxq_res (pr_rx_queue p0 qid))"
  then obtain B where A0: "A0 = pf_rxq_res (pr_rx_queue p0 qid) + B" by (auto simp: mset_subset_eq_exists_conv)
  show "uses (\<lambda>p A. p = p0 \<and> A = A0) (onic_clear_rx_queue qdev qid) Q"
  proof (cases "pr_rx_queue p0 qid")
    case None
    show ?thesis unfolding onic_clear_rx_queue_def
      by (rule uses_get_at, simp add: None, rule uses_pre, rule uses_ret) (use Q None in \<open>auto simp: put_same\<close>)
  next
    case (Some q)
    show ?thesis unfolding onic_clear_rx_queue_def
      apply (intro uses_get_at)
      apply (simp only: Some option.case)
      apply (rule uses_pre)
       apply (rule uses_intro pf_still pf_pages_still)+
      using Q apply (auto simp: A0 Some charge_simps pf_rxq_res_def add.assoc)
      done
  qed
qed

section \<open>Set-up of one queue\<close>

text \<open>A transmit queue as the set-up leaves it: well formed and empty.\<close>

definition pf_fresh_txq :: "nat \<Rightarrow> onic_tx_queue \<Rightarrow> bool" where
  "pf_fresh_txq qid q \<longleftrightarrow> tq_self q \<noteq> 0 \<and> tq_qid q = of_nat qid \<and> tq_state q = 0 \<and> tq_buffer_ptr q \<noteq> 0 \<and>
     ring_count (tq_ring q) = 4096 \<and> ring_desc (tq_ring q) \<noteq> 0 \<and> length (tq_buffer q) = 4095 \<and>
     ring_next_to_use (tq_ring q) = 0 \<and> ring_next_to_clean (tq_ring q) = 0"

text \<open>What a failure leaves behind: a part of what one queue would hold.\<close>

definition tx_scrap :: "resource multiset \<Rightarrow> bool" where
  "tx_scrap V \<longleftrightarrow> (\<exists>a n d b. V = heap a + coherent n d + heap b)"

lemma ring_counts [simp]: "onic_ring_count 0 = 4096" "onic_ring_count 8 = 1024"
  by (simp_all add: onic_ring_count_def rngcnt_pool_def)

lemma tx_scrap_simps [simp]:
  "tx_scrap {#}" "tx_scrap (heap a)" "tx_scrap (heap a + coherent n d)" "tx_scrap (coherent n d + heap a)"
  "tx_scrap (heap b + (coherent n d + heap a))"
proof -
  show "tx_scrap {#}" unfolding tx_scrap_def by (rule exI [of _ 0], rule exI, rule exI [of _ 0], rule exI [of _ 0]) simp
  show 1: "tx_scrap (heap a)" unfolding tx_scrap_def by (rule exI [of _ a], rule exI, rule exI [of _ 0], rule exI [of _ 0]) simp
  show 2: "tx_scrap (heap a + coherent n d)" unfolding tx_scrap_def by (rule exI [of _ a], rule exI [of _ n], rule exI [of _ d], rule exI [of _ 0]) simp
  then show "tx_scrap (coherent n d + heap a)" by (simp add: add.commute)
  show "tx_scrap (heap b + (coherent n d + heap a))" unfolding tx_scrap_def by (rule exI [of _ a], rule exI [of _ n], rule exI [of _ d], rule exI [of _ b]) (simp add: ac_simps)
qed

lemma uses_init_pf_tx [uses_intro]:
  "uses (\<lambda>p A. pr_tx_queue p qid = None \<and> pr_num_q_vectors p \<noteq> 0 \<and>
      (\<forall>e V. e < 0 \<and> tx_scrap V \<longrightarrow> Q (Some e) p (V + A)) \<and>
      (\<forall>q. pf_fresh_txq qid q \<longrightarrow> Q (Some 0) (put_txq qid (Some q) p) (pf_txq_res (Some q) + A)))
     (onic_init_tx_queue qdev qid) Q"
proof (rule uses_at, elim conjE)
  fix p0 A0
  assume none: "pr_tx_queue p0 qid = None" and nv: "pr_num_q_vectors p0 \<noteq> 0"
    and bad: "\<forall>e V. e < 0 \<and> tx_scrap V \<longrightarrow> Q (Some e) p0 (V + A0)"
    and good: "\<forall>q. pf_fresh_txq qid q \<longrightarrow> Q (Some 0) (put_txq qid (Some q) p0) (pf_txq_res (Some q) + A0)"
  have left: "Q (Some e) p0 A0" "Q (Some e) p0 (heap a + A0)" "Q (Some e) p0 (coherent n d + (heap a + A0))"
    "Q (Some e) p0 (heap b + (coherent n d + (heap a + A0)))" if "e < 0" for e a n d b
    using bad [rule_format, of e "{#}"] bad [rule_format, of e "heap a"] bad [rule_format, of e "coherent n d + heap a"]
      bad [rule_format, of e "heap b + (coherent n d + heap a)"] that by (simp_all add: add.assoc)
  have full: "Q (Some 0) (put_txq qid (Some q) p0) (heap b + (coherent n d + (heap a + A0)))"
    if "pf_fresh_txq qid q" "pf_txq_res (Some q) = heap b + (coherent n d + heap a)" for q b n d a
    using good [rule_format, OF that(1)] that(2) by (simp add: add.assoc)
  show "uses (\<lambda>p A. p = p0 \<and> A = A0) (onic_init_tx_queue qdev qid) Q"
    unfolding onic_init_tx_queue_def put_tx_queue_def
    apply (rule uses_get_at)
    apply (rule uses_pre)
     apply (rule uses_intro pf_still)+
    apply (auto simp: none nv put_same charge_simps left)
    apply (rule full; simp add: pf_fresh_txq_def pf_txq_res_def ac_simps)
    done
qed

text \<open>
  A receive queue as the set-up leaves it: well formed for the poll, since every entry has a page and the first descriptors
  are posted, unless the address behind the ring wraps around to 0.
\<close>

definition pf_fresh_rxq :: "nat \<Rightarrow> onic_rx_queue \<Rightarrow> bool" where
  "pf_fresh_rxq qid q \<longleftrightarrow> rq_self q \<noteq> 0 \<and> rq_qid q = of_nat qid \<and> rq_buffer_ptr q \<noteq> 0 \<and> rq_page_pool q \<noteq> 0 \<and> rq_xdp_rxq q \<and>
     (ring_wb (rq_desc_ring q) \<noteq> 0 \<longrightarrow> pf_rxq_ok q)"

definition rx_scrap :: "nat \<Rightarrow> resource multiset \<Rightarrow> bool" where
  "rx_scrap i V \<longleftrightarrow> (\<exists>a n d b pp m c. V \<subseteq># heap a + coherent n d + heap b + pool pp + coherent m c + {#R_rxq i, R_napi i#})"

lemma uses_create_pool [uses_intro]:
  "uses (\<lambda>p A. (\<forall>e q'. e < 0 \<longrightarrow> Q (e, q') p A) \<and>
      (\<forall>pp. Q (0, q\<lparr>rq_page_pool := pp, rq_xdp_rxq := True\<rparr>) p (add_mset (R_rxq (unat (rq_qid q))) (pool pp + A))))
     (onic_create_page_pool q n) Q"
  unfolding onic_create_page_pool_def
  apply (rule uses_pre)
   apply (rule uses_intro)+
  apply (auto simp: charge_simps)
  done

text \<open>The loop over the pages touches the pages only.\<close>

definition has_page :: "onic_rx_buffer \<Rightarrow> bool" where
  "has_page b \<longleftrightarrow> rb_pg b \<noteq> 0 \<and> rb_offset b = of_nat XDP_PACKET_HEADROOM"

definition pages_only :: "onic_rx_queue \<Rightarrow> onic_rx_queue \<Rightarrow> bool" where
  "pages_only q q' \<longleftrightarrow> q' = q\<lparr>rq_buffer := rq_buffer q'\<rparr> \<and> length (rq_buffer q') = length (rq_buffer q)"

lemma pages_only_trans: "pages_only q q1 \<Longrightarrow> pages_only q1 q2 \<Longrightarrow> pages_only q q2"
  by (cases q; cases q1; cases q2) (simp add: pages_only_def)

lemma pages_only_sel:
  "pages_only q q' \<Longrightarrow> rq_self q' = rq_self q \<and> rq_qid q' = rq_qid q \<and> rq_buffer_ptr q' = rq_buffer_ptr q \<and>
     rq_desc_ring q' = rq_desc_ring q \<and> rq_cmpl_ring q' = rq_cmpl_ring q \<and> rq_page_pool q' = rq_page_pool q \<and>
     rq_xdp_rxq q' = rq_xdp_rxq q \<and> length (rq_buffer q') = length (rq_buffer q)"
  by (cases q; cases q') (simp add: pages_only_def)

lemma alloc_pages_result:
  "case fst (run_state (alloc_pages xs q) s) of (ok, q') \<Rightarrow> pages_only q q' \<and>
     (ok \<longrightarrow> (\<forall>i<length (rq_buffer q). i \<in> set xs \<or> has_page (rq_buffer q ! i) \<longrightarrow> has_page (rq_buffer q' ! i)))"
proof (induction xs q arbitrary: s rule: alloc_pages.induct)
  case (1 q)
  show ?case by (simp add: pages_only_def)
next
  case (2 i js q)
  obtain r s1 where 1: "run_state (perform (Page (Page_pool_alloc (rq_page_pool q)))) s = (r, s1)" by (metis prod.collapse)
  let ?q = "q\<lparr>rq_buffer := (rq_buffer q)[i := (rq_buffer q ! i)\<lparr>rb_pg := of_int r, rb_offset := of_nat XDP_PACKET_HEADROOM\<rparr>]\<rparr>"
  show ?case
  proof (cases "(of_int r :: ptr) = 0")
    case True
    with 1 show ?thesis by (simp add: pages_only_def)
  next
    case False
    have only: "pages_only q ?q" by (simp add: pages_only_def)
    have page: "has_page (rq_buffer ?q ! j)" if "j < length (rq_buffer q)" "j = i \<or> has_page (rq_buffer q ! j)" for j
      using that False by (cases "j = i") (auto simp: has_page_def)
    obtain ok q' s2 where r: "run_state (alloc_pages js ?q) s1 = ((ok, q'), s2)" by (metis prod.collapse)
    have "pages_only ?q q'" "ok \<Longrightarrow> j < length (rq_buffer q) \<Longrightarrow> j \<in> set js \<or> has_page (rq_buffer ?q ! j) \<Longrightarrow> has_page (rq_buffer q' ! j)" for j
      using 2 [OF False, where s = s1] r by auto
    then have "pages_only q q' \<and> (ok \<longrightarrow> (\<forall>j<length (rq_buffer q). j \<in> set (i # js) \<or> has_page (rq_buffer q ! j) \<longrightarrow> has_page (rq_buffer q' ! j)))"
      using pages_only_trans [OF only] page by (metis set_ConsD)
    then show ?thesis using 1 False r by simp
  qed
qed

lemma uses_alloc_pages [uses_intro]:
  "uses (\<lambda>p A. \<forall>ok q'. pages_only q q' \<and> (ok \<longrightarrow> (\<forall>i<length (rq_buffer q). i \<in> set xs \<longrightarrow> has_page (rq_buffer q' ! i)))
      \<longrightarrow> Q (ok, q') p A) (alloc_pages xs q) Q"
proof (rule uses_pre, rule uses_quiet)
  show "case fst (run_state (alloc_pages xs q) s) of (ok, q') \<Rightarrow> pages_only q q' \<and>
     (ok \<longrightarrow> (\<forall>i<length (rq_buffer q). i \<in> set xs \<longrightarrow> has_page (rq_buffer q' ! i)))" for s :: drv_state
    using alloc_pages_result [where xs = xs and q = q and s = s] by auto
  show "io_only (alloc_pages xs q)"
    by (induction xs q rule: alloc_pages.induct) (auto intro!: io_intro)
  show "emits ledger_quiet (alloc_pages xs q)"
    by (induction xs q rule: alloc_pages.induct) (auto intro!: triple_intro simp: ledger_quiet_def)
qed auto

lemma keeps_write_descs [keeps_intro]: "keeps f (for_each xs (write_rx_desc q))"
  by (intro keeps_intro)

text \<open>The queue handed to the start of reception, and what is kept when that fails.\<close>

definition pf_rx_ready :: "nat \<Rightarrow> onic_rx_queue \<Rightarrow> bool" where
  "pf_rx_ready qid q \<longleftrightarrow> rq_self q \<noteq> 0 \<and> rq_qid q = of_nat qid \<and> rq_buffer_ptr q \<noteq> 0 \<and> rq_page_pool q \<noteq> 0 \<and> rq_xdp_rxq q \<and>
     length (rq_buffer q) = 1023 \<and> list_all has_page (rq_buffer q) \<and> ring_count (rq_desc_ring q) = 1024 \<and>
     ring_next_to_use (rq_desc_ring q) = 0 \<and> ring_next_to_clean (rq_desc_ring q) = 0"

definition rx_built :: "onic_rx_queue \<Rightarrow> resource multiset" where
  "rx_built q = add_mset (R_rxq (unat (rq_qid q))) (pool (rq_page_pool q) + heap (rq_buffer_ptr q) +
     coherent (pf_ring_bytes 1024 QDMA_C2H_ST_DESC_SIZE QDMA_WB_STAT_SIZE) (ring_desc (rq_desc_ring q)) + heap (rq_self q))"

lemma rx_scrapI:
  "rx_scrap i {#}" "rx_scrap i (heap a)" "rx_scrap i (coherent n d + heap a)" "rx_scrap i (heap b + (coherent n d + heap a))"
proof -
  show 1: "rx_scrap i (heap b + (coherent n d + heap a))" for b n d a
    unfolding rx_scrap_def by (intro exI [of _ a] exI [of _ n] exI [of _ d] exI [of _ b] exI [of _ 0]) (simp add: ac_simps)
  show "rx_scrap i {#}" "rx_scrap i (heap a)" "rx_scrap i (coherent n d + heap a)"
    using 1 [of 0 n 0 0] 1 [of 0 n 0 a] 1 [of 0 n d a] by simp_all
qed

lemma rx_scrap_built:
  "rx_scrap (unat (rq_qid q)) (rx_built q)" "rx_scrap (unat (rq_qid q)) (add_mset (R_napi (unat (rq_qid q))) (coherent m c + rx_built q))"
proof -
  show 1: "rx_scrap (unat (rq_qid q)) (add_mset (R_napi (unat (rq_qid q))) (coherent m c + rx_built q))" for m c
    unfolding rx_scrap_def rx_built_def
    by (intro exI [of _ "rq_self q"] exI [of _ "pf_ring_bytes 1024 QDMA_C2H_ST_DESC_SIZE QDMA_WB_STAT_SIZE"]
        exI [of _ "ring_desc (rq_desc_ring q)"] exI [of _ "rq_buffer_ptr q"] exI [of _ "rq_page_pool q"] exI [of _ m] exI [of _ c])
      (simp add: ac_simps)
  have "rx_built q \<subseteq># add_mset (R_napi (unat (rq_qid q))) (coherent m c + rx_built q)" for m c by simp
  with 1 show "rx_scrap (unat (rq_qid q)) (rx_built q)" unfolding rx_scrap_def by (meson subset_mset.order_trans)
qed

lemma ready_fresh:
  assumes "pf_rx_ready qid q"
  shows "pf_fresh_rxq qid (q\<lparr>rq_cmpl_ring := no_ring\<lparr>ring_count := 1024, ring_desc := c, ring_wb := w, ring_dma_addr := h, ring_color := 1\<rparr>,
    rq_desc_ring := (rq_desc_ring q)\<lparr>ring_next_to_use := 256\<rparr>\<rparr>)"
  using assms by (auto simp: pf_fresh_rxq_def pf_rx_ready_def pf_rxq_ok_def credit_ok_def onic_ring_get_real_count_def ring_ok_def
    occupied_def no_ring_def has_page_def list_all_iff)

lemma uses_start_pf_rx [uses_intro]:
  "uses (\<lambda>p A. pf_rx_ready qid q \<and> pr_rx_queue p qid = None \<and> (\<exists>A1. A = rx_built q + A1 \<and>
      (\<forall>e V. e < 0 \<and> rx_scrap (unat (rq_qid q)) V \<longrightarrow> Q (Some e) p (V + A1)) \<and>
      (\<forall>q'. pf_fresh_rxq qid q' \<longrightarrow> Q (Some 0) (put_rxq qid (Some q') p) (pf_rxq_res (Some q') + A1))))
    (start_pf_rx_queue qdev qid vid q) Q"
proof (rule uses_at, elim conjE exE)
  fix p0 A0 A1
  assume ready: "pf_rx_ready qid q" and none: "pr_rx_queue p0 qid = None" and A0: "A0 = rx_built q + A1"
    and bad: "\<forall>e V. e < 0 \<and> rx_scrap (unat (rq_qid q)) V \<longrightarrow> Q (Some e) p0 (V + A1)"
    and good: "\<forall>q'. pf_fresh_rxq qid q' \<longrightarrow> Q (Some 0) (put_rxq qid (Some q') p0) (pf_rxq_res (Some q') + A1)"
  have left: "Q (Some e) p0 (rx_built q + A1)" "Q (Some e) p0 (add_mset (R_napi (unat (rq_qid q))) (coherent m c + (rx_built q + A1)))"
    if "e < 0" for e m c
    using bad [rule_format, OF conjI, OF that rx_scrap_built(1)] bad [rule_format, OF conjI, OF that rx_scrap_built(2)]
    by (simp_all add: add.assoc)
  have full: "Q (Some 0) (put_rxq qid (Some q') p0) A" if "pf_fresh_rxq qid q'" "A = pf_rxq_res (Some q') + A1" for q' A
    using good that by blast
  show "uses (\<lambda>p A. p = p0 \<and> A = A0) (start_pf_rx_queue qdev qid vid q) Q"
    unfolding start_pf_rx_queue_def put_rx_queue_def
    apply (rule uses_pre)
     apply (rule uses_intro pf_still)+
    apply (auto simp: none put_same charge_simps left A0)
    apply (rule full, rule ready_fresh [OF ready])
    using ready apply (simp add: pf_rxq_res_def rx_built_def pf_rx_ready_def ac_simps no_ring_def)
    done
qed

lemma pf_new_rx_sel [simp]:
  "rq_self (pf_new_rx_queue a qid v g n d h) = a" "rq_qid (pf_new_rx_queue a qid v g n d h) = of_nat qid"
  "length (rq_buffer (pf_new_rx_queue a qid v g n d h)) = unat (n - 1)"
  "ring_count (rq_desc_ring (pf_new_rx_queue a qid v g n d h)) = n" "ring_desc (rq_desc_ring (pf_new_rx_queue a qid v g n d h)) = d"
  "ring_next_to_use (rq_desc_ring (pf_new_rx_queue a qid v g n d h)) = 0"
  "ring_next_to_clean (rq_desc_ring (pf_new_rx_queue a qid v g n d h)) = 0"
  by (simp_all add: pf_new_rx_queue_def no_ring_def)

lemma uses_init_pf_rx [uses_intro]:
  "uses (\<lambda>p A. pr_rx_queue p qid = None \<and> pr_num_q_vectors p \<noteq> 0 \<and> (\<forall>A. Q None p A) \<and>
      (\<forall>e V. e < 0 \<and> rx_scrap (unat (of_nat qid :: u16)) V \<longrightarrow> Q (Some e) p (V + A)) \<and>
      (\<forall>q. pf_fresh_rxq qid q \<longrightarrow> Q (Some 0) (put_rxq qid (Some q) p) (pf_rxq_res (Some q) + A)))
     (onic_init_rx_queue qdev qid) Q"
proof (rule uses_at, elim conjE)
  fix p0 A0
  assume none: "pr_rx_queue p0 qid = None" and nv: "pr_num_q_vectors p0 \<noteq> 0" and null: "\<forall>A. Q None p0 A"
    and bad: "\<forall>e V. e < 0 \<and> rx_scrap (unat (of_nat qid :: u16)) V \<longrightarrow> Q (Some e) p0 (V + A0)"
    and good: "\<forall>q. pf_fresh_rxq qid q \<longrightarrow> Q (Some 0) (put_rxq qid (Some q) p0) (pf_rxq_res (Some q) + A0)"
  have left: "Q (Some e) p0 A0" "Q (Some e) p0 (heap a + A0)" "Q (Some e) p0 (coherent n d + (heap a + A0))"
    "Q (Some e) p0 (heap b + (coherent n d + (heap a + A0)))" if "e < 0" for e a n d b
    using bad [rule_format, OF conjI, OF that rx_scrapI(1)] bad [rule_format, OF conjI, OF that rx_scrapI(2)]
      bad [rule_format, OF conjI, OF that rx_scrapI(3)] bad [rule_format, OF conjI, OF that rx_scrapI(4)] by (simp_all add: add.assoc)
  have built: "rx_scrap i (add_mset (R_rxq i) (pool pp + (heap b + (coherent n d + heap a))))" for i pp b n d a
    unfolding rx_scrap_def
    by (intro exI [of _ a] exI [of _ n] exI [of _ d] exI [of _ b] exI [of _ pp] exI [of _ 0]) (simp add: ac_simps)
  have left2: "Q (Some e) p0 (add_mset (R_rxq (unat (of_nat qid :: u16))) (pool pp + (heap b + (coherent n d + (heap a + A0)))))"
    if "e < 0" for e pp b n d a
    using bad [rule_format, OF conjI, OF that built] by (simp add: add.assoc)
  show "uses (\<lambda>p A. p = p0 \<and> A = A0) (onic_init_rx_queue qdev qid) Q"
    unfolding onic_init_rx_queue_def
    apply (rule uses_get_at)
    apply (rule uses_pre)
     apply (rule uses_intro pf_still keeps_write_descs [where f = "\<lambda>p. p", THEN keeps_uses])+
    apply (auto simp: none nv null put_same charge_simps left left2)
     apply (drule pages_only_sel, simp add: pf_rx_ready_def list_all_length)
    apply (drule pages_only_sel, rule exI [of _ A0])
    apply (simp add: rx_built_def add.assoc bad good)
    done
qed

section \<open>All queues of a direction\<close>

definition drop_tx :: "nat set \<Rightarrow> onic_private \<Rightarrow> onic_private" where
  "drop_tx X p = pr_tx_queue_update (\<lambda>t i. if i \<in> X then None else t i) p"

definition drop_rx :: "nat set \<Rightarrow> onic_private \<Rightarrow> onic_private" where
  "drop_rx X p = pr_rx_queue_update (\<lambda>t i. if i \<in> X then None else t i) p"

lemma drop_put:
  "drop_tx X (put_txq x None p) = drop_tx (insert x X) p" "drop_rx X (put_rxq x None p) = drop_rx (insert x X) p"
  "x \<in> X \<Longrightarrow> drop_tx X (put_txq x v p) = drop_tx X p" "x \<in> X \<Longrightarrow> drop_rx X (put_rxq x w p) = drop_rx X p"
  "drop_tx {} p = p" "drop_rx {} p = p"
  by (cases p; auto simp: drop_tx_def drop_rx_def fun_eq_iff)+

lemma drop_sel [simp]:
  "pr_num_q_vectors (drop_tx X p) = pr_num_q_vectors p" "pr_num_q_vectors (drop_rx X p) = pr_num_q_vectors p"
  "pr_num_tx_queues (drop_tx X p) = pr_num_tx_queues p" "pr_num_rx_queues (drop_rx X p) = pr_num_rx_queues p"
  "pr_num_rx_queues (drop_tx X p) = pr_num_rx_queues p" "pr_num_tx_queues (drop_rx X p) = pr_num_tx_queues p"
  "pr_rx_queue (drop_tx X p) = pr_rx_queue p" "pr_tx_queue (drop_rx X p) = pr_tx_queue p"
  by (simp_all add: drop_tx_def drop_rx_def)

lemma drop_none:
  "\<forall>i\<in>X. pr_tx_queue p i = None \<Longrightarrow> drop_tx X p = p" "\<forall>i\<in>X. pr_rx_queue p i = None \<Longrightarrow> drop_rx X p = p"
  by (cases p; auto simp: drop_tx_def drop_rx_def fun_eq_iff)+

lemma res_drop [simp]:
  "rx_res X (drop_tx Y p) = rx_res X p" "tx_res X (drop_rx Y p) = tx_res X p"
  by (simp_all add: rx_res_def tx_res_def)

lemma res_none: "\<forall>i\<in>X. pr_tx_queue p i = None \<Longrightarrow> tx_res X p = {#}" "\<forall>i\<in>X. pr_rx_queue p i = None \<Longrightarrow> rx_res X p = {#}"
  by (simp_all add: tx_res_def rx_res_def)

lemma res_put_other:
  "x \<notin> X \<Longrightarrow> tx_res X (put_txq x v p) = tx_res X p" "x \<notin> X \<Longrightarrow> rx_res X (put_rxq x w p) = rx_res X p"
  by (auto simp: tx_res_def rx_res_def intro!: sum.cong)

lemma res_Cons:
  "x \<notin> set js \<Longrightarrow> tx_res (set (x # js)) p = pf_txq_res (pr_tx_queue p x) + tx_res (set js) p"
  "x \<notin> set js \<Longrightarrow> rx_res (set (x # js)) p = pf_rxq_res (pr_rx_queue p x) + rx_res (set js) p"
  by (simp_all add: tx_res_def rx_res_def)

lemma uses_clear_txs [uses_intro]:
  "uses (\<lambda>p A. distinct js \<and> tx_res (set js) p \<subseteq># A \<and> Q () (drop_tx (set js) p) (A - tx_res (set js) p))
     (for_each js (onic_clear_tx_queue qdev)) Q"
proof (induction js)
  case Nil
  show ?case by (simp, rule uses_pre, rule uses_ret) (simp add: drop_put tx_res_def)
next
  case (Cons x js)
  show ?case
    by (simp only: for_each.simps, rule uses_pre, rule uses_bind, rule Cons, rule uses_clear_pf_tx)
      (auto simp: res_Cons [simplified] res_put_other drop_put mset_subset_eq_exists_conv add.assoc)
qed

lemma uses_clear_rxs [uses_intro]:
  "uses (\<lambda>p A. distinct js \<and> rx_res (set js) p \<subseteq># A \<and> Q () (drop_rx (set js) p) (A - rx_res (set js) p))
     (for_each js (onic_clear_rx_queue qdev)) Q"
proof (induction js)
  case Nil
  show ?case by (simp, rule uses_pre, rule uses_ret) (simp add: drop_put rx_res_def)
next
  case (Cons x js)
  show ?case
    by (simp only: for_each.simps, rule uses_pre, rule uses_bind, rule Cons, rule uses_clear_pf_rx)
      (auto simp: res_Cons [simplified] res_put_other drop_put mset_subset_eq_exists_conv add.assoc)
qed

definition txs :: "onic_private \<Rightarrow> nat set" where "txs p = {..<unat (pr_num_tx_queues p)}"
definition rxs :: "onic_private \<Rightarrow> nat set" where "rxs p = {..<unat (pr_num_rx_queues p)}"

text \<open>What the queues of a device hold, and the device without them.\<close>

definition queues_res :: "onic_private \<Rightarrow> resource multiset" where
  "queues_res p = tx_res (txs p) p + rx_res (rxs p) p"

definition pf_closed :: "onic_private \<Rightarrow> onic_private" where
  "pf_closed p = drop_rx (rxs p) (drop_tx (txs p) p)"

lemma set_upt_txs: "set [0..<unat (pr_num_tx_queues p)] = txs p" "set [0..<unat (pr_num_rx_queues p)] = rxs p"
  by (auto simp: txs_def rxs_def)

lemma uses_pf_stop [uses_intro]:
  "uses (\<lambda>p A. queues_res p \<subseteq># A \<and> Q 0 (pf_closed p) (A - queues_res p)) (onic_stop_netdev qdev) Q"
proof (rule uses_at, elim conjE)
  fix p0 A0
  assume sub: "queues_res p0 \<subseteq># A0" and Q: "Q 0 (pf_closed p0) (A0 - queues_res p0)"
  then obtain B where A0: "A0 = queues_res p0 + B" by (auto simp: mset_subset_eq_exists_conv)
  show "uses (\<lambda>p A. p = p0 \<and> A = A0) (onic_stop_netdev qdev) Q"
    unfolding onic_stop_netdev_def
    apply (rule uses_get_at)
    apply (rule uses_pre)
     apply (rule uses_intro)+
    unfolding set_upt_txs
    using Q apply (auto simp: A0 queues_res_def pf_closed_def add.assoc)
    done
qed

section \<open>Open\<close>

text \<open>The first \<open>k\<close> of \<open>n\<close> queues are set up, on top of a device \<open>p0\<close> that held \<open>A0\<close>.\<close>

definition up_tx :: "onic_private \<Rightarrow> resource multiset \<Rightarrow> nat \<Rightarrow> nat \<Rightarrow> assertion" where
  "up_tx p0 A0 n k p A \<longleftrightarrow> k \<le> n \<and> A = tx_res {..<k} p + A0 \<and> drop_tx {..<n} p = p0 \<and>
     (\<forall>i<k. \<exists>q. pr_tx_queue p i = Some q \<and> pf_fresh_txq i q) \<and> (\<forall>i<n. k \<le> i \<longrightarrow> pr_tx_queue p i = None)"

definition up_rx :: "onic_private \<Rightarrow> resource multiset \<Rightarrow> nat \<Rightarrow> nat \<Rightarrow> assertion" where
  "up_rx p0 A0 n k p A \<longleftrightarrow> k \<le> n \<and> A = rx_res {..<k} p + A0 \<and> drop_rx {..<n} p = p0 \<and>
     (\<forall>i<k. \<exists>q. pr_rx_queue p i = Some q \<and> pf_fresh_rxq i q) \<and> (\<forall>i<n. k \<le> i \<longrightarrow> pr_rx_queue p i = None)"

lemma up_tx_step:
  assumes "up_tx p0 A0 n k p A" "k < n" "pf_fresh_txq k q"
  shows "up_tx p0 A0 n (Suc k) (put_txq k (Some q) p) (pf_txq_res (Some q) + A)"
proof -
  have "tx_res {..<Suc k} (put_txq k (Some q) p) = pf_txq_res (Some q) + tx_res {..<k} p"
    using res_put_other(1) [of k "{..<k}" "Some q" p] by (simp add: tx_res_def lessThan_Suc)
  with assms show ?thesis by (auto simp: up_tx_def drop_put less_Suc_eq add.assoc)
qed

lemma up_rx_step:
  assumes "up_rx p0 A0 n k p A" "k < n" "pf_fresh_rxq k q"
  shows "up_rx p0 A0 n (Suc k) (put_rxq k (Some q) p) (pf_rxq_res (Some q) + A)"
proof -
  have "rx_res {..<Suc k} (put_rxq k (Some q) p) = pf_rxq_res (Some q) + rx_res {..<k} p"
    using res_put_other(2) [of k "{..<k}" "Some q" p] by (simp add: rx_res_def lessThan_Suc)
  with assms show ?thesis by (auto simp: up_rx_def drop_put less_Suc_eq add.assoc)
qed

lemma up_tx_extra: "up_tx p0 A0 n k p A \<Longrightarrow> up_tx p0 (V + A0) n k p (V + A)"
  by (simp add: up_tx_def ac_simps)

lemma up_rx_extra: "up_rx p0 A0 n k p A \<Longrightarrow> up_rx p0 (V + A0) n k p (V + A)"
  by (simp add: up_rx_def ac_simps)

definition init_end :: "(nat \<Rightarrow> nat \<Rightarrow> resource multiset \<Rightarrow> assertion) \<Rightarrow> (resource multiset \<Rightarrow> bool) \<Rightarrow> nat \<Rightarrow> (int \<times> nat list) option \<Rightarrow> assertion" where
  "init_end up bad n r p A = (case r of None \<Rightarrow> True | Some (e, js) \<Rightarrow>
     if e = 0 then up n n {#} p A
     else e < 0 \<and> length js \<le> n \<and> (\<exists>V. bad V \<and> up n (n - length js) V p A))"

lemma uses_init_txs:
  assumes "pr_num_q_vectors p0 \<noteq> 0" "k \<le> n"
  shows "uses (up_tx p0 A0 n k) (init_queues (onic_init_tx_queue qdev) [k..<n])
    (init_end (\<lambda>n k V. up_tx p0 (V + A0) n k) tx_scrap n)"
  using assms(2)
proof (induction "n - k" arbitrary: k)
  case 0
  then have "[k..<n] = []" "k = n" by simp_all
  then show ?case by simp (rule uses_pre, rule uses_ret, simp add: init_end_def)
next
  case (Suc m)
  then have k: "k < n" "[k..<n] = k # [Suc k..<n]" "m = n - Suc k" "Suc k \<le> n" by (simp_all add: upt_conv_Cons)
  let ?Q = "init_end (\<lambda>n k V. up_tx p0 (V + A0) n k) tx_scrap n"
  let ?M = "\<lambda>(r :: int option) p A. case r of None \<Rightarrow> False | Some e \<Rightarrow> if e = 0 then up_tx p0 A0 n (Suc k) p A
    else e < 0 \<and> (\<exists>V. tx_scrap V \<and> up_tx p0 (V + A0) n k p A)"
  have "uses (up_tx p0 A0 n k) (onic_init_tx_queue qdev k) ?M"
  proof (rule uses_pre, rule uses_init_pf_tx)
    fix p A
    assume up: "up_tx p0 A0 n k p A"
    then have "pr_num_q_vectors p \<noteq> 0" "pr_tx_queue p k = None"
      using assms(1) k(1) by (auto simp: up_tx_def)
    then show "pr_tx_queue p k = None \<and> pr_num_q_vectors p \<noteq> 0 \<and> (\<forall>e V. e < 0 \<and> tx_scrap V \<longrightarrow> ?M (Some e) p (V + A)) \<and>
        (\<forall>q. pf_fresh_txq k q \<longrightarrow> ?M (Some 0) (put_txq k (Some q) p) (pf_txq_res (Some q) + A))"
      using up_tx_step [OF up k(1)] up_tx_extra [OF up] by auto
  qed
  moreover have "uses (?M r) (case r of None \<Rightarrow> ret None
      | Some rv \<Rightarrow> if rv = 0 then init_queues (onic_init_tx_queue qdev) [Suc k..<n] else ret (Some (rv, k # [Suc k..<n]))) ?Q" for r
  proof (cases r)
    case None
    show ?thesis unfolding None option.case by (rule uses_pre, rule uses_ret) simp
  next
    case (Some e)
    have "uses (?M (Some e)) (ret (Some (e, k # [Suc k..<n]))) ?Q" if "e \<noteq> 0"
      by (rule uses_pre, rule uses_ret) (use that k in \<open>auto simp: init_end_def\<close>)
    then show ?thesis using Suc(1) [OF k(3,4)] by (auto simp: Some)
  qed
  ultimately show ?case unfolding k(2) init_queues.simps by (rule uses_bind [rotated])
qed

lemma uses_init_rxs:
  assumes "pr_num_q_vectors p0 \<noteq> 0" "k \<le> n"
  shows "uses (up_rx p0 A0 n k) (init_queues (onic_init_rx_queue qdev) [k..<n])
    (init_end (\<lambda>n k V. up_rx p0 (V + A0) n k) (\<lambda>V. \<exists>i. rx_scrap i V) n)"
  using assms(2)
proof (induction "n - k" arbitrary: k)
  case 0
  then have "[k..<n] = []" "k = n" by simp_all
  then show ?case by simp (rule uses_pre, rule uses_ret, simp add: init_end_def)
next
  case (Suc m)
  then have k: "k < n" "[k..<n] = k # [Suc k..<n]" "m = n - Suc k" "Suc k \<le> n" by (simp_all add: upt_conv_Cons)
  let ?Q = "init_end (\<lambda>n k V. up_rx p0 (V + A0) n k) (\<lambda>V. \<exists>i. rx_scrap i V) n"
  let ?M = "\<lambda>(r :: int option) p A. case r of None \<Rightarrow> True | Some e \<Rightarrow> if e = 0 then up_rx p0 A0 n (Suc k) p A
    else e < 0 \<and> (\<exists>V. (\<exists>i. rx_scrap i V) \<and> up_rx p0 (V + A0) n k p A)"
  have "uses (up_rx p0 A0 n k) (onic_init_rx_queue qdev k) ?M"
  proof (rule uses_pre, rule uses_init_pf_rx)
    fix p A
    assume up: "up_rx p0 A0 n k p A"
    then have "pr_num_q_vectors p \<noteq> 0" "pr_rx_queue p k = None"
      using assms(1) k(1) by (auto simp: up_rx_def)
    then show "pr_rx_queue p k = None \<and> pr_num_q_vectors p \<noteq> 0 \<and> (\<forall>A. ?M None p A) \<and>
        (\<forall>e V. e < 0 \<and> rx_scrap (unat (of_nat k :: u16)) V \<longrightarrow> ?M (Some e) p (V + A)) \<and>
        (\<forall>q. pf_fresh_rxq k q \<longrightarrow> ?M (Some 0) (put_rxq k (Some q) p) (pf_rxq_res (Some q) + A))"
      using up_rx_step [OF up k(1)] up_rx_extra [OF up] by auto
  qed
  moreover have "uses (?M r) (case r of None \<Rightarrow> ret None
      | Some rv \<Rightarrow> if rv = 0 then init_queues (onic_init_rx_queue qdev) [Suc k..<n] else ret (Some (rv, k # [Suc k..<n]))) ?Q" for r
  proof (cases r)
    case None
    show ?thesis unfolding None option.case by (rule uses_pre, rule uses_ret) (simp add: init_end_def)
  next
    case (Some e)
    have "uses (?M (Some e)) (ret (Some (e, k # [Suc k..<n]))) ?Q" if "e \<noteq> 0"
      by (rule uses_pre, rule uses_ret) (use that k in \<open>auto simp: init_end_def\<close>)
    then show ?thesis using Suc(1) [OF k(3,4)] by (auto simp: Some)
  qed
  ultimately show ?case unfolding k(2) init_queues.simps by (rule uses_bind [rotated])
qed

text \<open>The queues set up before a failure are released again; what the failed one had taken stays.\<close>

lemma up_tx_back:
  assumes "up_tx p0 B n k p A"
  shows "tx_res {..<k} p \<subseteq># A \<and> drop_tx {..<k} p = p0 \<and> A - tx_res {..<k} p = B"
proof -
  have "drop_tx {..<n} p = drop_tx {..<k} p"
    using assms by (cases p) (auto simp: up_tx_def drop_tx_def fun_eq_iff not_less)
  with assms show ?thesis by (simp add: up_tx_def)
qed

lemma up_rx_back:
  assumes "up_rx p0 B n k p A"
  shows "rx_res {..<k} p \<subseteq># A \<and> drop_rx {..<k} p = p0 \<and> A - rx_res {..<k} p = B"
proof -
  have "drop_rx {..<n} p = drop_rx {..<k} p"
    using assms by (cases p) (auto simp: up_rx_def drop_rx_def fun_eq_iff not_less)
  with assms show ?thesis by (simp add: up_rx_def)
qed

lemma set_rev_upt: "set (rev [0..<k]) = {..<k}"
  by auto

lemma uses_tx_resource:
  assumes "pr_num_q_vectors p0 \<noteq> 0" "\<forall>i\<in>txs p0. pr_tx_queue p0 i = None"
  shows "uses (\<lambda>p A. p = p0 \<and> A = A0) (onic_init_tx_resource qdev) (\<lambda>r p A. case r of None \<Rightarrow> True | Some e \<Rightarrow>
    if e = 0 then up_tx p0 A0 (unat (pr_num_tx_queues p0)) (unat (pr_num_tx_queues p0)) p A
    else e < 0 \<and> p = p0 \<and> (\<exists>V. tx_scrap V \<and> A = V + A0))" (is "uses _ _ ?Q")
proof -
  let ?n = "unat (pr_num_tx_queues p0)"
  have start: "up_tx p0 A0 ?n 0 p0 A0"
    using assms(2) by (auto simp: up_tx_def tx_res_def txs_def intro!: drop_none)
  have undo: "uses (\<lambda>p A. e < 0 \<and> (\<exists>V. tx_scrap V \<and> up_tx p0 (V + A0) ?n k p A))
      (do { for_each (rev [0..<k]) (onic_clear_tx_queue qdev); ret (Some e) }) ?Q" for e k
    by (rule uses_pre, rule uses_bind, rule uses_ret, rule uses_clear_txs, unfold set_rev_upt) (auto dest!: up_tx_back)
  have rest: "uses (init_end (\<lambda>n k V. up_tx p0 (V + A0) n k) tx_scrap ?n r)
      (case r of None \<Rightarrow> ret None | Some (rv, js) \<Rightarrow> if rv = 0 then ret (Some 0)
         else do { for_each (rev [0..<?n - length js]) (onic_clear_tx_queue qdev); ret (Some rv) }) ?Q" for r
  proof (cases r)
    case None
    show ?thesis unfolding None option.case by (rule uses_pre, rule uses_ret) simp
  next
    case (Some x)
    obtain e js where x: "x = (e, js)" by fastforce
    have "uses (init_end (\<lambda>n k V. up_tx p0 (V + A0) n k) tx_scrap ?n r) (ret (Some 0)) ?Q" if "e = 0"
      by (rule uses_pre, rule uses_ret) (simp add: init_end_def Some x that)
    moreover have "uses (init_end (\<lambda>n k V. up_tx p0 (V + A0) n k) tx_scrap ?n r)
        (do { for_each (rev [0..<?n - length js]) (onic_clear_tx_queue qdev); ret (Some e) }) ?Q" if "e \<noteq> 0"
      by (rule uses_pre, rule undo) (use that in \<open>simp add: init_end_def Some x\<close>)
    ultimately show ?thesis by (simp add: Some x)
  qed
  show ?thesis
    unfolding onic_init_tx_resource_def Let_def
    by (rule uses_get_at, rule uses_pre, rule uses_bind, rule rest, rule uses_init_txs [OF assms(1)]) (use start in simp_all)
qed

lemma uses_rx_resource:
  assumes "pr_num_q_vectors p0 \<noteq> 0" "\<forall>i\<in>rxs p0. pr_rx_queue p0 i = None"
  shows "uses (\<lambda>p A. p = p0 \<and> A = A0) (onic_init_rx_resource qdev) (\<lambda>r p A. case r of None \<Rightarrow> True | Some e \<Rightarrow>
    if e = 0 then up_rx p0 A0 (unat (pr_num_rx_queues p0)) (unat (pr_num_rx_queues p0)) p A
    else e < 0 \<and> p = p0 \<and> (\<exists>V. (\<exists>i. rx_scrap i V) \<and> A = V + A0))" (is "uses _ _ ?Q")
proof -
  let ?n = "unat (pr_num_rx_queues p0)" and ?bad = "\<lambda>V. \<exists>i. rx_scrap i V"
  have start: "up_rx p0 A0 ?n 0 p0 A0"
    using assms(2) by (auto simp: up_rx_def rx_res_def rxs_def intro!: drop_none)
  have undo: "uses (\<lambda>p A. e < 0 \<and> (\<exists>V. ?bad V \<and> up_rx p0 (V + A0) ?n k p A))
      (do { for_each (rev [0..<k]) (onic_clear_rx_queue qdev); ret (Some e) }) ?Q" for e k
    by (rule uses_pre, rule uses_bind, rule uses_ret, rule uses_clear_rxs, unfold set_rev_upt) (auto dest!: up_rx_back)
  have rest: "uses (init_end (\<lambda>n k V. up_rx p0 (V + A0) n k) ?bad ?n r)
      (case r of None \<Rightarrow> ret None | Some (rv, js) \<Rightarrow> if rv = 0 then ret (Some 0)
         else do { for_each (rev [0..<?n - length js]) (onic_clear_rx_queue qdev); ret (Some rv) }) ?Q" for r
  proof (cases r)
    case None
    show ?thesis unfolding None option.case by (rule uses_pre, rule uses_ret) simp
  next
    case (Some x)
    obtain e js where x: "x = (e, js)" by fastforce
    have "uses (init_end (\<lambda>n k V. up_rx p0 (V + A0) n k) ?bad ?n r) (ret (Some 0)) ?Q" if "e = 0"
      by (rule uses_pre, rule uses_ret) (simp add: init_end_def Some x that)
    moreover have "uses (init_end (\<lambda>n k V. up_rx p0 (V + A0) n k) ?bad ?n r)
        (do { for_each (rev [0..<?n - length js]) (onic_clear_rx_queue qdev); ret (Some e) }) ?Q" if "e \<noteq> 0"
      by (rule uses_pre, rule undo) (use that in \<open>simp add: init_end_def Some x\<close>)
    ultimately show ?thesis by (simp add: Some x)
  qed
  show ?thesis
    unfolding onic_init_rx_resource_def Let_def
    by (rule uses_get_at, rule uses_pre, rule uses_bind, rule rest, rule uses_init_rxs [OF assms(1)]) (use start in simp_all)
qed

text \<open>A device without queues, and one whose queues are all set up.\<close>

definition closed_pf :: "onic_private \<Rightarrow> bool" where
  "closed_pf p \<longleftrightarrow> (\<forall>i\<in>txs p. pr_tx_queue p i = None) \<and> (\<forall>i\<in>rxs p. pr_rx_queue p i = None)"

definition running_pf :: "onic_private \<Rightarrow> bool" where
  "running_pf p \<longleftrightarrow> (\<forall>i\<in>txs p. \<exists>q. pr_tx_queue p i = Some q \<and> pf_fresh_txq i q) \<and>
     (\<forall>i\<in>rxs p. \<exists>q. pr_rx_queue p i = Some q \<and> pf_fresh_rxq i q)"

definition queue_scrap :: "resource multiset \<Rightarrow> bool" where
  "queue_scrap V \<longleftrightarrow> tx_scrap V \<or> (\<exists>i. rx_scrap i V)"

lemma closed_pf_res: "closed_pf p \<Longrightarrow> queues_res p = {#}" "closed_pf p \<Longrightarrow> pf_closed p = p"
  by (simp_all add: closed_pf_def queues_res_def res_none pf_closed_def drop_none)

lemma up_tx_sel:
  "up_tx p0 A0 n k p A \<Longrightarrow> txs p = txs p0 \<and> rxs p = rxs p0 \<and> pr_num_q_vectors p = pr_num_q_vectors p0 \<and>
     pr_num_tx_queues p = pr_num_tx_queues p0 \<and> pr_num_rx_queues p = pr_num_rx_queues p0 \<and> pr_rx_queue p = pr_rx_queue p0"
  by (auto simp: up_tx_def txs_def rxs_def)

lemma up_rx_sel:
  "up_rx p0 A0 n k p A \<Longrightarrow> txs p = txs p0 \<and> rxs p = rxs p0 \<and> pr_tx_queue p = pr_tx_queue p0"
  by (auto simp: up_rx_def txs_def rxs_def)

lemma up_both:
  assumes "up_tx p0 A0 (unat (pr_num_tx_queues p0)) (unat (pr_num_tx_queues p0)) p1 A1"
    "up_rx p1 A1 (unat (pr_num_rx_queues p0)) (unat (pr_num_rx_queues p0)) p A"
  shows "running_pf p \<and> pf_closed p = p0 \<and> A = queues_res p + A0"
proof -
  note sel = up_tx_sel [OF assms(1)] up_rx_sel [OF assms(2)]
  have "drop_rx (rxs p) p = p1" "drop_tx (txs p) p1 = p0" "tx_res (txs p) p1 = tx_res (txs p) p"
    using assms sel by (auto simp: up_tx_def up_rx_def txs_def rxs_def tx_res_def)
  moreover have "drop_rx X (drop_tx Y p) = drop_tx Y (drop_rx X p)" for X Y
    by (cases p) (simp add: drop_rx_def drop_tx_def)
  moreover have "A = rx_res (rxs p) p + (tx_res (txs p) p1 + A0)"
    using assms sel by (simp add: up_tx_def up_rx_def txs_def rxs_def)
  moreover have "running_pf p" using assms sel by (simp add: running_pf_def up_tx_def up_rx_def txs_def rxs_def)
  ultimately show ?thesis by (simp add: pf_closed_def queues_res_def ac_simps)
qed

definition open_end :: "onic_private \<Rightarrow> resource multiset \<Rightarrow> int option \<Rightarrow> assertion" where
  "open_end p0 A0 r p A = (case r of None \<Rightarrow> True | Some e \<Rightarrow>
     if e < 0 then p = p0 \<and> (\<exists>V. queue_scrap V \<and> A = V + A0)
     else e = 0 \<and> running_pf p \<and> pf_closed p = p0 \<and> A = queues_res p + A0)"

text \<open>After the receive queues and after the transmit queues of an open.\<close>

definition rx_end :: "onic_private \<Rightarrow> resource multiset \<Rightarrow> int option \<Rightarrow> assertion" where
  "rx_end p0 A0 r p A \<longleftrightarrow> (case r of None \<Rightarrow> True | Some e \<Rightarrow>
     if e = 0 then running_pf p \<and> pf_closed p = p0 \<and> A = queues_res p + A0
     else e < 0 \<and> (\<exists>V B i. rx_scrap i V \<and> up_tx p0 A0 (unat (pr_num_tx_queues p0)) (unat (pr_num_tx_queues p0)) p B \<and> A = V + B))"

definition tx_end :: "onic_private \<Rightarrow> resource multiset \<Rightarrow> int option \<Rightarrow> assertion" where
  "tx_end p0 A0 r p A \<longleftrightarrow> (case r of None \<Rightarrow> True | Some e \<Rightarrow>
     if e = 0 then up_tx p0 A0 (unat (pr_num_tx_queues p0)) (unat (pr_num_tx_queues p0)) p A
     else e < 0 \<and> p = p0 \<and> (\<exists>V. tx_scrap V \<and> A = V + A0))"

lemma uses_open_rx:
  assumes "pr_num_q_vectors p0 \<noteq> 0" "closed_pf p0"
  shows "uses (up_tx p0 A0 (unat (pr_num_tx_queues p0)) (unat (pr_num_tx_queues p0))) (onic_init_rx_resource qdev) (rx_end p0 A0)"
proof (rule uses_at)
  fix p1 A1
  let ?n = "unat (pr_num_tx_queues p0)"
  assume up: "up_tx p0 A0 ?n ?n p1 A1"
  note sel = up_tx_sel [OF up]
  have none: "\<forall>i\<in>rxs p1. pr_rx_queue p1 i = None" using assms(2) sel by (simp add: closed_pf_def)
  show "uses (\<lambda>p A. p = p1 \<and> A = A1) (onic_init_rx_resource qdev) (rx_end p0 A0)"
    by (rule uses_conseq [OF uses_rx_resource [OF _ none]])
      (use assms(1) sel up up_both [OF up] in \<open>auto simp: rx_end_def split: option.splits if_splits\<close>)
qed

text \<open>Stopping after a failure takes away what was set up, and leaves what the failed queue had.\<close>

lemma uses_stop_after:
  assumes "closed_pf p0" "e < 0"
  shows "uses (rx_end p0 A0 (Some e)) (do { _ \<leftarrow> onic_stop_netdev qdev; ret (Some e) }) (open_end p0 A0)"
    "uses (tx_end p0 A0 (Some e)) (do { _ \<leftarrow> onic_stop_netdev qdev; ret (Some e) }) (open_end p0 A0)"
proof -
  show "uses (tx_end p0 A0 (Some e)) (do { _ \<leftarrow> onic_stop_netdev qdev; ret (Some e) }) (open_end p0 A0)"
    by (rule uses_pre, rule uses_bind, rule uses_ret, rule uses_pf_stop)
      (use closed_pf_res [OF assms(1)] assms(2) in \<open>auto simp: tx_end_def open_end_def queue_scrap_def\<close>)
  show "uses (rx_end p0 A0 (Some e)) (do { _ \<leftarrow> onic_stop_netdev qdev; ret (Some e) }) (open_end p0 A0)"
  proof (rule uses_pre, rule uses_bind, rule uses_ret, rule uses_pf_stop)
    fix p A
    let ?n = "unat (pr_num_tx_queues p0)"
    assume "rx_end p0 A0 (Some e) p A"
    then obtain V B i where V: "rx_scrap i V" and up: "up_tx p0 A0 ?n ?n p B" and A: "A = V + B"
      using assms(2) by (auto simp: rx_end_def)
    note sel = up_tx_sel [OF up]
    have "rx_res (rxs p) p = {#}" "drop_rx (rxs p) p0 = p0"
      using assms(1) sel by (auto simp: closed_pf_def intro!: res_none drop_none)
    then have "queues_res p = tx_res (txs p) p" "pf_closed p = p0" "B = tx_res (txs p) p + A0"
      using up sel by (simp_all add: queues_res_def pf_closed_def up_tx_def txs_def)
    with assms(2) V A show "queues_res p \<subseteq># A \<and> open_end p0 A0 (Some e) (pf_closed p) (A - queues_res p)"
      by (auto simp: open_end_def queue_scrap_def add.left_commute [of V])
  qed
qed

lemma uses_open_tail:
  assumes "closed_pf p0"
  shows "uses (rx_end p0 A0 r) (case r of None \<Rightarrow> ret None
      | Some rv \<Rightarrow> if rv < 0 then do { _ \<leftarrow> onic_stop_netdev qdev; ret (Some rv) }
         else do { invoke (Net Netif_tx_start_all_queues); invoke (Net Netif_carrier_on); ret (Some 0) }) (open_end p0 A0)"
proof (cases r)
  case None
  show ?thesis unfolding None option.case by (rule uses_pre, rule uses_ret) (simp add: open_end_def)
next
  case (Some e)
  have "uses (rx_end p0 A0 (Some e)) (do { invoke (Net Netif_tx_start_all_queues); invoke (Net Netif_carrier_on); ret (Some 0) })
      (open_end p0 A0)" if "\<not> e < 0"
    by (rule uses_pre, (rule uses_intro)+) (use that in \<open>auto simp: rx_end_def open_end_def split: if_splits\<close>)
  with uses_stop_after(1) [OF assms] show ?thesis by (simp add: Some)
qed

lemma uses_pf_open:
  assumes "pr_num_q_vectors p0 \<noteq> 0" "closed_pf p0"
  shows "uses (\<lambda>p A. p = p0 \<and> A = A0) (onic_open_netdev qdev) (open_end p0 A0)"
proof -
  have mid: "uses (tx_end p0 A0 r) (case r of None \<Rightarrow> ret None
      | Some rv \<Rightarrow> if rv < 0 then do { _ \<leftarrow> onic_stop_netdev qdev; ret (Some rv) }
         else do {
           r \<leftarrow> onic_init_rx_resource qdev;
           case r of
             None \<Rightarrow> ret None
           | Some rv \<Rightarrow> if rv < 0 then do { _ \<leftarrow> onic_stop_netdev qdev; ret (Some rv) }
               else do { invoke (Net Netif_tx_start_all_queues); invoke (Net Netif_carrier_on); ret (Some 0) } }) (open_end p0 A0)" for r
  proof (cases r)
    case None
    show ?thesis unfolding None option.case by (rule uses_pre, rule uses_ret) (simp add: open_end_def)
  next
    case (Some e)
    have "uses (tx_end p0 A0 (Some e)) (State_Monad.bind (onic_init_rx_resource qdev) k) (open_end p0 A0)"
      if "\<not> e < 0" "\<And>r. uses (rx_end p0 A0 r) (k r) (open_end p0 A0)" for k
      by (rule uses_pre, rule uses_bind, rule that(2), rule uses_open_rx [OF assms]) (use that(1) in \<open>auto simp: tx_end_def split: if_splits\<close>)
    with uses_stop_after(2) [OF assms(2)] uses_open_tail [OF assms(2)] show ?thesis by (simp add: Some)
  qed
  show ?thesis unfolding onic_open_netdev_def
    by (rule uses_bind [OF mid], rule uses_conseq [OF uses_tx_resource]) (use assms in \<open>auto simp: closed_pf_def tx_end_def\<close>)
qed

section \<open>Properties\<close>

text \<open>C7. Opening and stopping a PF. On a device without queues, an open that succeeds leaves exactly the queues of the device,
  each fresh and well formed, and holds exactly their resources; an open that fails leaves the private data as it was, and of
  what was allocated nothing but what the one queue that failed had taken. Stopping after a success gives everything back.
  Nothing is released that is not held.\<close>

theorem pf_open_stop_balanced:
  assumes "pr_num_q_vectors (priv s) \<noteq> 0" "closed_pf (priv s)"
  shows "case run_state (onic_open_netdev qdev) s of (r, s1) \<Rightarrow> case run_state (onic_stop_netdev qdev) s1 of (_, s2) \<Rightarrow>
    faults (ledger (trace s1)) = faults (ledger (trace s)) \<and>
    (case r of None \<Rightarrow> True | Some e \<Rightarrow>
       if e < 0 then priv s1 = priv s \<and> (\<exists>V. queue_scrap V \<and> held (ledger (trace s1)) = V + held (ledger (trace s)))
       else e = 0 \<and> running_pf (priv s1) \<and> held (ledger (trace s1)) = queues_res (priv s1) + held (ledger (trace s)) \<and>
         priv s2 = priv s \<and> ledger (trace s2) = ledger (trace s))"
proof -
  obtain r s1 where 1: "run_state (onic_open_netdev qdev) s = (r, s1)" by (metis prod.collapse)
  obtain u s2 where 2: "run_state (onic_stop_netdev qdev) s1 = (u, s2)" by (metis prod.collapse)
  let ?A = "held (ledger (trace s))"
  note up = usesD [OF uses_pf_open [OF assms] 1, simplified]
  have stop: "priv s2 = priv s \<and> ledger (trace s2) = ledger (trace s)"
    if "pf_closed (priv s1) = priv s" "held (ledger (trace s1)) = queues_res (priv s1) + ?A"
  proof -
    have "uses (\<lambda>p A. p = priv s1 \<and> A = queues_res p + ?A) (onic_stop_netdev qdev) (\<lambda>_ p A. p = priv s \<and> A = ?A)"
      by (rule uses_pre, rule uses_pf_stop) (use that in auto)
    from usesD [OF this 2] that(2) up(2) show ?thesis by simp
  qed
  show ?thesis
    using up stop by (auto simp: 1 2 open_end_def split: option.splits)
qed

text \<open>A device with one pair of queues, on a kernel that grants everything and a card that is never busy.\<close>

definition granting_pf :: drv_state where
  "granting_pf = \<lparr>ext = (\<lambda>_ c. case c of Mem _ \<Rightarrow> 0x1000 | Page _ \<Rightarrow> 0x2000 | _ \<Rightarrow> 0), trace = [],
     priv = zero_private\<lparr>pr_num_q_vectors := 1, pr_num_tx_queues := 1, pr_num_rx_queues := 1\<rparr>\<rparr>"

theorem pf_open_stop_balanced_witness:
  "case run_state (onic_open_netdev pf_sample_dev) granting_pf of (r, s1) \<Rightarrow> faults (ledger (trace s1)) = 0 \<and>
    (r = Some 0 \<longrightarrow> running_pf (priv s1) \<and> held (ledger (trace s1)) = queues_res (priv s1))"
proof -
  have "pr_num_q_vectors (priv granting_pf) \<noteq> 0" "closed_pf (priv granting_pf)" "ledger (trace granting_pf) = ledger_init"
    by (simp_all add: granting_pf_def closed_pf_def zero_private_def ledger_def)
  with pf_open_stop_balanced [of granting_pf pf_sample_dev] show ?thesis
    by (auto simp: ledger_init_def split: option.splits prod.splits)
qed

text \<open>C39. The error path of the set-up of a queue frees nothing. When the ring of a transmit queue cannot be allocated, the set-up
  returns -ENOMEM and leaves the private data as it was, but the object it had allocated stays held and nothing names it:
  \<^verbatim>\<open>onic_clear_tx_queue\<close> looks for it in the table, where it was never put.\<close>

theorem pf_failed_queue_leaks:
  assumes "pr_tx_queue (priv s) qid = None" "pr_num_q_vectors (priv s) \<noteq> 0"
    "(of_int (ext s (trace s) (Mem (Kzalloc Obj_tx_queue))) :: ptr) = a" "a \<noteq> 0"
    "\<forall>tr n. ext s tr (Mem (Dma_alloc_coherent n)) = 0"
  shows "case run_state (onic_init_tx_queue qdev qid) s of (r, s') \<Rightarrow> r = Some (- ENOMEM) \<and> priv s' = priv s \<and>
    held (ledger (trace s')) = add_mset (R_heap a) (held (ledger (trace s)))"
  using assms
  by (auto simp: onic_init_tx_queue_def onic_clear_tx_queue_def run_simps Let_def led.view_append ledger_step_def acquire_def)

theorem pf_failed_queue_leaks_witness:
  "case run_state (onic_init_tx_queue pf_sample_dev 0) (granting_pf\<lparr>ext := (\<lambda>_ c. if c = Mem (Kzalloc Obj_tx_queue) then 0x1000 else 0)\<rparr>) of
     (r, s') \<Rightarrow> r = Some (- ENOMEM) \<and> held (ledger (trace s')) = {#R_heap 0x1000#}"
proof -
  let ?s = "granting_pf\<lparr>ext := (\<lambda>_ c. if c = Mem (Kzalloc Obj_tx_queue) then 0x1000 else 0)\<rparr>"
  have "pr_tx_queue (priv ?s) 0 = None" "pr_num_q_vectors (priv ?s) \<noteq> 0" "held (ledger (trace ?s)) = {#}"
    by (simp_all add: granting_pf_def zero_private_def ledger_def ledger_init_def)
  with pf_failed_queue_leaks [of ?s 0 "0x1000" pf_sample_dev] show ?thesis by auto
qed

lemma run_set_queue_progs:
  "if \<forall>i\<in>set xs. pr_rx_queue (priv s) i \<noteq> None
   then run_state (set_queue_progs xs) s = (Some (), s\<lparr>priv := pr_rx_queue_update (\<lambda>t i.
     if i \<in> set xs then map_option (rq_xdp_prog_update (\<lambda>_. pr_xdp_prog (priv s))) (t i) else t i) (priv s)\<rparr>)
   else fst (run_state (set_queue_progs xs) s) = None"
proof (induction xs arbitrary: s)
  case (Cons x xs)
  show ?case
  proof (cases "pr_rx_queue (priv s) x")
    case (Some q)
    let ?s = "s\<lparr>priv := put_rxq x (Some (q\<lparr>rq_xdp_prog := pr_xdp_prog (priv s)\<rparr>)) (priv s)\<rparr>"
    have run: "run_state (set_queue_progs (x # xs)) s = run_state (set_queue_progs xs) ?s"
      by (simp add: run_simps Some put_rx_queue_def)
    have all: "(\<forall>i\<in>set xs. pr_rx_queue (priv ?s) i \<noteq> None) \<longleftrightarrow> (\<forall>i\<in>set (x # xs). pr_rx_queue (priv s) i \<noteq> None)"
      using Some by auto
    show ?thesis
    proof (cases "\<forall>i\<in>set (x # xs). pr_rx_queue (priv s) i \<noteq> None")
      case True
      then have "run_state (set_queue_progs xs) ?s = (Some (), ?s\<lparr>priv := pr_rx_queue_update (\<lambda>t i.
          if i \<in> set xs then map_option (rq_xdp_prog_update (\<lambda>_. pr_xdp_prog (priv ?s))) (t i) else t i) (priv ?s)\<rparr>)"
        using Cons [of ?s] unfolding all by presburger
      with True show ?thesis unfolding run by (simp add: Some fun_eq_iff)
    next
      case False
      then show ?thesis using Cons [of ?s] unfolding all run by presburger
    qed
  qed (simp add: run_simps)
qed (simp add: run_simps)

text \<open>C38. Attaching an XDP program without a restart. When the device is down, or a program replaces another, the new program is
  handed to every receive queue: the call returns 0 and changes the program of the device and of the queues only, or it reads
  through NULL, exactly when a receive queue is missing, as all of them are while the device is down.\<close>

theorem pf_xdp_attach:
  assumes "\<not> ((prog \<noteq> 0) \<noteq> (pr_xdp_prog (priv s) \<noteq> 0) \<and> ext s (trace s) (Net Netif_running) \<noteq> 0)"
  shows "case run_state (onic_xdp qdev (Xdp_setup_prog prog)) s of (r, s') \<Rightarrow>
    if \<exists>i\<in>rxs (priv s). pr_rx_queue (priv s) i = None then r = None
    else r = Some 0 \<and> priv s' = (priv s)\<lparr>pr_xdp_prog := prog, pr_rx_queue := (\<lambda>i.
      if i \<in> rxs (priv s) then map_option (rq_xdp_prog_update (\<lambda>_. prog)) (pr_rx_queue (priv s) i) else pr_rx_queue (priv s) i)\<rparr>"
proof -
  let ?e = "(Net Netif_running, ext s (trace s) (Net Netif_running))"
  let ?s = "s\<lparr>trace := trace s @ [?e], priv := (priv s)\<lparr>pr_xdp_prog := prog\<rparr>\<rparr>"
  have set: "set [0..<unat (pr_num_rx_queues (priv s))] = rxs (priv s)" by (rule set_upt_txs)
  let ?loop = "run_state (set_queue_progs [0..<unat (pr_num_rx_queues (priv s))]) ?s"
  note loop = run_set_queue_progs [of "[0..<unat (pr_num_rx_queues (priv s))]" ?s, unfolded set]
  have prog: "pr_xdp_prog (priv ?s) = prog" by simp
  show ?thesis
  proof (cases "\<exists>i\<in>rxs (priv s). pr_rx_queue (priv s) i = None")
    case True
    with loop have "fst ?loop = None" by auto
    then obtain s2 where "?loop = (None, s2)" by (cases ?loop) auto
    then show ?thesis
      using assms True by (cases "prog = 0"; cases "pr_xdp_prog (priv s) = 0"; cases "ext s (trace s) (Net Netif_running) = 0")
        (simp_all add: onic_setup_xdp_prog_def run_simps Let_def)
  next
    case False
    with loop [unfolded prog] have run: "?loop = (Some (), ?s\<lparr>priv := pr_rx_queue_update (\<lambda>t i.
        if i \<in> rxs (priv s) then map_option (rq_xdp_prog_update (\<lambda>_. prog)) (t i) else t i) (priv ?s)\<rparr>)"
      by auto
    show ?thesis
      using assms False run by (cases "prog = 0"; cases "pr_xdp_prog (priv s) = 0"; cases "ext s (trace s) (Net Netif_running) = 0")
        (simp_all add: onic_setup_xdp_prog_def run_simps Let_def)
  qed
qed

theorem pf_xdp_attach_witness:
  "fst (run_state (onic_xdp pf_sample_dev (Xdp_setup_prog 0x3000)) granting_pf) = None"
proof -
  have "\<not> (((0x3000 :: ptr) \<noteq> 0) \<noteq> (pr_xdp_prog (priv granting_pf) \<noteq> 0) \<and> ext granting_pf (trace granting_pf) (Net Netif_running) \<noteq> 0)"
    "\<exists>i\<in>rxs (priv granting_pf). pr_rx_queue (priv granting_pf) i = None"
    by (simp_all add: granting_pf_def rxs_def zero_private_def)
  with pf_xdp_attach [OF this(1), of pf_sample_dev] show ?thesis by (auto split: prod.splits)
qed

end
