(* ===== verification/Pf_Main.thy ===== *)
theory Pf_Main
  imports Pf_Lifecycle Sriov Vf_Main
begin

text \<open>
  \<^verbatim>\<open>onic_main.c\<close>: probe and remove of a PF. As in \<open>Vf_Main\<close>, the labels of the error path are functions: each runs its own
  release and those below it. \<open>None\<close> stands for a card that never answers and for a NULL pointer or a zero divisor on the
  way (\<open>Hardware\<close>, \<open>Pf_Irq\<close>). Operation tables, the name and the feature flags of the network device, the locks nobody
  takes and the CMS sensors, which are compiled out, are not part of the model. Probe is all or nothing, up to the statistics;
  remove gives everything back.
\<close>

abbreviation (input) PCI_EXP_DEVCTL_RELAX_EN :: u32 where "PCI_EXP_DEVCTL_RELAX_EN \<equiv> 0x0010"
abbreviation (input) PCI_EXP_DEVCTL_EXT_TAG :: u32 where "PCI_EXP_DEVCTL_EXT_TAG \<equiv> 0x0100"

section \<open>The error path of probe\<close>

definition pf_disable_device :: "int \<Rightarrow> int option onic" where
  "pf_disable_device rv = do { invoke (Pci Pci_disable_device); ret (Some rv) }"

definition pf_release_pci_mem :: "int \<Rightarrow> int option onic" where
  "pf_release_pci_mem rv = do { invoke (Pci Pci_release_mem_regions); pf_disable_device rv }"

definition pf_free_netdev :: "int \<Rightarrow> int option onic" where
  "pf_free_netdev rv = do { invoke (Net Free_netdev); pf_release_pci_mem rv }"

definition pf_free_percpu :: "unit onic" where
  "pf_free_percpu = do {
     p \<leftarrow> get_priv;
     if pr_netdev_stats p \<noteq> None then do {
       invoke (Net Free_percpu_stats);
       upd_priv (pr_netdev_stats_update (\<lambda>_. None)) }
     else ret () }"

definition pf_free_stats :: "int \<Rightarrow> int option onic" where
  "pf_free_stats rv = do { pf_free_percpu; pf_free_netdev rv }"

definition pf_clear_capacity :: "int \<Rightarrow> int option onic" where
  "pf_clear_capacity rv = do { onic_clear_capacity; pf_free_stats rv }"

definition pf_clear_hardware :: "int \<Rightarrow> int option onic" where
  "pf_clear_hardware rv = do { onic_clear_hardware; pf_clear_capacity rv }"

definition pf_clear_interrupt :: "int \<Rightarrow> int option onic" where
  "pf_clear_interrupt rv = do {
     ok \<leftarrow> onic_clear_interrupt;
     case ok of None \<Rightarrow> ret None | Some _ \<Rightarrow> pf_clear_hardware rv }"

section \<open>Probe\<close>

definition onic_default_dev_addr :: "u8 list" where
  "onic_default_dev_addr = [0x00, 0x0A, 0x35, 0x00, 0x00, 0x00]"

text \<open>The last three bytes are random.\<close>

definition pf_random_addr :: "('z, u8 list) drv" where
  "pf_random_addr = for_each_acc [3..<ETH_ALEN] (\<lambda>k mac. do {
     r \<leftarrow> perform (Sync (Random_mac_byte k));
     ret (mac[k := of_int r]) }) onic_default_dev_addr"

text \<open>\<open>a\<close> is the address of the network device.\<close>

definition pf_probe_register :: "ptr \<Rightarrow> int option onic" where
  "pf_probe_register a = do {
     p \<leftarrow> get_priv;
     invoke (Net (Netif_set_real_num_tx_queues (unat (pr_num_tx_queues p))));
     invoke (Net (Netif_set_real_num_rx_queues (unat (pr_num_rx_queues p))));
     rv \<leftarrow> perform_errno (Net Register_netdev);
     if rv < 0 then pf_clear_interrupt rv
     else do {
       invoke (Pci (Pci_set_drvdata a));
       invoke (Net Netif_carrier_off);
       ret (Some 0) } }"

definition pf_probe_interrupt :: "ptr \<Rightarrow> int option onic" where
  "pf_probe_interrupt a = do {
     r \<leftarrow> onic_init_interrupt;
     case r of
       None \<Rightarrow> ret None
     | Some rv \<Rightarrow> if rv < 0 then pf_clear_hardware rv else pf_probe_register a }"

definition pf_probe_hardware :: "nat \<Rightarrow> ptr \<Rightarrow> int option onic" where
  "pf_probe_hardware fuel a = do {
     rv \<leftarrow> onic_init_capacity;
     if rv < 0 then pf_free_stats rv
     else do {
       r \<leftarrow> onic_init_hardware fuel;
       case r of
         None \<Rightarrow> ret None
       | Some rv \<Rightarrow> if rv < 0 then pf_clear_capacity rv else pf_probe_interrupt a } }"

text \<open>The network device as \<^verbatim>\<open>ether_setup\<close> leaves it; its private data is zero, twice.\<close>

definition pf_new_private :: "u32 \<Rightarrow> bool \<Rightarrow> onic_netdev option \<Rightarrow> onic_private" where
  "pf_new_private devfn rs_fec nd = zero_private\<lparr>pr_devfn := devfn, pr_RS_FEC := rs_fec, pr_netdev := nd,
     pr_flags := (if PCI_FUNC devfn = 0 then set_bit ONIC_FLAG_MASTER_PF 0 else 0)\<rparr>"

text \<open>\<open>err\<close> is what \<^verbatim>\<open>rv\<close> holds: a failure to allocate the statistics is returned as it is.\<close>

definition pf_probe_netdev :: "nat \<Rightarrow> nat \<Rightarrow> u32 \<Rightarrow> bool \<Rightarrow> int \<Rightarrow> int option onic" where
  "pf_probe_netdev fuel ncpu devfn rs_fec err = do {
     invoke (Pci (Pcie_capability_set_word PCI_EXP_DEVCTL_RELAX_EN));
     invoke (Pci (Pcie_capability_set_word PCI_EXP_DEVCTL_EXT_TAG));
     invoke (Pci Pci_set_master);
     invoke (Pci Pci_save_state);
     invoke (Pci (Pcie_set_readrq 512));
     a \<leftarrow> perform (Net Alloc_etherdev);
     if (of_int a :: ptr) = 0 then pf_release_pci_mem (- ENOMEM)
     else do {
       upd_priv (\<lambda>_. new_private);
       mac \<leftarrow> pf_random_addr;
       _ \<leftarrow> onic_set_mac_address mac;
       upd_priv (\<lambda>p. pf_new_private devfn rs_fec (pr_netdev p));
       st \<leftarrow> perform (Net Alloc_percpu_stats);
       if (of_int st :: ptr) = 0 then pf_free_netdev err
       else do {
         upd_priv (pr_netdev_stats_update (\<lambda>_. Some (replicate ncpu zero_stats)));
         pf_probe_hardware fuel (of_int a) } } }"

text \<open>\<open>fuel\<close> bounds the wait for a CMAC, \<open>ncpu\<close> is the number of possible CPUs, \<open>rs_fec\<close> the module parameter.\<close>

definition onic_probe :: "nat \<Rightarrow> nat \<Rightarrow> u32 \<Rightarrow> bool \<Rightarrow> int option onic" where
  "onic_probe fuel ncpu devfn rs_fec = do {
     rv \<leftarrow> perform_errno (Pci Pci_enable_device_mem);
     if rv < 0 then ret (Some rv)
     else do {
       rv \<leftarrow> perform_errno (Pci (Dma_set_mask 64));
       if rv < 0 then pf_disable_device rv
       else do {
         invoke (Pci (Dma_set_coherent_mask 32));
         rv \<leftarrow> perform_errno (Pci Pci_request_mem_regions);
         if rv < 0 then pf_disable_device rv else pf_probe_netdev fuel ncpu devfn rs_fec rv } } }"

section \<open>Remove\<close>

text \<open>\<^verbatim>\<open>unregister_netdev\<close> closes a device that is up.\<close>

definition pf_unregister_netdev :: "unit option onic" where
  "pf_unregister_netdev = do {
     up \<leftarrow> perform (Net Netif_running);
     p \<leftarrow> get_priv;
     ok \<leftarrow> (if up = 0 then ret (Some ())
       else case hw_qdma (pr_hw p) of
         None \<Rightarrow> ret None
       | Some qdev \<Rightarrow> do { _ \<leftarrow> onic_stop_netdev qdev; ret (Some ()) });
     case ok of
       None \<Rightarrow> ret None
     | Some _ \<Rightarrow> do { invoke (Net Unregister_netdev); ret (Some ()) } }"

definition pf_remove_vfs :: "unit onic" where
  "pf_remove_vfs = do {
     n \<leftarrow> perform (Pci Pci_num_vf);
     if n \<noteq> 0 then do {
       invoke (Pci Pci_disable_sriov);
       p \<leftarrow> get_priv;
       onic_free_vf_resources (int (unat (pr_num_vfs p))) }
     else ret () }"

definition pf_remove_io :: "unit option onic" where
  "pf_remove_io = do {
     pf_remove_vfs;
     ok \<leftarrow> onic_clear_interrupt;
     case ok of
       None \<Rightarrow> ret None
     | Some _ \<Rightarrow> do {
         onic_clear_hardware;
         onic_clear_capacity;
         pf_free_percpu;
         invoke (Net Free_netdev);
         invoke (Pci (Pci_set_drvdata 0));
         ret (Some ()) } }"

definition pf_remove_device :: "unit option onic" where
  "pf_remove_device = do {
     ok \<leftarrow> pf_unregister_netdev;
     case ok of None \<Rightarrow> ret None | Some _ \<Rightarrow> pf_remove_io }"

definition onic_remove :: "unit option onic" where
  "onic_remove = do {
     d \<leftarrow> pci_get_drvdata;
     ok \<leftarrow> (if d \<noteq> 0 then pf_remove_device else ret (Some ()));
     case ok of
       None \<Rightarrow> ret None
     | Some _ \<Rightarrow> do {
         invoke (Pci Pci_release_mem_regions);
         invoke (Pci Pci_disable_device);
         ret (Some ()) } }"

section \<open>The card\<close>

definition pf_hw_res :: "onic_hardware \<Rightarrow> resource multiset" where
  "pf_hw_res hw = map_res (hw_addr hw) +
     (case hw_qdma hw of None \<Rightarrow> {#} | Some d \<Rightarrow> map_res (qdev_addr d) + heap (qdev_self d))"

definition pf_hw_ok :: "onic_hardware \<Rightarrow> bool" where
  "pf_hw_ok hw \<longleftrightarrow> (\<forall>d. hw_qdma hw = Some d \<longrightarrow> qdev_addr d \<noteq> 0)"

lemma keeps_fmap_rc: "length data \<le> 8 \<Longrightarrow> keeps f (program_rc qdev cmd data)"
  by (rule keeps_ctxt, rule ctxt_rel_op, rule program_rc_ctxt_op)

lemma keeps_shell [keeps_intro]:
  "keeps f (onic_read_reg hw off)" "keeps f (onic_write_reg hw off v)" "keeps f (cmac_setup hw c)"
  "keeps f (wait_shell_status n hw m)" "keeps f (onic_enable_cmac fuel hw d)" "keeps f (init_cmacs fuel b hw cs k)"
  "keeps f (onic_qdma_init_csr qdev)"
proof -
  show r: "keeps f (onic_read_reg hw off)" "keeps f (onic_write_reg hw off v)" for f :: "onic_private \<Rightarrow> 'a" and off v
    unfolding onic_read_reg_def onic_write_reg_def by (intro keeps_intro; simp add: ledger_quiet_def)+
  show c: "keeps f (cmac_setup hw c)" for f :: "onic_private \<Rightarrow> 'a" and c
    unfolding cmac_setup_def by (intro keeps_intro r; simp add: ledger_quiet_def)
  show w: "keeps f (wait_shell_status n hw m)" for f :: "onic_private \<Rightarrow> 'a" and n m
    by (induction n) (auto intro!: keeps_intro r simp: ledger_quiet_def)
  show e: "keeps f (onic_enable_cmac fuel hw d)" for f :: "onic_private \<Rightarrow> 'a" and d
    unfolding onic_enable_cmac_def by (intro keeps_intro r w c)
  show "keeps f (init_cmacs fuel b hw cs k)"
    by (induction cs) (auto intro!: keeps_intro r e)
  show "keeps f (onic_qdma_init_csr qdev)"
    unfolding onic_qdma_init_csr_def write_pool_def qdma_write_reg_def qdma_read_reg_def
    by (intro keeps_intro; simp add: ledger_quiet_def)
qed

lemmas shell_still = keeps_shell [where f = "\<lambda>p. p", THEN keeps_uses]
  keeps_fmap_rc [where f = "\<lambda>p. p", THEN keeps_uses]

lemma uses_fmap [uses_intro]:
  "uses (\<lambda>p A. \<forall>rv b n. Q (rv, qdev\<lparr>qdev_q_base := b, qdev_num_queues := n\<rparr>) p A) (qdma_write_fmap_ctxt qdev fm) Q"
  "uses (\<lambda>p A. \<forall>rv b n. Q (rv, qdev\<lparr>qdev_q_base := b, qdev_num_queues := n\<rparr>) p A) (qdma_clear_fmap_ctxt qdev) Q"
proof -
  have len: "length (fmap_ctxt_words fm) \<le> 8" by (simp add: fmap_ctxt_words_def)
  show "uses (\<lambda>p A. \<forall>rv b n. Q (rv, qdev\<lparr>qdev_q_base := b, qdev_num_queues := n\<rparr>) p A) (qdma_write_fmap_ctxt qdev fm) Q"
    unfolding qdma_write_fmap_ctxt_def
    by (rule uses_pre, rule uses_bind, rule uses_if, rule uses_ret, rule uses_ret, rule shell_still(8) [OF len]) auto
  show "uses (\<lambda>p A. \<forall>rv b n. Q (rv, qdev\<lparr>qdev_q_base := b, qdev_num_queues := n\<rparr>) p A) (qdma_clear_fmap_ctxt qdev) Q"
    unfolding qdma_clear_fmap_ctxt_def Let_def
    by (rule uses_pre, rule uses_bind, rule uses_ret, rule shell_still(8)) auto
qed

lemma charge_range [simp]:
  "charge (Pci (Pci_iomap_range b k n)) r Q A \<longleftrightarrow> Q (map_res (of_int r) + A)"
  by (simp add: charge_def map_res_def)

lemma uses_clear_hardware [uses_intro]:
  "uses (\<lambda>p A. pf_hw_ok (pr_hw p) \<and> pf_hw_res (pr_hw p) \<subseteq># A \<and>
      Q () (pr_hw_update (\<lambda>_. zero_hardware) p) (A - pf_hw_res (pr_hw p))) onic_clear_hardware Q"
  unfolding onic_clear_hardware_def qdma_invalidate_is_clear qdma_destroy_dev_def option.case
  apply (rule uses_pre)
   apply (rule uses_intro shell_still)+
  apply (auto simp: pf_hw_ok_def pf_hw_res_def charge_unmap charge_simps mset_subset_eq_exists_conv add.assoc split: option.split)
  done

lemma uses_create_dev [uses_intro]:
  "uses (\<lambda>p A. Q None p A \<and> (\<forall>d. qdev_addr d \<noteq> 0 \<longrightarrow> Q (Some d) p (map_res (qdev_addr d) + (heap (qdev_self d) + A))))
     (qdma_create_dev devfn bar) Q"
  unfolding qdma_create_dev_def
  apply (rule uses_pre)
   apply (rule uses_intro)+
  apply (auto simp: charge_simps)
  subgoal for p A r ra
    by (drule spec [of _ "\<lparr>qdev_self = of_int r, qdev_func_id = PCI_FUNC devfn, qdev_q_base = 0, qdev_num_queues = 0, qdev_addr = of_int ra\<rparr>"]) simp
  done

text \<open>All of the card or nothing.\<close>

lemma uses_init_hardware [uses_intro]:
  "uses (\<lambda>p A. pr_hw p = zero_hardware \<and> (\<forall>p A. Q None p A) \<and>
      (\<forall>e h. e < 0 \<and> pf_hw_res h = {#} \<longrightarrow> Q (Some e) (p\<lparr>pr_hw := h\<rparr>) A) \<and>
      (\<forall>h. hw_qdma h \<noteq> None \<and> pf_hw_ok h \<longrightarrow> Q (Some 0) (p\<lparr>pr_hw := h\<rparr>) (pf_hw_res h + A)))
     (onic_init_hardware fuel) Q"
proof (rule uses_at, elim conjE)
  fix p0 A0
  assume zero: "pr_hw p0 = zero_hardware" and null: "\<forall>p A. Q None p A"
    and bad: "\<forall>e h. e < 0 \<and> pf_hw_res h = {#} \<longrightarrow> Q (Some e) (p0\<lparr>pr_hw := h\<rparr>) A0"
    and good: "\<forall>h. hw_qdma h \<noteq> None \<and> pf_hw_ok h \<longrightarrow> Q (Some 0) (p0\<lparr>pr_hw := h\<rparr>) (pf_hw_res h + A0)"
  have loop: "keeps (\<lambda>p. p) (for_each xs (\<lambda>i. onic_write_reg hw (g i) (v i)))" for xs hw g and v :: "nat \<Rightarrow> u32"
    by (intro keeps_intro)
  have left: "Q (Some e) (p0\<lparr>pr_hw := zero_hardware\<rparr>) A0"
    "Q (Some e) (pr_hw_update (hw_addr_update (\<lambda>_. 0) \<circ> hw_RS_FEC_update (\<lambda>_. b)) p0) A0" if "e < 0" for e b
  proof -
    have upd: "pr_hw_update (hw_addr_update (\<lambda>_. 0) \<circ> hw_RS_FEC_update (\<lambda>_. b)) p0 = p0\<lparr>pr_hw := zero_hardware\<lparr>hw_RS_FEC := b, hw_addr := 0\<rparr>\<rparr>"
      using zero by (cases p0) simp
    show "Q (Some e) (p0\<lparr>pr_hw := zero_hardware\<rparr>) A0"
      "Q (Some e) (pr_hw_update (hw_addr_update (\<lambda>_. 0) \<circ> hw_RS_FEC_update (\<lambda>_. b)) p0) A0"
      unfolding upd using that by (auto intro!: bad [rule_format] simp: pf_hw_res_def zero_hardware_def)
  qed
  have full: "Q (Some 0) (pr_hw_update g p0) A"
    if "hw_qdma (g zero_hardware) = Some d" "qdev_addr d \<noteq> 0" "A = pf_hw_res (g zero_hardware) + A0" for g d A
  proof -
    have "pr_hw_update g p0 = p0\<lparr>pr_hw := g zero_hardware\<rparr>" using zero by (cases p0) simp
    then show ?thesis using good that by (simp add: pf_hw_ok_def)
  qed
  have z: "hw_qdma zero_hardware = None" by (simp add: zero_hardware_def)
  show "uses (\<lambda>p A. p = p0 \<and> A = A0) (onic_init_hardware fuel) Q"
    unfolding onic_init_hardware_def
    apply (rule uses_get_at)
    apply (rule uses_pre)
     apply (rule uses_intro shell_still loop [THEN keeps_uses])+
    apply (simp add: null zero left z pf_hw_ok_def pf_hw_res_def ac_simps cong: if_cong)
    apply (auto simp: pf_hw_res_def ac_simps split: option.split intro!: full)
    done
qed

section \<open>What a probed device holds\<close>

definition pf_cap_res :: "onic_private \<Rightarrow> resource multiset" where
  "pf_cap_res p = add_mset R_vectors (netdev_res p)"

definition pf_dev_res :: "onic_private \<Rightarrow> resource multiset" where
  "pf_dev_res p = add_mset R_registered (pf_irq_res p + (pf_hw_res (pr_hw p) + pf_cap_res p))"

text \<open>The private data of a device that is set up and closed.\<close>

definition pf_ready :: "onic_private \<Rightarrow> bool" where
  "pf_ready p \<longleftrightarrow> hw_qdma (pr_hw p) \<noteq> None \<and> pf_hw_ok (pr_hw p) \<and> pr_tx_queue p = (\<lambda>_. None) \<and> pr_rx_queue p = (\<lambda>_. None) \<and>
     pr_netdev_stats p \<noteq> None"

text \<open>What a failed set-up of the interrupts leaves behind.\<close>

definition pf_scrap :: "resource multiset \<Rightarrow> bool" where
  "pf_scrap L \<longleftrightarrow> (\<exists>k. left_over k L)"

lemma pf_scrap_simps: "pf_scrap {#}" "names k N \<Longrightarrow> pf_scrap N" "left_over k L \<Longrightarrow> pf_scrap L"
proof -
  show n: "pf_scrap N" if "names k N" for k N
    unfolding pf_scrap_def left_over_def using that scrap_simps(1) by (metis add.right_neutral)
  show "pf_scrap {#}" by (rule n [of 0]) (simp add: names_def)
qed (auto simp: pf_scrap_def)

lemma uses_free_percpu [uses_intro]:
  "uses (\<lambda>p A. stats_res p \<subseteq># A \<and> Q () (p\<lparr>pr_netdev_stats := None\<rparr>) (A - stats_res p)) pf_free_percpu Q"
proof -
  have none: "pr_netdev_stats p = None \<Longrightarrow> p\<lparr>pr_netdev_stats := None\<rparr> = p" for p by (cases p) simp
  show ?thesis unfolding pf_free_percpu_def
    by (rule uses_pre, (rule uses_intro)+) (auto simp: stats_res_def none)
qed

text \<open>The labels: each gives back what a device holds at that point, and ends with the error.\<close>

lemma uses_labels [uses_intro]:
  "uses (\<lambda>p A. \<exists>B. A = {#R_device#} + B \<and> Q (Some rv) p B) (pf_disable_device rv) Q"
  "uses (\<lambda>p A. \<exists>B. A = {#R_regions, R_device#} + B \<and> Q (Some rv) p B) (pf_release_pci_mem rv) Q"
  "uses (\<lambda>p A. \<exists>B. A = {#R_netdev, R_regions, R_device#} + B \<and> Q (Some rv) p B) (pf_free_netdev rv) Q"
  "uses (\<lambda>p A. \<exists>B. A = netdev_res p + B \<and> (\<forall>p'. Q (Some rv) p' B)) (pf_free_stats rv) Q"
  unfolding pf_free_stats_def pf_free_netdev_def pf_release_pci_mem_def pf_disable_device_def
  by (rule uses_pre, (rule uses_intro)+, auto simp: netdev_res_def)+

lemma uses_clear_capacity [uses_intro]:
  "uses (\<lambda>p A. R_vectors \<in># A \<and> Q () (p\<lparr>pr_num_tx_queues := 0, pr_num_rx_queues := 0, pr_num_q_vectors := 0\<rparr>) (A - {#R_vectors#}))
     onic_clear_capacity Q"
  unfolding onic_clear_capacity_def by (rule uses_pre, (rule uses_intro)+) auto

lemma uses_label_capacity [uses_intro]:
  "uses (\<lambda>p A. \<exists>B. A = pf_cap_res p + B \<and> (\<forall>p'. Q (Some rv) p' B)) (pf_clear_capacity rv) Q"
  unfolding pf_clear_capacity_def
  by (rule uses_pre, rule uses_bind, rule uses_labels, rule uses_clear_capacity) (auto simp: pf_cap_res_def netdev_res_def stats_res_def)

lemma uses_label_hardware [uses_intro]:
  "uses (\<lambda>p A. pf_hw_ok (pr_hw p) \<and> (\<exists>B. A = pf_hw_res (pr_hw p) + (pf_cap_res p + B) \<and> (\<forall>p'. Q (Some rv) p' B))) (pf_clear_hardware rv) Q"
  unfolding pf_clear_hardware_def
  by (rule uses_pre, rule uses_bind, rule uses_label_capacity, rule uses_clear_hardware)
    (auto simp: pf_cap_res_def netdev_res_def stats_res_def)

lemma no_intr_keeps [simp]:
  "pr_hw (no_intr p) = pr_hw p" "stats_res (no_intr p) = stats_res p" "pf_cap_res (no_intr p) = pf_cap_res p"
  "pr_tx_queue (no_intr p) = pr_tx_queue p" "pr_rx_queue (no_intr p) = pr_rx_queue p"
  "pr_netdev_stats (no_intr p) = pr_netdev_stats p"
  by (simp_all add: no_intr_def drop_vecs_def stats_res_def pf_cap_res_def netdev_res_def)

lemma uses_label_interrupt [uses_intro]:
  "uses (\<lambda>p A. hw_qdma (pr_hw p) \<noteq> None \<and> pf_hw_ok (pr_hw p) \<and>
      (\<exists>B. A = pf_irq_res p + (pf_hw_res (pr_hw p) + (pf_cap_res p + B)) \<and> (\<forall>p'. Q (Some rv) p' B))) (pf_clear_interrupt rv) Q"
  unfolding pf_clear_interrupt_def
  by (rule uses_pre, rule uses_bind, rule uses_option, rule uses_ret, rule uses_label_hardware, rule uses_clear_interrupt) auto

section \<open>Probe is all or nothing\<close>

lemma uses_pf_probe_register [uses_intro]:
  "uses (\<lambda>p A. hw_qdma (pr_hw p) \<noteq> None \<and> pf_hw_ok (pr_hw p) \<and>
      (\<exists>B. A = pf_irq_res p + (pf_hw_res (pr_hw p) + (pf_cap_res p + B)) \<and>
         (\<forall>e p'. e < 0 \<longrightarrow> Q (Some e) p' B) \<and> Q (Some 0) p (pf_dev_res p + B))) (pf_probe_register a) Q"
  unfolding pf_probe_register_def
  by (rule uses_pre, (rule uses_intro)+) (auto simp: pf_dev_res_def ac_simps)

lemma uses_probe_interrupt [uses_intro]:
  "uses (\<lambda>p A. intr_free p \<and> pf_ready p \<and> (\<forall>p A. Q None p A) \<and>
      (\<exists>B. A = pf_hw_res (pr_hw p) + (pf_cap_res p + B) \<and> (\<forall>e p' L. e < 0 \<and> pf_scrap L \<longrightarrow> Q (Some e) p' (L + B)) \<and>
         (\<forall>p' N. pf_ready p' \<and> names (unat (pr_num_q_vectors p)) N \<longrightarrow> Q (Some 0) p' (N + (pf_dev_res p' + B))))) (pf_probe_interrupt a) Q"
proof (rule uses_at, elim conjE exE)
  fix p0 A0 B
  assume free: "intr_free p0" and ready: "pf_ready p0" and null: "\<forall>p A. Q None p A"
    and A0: "A0 = pf_hw_res (pr_hw p0) + (pf_cap_res p0 + B)"
    and bad: "\<forall>e p' L. e < 0 \<and> pf_scrap L \<longrightarrow> Q (Some e) p' (L + B)"
    and good: "\<forall>p' N. pf_ready p' \<and> names (unat (pr_num_q_vectors p0)) N \<longrightarrow> Q (Some 0) p' (N + (pf_dev_res p' + B))"
  have rest: "uses (init_outcome p0 A0 r) (case r of None \<Rightarrow> ret None
      | Some rv \<Rightarrow> if rv < 0 then pf_clear_hardware rv else pf_probe_register a) Q" for r
  proof (cases r)
    case None
    show ?thesis unfolding None option.case by (rule uses_pre, rule uses_ret) (simp add: null)
  next
    case (Some e)
    have "uses (init_outcome p0 A0 (Some e)) (pf_clear_hardware e) Q" if neg: "e < 0"
    proof (rule uses_pre, rule uses_label_hardware)
      fix p A
      assume "init_outcome p0 A0 (Some e) p A"
      then obtain L where "p = p0" "pf_scrap L" "A = L + A0"
        using neg by (auto simp: init_outcome_def pf_scrap_def)
      then show "pf_hw_ok (pr_hw p) \<and> (\<exists>B. A = pf_hw_res (pr_hw p) + (pf_cap_res p + B) \<and> (\<forall>p'. Q (Some e) p' B))"
        using ready bad neg by (intro conjI exI [of _ "L + B"]) (simp_all add: pf_ready_def A0 add.assoc add.left_commute)
    qed
    moreover have "uses (init_outcome p0 A0 (Some e)) (pf_probe_register a) Q" if pos: "\<not> e < 0"
    proof (rule uses_pre, rule uses_pf_probe_register)
      fix p A
      assume "init_outcome p0 A0 (Some e) p A"
      then obtain N where e: "e = 0" and p: "no_intr p = p0" and N: "names (unat (pr_num_q_vectors p0)) N" and A: "A = N + (pf_irq_res p + A0)"
        using pos by (auto simp: init_outcome_def irqs_held_def)
      have sel: "pr_hw p = pr_hw p0" "pf_cap_res p = pf_cap_res p0" "pf_ready p"
        using no_intr_keeps [of p] ready by (simp_all add: p pf_ready_def)
      show "hw_qdma (pr_hw p) \<noteq> None \<and> pf_hw_ok (pr_hw p) \<and>
          (\<exists>B. A = pf_irq_res p + (pf_hw_res (pr_hw p) + (pf_cap_res p + B)) \<and>
            (\<forall>e p'. e < 0 \<longrightarrow> Q (Some e) p' B) \<and> Q (Some 0) p (pf_dev_res p + B))"
        using sel(3) bad good N pf_scrap_simps(2) [OF N] unfolding pf_ready_def sel
        by (intro conjI exI [of _ "N + B"]) (auto simp: A A0 sel pf_ready_def add.assoc add.left_commute)
    qed
    ultimately show ?thesis by (simp add: Some)
  qed
  show "uses (\<lambda>p A. p = p0 \<and> A = A0) (pf_probe_interrupt a) Q"
    unfolding pf_probe_interrupt_def by (rule uses_bind [OF rest uses_init_interrupt [OF free]])
qed

text \<open>A device before the card is set up.\<close>

definition pf_blank :: "onic_private \<Rightarrow> bool" where
  "pf_blank p \<longleftrightarrow> pr_hw p = zero_hardware \<and> pr_state p = 0 \<and> pr_q_vector p = (\<lambda>_. None) \<and> pr_tx_queue p = (\<lambda>_. None) \<and>
     pr_rx_queue p = (\<lambda>_. None) \<and> pr_netdev_stats p \<noteq> None"

lemma uses_init_capacity [uses_intro]:
  "uses (\<lambda>p A. (\<forall>e<0. Q e p A) \<and> (\<forall>v t r. Q 0 (p\<lparr>pr_num_q_vectors := v, pr_num_tx_queues := t, pr_num_rx_queues := r\<rparr>) (add_mset R_vectors A)))
     onic_init_capacity Q"
  unfolding onic_init_capacity_def onic_acquire_msix_vectors_def onic_set_num_queues_def
  by (rule uses_pre, (rule uses_intro)+) auto

lemma uses_probe_hardware [uses_intro]:
  "uses (\<lambda>p A. pf_blank p \<and> (\<forall>p A. Q None p A) \<and>
      (\<exists>B. A = netdev_res p + B \<and> (\<forall>e p' L. e < 0 \<and> pf_scrap L \<longrightarrow> Q (Some e) p' (L + B)) \<and>
         (\<forall>p' N k. pf_ready p' \<and> names k N \<longrightarrow> Q (Some 0) p' (N + (pf_dev_res p' + B))))) (pf_probe_hardware fuel a) Q"
proof (rule uses_at, elim conjE exE)
  fix p0 A0 B
  assume blank: "pf_blank p0" and null: "\<forall>p A. Q None p A" and A0: "A0 = netdev_res p0 + B"
    and bad: "\<forall>e p' L. e < 0 \<and> pf_scrap L \<longrightarrow> Q (Some e) p' (L + B)"
    and good: "\<forall>p' N k. pf_ready p' \<and> names k N \<longrightarrow> Q (Some 0) p' (N + (pf_dev_res p' + B))"
  have bad0: "Q (Some e) p' B" if "e < 0" for e p'
    using bad that pf_scrap_simps(1) by (metis add_0)
  show "uses (\<lambda>p A. p = p0 \<and> A = A0) (pf_probe_hardware fuel a) Q"
    unfolding pf_probe_hardware_def
    apply (rule uses_pre)
     apply (rule uses_intro)+
    apply (auto simp: A0 null)
    subgoal by (rule bad0)
    subgoal using blank by (simp add: pf_blank_def)
    subgoal by (rule exI [of _ B]) (simp add: pf_cap_res_def netdev_res_def stats_res_def bad0)
    subgoal using blank by (simp add: pf_blank_def intr_free_def)
    subgoal using blank by (simp add: pf_blank_def pf_ready_def)
    subgoal by (rule exI [of _ B], simp add: pf_cap_res_def netdev_res_def stats_res_def, use bad good in blast)
    done
qed

lemma keeps_pf_random_addr [keeps_intro]: "keeps f pf_random_addr"
  unfolding pf_random_addr_def by (intro keeps_intro; simp add: ledger_quiet_def)

lemma uses_set_mac [uses_intro]:
  "uses (\<lambda>p A. \<forall>rv g. Q rv (pr_netdev_update g p) A) (onic_set_mac_address mac) Q"
proof -
  have same: "pr_netdev_update (\<lambda>n. n) p = p" for p by (cases p) simp
  show ?thesis unfolding onic_set_mac_address_def
    by (rule uses_pre, (rule uses_intro)+) (auto, metis same)
qed

lemma uses_pf_probe_netdev [uses_intro]:
  "uses (\<lambda>p A. (\<forall>p A. Q None p A) \<and>
      (\<exists>B. A = {#R_regions, R_device#} + B \<and> (\<forall>e p' L. e < 0 \<and> pf_scrap L \<longrightarrow> Q (Some e) p' (L + B)) \<and>
         (\<forall>p'. pr_netdev_stats p' = None \<longrightarrow> Q (Some err) p' B) \<and>
         (\<forall>p' N k. pf_ready p' \<and> names k N \<longrightarrow> Q (Some 0) p' (N + (pf_dev_res p' + B))))) (pf_probe_netdev fuel ncpu devfn fec err) Q"
  unfolding pf_probe_netdev_def
  apply (rule uses_pre)
   apply (rule uses_intro keeps_pf_random_addr [where f = "\<lambda>p. p", THEN keeps_uses])+
  apply (auto simp: charge_simps)
  subgoal for r B by (use pf_scrap_simps(1) in \<open>metis add_0 neg_less_0_iff_less zero_less_numeral\<close>)
  subgoal by (simp add: pf_new_private_def zero_private_def)
  subgoal by (simp add: pf_blank_def pf_new_private_def zero_private_def)
  subgoal for r B by (intro exI [of _ B] conjI) (simp add: netdev_res_def stats_res_def, blast+)
  done

definition pf_probe_end :: "int option \<Rightarrow> onic_private \<Rightarrow> resource multiset \<Rightarrow> resource multiset \<Rightarrow> bool" where
  "pf_probe_end r p A A0 \<longleftrightarrow> (case r of None \<Rightarrow> True | Some e \<Rightarrow>
     if e < 0 then \<exists>L. pf_scrap L \<and> A = L + A0
     else e = 0 \<and> (if pr_netdev_stats p = None then A = A0
       else pf_ready p \<and> (\<exists>k N. names k N \<and> A = N + (pf_dev_res p + A0))))"

lemma uses_onic_probe: "uses (\<lambda>p A. A = A0) (onic_probe fuel ncpu devfn fec) (\<lambda>r p A. pf_probe_end r p A A0)"
  unfolding onic_probe_def
  apply (rule uses_pre)
   apply (rule uses_intro)+
  apply (auto simp: charge_simps pf_probe_end_def pf_scrap_simps(1) pf_ready_def)
  done

section \<open>Remove gives everything back\<close>

abbreviation but_vfs :: "onic_private \<Rightarrow> onic_private" where
  "but_vfs p \<equiv> p\<lparr>pr_vf_res := [], pr_num_vfs := 0\<rparr>"

lemma keeps_clear_fmap [keeps_intro]: "keeps f (qdma_clear_fmap_ctxt qdev)"
  unfolding qdma_clear_fmap_ctxt_def Let_def by (intro keeps_intro keeps_fmap_rc) simp

lemma keeps_free_vfs [keeps_intro]: "keeps but_vfs (onic_free_vf_resources n)" "keeps but_vfs pf_remove_vfs"
proof -
  have one: "keeps but_vfs (free_vf pf i)" for pf i
    unfolding free_vf_def Let_def by (intro keeps_intro; simp)
  show "keeps but_vfs (onic_free_vf_resources n)" for n
    unfolding onic_free_vf_resources_def by (intro keeps_intro one; simp split: option.split)
  then show "keeps but_vfs pf_remove_vfs"
    unfolding pf_remove_vfs_def by (intro keeps_intro; simp add: ledger_quiet_def)
qed

lemma but_vfs_sel:
  assumes "but_vfs p = but_vfs q"
  shows "pr_hw p = pr_hw q" "pf_irq_res p = pf_irq_res q" "pf_cap_res p = pf_cap_res q"
proof -
  have s: "f (but_vfs p) = f (but_vfs q)" for f :: "onic_private \<Rightarrow> 'a" by (simp add: assms)
  show "pr_hw p = pr_hw q" using s [of pr_hw] by simp
  show "pf_irq_res p = pf_irq_res q"
    using s [of pr_num_q_vectors] s [of pr_q_vector] s [of pr_state] s [of pr_flags]
    by (simp add: pf_irq_res_def intr_res_def pf_vecs_res_def)
  show "pf_cap_res p = pf_cap_res q"
    using s [of pr_netdev_stats] by (simp add: pf_cap_res_def netdev_res_def stats_res_def)
qed

lemma uses_pf_remove_io:
  "uses (\<lambda>p A. hw_qdma (pr_hw p) \<noteq> None \<and> pf_hw_ok (pr_hw p) \<and>
      A = pf_irq_res p + (pf_hw_res (pr_hw p) + (pf_cap_res p + B)))
    pf_remove_io
    (\<lambda>r p A. r \<noteq> None \<and> A = {#R_regions, R_device#} + B)"
  unfolding pf_remove_io_def
  apply (rule uses_pre)
   apply (rule uses_intro keeps_free_vfs(2) [THEN keeps_uses])+
  apply (intro allI impI, elim conjE)
  subgoal for p A u p'
    using but_vfs_sel [of p' p] by (simp add: pf_cap_res_def netdev_res_def stats_res_def)
  done

lemma pf_closed_sel: "pr_hw (pf_closed p) = pr_hw p" "pf_irq_res (pf_closed p) = pf_irq_res p" "pf_cap_res (pf_closed p) = pf_cap_res p"
  by (simp_all add: pf_closed_def drop_rx_def drop_tx_def pf_irq_res_def intr_res_def pf_vecs_res_def pf_cap_res_def
    netdev_res_def stats_res_def)

lemma pf_unregister_spec:
  assumes "hw_qdma (pr_hw (priv s)) \<noteq> None" "queues_res (priv s) = {#} \<or> ext s (trace s) (Net Netif_running) \<noteq> 0"
    "held (ledger (trace s)) = queues_res (priv s) + pf_dev_res (priv s) + B" "run_state pf_unregister_netdev s = (r, s')"
  shows "r = Some () \<and> pr_hw (priv s') = pr_hw (priv s) \<and>
    held (ledger (trace s')) = pf_irq_res (priv s') + (pf_hw_res (pr_hw (priv s')) + (pf_cap_res (priv s') + B)) \<and>
    faults (ledger (trace s')) = faults (ledger (trace s))"
proof -
  obtain qdev where q: "hw_qdma (pr_hw (priv s)) = Some qdev" using assms(1) by blast
  define up where "up = (ext s (trace s) (Net Netif_running) \<noteq> 0)"
  let ?p = "priv s"
  let ?m = "do { _ \<leftarrow> perform (Net Netif_running);
    _ \<leftarrow> (if up then do { _ \<leftarrow> onic_stop_netdev qdev; ret () } else ret ());
    invoke (Net Unregister_netdev); ret (Some ()) }"
  have m: "run_state pf_unregister_netdev s = run_state ?m s"
    by (simp add: pf_unregister_netdev_def run_simps up_def q split: prod.splits)
  have "uses (\<lambda>p A. p = ?p \<and> A = queues_res ?p + pf_dev_res ?p + B) ?m (\<lambda>r p A. r = Some () \<and> pr_hw p = pr_hw ?p \<and>
      A = pf_irq_res p + (pf_hw_res (pr_hw p) + (pf_cap_res p + B)))"
    apply (rule uses_pre)
     apply (rule uses_intro)+
    using assms(2) by (auto simp: up_def pf_closed_sel pf_dev_res_def charge_simps)
  from usesD [OF this, of s r s'] show ?thesis using assms(3,4) by (simp add: m)
qed

lemma pf_remove_spec:
  assumes "hw_qdma (pr_hw (priv s)) \<noteq> None" "pf_hw_ok (pr_hw (priv s))" "drvdata (trace s) \<noteq> 0"
    "queues_res (priv s) = {#} \<or> ext s (trace s) (Net Netif_running) \<noteq> 0"
    "held (ledger (trace s)) = queues_res (priv s) + pf_dev_res (priv s) + B" "run_state onic_remove s = (r, s')"
  shows "r = Some () \<and> held (ledger (trace s')) = B \<and> faults (ledger (trace s')) = faults (ledger (trace s))"
proof -
  obtain ok s1 where 1: "run_state pf_unregister_netdev s = (ok, s1)" by fastforce
  note u = pf_unregister_spec [OF assms(1,4,5) 1]
  let ?b = "do { ok \<leftarrow> pf_remove_io; case ok of None \<Rightarrow> ret None | Some _ \<Rightarrow> do {
      invoke (Pci Pci_release_mem_regions); invoke (Pci Pci_disable_device); ret (Some ()) } }"
  have b: "run_state ?b s1 = (r, s')"
    using assms(3,6) u by (simp add: onic_remove_def pci_get_drvdata_def pf_remove_device_def 1 run_simps)
  have "uses (\<lambda>p A. hw_qdma (pr_hw p) \<noteq> None \<and> pf_hw_ok (pr_hw p) \<and>
      A = pf_irq_res p + (pf_hw_res (pr_hw p) + (pf_cap_res p + B))) ?b (\<lambda>r p A. r = Some () \<and> A = B)"
    by (rule uses_bind [OF _ uses_pf_remove_io], rule uses_pre, (rule uses_intro)+) auto
  from usesD [OF this b] u assms(1,2) show ?thesis by auto
qed

lemma run_random_addr: "\<exists>mac evs. run_state pf_random_addr s = (mac, s\<lparr>trace := trace s @ evs\<rparr>) \<and>
    list_all ledger_quiet evs \<and> list_all drvdata_quiet evs"
proof -
  have l: "[3..<ETH_ALEN] = [3, 4, 5]" by (simp add: upt_rec)
  show ?thesis unfolding pf_random_addr_def l
    by (simp add: run_simps, rule exI, rule conjI, rule refl, simp add: ledger_quiet_def)
qed

lemma run_set_mac: "\<exists>rv evs g. run_state (onic_set_mac_address mac) s =
    (rv, s\<lparr>trace := trace s @ evs, priv := pr_netdev_update g (priv s)\<rparr>) \<and>
    list_all ledger_quiet evs \<and> list_all drvdata_quiet evs"
proof -
  have same: "s\<lparr>priv := pr_netdev_update (\<lambda>x. x) (priv s)\<rparr> = s" by simp
  show ?thesis
  proof (cases "is_valid_ether_addr mac")
    case True
    then show ?thesis
      by (intro exI [of _ 0] exI [of _ "[(Net (Eth_hw_addr_set (take ETH_ALEN mac)), ext s (trace s) (Net (Eth_hw_addr_set (take ETH_ALEN mac))))]"]
        exI [of _ "map_option (nd_dev_addr_update (\<lambda>_. take ETH_ALEN mac))"]) (simp add: onic_set_mac_address_def run_simps ledger_quiet_def)
  next
    case False
    then show ?thesis
      by (intro exI [of _ "- EADDRNOTAVAIL"] exI [of _ "[]"] exI [of _ "\<lambda>x. x"]) (simp add: onic_set_mac_address_def run_simps)
  qed
qed

lemma probe_netdev_refused:
  assumes "\<forall>tr. (of_int (ext s tr (Net Alloc_etherdev)) :: ptr) \<noteq> 0" "\<forall>tr. ext s tr (Net Alloc_percpu_stats) = 0"
    "held (ledger (trace s)) = {#R_regions, R_device#}"
  shows "case run_state (pf_probe_netdev fuel ncpu devfn fec err) s of (r, s') \<Rightarrow>
    r = Some err \<and> held (ledger (trace s')) = {#} \<and> faults (ledger (trace s')) = faults (ledger (trace s)) \<and>
    drvdata (trace s') = drvdata (trace s)"
proof -
  note steps = run_simps led.view_append dd.view_append ledger_step_def acquire_def release_def
  let ?head = "do {
     invoke (Pci (Pcie_capability_set_word PCI_EXP_DEVCTL_RELAX_EN));
     invoke (Pci (Pcie_capability_set_word PCI_EXP_DEVCTL_EXT_TAG));
     invoke (Pci Pci_set_master);
     invoke (Pci Pci_save_state);
     invoke (Pci (Pcie_set_readrq 512));
     perform (Net Alloc_etherdev) } :: int onic"
  define a where "a = fst (run_state ?head s)"
  define evs where "evs = trace (snd (run_state ?head s))"
  have head: "run_state ?head s = (a, s\<lparr>trace := evs\<rparr>)" and a: "(of_int a :: ptr) \<noteq> 0"
    using assms(1) by (simp_all add: a_def evs_def run_simps)
  have e: "held (ledger evs) = {#R_netdev, R_regions, R_device#}" "faults (ledger evs) = faults (ledger (trace s))"
    "drvdata evs = drvdata (trace s)"
    using assms(1,3) by (simp_all add: evs_def steps)
  let ?s1 = "s\<lparr>trace := evs, priv := new_private\<rparr>"
  obtain mac E where rand: "run_state pf_random_addr ?s1 = (mac, ?s1\<lparr>trace := evs @ E\<rparr>)" "list_all ledger_quiet E" "list_all drvdata_quiet E"
    using run_random_addr [of ?s1] by auto
  obtain rv F g where set: "run_state (onic_set_mac_address mac) (?s1\<lparr>trace := evs @ E\<rparr>) =
      (rv, after (?s1\<lparr>trace := evs @ E\<rparr>) F (pr_netdev_update g new_private))" "list_all ledger_quiet F" "list_all drvdata_quiet F"
    using run_set_mac [of mac "?s1\<lparr>trace := evs @ E\<rparr>"] by auto
  let ?t = "(evs @ E) @ F"
  have q: "held (ledger ?t) = {#R_netdev, R_regions, R_device#}" "faults (ledger ?t) = faults (ledger (trace s))"
    "drvdata ?t = drvdata (trace s)"
    by (simp_all only: led.view_quiet [OF set(2)] led.view_quiet [OF rand(2)] dd.view_quiet [OF set(3)] dd.view_quiet [OF rand(3)] e)
  let ?rest = "\<lambda>a. do {
       upd_priv (\<lambda>_. new_private);
       mac \<leftarrow> pf_random_addr;
       _ \<leftarrow> onic_set_mac_address mac;
       upd_priv (\<lambda>p. pf_new_private devfn fec (pr_netdev p));
       st \<leftarrow> perform (Net Alloc_percpu_stats);
       if (of_int st :: ptr) = 0 then pf_free_netdev err
       else do {
         upd_priv (pr_netdev_stats_update (\<lambda>_. Some (replicate ncpu zero_stats)));
         pf_probe_hardware fuel (of_int a) } }"
  have "run_state (pf_probe_netdev fuel ncpu devfn fec err) s =
      (case run_state ?head s of (a, t) \<Rightarrow> run_state (if (of_int a :: ptr) = 0 then pf_release_pci_mem (- ENOMEM) else ?rest a) t)"
    unfolding pf_probe_netdev_def by (simp only: run_state_bind case_prod_beta fst_conv snd_conv)
  then have "run_state (pf_probe_netdev fuel ncpu devfn fec err) s = run_state (?rest a) (s\<lparr>trace := evs\<rparr>)"
    using a by (simp only: head prod.case if_False refl simp_thms)
  then show ?thesis
    using assms(2) q rand(1) set(1) by (simp add: pf_free_netdev_def pf_release_pci_mem_def pf_disable_device_def steps del: append_assoc)
qed

section \<open>Properties\<close>


text \<open>C40. A PF whose per-CPU statistics are refused is not an error to \<^verbatim>\<open>onic_probe\<close>: \<^verbatim>\<open>rv\<close> still holds the 0 of
  \<^verbatim>\<open>pci_request_mem_regions\<close>. The error path gives back the network device, the regions and the PCI device, and probe
  returns 0: the kernel takes the device as bound, and a later \<^verbatim>\<open>onic_remove\<close>, which finds no private data, releases
  the regions and disables the device a second time.\<close>

theorem pf_probe_hides_refusal:
  fixes fuel :: nat
  assumes "\<forall>tr. ext s tr (Pci Pci_enable_device_mem) = 0" "\<forall>tr. ext s tr (Pci Pci_request_mem_regions) = 0"
    "\<forall>tr. ext s tr (Pci (Dma_set_mask 64)) = 0" "\<forall>tr. (of_int (ext s tr (Net Alloc_etherdev)) :: ptr) \<noteq> 0"
    "\<forall>tr. ext s tr (Net Alloc_percpu_stats) = 0" "drvdata (trace s) = 0" "held (ledger (trace s)) = {#}"
  shows "case run_state (onic_probe fuel ncpu devfn fec) s of (r, s1) \<Rightarrow> case run_state onic_remove s1 of (_, s2) \<Rightarrow>
    r = Some 0 \<and> held (ledger (trace s1)) = {#} \<and> faults (ledger (trace s1)) = faults (ledger (trace s)) \<and>
    faults (ledger (trace s2)) = faults (ledger (trace s)) + 2"
proof -
  note steps = run_simps led.view_append led.view_quiet dd.view_append ledger_step_def acquire_def release_def
  obtain r s1 where 1: "run_state (onic_probe fuel ncpu devfn fec) s = (r, s1)" by fastforce
  have p: "r = Some 0" "ledger (trace s1) = ledger (trace s)" "drvdata (trace s1) = 0"
  proof -
    let ?s = "s\<lparr>trace := trace s @ [(Pci Pci_enable_device_mem, 0), (Pci (Dma_set_mask 64), 0),
      (Pci (Dma_set_coherent_mask 32), ext s (trace s @ [(Pci Pci_enable_device_mem, 0), (Pci (Dma_set_mask 64), 0)]) (Pci (Dma_set_coherent_mask 32))),
      (Pci Pci_request_mem_regions, 0)]\<rparr>"
    have "run_state (pf_probe_netdev fuel ncpu devfn fec 0) ?s = (r, s1)"
      using 1 assms(1-3) by (simp add: onic_probe_def run_simps errno_of_def)
    with probe_netdev_refused [where s = ?s and fuel = fuel and ncpu = ncpu and devfn = devfn and fec = fec and err = 0] assms show
      "r = Some 0" "ledger (trace s1) = ledger (trace s)" "drvdata (trace s1) = 0"
      by (simp_all add: steps)
  qed
  show ?thesis
    using p assms(7) by (simp add: 1 onic_remove_def pci_get_drvdata_def steps)
qed

theorem pf_probe_hides_refusal_witness:
  "let s = \<lparr>ext = (\<lambda>_ c. if c = Net Alloc_etherdev then 0x1000 else 0), trace = [], priv = zero_private\<rparr>
   in case run_state (onic_probe 10 4 0 True) s of (r, s1) \<Rightarrow> r = Some 0 \<and> held (ledger (trace s1)) = {#} \<and>
     faults (ledger (trace (snd (run_state onic_remove s1)))) = 2"
  using pf_probe_hides_refusal [of "\<lparr>ext = (\<lambda>_ c. if c = Net Alloc_etherdev then 0x1000 else 0), trace = [], priv = zero_private\<rparr>" 10 4 0 True]
  by (auto simp: ledger_def ledger_init_def drvdata_def Let_def split: prod.splits)

text \<open>C9. Remove gives everything back. A PF that is set up, with queues only if the kernel says that it is up, holds nothing
  after \<^verbatim>\<open>onic_remove\<close> of what its private data named, and keeps exactly the rest; nothing is released that is not held,
  whether or not VFs are enabled.\<close>

theorem pf_remove_balanced:
  assumes "hw_qdma (pr_hw (priv s)) \<noteq> None" "pf_hw_ok (pr_hw (priv s))" "drvdata (trace s) \<noteq> 0"
    "queues_res (priv s) = {#} \<or> ext s (trace s) (Net Netif_running) \<noteq> 0"
    "held (ledger (trace s)) = queues_res (priv s) + pf_dev_res (priv s) + B"
  shows "case run_state onic_remove s of (r, s') \<Rightarrow>
    r = Some () \<and> held (ledger (trace s')) = B \<and> faults (ledger (trace s')) = faults (ledger (trace s))"
  using pf_remove_spec [OF assms] by fastforce

text \<open>A card with a PF that was probed and is closed, and one VF.\<close>

definition probed_pf :: drv_state where
  "probed_pf = \<lparr>ext = (\<lambda>_ c. if c = Pci Pci_num_vf then 1 else 0),
     trace = [(Pci Pci_enable_device_mem, 0), (Pci Pci_request_mem_regions, 0), (Net Alloc_etherdev, 0x1000),
       (Net Alloc_percpu_stats, 0x2000), (Pci (Pci_alloc_irq_vectors 2 4), 0), (Pci (Pci_iomap_range 2 0 0x1000), 0x3000),
       (Mem (Kzalloc Obj_qdma_dev), 0x4000), (Pci (Pci_iomap 0 0), 0x100000), (Net Register_netdev, 0),
       (Pci (Pci_set_drvdata 0x1000), 0)],
     priv = zero_private\<lparr>pr_netdev_stats := Some [], pr_hw := zero_hardware\<lparr>hw_addr := 0x3000, hw_qdma := Some pf_sample_dev\<rparr>,
       pr_vf_res := (replicate ONIC_MAX_VFS zero_vf_resource)[0 := zero_vf_resource\<lparr>vr_qmax := 1, vr_enabled := True\<rparr>],
       pr_num_vfs := 1\<rparr>\<rparr>"

theorem pf_remove_balanced_witness:
  "case run_state onic_remove probed_pf of (r, s') \<Rightarrow> r = Some () \<and> ledger (trace s') = ledger_init"
proof -
  have "ledger (trace probed_pf) = \<lparr>held = pf_dev_res (priv probed_pf), faults = 0\<rparr>" "queues_res (priv probed_pf) = {#}"
    "drvdata (trace probed_pf) \<noteq> 0"
    by (simp_all add: probed_pf_def ledger_def ledger_init_def ledger_step_def acquire_def drvdata_def pf_dev_res_def pf_irq_res_def
      pf_vecs_res_def intr_res_def pf_hw_res_def pf_sample_dev_def map_res_def pf_cap_res_def netdev_res_def stats_res_def zero_private_def
      zero_hardware_def queues_res_def tx_res_def rx_res_def heap_def)
  with pf_remove_balanced [of probed_pf "{#}"] show ?thesis
    by (auto simp: probed_pf_def pf_hw_ok_def pf_sample_dev_def ledger_init_def)
qed

end
