(* ===== verification/Spec2Isabelle.thy ===== *)
theory Spec2Isabelle
  imports Error_Info Hardware Mbox Sriov Vf_Hw Vf_Mbox Vf_Main Qdma_Export Handshake Ethtool Pf_Irq Pf_Main
begin

text \<open>
  A verification development for the Linux driver of the OpenNIC shell, an FPGA network card with a QDMA
  engine. The repository holds two kernel modules built from one source: the driver of the physical functions (PF) and
  the driver of the virtual functions (VF) that a PF creates with SR-IOV.
\<close>

section \<open>The program\<close>

text \<open>
  The card has register BARs (BAR 0 for the QDMA, BAR 2 for the shell), queue contexts behind an indirect register
  window, descriptor rings in shared memory and a mailbox between functions.

  A PF (\<^verbatim>\<open>onic_main.c\<close>) counts its vectors and queues (\<^verbatim>\<open>onic_lib.c\<close>), initialises the card (\<^verbatim>\<open>onic_hardware.c\<close>), requests
  its interrupts, and registers a network device. Opening the device (\<^verbatim>\<open>onic_netdev.c\<close>) allocates rings and programs the
  contexts through \<^verbatim>\<open>qdma_access/qdma_context.c\<close>. \<^verbatim>\<open>onic_sriov.c\<close> gives each VF a window of the queues of the card; a VF
  may not program contexts, so it sends requests over the mailbox, which \<^verbatim>\<open>onic_mbox.c\<close> checks against that window and
  answers.

  A VF (\<^verbatim>\<open>onic_vf_main.c\<close>) maps its BARs (\<^verbatim>\<open>onic_vf_hw.c\<close>), asks the PF for its window (\<^verbatim>\<open>onic_vf_mbox.c\<close>), allocates a queue
  device and rings (\<^verbatim>\<open>onic_vf_qdma.c\<close>), has the PF program the contexts, and runs the network device
  (\<^verbatim>\<open>onic_vf_netdev.c\<close>).
\<close>

section \<open>How the model is built\<close>

text \<open>
  The world (\<open>Prelude\<close>). A call that leaves the driver (register access, shared memory, allocation, interrupts, packets,
  locks, network core) is a constructor of \<open>kcall\<close>. \<open>perform c\<close> asks the oracle \<open>ext\<close> of the state for the answer,
  which may depend on everything done before, and appends the call with its answer to \<open>trace\<close>. Every theorem holds
  for every oracle unless it restricts it, so card and kernel are arbitrary, errors included. \<open>invoke\<close> ignores the answer,
  \<open>perform_errno\<close> reads it as 0 or a
  negative error number, which the kernel documents for that call.

  The private data (\<open>Onic\<close>). An operation that takes \<^verbatim>\<open>priv\<close> is a state transformer on \<open>drv_state\<close>, the world with the
  record \<open>onic_private\<close>; each struct is a record with the fields of the C struct at their widths. Back pointers and
  kernel objects without a field the driver reads are left out. A pointer to an object of the heap is an option, \<open>None\<close> for
  NULL, and the object carries its address. Where the C code would read through NULL or divide by zero, the operation
  of the PF returns \<open>None\<close>. Indices into arrays are \<open>nat\<close>; an access outside the list is excluded by the invariants.

  What a trace means (\<open>trace_view\<close> in \<open>Prelude\<close>). A view folds a step function over the trace: the contents of the contexts
  on the card (\<open>ctxt\<close>), of the mailbox registers (\<open>mboxv\<close>), of a register file (\<open>regv\<close>), the resources held (\<open>led\<close>), the
  packets and mappings (\<open>pk\<close>), the deliveries of a poll (\<open>rxv\<close>), the driver data of the device (\<open>dd\<close>). The locale gives
  the fold laws once; each view is an interpretation.

  Reasoning. \<open>triple\<close> and the collection \<open>triple_intro\<close> carry properties of single components; \<open>onic_rel\<close> (\<open>Onic\<close>) relates
  result, private data before and after, and a view of the events of a run, and composes along the binds; \<open>uses\<close>
  (\<open>Resources\<close>) computes weakest preconditions over held resources, with a fault for every release of something not held.
  \<open>run_simps\<close> executes an operation on a concrete state, for the witnesses.
\<close>

section \<open>Theories\<close>

text \<open>
  Base.
  \<^item> \<open>Prelude\<close>: integers, error numbers, \<open>kcall\<close>, the world, triples, the locale \<open>trace_view\<close>.
  \<^item> \<open>Common\<close>: \<^verbatim>\<open>onic_common.h\<close>, the field macros; they are inverse on contiguous masks, independent on disjoint ones.
  \<^item> \<open>Regs\<close>, \<open>Cmac_Regs\<close>: offsets and masks of \<^verbatim>\<open>qdma_register.h\<close>, \<^verbatim>\<open>qdma_context.h\<close>, \<^verbatim>\<open>qdma_export.h\<close>, \<^verbatim>\<open>onic_register.h\<close>.
  \<^item> \<open>Onic\<close>: the structs of \<^verbatim>\<open>onic.h\<close>, \<^verbatim>\<open>onic_hardware.h\<close>, \<^verbatim>\<open>onic_mbox.h\<close>, \<^verbatim>\<open>onic_vf.h\<close>, \<^verbatim>\<open>onic_vf_hw.h\<close>; the message encodings.
  \<^item> \<open>Ledger\<close>, \<open>Resources\<close>: held resources and the calculus over them. \<open>Packets\<close>: what becomes of packets.
  \<^item> \<open>Stats\<close>: the per-CPU counters both drivers keep.

  QDMA access library.
  \<^item> \<open>Qdma_Device\<close>, \<open>Qdma_Ctxt_Layout\<close>, \<open>Qdma_Context\<close>: the context protocol. The lock discipline, the time-out after 5000
    polls, the exact effect of each operation on the contexts, the round trip of every context through its words.
  \<^item> \<open>Qdma_Export\<close>: descriptors in shared memory. \<open>Error_Info\<close>: the table of errors agrees with its summary masks.

  PF.
  \<^item> \<open>Hardware\<close>: \<^verbatim>\<open>onic_hardware.c\<close>; setting up a queue programs all its contexts or none.
  \<^item> \<open>Desc_Rings\<close>: the ring arithmetic of both drivers as one locale \<open>ring_ops\<close>, interpreted for each.
  \<^item> \<open>Pf_Irq\<close>: \<^verbatim>\<open>onic_lib.c\<close>; interrupts all or nothing.
  \<^item> \<open>Pf_Tx\<close>, \<open>Pf_Rx\<close>, \<open>Pf_Queues\<close>: \<^verbatim>\<open>onic_netdev.c\<close>. Packets given to the PF are conserved, completion is first in first out, a
    poll stays in its budget and only a dry page pool stops it.
  \<^item> \<open>Pf_Lifecycle\<close>: what the queues of a PF hold; open and stop are balanced up to the queue that failed, and a fresh queue is
    well formed for the poll.
  \<^item> \<open>Pf_Main\<close>: \<^verbatim>\<open>onic_main.c\<close>, the labels of the error path as functions. Probe is all or nothing, but for the
    statistics, whose refusal it reports as success; remove gives everything back.
  \<^item> \<open>Ethtool\<close>: \<^verbatim>\<open>onic_ethtool.c\<close>; the receive hash round trip and its bounds.
  \<^item> \<open>Sriov\<close>: \<^verbatim>\<open>onic_sriov.c\<close>; windows of VFs and PF are disjoint, enabling is all or nothing.
  \<^item> \<open>Mbox_Transport\<close>: one locale \<open>mbox_regs\<close> for the transfer of a message, interpreted with the register access of the PF and
    of the VF. \<open>Mbox\<close>: \<^verbatim>\<open>onic_mbox.c\<close>; a VF reaches contexts in its window only, every request is answered once.

  VF.
  \<^item> \<open>Vf_Hw\<close>: \<^verbatim>\<open>onic_vf_hw.c\<close>. \<open>Vf_Mbox\<close>: \<^verbatim>\<open>onic_vf_mbox.c\<close>; a command succeeds only after a matching response.
  \<^item> \<open>Vf_Qdma\<close>, \<open>Vf_Tx\<close>, \<open>Vf_Rx\<close>, \<open>Vf_Queues\<close>: \<^verbatim>\<open>onic_vf_qdma.c\<close>. \<open>Vf_Netdev\<close>: \<^verbatim>\<open>onic_vf_netdev.c\<close>; packets are conserved.
  \<^item> \<open>Vf_Resources\<close>, \<open>Vf_Lifecycle\<close>: what rings, interrupts, open and stop hold and give back.
  \<^item> \<open>Vf_Main\<close>: \<^verbatim>\<open>onic_vf_main.c\<close>; probe is all or nothing, a whole life of the device leaves nothing behind.
  \<^item> \<open>Handshake\<close>: both ends of the mailbox composed; the VF learns what the PF decided.
\<close>

section \<open>Bounds and fuel\<close>

text \<open>
  Loops the C code bounds are folds over lists of indices. The others have fuel:
  \<^item> \<open>ctxt_poll\<close>: 5000, the time-out of 500 ms at 100 us a poll.
  \<^item> \<open>drop_stale\<close> (256) and \<open>vf_drop_stale\<close> (16): the bounds the code has.
  \<^item> \<open>pf_mbox_pending\<close>: the interrupt loop runs while the status names requests, without a bound of its own; fuel is an
    argument, and \<open>pf_mbox_drains\<close> shows that it stops by itself unless as many requests arrive as there is fuel.
  \<^item> \<open>tx_reap\<close> (VF) walks from the clean index to the one the card reports and stops after at most a whole ring, which is
    its fuel; \<open>pf_reap\<close> has the number of entries \<open>clean_work\<close> computes, as the code has.
  \<^item> \<open>rx_poll_loop\<close> (VF) has the budget; \<open>rx_loop\<close> (PF) \<open>max 1 budget\<close>, since the code looks at the budget after a packet.
  \<^item> \<open>wait_shell_status\<close> (\<^verbatim>\<open>onic_enable_cmac\<close>) polls without a bound; its fuel is an argument of \<open>onic_init_hardware\<close> and \<open>onic_probe\<close>, and
    \<open>None\<close> stands for a card that never answers.
\<close>

section \<open>Not modelled\<close>

text \<open>
  \<^item> \<^verbatim>\<open>hwmon/\<close>: vendored code of the Xilinx runtime (CMS sensors), built only with \<^verbatim>\<open>CMS_SUPPORT\<close>, which the driver undefines.
  \<^item> \<^verbatim>\<open>onic_common.c\<close> prints packets to the log; \<^verbatim>\<open>onic_sysfs.c\<close> and \<^verbatim>\<open>mbox.h\<close> hold no code; \<^verbatim>\<open>Makefile\<close>.
  \<^item> PCI id tables, operation tables and module registration, which only hand the functions to the kernel; log messages;
    register macros nothing uses.
  \<^item> Concurrency within one function of the driver: locks are events of the trace and their order is proved for the context
    window, but the operations of one CPU are not interleaved with another's. Between functions, the card answers
    arbitrarily at every step, so a PF theorem holds for whatever the VFs do and the reverse.
  \<^item> Branches for kernels older than 6.8.
\<close>

end
